(* ===== verification/Prelude.thy ===== *)
theory Prelude
  imports Main "HOL-Library.Word"
begin

text \<open>
  Shared vocabulary of the development: the integer types of \<open>bdk/utils/types.h\<close> at
  their widths, the macros \<open>ALIGN\<close>, \<open>MIN\<close> and \<open>BIT\<close>, byte order
  helpers, and the lemmas on words and lists that the component theories use.
\<close>

unbundle bit_operations_syntax

type_synonym u8 = "8 word"
type_synonym u16 = "16 word"
type_synonym u32 = "32 word"
type_synonym u64 = "64 word"

named_theorems hk_defs "definitions that are always unfolded in component proofs"
named_theorems hk_unat "unsigned readings of machine arithmetic"

subsection \<open>Macros of types.h\<close>

definition ALIGN :: "u32 \<Rightarrow> u32 \<Rightarrow> u32" where
  "ALIGN x a = (x + a - 1) AND NOT (a - 1)"

definition BIT :: "nat \<Rightarrow> u32" where
  "BIT n = push_bit n 1"

definition MIN32 :: "u32 \<Rightarrow> u32 \<Rightarrow> u32" where
  "MIN32 a b = (if a < b then a else b)"

subsection \<open>Generic lemmas\<close>

lemma unat_plus_no_wrap [hk_unat]:
  "unat a + unat b < 2 ^ LENGTH('a) \<Longrightarrow> unat (a + b) = unat a + unat b" for a b :: "'a::len word"
  by (simp add: unat_word_ariths)

lemma unat_minus_no_wrap [hk_unat]:
  "b \<le> a \<Longrightarrow> unat (a - b) = unat a - unat b" for a b :: "'a::len word"
  by (simp add: unat_sub)

lemma unat_minus_lt: "b \<noteq> 0 \<Longrightarrow> b \<le> a \<Longrightarrow> unat (a - b) < unat a" for a b :: "'a::len word"
  using unat_gt_0 [of b] by (simp add: unat_minus_no_wrap word_le_nat_alt)

lemma unat_MIN32: "unat (MIN32 a b) = min (unat a) (unat b)"
  by (auto simp: MIN32_def min_def word_less_nat_alt word_le_nat_alt)

lemma MIN32_le1 [simp]: "MIN32 a b \<le> a" and MIN32_le2 [simp]: "MIN32 a b \<le> b"
  by (auto simp: MIN32_def not_less)

lemma unat_less_pow [simp]: "unat (x :: u32) < 4294967296"
  using unsigned_less [of x] by simp

lemma fold_filter_count:
  "fold (\<lambda>i c. if P i then Suc c else c) xs n = n + length (filter P xs)"
  by (induction xs arbitrary: n) auto

lemma unat_of_nat_u32: "n < 2 ^ 32 \<Longrightarrow> unat (of_nat n :: u32) = n"
  by (simp add: unat_of_nat)

lemma unat_of_nat_minus:
  assumes "i < k" "k \<le> 2 ^ 32"
  shows "unat (of_nat i - of_nat k :: u32) = 2 ^ 32 - k + i"
proof -
  have "(of_nat i - of_nat k :: u32) = of_nat (2 ^ 32 - k + i)"
    using assms by (simp add: of_nat_diff)
  moreover have "2 ^ 32 - k + i < 2 ^ 32" using assms by simp
  ultimately show ?thesis using unat_of_nat_u32 by presburger
qed

lemma sint_of_int_u32: "- (2 ^ 31) \<le> k \<Longrightarrow> k < 2 ^ 31 \<Longrightarrow> sint (of_int k :: u32) = k"
  by (simp add: signed_of_int signed_take_bit_int_eq_self)

lemma sint_of_nat_u32: "n < 2 ^ 31 \<Longrightarrow> sint (of_nat n :: u32) = int n"
  using sint_of_int_u32 [of "int n"] by simp

lemma sint_minus_of_nat_u32: "n \<le> 2 ^ 31 \<Longrightarrow> sint (- of_nat n :: u32) = - int n"
  using sint_of_int_u32 [of "- int n"] by simp

lemma unat_of_int_u32: "0 \<le> k \<Longrightarrow> k < 2 ^ 32 \<Longrightarrow> unat (of_int k :: u32) = nat k"
  by (simp add: unsigned_of_int take_bit_int_eq_self)

lemma unat_drop_bit_9 [hk_unat]: "unat (drop_bit 9 x) = unat x div 512" for x :: u32
  by (simp add: drop_bit_eq_div unat_div)

lemma unat_push_bit_9 [hk_unat]: "unat x < 8388608 \<Longrightarrow> unat (push_bit 9 x) = unat x * 512" for x :: u32
  by (simp add: push_bit_eq_mult unat_word_ariths)

lemma unat_and_511 [hk_unat]: "unat (x AND 511) = unat x mod 512" for x :: u32
proof -
  have "x AND 511 = take_bit 9 x" by (simp add: take_bit_eq_mask mask_numeral)
  then show ?thesis by (simp add: take_bit_eq_mod unat_mod)
qed

lemma and_511_zero: "unat x mod 512 = 0 \<Longrightarrow> x AND 511 = 0" for x :: u32
  by (simp add: word_unat_eq_iff unat_and_511)

end
