(* ===== verification/Util.thy ===== *)
theory Util
  imports Prelude
begin

text \<open>
  \<open>bdk/utils/util.c\<close>: bit counting, the space-trimming string copy, the approximate
  square root, \<open>strtol\<close>/\<open>atoi\<close>, the table-driven CRC-32 and the comparison
  functions handed to \<open>qsort\<close>.
\<close>

subsection \<open>Bit counting\<close>

definition bit_count :: "u32 \<Rightarrow> u8" where
  "bit_count val = fold (\<lambda>i cnt. if drop_bit i val AND 1 \<noteq> 0 then cnt + 1 else cnt) [0..<32] 0"

definition bit_count_mask :: "u8 \<Rightarrow> u32" where
  "bit_count_mask bits = fold (\<lambda>i val. val OR push_bit i 1) [0..<unat bits] 0"

lemma drop_bit_and_one: "(drop_bit i v AND 1 \<noteq> 0) \<longleftrightarrow> bit v i" for v :: "'a::len word"
  by (simp add: and_one_eq bit_iff_odd_drop_bit odd_iff_mod_2_eq_one)

lemma bit_count_acc:
  "n \<le> 32 \<Longrightarrow> fold (\<lambda>i cnt. if drop_bit i v AND 1 \<noteq> 0 then cnt + 1 else cnt) [0..<n] (0 :: u8)
     = of_nat (length (filter (bit v) [0..<n]))" for v :: u32
  by (induction n) (auto simp: drop_bit_and_one)

lemma bit_count_mask_acc:
  "fold (\<lambda>i val. val OR push_bit i 1) [0..<n] (0 :: u32) = mask n"
proof (induction n)
  case 0
  then show ?case by simp
next
  case (Suc n)
  have "mask n OR push_bit n 1 = (mask (Suc n) :: u32)"
    by (rule bit_eqI) (auto simp: bit_simps)
  with Suc show ?case by simp
qed

text \<open>
  \<open>bit_count_mask\<close> gives the mask of the requested number of low bits, all 32 of them
  for every count of 32 and above.
\<close>

theorem bit_count_mask_eq: "bit_count_mask b = mask (unat b)"
  unfolding bit_count_mask_def by (rule bit_count_mask_acc)

text \<open>
  \<open>bit_count\<close> is the number of set bits of its 32 bit argument.
\<close>

theorem unat_bit_count: "unat (bit_count v) = card {i. bit v i}"
proof -
  have "{i. bit v i} = set (filter (bit v) [0..<32])"
    by (auto dest: bit_imp_le_length)
  then have "card {i. bit v i} = length (filter (bit v) [0..<32])"
    using distinct_card [of "filter (bit v) [0..<32]"] by simp
  moreover have "length (filter (bit v) [0..<32]) \<le> 32"
    using length_filter_le [of "bit v" "[0..<32]"] by simp
  ultimately show ?thesis
    by (simp add: bit_count_def bit_count_acc unat_of_nat)
qed

subsection \<open>String copy without surrounding spaces\<close>

text \<open>
  C strings are the list of their characters before the terminating NUL. The first
  argument tells whether the destination pointer is valid, \<open>None\<close> is \<open>NULL\<close>.
\<close>

definition strcpy_ns :: "bool \<Rightarrow> string option \<Rightarrow> string option" where
  "strcpy_ns dst src =
     (case src of
        None \<Rightarrow> None
      | Some s \<Rightarrow>
          if \<not> dst then None
          else let s1 = (if s \<noteq> [] \<and> hd s = CHR '' '' then tl s else s)
               in Some (if s1 \<noteq> [] \<and> last s1 = CHR '' '' then butlast s1 else s1))"

subsection \<open>Approximate square root\<close>

text \<open>The loop may run forever when \<open>tmp_sqrt * tmp_sqrt\<close> wraps around, so it is partial.\<close>

partial_function (option) sqrt64_loop :: "u64 \<Rightarrow> u64 \<Rightarrow> u64 \<Rightarrow> u64 \<Rightarrow> u64 option" where
  "sqrt64_loop num base limit square_root =
     (if base \<le> limit
      then let tmp_sqrt = (base + limit) div 2
           in if tmp_sqrt * tmp_sqrt = num then Some tmp_sqrt
              else if tmp_sqrt * tmp_sqrt < num then sqrt64_loop num (tmp_sqrt + 1) limit base
              else sqrt64_loop num base (tmp_sqrt - 1) square_root
      else Some square_root)"

definition sqrt64 :: "u64 \<Rightarrow> u64 option" where
  "sqrt64 num = sqrt64_loop num 0 num 0"

subsection \<open>strtol and atoi\<close>

definition TULONG_MAX :: u32 where "TULONG_MAX = NOT 0"
definition TLONG_MAX :: u32 where "TLONG_MAX = drop_bit 1 (NOT 0)"
definition TLONG_MIN :: u32 where "TLONG_MIN = NOT TLONG_MAX"

definition chr :: "char \<Rightarrow> int" where
  "chr c = int (of_char c)"

definition ISSPACE :: "int \<Rightarrow> bool" where
  "ISSPACE ch \<longleftrightarrow> (9 \<le> ch \<and> ch \<le> 13) \<or> ch = 32"
definition ISDIGIT :: "int \<Rightarrow> bool" where
  "ISDIGIT ch \<longleftrightarrow> 48 \<le> ch \<and> ch \<le> 57"
definition ISALPHA :: "int \<Rightarrow> bool" where
  "ISALPHA ch \<longleftrightarrow> (97 \<le> ch \<and> ch \<le> 122) \<or> (65 \<le> ch \<and> ch \<le> 90)"
definition ISUPPER :: "int \<Rightarrow> bool" where
  "ISUPPER ch \<longleftrightarrow> 65 \<le> ch \<and> ch \<le> 90"

text \<open>
  The scanning pointer is the rest of the string from the character held in \<open>c\<close>; the
  empty rest is the terminating NUL, which is no space, sign, digit or letter.
\<close>

fun skip_space :: "string \<Rightarrow> string" where
  "skip_space [] = []"
| "skip_space (c # r) = (if ISSPACE (chr c) then skip_space r else c # r)"

definition strtol_digit :: "char \<Rightarrow> int option" where
  "strtol_digit ch =
     (let c = chr ch
      in if ISDIGIT c then Some (c - 48)
         else if ISALPHA c then Some (if ISUPPER c then c - (65 - 10) else c - (97 - 10))
         else None)"

fun strtol_loop :: "int \<Rightarrow> u32 \<Rightarrow> int \<Rightarrow> string \<Rightarrow> u32 \<Rightarrow> int \<Rightarrow> u32 \<times> int \<times> string" where
  "strtol_loop base cutoff cutlim [] acc any = (acc, any, [])"
| "strtol_loop base cutoff cutlim (ch # r) acc any =
     (case strtol_digit ch of
        None \<Rightarrow> (acc, any, ch # r)
      | Some c \<Rightarrow>
          if c \<ge> base then (acc, any, ch # r)
          else if any < 0 \<or> acc > cutoff \<or> (acc = cutoff \<and> c > cutlim)
          then strtol_loop base cutoff cutlim r acc (-1)
          else strtol_loop base cutoff cutlim r (acc * of_int base + of_int c) 1)"

definition strtol_sign :: "string \<Rightarrow> bool \<times> string" where
  "strtol_sign r =
     (case r of
        [] \<Rightarrow> (False, r)
      | c # r' \<Rightarrow> if c = CHR ''-'' then (True, r') else if c = CHR ''+'' then (False, r') else (False, r))"

definition strtol_prefix :: "int \<Rightarrow> string \<Rightarrow> int \<times> string" where
  "strtol_prefix base r =
     (let hex = (base = 0 \<or> base = 16) \<and>
                (case r of c # x # _ \<Rightarrow> c = CHR ''0'' \<and> (x = CHR ''x'' \<or> x = CHR ''X'') | _ \<Rightarrow> False);
          r1 = (if hex then drop 2 r else r);
          base1 = (if hex then 16 else base)
      in (if base1 = 0 then (if r1 \<noteq> [] \<and> hd r1 = CHR ''0'' then 8 else 10) else base1, r1))"

text \<open>Result: the value returned and the offset stored through \<open>endptr\<close>.\<close>

definition strtol :: "string \<Rightarrow> int \<Rightarrow> u32 \<times> nat" where
  "strtol nptr base0 =
     (let r0 = skip_space nptr;
          (neg, r1) = strtol_sign r0;
          (base, r2) = strtol_prefix base0 r1;
          lim = (if neg then - TLONG_MIN else if base = 16 then TULONG_MAX else TLONG_MAX);
          cutlim = uint (lim mod of_int base);
          cutoff = lim div of_int base;
          (acc, any, r) = strtol_loop base cutoff cutlim r2 0 0;
          acc' = (if any < 0 then (if neg then TLONG_MIN else TLONG_MAX)
                  else if neg then - acc else acc)
      in (acc', if any \<noteq> 0 then length nptr - length r else 0))"

definition atoi :: "string \<Rightarrow> int" where
  "atoi nptr = sint (fst (strtol nptr 10))"

subsection \<open>CRC-32\<close>

definition crc32_rem_step :: "u32 \<Rightarrow> u32" where
  "crc32_rem_step rem = (if rem AND 1 \<noteq> 0 then drop_bit 1 rem XOR 0xedb88320 else drop_bit 1 rem)"

definition crc32_table :: "u32 list" where
  "crc32_table = map (\<lambda>i. (crc32_rem_step ^^ 8) (of_nat i)) [0..<256]"

definition crc32_calc :: "u32 \<Rightarrow> u8 list \<Rightarrow> u32" where
  "crc32_calc crc buf =
     NOT (fold (\<lambda>oct crc. drop_bit 8 crc XOR crc32_table ! unat ((crc AND 0xff) XOR ucast oct)) buf (NOT crc))"

subsection \<open>Comparison functions\<close>

definition qsort_compare_int :: "u32 \<Rightarrow> u32 \<Rightarrow> u32" where
  "qsort_compare_int a b = a - b"











text \<open>
  Checksums of consecutive buffers chain.
\<close>

lemma crc32_calc_append: "crc32_calc (crc32_calc crc xs) ys = crc32_calc crc (xs @ ys)"
  by (simp add: crc32_calc_def)

lemma sqrt64_loop_correct:
  assumes "unat num < 2 ^ 32" "unat limit \<le> unat num" "unat base \<le> 2 ^ 32"
    "unat sr * unat sr \<le> unat num"
  shows "\<exists>r. sqrt64_loop num base limit sr = Some r \<and> unat r * unat r \<le> unat num \<and>
    (\<forall>k. k * k = unat num \<longrightarrow> unat base \<le> k \<longrightarrow> k \<le> unat limit \<longrightarrow> unat r = k)"
  using assms
proof (induction "Suc (unat limit) - unat base" arbitrary: base limit sr rule: less_induct)
  case less
  show ?case
  proof (cases "base \<le> limit")
    case False
    then have "unat limit < unat base" by (simp add: word_le_nat_alt)
    with False less.prems show ?thesis
      by (subst sqrt64_loop.simps) auto
  next
    case True
    define t where "t = (base + limit) div 2"
    have bl: "unat base \<le> unat limit" using True by (simp add: word_le_nat_alt)
    have ut: "unat t = (unat base + unat limit) div 2"
      using less.prems bl by (simp add: t_def unat_div unat_word_ariths)
    have t1: "unat base \<le> unat t" "unat t \<le> unat limit" using bl ut by auto
    have tn: "unat t < 2 ^ 32" using t1 less.prems by simp
    have "unat t * unat t < 2 ^ 32 * 2 ^ 32" using tn by (intro mult_strict_mono) auto
    then have ut2: "unat (t * t) = unat t * unat t" by (simp add: unat_word_ariths)
    consider (eq) "t * t = num" | (lt) "t * t \<noteq> num" "t * t < num" | (gt) "t * t \<noteq> num" "\<not> t * t < num" by blast
    then show ?thesis
    proof cases
      case eq
      have "\<And>k. k * k = unat t * unat t \<Longrightarrow> unat t = k" by (metis power2_eq_square power2_eq_iff_nonneg zero_le)
      with eq True ut2 show ?thesis
        by (subst sqrt64_loop.simps) (auto simp: t_def [symmetric])
    next
      case lt
      have ltn: "unat t * unat t < unat num" using lt ut2 by (simp add: word_less_nat_alt)
      have ut': "unat (t + 1) = unat t + 1" using tn by (simp add: unat_word_ariths)
      have bb: "unat base * unat base \<le> unat num" using mult_mono [OF t1(1) t1(1)] ltn by simp
      have kk: "\<And>k. k * k = unat num \<Longrightarrow> unat t + 1 \<le> k"
        using ltn by (metis mult_le_mono not_less_eq_eq Suc_eq_plus1 not_le)
      have "\<exists>r. sqrt64_loop num (t + 1) limit base = Some r \<and> unat r * unat r \<le> unat num \<and>
        (\<forall>k. k * k = unat num \<longrightarrow> unat (t + 1) \<le> k \<longrightarrow> k \<le> unat limit \<longrightarrow> unat r = k)"
        using less.prems t1 ut' tn bb by (intro less.hyps) auto
      with lt True ut' kk show ?thesis
        by (subst sqrt64_loop.simps) (auto simp: t_def [symmetric])
    next
      case gt
      have gtn: "unat num < unat t * unat t" using gt ut2
        by (metis linorder_neqE_nat word_less_nat_alt word_unat_eq_iff)
      have t0: "0 < unat t" using gtn by (cases "unat t") auto
      have ut': "unat (t - 1) = unat t - 1" using t0 by (simp add: unat_minus_one unat_gt_0)
      have kk: "\<And>k. k * k = unat num \<Longrightarrow> k \<le> unat t - 1"
        using gtn t0 by (metis Suc_pred' leI less_Suc_eq_le mult_le_mono not_le)
      have "\<exists>r. sqrt64_loop num base (t - 1) sr = Some r \<and> unat r * unat r \<le> unat num \<and>
        (\<forall>k. k * k = unat num \<longrightarrow> unat base \<le> k \<longrightarrow> k \<le> unat (t - 1) \<longrightarrow> unat r = k)"
        using less.prems t1 ut' t0 by (intro less.hyps) auto
      with gt True ut' kk show ?thesis
        by (subst sqrt64_loop.simps) (auto simp: t_def [symmetric])
    qed
  qed
qed

text \<open>
  The bisection of \<open>sqrt64\<close> returns for every number below 2 to the 32; the result never
  exceeds the square root, and a perfect square gets its root.
\<close>

theorem sqrt64_terminates:
  assumes "unat num < 2 ^ 32"
  shows "\<exists>r. sqrt64 num = Some r \<and> unat r * unat r \<le> unat num \<and> (\<forall>k. k * k = unat num \<longrightarrow> unat r = k)"
proof -
  have "\<And>k. k * k = unat num \<Longrightarrow> k \<le> unat num" by (metis le_square)
  then show ?thesis
    using sqrt64_loop_correct [of num num 0 0] assms unfolding sqrt64_def by auto
qed

text \<open>
  The result of \<open>sqrt64\<close> on a number that is no square need not be its integer square
  root: \<open>sqrt64 15\<close> is 0, not 3, because the search returns the lower end of the interval as it was
  before it was last raised, not the middle that raised it.
\<close>

theorem sqrt64_15: "sqrt64 15 = Some 0"
  by (simp add: sqrt64_def sqrt64_loop.simps)

definition valid_digit :: "int \<Rightarrow> char \<Rightarrow> bool" where
  "valid_digit base ch = (case strtol_digit ch of None \<Rightarrow> False | Some c \<Rightarrow> c < base)"

definition digit_value :: "char \<Rightarrow> nat" where
  "digit_value ch = (case strtol_digit ch of None \<Rightarrow> 0 | Some c \<Rightarrow> nat c)"

definition digits_value :: "nat \<Rightarrow> nat \<Rightarrow> string \<Rightarrow> nat" where
  "digits_value base acc ds = fold (\<lambda>d a. a * base + digit_value d) ds acc"

lemma digits_value_mono: "0 < base \<Longrightarrow> acc \<le> digits_value base acc ds"
proof (induction ds arbitrary: acc)
  case (Cons d ds)
  have "acc \<le> acc * base + digit_value d" using Cons.prems by (cases base) auto
  also have "\<dots> \<le> digits_value base (acc * base + digit_value d) ds" using Cons by simp
  finally show ?case by (simp add: digits_value_def)
qed (simp add: digits_value_def)

lemma strtol_digit_nonneg: "strtol_digit ch = Some c \<Longrightarrow> 0 \<le> c"
  by (auto simp: strtol_digit_def Let_def ISDIGIT_def ISALPHA_def ISUPPER_def split: if_splits)

lemma cutoff_iff:
  fixes a b c l :: nat
  assumes "c < b"
  shows "a * b + c \<le> l \<longleftrightarrow> \<not> (l div b < a \<or> (a = l div b \<and> l mod b < c))"
proof -
  have l: "l = (l div b) * b + l mod b" by simp
  have m: "l mod b < b" using assms by simp
  show ?thesis
  proof (cases "l div b < a")
    case True
    then have "Suc (l div b) * b \<le> a * b" by (intro mult_le_mono1) simp
    moreover have "l < Suc (l div b) * b" using dividend_less_div_times [of b l] assms by simp
    ultimately have "l < a * b" by linarith
    with True show ?thesis by simp
  next
    case False
    show ?thesis
    proof (cases "a = l div b")
      case True
      with l False show ?thesis by (metis add_le_cancel_left not_le)
    next
      case neq: False
      with False have "Suc a \<le> l div b" by simp
      then have "Suc a * b \<le> (l div b) * b" by (intro mult_le_mono1) simp
      moreover have "(l div b) * b \<le> l" by (rule div_times_less_eq_dividend)
      ultimately have "a * b + c \<le> l" using assms by (simp only: mult_Suc)
      with False neq show ?thesis by simp
    qed
  qed
qed

lemma strtol_loop_over:
  "fst (snd (strtol_loop base cutoff cutlim r acc (-1))) = -1 \<and>
   snd (snd (strtol_loop base cutoff cutlim r acc (-1))) = dropWhile (valid_digit base) r"
  by (induction r) (auto simp: valid_digit_def split: option.splits)


abbreviation loop_lim :: "int \<Rightarrow> u32 \<Rightarrow> string \<Rightarrow> u32 \<Rightarrow> int \<Rightarrow> u32 \<times> int \<times> string" where
  "loop_lim base lim \<equiv> strtol_loop base (lim div of_int base) (uint (lim mod of_int base))"

lemma strtol_loop_digit:
  fixes lim :: u32
  assumes base: "0 < base" "base \<le> 36" and any: "0 \<le> any" and v: "valid_digit base ch"
  shows "loop_lim base lim (ch # r) acc any =
    (if unat acc * nat base + digit_value ch \<le> unat lim
     then loop_lim base lim r (of_nat (unat acc * nat base + digit_value ch)) 1
     else loop_lim base lim r acc (-1))"
proof -
  obtain c where c: "strtol_digit ch = Some c" "c < base" "0 \<le> c"
    using v by (auto simp: valid_digit_def strtol_digit_nonneg split: option.splits)
  then have dv: "digit_value ch = nat c" by (simp add: digit_value_def)
  have ub: "unat (of_int base :: u32) = nat base" and uc: "unat (of_int c :: u32) = nat c"
    using base c by (simp_all add: unat_of_int_u32)
  have "uint (lim mod of_int base) < c \<longleftrightarrow> unat lim mod nat base < nat c"
    by (simp add: uint_nat unat_mod ub) linarith
  moreover have "acc > lim div of_int base \<longleftrightarrow> unat lim div nat base < unat acc"
    by (simp add: word_less_nat_alt unat_div ub)
  moreover have "acc = lim div of_int base \<longleftrightarrow> unat acc = unat lim div nat base"
    by (simp add: word_unat_eq_iff unat_div ub)
  ultimately have key: "unat acc * nat base + nat c \<le> unat lim \<longleftrightarrow>
      \<not> (acc > lim div of_int base \<or> (acc = lim div of_int base \<and> uint (lim mod of_int base) < c))"
    using cutoff_iff [of "nat c" "nat base" "unat acc" "unat lim"] c by simp
  have "(of_nat (unat acc * nat base + nat c) :: u32) = acc * of_int base + of_int c"
    using base c by (simp add: of_nat_nat)
  with key c any dv show ?thesis by auto
qed

lemma strtol_loop_stop:
  "\<not> valid_digit base ch \<Longrightarrow> strtol_loop base cutoff cutlim (ch # r) acc any = (acc, any, ch # r)"
  by (auto simp: valid_digit_def split: option.splits)

lemma strtol_loop_fits:
  fixes lim :: u32
  assumes "0 < base" "base \<le> 36" "0 \<le> any"
    "digits_value (nat base) (unat acc) (takeWhile (valid_digit base) r) \<le> unat lim"
  shows "loop_lim base lim r acc any =
    (of_nat (digits_value (nat base) (unat acc) (takeWhile (valid_digit base) r)),
     if takeWhile (valid_digit base) r = [] then any else 1, dropWhile (valid_digit base) r)"
  using assms(3,4)
proof (induction r arbitrary: acc any)
  case Nil
  then show ?case by (simp add: digits_value_def)
next
  case (Cons ch r)
  show ?case
  proof (cases "valid_digit base ch")
    case False
    then show ?thesis by (simp add: strtol_loop_stop digits_value_def del: strtol_loop.simps)
  next
    case True
    let ?a = "unat acc * nat base + digit_value ch"
    have le: "digits_value (nat base) ?a (takeWhile (valid_digit base) r) \<le> unat lim"
      using Cons.prems(2) True by (simp add: digits_value_def)
    then have a: "?a \<le> unat lim" 
      using digits_value_mono [of "nat base" ?a "takeWhile (valid_digit base) r"] assms(1) by linarith
    then have ua: "unat (of_nat ?a :: u32) = ?a"
      using unat_less_pow [of lim] by (intro unat_of_nat_u32) (simp del: unat_less_pow)
    show ?thesis
      using Cons.IH [of 1 "of_nat ?a"] le a ua True
      by (simp add: strtol_loop_digit [OF assms(1,2) Cons.prems(1) True] digits_value_def del: strtol_loop.simps)
  qed
qed

lemma strtol_loop_overflows:
  fixes lim :: u32
  assumes "0 < base" "base \<le> 36" "0 \<le> any" "unat acc \<le> unat lim"
    "unat lim < digits_value (nat base) (unat acc) (takeWhile (valid_digit base) r)"
  shows "\<exists>a. loop_lim base lim r acc any = (a, -1, dropWhile (valid_digit base) r)"
  using assms(3-5)
proof (induction r arbitrary: acc any)
  case Nil
  then show ?case by (simp add: digits_value_def)
next
  case (Cons ch r)
  show ?case
  proof (cases "valid_digit base ch")
    case False
    with Cons.prems show ?thesis by (simp add: digits_value_def)
  next
    case True
    let ?a = "unat acc * nat base + digit_value ch"
    have ua: "?a \<le> unat lim \<Longrightarrow> unat (of_nat ?a :: u32) = ?a"
      using unat_less_pow [of lim] by (intro unat_of_nat_u32) (simp del: unat_less_pow)
    show ?thesis
    proof (cases "?a \<le> unat lim")
      case a: True
      then show ?thesis
        using Cons.IH [of 1 "of_nat ?a"] Cons.prems(3) True ua
        by (simp add: strtol_loop_digit [OF assms(1,2) Cons.prems(1) True] digits_value_def del: strtol_loop.simps)
    next
      case False
      then show ?thesis
        using strtol_loop_over [of base "lim div of_int base" "uint (lim mod of_int base)" r acc] True
        by (auto simp: strtol_loop_digit [OF assms(1,2) Cons.prems(1) True] prod_eq_iff simp del: strtol_loop.simps)
    qed
  qed
qed

text \<open>Reference reading of a decimal integer: exact value, clamped to 32 bits.\<close>

definition atoi_ref :: "string \<Rightarrow> int" where
  "atoi_ref s =
     (let (neg, r) = strtol_sign (dropWhile (\<lambda>c. ISSPACE (chr c)) s);
          v = int (digits_value 10 0 (takeWhile (\<lambda>c. ISDIGIT (chr c)) r))
      in if neg then max (- (2 ^ 31)) (- v) else min (2 ^ 31 - 1) v)"

lemma skip_space_dropWhile: "skip_space r = dropWhile (\<lambda>c. ISSPACE (chr c)) r"
  by (induction r) auto

lemma valid_digit_10: "valid_digit 10 ch \<longleftrightarrow> ISDIGIT (chr ch)"
  by (auto simp: valid_digit_def strtol_digit_def Let_def ISDIGIT_def ISALPHA_def ISUPPER_def)

lemma atoi_eq_ref: "atoi s = atoi_ref s"
proof -
  obtain neg r where nr: "strtol_sign (dropWhile (\<lambda>c. ISSPACE (chr c)) s) = (neg, r)" by fastforce
  define lim :: u32 where "lim = (if neg then - TLONG_MIN else TLONG_MAX)"
  define v where "v = digits_value 10 0 (takeWhile (valid_digit 10) r)"
  have ulim: "unat lim = (if neg then 2147483648 else 2147483647)"
    by (simp add: lim_def TLONG_MIN_def TLONG_MAX_def mask_numeral)
  have loop: "strtol_loop 10 (lim div 10) (uint (lim mod 10)) r 0 0 = loop_lim 10 lim r 0 0" by simp
  obtain acc any r' where l: "loop_lim 10 lim r 0 0 = (acc, any, r')" by (metis prod_cases3)
  have val: "atoi s = sint (if any < 0 then (if neg then TLONG_MIN else TLONG_MAX) else if neg then - acc else acc)"
    using l by (cases neg) (simp_all add: atoi_def strtol_def skip_space_dropWhile nr strtol_prefix_def Let_def lim_def)
  show ?thesis
  proof (cases "v \<le> unat lim")
    case True
    then have "acc = of_nat v" "0 \<le> any"
      using strtol_loop_fits [of 10 0 0 r lim] l by (auto simp: v_def split: if_splits)
    with True ulim val nr show ?thesis
      by (auto simp: atoi_ref_def v_def [symmetric] valid_digit_10 [symmetric] sint_of_nat_u32 sint_minus_of_nat_u32)
  next
    case False
    then have "any = -1"
      using strtol_loop_overflows [of 10 0 0 lim r] l by (auto simp: v_def)
    with False ulim val nr show ?thesis
      by (auto simp: atoi_ref_def v_def [symmetric] valid_digit_10 [symmetric] TLONG_MIN_def TLONG_MAX_def mask_numeral)
  qed
qed

text \<open>
  \<open>atoi\<close> reads an optional sign and the longest run of decimal digits after leading white
  space, and saturates at the ends of the 32 bit range.
\<close>

theorem atoi_reference: "atoi s = atoi_ref s"
  by (rule atoi_eq_ref)

theorem sqrt64_terminates_witness:
  "unat (49 :: u64) < 2 ^ 32 \<and> sqrt64 49 = Some 7"
proof -
  obtain r where r: "sqrt64 49 = Some r" "\<forall>k. k * k = unat (49 :: u64) \<longrightarrow> unat r = k"
    using sqrt64_terminates [of 49] by auto
  have "unat r = 7" using r(2) by (auto dest: spec [of _ 7])
  then have "r = 7" by (simp add: word_unat_eq_iff)
  with r(1) show ?thesis by simp
qed

end
