(* ===== verification/Sprintf.thy ===== *)
theory Sprintf
  imports Util
begin

text \<open>
  \<open>bdk/utils/sprintf.c\<close>: the formatted printing used for labels, file names and SCSI
  strings. The output pointer \<open>sout_buf\<close> becomes the returned string; the variable
  arguments are a list, and taking an argument that is missing or of another type (undefined
  in C) is \<open>None\<close>.
\<close>

datatype va = AInt u32 | AStr string

definition digits16 :: string where
  "digits16 = ''0123456789ABCDEF''"

definition s_putspace :: "int \<Rightarrow> string" where
  "s_putspace fcnt = (if fcnt \<le> 0 then [] else replicate (nat fcnt) (CHR '' ''))"

definition s_puts :: "string \<Rightarrow> char \<Rightarrow> int \<Rightarrow> string" where
  "s_puts s fill fcnt =
     (let fcnt' = (if fcnt \<noteq> 0 then fcnt - int (length s) else fcnt);
          left = (if fcnt \<noteq> 0 \<and> fill \<noteq> CHR ''.'' then s_putspace fcnt' else []);
          right = (if fill = CHR ''.'' then s_putspace fcnt' else [])
      in left @ s @ right)"

text \<open>The digit loop of \<open>_s_putn\<close>: the characters before the ones already stored.\<close>

function putn_digits :: "u32 \<Rightarrow> u32 \<Rightarrow> string \<Rightarrow> string" where
  "putn_digits v base p =
     (let p' = digits16 ! unat (v mod base) # p; v' = v div base
      in if base < 2 \<or> v' = 0 then p' else putn_digits v' base p')"
  by pat_completeness auto
termination
proof (relation "measure (\<lambda>(v, base, p). unat v)")
  fix v base :: u32 and p x y
  assume "y = v div base" "\<not> (base < 2 \<or> y = 0)"
  then have "unat v div unat base \<noteq> 0" "2 \<le> unat base"
    by (auto simp: word_less_nat_alt word_unat_eq_iff unat_div)
  then show "((y, base, x), (v, base, p)) \<in> measure (\<lambda>(v, base, p). unat v)"
    using \<open>y = v div base\<close> by (auto simp: unat_div div_eq_0_iff not_less intro: div_less_dividend)
qed simp

declare putn_digits.simps [simp del]

definition s_putn :: "u32 \<Rightarrow> u32 \<Rightarrow> char \<Rightarrow> int \<Rightarrow> string" where
  "s_putn v base fill fcnt =
     (if base \<noteq> 10 \<and> base \<noteq> 16 then []
      else let negative = (base = 10 \<and> v AND 0x80000000 \<noteq> 0);
               v' = (if negative then - v else v);
               ds = putn_digits v' base [];
               p = (if negative then CHR ''-'' # ds else ds);
               c = fcnt - int (length p);
               pad = (if fill \<noteq> CHR 0x00 then min (nat c) (64 - length p) else 0)
           in s_puts (replicate pad fill @ p) (CHR 0x00) 0)"

fun parse_padding_dec :: "int \<Rightarrow> string \<Rightarrow> int \<times> string" where
  "parse_padding_dec fcnt [] = (fcnt, [])"
| "parse_padding_dec fcnt (ch # r) =
     (if ISDIGIT (chr ch) then parse_padding_dec (fcnt * 10 + (chr ch - 48)) r else (fcnt, ch # r))"

text \<open>Padding after a percent sign: fill character, count, rest of the format.\<close>

fun parse_padding :: "bool \<Rightarrow> string \<Rightarrow> char \<times> int \<times> string" where
  "parse_padding dot [] = (CHR 0x00, 0, [])"
| "parse_padding dot (ch # r) =
     (if ISDIGIT (chr ch) \<or> ch = CHR '' '' \<or> (dot \<and> ch = CHR ''.'')
      then (case r of
              d # r' \<Rightarrow> if ISDIGIT (chr d)
                       then (let (fcnt, r'') = parse_padding_dec (chr d - 48) r' in (ch, fcnt, r''))
                       else (CHR '' '', chr ch - 48, r)
            | [] \<Rightarrow> (CHR '' '', chr ch - 48, []))
      else (CHR 0x00, 0, ch # r))"

lemma length_parse_padding_dec: "length (snd (parse_padding_dec n r)) \<le> length r"
  by (induction n r rule: parse_padding_dec.induct) auto

lemma length_parse_padding: "parse_padding dot r = (f, n, r') \<Longrightarrow> length r' \<le> length r"
  by (cases "(dot, r)" rule: parse_padding.cases)
    (auto split: if_splits list.splits prod.splits,
     (metis length_parse_padding_dec snd_conv le_SucI)+)

function s_format :: "bool \<Rightarrow> string \<Rightarrow> va list \<Rightarrow> string option" where
  "s_format dot [] ap = Some []"
| "s_format dot (ch # fmt) ap =
     (if ch \<noteq> CHR ''%'' then map_option (\<lambda>o1. ch # o1) (s_format dot fmt ap)
      else (case parse_padding dot fmt of
          (fill, fcnt, []) \<Rightarrow> Some []
        | (fill, fcnt, k # fmt') \<Rightarrow>
            if k = CHR ''c'' then
              (case ap of
                 AInt v # ap' \<Rightarrow>
                   let c = char_of (unat v mod 256)
                   in map_option (\<lambda>o1. if c \<noteq> CHR 0x00 then c # o1 else o1) (s_format dot fmt' ap')
               | _ \<Rightarrow> None)
            else if k = CHR ''d'' then
              (case ap of
                 AInt v # ap' \<Rightarrow> map_option (\<lambda>o1. s_putn v 10 fill fcnt @ o1) (s_format dot fmt' ap')
               | _ \<Rightarrow> None)
            else if k = CHR ''s'' then
              (case ap of
                 AStr s # ap' \<Rightarrow> map_option (\<lambda>o1. s_puts s fill fcnt @ o1) (s_format dot fmt' ap')
               | _ \<Rightarrow> None)
            else if k = CHR ''p'' \<or> k = CHR ''P'' \<or> k = CHR ''x'' \<or> k = CHR ''X'' then
              (case ap of
                 AInt v # ap' \<Rightarrow> map_option (\<lambda>o1. s_putn v 16 fill fcnt @ o1) (s_format dot fmt' ap')
               | _ \<Rightarrow> None)
            else if k = CHR ''%'' then map_option (\<lambda>o1. CHR ''%'' # o1) (s_format dot fmt' ap)
            else map_option (\<lambda>o1. CHR ''%'' # k # o1) (s_format dot fmt' ap)))"
  by pat_completeness auto
termination
  by (relation "measure (\<lambda>(dot, fmt, ap). length fmt)")
    (auto dest!: length_parse_padding [OF sym] length_parse_padding)

definition s_printf :: "string \<Rightarrow> va list \<Rightarrow> string option" where
  "s_printf fmt ap = s_format True fmt ap"

definition s_vprintf :: "string \<Rightarrow> va list \<Rightarrow> string option" where
  "s_vprintf fmt ap = s_format False fmt ap"

lemma strtol_digit_digits16: "d < 16 \<Longrightarrow> strtol_digit (digits16 ! d) = Some (int d)"
proof -
  have "\<forall>d \<in> set [0..<16]. strtol_digit (digits16 ! d) = Some (int d)" by code_simp
  then show "d < 16 \<Longrightarrow> strtol_digit (digits16 ! d) = Some (int d)" by simp
qed

lemma putn_digits_spec:
  assumes "2 \<le> unat base" "unat base \<le> 16"
  shows "\<exists>ds. putn_digits v base p = ds @ p \<and> ds \<noteq> [] \<and>
    (\<forall>d \<in> set ds. valid_digit (uint base) d) \<and> digits_value (unat base) 0 ds = unat v"
  using assms
proof (induction v base p rule: putn_digits.induct)
  case (1 v base p)
  let ?d = "digits16 ! unat (v mod base)"
  have "unat (v mod base) < unat base" using 1(2) by (simp add: unat_mod)
  then have d: "strtol_digit ?d = Some (int (unat (v mod base)))"
    using 1(3) by (intro strtol_digit_digits16) simp
  moreover have "uint (v mod base) < uint base"
    using \<open>unat (v mod base) < unat base\<close> by (simp only: word_less_nat_alt [symmetric] word_less_def)
  ultimately have vd: "valid_digit (uint base) ?d" "digit_value ?d = unat v mod unat base"
    by (simp_all add: valid_digit_def digit_value_def flip: unat_mod)
  have b2: "\<not> base < 2" using 1(2) by (simp add: word_less_nat_alt)
  show ?case
  proof (cases "v div base = 0")
    case True
    then have "unat v div unat base = 0" by (metis unat_0 unat_div)
    then have "unat v mod unat base = unat v" using 1(2) by (simp add: div_eq_0_iff)
    with True vd show ?thesis
      by (subst putn_digits.simps) (auto simp: digits_value_def)
  next
    case False
    with b2 obtain ds where ds: "putn_digits (v div base) base (?d # p) = ds @ ?d # p" "ds \<noteq> []"
      "\<forall>d \<in> set ds. valid_digit (uint base) d" "digits_value (unat base) 0 ds = unat (v div base)"
      using 1(1) [OF refl refl] 1(2,3) by auto
    have "digits_value (unat base) 0 (ds @ [?d]) = unat v"
      using ds(4) vd by (simp add: digits_value_def unat_div)
    with False b2 ds vd show ?thesis
      by (subst putn_digits.simps) (auto simp: Let_def intro!: exI [of _ "ds @ [?d]"])
  qed
qed

lemma putn_digits_0:
  assumes "base = 10 \<or> base = 16"
  shows "putn_digits v base [] \<noteq> []" "\<forall>d \<in> set (putn_digits v base []). valid_digit (uint base) d"
    "digits_value (unat base) 0 (putn_digits v base []) = unat v"
  using putn_digits_spec [of base v "[]"] assms by auto

lemma s_puts_plain: "s_puts s (CHR 0x00) 0 = s"
  by (simp add: s_puts_def)

lemma s_putn_nofill: "base = 10 \<or> base = 16 \<Longrightarrow> s_putn v base (CHR 0x00) fcnt =
   (if base = 10 \<and> v AND 0x80000000 \<noteq> 0 then CHR ''-'' # putn_digits (- v) base [] else putn_digits v base [])"
  by (auto simp: s_putn_def s_puts_plain Let_def)

lemma s_printf_single:
  "s_printf ''%d'' [AInt v] = Some (s_putn v 10 (CHR 0x00) 0)"
  "s_printf ''%X'' [AInt v] = Some (s_putn v 16 (CHR 0x00) 0)"
  by (simp_all add: s_printf_def ISDIGIT_def chr_def)

lemma sign_bit_u32: "(v AND 0x80000000 \<noteq> 0) \<longleftrightarrow> 2 ^ 31 \<le> unat v" for v :: u32
proof -
  have "(0x80000000 :: u32) = push_bit 31 1" by simp
  then have "(v AND 0x80000000 \<noteq> 0) \<longleftrightarrow> bit v 31" by (metis and_exp_eq_0_iff_not_bit push_bit_of_1)
  also have "\<dots> \<longleftrightarrow> 2 ^ 31 \<le> unat v"
  proof -
    have "bit v 31 \<longleftrightarrow> bit (unat v) 31" by (simp add: bit_unsigned_iff)
    also have "\<dots> \<longleftrightarrow> odd (unat v div 2147483648)" by (simp add: bit_iff_odd)
    also have "\<dots> \<longleftrightarrow> 2147483648 \<le> unat v"
    proof (cases "2147483648 \<le> unat v")
      case True
      then have "unat v div 2147483648 = 1" using unat_less_pow [of v] by (intro div_nat_eqI) (simp_all del: unat_less_pow)
      with True show ?thesis by simp
    qed simp
    finally show ?thesis by simp
  qed
  finally show ?thesis .
qed
lemma unat_minus_u32: "v \<noteq> 0 \<Longrightarrow> unat (- v) = 2 ^ 32 - unat v" for v :: u32
proof -
  assume "v \<noteq> 0"
  have "- v = of_nat (2 ^ 32 - unat v)"
    using unat_less_pow [of v] by (simp add: of_nat_diff del: unat_less_pow)
  then show ?thesis using \<open>v \<noteq> 0\<close> by (metis unat_of_nat_u32 diff_less unat_gt_0 zero_less_numeral zero_less_power)
qed

lemma putn_digits_head:
  assumes "base = 10 \<or> base = 16"
  obtains d ds where "putn_digits v base [] = d # ds" "valid_digit (uint base) d"
  using putn_digits_0 [OF assms] by (metis list.set_intros(1) neq_Nil_conv)

lemma valid_digit_no_space:
  "valid_digit base d \<Longrightarrow> base \<le> 16 \<Longrightarrow> \<not> ISSPACE (chr d) \<and> d \<noteq> CHR ''-'' \<and> d \<noteq> CHR ''+'' \<and> d \<noteq> CHR ''x'' \<and> d \<noteq> CHR ''X''"
  by (auto simp: valid_digit_def strtol_digit_def ISSPACE_def ISDIGIT_def ISALPHA_def ISUPPER_def chr_def Let_def
    split: if_splits)

lemma takeWhile_all: "\<forall>x \<in> set xs. P x \<Longrightarrow> takeWhile P xs = xs"
  by (simp add: takeWhile_eq_all_conv)

lemma minus_no_space: "\<not> ISSPACE (chr (CHR ''-''))"
  by (simp add: ISSPACE_def chr_def)

text \<open>
  What \<open>%d\<close> prints, \<open>atoi\<close> reads back: every signed 32 bit value survives the
  round trip.
\<close>

theorem printf_d_atoi:
  "\<exists>s. s_printf ''%d'' [AInt v] = Some s \<and> atoi s = sint v"
proof -
  define neg where "neg \<longleftrightarrow> v AND 0x80000000 \<noteq> 0"
  define w where "w = (if neg then - v else v)"
  define ds where "ds = putn_digits w 10 []"
  have out: "s_printf ''%d'' [AInt v] = Some (if neg then CHR ''-'' # ds else ds)"
    unfolding s_printf_single by (simp add: s_putn_nofill neg_def w_def ds_def)
  obtain d ds' where hd: "ds = d # ds'" "valid_digit 10 d"
    using putn_digits_head [of 10 w] unfolding ds_def by auto
  have tw: "takeWhile (\<lambda>c. ISDIGIT (chr c)) ds = ds"
    using putn_digits_0(2) [of 10 w] by (intro takeWhile_all) (auto simp: ds_def valid_digit_10)
  have val: "digits_value 10 0 ds = unat w"
    using putn_digits_0(3) [of 10 w] by (simp add: ds_def)
  have dw: "dropWhile (\<lambda>c. ISSPACE (chr c)) ds = ds" "strtol_sign ds = (False, ds)"
    using hd valid_digit_no_space [OF hd(2)] by (auto simp: strtol_sign_def)
  show ?thesis
  proof (cases neg)
    case True
    then have big: "2 ^ 31 \<le> unat v" by (simp add: neg_def sign_bit_u32)
    then have "v \<noteq> 0" by auto
    then have uw: "unat w = 2 ^ 32 - unat v" using True by (simp add: w_def unat_minus_u32)
    have "unat w \<le> 2 ^ 31" using big uw by simp
    moreover have "- of_nat (unat w) = v" using True by (simp add: w_def)
    ultimately have "sint v = - int (unat w)" using sint_minus_of_nat_u32 by metis
    moreover have "atoi (CHR ''-'' # ds) = - int (unat w)"
      using big uw by (simp add: atoi_eq_ref atoi_ref_def strtol_sign_def minus_no_space tw val)
    ultimately show ?thesis using out True by simp
  next
    case False
    then have small: "unat v < 2147483648" by (simp add: neg_def sign_bit_u32)
    then have "sint v = int (unat v)" using sint_of_nat_u32 [of "unat v"] by simp
    moreover from small have "int (unat v) \<le> 2147483647" by linarith
    then have "atoi ds = int (unat v)"
      using False by (simp add: atoi_eq_ref atoi_ref_def dw tw val w_def)
    ultimately show ?thesis using out False by simp
  qed
qed

text \<open>
  What \<open>%X\<close> prints, \<open>strtol\<close> in base 16 reads back completely: every 32 bit value
  survives the round trip.
\<close>

theorem printf_X_strtol:
  "\<exists>s. s_printf ''%X'' [AInt v] = Some s \<and> strtol s 16 = (v, length s)"
proof -
  define ds where "ds = putn_digits v 16 []"
  have out: "s_printf ''%X'' [AInt v] = Some ds"
    unfolding s_printf_single by (simp add: s_putn_nofill ds_def)
  note all = putn_digits_0(2) [of 16 v, simplified, folded ds_def]
  have ne: "ds \<noteq> []" using putn_digits_0(1) [of 16 v] by (simp add: ds_def)
  have tw: "takeWhile (valid_digit 16) ds = ds" "dropWhile (valid_digit 16) ds = []"
    using all by (simp_all add: takeWhile_all)
  have sp: "skip_space ds = ds" "strtol_sign ds = (False, ds)"
    using ne all valid_digit_no_space [of 16] by (cases ds; auto simp: strtol_sign_def)+
  have pf: "strtol_prefix 16 ds = (16, ds)"
    using all valid_digit_no_space [of 16] by (auto simp: strtol_prefix_def Let_def split: list.splits)
  have max: "unat v \<le> unat TULONG_MAX"
    by (simp add: TULONG_MAX_def word_le_nat_alt [symmetric])
  have "digits_value 16 0 ds = unat v" using putn_digits_0(3) [of 16 v] by (simp add: ds_def)
  then have "strtol_loop 16 (TULONG_MAX div 16) (uint (TULONG_MAX mod 16)) ds 0 0 = (v, 1, [])"
    using strtol_loop_fits [of 16 0 0 ds TULONG_MAX] ne tw max by simp
  then have "strtol ds 16 = (v, length ds)"
    by (simp add: strtol_def sp pf)
  with out show ?thesis by blast
qed

lemma s_printf_literal: "CHR ''%'' \<notin> set s \<Longrightarrow> s_printf s ap = Some s"
  unfolding s_printf_def by (induction s) auto

end
