(* ===== verification/Ums_Base.thy ===== *)
theory Ums_Base
  imports Sprintf
begin

text \<open>
  USB mass storage gadget, \<open>bdk/usb/usb_gadget_ums.c\<close>: data. The gadget structure, its
  bulk context and its logical unit are records with the fields of the C structures; flags
  that C keeps as integers and only sets to 0 or 1 are booleans. The state of the whole
  gadget (\<open>usys\<close>) adds the memory the buffers live in, the text of the status label and
  the \<^emph>\<open>world\<close>: whatever the USB controller, the host and the storage driver keep.
  The world is a type parameter, and what the gadget calls through \<open>usb_ops\<close>, the
  storage driver and the system callbacks is the record \<open>ums_env\<close>.
\<close>

subsection \<open>Constants\<close>

definition USB_BULK_CB_WRAP_LEN :: u32 where "USB_BULK_CB_WRAP_LEN = 31"
definition USB_BULK_CB_SIG :: u32 where "USB_BULK_CB_SIG = 0x43425355"
definition USB_BULK_IN_FLAG :: u8 where "USB_BULK_IN_FLAG = 0x80"
definition USB_BULK_CS_WRAP_LEN :: u32 where "USB_BULK_CS_WRAP_LEN = 13"
definition USB_BULK_CS_SIG :: u32 where "USB_BULK_CS_SIG = 0x53425355"
definition UMS_MAX_LUN :: u8 where "UMS_MAX_LUN = 1"
definition SCSI_MAX_CMD_SZ :: u8 where "SCSI_MAX_CMD_SZ = 16"

definition USB_STATUS_PASS :: u8 where "USB_STATUS_PASS = 0"
definition USB_STATUS_FAIL :: u8 where "USB_STATUS_FAIL = 1"
definition USB_STATUS_PHASE_ERROR :: u8 where "USB_STATUS_PHASE_ERROR = 2"

definition USB_EP_BUFFER_MAX_SIZE :: u32 where "USB_EP_BUFFER_MAX_SIZE = 0x10000"
definition UMS_DISK_LBA_SIZE :: u32 where "UMS_DISK_LBA_SIZE = 512"
definition UMS_DISK_MAX_IO_TRANSFER_64K :: u32 where
  "UMS_DISK_MAX_IO_TRANSFER_64K = drop_bit 9 USB_EP_BUFFER_MAX_SIZE"
definition UMS_DISK_MAX_IO_TRANSFER_32K :: u32 where
  "UMS_DISK_MAX_IO_TRANSFER_32K = UMS_DISK_MAX_IO_TRANSFER_64K div 2"
definition UMS_SCSI_TRANSFER_512K :: u32 where "UMS_SCSI_TRANSFER_512K = drop_bit 9 0x80000"
definition UMS_EP_OUT_MAX_XFER :: u32 where "UMS_EP_OUT_MAX_XFER = 0x800000"
definition SDXC_BUF_ALIGNED :: u32 where "SDXC_BUF_ALIGNED = 0xEF000000"
definition SDMMC_DMA_BUF_SZ :: u32 where "SDMMC_DMA_BUF_SZ = 0x1000000"
definition USB_EP_BULK_IN_BUF_ADDR :: u32 where "USB_EP_BULK_IN_BUF_ADDR = 0xFF000000"
definition USB_EP_BULK_OUT_BUF_ADDR :: u32 where "USB_EP_BULK_OUT_BUF_ADDR = 0xFF800000"
definition USB_EP_BULK_OUT :: u32 where "USB_EP_BULK_OUT = 2"
definition USB_EP_BULK_IN :: u32 where "USB_EP_BULK_IN = 3"
definition USB_EP_CFG_CLEAR :: u32 where "USB_EP_CFG_CLEAR = 0"
definition USB_EP_CFG_STALL :: u32 where "USB_EP_CFG_STALL = 1"

definition USB_XFER_START :: u32 where "USB_XFER_START = 0"
definition USB_XFER_SYNCED_CMD :: u32 where "USB_XFER_SYNCED_CMD = 1000000"
definition USB_XFER_SYNCED_DATA :: u32 where "USB_XFER_SYNCED_DATA = 2000000"
definition USB_XFER_SYNCED :: u32 where "USB_XFER_SYNCED = -1"

definition USB_RES_OK :: int where "USB_RES_OK = 0"
definition USB_ERROR_TIMEOUT :: int where "USB_ERROR_TIMEOUT = 3"
definition USB_ERROR_XFER_ERROR :: int where "USB_ERROR_XFER_ERROR = 5"
definition USB2_ERROR_XFER_EP_DISABLED :: int where "USB2_ERROR_XFER_EP_DISABLED = 28"
definition USB2_ERROR_XFER_NOT_ALIGNED :: int where "USB2_ERROR_XFER_NOT_ALIGNED = 29"

definition UMS_RES_OK :: int where "UMS_RES_OK = 0"
definition UMS_RES_IO_ERROR :: int where "UMS_RES_IO_ERROR = -5"
definition UMS_RES_PROT_FATAL :: int where "UMS_RES_PROT_FATAL = -4"
definition UMS_RES_INVALID_ARG :: int where "UMS_RES_INVALID_ARG = -22"

lemmas ums_result_defs [hk_defs] =
  UMS_RES_OK_def UMS_RES_IO_ERROR_def UMS_RES_PROT_FATAL_def UMS_RES_INVALID_ARG_def USB_RES_OK_def

definition MMC_SD :: u32 where "MMC_SD = 0"
definition MMC_EMMC :: u32 where "MMC_EMMC = 1"

text \<open>SCSI operation codes.\<close>

definition SC_TEST_UNIT_READY :: u8 where "SC_TEST_UNIT_READY = 0x00"
definition SC_REQUEST_SENSE :: u8 where "SC_REQUEST_SENSE = 0x03"
definition SC_READ_6 :: u8 where "SC_READ_6 = 0x08"
definition SC_WRITE_6 :: u8 where "SC_WRITE_6 = 0x0A"
definition SC_INQUIRY :: u8 where "SC_INQUIRY = 0x12"
definition SC_MODE_SELECT_6 :: u8 where "SC_MODE_SELECT_6 = 0x15"
definition SC_MODE_SENSE_6 :: u8 where "SC_MODE_SENSE_6 = 0x1A"
definition SC_START_STOP_UNIT :: u8 where "SC_START_STOP_UNIT = 0x1B"
definition SC_PREVENT_ALLOW_MEDIUM_REMOVAL :: u8 where "SC_PREVENT_ALLOW_MEDIUM_REMOVAL = 0x1E"
definition SC_READ_FORMAT_CAPACITIES :: u8 where "SC_READ_FORMAT_CAPACITIES = 0x23"
definition SC_READ_CAPACITY :: u8 where "SC_READ_CAPACITY = 0x25"
definition SC_READ_10 :: u8 where "SC_READ_10 = 0x28"
definition SC_WRITE_10 :: u8 where "SC_WRITE_10 = 0x2A"
definition SC_VERIFY :: u8 where "SC_VERIFY = 0x2F"
definition SC_SYNCHRONIZE_CACHE :: u8 where "SC_SYNCHRONIZE_CACHE = 0x35"
definition SC_LOG_SENSE :: u8 where "SC_LOG_SENSE = 0x4D"
definition SC_MODE_SELECT_10 :: u8 where "SC_MODE_SELECT_10 = 0x55"
definition SC_MODE_SENSE_10 :: u8 where "SC_MODE_SENSE_10 = 0x5A"
definition SC_READ_12 :: u8 where "SC_READ_12 = 0xA8"
definition SC_WRITE_12 :: u8 where "SC_WRITE_12 = 0xAA"

lemmas scsi_opcode_defs =
  SC_TEST_UNIT_READY_def SC_REQUEST_SENSE_def SC_READ_6_def SC_WRITE_6_def SC_INQUIRY_def
  SC_MODE_SELECT_6_def SC_MODE_SENSE_6_def SC_START_STOP_UNIT_def SC_PREVENT_ALLOW_MEDIUM_REMOVAL_def
  SC_READ_FORMAT_CAPACITIES_def SC_READ_CAPACITY_def SC_READ_10_def SC_WRITE_10_def SC_VERIFY_def
  SC_SYNCHRONIZE_CACHE_def SC_LOG_SENSE_def SC_MODE_SELECT_10_def SC_MODE_SENSE_10_def SC_READ_12_def
  SC_WRITE_12_def

text \<open>Sense key, additional sense code and qualifier, packed in three bytes.\<close>

definition SS_NO_SENSE :: u32 where "SS_NO_SENSE = 0x0"
definition SS_COMMUNICATION_FAILURE :: u32 where "SS_COMMUNICATION_FAILURE = 0x40800"
definition SS_INVALID_COMMAND :: u32 where "SS_INVALID_COMMAND = 0x52000"
definition SS_INVALID_FIELD_IN_CDB :: u32 where "SS_INVALID_FIELD_IN_CDB = 0x52400"
definition SS_LOGICAL_BLOCK_ADDRESS_OUT_OF_RANGE :: u32 where
  "SS_LOGICAL_BLOCK_ADDRESS_OUT_OF_RANGE = 0x52100"
definition SS_MEDIUM_NOT_PRESENT :: u32 where "SS_MEDIUM_NOT_PRESENT = 0x23A00"
definition SS_MEDIUM_REMOVAL_PREVENTED :: u32 where "SS_MEDIUM_REMOVAL_PREVENTED = 0x55302"
definition SS_RESET_OCCURRED :: u32 where "SS_RESET_OCCURRED = 0x62900"
definition SS_SAVING_PARAMETERS_NOT_SUPPORTED :: u32 where
  "SS_SAVING_PARAMETERS_NOT_SUPPORTED = 0x53900"
definition SS_UNRECOVERED_READ_ERROR :: u32 where "SS_UNRECOVERED_READ_ERROR = 0x31100"
definition SS_WRITE_ERROR :: u32 where "SS_WRITE_ERROR = 0x30C02"
definition SS_WRITE_PROTECTED :: u32 where "SS_WRITE_PROTECTED = 0x72700"

lemmas sense_defs =
  SS_NO_SENSE_def SS_COMMUNICATION_FAILURE_def SS_INVALID_COMMAND_def SS_INVALID_FIELD_IN_CDB_def
  SS_LOGICAL_BLOCK_ADDRESS_OUT_OF_RANGE_def SS_MEDIUM_NOT_PRESENT_def SS_MEDIUM_REMOVAL_PREVENTED_def
  SS_RESET_OCCURRED_def SS_SAVING_PARAMETERS_NOT_SUPPORTED_def SS_UNRECOVERED_READ_ERROR_def
  SS_WRITE_ERROR_def SS_WRITE_PROTECTED_def

definition SK :: "u32 \<Rightarrow> u8" where "SK x = ucast (drop_bit 16 x)"
definition ASC :: "u32 \<Rightarrow> u8" where "ASC x = ucast (drop_bit 8 x)"
definition ASCQ :: "u32 \<Rightarrow> u8" where "ASCQ x = ucast x"

subsection \<open>Enumerations and structures\<close>

datatype ums_state =
  UMS_STATE_NORMAL | UMS_STATE_ABORT_BULK_OUT | UMS_STATE_PROTOCOL_RESET | UMS_STATE_EXIT
| UMS_STATE_TERMINATED

datatype data_direction = DATA_DIR_UNKNOWN | DATA_DIR_FROM_HOST | DATA_DIR_TO_HOST | DATA_DIR_NONE

datatype buffer_state = BUF_STATE_EMPTY | BUF_STATE_FULL | BUF_STATE_BUSY

text \<open>The numeric order of the C enumeration is the priority order of exceptions.\<close>

primrec ums_state_num :: "ums_state \<Rightarrow> nat" where
  "ums_state_num UMS_STATE_NORMAL = 0"
| "ums_state_num UMS_STATE_ABORT_BULK_OUT = 1"
| "ums_state_num UMS_STATE_PROTOCOL_RESET = 2"
| "ums_state_num UMS_STATE_EXIT = 3"
| "ums_state_num UMS_STATE_TERMINATED = 4"

lemma ums_state_num_inject: "ums_state_num a = ums_state_num b \<Longrightarrow> a = b"
  by (cases a; cases b; simp)

instantiation ums_state :: linorder
begin

definition less_eq_ums_state :: "ums_state \<Rightarrow> ums_state \<Rightarrow> bool" where
  "less_eq_ums_state a b \<longleftrightarrow> ums_state_num a \<le> ums_state_num b"

definition less_ums_state :: "ums_state \<Rightarrow> ums_state \<Rightarrow> bool" where
  "less_ums_state a b \<longleftrightarrow> ums_state_num a < ums_state_num b"

instance
  by standard (auto simp: less_eq_ums_state_def less_ums_state_def intro: ums_state_num_inject)

end

record sdmmc_storage_t =
  cid_serial :: u32
  sec_cnt :: u32
  boot_mult :: u8

record logical_unit_t =
  storage :: sdmmc_storage_t
  num_sectors :: u32
  offset :: u32
  unmounted :: bool
  ro :: bool
  lun_type :: u32
  partition :: u32
  removable :: bool
  prevent_medium_removal :: bool
  info_valid :: u32
  sense_data :: u32
  sense_data_info :: u32
  unit_attention_data :: u32

record bulk_ctxt_t =
  bulk_in :: u32
  bulk_in_status :: int
  bulk_in_length :: u32
  bulk_in_length_actual :: u32
  bulk_in_buf :: u32
  bulk_in_buf_state :: buffer_state
  bulk_out :: u32
  bulk_out_status :: int
  bulk_out_length :: u32
  bulk_out_length_actual :: u32
  bulk_out_ignore :: bool
  bulk_out_buf :: u32
  bulk_out_buf_state :: buffer_state

record usbd_gadget_ums_t =
  bulk_ctxt :: bulk_ctxt_t
  cmnd_size :: u32
  cmnd :: "u8 list"
  lun_idx :: u32
  lun :: logical_unit_t
  state :: ums_state
  data_dir :: data_direction
  data_size :: u32
  data_size_from_cmnd :: u32
  tag :: u32
  residue :: u32
  usb_amount_left :: u32
  cbw_req_queued :: bool
  phase_error :: bool
  short_packet_received :: bool
  thread_wakeup_needed :: bool
  can_stall :: bool
  timeouts :: u32
  xusb :: bool

record usb_ctxt_t =
  ctxt_type :: u32
  ctxt_partition :: u32
  ctxt_offset :: u32
  ctxt_sectors :: u32
  ctxt_ro :: u32

type_synonym memory = "u32 \<Rightarrow> u8"

record 'w usys =
  ums :: usbd_gadget_ums_t
  mem :: memory
  label_text :: string
  timer_dram :: u32
  timer_status_bar :: u32
  world :: 'w

text \<open>
  What the gadget calls. An endpoint or storage read returns the bytes it stored in the
  buffer it was given, the controller may leave the transferred length unwritten
  (\<open>None\<close>), and writes are given the memory the buffer lies in.
\<close>

record 'w ums_env =
  usbd_flush_endpoint :: "('w \<Rightarrow> u32 \<Rightarrow> 'w) option"
  usbd_set_ep_stall :: "'w \<Rightarrow> u32 \<Rightarrow> u32 \<Rightarrow> 'w"
  usbd_handle_ep0_ctrl_setup :: "'w \<Rightarrow> 'w \<times> int"
  usb_device_ep1_out_read :: "'w \<Rightarrow> u32 \<Rightarrow> u32 \<Rightarrow> u32 \<Rightarrow> 'w \<times> int \<times> u32 option \<times> u8 list"
  usb_device_ep1_out_read_big :: "'w \<Rightarrow> u32 \<Rightarrow> u32 \<Rightarrow> 'w \<times> int \<times> u32 option \<times> u8 list"
  usb_device_ep1_out_reading_finish :: "'w \<Rightarrow> u32 \<Rightarrow> 'w \<times> int \<times> u32 option \<times> u8 list"
  usb_device_ep1_in_write :: "'w \<Rightarrow> memory \<Rightarrow> u32 \<Rightarrow> u32 \<Rightarrow> u32 \<Rightarrow> 'w \<times> int \<times> u32 option"
  usb_device_ep1_in_writing_finish :: "'w \<Rightarrow> memory \<Rightarrow> u32 \<Rightarrow> 'w \<times> int \<times> u32 option"
  usb_device_get_port_in_sleep :: "'w \<Rightarrow> bool"
  sdmmc_storage_read :: "'w \<Rightarrow> u32 \<Rightarrow> u32 \<Rightarrow> 'w \<times> bool \<times> u8 list"
  sdmmc_storage_write :: "'w \<Rightarrow> u32 \<Rightarrow> u32 \<Rightarrow> u8 list \<Rightarrow> 'w \<times> bool"
  get_tmr_ms :: "'w \<Rightarrow> 'w \<times> u32"
  system_maintenance :: "'w \<Rightarrow> bool \<Rightarrow> 'w"
  minerva_periodic_training :: "'w \<Rightarrow> 'w"
  btn_read_vol :: "'w \<Rightarrow> 'w \<times> u32"
  is_t210 :: bool
  usb_device_init :: "'w \<Rightarrow> 'w \<times> int"
  usb_device_enumerate :: "'w \<Rightarrow> 'w \<times> int"
  usb_device_class_send_max_lun :: "'w \<Rightarrow> u8 \<Rightarrow> 'w \<times> int"
  usbd_end :: "'w \<Rightarrow> bool \<Rightarrow> bool \<Rightarrow> 'w"
  sd_end :: "'w \<Rightarrow> 'w"
  sd_mount :: "'w \<Rightarrow> 'w \<times> int"
  sd_unmount :: "'w \<Rightarrow> 'w"
  sd_storage :: "'w \<Rightarrow> sdmmc_storage_t"
  emmc_initialize :: "'w \<Rightarrow> bool \<Rightarrow> 'w \<times> int"
  emmc_set_partition :: "'w \<Rightarrow> u32 \<Rightarrow> 'w"
  emmc_end :: "'w \<Rightarrow> 'w"
  emmc_storage :: "'w \<Rightarrow> sdmmc_storage_t"

subsection \<open>State access\<close>

abbreviation bc :: "'w usys \<Rightarrow> bulk_ctxt_t" where "bc s \<equiv> bulk_ctxt (ums s)"
abbreviation lu :: "'w usys \<Rightarrow> logical_unit_t" where "lu s \<equiv> lun (ums s)"

definition upd_ums :: "(usbd_gadget_ums_t \<Rightarrow> usbd_gadget_ums_t) \<Rightarrow> 'w usys \<Rightarrow> 'w usys" where
  [simp]: "upd_ums f s = s\<lparr>ums := f (ums s)\<rparr>"

definition upd_lun :: "(logical_unit_t \<Rightarrow> logical_unit_t) \<Rightarrow> 'w usys \<Rightarrow> 'w usys" where
  [simp]: "upd_lun f s = s\<lparr>ums := (ums s)\<lparr>lun := f (lun (ums s))\<rparr>\<rparr>"

definition upd_bc :: "(bulk_ctxt_t \<Rightarrow> bulk_ctxt_t) \<Rightarrow> 'w usys \<Rightarrow> 'w usys" where
  [simp]: "upd_bc f s = s\<lparr>ums := (ums s)\<lparr>bulk_ctxt := f (bulk_ctxt (ums s))\<rparr>\<rparr>"

definition set_text :: "string \<Rightarrow> 'w usys \<Rightarrow> 'w usys" where
  [simp]: "set_text t s = s\<lparr>label_text := t\<rparr>"

definition set_sense :: "u32 \<Rightarrow> 'w usys \<Rightarrow> 'w usys" where
  [simp]: "set_sense d s = upd_lun (\<lambda>l. l\<lparr>sense_data := d\<rparr>) s"

definition set_sense_at :: "u32 \<Rightarrow> u32 \<Rightarrow> 'w usys \<Rightarrow> 'w usys" where
  [simp]: "set_sense_at d info s =
     upd_lun (\<lambda>l. l\<lparr>sense_data := d, sense_data_info := info, info_valid := 1\<rparr>) s"

subsection \<open>Memory and byte order\<close>

definition mem_write :: "memory \<Rightarrow> u32 \<Rightarrow> u8 list \<Rightarrow> memory" where
  "mem_write m a bs = (\<lambda>x. if unat (x - a) < length bs then bs ! unat (x - a) else m x)"

definition mem_read :: "memory \<Rightarrow> u32 \<Rightarrow> nat \<Rightarrow> u8 list" where
  "mem_read m a n = map (\<lambda>i. m (a + of_nat i)) [0..<n]"

definition bytes_of_string :: "string \<Rightarrow> u8 list" where
  "bytes_of_string s = map (\<lambda>c. of_char c) s"

definition put_array_le_to_be16 :: "u16 \<Rightarrow> u8 list" where
  "put_array_le_to_be16 val = [ucast (drop_bit 8 val), ucast val]"

definition put_array_le_to_be32 :: "u32 \<Rightarrow> u8 list" where
  "put_array_le_to_be32 val =
     [ucast (drop_bit 24 val), ucast (drop_bit 16 val), ucast (drop_bit 8 val), ucast val]"

text \<open>The readers take the byte array and the index of the first byte.\<close>

definition get_array_be_to_le16 :: "u8 list \<Rightarrow> nat \<Rightarrow> u16" where
  "get_array_be_to_le16 p i = push_bit 8 (ucast (p ! i)) OR ucast (p ! (i + 1))"

definition get_array_be_to_le24 :: "u8 list \<Rightarrow> nat \<Rightarrow> u32" where
  "get_array_be_to_le24 p i =
     push_bit 16 (ucast (p ! i)) OR push_bit 8 (ucast (p ! (i + 1))) OR ucast (p ! (i + 2))"

definition get_array_be_to_le32 :: "u8 list \<Rightarrow> nat \<Rightarrow> u32" where
  "get_array_be_to_le32 p i =
     push_bit 24 (ucast (p ! i)) OR push_bit 16 (ucast (p ! (i + 1))) OR
     push_bit 8 (ucast (p ! (i + 2))) OR ucast (p ! (i + 3))"

lemma length_mem_read [simp]: "length (mem_read m a n) = n"
  by (simp add: mem_read_def)

lemma mem_read_write:
  "n \<le> length bs \<Longrightarrow> n \<le> 2 ^ 32 \<Longrightarrow> mem_read (mem_write m a bs) a n = take n bs"
  by (rule nth_equalityI) (auto simp: mem_read_def mem_write_def unat_of_nat)

definition get_le32 :: "u8 list \<Rightarrow> nat \<Rightarrow> u32" where
  "get_le32 p i =
     ucast (p ! i) OR push_bit 8 (ucast (p ! (i + 1))) OR push_bit 16 (ucast (p ! (i + 2))) OR
     push_bit 24 (ucast (p ! (i + 3)))"

definition put_le32 :: "u32 \<Rightarrow> u8 list" where
  "put_le32 v = [ucast v, ucast (drop_bit 8 v), ucast (drop_bit 16 v), ucast (drop_bit 24 v)]"

text \<open>
  The contract of a byte order: a writer of fixed width and a reader that finds the value
  again at the writer's position in any surrounding bytes.
\<close>

locale byte_codec =
  fixes put :: "'v \<Rightarrow> u8 list" and get :: "u8 list \<Rightarrow> nat \<Rightarrow> 'v" and width :: nat
  assumes length_put: "length (put v) = width"
    and get_put: "get (xs @ put v @ ys) (length xs) = v"
begin

lemma get_put_head: "get (put v @ ys) 0 = v"
  using get_put [of "[]" v ys] by simp

lemma put_inject: "put v = put v' \<Longrightarrow> v = v'"
  by (metis append_Nil2 get_put_head)

text \<open>A value stored in memory is read back from memory.\<close>

lemma get_mem: "width \<le> 2 ^ 32 \<Longrightarrow> get (mem_read (mem_write m a (put v)) a width) 0 = v"
  using get_put_head [of v "[]"] by (simp add: mem_read_write length_put)

end

interpretation be16: byte_codec put_array_le_to_be16 get_array_be_to_le16 2
proof
  fix xs ys and v :: u16
  have "push_bit 8 (ucast (ucast (drop_bit 8 v) :: u8)) OR ucast (ucast v :: u8) = v"
    by (rule bit_eqI) (auto simp: bit_simps dest: bit_imp_le_length)
  then show "get_array_be_to_le16 (xs @ put_array_le_to_be16 v @ ys) (length xs) = v"
    by (simp add: get_array_be_to_le16_def put_array_le_to_be16_def nth_append)
qed (simp add: put_array_le_to_be16_def)

lemma bytes_of_u32:
  "push_bit 24 (ucast (ucast (drop_bit 24 v) :: u8)) OR push_bit 16 (ucast (ucast (drop_bit 16 v) :: u8)) OR
   push_bit 8 (ucast (ucast (drop_bit 8 v) :: u8)) OR ucast (ucast v :: u8) = v" (is "?l = v") for v :: u32
proof (rule bit_eqI)
  fix n :: nat
  consider "n < 8" | "8 \<le> n" "n < 16" | "16 \<le> n" "n < 24" | "24 \<le> n" "n < 32" | "32 \<le> n" by linarith
  then show "bit ?l n \<longleftrightarrow> bit v n"
    by cases (auto simp: bit_simps dest: bit_imp_le_length)
qed

interpretation be32: byte_codec put_array_le_to_be32 get_array_be_to_le32 4
proof
  fix xs ys and v :: u32
  show "get_array_be_to_le32 (xs @ put_array_le_to_be32 v @ ys) (length xs) = v"
    using bytes_of_u32 [of v] by (simp add: get_array_be_to_le32_def put_array_le_to_be32_def nth_append)
qed (simp add: put_array_le_to_be32_def)

interpretation le32: byte_codec put_le32 get_le32 4
proof
  fix xs ys and v :: u32
  show "get_le32 (xs @ put_le32 v @ ys) (length xs) = v"
    using bytes_of_u32 [of v] by (simp add: get_le32_def put_le32_def nth_append or.assoc or.commute or.left_commute)
qed (simp add: put_le32_def)

end
