(* ===== verification/Ums_Xfer.thy ===== *)
theory Ums_Xfer
  imports Ums_Base
begin

text \<open>
  USB mass storage gadget: exceptions, endpoint control and bulk transfers
  (\<open>raise_exception\<close> to \<open>_reset_buffer\<close> of \<open>usb_gadget_ums.c\<close>).
\<close>

definition raise_exception :: "ums_state \<Rightarrow> 'w usys \<Rightarrow> 'w usys" where
  "raise_exception new_state s =
     (if state (ums s) \<le> new_state
      then upd_ums (\<lambda>u. u\<lparr>state := new_state, thread_wakeup_needed := True\<rparr>) s
      else s)"

definition handle_ep0_ctrl :: "'w ums_env \<Rightarrow> 'w usys \<Rightarrow> 'w usys" where
  "handle_ep0_ctrl env s =
     (let (w, res) = usbd_handle_ep0_ctrl_setup env (world s); s1 = s\<lparr>world := w\<rparr>
      in if res \<noteq> 0 then raise_exception UMS_STATE_PROTOCOL_RESET s1 else s1)"

definition wedge_bulk_in_endpoint :: "'w usys \<Rightarrow> int \<times> 'w usys" where
  "wedge_bulk_in_endpoint s = (UMS_RES_OK, s)"

definition set_ep_stall :: "'w ums_env \<Rightarrow> u32 \<Rightarrow> 'w usys \<Rightarrow> int \<times> 'w usys" where
  "set_ep_stall env ep s = (UMS_RES_OK, s\<lparr>world := usbd_set_ep_stall env (world s) ep USB_EP_CFG_STALL\<rparr>)"

definition clear_ep_stall :: "'w ums_env \<Rightarrow> u32 \<Rightarrow> 'w usys \<Rightarrow> int \<times> 'w usys" where
  "clear_ep_stall env ep s = (UMS_RES_OK, s\<lparr>world := usbd_set_ep_stall env (world s) ep USB_EP_CFG_CLEAR\<rparr>)"

definition flush_endpoint :: "'w ums_env \<Rightarrow> u32 \<Rightarrow> 'w usys \<Rightarrow> 'w usys" where
  "flush_endpoint env ep s =
     (case usbd_flush_endpoint env of
        None \<Rightarrow> s
      | Some flush \<Rightarrow> s\<lparr>world := flush (world s) ep\<rparr>)"

definition or_old :: "u32 option \<Rightarrow> u32 \<Rightarrow> u32" where
  "or_old written old = (case written of None \<Rightarrow> old | Some n \<Rightarrow> n)"

definition transfer_start :: "'w ums_env \<Rightarrow> u32 \<Rightarrow> u32 \<Rightarrow> 'w usys \<Rightarrow> 'w usys" where
  "transfer_start env ep sync_timeout s =
     (if ep = bulk_in (bc s)
      then let (w, status, actual) =
                 usb_device_ep1_in_write env (world s) (mem s) (bulk_in_buf (bc s)) (bulk_in_length (bc s))
                   sync_timeout;
               s1 = upd_bc (\<lambda>b. b\<lparr>bulk_in_status := status,
                      bulk_in_length_actual := or_old actual (bulk_in_length_actual b)\<rparr>) (s\<lparr>world := w\<rparr>);
               s2 = (if status = USB_ERROR_XFER_ERROR
                     then flush_endpoint env (bulk_in (bc s1))
                            (set_text ''#FFDD00 Error:# EP IN transfer!'' s1)
                     else if status = USB2_ERROR_XFER_NOT_ALIGNED
                     then set_text ''#FFDD00 Error:# EP IN Buffer not aligned!'' s1
                     else s1)
           in if sync_timeout \<noteq> 0 then upd_bc (\<lambda>b. b\<lparr>bulk_in_buf_state := BUF_STATE_EMPTY\<rparr>) s2 else s2
      else let (w, status, actual, data) =
                 usb_device_ep1_out_read env (world s) (bulk_out_buf (bc s)) (bulk_out_length (bc s)) sync_timeout;
               s1 = upd_bc (\<lambda>b. b\<lparr>bulk_out_status := status,
                      bulk_out_length_actual := or_old actual (bulk_out_length_actual b)\<rparr>)
                      (s\<lparr>world := w, mem := mem_write (mem s) (bulk_out_buf (bc s)) data\<rparr>);
               s2 = (if status = USB_ERROR_XFER_ERROR
                     then flush_endpoint env (bulk_out (bc s1))
                            (set_text ''#FFDD00 Error:# EP OUT transfer!'' s1)
                     else if status = USB2_ERROR_XFER_NOT_ALIGNED
                     then set_text ''#FFDD00 Error:# EP OUT Buffer not aligned!'' s1
                     else s1)
           in if sync_timeout \<noteq> 0 then upd_bc (\<lambda>b. b\<lparr>bulk_out_buf_state := BUF_STATE_FULL\<rparr>) s2 else s2)"

definition transfer_out_big_read :: "'w ums_env \<Rightarrow> 'w usys \<Rightarrow> 'w usys" where
  "transfer_out_big_read env s =
     (let (w, status, actual, data) =
            usb_device_ep1_out_read_big env (world s) (bulk_out_buf (bc s)) (bulk_out_length (bc s));
          s1 = upd_bc (\<lambda>b. b\<lparr>bulk_out_status := status,
                 bulk_out_length_actual := or_old actual (bulk_out_length_actual b)\<rparr>)
                 (s\<lparr>world := w, mem := mem_write (mem s) (bulk_out_buf (bc s)) data\<rparr>);
          s2 = (if status = USB_ERROR_XFER_ERROR
                then flush_endpoint env (bulk_out (bc s1)) (set_text ''#FFDD00 Error:# EP OUT transfer!'' s1)
                else s1)
      in upd_bc (\<lambda>b. b\<lparr>bulk_out_buf_state := BUF_STATE_FULL\<rparr>) s2)"

definition transfer_finish :: "'w ums_env \<Rightarrow> u32 \<Rightarrow> u32 \<Rightarrow> 'w usys \<Rightarrow> 'w usys" where
  "transfer_finish env ep sync_timeout s =
     (if ep = bulk_in (bc s)
      then let (w, status, actual) = usb_device_ep1_in_writing_finish env (world s) (mem s) sync_timeout;
               s1 = upd_bc (\<lambda>b. b\<lparr>bulk_in_status := status,
                      bulk_in_length_actual := or_old actual (bulk_in_length_actual b)\<rparr>) (s\<lparr>world := w\<rparr>);
               s2 = (if status = USB_ERROR_XFER_ERROR
                     then flush_endpoint env (bulk_in (bc s1))
                            (set_text ''#FFDD00 Error:# EP IN transfer!'' s1)
                     else s1)
           in upd_bc (\<lambda>b. b\<lparr>bulk_in_buf_state := BUF_STATE_EMPTY\<rparr>) s2
      else let (w, status, actual, data) = usb_device_ep1_out_reading_finish env (world s) sync_timeout;
               s1 = upd_bc (\<lambda>b. b\<lparr>bulk_out_status := status,
                      bulk_out_length_actual := or_old actual (bulk_out_length_actual b)\<rparr>)
                      (s\<lparr>world := w, mem := mem_write (mem s) (bulk_out_buf (bc s)) data\<rparr>);
               s2 = (if status = USB_ERROR_XFER_ERROR
                     then flush_endpoint env (bulk_out (bc s1))
                            (set_text ''#FFDD00 Error:# EP OUT transfer!'' s1)
                     else s1)
           in upd_bc (\<lambda>b. b\<lparr>bulk_out_buf_state := BUF_STATE_FULL\<rparr>) s2)"

definition reset_buffer :: "u32 \<Rightarrow> 'w usys \<Rightarrow> 'w usys" where
  "reset_buffer ep s =
     (if ep = bulk_in (bc s)
      then upd_bc (\<lambda>b. b\<lparr>bulk_in_buf := USB_EP_BULK_IN_BUF_ADDR\<rparr>) s
      else upd_bc (\<lambda>b. b\<lparr>bulk_out_buf := USB_EP_BULK_OUT_BUF_ADDR\<rparr>) s)"

subsection \<open>What transfers leave alone\<close>

lemma flush_endpoint_frame [simp]:
  "ums (flush_endpoint env ep s) = ums s"
  "mem (flush_endpoint env ep s) = mem s"
  "label_text (flush_endpoint env ep s) = label_text s"
  by (simp_all add: flush_endpoint_def split: option.split)

text \<open>A transfer changes the status fields of the bulk context and nothing else of the gadget.\<close>

lemma transfer_start_ums:
  "ums (transfer_start env ep t s) = (ums s)\<lparr>bulk_ctxt := bc (transfer_start env ep t s)\<rparr>"
  by (simp add: transfer_start_def split_beta Let_def)

lemma transfer_out_big_read_ums:
  "ums (transfer_out_big_read env s) = (ums s)\<lparr>bulk_ctxt := bc (transfer_out_big_read env s)\<rparr>"
  by (simp add: transfer_out_big_read_def split_beta Let_def)

lemma transfer_finish_ums:
  "ums (transfer_finish env ep t s) = (ums s)\<lparr>bulk_ctxt := bc (transfer_finish env ep t s)\<rparr>"
  by (simp add: transfer_finish_def split_beta Let_def)

lemma transfer_start_frame [simp]:
  "cmnd_size (ums (transfer_start env ep t s)) = cmnd_size (ums s)"
  "cmnd (ums (transfer_start env ep t s)) = cmnd (ums s)"
  "lun_idx (ums (transfer_start env ep t s)) = lun_idx (ums s)"
  "lun (ums (transfer_start env ep t s)) = lun (ums s)"
  "state (ums (transfer_start env ep t s)) = state (ums s)"
  "data_dir (ums (transfer_start env ep t s)) = data_dir (ums s)"
  "data_size (ums (transfer_start env ep t s)) = data_size (ums s)"
  "data_size_from_cmnd (ums (transfer_start env ep t s)) = data_size_from_cmnd (ums s)"
  "tag (ums (transfer_start env ep t s)) = tag (ums s)"
  "residue (ums (transfer_start env ep t s)) = residue (ums s)"
  "usb_amount_left (ums (transfer_start env ep t s)) = usb_amount_left (ums s)"
  "cbw_req_queued (ums (transfer_start env ep t s)) = cbw_req_queued (ums s)"
  "phase_error (ums (transfer_start env ep t s)) = phase_error (ums s)"
  "short_packet_received (ums (transfer_start env ep t s)) = short_packet_received (ums s)"
  "thread_wakeup_needed (ums (transfer_start env ep t s)) = thread_wakeup_needed (ums s)"
  "can_stall (ums (transfer_start env ep t s)) = can_stall (ums s)"
  "timeouts (ums (transfer_start env ep t s)) = timeouts (ums s)"
  "xusb (ums (transfer_start env ep t s)) = xusb (ums s)"
  by (subst transfer_start_ums, simp)+

lemma transfer_start_bc_frame [simp]:
  "bulk_in (bc (transfer_start env ep t s)) = bulk_in (bc s)"
  "bulk_in_length (bc (transfer_start env ep t s)) = bulk_in_length (bc s)"
  "bulk_in_buf (bc (transfer_start env ep t s)) = bulk_in_buf (bc s)"
  "bulk_out (bc (transfer_start env ep t s)) = bulk_out (bc s)"
  "bulk_out_length (bc (transfer_start env ep t s)) = bulk_out_length (bc s)"
  "bulk_out_ignore (bc (transfer_start env ep t s)) = bulk_out_ignore (bc s)"
  "bulk_out_buf (bc (transfer_start env ep t s)) = bulk_out_buf (bc s)"
  by (simp_all add: transfer_start_def split_beta Let_def)

lemma transfer_out_big_read_frame [simp]:
  "cmnd_size (ums (transfer_out_big_read env s)) = cmnd_size (ums s)"
  "cmnd (ums (transfer_out_big_read env s)) = cmnd (ums s)"
  "lun_idx (ums (transfer_out_big_read env s)) = lun_idx (ums s)"
  "lun (ums (transfer_out_big_read env s)) = lun (ums s)"
  "state (ums (transfer_out_big_read env s)) = state (ums s)"
  "data_dir (ums (transfer_out_big_read env s)) = data_dir (ums s)"
  "data_size (ums (transfer_out_big_read env s)) = data_size (ums s)"
  "data_size_from_cmnd (ums (transfer_out_big_read env s)) = data_size_from_cmnd (ums s)"
  "tag (ums (transfer_out_big_read env s)) = tag (ums s)"
  "residue (ums (transfer_out_big_read env s)) = residue (ums s)"
  "usb_amount_left (ums (transfer_out_big_read env s)) = usb_amount_left (ums s)"
  "cbw_req_queued (ums (transfer_out_big_read env s)) = cbw_req_queued (ums s)"
  "phase_error (ums (transfer_out_big_read env s)) = phase_error (ums s)"
  "short_packet_received (ums (transfer_out_big_read env s)) = short_packet_received (ums s)"
  "thread_wakeup_needed (ums (transfer_out_big_read env s)) = thread_wakeup_needed (ums s)"
  "can_stall (ums (transfer_out_big_read env s)) = can_stall (ums s)"
  "timeouts (ums (transfer_out_big_read env s)) = timeouts (ums s)"
  "xusb (ums (transfer_out_big_read env s)) = xusb (ums s)"
  by (subst transfer_out_big_read_ums, simp)+

lemma transfer_out_big_read_bc_frame [simp]:
  "bulk_in (bc (transfer_out_big_read env s)) = bulk_in (bc s)"
  "bulk_in_length (bc (transfer_out_big_read env s)) = bulk_in_length (bc s)"
  "bulk_in_buf (bc (transfer_out_big_read env s)) = bulk_in_buf (bc s)"
  "bulk_out (bc (transfer_out_big_read env s)) = bulk_out (bc s)"
  "bulk_out_length (bc (transfer_out_big_read env s)) = bulk_out_length (bc s)"
  "bulk_out_ignore (bc (transfer_out_big_read env s)) = bulk_out_ignore (bc s)"
  "bulk_out_buf (bc (transfer_out_big_read env s)) = bulk_out_buf (bc s)"
  by (simp_all add: transfer_out_big_read_def split_beta Let_def)

lemma transfer_finish_frame [simp]:
  "cmnd_size (ums (transfer_finish env ep t s)) = cmnd_size (ums s)"
  "cmnd (ums (transfer_finish env ep t s)) = cmnd (ums s)"
  "lun_idx (ums (transfer_finish env ep t s)) = lun_idx (ums s)"
  "lun (ums (transfer_finish env ep t s)) = lun (ums s)"
  "state (ums (transfer_finish env ep t s)) = state (ums s)"
  "data_dir (ums (transfer_finish env ep t s)) = data_dir (ums s)"
  "data_size (ums (transfer_finish env ep t s)) = data_size (ums s)"
  "data_size_from_cmnd (ums (transfer_finish env ep t s)) = data_size_from_cmnd (ums s)"
  "tag (ums (transfer_finish env ep t s)) = tag (ums s)"
  "residue (ums (transfer_finish env ep t s)) = residue (ums s)"
  "usb_amount_left (ums (transfer_finish env ep t s)) = usb_amount_left (ums s)"
  "cbw_req_queued (ums (transfer_finish env ep t s)) = cbw_req_queued (ums s)"
  "phase_error (ums (transfer_finish env ep t s)) = phase_error (ums s)"
  "short_packet_received (ums (transfer_finish env ep t s)) = short_packet_received (ums s)"
  "thread_wakeup_needed (ums (transfer_finish env ep t s)) = thread_wakeup_needed (ums s)"
  "can_stall (ums (transfer_finish env ep t s)) = can_stall (ums s)"
  "timeouts (ums (transfer_finish env ep t s)) = timeouts (ums s)"
  "xusb (ums (transfer_finish env ep t s)) = xusb (ums s)"
  by (subst transfer_finish_ums, simp)+

lemma transfer_finish_bc_frame [simp]:
  "bulk_in (bc (transfer_finish env ep t s)) = bulk_in (bc s)"
  "bulk_in_length (bc (transfer_finish env ep t s)) = bulk_in_length (bc s)"
  "bulk_in_buf (bc (transfer_finish env ep t s)) = bulk_in_buf (bc s)"
  "bulk_out (bc (transfer_finish env ep t s)) = bulk_out (bc s)"
  "bulk_out_length (bc (transfer_finish env ep t s)) = bulk_out_length (bc s)"
  "bulk_out_ignore (bc (transfer_finish env ep t s)) = bulk_out_ignore (bc s)"
  "bulk_out_buf (bc (transfer_finish env ep t s)) = bulk_out_buf (bc s)"
  by (simp_all add: transfer_finish_def split_beta Let_def)

lemma transfer_in_mem [simp]:
  "mem (transfer_start env (bulk_in (bc s)) t s) = mem s"
  "mem (transfer_finish env (bulk_in (bc s)) t s) = mem s"
  by (simp_all add: transfer_start_def transfer_finish_def split_beta Let_def)

end
