(* ===== verification/Ums_Scsi.thy ===== *)
theory Ums_Scsi
  imports Ums_Xfer
begin

text \<open>
  USB mass storage gadget: the SCSI command handlers \<open>_scsi_read\<close> to
  \<open>_scsi_read_format_capacities\<close> of \<open>usb_gadget_ums.c\<close>. A handler returns the C result (a
  reply length or a negative \<open>ums_result\<close>) and the new state.
\<close>

subsection \<open>READ\<close>

text \<open>
  One iteration's storage read and the accounting that follows it: the sectors read (0 on an
  error) and the state with the bulk-in buffer set up.
\<close>

definition scsi_read_chunk :: "'w ums_env \<Rightarrow> u32 \<Rightarrow> u32 \<Rightarrow> bool \<Rightarrow> u32 \<Rightarrow> 'w usys \<Rightarrow> u32 \<times> 'w usys" where
  "scsi_read_chunk env lba_offset amount0 first_read sdmmc_buf s =
     (let (w, fail, data) = sdmmc_storage_read env (world s) (offset (lu s) + lba_offset) amount0;
          s1 = s\<lparr>world := w, mem := mem_write (mem s) sdmmc_buf data\<rparr>;
          amount = (if fail then 0 else amount0);
          s2 = (if first_read then s1 else transfer_finish env (bulk_in (bc s1)) USB_XFER_SYNCED s1);
          s3 = upd_ums (\<lambda>u. u\<lparr>residue := residue u - push_bit 9 amount\<rparr>) s2;
          s4 = upd_bc (\<lambda>b. b\<lparr>bulk_in_length := push_bit 9 amount,
                 bulk_in_buf_state := BUF_STATE_FULL, bulk_in_buf := sdmmc_buf\<rparr>) s3
      in (amount, s4))"

lemma scsi_read_chunk_amount:
  "scsi_read_chunk env lba a f buf s = (n, t) \<Longrightarrow> n = 0 \<or> n = a"
  by (auto simp: scsi_read_chunk_def Let_def split_beta)

text \<open>
  The transfer loop. Every iteration that continues has moved at least one sector, so it
  ends after at most \<open>amount_left\<close> iterations.
\<close>

function scsi_read_loop :: "'w ums_env \<Rightarrow> u32 \<Rightarrow> u32 \<Rightarrow> u32 \<Rightarrow> bool \<Rightarrow> u32 \<Rightarrow> 'w usys \<Rightarrow> 'w usys" where
  "scsi_read_loop env lba_offset amount_left max_io_transfer first_read sdmmc_buf s =
     (let amount0 = MIN32 (MIN32 amount_left max_io_transfer) (num_sectors (lu s) - lba_offset)
      in if amount0 = 0
         then upd_bc (\<lambda>b. b\<lparr>bulk_in_length := 0, bulk_in_buf_state := BUF_STATE_FULL\<rparr>)
                (set_sense_at SS_LOGICAL_BLOCK_ADDRESS_OUT_OF_RANGE lba_offset s)
         else case scsi_read_chunk env lba_offset amount0 first_read sdmmc_buf s of (amount, s4) \<Rightarrow>
                if amount = 0
                then set_sense_at SS_UNRECOVERED_READ_ERROR lba_offset
                       (set_text ''#FFDD00 Error:# SDMMC Read!'' s4)
                else if amount_left - amount = 0 then s4
                else scsi_read_loop env (lba_offset + amount) (amount_left - amount) max_io_transfer False
                       (sdmmc_buf + push_bit 9 amount) (transfer_start env (bulk_in (bc s4)) USB_XFER_START s4))"
  by pat_completeness auto
termination
proof (relation "measure (\<lambda>(env, lba, left, m, f, buf, s). unat left)", goal_cases)
  case 1
  then show ?case by simp
next
  case prems: (2 env lba left m f buf s a0 n t)
  then have "n \<noteq> 0" "n = a0" by (auto dest: scsi_read_chunk_amount [OF sym])
  moreover have "a0 \<le> left" unfolding prems(1) using MIN32_le1 order_trans by blast
  ultimately have "unat (left - n) < unat left" using unat_minus_lt by blast
  then show ?case by simp
qed

declare scsi_read_loop.simps [simp del]

definition scsi_read :: "'w ums_env \<Rightarrow> 'w usys \<Rightarrow> int \<times> 'w usys" where
  "scsi_read env s =
     (let c = cmnd (ums s);
          lba_offset = (if c ! 0 = SC_READ_6 then get_array_be_to_le24 c 1 else get_array_be_to_le32 c 2)
      in if c ! 0 \<noteq> SC_READ_6 \<and> c ! 1 AND NOT 0x18 \<noteq> 0
         then (UMS_RES_INVALID_ARG, set_sense SS_INVALID_FIELD_IN_CDB s)
         else if lba_offset \<ge> num_sectors (lu s)
         then (UMS_RES_INVALID_ARG, set_sense SS_LOGICAL_BLOCK_ADDRESS_OUT_OF_RANGE
                 (set_text ''#FF8000 Warn:# Read - Out of range! Host notified.'' s))
         else let amount_left = drop_bit 9 (data_size_from_cmnd (ums s))
              in if amount_left = 0 then (UMS_RES_IO_ERROR, s)
                 else let max_io_transfer = (if amount_left \<ge> UMS_SCSI_TRANSFER_512K
                            then UMS_DISK_MAX_IO_TRANSFER_64K else UMS_DISK_MAX_IO_TRANSFER_32K)
                      in (UMS_RES_IO_ERROR,
                          scsi_read_loop env lba_offset amount_left max_io_transfer True SDXC_BUF_ALIGNED s))"

subsection \<open>WRITE\<close>

text \<open>
  Asking the host for more data: \<open>Inl\<close> ends the command, \<open>Inr\<close> gives the next
  \<open>usb_lba_offset\<close> and \<open>amount_left_to_req\<close>.
\<close>

definition scsi_write_request ::
  "'w ums_env \<Rightarrow> u32 \<Rightarrow> u32 \<Rightarrow> 'w usys \<Rightarrow> 'w usys + (u32 \<times> u32 \<times> 'w usys)" where
  "scsi_write_request env usb_lba_offset amount_left_to_req s =
     (if amount_left_to_req > 0
      then let amount = MIN32 amount_left_to_req UMS_EP_OUT_MAX_XFER
           in if usb_lba_offset \<ge> num_sectors (lu s)
              then Inl (set_sense_at SS_LOGICAL_BLOCK_ADDRESS_OUT_OF_RANGE usb_lba_offset
                          (set_text ''#FFDD00 Error:# Write - Past last sector!'' s))
              else Inr (usb_lba_offset + drop_bit 9 amount, amount_left_to_req - amount,
                        transfer_out_big_read env
                          (upd_bc (\<lambda>b. b\<lparr>bulk_out_length := amount\<rparr>)
                             (upd_ums (\<lambda>u. u\<lparr>usb_amount_left := usb_amount_left u - amount\<rparr>) s)))
      else Inr (usb_lba_offset, amount_left_to_req, s))"

definition comm_failure_text :: "int \<Rightarrow> string" where
  "comm_failure_text status =
     (case s_printf ''#FFDD00 Error:# Write - Comm failure %d!'' [AInt (of_int status)] of
        Some t \<Rightarrow> t | None \<Rightarrow> [])"

text \<open>
  Bytes of the received buffer to write: not past the last sector, not more than was asked
  for, whole sectors only.
\<close>

definition scsi_write_amount :: "u32 \<Rightarrow> 'w usys \<Rightarrow> u32" where
  "scsi_write_amount lba_offset s =
     (let actual = bulk_out_length_actual (bc s);
          room = num_sectors (lu s) - lba_offset;
          amount1 = (if room < drop_bit 9 actual then push_bit 9 room else actual);
          amount2 = MIN32 amount1 (bulk_out_length (bc s))
      in amount2 - (amount2 AND 511))"

text \<open>Did the host decide to stop early?\<close>

definition scsi_write_stop_early :: "'w usys \<Rightarrow> bool \<times> 'w usys" where
  "scsi_write_stop_early s =
     (if bulk_out_length_actual (bc s) < bulk_out_length (bc s)
      then (True, upd_ums (\<lambda>u. u\<lparr>short_packet_received := True\<rparr>)
                    (set_text ''#FFDD00 Error:# Empty Write!'' s))
      else (False, s))"

text \<open>Draining a full buffer: whether to leave the loop, \<open>lba_offset\<close>, \<open>amount_left_to_write\<close>.\<close>

definition scsi_write_drain :: "'w ums_env \<Rightarrow> u32 \<Rightarrow> u32 \<Rightarrow> 'w usys \<Rightarrow> bool \<times> u32 \<times> u32 \<times> 'w usys" where
  "scsi_write_drain env lba_offset amount_left_to_write s0 =
     (let s = upd_bc (\<lambda>b. b\<lparr>bulk_out_buf_state := BUF_STATE_EMPTY\<rparr>) s0;
          amount0 = scsi_write_amount lba_offset s
      in if bulk_out_status (bc s) \<noteq> 0
         then (True, lba_offset, amount_left_to_write,
               set_text (comm_failure_text (bulk_out_status (bc s)))
                 (set_sense_at SS_COMMUNICATION_FAILURE lba_offset s))
         else if amount0 = 0
         then case scsi_write_stop_early s of (stop, t) \<Rightarrow> (stop, lba_offset, amount_left_to_write, t)
         else case sdmmc_storage_write env (world s) (offset (lu s) + lba_offset) (drop_bit 9 amount0)
                     (mem_read (mem s) (bulk_out_buf (bc s)) (unat amount0)) of (w, fail) \<Rightarrow>
                let amount = (if fail then 0 else amount0);
                    lba_offset' = lba_offset + drop_bit 9 amount;
                    left' = amount_left_to_write - amount;
                    s1 = upd_ums (\<lambda>u. u\<lparr>residue := residue u - amount\<rparr>) (s\<lparr>world := w\<rparr>)
                in if amount = 0
                   then (True, lba_offset', left',
                         set_sense_at SS_WRITE_ERROR lba_offset'
                           (set_text ''#FFDD00 Error:# SDMMC Write!'' s1))
                   else case scsi_write_stop_early s1 of (stop, t) \<Rightarrow> (stop, lba_offset', left', t))"

partial_function (option) scsi_write_loop ::
  "'w ums_env \<Rightarrow> u32 \<Rightarrow> u32 \<Rightarrow> u32 \<Rightarrow> u32 \<Rightarrow> 'w usys \<Rightarrow> 'w usys option" where
  "scsi_write_loop env usb_lba_offset lba_offset amount_left_to_req amount_left_to_write s =
     (if amount_left_to_write > 0
      then (case scsi_write_request env usb_lba_offset amount_left_to_req s of
              Inl s' \<Rightarrow> Some s'
            | Inr x \<Rightarrow>
                (case x of (usb_lba_offset', amount_left_to_req', s1) \<Rightarrow>
                   if bulk_out_buf_state (bc s1) = BUF_STATE_FULL
                   then (case scsi_write_drain env lba_offset amount_left_to_write s1 of
                           (stop, lba_offset', amount_left_to_write', s2) \<Rightarrow>
                             if stop then Some s2
                             else scsi_write_loop env usb_lba_offset' lba_offset' amount_left_to_req'
                                    amount_left_to_write' s2)
                   else scsi_write_loop env usb_lba_offset' lba_offset amount_left_to_req'
                          amount_left_to_write s1))
      else Some s)"

declare scsi_write_loop.simps [code]

text \<open>\<open>None\<close>: the command never returns.\<close>

definition scsi_write :: "'w ums_env \<Rightarrow> 'w usys \<Rightarrow> (int \<times> 'w usys) option" where
  "scsi_write env s =
     (let c = cmnd (ums s);
          lba_offset = (if c ! 0 = SC_WRITE_6 then get_array_be_to_le24 c 1 else get_array_be_to_le32 c 2)
      in if ro (lu s)
         then Some (UMS_RES_INVALID_ARG, set_sense SS_WRITE_PROTECTED
                      (set_text ''#FF8000 Warn:# Write - Read only! Host notified.'' s))
         else if c ! 0 \<noteq> SC_WRITE_6 \<and> c ! 1 AND NOT 0x18 \<noteq> 0
         then Some (UMS_RES_INVALID_ARG, set_sense SS_INVALID_FIELD_IN_CDB s)
         else if lba_offset \<ge> num_sectors (lu s)
         then Some (UMS_RES_INVALID_ARG, set_sense SS_LOGICAL_BLOCK_ADDRESS_OUT_OF_RANGE
                      (set_text ''#FF8000 Warn:# Write - Out of range! Host notified.'' s))
         else map_option (\<lambda>s'. (UMS_RES_IO_ERROR, s'))
                (scsi_write_loop env lba_offset lba_offset (data_size_from_cmnd (ums s))
                   (data_size_from_cmnd (ums s)) s))"

subsection \<open>VERIFY\<close>

function scsi_verify_loop :: "'w ums_env \<Rightarrow> u32 \<Rightarrow> u32 \<Rightarrow> 'w usys \<Rightarrow> 'w usys" where
  "scsi_verify_loop env lba_offset verification_length s =
     (if verification_length > 0
      then let amount0 = MIN32 (MIN32 verification_length (drop_bit 9 USB_EP_BUFFER_MAX_SIZE))
                           (num_sectors (lu s) - lba_offset)
           in if amount0 = 0
              then set_sense_at SS_LOGICAL_BLOCK_ADDRESS_OUT_OF_RANGE lba_offset s
              else let (w, fail, data) = sdmmc_storage_read env (world s) (offset (lu s) + lba_offset) amount0;
                       s1 = s\<lparr>world := w, mem := mem_write (mem s) (bulk_in_buf (bc s)) data\<rparr>
                   in if fail
                      then set_sense_at SS_UNRECOVERED_READ_ERROR lba_offset
                             (set_text ''#FFDD00 Error:# File verify!'' s1)
                      else scsi_verify_loop env (lba_offset + amount0) (verification_length - amount0) s1
      else s)"
  by pat_completeness auto
termination
proof (relation "measure (\<lambda>(env, lba, left, s). unat left)", goal_cases)
  case 1
  then show ?case by simp
next
  case prems: (2 env lba left s)
  then have "MIN32 (MIN32 left (drop_bit 9 USB_EP_BUFFER_MAX_SIZE)) (num_sectors (lu s) - lba) \<noteq> 0" by simp
  moreover have "MIN32 (MIN32 left (drop_bit 9 USB_EP_BUFFER_MAX_SIZE)) (num_sectors (lu s) - lba) \<le> left"
    using MIN32_le1 order_trans by blast
  ultimately have "unat (left - MIN32 (MIN32 left (drop_bit 9 USB_EP_BUFFER_MAX_SIZE)) (num_sectors (lu s) - lba))
      < unat left"
    by (rule unat_minus_lt)
  with prems show ?case by auto
qed

declare scsi_verify_loop.simps [simp del]

definition scsi_verify :: "'w ums_env \<Rightarrow> 'w usys \<Rightarrow> int \<times> 'w usys" where
  "scsi_verify env s =
     (let c = cmnd (ums s); lba_offset = get_array_be_to_le32 c 2
      in if lba_offset \<ge> num_sectors (lu s)
         then (UMS_RES_INVALID_ARG, set_sense SS_LOGICAL_BLOCK_ADDRESS_OUT_OF_RANGE
                 (set_text ''#FF8000 Warn:# Verif - Out of range! Host notified.'' s))
         else if c ! 1 AND NOT 0x10 \<noteq> 0
         then (UMS_RES_INVALID_ARG, set_sense SS_INVALID_FIELD_IN_CDB s)
         else let verification_length = ucast (get_array_be_to_le16 c 7) :: u32
              in if verification_length = 0 then (UMS_RES_IO_ERROR, s)
                 else (UMS_RES_OK, scsi_verify_loop env lba_offset verification_length s))"

subsection \<open>INQUIRY\<close>

definition partition_name :: "u32 \<Rightarrow> string" where
  "partition_name p =
     (if p = 1 then ''GPP'' else if p = 2 then ''BOOT0'' else if p = 3 then ''BOOT1'' else [])"

definition inquiry_serial :: "logical_unit_t \<Rightarrow> string" where
  "inquiry_serial l =
     (case s_printf ''%04X%s''
             [AInt (cid_serial (storage l)), AStr (if lun_type l = MMC_SD then '' SD '' else '' eMMC '')] of
        Some t \<Rightarrow> t | None \<Rightarrow> []) @
     (if partition l = 0 then ''RAW'' else partition_name (partition l))"

definition inquiry_product :: "logical_unit_t \<Rightarrow> string option" where
  "inquiry_product l =
     (if partition l = 0 then s_printf ''%s'' [AStr ''SD RAW'']
      else if partition l = 1 \<or> partition l = 2 \<or> partition l = 3
      then s_printf ''%s%s'' [AStr (if lun_type l = MMC_SD then ''SD '' else ''eMMC ''),
                              AStr (partition_name (partition l))]
      else None)"

definition put_string :: "memory \<Rightarrow> u32 \<Rightarrow> string \<Rightarrow> memory" where
  "put_string m a t = mem_write m a (bytes_of_string t @ [0])"

definition scsi_inquiry :: "'w usys \<Rightarrow> int \<times> 'w usys" where
  "scsi_inquiry s =
     (let c = cmnd (ums s); buf = bulk_in_buf (bc s); m0 = mem_write (mem s) buf (replicate 36 0)
      in if c ! 1 = 1 \<and> c ! 2 = 0x80
         then let m1 = mem_write m0 buf [0, c ! 2, 0, 20];
                  txt = inquiry_serial (lu s);
                  m2 = put_string m1 (buf + 4) txt;
                  m3 = mem_write m2 (buf + 4 + of_nat (length txt)) (replicate (20 - length txt) 0x20)
              in (24, s\<lparr>mem := m3\<rparr>)
         else let m1 = mem_write m0 buf [0, if removable (lu s) then 0x80 else 0, 6, 2, 31];
                  m2 = put_string m1 (buf + 8) ''hekate'';
                  m3 = (case inquiry_product (lu s) of None \<Rightarrow> m2 | Some t \<Rightarrow> put_string m2 (buf + 16) t);
                  m4 = put_string m3 (buf + 32) ''1.00''
              in (36, s\<lparr>mem := m4\<rparr>))"

subsection \<open>Sense, capacity and mode pages\<close>

definition scsi_request_sense :: "'w usys \<Rightarrow> int \<times> 'w usys" where
  "scsi_request_sense s =
     (let buf = bulk_in_buf (bc s);
          sd = sense_data (lu s);
          sdinfo = sense_data_info (lu s);
          valid = push_bit 7 (info_valid (lu s));
          s1 = upd_lun (\<lambda>l. l\<lparr>sense_data := SS_NO_SENSE, sense_data_info := 0, info_valid := 0\<rparr>) s;
          m0 = mem_write (mem s) buf (replicate 18 0);
          m1 = mem_write m0 buf [ucast (valid OR 0x70)];
          m2 = mem_write m1 (buf + 2) [SK sd];
          m3 = mem_write m2 (buf + 3) (put_array_le_to_be32 sdinfo);
          m4 = mem_write m3 (buf + 7) [18 - 8];
          m5 = mem_write m4 (buf + 12) [ASC sd];
          m6 = mem_write m5 (buf + 13) [ASCQ sd]
      in (18, s1\<lparr>mem := m6\<rparr>))"

definition scsi_read_capacity :: "'w usys \<Rightarrow> int \<times> 'w usys" where
  "scsi_read_capacity s =
     (let buf = bulk_in_buf (bc s); c = cmnd (ums s); lba = get_array_be_to_le32 c 2; pmi = c ! 8
      in if pmi > 1 \<or> (pmi = 0 \<and> lba \<noteq> 0)
         then (UMS_RES_INVALID_ARG, set_sense SS_INVALID_FIELD_IN_CDB s)
         else let m1 = mem_write (mem s) buf (put_array_le_to_be32 (num_sectors (lu s) - 1));
                  m2 = mem_write m1 (buf + 4) (put_array_le_to_be32 UMS_DISK_LBA_SIZE)
              in (8, s\<lparr>mem := m2\<rparr>))"

definition scsi_log_sense :: "'w usys \<Rightarrow> int \<times> 'w usys" where
  "scsi_log_sense s =
     (let buf0 = bulk_in_buf (bc s);
          c = cmnd (ums s);
          pc = drop_bit 6 (c ! 2);
          page_code = c ! 2 AND 0x3F;
          sub_page_code = c ! 3
      in if c ! 1 AND 1 \<noteq> 0
         then (UMS_RES_INVALID_ARG, set_sense SS_SAVING_PARAMETERS_NOT_SUPPORTED s)
         else if pc \<noteq> 1
         then (UMS_RES_INVALID_ARG, set_sense SS_INVALID_FIELD_IN_CDB s)
         else let m0 = mem_write (mem s) buf0 (replicate 8 0)
              in if page_code = 0 \<and> sub_page_code = 0
                 then let m1 = mem_write m0 buf0 [0x00];
                          m2 = mem_write m1 (buf0 + 4) [0x00, 0x0D];
                          len = 6
                      in (6, s\<lparr>mem := mem_write m2 (buf0 + 2) (put_array_le_to_be16 (len - 4))\<rparr>)
                 else if page_code = 0x0d \<and> sub_page_code = 0
                 then let m1 = mem_write m0 buf0 [0x0D];
                          m2 = mem_write m1 (buf0 + 4)
                                 (put_array_le_to_be16 0 @ [1, 2, 0, 35] @ put_array_le_to_be16 0 @ [1, 2, 0, 60]);
                          len = 16
                      in (16, s\<lparr>mem := mem_write m2 (buf0 + 2) (put_array_le_to_be16 (len - 4))\<rparr>)
                 else (UMS_RES_INVALID_ARG, set_sense SS_INVALID_FIELD_IN_CDB (s\<lparr>mem := m0\<rparr>)))"

definition caching_page :: "bool \<Rightarrow> u8 list" where
  "caching_page changeable_values =
     [0x08, 18] @
     (if changeable_values then replicate 18 0
      else [0x04, 0] @ put_array_le_to_be16 0xFFFF @ put_array_le_to_be16 0x0000 @
           put_array_le_to_be16 0xFFFF @ put_array_le_to_be16 0xFFFF @ replicate 8 0)"

definition scsi_mode_sense :: "'w usys \<Rightarrow> int \<times> 'w usys" where
  "scsi_mode_sense s =
     (let buf0 = bulk_in_buf (bc s);
          c = cmnd (ums s);
          pc = drop_bit 6 (c ! 2);
          page_code = c ! 2 AND 0x3F;
          changeable_values = (pc = 1);
          all_pages = (page_code = 0x3F)
      in if c ! 1 AND NOT 0x08 \<noteq> 0
         then (UMS_RES_INVALID_ARG, set_sense SS_INVALID_FIELD_IN_CDB s)
         else if pc = 3
         then (UMS_RES_INVALID_ARG, set_sense SS_SAVING_PARAMETERS_NOT_SUPPORTED s)
         else let m0 = mem_write (mem s) buf0 (replicate 8 0);
                  wp = (if ro (lu s) then 0x80 else 0x00);
                  six = (c ! 0 = SC_MODE_SENSE_6);
                  m1 = (if six then mem_write m0 (buf0 + 2) [wp] else mem_write m0 (buf0 + 3) [wp]);
                  hdr = (if six then 4 else 8)
              in if page_code = 0x08 \<or> all_pages
                 then let m2 = mem_write m1 (buf0 + of_nat hdr) (caching_page changeable_values);
                          len = hdr + 20;
                          m3 = (if six then mem_write m2 buf0 [of_nat (len - 1)]
                                else mem_write m2 buf0 (put_array_le_to_be16 (of_nat (len - 2))))
                      in (int len, s\<lparr>mem := m3\<rparr>)
                 else (UMS_RES_INVALID_ARG, set_sense SS_INVALID_FIELD_IN_CDB (s\<lparr>mem := m1\<rparr>)))"

definition scsi_read_format_capacities :: "'w usys \<Rightarrow> int \<times> 'w usys" where
  "scsi_read_format_capacities s =
     (let buf = bulk_in_buf (bc s);
          m0 = mem_write (mem s) buf [0, 0, 0, 8];
          m1 = mem_write m0 (buf + 4) (put_array_le_to_be32 (num_sectors (lu s)));
          m2 = mem_write m1 (buf + 8) (put_array_le_to_be32 UMS_DISK_LBA_SIZE);
          m3 = mem_write m2 (buf + 8) [0x02]
      in (12, s\<lparr>mem := m3\<rparr>))"

subsection \<open>Medium control\<close>

definition scsi_start_stop :: "'w usys \<Rightarrow> int \<times> 'w usys" where
  "scsi_start_stop s =
     (let c = cmnd (ums s)
      in if \<not> removable (lu s)
         then (UMS_RES_INVALID_ARG, set_sense SS_INVALID_COMMAND s)
         else if c ! 1 AND NOT 0x01 \<noteq> 0 \<or> c ! 4 AND NOT 0x03 \<noteq> 0
         then (UMS_RES_INVALID_ARG, set_sense SS_INVALID_FIELD_IN_CDB s)
         else let loej = c ! 4 AND 0x02; start = c ! 4 AND 0x01
              in if start \<noteq> 0
                 then if unmounted (lu s) then (UMS_RES_INVALID_ARG, set_sense SS_MEDIUM_NOT_PRESENT s)
                      else (UMS_RES_OK, s)
                 else if prevent_medium_removal (lu s)
                 then (UMS_RES_INVALID_ARG, set_sense SS_MEDIUM_REMOVAL_PREVENTED
                         (set_text ''#C7EA46 Status:# Unload attempt prevented'' s))
                 else if loej = 0 then (UMS_RES_OK, s)
                 else (UMS_RES_OK, upd_lun (\<lambda>l. l\<lparr>unmounted := True\<rparr>) s))"

definition scsi_prevent_allow_removal :: "'w usys \<Rightarrow> int \<times> 'w usys" where
  "scsi_prevent_allow_removal s =
     (let c = cmnd (ums s)
      in if \<not> removable (lu s)
         then (UMS_RES_INVALID_ARG, set_sense SS_INVALID_COMMAND s)
         else if c ! 4 AND NOT 0x01 \<noteq> 0
         then (UMS_RES_INVALID_ARG, set_sense SS_INVALID_FIELD_IN_CDB s)
         else (UMS_RES_OK, upd_lun (\<lambda>l. l\<lparr>prevent_medium_removal := (c ! 4 AND 0x01 \<noteq> 0)\<rparr>) s))"

end
