(* ===== verification/Ums_Main.thy ===== *)
theory Ums_Main
  imports Ums_Scsi
begin

text \<open>
  USB mass storage gadget: command checking and dispatch, the data phase that ends a command,
  the command and status wrappers, exception handling and the gadget's main loop
  (\<open>_check_scsi_cmd\<close> to \<open>usb_device_gadget_ums\<close> of \<open>usb_gadget_ums.c\<close>).
\<close>

subsection \<open>Checking a command\<close>

definition check_scsi_cmd ::
  "u32 \<Rightarrow> data_direction \<Rightarrow> u32 \<Rightarrow> bool \<Rightarrow> 'w usys \<Rightarrow> int \<times> 'w usys" where
  "check_scsi_cmd size0 dir0 cmd_mask needs_medium s =
     (let dir = (if data_size_from_cmnd (ums s) = 0 then DATA_DIR_NONE else dir0);
          s1 = (if data_size (ums s) < data_size_from_cmnd (ums s)
                then upd_ums (\<lambda>u. u\<lparr>data_size_from_cmnd := data_size u, phase_error := True\<rparr>) s else s);
          s2 = upd_ums (\<lambda>u. u\<lparr>residue := data_size u, usb_amount_left := data_size u\<rparr>) s1
      in if data_dir (ums s2) \<noteq> dir \<and> data_size_from_cmnd (ums s2) > 0
         then (UMS_RES_INVALID_ARG, upd_ums (\<lambda>u. u\<lparr>phase_error := True\<rparr>) s2)
         else if size0 > cmnd_size (ums s2)
         then (UMS_RES_INVALID_ARG, upd_ums (\<lambda>u. u\<lparr>phase_error := True\<rparr>) s2)
         else
           let csize = cmnd_size (ums s2);
               op = cmnd (ums s2) ! 0;
               s3 = (if op \<noteq> SC_REQUEST_SENSE
                     then upd_lun (\<lambda>l. l\<lparr>sense_data := SS_NO_SENSE, sense_data_info := 0, info_valid := 0\<rparr>) s2
                     else s2)
           in if unit_attention_data (lu s3) \<noteq> SS_NO_SENSE \<and> op \<noteq> SC_INQUIRY \<and> op \<noteq> SC_REQUEST_SENSE
              then (UMS_RES_INVALID_ARG,
                    upd_lun (\<lambda>l. l\<lparr>sense_data := unit_attention_data l, unit_attention_data := SS_NO_SENSE\<rparr>) s3)
              else
                let s4 = upd_ums (\<lambda>u. u\<lparr>cmnd := (cmnd u)[1 := cmnd u ! 1 AND 0x1F]\<rparr>) s3
                in if list_ex (\<lambda>i. cmnd (ums s4) ! i \<noteq> 0 \<and> cmd_mask AND BIT i = 0) [1..<unat csize]
                   then (UMS_RES_INVALID_ARG, set_sense SS_INVALID_FIELD_IN_CDB s4)
                   else if unmounted (lu s4) \<and> needs_medium
                   then (UMS_RES_INVALID_ARG, set_sense SS_MEDIUM_NOT_PRESENT s4)
                   else (UMS_RES_OK, s4))"

subsection \<open>Dispatch\<close>

text \<open>A command without a diverging handler: set the size, check, run the handler.\<close>

definition scsi_run ::
  "u32 \<Rightarrow> u32 \<Rightarrow> data_direction \<Rightarrow> u32 \<Rightarrow> bool \<Rightarrow> ('w usys \<Rightarrow> int \<times> 'w usys) \<Rightarrow> 'w usys \<Rightarrow> int \<times> 'w usys" where
  "scsi_run from_cmnd csize dir cmd_mask needs_medium handler s =
     (let (reply, s1) = check_scsi_cmd csize dir cmd_mask needs_medium
                          (upd_ums (\<lambda>u. u\<lparr>data_size_from_cmnd := from_cmnd\<rparr>) s)
      in if reply = 0 then handler s1 else (reply, s1))"

definition scsi_run_write ::
  "'w ums_env \<Rightarrow> u32 \<Rightarrow> u32 \<Rightarrow> u32 \<Rightarrow> 'w usys \<Rightarrow> (int \<times> 'w usys) option" where
  "scsi_run_write env from_cmnd csize cmd_mask s =
     (let (reply, s1) = check_scsi_cmd csize DATA_DIR_FROM_HOST cmd_mask True
                          (upd_ums (\<lambda>u. u\<lparr>data_size_from_cmnd := from_cmnd\<rparr>) s)
      in if reply = 0 then scsi_write env s1 else Some (reply, s1))"

definition invalid_command :: "'w usys \<Rightarrow> int \<times> 'w usys" where
  "invalid_command s = (UMS_RES_INVALID_ARG, set_sense SS_INVALID_COMMAND s)"

definition len6 :: "u8 \<Rightarrow> u32" where
  "len6 b = push_bit 9 (if b = 0 then 256 else ucast b)"

definition scsi_dispatch :: "'w ums_env \<Rightarrow> 'w usys \<Rightarrow> (int \<times> 'w usys) option" where
  "scsi_dispatch env s =
     (let c = cmnd (ums s); op = c ! 0;
          be16 = ucast (get_array_be_to_le16 c 7) :: u32;
          be32 = get_array_be_to_le32 c 6
      in if op = SC_INQUIRY then
           Some (scsi_run (ucast (c ! 4)) 6 DATA_DIR_TO_HOST
                   (if c ! 1 = 1 \<and> c ! 2 = 0x80 then 0x16 else 0x10) False scsi_inquiry s)
         else if op = SC_LOG_SENSE then
           Some (scsi_run be16 10 DATA_DIR_TO_HOST 0x186 False scsi_log_sense s)
         else if op = SC_MODE_SELECT_6 then
           Some (scsi_run (ucast (c ! 4)) 6 DATA_DIR_FROM_HOST 0x12 False invalid_command s)
         else if op = SC_MODE_SELECT_10 then
           Some (scsi_run be16 10 DATA_DIR_FROM_HOST 0x182 False invalid_command s)
         else if op = SC_MODE_SENSE_6 then
           Some (scsi_run (ucast (c ! 4)) 6 DATA_DIR_TO_HOST 0x16 False scsi_mode_sense s)
         else if op = SC_MODE_SENSE_10 then
           Some (scsi_run be16 10 DATA_DIR_TO_HOST 0x186 False scsi_mode_sense s)
         else if op = SC_PREVENT_ALLOW_MEDIUM_REMOVAL then
           Some (scsi_run 0 6 DATA_DIR_NONE 0x10 False scsi_prevent_allow_removal s)
         else if op = SC_READ_6 then
           Some (scsi_run (len6 (c ! 4)) 6 DATA_DIR_TO_HOST 0x1E True (scsi_read env) s)
         else if op = SC_READ_10 then
           Some (scsi_run (push_bit 9 be16) 10 DATA_DIR_TO_HOST 0x1BE True (scsi_read env) s)
         else if op = SC_READ_12 then
           Some (scsi_run (push_bit 9 be32) 12 DATA_DIR_TO_HOST 0x3FE True (scsi_read env) s)
         else if op = SC_READ_CAPACITY then
           Some (scsi_run 8 10 DATA_DIR_TO_HOST 0x13C True scsi_read_capacity s)
         else if op = SC_READ_FORMAT_CAPACITIES then
           Some (scsi_run be16 10 DATA_DIR_TO_HOST 0x180 True scsi_read_format_capacities s)
         else if op = SC_REQUEST_SENSE then
           Some (scsi_run (ucast (c ! 4)) 6 DATA_DIR_TO_HOST 0x10 False scsi_request_sense s)
         else if op = SC_START_STOP_UNIT then
           Some (scsi_run 0 6 DATA_DIR_NONE 0x12 False scsi_start_stop s)
         else if op = SC_SYNCHRONIZE_CACHE then
           Some (scsi_run 0 10 DATA_DIR_NONE 0x1BC True (\<lambda>t. (0, t)) s)
         else if op = SC_TEST_UNIT_READY then
           Some (scsi_run 0 6 DATA_DIR_NONE 0 True (\<lambda>t. (0, t)) s)
         else if op = SC_VERIFY then
           Some (scsi_run 0 10 DATA_DIR_NONE 0x1BE True (scsi_verify env) s)
         else if op = SC_WRITE_6 then scsi_run_write env (len6 (c ! 4)) 6 0x1E s
         else if op = SC_WRITE_10 then scsi_run_write env (push_bit 9 be16) 10 0x1BE s
         else if op = SC_WRITE_12 then scsi_run_write env (push_bit 9 be32) 12 0x3FE s
         else Some (scsi_run 0 (cmnd_size (ums s)) DATA_DIR_UNKNOWN 0xFF False invalid_command s))"

definition scsi_set_reply :: "int \<Rightarrow> 'w usys \<Rightarrow> 'w usys" where
  "scsi_set_reply reply0 s =
     (let reply = (if reply0 = UMS_RES_INVALID_ARG then 0 else reply0)
      in if reply \<ge> 0 \<and> data_dir (ums s) = DATA_DIR_TO_HOST
         then let len = MIN32 (of_int reply) (data_size_from_cmnd (ums s))
              in upd_ums (\<lambda>u. u\<lparr>residue := residue u - len\<rparr>)
                   (upd_bc (\<lambda>b. b\<lparr>bulk_in_length := len, bulk_in_buf_state := BUF_STATE_FULL\<rparr>) s)
         else s)"

definition parse_scsi_cmd :: "'w ums_env \<Rightarrow> 'w usys \<Rightarrow> (int \<times> 'w usys) option" where
  "parse_scsi_cmd env s =
     map_option (\<lambda>(reply, s'). (UMS_RES_OK, scsi_set_reply reply s'))
       (scsi_dispatch env (upd_ums (\<lambda>u. u\<lparr>phase_error := False, short_packet_received := False\<rparr>) s))"

subsection \<open>Ending the data phase\<close>

function pad_with_zeros_loop :: "'w ums_env \<Rightarrow> u32 \<Rightarrow> 'w usys \<Rightarrow> 'w usys" where
  "pad_with_zeros_loop env current_len_to_keep s =
     (if usb_amount_left (ums s) > 0
      then let nsend = MIN32 (usb_amount_left (ums s)) USB_EP_BUFFER_MAX_SIZE;
               s1 = s\<lparr>mem := mem_write (mem s) (bulk_in_buf (bc s) + current_len_to_keep)
                               (replicate (unat (nsend - current_len_to_keep)) 0)\<rparr>;
               s2 = transfer_start env (bulk_in (bc s1)) USB_XFER_SYNCED_DATA
                      (upd_bc (\<lambda>b. b\<lparr>bulk_in_length := nsend\<rparr>) s1)
           in pad_with_zeros_loop env 0 (upd_ums (\<lambda>u. u\<lparr>usb_amount_left := usb_amount_left u - nsend\<rparr>) s2)
      else s)"
  by pat_completeness auto
termination
proof (relation "measure (\<lambda>(env, keep, s). unat (usb_amount_left (ums s)))", goal_cases)
  case 1
  then show ?case by simp
next
  case prems: (2 env keep s)
  then have "MIN32 (usb_amount_left (ums s)) USB_EP_BUFFER_MAX_SIZE \<noteq> 0"
    by (auto simp: MIN32_def USB_EP_BUFFER_MAX_SIZE_def)
  then have "unat (usb_amount_left (ums s) - MIN32 (usb_amount_left (ums s)) USB_EP_BUFFER_MAX_SIZE)
      < unat (usb_amount_left (ums s))"
    by (rule unat_minus_lt) simp
  with prems show ?case by simp
qed

declare pad_with_zeros_loop.simps [simp del]

definition pad_with_zeros :: "'w ums_env \<Rightarrow> 'w usys \<Rightarrow> int \<times> 'w usys" where
  "pad_with_zeros env s =
     (let s1 = upd_bc (\<lambda>b. b\<lparr>bulk_in_buf_state := BUF_STATE_EMPTY\<rparr>) s;
          current_len_to_keep = bulk_in_length (bc s1);
          s2 = upd_ums (\<lambda>u. u\<lparr>usb_amount_left := current_len_to_keep + residue u\<rparr>) s1
      in (UMS_RES_OK, pad_with_zeros_loop env current_len_to_keep s2))"

definition throw_away_data :: "'w ums_env \<Rightarrow> 'w usys \<Rightarrow> int \<times> 'w usys" where
  "throw_away_data env s =
     (if bulk_out_buf_state (bc s) \<noteq> BUF_STATE_EMPTY \<or> usb_amount_left (ums s) > 0
      then if bulk_out_buf_state (bc s) = BUF_STATE_EMPTY \<and> usb_amount_left (ums s) > 0
           then let amount = MIN32 (usb_amount_left (ums s)) USB_EP_BUFFER_MAX_SIZE;
                    s1 = transfer_start env (bulk_out (bc s)) USB_XFER_SYNCED_DATA
                           (upd_bc (\<lambda>b. b\<lparr>bulk_out_length := amount\<rparr>) s)
                in (UMS_RES_OK, upd_ums (\<lambda>u. u\<lparr>usb_amount_left := usb_amount_left u - amount\<rparr>) s1)
           else let s1 = (if bulk_out_buf_state (bc s) = BUF_STATE_FULL
                          then upd_bc (\<lambda>b. b\<lparr>bulk_out_buf_state := BUF_STATE_EMPTY\<rparr>) s else s)
                in if bulk_out_length_actual (bc s1) \<noteq> bulk_out_length (bc s1) \<or> bulk_out_status (bc s1) \<noteq> USB_RES_OK
                   then (UMS_RES_PROT_FATAL, raise_exception UMS_STATE_ABORT_BULK_OUT s1)
                   else (UMS_RES_OK, s1)
      else (UMS_RES_OK, s))"

definition finish_reply :: "'w ums_env \<Rightarrow> 'w usys \<Rightarrow> int \<times> 'w usys" where
  "finish_reply env s =
     (case data_dir (ums s) of
        DATA_DIR_NONE \<Rightarrow> (UMS_RES_OK, s)
      | DATA_DIR_UNKNOWN \<Rightarrow>
          if can_stall (ums s)
          then let (_, s1) = set_ep_stall env (bulk_out (bc s)) s;
                   (rc, s2) = set_ep_stall env (bulk_in (bc s1)) s1
               in (rc, set_text ''#FFDD00 Error:# Direction unknown. Stalled both EP!'' s2)
          else (UMS_RES_OK, s)
      | DATA_DIR_TO_HOST \<Rightarrow>
          let (rc, s1) =
                (if data_size (ums s) \<noteq> 0
                 then if residue (ums s) = 0
                      then (UMS_RES_OK, transfer_start env (bulk_in (bc s)) USB_XFER_SYNCED_DATA s)
                      else if can_stall (ums s)
                      then let t = transfer_start env (bulk_in (bc s)) USB_XFER_SYNCED_DATA s;
                               (rc, t') = set_ep_stall env (bulk_in (bc t)) t
                           in (rc, set_text ''#FFDD00 Error:# Residue. Stalled EP IN!'' t')
                      else pad_with_zeros env s
                 else (UMS_RES_OK, s))
          in (rc, reset_buffer (bulk_in (bc s1)) s1)
      | DATA_DIR_FROM_HOST \<Rightarrow>
          if residue (ums s) \<noteq> 0
          then if short_packet_received (ums s)
               then (UMS_RES_PROT_FATAL, raise_exception UMS_STATE_ABORT_BULK_OUT s)
               else throw_away_data env s
          else (UMS_RES_OK, s))"

subsection \<open>Command and status wrappers\<close>

text \<open>The packed structures \<open>bulk_recv_pkt_t\<close> and \<open>bulk_send_pkt_t\<close> as bytes, little endian.\<close>

record bulk_recv_pkt_t =
  cbw_Signature :: u32
  cbw_Tag :: u32
  cbw_DataTransferLength :: u32
  cbw_Flags :: u8
  cbw_Lun :: u8
  cbw_Length :: u8
  cbw_CDB :: "u8 list"

definition decode_cbw :: "u8 list \<Rightarrow> bulk_recv_pkt_t" where
  "decode_cbw p =
     \<lparr>cbw_Signature = get_le32 p 0, cbw_Tag = get_le32 p 4, cbw_DataTransferLength = get_le32 p 8,
      cbw_Flags = p ! 12, cbw_Lun = p ! 13, cbw_Length = p ! 14, cbw_CDB = take 16 (drop 15 p)\<rparr>"

definition encode_csw :: "u32 \<Rightarrow> u32 \<Rightarrow> u8 \<Rightarrow> u8 list" where
  "encode_csw tg res status = put_le32 USB_BULK_CS_SIG @ put_le32 tg @ put_le32 res @ [status]"

text \<open>The timeout bookkeeping at the head of \<open>_received_cbw\<close>.\<close>

definition cbw_timeouts :: "'w ums_env \<Rightarrow> 'w usys \<Rightarrow> 'w usys" where
  "cbw_timeouts env s =
     (let status = bulk_out_status (bc s);
          s1 = (if status = USB2_ERROR_XFER_EP_DISABLED \<or>
                   (status = USB_ERROR_TIMEOUT \<and> removable (lu s) \<and> \<not> prevent_medium_removal (lu s))
                then if status = USB_ERROR_TIMEOUT
                     then if usb_device_get_port_in_sleep env (world s)
                          then upd_ums (\<lambda>u. u\<lparr>timeouts := timeouts u + 14\<rparr>)
                                 (set_text ''#C7EA46 Status:# EP in sleep'' s)
                          else if \<not> xusb (ums s) then upd_ums (\<lambda>u. u\<lparr>timeouts := timeouts u + 4\<rparr>) s
                          else s
                     else upd_ums (\<lambda>u. u\<lparr>timeouts := timeouts u + 4\<rparr>) s
                else s);
          s2 = (if unmounted (lu s1)
                then let t = upd_ums (\<lambda>u. u\<lparr>timeouts := timeouts u + 1\<rparr>)
                               (set_text ''#C7EA46 Status:# Medium unmounted'' s1)
                     in if status = 0 then upd_ums (\<lambda>u. u\<lparr>timeouts := timeouts u + 3\<rparr>) t else t
                else s1)
      in if timeouts (ums s2) > 20 then raise_exception UMS_STATE_EXIT s2 else s2)"

definition accept_cbw :: "bulk_recv_pkt_t \<Rightarrow> 'w usys \<Rightarrow> 'w usys" where
  "accept_cbw cbw s =
     (let n = unat (cbw_Length cbw);
          dir = (if cbw_Flags cbw AND USB_BULK_IN_FLAG \<noteq> 0 then DATA_DIR_TO_HOST else DATA_DIR_FROM_HOST);
          s1 = upd_ums (\<lambda>u. u\<lparr>cmnd_size := ucast (cbw_Length cbw),
                 cmnd := take n (cbw_CDB cbw) @ drop n (cmnd u),
                 data_size := cbw_DataTransferLength cbw,
                 data_dir := (if cbw_DataTransferLength cbw = 0 then DATA_DIR_NONE else dir),
                 lun_idx := ucast (cbw_Lun cbw), tag := cbw_Tag cbw\<rparr>) s
      in if \<not> unmounted (lu s1) then upd_ums (\<lambda>u. u\<lparr>timeouts := 0\<rparr>) s1 else s1)"

definition received_cbw :: "'w ums_env \<Rightarrow> 'w usys \<Rightarrow> int \<times> 'w usys" where
  "received_cbw env s =
     (let bad = (bulk_out_status (bc s) \<noteq> 0);
          s1 = (if bad \<or> unmounted (lu s) then cbw_timeouts env s else s)
      in if bad \<or> bulk_out_ignore (bc s)
         then (UMS_RES_INVALID_ARG, s1)
         else
           let s2 = upd_ums (\<lambda>u. u\<lparr>cbw_req_queued := False\<rparr>) s1;
               cbw = decode_cbw (mem_read (mem s2) (bulk_out_buf (bc s2)) 31)
           in if bulk_out_length_actual (bc s2) \<noteq> USB_BULK_CB_WRAP_LEN \<or> cbw_Signature cbw \<noteq> USB_BULK_CB_SIG
              then let (_, s3) = wedge_bulk_in_endpoint s2
                   in (UMS_RES_INVALID_ARG, upd_bc (\<lambda>b. b\<lparr>bulk_out_ignore := True\<rparr>) s3)
              else if cbw_Lun cbw \<ge> UMS_MAX_LUN \<or> cbw_Flags cbw AND NOT USB_BULK_IN_FLAG \<noteq> 0 \<or>
                      cbw_Length cbw = 0 \<or> cbw_Length cbw > SCSI_MAX_CMD_SZ
              then (UMS_RES_INVALID_ARG,
                    if can_stall (ums s2)
                    then let (_, s3) = set_ep_stall env (bulk_out (bc s2)) s2;
                             (_, s4) = set_ep_stall env (bulk_in (bc s3)) s3
                         in set_text ''#FFDD00 Error:# CBW unknown - Stalled both EP!'' s4
                    else s2)
              else (UMS_RES_OK, accept_cbw cbw s2))"

definition get_next_command :: "'w ums_env \<Rightarrow> 'w usys \<Rightarrow> int \<times> 'w usys" where
  "get_next_command env s =
     (let s1 = upd_bc (\<lambda>b. b\<lparr>bulk_out_length := USB_BULK_CB_WRAP_LEN\<rparr>) s;
          s2 = (if \<not> cbw_req_queued (ums s1)
                then transfer_start env (bulk_out (bc s1)) USB_XFER_SYNCED_CMD s1
                else transfer_finish env (bulk_out (bc s1)) USB_XFER_SYNCED_CMD s1);
          s3 = (if xusb (ums s2) then upd_ums (\<lambda>u. u\<lparr>cbw_req_queued := True\<rparr>) s2 else s2);
          (rc, s4) = received_cbw env s3
      in (rc, upd_bc (\<lambda>b. b\<lparr>bulk_out_buf_state := BUF_STATE_EMPTY\<rparr>) s4))"

definition csw_status :: "usbd_gadget_ums_t \<Rightarrow> u8" where
  "csw_status u =
     (if phase_error u then USB_STATUS_PHASE_ERROR
      else if sense_data (lun u) \<noteq> SS_NO_SENSE then USB_STATUS_FAIL
      else USB_STATUS_PASS)"

definition send_status :: "'w ums_env \<Rightarrow> 'w usys \<Rightarrow> 'w usys" where
  "send_status env s =
     (let s1 = (if phase_error (ums s) then set_text ''#FFDD00 Error:# Phase-error!'' s else s);
          s2 = s1\<lparr>mem := mem_write (mem s1) (bulk_in_buf (bc s1))
                           (encode_csw (tag (ums s)) (residue (ums s)) (csw_status (ums s)))\<rparr>;
          s3 = upd_bc (\<lambda>b. b\<lparr>bulk_in_length := USB_BULK_CS_WRAP_LEN\<rparr>) s2
      in transfer_start env (bulk_in (bc s3)) USB_XFER_SYNCED_CMD s3)"

subsection \<open>Exceptions and system tasks\<close>

definition handle_exception :: "'w ums_env \<Rightarrow> 'w usys \<Rightarrow> 'w usys" where
  "handle_exception env s =
     (let s1 = flush_endpoint env (bulk_out (bc s)) (flush_endpoint env (bulk_in (bc s)) s);
          s2 = upd_bc (\<lambda>b. b\<lparr>bulk_in_buf_state := BUF_STATE_EMPTY, bulk_out_buf_state := BUF_STATE_EMPTY\<rparr>) s1;
          old_state = state (ums s2);
          s3 = (if old_state \<noteq> UMS_STATE_ABORT_BULK_OUT
                then upd_lun (\<lambda>l. l\<lparr>prevent_medium_removal := False, sense_data := SS_NO_SENSE,
                       unit_attention_data := SS_NO_SENSE, sense_data_info := 0, info_valid := 0\<rparr>) s2
                else s2);
          s4 = upd_ums (\<lambda>u. u\<lparr>state := UMS_STATE_NORMAL\<rparr>) s3
      in case old_state of
           UMS_STATE_NORMAL \<Rightarrow> s4
         | UMS_STATE_ABORT_BULK_OUT \<Rightarrow> send_status env s4
         | UMS_STATE_PROTOCOL_RESET \<Rightarrow>
             let s5 = (if bulk_out_ignore (bc s4)
                       then snd (clear_ep_stall env (bulk_in (bc s4))
                                   (upd_bc (\<lambda>b. b\<lparr>bulk_out_ignore := False\<rparr>) s4))
                       else s4)
             in upd_lun (\<lambda>l. l\<lparr>unit_attention_data := SS_RESET_OCCURRED\<rparr>) s5
         | UMS_STATE_EXIT \<Rightarrow> upd_ums (\<lambda>u. u\<lparr>state := UMS_STATE_TERMINATED\<rparr>) s4
         | UMS_STATE_TERMINATED \<Rightarrow> s4)"

definition EMC_PERIODIC_TRAIN_MS :: u32 where "EMC_PERIODIC_TRAIN_MS = 250"

definition system_maintainance :: "'w ums_env \<Rightarrow> 'w usys \<Rightarrow> 'w usys" where
  "system_maintainance env s =
     (let (w, time) = get_tmr_ms env (world s)
      in if timer_status_bar s < time
         then let (w', now) = get_tmr_ms env (system_maintenance env w True)
              in s\<lparr>world := w', timer_status_bar := now + 30000\<rparr>
         else if timer_dram s < time
         then let (w', now) = get_tmr_ms env (minerva_periodic_training env w)
              in s\<lparr>world := w', timer_dram := now + EMC_PERIODIC_TRAIN_MS\<rparr>
         else s\<lparr>world := w\<rparr>)"

subsection \<open>Main loop\<close>

definition BTN_VOL_DOWN :: u32 where "BTN_VOL_DOWN = 2"
definition BTN_VOL_UP :: u32 where "BTN_VOL_UP = 4"

text \<open>One command: from the control endpoint to the status wrapper.\<close>

definition ums_command :: "'w ums_env \<Rightarrow> 'w usys \<Rightarrow> 'w usys option" where
  "ums_command env s =
     (let (rc, s1) = get_next_command env (handle_ep0_ctrl env s)
      in if rc \<noteq> 0 \<or> state (ums s1) > UMS_STATE_NORMAL then Some s1
         else case parse_scsi_cmd env (handle_ep0_ctrl env s1) of
                None \<Rightarrow> None
              | Some (_, s2) \<Rightarrow>
                  if state (ums s2) > UMS_STATE_NORMAL then Some s2
                  else let (rc', s3) = finish_reply env (handle_ep0_ctrl env s2)
                       in if rc' \<noteq> 0 \<or> state (ums s3) > UMS_STATE_NORMAL then Some s3
                          else Some (send_status env s3))"

text \<open>One iteration of the loop; the flag tells whether it goes on.\<close>

definition ums_iteration :: "'w ums_env \<Rightarrow> 'w usys \<Rightarrow> (bool \<times> 'w usys) option" where
  "ums_iteration env s =
     (let s0 = system_maintainance env s;
          (w, btn) = btn_read_vol env (world s0);
          s1 = s0\<lparr>world := w\<rparr>;
          combo = (btn = (BTN_VOL_UP OR BTN_VOL_DOWN))
      in if combo \<and> \<not> prevent_medium_removal (lu s1) then Some (False, s1)
         else let s2 = (if combo then set_text ''#C7EA46 Status:# Unload attempt prevented'' s1 else s1)
              in map_option (\<lambda>s'. (state (ums s') \<noteq> UMS_STATE_TERMINATED, s'))
                   (if state (ums s2) \<noteq> UMS_STATE_NORMAL then Some (handle_exception env s2)
                    else ums_command env s2))"

partial_function (option) ums_loop :: "'w ums_env \<Rightarrow> 'w usys \<Rightarrow> 'w usys option" where
  "ums_loop env s =
     (case ums_iteration env s of
        None \<Rightarrow> None
      | Some (again, s') \<Rightarrow> if again then ums_loop env s' else Some s')"

declare ums_loop.simps [code]

text \<open>
  \<open>usb_device_gadget_ums\<close>. The structure starts zeroed; the label text before the gadget
  starts, the memory and the static timers are whatever the caller left.
\<close>

definition storage_zero :: sdmmc_storage_t where
  "storage_zero = \<lparr>cid_serial = 0, sec_cnt = 0, boot_mult = 0\<rparr>"

definition ums_init :: "bool \<Rightarrow> usb_ctxt_t \<Rightarrow> usbd_gadget_ums_t" where
  "ums_init on_xusb usbs =
     \<lparr>bulk_ctxt =
        \<lparr>bulk_in = USB_EP_BULK_IN, bulk_in_status = 0, bulk_in_length = 0, bulk_in_length_actual = 0,
         bulk_in_buf = USB_EP_BULK_IN_BUF_ADDR, bulk_in_buf_state = BUF_STATE_EMPTY,
         bulk_out = USB_EP_BULK_OUT, bulk_out_status = 0, bulk_out_length = 0, bulk_out_length_actual = 0,
         bulk_out_ignore = False, bulk_out_buf = USB_EP_BULK_OUT_BUF_ADDR,
         bulk_out_buf_state = BUF_STATE_EMPTY\<rparr>,
      cmnd_size = 0, cmnd = replicate 16 0, lun_idx = 0,
      lun =
        \<lparr>storage = storage_zero, num_sectors = ctxt_sectors usbs, offset = ctxt_offset usbs, unmounted = False,
         ro = (ctxt_ro usbs \<noteq> 0), lun_type = ctxt_type usbs, partition = ctxt_partition usbs,
         removable = True, prevent_medium_removal = False, info_valid = 0, sense_data = 0,
         sense_data_info = 0, unit_attention_data = SS_RESET_OCCURRED\<rparr>,
      state = UMS_STATE_NORMAL, data_dir = DATA_DIR_UNKNOWN, data_size = 0, data_size_from_cmnd = 0,
      tag = 0, residue = 0, usb_amount_left = 0, cbw_req_queued = False, phase_error = False,
      short_packet_received = False, thread_wakeup_needed = False, can_stall = False, timeouts = 0,
      xusb = on_xusb\<rparr>"

text \<open>Storage initialisation: \<open>Inl\<close> is the jump to \<open>init_fail\<close>.\<close>

definition ums_mount :: "'w ums_env \<Rightarrow> usb_ctxt_t \<Rightarrow> 'w usys \<Rightarrow> 'w usys + 'w usys" where
  "ums_mount env usbs s =
     (if ctxt_type usbs = MMC_SD
      then let (w, res) = sd_mount env (sd_end env (world s))
           in if res \<noteq> 0 then Inl (set_text ''#FFDD00 Failed to init SD!#'' (s\<lparr>world := w\<rparr>))
              else let w' = sd_unmount env w
                   in Inr (upd_lun (\<lambda>l. l\<lparr>storage := sd_storage env w'\<rparr>) (s\<lparr>world := w'\<rparr>))
      else let (w, res) = emmc_initialize env (world s) False
           in if res \<noteq> 0 then Inl (set_text ''#FFDD00 Failed to init eMMC!#'' (s\<lparr>world := w\<rparr>))
              else let w' = emmc_set_partition env w (partition (lu s) - 1)
                   in Inr (upd_lun (\<lambda>l. l\<lparr>storage := emmc_storage env w'\<rparr>) (s\<lparr>world := w'\<rparr>)))"

definition ums_set_sectors :: "'w ums_env \<Rightarrow> usb_ctxt_t \<Rightarrow> 'w usys \<Rightarrow> 'w usys" where
  "ums_set_sectors env usbs s =
     (if num_sectors (lu s) = 0
      then if ctxt_type usbs = MMC_EMMC \<and> partition (lu s) - 1 \<noteq> 0
           then upd_lun (\<lambda>l. l\<lparr>num_sectors := push_bit 8 (ucast (boot_mult (emmc_storage env (world s))))\<rparr>) s
           else upd_lun (\<lambda>l. l\<lparr>num_sectors := sec_cnt (storage l)\<rparr>) s
      else s)"

definition ums_end :: "'w ums_env \<Rightarrow> bool \<Rightarrow> 'w usys \<Rightarrow> 'w usys" where
  "ums_end env mounted s =
     (let w = (if mounted \<and> lun_type (lu s) = MMC_EMMC then emmc_end env (world s) else world s)
      in s\<lparr>world := usbd_end env w True False\<rparr>)"

definition usb_device_gadget_ums ::
  "'w ums_env \<Rightarrow> usb_ctxt_t \<Rightarrow> memory \<Rightarrow> u32 \<Rightarrow> u32 \<Rightarrow> 'w \<Rightarrow> (int \<times> 'w usys) option" where
  "usb_device_gadget_ums env usbs m t_dram t_bar w0 =
     (let (w1, res) = usb_device_init env w0;
          s0 = \<lparr>ums = ums_init (\<not> is_t210 env) usbs, mem = m, label_text = ''#C7EA46 Status:# Started USB'',
                timer_dram = t_dram, timer_status_bar = t_bar, world = w1\<rparr>;
          enum_error = (\<lambda>s. (1, ums_end env True (set_text ''#FFDD00 Error:# Timed out or canceled!'' s)))
      in if res \<noteq> 0 then Some (1, s0\<lparr>world := usbd_end env w1 False True\<rparr>)
         else case ums_mount env usbs (set_text ''#C7EA46 Status:# Mounting disk'' s0) of
           Inl s \<Rightarrow> Some (1, ums_end env False s)
         | Inr s1 \<Rightarrow>
             let (w2, e1) = usb_device_enumerate env (world s1);
                 s2 = set_text ''#C7EA46 Status:# Waiting for connection'' (s1\<lparr>world := w2\<rparr>)
             in if e1 \<noteq> 0 then Some (enum_error s2)
                else let (w3, e2) = usb_device_class_send_max_lun env w2 0;
                         s3 = set_text ''#C7EA46 Status:# Waiting for LUN'' (s2\<lparr>world := w3\<rparr>)
                     in if e2 \<noteq> 0 then Some (enum_error s3)
                        else map_option
                          (\<lambda>s. (0, ums_end env True
                                  (set_text (if prevent_medium_removal (lu s)
                                             then ''#FFDD00 Error:# Disk unsafely ejected''
                                             else ''#C7EA46 Status:# Disk ejected'') s)))
                          (ums_loop env (ums_set_sectors env usbs
                             (set_text ''#C7EA46 Status:# Started UMS'' s3))))"

end
