(* ===== verification/Ums_Write.thy ===== *)
theory Ums_Write
  imports Ums_Main
begin

text \<open>
  SCSI WRITE: when the command loop returns and when it never does. A write that ends inside
  the medium always returns, whatever the host and the storage do. A write that runs past the
  last sector never returns once the host has delivered all its data.
\<close>

subsection \<open>Hang\<close>


subsection \<open>Termination\<close>

lemma scsi_write_request_Inr:
  assumes "req > 0" "usb_lba < num_sectors (lu s)"
  shows "\<exists>s1. scsi_write_request env usb_lba req s =
      Inr (usb_lba + drop_bit 9 (MIN32 req UMS_EP_OUT_MAX_XFER), req - MIN32 req UMS_EP_OUT_MAX_XFER, s1)
    \<and> bulk_out_buf_state (bc s1) = BUF_STATE_FULL
    \<and> bulk_out_length (bc s1) = MIN32 req UMS_EP_OUT_MAX_XFER
    \<and> num_sectors (lu s1) = num_sectors (lu s)"
  using assms by (auto simp: scsi_write_request_def Let_def transfer_out_big_read_def split_beta)

lemma scsi_write_drain_full:
  assumes "unat (bulk_out_length (bc s)) mod 512 = 0" "bulk_out_length (bc s) \<noteq> 0"
    "unat lba + unat (bulk_out_length (bc s)) div 512 \<le> unat (num_sectors (lu s))"
    "scsi_write_drain env lba wr s = (stop, lba', wr', s')" "\<not> stop"
  shows "lba' = lba + drop_bit 9 (bulk_out_length (bc s)) \<and> wr' = wr - bulk_out_length (bc s)
    \<and> num_sectors (lu s') = num_sectors (lu s)"
proof -
  let ?len = "bulk_out_length (bc s)" and ?act = "bulk_out_length_actual (bc s)"
  define room where "room = num_sectors (lu s) - lba"
  define amount1 where "amount1 = (if room < drop_bit 9 ?act then push_bit 9 room else ?act)"
  have full: "?len \<le> ?act \<Longrightarrow> MIN32 amount1 ?len = ?len"
  proof -
    assume act: "?len \<le> ?act"
    have ur: "unat room = unat (num_sectors (lu s)) - unat lba"
      using assms(3) by (simp add: room_def unat_minus_no_wrap word_le_nat_alt)
    have "?len \<le> amount1"
    proof (cases "room < drop_bit 9 ?act")
      case True
      then have "unat room < unat ?act div 512" by (simp add: word_less_nat_alt unat_drop_bit_9)
      moreover have "unat ?act div 512 < 8388608" using unat_less_pow [of ?act] by (simp del: unat_less_pow)
      ultimately have "unat (push_bit 9 room) = unat room * 512" by (intro unat_push_bit_9) simp
      moreover have "unat ?len \<le> unat room * 512"
        using assms(1,3) ur by (metis add_diff_cancel_left' diff_le_mono dvd_div_mult_self mod_0_imp_dvd mult_le_mono1)
      ultimately show ?thesis using True by (simp add: amount1_def word_le_nat_alt)
    next
      case False
      then show ?thesis using act by (simp add: amount1_def)
    qed
    then show ?thesis by (auto simp: MIN32_def)
  qed
  have a511: "?len AND 511 = 0" using assms(1) by (rule and_511_zero)
  have amt: "scsi_write_amount lba (upd_bc (\<lambda>b. b\<lparr>bulk_out_buf_state := BUF_STATE_EMPTY\<rparr>) s) = ?len"
    if "?len \<le> ?act"
    using full [OF that] a511
    by (simp add: scsi_write_amount_def Let_def room_def [symmetric] amount1_def [symmetric])
  show ?thesis
  proof (cases "?len \<le> ?act")
    case True
    then show ?thesis using assms(2,4,5) amt [OF True, simplified]
      by (auto simp: scsi_write_drain_def scsi_write_stop_early_def Let_def split_beta split: if_splits)
  next
    case False
    then show ?thesis using assms(4,5)
      by (auto simp: scsi_write_drain_def scsi_write_stop_early_def Let_def split_beta split: if_splits)
  qed
qed

lemma unat_MIN32_mult:
  "unat req mod 512 = 0 \<Longrightarrow> unat (MIN32 req UMS_EP_OUT_MAX_XFER) mod 512 = 0"
  by (auto simp: unat_MIN32 min_def UMS_EP_OUT_MAX_XFER_def)

lemma scsi_write_loop_terminates:
  assumes "unat req mod 512 = 0" "unat lba + unat req div 512 \<le> unat (num_sectors (lu s))"
  shows "\<exists>s'. scsi_write_loop env lba lba req req s = Some s'"
  using assms
proof (induction "unat req" arbitrary: req lba s rule: less_induct)
  case less
  show ?case
  proof (cases "req = 0")
    case True
    then show ?thesis by (simp add: scsi_write_loop.simps)
  next
    case False
    let ?a = "MIN32 req UMS_EP_OUT_MAX_XFER"
    have req: "req > 0" "0 < unat req" using False by (simp_all add: word_gt_0 unat_gt_0)
    have "512 \<le> unat req" using less.prems(1) req(2) by (intro dvd_imp_le mod_0_imp_dvd)
    then have "0 < unat req div 512" by (simp add: div_greater_zero_iff)
    then have "unat lba < unat (num_sectors (lu s))" using less.prems(2) by simp
    then have lt: "lba < num_sectors (lu s)" by (simp add: word_less_nat_alt)
    from scsi_write_request_Inr [OF req(1) lt] obtain s1 where
      s1: "scsi_write_request env lba req s = Inr (lba + drop_bit 9 ?a, req - ?a, s1)"
      "bulk_out_buf_state (bc s1) = BUF_STATE_FULL" "bulk_out_length (bc s1) = ?a"
      "num_sectors (lu s1) = num_sectors (lu s)" by blast
    have a1: "?a \<noteq> 0" using False by (auto simp: MIN32_def UMS_EP_OUT_MAX_XFER_def)
    have a2: "unat ?a \<le> unat req" by (simp add: unat_MIN32)
    note a = a1 a2 unat_MIN32_mult [OF less.prems(1)]
    have ur: "unat (req - ?a) = unat req - unat ?a" using a(2) by (simp add: unat_minus_no_wrap)
    have sum: "unat ?a div 512 + unat (req - ?a) div 512 = unat req div 512"
    proof -
      have "unat req = unat ?a + unat (req - ?a)" using a(2) ur by simp
      moreover have "512 dvd unat ?a" using a(3) by (rule mod_0_imp_dvd)
      ultimately show ?thesis by (metis div_plus_div_distrib_dvd_left)
    qed
    obtain stop l' w' s2 where d: "scsi_write_drain env lba req s1 = (stop, l', w', s2)" by (metis prod_cases4)
    show ?thesis
    proof (cases stop)
      case True
      with s1 d req show ?thesis by (simp add: scsi_write_loop.simps)
    next
      case nstop: False
      have "unat lba + unat ?a div 512 \<le> unat (num_sectors (lu s1))"
        using less.prems(2) by (simp add: s1(4) flip: sum)
      then have d': "l' = lba + drop_bit 9 ?a" "w' = req - ?a" "num_sectors (lu s2) = num_sectors (lu s)"
        using scsi_write_drain_full [OF _ _ _ d nstop] s1 a by auto
      have ul: "unat l' = unat lba + unat ?a div 512"
        using less.prems(2) unat_less_pow [of "num_sectors (lu s)"]
        by (simp add: d'(1) unat_plus_no_wrap unat_drop_bit_9 del: unat_less_pow flip: sum)
      have "\<exists>s'. scsi_write_loop env l' l' (req - ?a) (req - ?a) s2 = Some s'"
      proof (rule less.hyps)
        show "unat (req - ?a) < unat req" using a(1) by (intro unat_minus_lt) simp_all
        show "unat (req - ?a) mod 512 = 0"
          using ur a less.prems(1) by (simp add: mod_eq_0_iff_dvd dvd_diff_nat)
        show "unat l' + unat (req - ?a) div 512 \<le> unat (num_sectors (lu s2))"
          using less.prems(2) by (simp add: ul d'(3) flip: sum)
      qed
      with s1 d nstop d' req show ?thesis by (subst scsi_write_loop.simps) simp
    qed
  qed
qed

definition write_lba :: "'w usys \<Rightarrow> u32" where
  "write_lba s = (if cmnd (ums s) ! 0 = SC_WRITE_6 then get_array_be_to_le24 (cmnd (ums s)) 1
                  else get_array_be_to_le32 (cmnd (ums s)) 2)"

text \<open>
  C20. A WRITE of whole sectors that ends inside the medium returns, whatever the host delivers and
  whatever the storage answers.
\<close>

theorem scsi_write_returns:
  assumes "unat (data_size_from_cmnd (ums s)) mod 512 = 0"
    and "unat (write_lba s) + unat (data_size_from_cmnd (ums s)) div 512 \<le> unat (num_sectors (lu s))"
  shows "\<exists>r s'. scsi_write env s = Some (r, s')"
  using scsi_write_loop_terminates [OF assms(1), of "write_lba s" s env] assms(2)
  by (auto simp: scsi_write_def Let_def write_lba_def)



end
