(* ===== verification/Ums_Contract.thy ===== *)
theory Ums_Contract
  imports Ums_Write
begin

text \<open>
  What every SCSI command handler of the mass storage gadget promises to the dispatcher, as the
  locale \<open>scsi_handler\<close>, with an interpretation for each handler, and what follows for
  \<open>_check_scsi_cmd\<close>, the dispatch and the reply length.
\<close>

subsection \<open>What a command leaves alone\<close>

definition lun_config :: "logical_unit_t \<Rightarrow> _" where
  "lun_config l = (storage l, num_sectors l, offset l, ro l, lun_type l, partition l, removable l)"

definition cmd_frame :: "'w usys \<Rightarrow> 'w usys \<Rightarrow> bool" where
  "cmd_frame s t \<longleftrightarrow>
     cmnd_size (ums t) = cmnd_size (ums s) \<and> length (cmnd (ums t)) = length (cmnd (ums s)) \<and>
     cmnd (ums t) ! 0 = cmnd (ums s) ! 0 \<and> lun_idx (ums t) = lun_idx (ums s) \<and>
     state (ums t) = state (ums s) \<and> data_dir (ums t) = data_dir (ums s) \<and>
     data_size (ums t) = data_size (ums s) \<and> tag (ums t) = tag (ums s) \<and>
     cbw_req_queued (ums t) = cbw_req_queued (ums s) \<and> can_stall (ums t) = can_stall (ums s) \<and>
     timeouts (ums t) = timeouts (ums s) \<and> xusb (ums t) = xusb (ums s) \<and>
     lun_config (lu t) = lun_config (lu s) \<and>
     bulk_in (bc t) = bulk_in (bc s) \<and> bulk_out (bc t) = bulk_out (bc s) \<and>
     bulk_out_buf (bc t) = bulk_out_buf (bc s) \<and> bulk_out_ignore (bc t) = bulk_out_ignore (bc s)"

lemma cmd_frame_refl [simp, intro]: "cmd_frame s s"
  by (simp add: cmd_frame_def)

lemma cmd_frame_trans [trans]: "cmd_frame s t \<Longrightarrow> cmd_frame t u \<Longrightarrow> cmd_frame s u"
  by (simp add: cmd_frame_def)

lemma cmd_frame_transfer [simp]:
  "cmd_frame s (transfer_start env ep t s)"
  "cmd_frame s (transfer_finish env ep t s)"
  "cmd_frame s (transfer_out_big_read env s)"
  by (simp_all add: cmd_frame_def)

text \<open>The same with the bulk-in buffer kept, for everything but READ.\<close>

definition cmd_frame_buf :: "'w usys \<Rightarrow> 'w usys \<Rightarrow> bool" where
  "cmd_frame_buf s t \<longleftrightarrow> cmd_frame s t \<and> bulk_in_buf (bc t) = bulk_in_buf (bc s)"

lemmas frame_defs = cmd_frame_buf_def cmd_frame_def lun_config_def

lemma cmd_frame_buf_refl [simp, intro]: "cmd_frame_buf s s"
  by (simp add: cmd_frame_buf_def)

lemma cmd_frame_buf_trans [trans]: "cmd_frame_buf s t \<Longrightarrow> cmd_frame_buf t u \<Longrightarrow> cmd_frame_buf s u"
  using cmd_frame_trans by (auto simp: cmd_frame_buf_def)

lemma cmd_frame_buf_transfer [simp]:
  "cmd_frame_buf s (transfer_start env ep t s)"
  "cmd_frame_buf s (transfer_finish env ep t s)"
  "cmd_frame_buf s (transfer_out_big_read env s)"
  by (simp_all add: cmd_frame_buf_def)

lemma unat_push_bit_9_le: "unat a \<le> unat l \<Longrightarrow> unat l * 512 \<le> unat (r :: u32) \<Longrightarrow> unat (push_bit 9 (a :: u32)) = unat a * 512"
  using unat_less_pow [of r] by (intro unat_push_bit_9) (simp del: unat_less_pow)

lemma scsi_read_chunk_contract:
  assumes "scsi_read_chunk env lba a f buf s = (n, t)"
  shows "cmd_frame s t" "residue (ums t) = residue (ums s) - push_bit 9 n" "lun (ums t) = lun (ums s)"
    "phase_error (ums t) = phase_error (ums s)" "data_size_from_cmnd (ums t) = data_size_from_cmnd (ums s)"
    "bulk_in_length (bc t) = push_bit 9 n"
proof -
  obtain w fail data where rd: "sdmmc_storage_read env (world s) (offset (lu s) + lba) a = (w, fail, data)"
    by (metis prod_cases3)
  define s1 where "s1 = s\<lparr>world := w, mem := mem_write (mem s) buf data\<rparr>"
  define s2 where "s2 = (if f then s1 else transfer_finish env (bulk_in (bc s1)) USB_XFER_SYNCED s1)"
  have s2: "cmd_frame s s2" "residue (ums s2) = residue (ums s)" "lun (ums s2) = lun (ums s)"
    "phase_error (ums s2) = phase_error (ums s)" "data_size_from_cmnd (ums s2) = data_size_from_cmnd (ums s)"
    by (simp_all add: s2_def s1_def cmd_frame_def)
  have t: "t = upd_bc (\<lambda>b. b\<lparr>bulk_in_length := push_bit 9 n, bulk_in_buf_state := BUF_STATE_FULL, bulk_in_buf := buf\<rparr>)
      (upd_ums (\<lambda>u. u\<lparr>residue := residue u - push_bit 9 n\<rparr>) s2)"
    using assms rd unfolding scsi_read_chunk_def Let_def s2_def s1_def by (simp only: prod.case prod.inject) blast
  show "cmd_frame s t" using s2(1) by (simp add: t cmd_frame_def)
  show "residue (ums t) = residue (ums s) - push_bit 9 n" "lun (ums t) = lun (ums s)"
    "phase_error (ums t) = phase_error (ums s)" "data_size_from_cmnd (ums t) = data_size_from_cmnd (ums s)"
    "bulk_in_length (bc t) = push_bit 9 n"
    using s2 by (simp_all add: t)
qed

text \<open>
  The read loop, whatever storage and host do: the residue drops by 512 bytes for each of the
  \<open>k\<close> sectors sent, and stopping before the last requested sector is reported as sense data.
\<close>

lemma scsi_read_loop_contract:
  fixes env :: "'w ums_env" and lba left m buf :: u32 and first :: bool and s :: "'w usys"
  assumes "unat left * 512 \<le> unat (residue (ums s))" "left \<noteq> 0"
  defines "t \<equiv> scsi_read_loop env lba left m first buf s"
  shows "cmd_frame s t \<and> phase_error (ums t) = phase_error (ums s) \<and>
    (\<exists>k \<le> unat left. unat (residue (ums t)) = unat (residue (ums s)) - k * 512 \<and>
       (if k = unat left then sense_data (lu t) = sense_data (lu s)
        else sense_data (lu t) = SS_LOGICAL_BLOCK_ADDRESS_OUT_OF_RANGE \<or> sense_data (lu t) = SS_UNRECOVERED_READ_ERROR))"
  using assms(1,2) unfolding t_def
proof (induction env lba left m first buf s rule: scsi_read_loop.induct)
  case (1 env lba left m first buf s)
  let ?a = "MIN32 (MIN32 left m) (num_sectors (lu s) - lba)"
  obtain n s4 where ch: "scsi_read_chunk env lba ?a first buf s = (n, s4)" by fastforce
  note c = scsi_read_chunk_contract [OF ch]
  have al: "unat ?a \<le> unat left" by (simp add: unat_MIN32)
  have l0: "unat left \<noteq> 0" using "1.prems"(2) by (simp add: unat_0_iff)
  have n: "n = 0 \<or> n = ?a" using ch by (rule scsi_read_chunk_amount)
  then have nl: "unat n \<le> unat left" using al by auto
  then have "unat (push_bit 9 n) = unat n * 512" using "1.prems"(1) by (rule unat_push_bit_9_le)
  then have res: "unat (residue (ums s4)) = unat (residue (ums s)) - unat n * 512"
    using "1.prems" nl by (simp add: c unat_minus_no_wrap word_le_nat_alt)
  consider (oor) "?a = 0" | (err) "?a \<noteq> 0" "n = 0" | (last) "?a \<noteq> 0" "n \<noteq> 0" "left - n = 0"
    | (more) "?a \<noteq> 0" "n \<noteq> 0" "left - n \<noteq> 0" by blast
  then show ?case
  proof cases
    case oor
    define t where "t = upd_bc (\<lambda>b. b\<lparr>bulk_in_length := 0, bulk_in_buf_state := BUF_STATE_FULL\<rparr>)
         (set_sense_at SS_LOGICAL_BLOCK_ADDRESS_OUT_OF_RANGE lba s)"
    have eq: "scsi_read_loop env lba left m first buf s = t"
      using oor unfolding t_def by (subst scsi_read_loop.simps) simp
    have t: "cmd_frame s t" "phase_error (ums t) = phase_error (ums s)" "residue (ums t) = residue (ums s)"
      "sense_data (lu t) = SS_LOGICAL_BLOCK_ADDRESS_OUT_OF_RANGE"
      unfolding t_def by (simp_all add: cmd_frame_def lun_config_def)
    show ?thesis unfolding eq by (intro conjI exI [of _ 0]) (use t l0 in simp_all)
  next
    case err
    define t where "t = set_sense_at SS_UNRECOVERED_READ_ERROR lba (set_text ''#FFDD00 Error:# SDMMC Read!'' s4)"
    have eq: "scsi_read_loop env lba left m first buf s = t"
      using err ch unfolding t_def by (subst scsi_read_loop.simps) simp
    have "cmd_frame s4 t" unfolding t_def by (simp add: cmd_frame_def lun_config_def)
    then have "cmd_frame s t" by (rule cmd_frame_trans [OF c(1)])
    moreover have "phase_error (ums t) = phase_error (ums s)" "residue (ums t) = residue (ums s)"
      "sense_data (lu t) = SS_UNRECOVERED_READ_ERROR"
      unfolding t_def using c err(2) by simp_all
    ultimately show ?thesis unfolding eq by (intro conjI exI [of _ 0]) (use l0 in simp_all)
  next
    case last
    have eq: "scsi_read_loop env lba left m first buf s = s4"
      using last ch by (subst scsi_read_loop.simps) simp
    have "left = n" using last(3) by simp
    then show ?thesis unfolding eq by (intro conjI exI [of _ "unat n"]) (use c res in simp_all)
  next
    case more
    define s5 where "s5 = transfer_start env (bulk_in (bc s4)) USB_XFER_START s4"
    define t where "t = scsi_read_loop env (lba + n) (left - n) m False (buf + push_bit 9 n) s5"
    have ul: "unat (left - n) = unat left - unat n" using nl by (simp add: unat_minus_no_wrap word_le_nat_alt)
    have eq: "scsi_read_loop env lba left m first buf s = t"
      unfolding t_def s5_def using more ch by (subst scsi_read_loop.simps) simp
    have s5: "residue (ums s5) = residue (ums s4)" "lun (ums s5) = lun (ums s)" "cmd_frame s s5"
      "phase_error (ums s5) = phase_error (ums s)"
      using c by (simp_all add: s5_def cmd_frame_trans [OF c(1)])
    have "unat (left - n) * 512 \<le> unat (residue (ums s5))"
      using "1.prems"(1) by (simp add: ul res s5 diff_mult_distrib)
    note IH = "1.IH" [OF refl more(1) ch [symmetric] more(2,3), folded s5_def, folded t_def, OF this more(3)]
    from IH obtain k where
      k: "cmd_frame s5 t" "phase_error (ums t) = phase_error (ums s)" "k \<le> unat left - unat n"
        "unat (residue (ums t)) = unat (residue (ums s4)) - k * 512"
        "if k = unat left - unat n then sense_data (lu t) = sense_data (lu s)
         else sense_data (lu t) = SS_LOGICAL_BLOCK_ADDRESS_OUT_OF_RANGE \<or>
              sense_data (lu t) = SS_UNRECOVERED_READ_ERROR"
      unfolding ul s5 by blast
    have "cmd_frame s t" using s5(3) k(1) by (rule cmd_frame_trans)
    moreover have "unat (residue (ums t)) = unat (residue (ums s)) - (unat n + k) * 512"
      using k(4) res by (simp add: add_mult_distrib)
    moreover have "k = unat left - unat n \<longleftrightarrow> unat n + k = unat left" using nl by auto
    moreover have "unat n + k \<le> unat left" using k(3) nl by simp
    ultimately show ?thesis unfolding eq
      by (intro conjI exI [of _ "unat n + k"]) (use k(2,5) in simp_all)
  qed
qed

subsection \<open>The contract of a command handler\<close>

text \<open>
  What the dispatcher relies on: a handler keeps what identifies the command and the logical
  unit's configuration, replies with a length or one of two error codes, never gives up with
  \<open>UMS_RES_INVALID_ARG\<close> without leaving sense data, touches the residue only when it did the
  transfer itself, and then never increases it. \<open>None\<close> is a handler that does not return.
\<close>

definition accounted :: "'w usys \<Rightarrow> bool" where
  "accounted s \<longleftrightarrow> data_size_from_cmnd (ums s) \<le> residue (ums s)"

locale scsi_handler =
  fixes h :: "'w usys \<Rightarrow> (int \<times> 'w usys) option"
    and dir :: data_direction
  assumes frame: "accounted s \<Longrightarrow> h s = Some (r, t) \<Longrightarrow> cmd_frame s t"
    and phase: "accounted s \<Longrightarrow> h s = Some (r, t) \<Longrightarrow> phase_error (ums t) = phase_error (ums s)"
    and reply: "accounted s \<Longrightarrow> h s = Some (r, t) \<Longrightarrow>
      r = UMS_RES_INVALID_ARG \<or> r = UMS_RES_IO_ERROR \<or> 0 \<le> r \<and> r \<le> 36"
    and reported: "accounted s \<Longrightarrow> h s = Some (UMS_RES_INVALID_ARG, t) \<Longrightarrow> sense_data (lu t) \<noteq> SS_NO_SENSE"
    and keeps: "accounted s \<Longrightarrow> h s = Some (r, t) \<Longrightarrow> r \<noteq> UMS_RES_IO_ERROR \<Longrightarrow>
      residue (ums t) = residue (ums s) \<and> data_size_from_cmnd (ums t) = data_size_from_cmnd (ums s)"
    and buffer: "accounted s \<Longrightarrow> h s = Some (r, t) \<Longrightarrow> bulk_in_buf (bc t) \<noteq> bulk_in_buf (bc s) \<Longrightarrow>
      dir = DATA_DIR_TO_HOST \<and> data_size_from_cmnd (ums s) \<noteq> 0"
    and residue_le: "accounted s \<Longrightarrow> h s = Some (r, t) \<Longrightarrow> residue (ums t) \<le> residue (ums s)"

lemmas handler_simps = Let_def cmd_frame_def lun_config_def hk_defs sense_defs

interpretation inquiry: scsi_handler "\<lambda>s. Some (scsi_inquiry s)" dir for dir
  by unfold_locales (auto simp: scsi_inquiry_def handler_simps split: if_splits)

interpretation log_sense: scsi_handler "\<lambda>s. Some (scsi_log_sense s)" dir for dir
  by unfold_locales (auto simp: scsi_log_sense_def handler_simps split: if_splits)

interpretation mode_sense: scsi_handler "\<lambda>s. Some (scsi_mode_sense s)" dir for dir
  by unfold_locales (auto simp: scsi_mode_sense_def handler_simps split: if_splits)

interpretation request_sense: scsi_handler "\<lambda>s. Some (scsi_request_sense s)" dir for dir
  by unfold_locales (auto simp: scsi_request_sense_def handler_simps)

interpretation read_capacity: scsi_handler "\<lambda>s. Some (scsi_read_capacity s)" dir for dir
  by unfold_locales (auto simp: scsi_read_capacity_def handler_simps split: if_splits)

interpretation read_format_capacities: scsi_handler "\<lambda>s. Some (scsi_read_format_capacities s)" dir for dir
  by unfold_locales (auto simp: scsi_read_format_capacities_def handler_simps)

interpretation start_stop: scsi_handler "\<lambda>s. Some (scsi_start_stop s)" dir for dir
  by unfold_locales (auto simp: scsi_start_stop_def handler_simps split: if_splits)

interpretation prevent_allow: scsi_handler "\<lambda>s. Some (scsi_prevent_allow_removal s)" dir for dir
  by unfold_locales (auto simp: scsi_prevent_allow_removal_def handler_simps split: if_splits)

interpretation no_handler: scsi_handler "\<lambda>s. Some (invalid_command s)" dir for dir
  by unfold_locales (auto simp: invalid_command_def handler_simps)

interpretation no_op: scsi_handler "\<lambda>s. Some (0, s)" dir for dir
  by unfold_locales (auto simp: handler_simps)


lemma accounted_sectors:
  "accounted s \<Longrightarrow> unat (drop_bit 9 (data_size_from_cmnd (ums s))) * 512 \<le> unat (residue (ums s))"
  by (simp add: accounted_def word_le_nat_alt unat_drop_bit_9)

text \<open>\<open>_scsi_read\<close> on its transfer branch, as an instance of the loop's contract.\<close>

lemma scsi_read_cases:
  assumes "accounted s" "scsi_read env s = (r, t)"
  obtains (rejected) "r = UMS_RES_INVALID_ARG" "cmd_frame s t" "phase_error (ums t) = phase_error (ums s)"
      "sense_data (lu t) \<noteq> SS_NO_SENSE" "residue (ums t) = residue (ums s)"
      "data_size_from_cmnd (ums t) = data_size_from_cmnd (ums s)" "bulk_in_buf (bc t) = bulk_in_buf (bc s)"
    | (nothing) "r = UMS_RES_IO_ERROR" "t = s" "drop_bit 9 (data_size_from_cmnd (ums s)) = 0"
    | (transfer) k where "r = UMS_RES_IO_ERROR" "drop_bit 9 (data_size_from_cmnd (ums s)) \<noteq> 0" "cmd_frame s t" "phase_error (ums t) = phase_error (ums s)"
      "k \<le> unat (data_size_from_cmnd (ums s)) div 512"
      "unat (residue (ums t)) = unat (residue (ums s)) - k * 512"
      "k = unat (data_size_from_cmnd (ums s)) div 512 \<or> sense_data (lu t) \<noteq> SS_NO_SENSE"
proof -
  define lba where "lba = (if cmnd (ums s) ! 0 = SC_READ_6 then get_array_be_to_le24 (cmnd (ums s)) 1
     else get_array_be_to_le32 (cmnd (ums s)) 2)"
  define n where "n = drop_bit 9 (data_size_from_cmnd (ums s))"
  define m where "m = (if n \<ge> UMS_SCSI_TRANSFER_512K then UMS_DISK_MAX_IO_TRANSFER_64K else UMS_DISK_MAX_IO_TRANSFER_32K)"
  define bad where "bad \<longleftrightarrow> cmnd (ums s) ! 0 \<noteq> SC_READ_6 \<and> cmnd (ums s) ! 1 AND NOT 0x18 \<noteq> 0"
  have rd: "scsi_read env s =
    (if bad then (UMS_RES_INVALID_ARG, set_sense SS_INVALID_FIELD_IN_CDB s)
     else if lba \<ge> num_sectors (lu s) then (UMS_RES_INVALID_ARG, set_sense SS_LOGICAL_BLOCK_ADDRESS_OUT_OF_RANGE
                 (set_text ''#FF8000 Warn:# Read - Out of range! Host notified.'' s))
     else if n = 0 then (UMS_RES_IO_ERROR, s)
     else (UMS_RES_IO_ERROR, scsi_read_loop env lba n m True SDXC_BUF_ALIGNED s))"
    by (simp only: scsi_read_def Let_def lba_def n_def m_def bad_def)
  consider "bad \<or> lba \<ge> num_sectors (lu s)" | "\<not> bad" "\<not> lba \<ge> num_sectors (lu s)" "n = 0"
    | "\<not> bad" "\<not> lba \<ge> num_sectors (lu s)" "n \<noteq> 0" by blast
  then show ?thesis
  proof cases
    case 1
    with rd assms(2) show ?thesis by (intro rejected) (auto simp: cmd_frame_def lun_config_def sense_defs split: if_splits)
  next
    case 2
    then have "r = UMS_RES_IO_ERROR" "t = s" "drop_bit 9 (data_size_from_cmnd (ums s)) = 0"
      using rd assms(2) by (simp_all add: n_def)
    then show ?thesis by (rule nothing)
  next
    case 3
    then have t: "r = UMS_RES_IO_ERROR" "t = scsi_read_loop env lba n m True SDXC_BUF_ALIGNED s"
      using rd assms(2) by simp_all
    have "unat n * 512 \<le> unat (residue (ums s))" using accounted_sectors [OF assms(1)] by (simp add: n_def)
    from scsi_read_loop_contract [OF this 3(3), of env lba m True SDXC_BUF_ALIGNED, folded t(2)]
    obtain k where k: "cmd_frame s t" "phase_error (ums t) = phase_error (ums s)" "k \<le> unat n"
      "unat (residue (ums t)) = unat (residue (ums s)) - k * 512"
      "k = unat n \<or> sense_data (lu t) \<noteq> SS_NO_SENSE"
      by (auto simp: sense_defs split: if_splits)
    then show ?thesis using t(1) 3 by (intro transfer [of k]) (simp_all add: n_def unat_drop_bit_9)
  qed
qed

interpretation read_cmd: scsi_handler "\<lambda>s. Some (scsi_read env s)" DATA_DIR_TO_HOST for env
proof unfold_locales
  fix s :: "'a usys" and r t
  assume a: "accounted s" and "Some (scsi_read env s) = Some (r, t)"
  then have b: "scsi_read env s = (r, t)" by simp
  show "cmd_frame s t" "phase_error (ums t) = phase_error (ums s)"
    "r = UMS_RES_INVALID_ARG \<or> r = UMS_RES_IO_ERROR \<or> 0 \<le> r \<and> r \<le> 36"
    by (rule scsi_read_cases [OF a b]; simp)+
  show "DATA_DIR_TO_HOST = DATA_DIR_TO_HOST \<and> data_size_from_cmnd (ums s) \<noteq> 0"
    if "bulk_in_buf (bc t) \<noteq> bulk_in_buf (bc s)"
    by (rule scsi_read_cases [OF a b]) (use that in auto)
  show "residue (ums t) \<le> residue (ums s)"
    by (rule scsi_read_cases [OF a b]) (simp_all add: word_le_nat_alt)
  show "r \<noteq> UMS_RES_IO_ERROR \<Longrightarrow> residue (ums t) = residue (ums s) \<and> data_size_from_cmnd (ums t) = data_size_from_cmnd (ums s)"
    by (rule scsi_read_cases [OF a b]) simp_all
next
  fix s t :: "'a usys"
  assume a: "accounted s" and "Some (scsi_read env s) = Some (UMS_RES_INVALID_ARG, t)"
  then have b: "scsi_read env s = (UMS_RES_INVALID_ARG, t)" by simp
  show "sense_data (lu t) \<noteq> SS_NO_SENSE"
    by (rule scsi_read_cases [OF a b]) (simp_all add: hk_defs)
qed

lemma scsi_verify_loop_frame:
  "cmd_frame_buf s (scsi_verify_loop env lba n s) \<and>
   phase_error (ums (scsi_verify_loop env lba n s)) = phase_error (ums s) \<and>
   residue (ums (scsi_verify_loop env lba n s)) = residue (ums s) \<and>
   data_size_from_cmnd (ums (scsi_verify_loop env lba n s)) = data_size_from_cmnd (ums s)"
proof (induction env lba n s rule: scsi_verify_loop.induct)
  case (1 env lba n s)
  let ?a = "MIN32 (MIN32 n (drop_bit 9 USB_EP_BUFFER_MAX_SIZE)) (num_sectors (lu s) - lba)"
  obtain w fail data where rd: "sdmmc_storage_read env (world s) (offset (lu s) + lba) ?a = (w, fail, data)"
    by (metis prod_cases3)
  define s1 where "s1 = s\<lparr>world := w, mem := mem_write (mem s) (bulk_in_buf (bc s)) data\<rparr>"
  have s1: "cmd_frame_buf s s1" "phase_error (ums s1) = phase_error (ums s)" "residue (ums s1) = residue (ums s)"
    "data_size_from_cmnd (ums s1) = data_size_from_cmnd (ums s)"
    by (simp_all add: s1_def frame_defs)
  consider "n = 0" | "n > 0" "?a = 0" | "n > 0" "?a \<noteq> 0" fail | (more) "n > 0" "?a \<noteq> 0" "\<not> fail"
    by (auto simp: word_gt_0)
  then show ?case
  proof cases
    case more
    then have eq: "scsi_verify_loop env lba n s = scsi_verify_loop env (lba + ?a) (n - ?a) s1"
      using rd by (subst scsi_verify_loop.simps) (simp add: s1_def Let_def)
    from "1.IH" [OF more(1) refl more(2) refl rd [symmetric] refl s1_def more(3)]
    show ?thesis unfolding eq using s1 cmd_frame_buf_trans [OF s1(1)] by simp
  qed (use rd in \<open>subst scsi_verify_loop.simps, simp add: Let_def frame_defs\<close>)+
qed

lemma cmd_frame_buf_sense [simp]:
  "cmd_frame_buf s (set_sense d s)" "cmd_frame_buf s (set_sense_at d i s)"
  "cmd_frame_buf s (set_sense d (set_text x s))" "cmd_frame_buf s (set_sense_at d i (set_text x s))"
  by (simp_all add: frame_defs)

interpretation verify: scsi_handler "\<lambda>s. Some (scsi_verify env s)" dir for env dir
  by unfold_locales
    (auto simp: scsi_verify_def scsi_verify_loop_frame [unfolded cmd_frame_buf_def] sense_defs hk_defs Let_def split: if_splits,
     (simp add: frame_defs)+)

subsection \<open>Accounting of WRITE\<close>

lemma scsi_write_amount_le: "scsi_write_amount l s \<le> bulk_out_length (bc s)"
proof -
  define x where "x = MIN32 (if num_sectors (lu s) - l < drop_bit 9 (bulk_out_length_actual (bc s))
    then push_bit 9 (num_sectors (lu s) - l) else bulk_out_length_actual (bc s)) (bulk_out_length (bc s))"
  have "x AND 511 \<le> x" by (simp add: word_le_nat_alt unat_and_511)
  then have "x - (x AND 511) \<le> x" by (simp add: word_le_nat_alt unat_minus_no_wrap)
  moreover have "x \<le> bulk_out_length (bc s)" by (simp add: x_def)
  ultimately show ?thesis by (simp add: scsi_write_amount_def x_def [symmetric] Let_def)
qed

lemma scsi_write_stop_early_frame:
  "scsi_write_stop_early t = (b, u) \<Longrightarrow> cmd_frame_buf t u \<and> phase_error (ums u) = phase_error (ums t) \<and>
    residue (ums u) = residue (ums t) \<and> bulk_out_buf_state (bc u) = bulk_out_buf_state (bc t) \<and>
    (b \<longrightarrow> short_packet_received (ums u))"
  by (auto simp: scsi_write_stop_early_def frame_defs split: if_splits)

lemma scsi_write_drain_contract:
  assumes "scsi_write_drain env l wr s = (stop, l', wr', s')"
  shows "\<exists>a \<le> bulk_out_length (bc s). wr' = wr - a \<and> residue (ums s') = residue (ums s) - a \<and>
     cmd_frame_buf s s' \<and> phase_error (ums s') = phase_error (ums s) \<and>
     bulk_out_buf_state (bc s') = BUF_STATE_EMPTY \<and>
     (stop \<longrightarrow> sense_data (lu s') \<noteq> SS_NO_SENSE \<or> short_packet_received (ums s'))"
proof -
  define s0 where "s0 = upd_bc (\<lambda>b. b\<lparr>bulk_out_buf_state := BUF_STATE_EMPTY\<rparr>) s"
  have s0: "cmd_frame_buf s s0" "phase_error (ums s0) = phase_error (ums s)" "residue (ums s0) = residue (ums s)"
    "bulk_out_buf_state (bc s0) = BUF_STATE_EMPTY" "bulk_out_length (bc s0) = bulk_out_length (bc s)"
    by (simp_all add: s0_def frame_defs)
  define a where "a = scsi_write_amount l s0"
  have ale: "a \<le> bulk_out_length (bc s)" unfolding a_def s0(5) [symmetric] by (rule scsi_write_amount_le)
  obtain w fail where wr: "sdmmc_storage_write env (world s0) (offset (lu s0) + l) (drop_bit 9 a)
      (mem_read (mem s0) (bulk_out_buf (bc s0)) (unat a)) = (w, fail)" by fastforce
  define s1 where "s1 = upd_ums (\<lambda>u. u\<lparr>residue := residue u - a\<rparr>) (s0\<lparr>world := w\<rparr>)"
  have s1: "cmd_frame_buf s s1" "phase_error (ums s1) = phase_error (ums s)" "residue (ums s1) = residue (ums s) - a"
    "bulk_out_buf_state (bc s1) = BUF_STATE_EMPTY"
    using s0 by (simp_all add: s1_def frame_defs)
  define e1 where "e1 = set_text (comm_failure_text (bulk_out_status (bc s0))) (set_sense_at SS_COMMUNICATION_FAILURE l s0)"
  define e2 where "e2 = set_sense_at SS_WRITE_ERROR l (set_text ''#FFDD00 Error:# SDMMC Write!''
     (upd_ums (\<lambda>u. u\<lparr>residue := residue u - 0\<rparr>) (s0\<lparr>world := w\<rparr>)))"
  have eq: "scsi_write_drain env l wr s =
    (if bulk_out_status (bc s0) \<noteq> 0 then (True, l, wr, e1)
     else if a = 0 then case scsi_write_stop_early s0 of (stop, t) \<Rightarrow> (stop, l, wr, t)
     else if fail then (True, l, wr, e2)
     else case scsi_write_stop_early s1 of (stop, t) \<Rightarrow> (stop, l + drop_bit 9 a, wr - a, t))"
  proof (cases fail)
    case True
    then show ?thesis
      unfolding scsi_write_drain_def Let_def s0_def [symmetric] a_def [symmetric] wr e1_def [symmetric] e2_def
      by (simp only: prod.case if_True refl drop_bit_of_0 add_0_right diff_zero)
  next
    case False
    then show ?thesis
      unfolding scsi_write_drain_def Let_def s0_def [symmetric] a_def [symmetric] wr e1_def [symmetric] s1_def
      by (simp only: prod.case if_False refl cong: if_cong)
  qed
  have e: "cmd_frame_buf s e1" "phase_error (ums e1) = phase_error (ums s)" "residue (ums e1) = residue (ums s)"
    "bulk_out_buf_state (bc e1) = BUF_STATE_EMPTY" "sense_data (lu e1) \<noteq> SS_NO_SENSE"
    "cmd_frame_buf s e2" "phase_error (ums e2) = phase_error (ums s)" "residue (ums e2) = residue (ums s)"
    "bulk_out_buf_state (bc e2) = BUF_STATE_EMPTY" "sense_data (lu e2) \<noteq> SS_NO_SENSE"
    using s0 by (simp_all add: e1_def e2_def frame_defs sense_defs)
  consider (comm) "bulk_out_status (bc s0) \<noteq> 0" | (empty) "bulk_out_status (bc s0) = 0" "a = 0"
    | (failed) "bulk_out_status (bc s0) = 0" "a \<noteq> 0" fail
    | (written) "bulk_out_status (bc s0) = 0" "a \<noteq> 0" "\<not> fail" by blast
  then show ?thesis
  proof cases
    case comm
    then have "wr' = wr" "s' = e1" using assms by (simp_all add: eq)
    then show ?thesis using e by (intro exI [of _ 0]) simp
  next
    case empty
    obtain b u where se: "scsi_write_stop_early s0 = (b, u)" by fastforce
    then have "wr' = wr" "s' = u" "stop = b" using assms empty by (simp_all add: eq)
    then show ?thesis using scsi_write_stop_early_frame [OF se] s0 cmd_frame_buf_trans [OF s0(1)]
      by (intro exI [of _ 0]) simp
  next
    case failed
    then have "wr' = wr" "s' = e2" using assms by (simp_all add: eq)
    then show ?thesis using e by (intro exI [of _ 0]) simp
  next
    case written
    obtain b u where se: "scsi_write_stop_early s1 = (b, u)" by fastforce
    then have "wr' = wr - a" "s' = u" "stop = b" using assms written by (simp_all add: eq)
    then show ?thesis using scsi_write_stop_early_frame [OF se] s1 ale cmd_frame_buf_trans [OF s1(1)]
      by (intro exI [of _ a]) simp
  qed
qed

lemma scsi_write_request_contract:
  assumes "scsi_write_request env ul req s = Inr (ul', req', s1)"
  shows "cmd_frame_buf s s1 \<and> phase_error (ums s1) = phase_error (ums s) \<and> residue (ums s1) = residue (ums s) \<and>
    (if req = 0 then s1 = s \<and> req' = 0
     else bulk_out_buf_state (bc s1) = BUF_STATE_FULL \<and> bulk_out_length (bc s1) \<le> req \<and>
          req' = req - bulk_out_length (bc s1))"
proof (cases "req = 0")
  case True
  then show ?thesis using assms by (simp add: scsi_write_request_def)
next
  case False
  define q where "q = upd_bc (\<lambda>b. b\<lparr>bulk_out_length := MIN32 req UMS_EP_OUT_MAX_XFER\<rparr>)
    (upd_ums (\<lambda>u. u\<lparr>usb_amount_left := usb_amount_left u - MIN32 req UMS_EP_OUT_MAX_XFER\<rparr>) s)"
  have q: "cmd_frame_buf s q" "phase_error (ums q) = phase_error (ums s)" "residue (ums q) = residue (ums s)"
    "bulk_out_length (bc q) = MIN32 req UMS_EP_OUT_MAX_XFER"
    by (simp_all add: q_def frame_defs)
  have s1: "s1 = transfer_out_big_read env q" "req' = req - MIN32 req UMS_EP_OUT_MAX_XFER"
    using assms False unfolding scsi_write_request_def Let_def q_def
    by (simp_all add: word_gt_0 del: upd_bc_def upd_ums_def split: if_splits)
  have "bulk_out_buf_state (bc s1) = BUF_STATE_FULL"
    by (simp add: s1 transfer_out_big_read_def split_beta Let_def)
  then show ?thesis using False q cmd_frame_buf_trans [OF q(1)] by (simp add: s1)
qed

text \<open>
  Whatever the host and the storage do, a WRITE that returns has lowered the residue by the
  bytes written, and if bytes are missing it left sense data or a short packet mark.
\<close>

definition write_outcome :: "'w usys \<Rightarrow> u32 \<Rightarrow> 'w usys \<Rightarrow> bool" where
  "write_outcome s wr t \<longleftrightarrow> cmd_frame_buf s t \<and> phase_error (ums t) = phase_error (ums s) \<and>
     (\<exists>k \<le> unat wr. unat (residue (ums t)) = unat (residue (ums s)) - k \<and>
        (k = unat wr \<or> sense_data (lu t) \<noteq> SS_NO_SENSE \<or> short_packet_received (ums t)))"

lemma write_outcome_step:
  assumes "cmd_frame_buf s s2" "phase_error (ums s2) = phase_error (ums s)"
    "residue (ums s2) = residue (ums s) - a" "a \<le> wr" "wr \<le> residue (ums s)" "write_outcome s2 (wr - a) t"
  shows "write_outcome s wr t"
proof -
  from assms(6) obtain k where k: "cmd_frame_buf s2 t" "phase_error (ums t) = phase_error (ums s2)"
    "k \<le> unat (wr - a)" "unat (residue (ums t)) = unat (residue (ums s2)) - k"
    "k = unat (wr - a) \<or> sense_data (lu t) \<noteq> SS_NO_SENSE \<or> short_packet_received (ums t)"
    unfolding write_outcome_def by blast
  have le: "a \<le> residue (ums s)" using assms(4,5) by (rule order_trans)
  have u: "unat (wr - a) = unat wr - unat a" "unat (residue (ums s2)) = unat (residue (ums s)) - unat a"
    using assms(3,4) le by (simp_all add: unat_minus_no_wrap word_le_nat_alt)
  have "cmd_frame_buf s t" using assms(1) k(1) by (rule cmd_frame_buf_trans)
  moreover have "unat a + k \<le> unat wr" "k = unat (wr - a) \<longleftrightarrow> unat a + k = unat wr"
    using k(3) assms(4) u by (auto simp: word_le_nat_alt)
  ultimately show ?thesis
    unfolding write_outcome_def using k assms(2) u by (intro conjI exI [of _ "unat a + k"]) auto
qed

lemma write_outcome_stop:
  assumes "cmd_frame_buf s t" "phase_error (ums t) = phase_error (ums s)" "residue (ums t) = residue (ums s) - a"
    "a \<le> wr" "wr \<le> residue (ums s)" "sense_data (lu t) \<noteq> SS_NO_SENSE \<or> short_packet_received (ums t)"
  shows "write_outcome s wr t"
proof (rule write_outcome_step)
  show "write_outcome t (wr - a) t" using assms(6) by (auto simp: write_outcome_def)
qed (use assms in simp_all)

lemma scsi_write_loop_contract:
  assumes ret: "scsi_write_loop env ul l req wr s = Some t"
    and pre: "req \<le> wr" "wr \<le> residue (ums s)" "req = 0 \<Longrightarrow> wr = 0 \<or> bulk_out_buf_state (bc s) \<noteq> BUF_STATE_FULL"
  shows "write_outcome s wr t"
proof -
  let ?pre = "\<lambda>req wr s. req \<le> wr \<and> wr \<le> residue (ums s) \<and>
     (req = 0 \<longrightarrow> wr = 0 \<or> bulk_out_buf_state (bc s) \<noteq> BUF_STATE_FULL)"
  have "?pre req wr s \<longrightarrow> write_outcome s wr t"
  proof (rule scsi_write_loop.raw_induct [where P = "\<lambda>env ul l req wr s t. ?pre req wr s \<longrightarrow> write_outcome s wr t",
        OF _ ret], intro impI)
    fix f :: "'a ums_env \<Rightarrow> u32 \<Rightarrow> u32 \<Rightarrow> u32 \<Rightarrow> u32 \<Rightarrow> 'a usys \<Rightarrow> 'a usys option" and env ul l req wr s t
    assume IH: "\<And>env ul l req wr s t. f env ul l req wr s = Some t \<Longrightarrow> ?pre req wr s \<longrightarrow> write_outcome s wr t"
      and eq: "(if wr > 0
        then (case scsi_write_request env ul req s of
                Inl s' \<Rightarrow> Some s'
              | Inr x \<Rightarrow>
                  (case x of (ul', req', s1) \<Rightarrow>
                     if bulk_out_buf_state (bc s1) = BUF_STATE_FULL
                     then (case scsi_write_drain env l wr s1 of
                             (stop, l', wr', s2) \<Rightarrow>
                               if stop then Some s2 else f env ul' l' req' wr' s2)
                     else f env ul' l req' wr s1))
        else Some s) = Some t"
      and p: "?pre req wr s"
    show "write_outcome s wr t"
    proof (cases "wr > 0")
      case False
      then show ?thesis using eq by (simp add: write_outcome_def word_gt_0)
    next
      case True
      show ?thesis
      proof (cases "scsi_write_request env ul req s")
        case (Inl s')
        then have s': "s' = set_sense_at SS_LOGICAL_BLOCK_ADDRESS_OUT_OF_RANGE ul
           (set_text ''#FFDD00 Error:# Write - Past last sector!'' s)"
          by (simp add: scsi_write_request_def Let_def del: set_sense_at_def set_text_def split: if_splits)
        have "t = s'" using eq True Inl by simp
        then show ?thesis using p
          by (intro write_outcome_stop [where a = 0]) (simp_all add: s' frame_defs sense_defs)
      next
        case (Inr x)
        obtain ul' req' s1 where x: "x = (ul', req', s1)" by (metis prod_cases3)
        note q = scsi_write_request_contract [OF Inr [unfolded x]]
        show ?thesis
        proof (cases "req = 0")
          case r0: True
          then have "f env ul' l req wr s = Some t"
            using eq True Inr x q p by (simp add: word_gt_0 split: if_splits)
          from IH [OF this] p show ?thesis by simp
        next
          case r1: False
          obtain stop l' wr' s2 where d: "scsi_write_drain env l wr s1 = (stop, l', wr', s2)" by (metis prod_cases4)
          from scsi_write_drain_contract [OF d] obtain a where
            a: "a \<le> bulk_out_length (bc s1)" "wr' = wr - a" "residue (ums s2) = residue (ums s1) - a" "cmd_frame_buf s1 s2"
              "phase_error (ums s2) = phase_error (ums s1)" "bulk_out_buf_state (bc s2) = BUF_STATE_EMPTY"
              "stop \<longrightarrow> sense_data (lu s2) \<noteq> SS_NO_SENSE \<or> short_packet_received (ums s2)" by blast
          have q': "cmd_frame_buf s s1" "phase_error (ums s1) = phase_error (ums s)" "residue (ums s1) = residue (ums s)"
            "bulk_out_length (bc s1) \<le> req" "req' = req - bulk_out_length (bc s1)"
            "bulk_out_buf_state (bc s1) = BUF_STATE_FULL" using q r1 by simp_all
          have fr: "cmd_frame_buf s s2" "phase_error (ums s2) = phase_error (ums s)" "residue (ums s2) = residue (ums s) - a"
            using cmd_frame_buf_trans [OF q'(1) a(4)] a q' by simp_all
          have awr: "a \<le> wr" using a(1) q'(4) p by auto
          show ?thesis
          proof (cases stop)
            case True
            then have "t = s2" using eq \<open>wr > 0\<close> Inr x q' d by simp
            then show ?thesis using write_outcome_stop [OF fr awr] p a(7) True by blast
          next
            case False
            then have "f env ul' l' req' wr' s2 = Some t" using eq \<open>wr > 0\<close> Inr x q' d by simp
            moreover have "req' \<le> wr'" "wr' \<le> residue (ums s2)"
            proof -
              have p': "req \<le> wr" "wr \<le> residue (ums s)" using p by auto
              have len: "bulk_out_length (bc s1) \<le> req" "a \<le> residue (ums s)" using q' awr p by auto
              show "req' \<le> wr'" "wr' \<le> residue (ums s2)"
                using len a(1,2) q'(5) p' awr fr(3)
                by (simp_all add: word_le_nat_alt unat_minus_no_wrap)
            qed
            ultimately have "write_outcome s2 wr' t" using IH a(6) by auto
            then show ?thesis using write_outcome_step [OF fr awr] p a(2) by blast
          qed
        qed
      qed
    qed
  qed
  with pre show ?thesis by blast
qed

lemma scsi_write_cases:
  assumes "accounted s" "scsi_write env s = Some (r, t)"
  obtains (rejected) "r = UMS_RES_INVALID_ARG" "cmd_frame s t" "phase_error (ums t) = phase_error (ums s)"
      "sense_data (lu t) \<noteq> SS_NO_SENSE" "residue (ums t) = residue (ums s)"
      "data_size_from_cmnd (ums t) = data_size_from_cmnd (ums s)" "bulk_in_buf (bc t) = bulk_in_buf (bc s)"
    | (transfer) "r = UMS_RES_IO_ERROR" "write_outcome s (data_size_from_cmnd (ums s)) t"
proof -
  define lba where "lba = (if cmnd (ums s) ! 0 = SC_WRITE_6 then get_array_be_to_le24 (cmnd (ums s)) 1
     else get_array_be_to_le32 (cmnd (ums s)) 2)"
  define n where "n = data_size_from_cmnd (ums s)"
  define bad where "bad \<longleftrightarrow> cmnd (ums s) ! 0 \<noteq> SC_WRITE_6 \<and> cmnd (ums s) ! 1 AND NOT 0x18 \<noteq> 0"
  have eq: "scsi_write env s =
    (if ro (lu s) then Some (UMS_RES_INVALID_ARG, set_sense SS_WRITE_PROTECTED
                      (set_text ''#FF8000 Warn:# Write - Read only! Host notified.'' s))
     else if bad then Some (UMS_RES_INVALID_ARG, set_sense SS_INVALID_FIELD_IN_CDB s)
     else if lba \<ge> num_sectors (lu s) then Some (UMS_RES_INVALID_ARG, set_sense SS_LOGICAL_BLOCK_ADDRESS_OUT_OF_RANGE
                 (set_text ''#FF8000 Warn:# Write - Out of range! Host notified.'' s))
     else map_option (\<lambda>s'. (UMS_RES_IO_ERROR, s')) (scsi_write_loop env lba lba n n s))"
    by (simp only: scsi_write_def Let_def lba_def n_def bad_def)
  show ?thesis
  proof (cases "ro (lu s) \<or> bad \<or> lba \<ge> num_sectors (lu s)")
    case True
    with eq assms(2) show ?thesis
      by (intro rejected) (auto simp: cmd_frame_def lun_config_def sense_defs split: if_splits)
  next
    case False
    then have "r = UMS_RES_IO_ERROR" "scsi_write_loop env lba lba n n s = Some t"
      using eq assms(2) by (cases "scsi_write_loop env lba lba n n s"; simp)+
    moreover have "write_outcome s n t"
      by (rule scsi_write_loop_contract [OF calculation(2)]) (use assms(1) in \<open>simp_all add: accounted_def n_def\<close>)
    ultimately show ?thesis using transfer by (simp add: n_def)
  qed
qed

interpretation write_cmd: scsi_handler "scsi_write env" dir for env dir
proof unfold_locales
  fix s :: "'a usys" and r t
  assume a: "accounted s" and b: "scsi_write env s = Some (r, t)"
  show "cmd_frame s t" "phase_error (ums t) = phase_error (ums s)"
    "r = UMS_RES_INVALID_ARG \<or> r = UMS_RES_IO_ERROR \<or> 0 \<le> r \<and> r \<le> 36"
    by (rule scsi_write_cases [OF a b]; simp add: write_outcome_def cmd_frame_buf_def)+
  show "dir = DATA_DIR_TO_HOST \<and> data_size_from_cmnd (ums s) \<noteq> 0"
    if "bulk_in_buf (bc t) \<noteq> bulk_in_buf (bc s)"
    by (rule scsi_write_cases [OF a b]) (use that in \<open>auto simp: write_outcome_def cmd_frame_buf_def\<close>)
  show "residue (ums t) \<le> residue (ums s)"
    by (rule scsi_write_cases [OF a b]) (auto simp: write_outcome_def word_le_nat_alt)
  show "r \<noteq> UMS_RES_IO_ERROR \<Longrightarrow> residue (ums t) = residue (ums s) \<and> data_size_from_cmnd (ums t) = data_size_from_cmnd (ums s)"
    by (rule scsi_write_cases [OF a b]) simp_all
next
  fix s t :: "'a usys"
  assume a: "accounted s" and b: "scsi_write env s = Some (UMS_RES_INVALID_ARG, t)"
  show "sense_data (lu t) \<noteq> SS_NO_SENSE"
    by (rule scsi_write_cases [OF a b]) (simp_all add: hk_defs)
qed

subsection \<open>Command checking\<close>

lemma check_scsi_cmd_contract:
  assumes "check_scsi_cmd sz dir m nm s = (r, t)"
  shows "cmd_frame_buf s t" "residue (ums t) = data_size (ums s)" "usb_amount_left (ums t) = data_size (ums s)"
    "data_size_from_cmnd (ums t) = MIN32 (data_size_from_cmnd (ums s)) (data_size (ums s))"
    "r = UMS_RES_OK \<or> r = UMS_RES_INVALID_ARG"
    "r \<noteq> UMS_RES_OK \<Longrightarrow> phase_error (ums t) \<or> sense_data (lu t) \<noteq> SS_NO_SENSE"
    "r = UMS_RES_OK \<Longrightarrow> phase_error (ums t) \<longleftrightarrow> phase_error (ums s) \<or> data_size (ums s) < data_size_from_cmnd (ums s)"
    "r = UMS_RES_OK \<Longrightarrow> cmnd (ums s) ! 0 \<noteq> SC_REQUEST_SENSE \<Longrightarrow> sense_data (lu t) = SS_NO_SENSE"
    "r = UMS_RES_OK \<Longrightarrow> sz \<le> cmnd_size (ums s) \<and> (nm \<longrightarrow> \<not> unmounted (lu t)) \<and>
       (data_size_from_cmnd (ums t) = 0 \<or> data_dir (ums s) = dir)"
proof -
  define s2 where "s2 = upd_ums (\<lambda>u. u\<lparr>residue := data_size u, usb_amount_left := data_size u\<rparr>)
    (if data_size (ums s) < data_size_from_cmnd (ums s)
     then upd_ums (\<lambda>u. u\<lparr>data_size_from_cmnd := data_size u, phase_error := True\<rparr>) s else s)"
  have s2: "cmd_frame_buf s s2" "residue (ums s2) = data_size (ums s)" "usb_amount_left (ums s2) = data_size (ums s)"
    "data_size_from_cmnd (ums s2) = MIN32 (data_size_from_cmnd (ums s)) (data_size (ums s))"
    "phase_error (ums s2) \<longleftrightarrow> phase_error (ums s) \<or> data_size (ums s) < data_size_from_cmnd (ums s)"
    "lun (ums s2) = lun (ums s)" "cmnd (ums s2) = cmnd (ums s)" "data_dir (ums s2) = data_dir (ums s)"
    "cmnd_size (ums s2) = cmnd_size (ums s)"
    by (auto simp: s2_def frame_defs MIN32_def)
  define s3 where "s3 = (if cmnd (ums s2) ! 0 \<noteq> SC_REQUEST_SENSE
     then upd_lun (\<lambda>l. l\<lparr>sense_data := SS_NO_SENSE, sense_data_info := 0, info_valid := 0\<rparr>) s2 else s2)"
  have s3: "cmd_frame_buf s s3" "residue (ums s3) = data_size (ums s)" "usb_amount_left (ums s3) = data_size (ums s)"
    "data_size_from_cmnd (ums s3) = MIN32 (data_size_from_cmnd (ums s)) (data_size (ums s))"
    "phase_error (ums s3) \<longleftrightarrow> phase_error (ums s) \<or> data_size (ums s) < data_size_from_cmnd (ums s)"
    "cmnd (ums s) ! 0 \<noteq> SC_REQUEST_SENSE \<Longrightarrow> sense_data (lu s3) = SS_NO_SENSE"
    "cmnd (ums s3) = cmnd (ums s)"
    using s2 by (auto simp: s3_def frame_defs)
  define s4 where "s4 = upd_ums (\<lambda>u. u\<lparr>cmnd := (cmnd u)[1 := cmnd u ! 1 AND 0x1F]\<rparr>) s3"
  have s4: "cmd_frame_buf s s4" "residue (ums s4) = data_size (ums s)" "usb_amount_left (ums s4) = data_size (ums s)"
    "data_size_from_cmnd (ums s4) = MIN32 (data_size_from_cmnd (ums s)) (data_size (ums s))"
    "phase_error (ums s4) \<longleftrightarrow> phase_error (ums s) \<or> data_size (ums s) < data_size_from_cmnd (ums s)"
    "cmnd (ums s) ! 0 \<noteq> SC_REQUEST_SENSE \<Longrightarrow> sense_data (lu s4) = SS_NO_SENSE"
    using s3 by (auto simp: s4_def frame_defs)
  define d where "d = (if data_size_from_cmnd (ums s) = 0 then DATA_DIR_NONE else dir)"
  define dir_bad where "dir_bad \<longleftrightarrow> data_dir (ums s) \<noteq> d \<and> data_size_from_cmnd (ums s2) > 0"
  define att where "att \<longleftrightarrow> unit_attention_data (lu s3) \<noteq> SS_NO_SENSE \<and>
     cmnd (ums s2) ! 0 \<noteq> SC_INQUIRY \<and> cmnd (ums s2) ! 0 \<noteq> SC_REQUEST_SENSE"
  define rsv where "rsv \<longleftrightarrow> list_ex (\<lambda>i. cmnd (ums s4) ! i \<noteq> 0 \<and> m AND BIT i = 0) [1..<unat (cmnd_size (ums s))]"
  have eq: "check_scsi_cmd sz dir m nm s =
    (if dir_bad \<or> sz > cmnd_size (ums s) then (UMS_RES_INVALID_ARG, upd_ums (\<lambda>u. u\<lparr>phase_error := True\<rparr>) s2)
     else if att then (UMS_RES_INVALID_ARG, upd_lun (\<lambda>l. l\<lparr>sense_data := unit_attention_data l, unit_attention_data := SS_NO_SENSE\<rparr>) s3)
     else if rsv then (UMS_RES_INVALID_ARG, set_sense SS_INVALID_FIELD_IN_CDB s4)
     else if unmounted (lu s4) \<and> nm then (UMS_RES_INVALID_ARG, set_sense SS_MEDIUM_NOT_PRESENT s4)
     else (UMS_RES_OK, s4))"
    unfolding check_scsi_cmd_def Let_def s2_def [symmetric] s3_def [symmetric] s4_def [symmetric]
      d_def [symmetric] att_def [symmetric] s2(8,9) rsv_def [symmetric] dir_bad_def [symmetric] by simp
  note fr = frame_defs
  consider (ph) "dir_bad \<or> sz > cmnd_size (ums s)" | (at) "\<not> (dir_bad \<or> sz > cmnd_size (ums s))" att
    | (rs) "\<not> (dir_bad \<or> sz > cmnd_size (ums s))" "\<not> att" rsv
    | (um) "\<not> (dir_bad \<or> sz > cmnd_size (ums s))" "\<not> att" "\<not> rsv" "unmounted (lu s4) \<and> nm"
    | (ok) "\<not> (dir_bad \<or> sz > cmnd_size (ums s))" "\<not> att" "\<not> rsv" "\<not> (unmounted (lu s4) \<and> nm)" by blast
  then have "cmd_frame_buf s t \<and> residue (ums t) = data_size (ums s) \<and> usb_amount_left (ums t) = data_size (ums s) \<and>
    data_size_from_cmnd (ums t) = MIN32 (data_size_from_cmnd (ums s)) (data_size (ums s)) \<and>
    (r = UMS_RES_OK \<or> r = UMS_RES_INVALID_ARG) \<and>
    (r \<noteq> UMS_RES_OK \<longrightarrow> phase_error (ums t) \<or> sense_data (lu t) \<noteq> SS_NO_SENSE) \<and>
    (r = UMS_RES_OK \<longrightarrow> (phase_error (ums t) \<longleftrightarrow> phase_error (ums s) \<or> data_size (ums s) < data_size_from_cmnd (ums s))) \<and>
    (r = UMS_RES_OK \<longrightarrow> cmnd (ums s) ! 0 \<noteq> SC_REQUEST_SENSE \<longrightarrow> sense_data (lu t) = SS_NO_SENSE) \<and>
    (r = UMS_RES_OK \<longrightarrow> sz \<le> cmnd_size (ums s) \<and> (nm \<longrightarrow> \<not> unmounted (lu t)) \<and> \<not> dir_bad)"
  proof cases
    case ph
    then have t: "r = UMS_RES_INVALID_ARG" "t = upd_ums (\<lambda>u. u\<lparr>phase_error := True\<rparr>) s2" using assms eq by simp_all
    show ?thesis using s2 by (simp add: t fr hk_defs)
  next
    case at
    then have t: "r = UMS_RES_INVALID_ARG"
      "t = upd_lun (\<lambda>l. l\<lparr>sense_data := unit_attention_data l, unit_attention_data := SS_NO_SENSE\<rparr>) s3"
      using assms eq by simp_all
    show ?thesis using s3 at(2) by (simp add: t fr hk_defs att_def)
  next
    case rs
    then have t: "r = UMS_RES_INVALID_ARG" "t = set_sense SS_INVALID_FIELD_IN_CDB s4" using assms eq by simp_all
    show ?thesis using s4 by (simp add: t fr hk_defs sense_defs)
  next
    case um
    then have t: "r = UMS_RES_INVALID_ARG" "t = set_sense SS_MEDIUM_NOT_PRESENT s4" using assms eq by simp_all
    show ?thesis using s4 by (simp add: t fr hk_defs sense_defs)
  next
    case ok
    then have t: "r = UMS_RES_OK" "t = s4" using assms eq by (auto split: if_splits)
    show ?thesis using s4 ok by (auto simp: t not_less)
  qed
  moreover have "\<not> dir_bad \<longrightarrow> data_size_from_cmnd (ums t) = 0 \<or> data_dir (ums s) = dir"
    if "data_size_from_cmnd (ums t) = MIN32 (data_size_from_cmnd (ums s)) (data_size (ums s))"
    using that by (auto simp: dir_bad_def s2 d_def word_gt_0 MIN32_def split: if_splits)
  ultimately show "cmd_frame_buf s t" "residue (ums t) = data_size (ums s)" "usb_amount_left (ums t) = data_size (ums s)"
    "data_size_from_cmnd (ums t) = MIN32 (data_size_from_cmnd (ums s)) (data_size (ums s))"
    "r = UMS_RES_OK \<or> r = UMS_RES_INVALID_ARG"
    "r \<noteq> UMS_RES_OK \<Longrightarrow> phase_error (ums t) \<or> sense_data (lu t) \<noteq> SS_NO_SENSE"
    "r = UMS_RES_OK \<Longrightarrow> phase_error (ums t) \<longleftrightarrow> phase_error (ums s) \<or> data_size (ums s) < data_size_from_cmnd (ums s)"
    "r = UMS_RES_OK \<Longrightarrow> cmnd (ums s) ! 0 \<noteq> SC_REQUEST_SENSE \<Longrightarrow> sense_data (lu t) = SS_NO_SENSE"
    "r = UMS_RES_OK \<Longrightarrow> sz \<le> cmnd_size (ums s) \<and> (nm \<longrightarrow> \<not> unmounted (lu t)) \<and>
       (data_size_from_cmnd (ums t) = 0 \<or> data_dir (ums s) = dir)"
    by simp_all
qed

subsection \<open>Running a handler\<close>

definition run_with ::
  "u32 \<Rightarrow> u32 \<Rightarrow> data_direction \<Rightarrow> u32 \<Rightarrow> bool \<Rightarrow> ('w usys \<Rightarrow> (int \<times> 'w usys) option) \<Rightarrow> 'w usys \<Rightarrow>
   (int \<times> 'w usys) option" where
  "run_with n sz dir m nm h s =
     (case check_scsi_cmd sz dir m nm (upd_ums (\<lambda>u. u\<lparr>data_size_from_cmnd := n\<rparr>) s) of
        (r, s1) \<Rightarrow> if r = 0 then h s1 else Some (r, s1))"

lemma run_with_scsi_run: "Some (scsi_run n sz dir m nm h s) = run_with n sz dir m nm (\<lambda>s. Some (h s)) s"
  by (simp add: scsi_run_def run_with_def Let_def split_beta)

lemma run_with_scsi_run_write: "scsi_run_write env n sz m s = run_with n sz DATA_DIR_FROM_HOST m True (scsi_write env) s"
  by (simp add: scsi_run_write_def run_with_def Let_def split_beta)

definition dispatch_ok :: "'w usys \<Rightarrow> (int \<times> 'w usys) option \<Rightarrow> bool" where
  "dispatch_ok s res \<longleftrightarrow> (case res of None \<Rightarrow> True | Some (r, t) \<Rightarrow>
     cmd_frame s t \<and> residue (ums t) \<le> data_size (ums s) \<and>
     (r = UMS_RES_INVALID_ARG \<or> r = UMS_RES_IO_ERROR \<or> 0 \<le> r \<and> r \<le> 36) \<and>
     (r \<noteq> UMS_RES_IO_ERROR \<longrightarrow> residue (ums t) = data_size (ums s) \<and>
        data_size_from_cmnd (ums t) \<le> data_size (ums s)) \<and>
     (bulk_in_buf (bc t) = bulk_in_buf (bc s) \<or> data_dir (ums s) = DATA_DIR_TO_HOST) \<and>
     (r = UMS_RES_INVALID_ARG \<longrightarrow> csw_status (ums t) \<noteq> USB_STATUS_PASS))"

lemma csw_status_not_pass:
  "csw_status u \<noteq> USB_STATUS_PASS \<longleftrightarrow> phase_error u \<or> sense_data (lun u) \<noteq> SS_NO_SENSE"
  by (simp add: csw_status_def USB_STATUS_PASS_def USB_STATUS_FAIL_def USB_STATUS_PHASE_ERROR_def)

lemma cmd_frame_upd_size [simp]:
  "cmd_frame (upd_ums (\<lambda>u. u\<lparr>data_size_from_cmnd := n\<rparr>) s) t \<longleftrightarrow> cmd_frame s t"
  by (simp add: frame_defs)

context scsi_handler
begin

lemma run_with_ok: "dispatch_ok s (run_with n sz dir m nm h s)"
proof -
  define s0 where "s0 = upd_ums (\<lambda>u. u\<lparr>data_size_from_cmnd := n\<rparr>) s"
  have ds: "data_size (ums s0) = data_size (ums s)" "data_dir (ums s0) = data_dir (ums s)"
    "bulk_in_buf (bc s0) = bulk_in_buf (bc s)" by (simp_all add: s0_def)
  have f0: "cmd_frame s0 t \<Longrightarrow> cmd_frame s t" for t unfolding s0_def by (simp only: cmd_frame_upd_size)
  obtain r s1 where ch: "check_scsi_cmd sz dir m nm s0 = (r, s1)" by fastforce
  note c = check_scsi_cmd_contract [OF ch]
  have c1: "cmd_frame s0 s1" "bulk_in_buf (bc s1) = bulk_in_buf (bc s)" using c(1) ds by (simp_all add: cmd_frame_buf_def)
  have eq: "run_with n sz dir m nm h s = (if r = 0 then h s1 else Some (r, s1))"
    using ch by (simp add: run_with_def s0_def)
  have acc: "accounted s1" using c(2,4) by (simp add: accounted_def)
  show ?thesis
  proof (cases "r = 0")
    case True
    show ?thesis
    proof (cases "h s1")
      case None
      then show ?thesis using True by (simp add: eq dispatch_ok_def)
    next
      case (Some p)
      then obtain r' t where h: "h s1 = Some (r', t)" by (cases p) simp
      have "cmd_frame s t" using f0 [OF cmd_frame_trans [OF c1(1) frame [OF acc h]]] .
      moreover have "residue (ums t) \<le> data_size (ums s)" using residue_le [OF acc h] c(2) by (simp add: ds)
      moreover have "r' \<noteq> UMS_RES_IO_ERROR \<longrightarrow> residue (ums t) = data_size (ums s) \<and>
        data_size_from_cmnd (ums t) \<le> data_size (ums s)" using keeps [OF acc h] c(2,4) ds by simp
      moreover have "r' = UMS_RES_INVALID_ARG \<longrightarrow> csw_status (ums t) \<noteq> USB_STATUS_PASS"
        using reported [OF acc] h by (auto simp: csw_status_not_pass)
      moreover have "bulk_in_buf (bc t) = bulk_in_buf (bc s) \<or> data_dir (ums s) = DATA_DIR_TO_HOST"
        using buffer [OF acc h] c(9) True ds c1(2) by (auto simp: hk_defs)
      moreover note reply [OF acc h]
      ultimately show ?thesis using True h by (simp add: eq dispatch_ok_def)
    qed
  next
    case False
    then have "r = UMS_RES_INVALID_ARG" "r \<noteq> UMS_RES_OK" using c(5) by (auto simp: hk_defs)
    moreover have "csw_status (ums s1) \<noteq> USB_STATUS_PASS" using c(6) calculation by (simp add: csw_status_not_pass)
    ultimately show ?thesis using False c(1,2,4) f0 [OF c1(1)] c1(2) ds by (simp add: eq dispatch_ok_def)
  qed
qed

end

lemma dispatch_ok_if [intro]: "dispatch_ok s x \<Longrightarrow> dispatch_ok s y \<Longrightarrow> dispatch_ok s (if b then x else y)"
  by simp

lemmas run_with_oks =
  inquiry.run_with_ok log_sense.run_with_ok mode_sense.run_with_ok request_sense.run_with_ok
  read_capacity.run_with_ok read_format_capacities.run_with_ok start_stop.run_with_ok prevent_allow.run_with_ok
  no_handler.run_with_ok no_op.run_with_ok read_cmd.run_with_ok verify.run_with_ok write_cmd.run_with_ok

lemma scsi_dispatch_ok: "dispatch_ok s (scsi_dispatch env s)"
  unfolding scsi_dispatch_def Let_def run_with_scsi_run run_with_scsi_run_write
  by (intro dispatch_ok_if run_with_oks)

lemma scsi_set_reply_frame:
  "cmd_frame_buf s (scsi_set_reply r s)" "phase_error (ums (scsi_set_reply r s)) = phase_error (ums s)"
  "lun (ums (scsi_set_reply r s)) = lun (ums s)"
  by (simp_all add: scsi_set_reply_def Let_def frame_defs)

lemma scsi_set_reply_residue:
  assumes "dispatch_ok s (Some (r, t))"
  shows "residue (ums (scsi_set_reply r t)) \<le> data_size (ums s)"
proof (cases "r = UMS_RES_IO_ERROR")
  case True
  then have "scsi_set_reply r t = t" by (simp add: scsi_set_reply_def hk_defs)
  then show ?thesis using assms by (simp add: dispatch_ok_def)
next
  case False
  let ?len = "\<lambda>x. MIN32 x (data_size_from_cmnd (ums t))"
  have "data_size_from_cmnd (ums t) \<le> data_size (ums s)" using assms False by (simp add: dispatch_ok_def)
  then have "?len x \<le> data_size (ums s)" for x using MIN32_le2 order_trans by blast
  then have "data_size (ums s) - ?len x \<le> data_size (ums s)" for x
    by (simp add: word_le_nat_alt unat_minus_no_wrap)
  then show ?thesis using assms False by (simp add: dispatch_ok_def scsi_set_reply_def Let_def)
qed

lemma parse_scsi_cmd_ok:
  assumes "parse_scsi_cmd env s = Some (rc, t)"
  shows "rc = UMS_RES_OK" "cmd_frame s t" "residue (ums t) \<le> data_size (ums s)"
    "bulk_in_buf (bc t) = bulk_in_buf (bc s) \<or> data_dir (ums s) = DATA_DIR_TO_HOST"
proof -
  define s0 where "s0 = upd_ums (\<lambda>u. u\<lparr>phase_error := False, short_packet_received := False\<rparr>) s"
  have s0: "cmd_frame s s0" "data_size (ums s0) = data_size (ums s)" "data_dir (ums s0) = data_dir (ums s)"
    "bulk_in_buf (bc s0) = bulk_in_buf (bc s)" by (simp_all add: s0_def frame_defs)
  obtain r t' where d: "scsi_dispatch env s0 = Some (r, t')" "t = scsi_set_reply r t'" "rc = UMS_RES_OK"
    using assms by (auto simp: parse_scsi_cmd_def s0_def)
  have ok: "dispatch_ok s0 (Some (r, t'))" using scsi_dispatch_ok [of s0 env] d(1) by simp
  then have f: "cmd_frame s0 t'" by (simp add: dispatch_ok_def)
  note g = scsi_set_reply_frame(1) [of t' r, folded d(2), unfolded cmd_frame_buf_def]
  show "cmd_frame s t" using cmd_frame_trans [OF s0(1)] cmd_frame_trans [OF f] g by blast
  show "residue (ums t) \<le> data_size (ums s)" using scsi_set_reply_residue [OF ok] d s0 by simp
  show "bulk_in_buf (bc t) = bulk_in_buf (bc s) \<or> data_dir (ums s) = DATA_DIR_TO_HOST"
    using ok g s0 by (simp add: dispatch_ok_def)
  show "rc = UMS_RES_OK" by (rule d)
qed

text \<open>
  C27. Parsing and running a command, whatever the host and the storage do: the command and the
  logical unit's configuration are kept, and the residue that will be reported is at most the
  number of bytes the host announced (it never wraps below zero).
\<close>

theorem parse_scsi_cmd_residue:
  assumes "parse_scsi_cmd env s = Some (rc, t)"
  shows "rc = UMS_RES_OK \<and> cmd_frame s t \<and> residue (ums t) \<le> data_size (ums s)"
  using parse_scsi_cmd_ok [OF assms] by blast

lemma scsi_dispatch_rejected:
  "scsi_dispatch env s = Some (UMS_RES_INVALID_ARG, t) \<Longrightarrow> csw_status (ums t) \<noteq> USB_STATUS_PASS"
  using scsi_dispatch_ok [of s env] by (simp add: dispatch_ok_def)

text \<open>
  C29. A command that is rejected (\<open>UMS_RES_INVALID_ARG\<close>) is never reported to the host as passed:
  the status wrapper will say failed or phase error.
\<close>

theorem scsi_rejection_reported:
  assumes "scsi_dispatch env s = Some (UMS_RES_INVALID_ARG, t)"
  shows "csw_status (ums t) \<noteq> USB_STATUS_PASS"
  using assms by (rule scsi_dispatch_rejected)

subsection \<open>No silent short transfer\<close>


context scsi_handler
begin

lemma run_with_pass:
  assumes "run_with n sz d m nm h s = Some (r, t)" "r \<noteq> UMS_RES_INVALID_ARG" "\<not> phase_error (ums t)"
  obtains s1 where "h s1 = Some (r, t)" "accounted s1" "n \<le> data_size (ums s)" "data_size_from_cmnd (ums s1) = n"
    "residue (ums s1) = data_size (ums s)"
proof -
  define s0 where "s0 = upd_ums (\<lambda>u. u\<lparr>data_size_from_cmnd := n\<rparr>) s"
  have s0: "data_size (ums s0) = data_size (ums s)" "data_size_from_cmnd (ums s0) = n" by (simp_all add: s0_def)
  obtain r0 s1 where ch: "check_scsi_cmd sz d m nm s0 = (r0, s1)" by fastforce
  note c = check_scsi_cmd_contract [OF ch]
  have eq: "(if r0 = 0 then h s1 else Some (r0, s1)) = Some (r, t)"
    using assms(1) ch by (simp add: run_with_def s0_def)
  with assms(2) c(5) have r0: "r0 = 0" "h s1 = Some (r, t)" by (auto simp: hk_defs split: if_splits)
  have acc: "accounted s1" using c(2,4) by (simp add: accounted_def)
  have "\<not> phase_error (ums s1)" using assms(3) phase [OF acc r0(2)] by simp
  then have "n \<le> data_size (ums s)" using c(7) r0(1) s0 by (auto simp: hk_defs not_less)
  moreover from this have "data_size_from_cmnd (ums s1) = n" using c(4) s0 by (auto simp: MIN32_def)
  ultimately show ?thesis using that [OF r0(2) acc] c(2) s0 by simp
qed

end




end
