(* ===== verification/Ums_Read.thy ===== *)
theory Ums_Read
  imports Ums_Contract
begin

text \<open>
  SCSI READ on a storage that works: the sectors asked for arrive in the transfer buffer.
\<close>

subsection \<open>READ delivers the sectors\<close>

lemma mem_read_append: "mem_read m a (x + y) = mem_read m a x @ mem_read m (a + of_nat x) y"
  by (rule nth_equalityI) (auto simp: mem_read_def nth_append of_nat_diff)

lemma mem_read_cong: "(\<And>i. i < n \<Longrightarrow> m (a + of_nat i) = m' (a + of_nat i)) \<Longrightarrow> mem_read m a n = mem_read m' a n"
  by (simp add: mem_read_def)

lemma transfer_in_mem_ep:
  "ep = bulk_in (bc s) \<Longrightarrow> mem (transfer_finish env ep t s) = mem s"
  by simp

text \<open>A storage that answers every read with the sectors of \<open>disk\<close>.\<close>

definition serves :: "'w ums_env \<Rightarrow> (nat \<Rightarrow> u8 list) \<Rightarrow> bool" where
  "serves env disk \<longleftrightarrow> (\<forall>i. length (disk i) = 512) \<and>
     (\<forall>w sec n. \<exists>w'. sdmmc_storage_read env w sec n = (w', False, concat (map disk [unat sec..<unat sec + unat n])))"

lemma length_sectors: "serves env disk \<Longrightarrow> length (concat (map disk [i..<i + n])) = n * 512"
  by (induction n) (auto simp: serves_def)

lemma scsi_read_chunk_data:
  assumes "serves env disk" "scsi_read_chunk env lba a f buf s = (n, t)"
  shows "n = a" "lun (ums t) = lun (ums s)"
    "mem t = mem_write (mem s) buf (concat (map disk [unat (offset (lu s) + lba)..<unat (offset (lu s) + lba) + unat a]))"
proof -
  obtain w where rd: "sdmmc_storage_read env (world s) (offset (lu s) + lba) a =
     (w, False, concat (map disk [unat (offset (lu s) + lba)..<unat (offset (lu s) + lba) + unat a]))"
    using assms(1) unfolding serves_def by blast
  show "n = a" using assms(2) rd by (simp add: scsi_read_chunk_def Let_def)
  show "lun (ums t) = lun (ums s)" using scsi_read_chunk_contract(3) [OF assms(2)] .
  show "mem t = mem_write (mem s) buf (concat (map disk [unat (offset (lu s) + lba)..<unat (offset (lu s) + lba) + unat a]))"
    using assms(2) rd by (cases f) (auto simp: scsi_read_chunk_def Let_def transfer_in_mem_ep)
qed


lemma mem_write_other: "length bs \<le> unat (x - a) \<Longrightarrow> mem_write m a bs x = m x"
  by (simp add: mem_write_def)

lemma scsi_read_loop_data:
  fixes env :: "'w ums_env" and s :: "'w usys" and lba left m buf :: u32 and f :: bool
  assumes "serves env disk" "left \<noteq> 0" "m \<noteq> 0"
    "unat lba + unat left \<le> unat (num_sectors (lu s))"
    "unat (offset (lu s)) + unat (num_sectors (lu s)) \<le> 2 ^ 32 - 1" "unat left * 512 \<le> 2 ^ 32 - 1"
  defines "t \<equiv> scsi_read_loop env lba left m f buf s"
  shows "mem_read (mem t) buf (unat left * 512) =
      concat (map disk [unat (offset (lu s)) + unat lba..<unat (offset (lu s)) + unat lba + unat left]) \<and>
    (\<forall>x. unat left * 512 \<le> unat (x - buf) \<longrightarrow> mem t x = mem s x) \<and> lun (ums t) = lun (ums s)"
  using assms(1-6) unfolding t_def
proof (induction env lba left m f buf s rule: scsi_read_loop.induct)
  case (1 env lba left m f buf s)
  let ?a = "MIN32 (MIN32 left m) (num_sectors (lu s) - lba)"
  let ?o = "unat (offset (lu s)) + unat lba"
  obtain n s4 where ch: "scsi_read_chunk env lba ?a f buf s = (n, s4)" by fastforce
  note c = scsi_read_chunk_data [OF "1.prems"(1) ch]
  have left: "0 < unat left" "0 < unat m" using "1.prems"(2,3) by (simp_all add: unat_gt_0)
  have un: "unat (num_sectors (lu s) - lba) = unat (num_sectors (lu s)) - unat lba"
    using "1.prems"(4) by (simp add: unat_minus_no_wrap word_le_nat_alt)
  have ua: "unat ?a = min (unat left) (unat m)" using un "1.prems"(4) by (simp add: unat_MIN32)
  then have a0: "?a \<noteq> 0" using left by (auto simp: unat_gt_0 simp flip: unat_gt_0)
  have al: "unat ?a \<le> unat left" using ua by simp
  have off: "unat (offset (lu s) + lba) = ?o"
    using "1.prems"(4,5) by (intro unat_plus_no_wrap) (simp add: left)
  have m4: "mem s4 = mem_write (mem s) buf (concat (map disk [?o..<?o + unat ?a]))" using c(3) by (simp add: off)
  have len: "length (concat (map disk [?o..<?o + unat ?a])) = unat ?a * 512" by (rule length_sectors [OF "1.prems"(1)])
  have r4: "mem_read (mem s4) buf (unat ?a * 512) = concat (map disk [?o..<?o + unat ?a])"
    unfolding m4 using len al "1.prems"(6) by (subst mem_read_write) simp_all
  show ?case
  proof (cases "left - n = 0")
    case True
    then have eq: "scsi_read_loop env lba left m f buf s = s4" "?a = left"
      using ch a0 c(1) by (subst scsi_read_loop.simps, simp, simp)
    then show ?thesis unfolding eq(1) using r4 c(2) len by (auto simp: m4 mem_write_other)
  next
    case more: False
    define s5 where "s5 = transfer_start env (bulk_in (bc s4)) USB_XFER_START s4"
    define t where "t = scsi_read_loop env (lba + n) (left - n) m False (buf + push_bit 9 n) s5"
    have eq: "scsi_read_loop env lba left m f buf s = t"
      unfolding t_def s5_def using more ch a0 c(1) by (subst scsi_read_loop.simps) (simp add: Let_def)
    have s5: "lun (ums s5) = lun (ums s)" "mem s5 = mem s4" using c(2) by (simp_all add: s5_def)
    have n: "n = ?a" "n \<noteq> 0" "unat n \<le> unat left" using c(1) a0 al by simp_all
    have ul: "unat (left - n) = unat left - unat n" using n(3) by (simp add: unat_minus_no_wrap word_le_nat_alt)
    have uo: "unat (lba + n) = unat lba + unat n"
      using "1.prems"(4,5) n(3) unsigned_less [of "num_sectors (lu s)"] by (intro unat_plus_no_wrap) simp
    have b: "push_bit 9 n = of_nat (unat n * 512)"
      by (simp add: push_bit_eq_mult)
    note IH = "1.IH" [OF refl a0 ch [symmetric] n(2) more, folded s5_def, folded t_def, OF "1.prems"(1) more "1.prems"(3)]
    have "mem_read (mem t) (buf + push_bit 9 n) (unat (left - n) * 512) =
        concat (map disk [unat (offset (lu s)) + unat (lba + n)..<unat (offset (lu s)) + unat (lba + n) + unat (left - n)]) \<and>
      (\<forall>x. unat (left - n) * 512 \<le> unat (x - (buf + push_bit 9 n)) \<longrightarrow> mem t x = mem s4 x) \<and> lun (ums t) = lun (ums s)"
      using IH [unfolded s5] "1.prems"(4-6) n(3) by (simp add: uo ul)
    then have t: "mem_read (mem t) (buf + push_bit 9 n) (unat (left - n) * 512) =
        concat (map disk [?o + unat n..<?o + unat left])"
      "\<And>x. (unat left - unat n) * 512 \<le> unat (x - (buf + push_bit 9 n)) \<Longrightarrow> mem t x = mem s4 x"
      "lun (ums t) = lun (ums s)"
      using n(3) by (simp_all add: uo ul add.assoc)
    have keep: "mem t (buf + of_nat i) = mem s4 (buf + of_nat i)" if "i < unat n * 512" for i
    proof (rule t(2))
      have "unat (of_nat i - of_nat (unat n * 512) :: u32) = 2 ^ 32 - unat n * 512 + i"
        using that n(3) "1.prems"(6) by (intro unat_of_nat_minus) simp_all
      moreover have "buf + of_nat i - (buf + push_bit 9 n) = of_nat i - of_nat (unat n * 512)" unfolding b by simp
      ultimately show "(unat left - unat n) * 512 \<le> unat (buf + of_nat i - (buf + push_bit 9 n))"
        using "1.prems"(6) n(3) by (simp add: diff_mult_distrib)
    qed
    have "mem_read (mem t) buf (unat n * 512) = mem_read (mem s4) buf (unat n * 512)"
      by (rule mem_read_cong) (rule keep)
    moreover have "unat left * 512 = unat n * 512 + unat (left - n) * 512" using n(3) by (simp add: ul)
    ultimately have "mem_read (mem t) buf (unat left * 512) =
        mem_read (mem s4) buf (unat n * 512) @ mem_read (mem t) (buf + push_bit 9 n) (unat (left - n) * 512)"
      by (simp only: mem_read_append b)
    then have "mem_read (mem t) buf (unat left * 512) =
        concat (map disk [?o..<?o + unat n]) @ concat (map disk [?o + unat n..<?o + unat left])"
      by (simp only: r4 [folded n(1)] t(1))
    also have "\<dots> = concat (map disk [?o..<?o + unat left])"
      using upt_add_eq_append [of ?o "?o + unat n" "unat left - unat n"] n(3) by (simp add: add.assoc)
    finally have d: "mem_read (mem t) buf (unat left * 512) = concat (map disk [?o..<?o + unat left])" .
    have "mem t x = mem s x" if "unat left * 512 \<le> unat (x - buf)" for x
    proof -
      have bn: "unat (push_bit 9 n) = unat n * 512" unfolding b using n(3) "1.prems"(6) by (intro unat_of_nat_u32) simp
      then have "unat (x - buf - push_bit 9 n) = unat (x - buf) - unat n * 512"
        using that n(3) by (subst unat_minus_no_wrap) (simp_all add: word_le_nat_alt)
      then have "mem t x = mem s4 x" using that t(2) by (simp add: diff_diff_eq [symmetric] diff_mult_distrib)
      then show ?thesis using that len n by (simp add: m4 mem_write_other)
    qed
    then show ?thesis unfolding eq using d t(3) by simp
  qed
qed


text \<open>
  C1. On a storage that works, a READ(10) or READ(12) of a range inside the medium leaves exactly the
  sectors asked for, in order and relocated by the partition's first sector, in the transfer buffer,
  and raises no sense data.
\<close>

theorem scsi_read_delivers:
  fixes s :: "'w usys"
  assumes "serves env disk" "cmnd (ums s) ! 0 \<noteq> SC_READ_6" "cmnd (ums s) ! 1 AND NOT 0x18 = 0"
  defines "lba \<equiv> unat (get_array_be_to_le32 (cmnd (ums s)) 2)" and "n \<equiv> unat (data_size_from_cmnd (ums s)) div 512"
  assumes "n \<noteq> 0" "lba + n \<le> unat (num_sectors (lu s))"
    "unat (offset (lu s)) + unat (num_sectors (lu s)) \<le> 2 ^ 32 - 1"
  shows "\<exists>t. scsi_read env s = (UMS_RES_IO_ERROR, t) \<and> lun (ums t) = lun (ums s) \<and>
    mem_read (mem t) SDXC_BUF_ALIGNED (n * 512) =
      concat (map disk [unat (offset (lu s)) + lba..<unat (offset (lu s)) + lba + n])"
proof -
  let ?lba = "get_array_be_to_le32 (cmnd (ums s)) 2" and ?n = "drop_bit 9 (data_size_from_cmnd (ums s))"
  define m where "m = (if ?n \<ge> UMS_SCSI_TRANSFER_512K then UMS_DISK_MAX_IO_TRANSFER_64K else UMS_DISK_MAX_IO_TRANSFER_32K)"
  define t where "t = scsi_read_loop env ?lba ?n m True SDXC_BUF_ALIGNED s"
  have un: "unat ?n = n" by (simp add: n_def unat_drop_bit_9)
  have n0: "?n \<noteq> 0" using un assms(6) by auto
  have m0: "m \<noteq> 0"
    by (simp add: m_def UMS_DISK_MAX_IO_TRANSFER_64K_def UMS_DISK_MAX_IO_TRANSFER_32K_def USB_EP_BUFFER_MAX_SIZE_def)
  have lt: "\<not> ?lba \<ge> num_sectors (lu s)" using assms(6,7) by (simp add: lba_def word_le_nat_alt)
  have "scsi_read env s = (UMS_RES_IO_ERROR, t)"
    using assms(2,3) lt n0 by (simp add: scsi_read_def Let_def t_def m_def)
  moreover have "n * 512 \<le> 2 ^ 32 - 1"
    using unat_less_pow [of "data_size_from_cmnd (ums s)"] by (simp add: n_def del: unat_less_pow)
  then have "mem_read (mem t) SDXC_BUF_ALIGNED (n * 512) =
      concat (map disk [unat (offset (lu s)) + lba..<unat (offset (lu s)) + lba + n]) \<and> lun (ums t) = lun (ums s)"
    using scsi_read_loop_data [OF assms(1) n0 m0, of ?lba s True SDXC_BUF_ALIGNED, folded t_def] assms(7,8)
    unfolding un lba_def by blast
  ultimately show ?thesis by blast
qed

end
