(* ===== verification/Ums_Loop.thy ===== *)
theory Ums_Loop
  imports Ums_Read
begin

text \<open>
  The mass storage gadget from the command wrapper to the status wrapper, and its main loop: which
  wrappers are accepted, what the status wrapper answers, the invariant of every reachable state and
  how the loop ends.
\<close>

subsection \<open>Frames of the rest of a command\<close>

lemma raise_exception_frame [simp]:
  "tag (ums (raise_exception x s)) = tag (ums s)" "residue (ums (raise_exception x s)) = residue (ums s)"
  "phase_error (ums (raise_exception x s)) = phase_error (ums s)" "lun (ums (raise_exception x s)) = lun (ums s)"
  "data_size (ums (raise_exception x s)) = data_size (ums s)" "data_dir (ums (raise_exception x s)) = data_dir (ums s)"
  "cmnd (ums (raise_exception x s)) = cmnd (ums s)" "cmnd_size (ums (raise_exception x s)) = cmnd_size (ums s)"
  "can_stall (ums (raise_exception x s)) = can_stall (ums s)" "bulk_ctxt (ums (raise_exception x s)) = bulk_ctxt (ums s)"
  "lun_idx (ums (raise_exception x s)) = lun_idx (ums s)" "xusb (ums (raise_exception x s)) = xusb (ums s)"
  "mem (raise_exception x s) = mem s"
  by (simp_all add: raise_exception_def)

lemma handle_ep0_ctrl_cases:
  "\<exists>w. handle_ep0_ctrl env s = s\<lparr>world := w\<rparr> \<or>
       handle_ep0_ctrl env s = raise_exception UMS_STATE_PROTOCOL_RESET (s\<lparr>world := w\<rparr>)"
  by (auto simp: handle_ep0_ctrl_def Let_def split_beta)

lemma handle_ep0_ctrl_frame [simp]:
  "tag (ums (handle_ep0_ctrl env s)) = tag (ums s)" "residue (ums (handle_ep0_ctrl env s)) = residue (ums s)"
  "phase_error (ums (handle_ep0_ctrl env s)) = phase_error (ums s)" "lun (ums (handle_ep0_ctrl env s)) = lun (ums s)"
  "data_size (ums (handle_ep0_ctrl env s)) = data_size (ums s)" "data_dir (ums (handle_ep0_ctrl env s)) = data_dir (ums s)"
  "cmnd (ums (handle_ep0_ctrl env s)) = cmnd (ums s)" "cmnd_size (ums (handle_ep0_ctrl env s)) = cmnd_size (ums s)"
  "can_stall (ums (handle_ep0_ctrl env s)) = can_stall (ums s)"
  "bulk_ctxt (ums (handle_ep0_ctrl env s)) = bulk_ctxt (ums s)"
  "lun_idx (ums (handle_ep0_ctrl env s)) = lun_idx (ums s)" "xusb (ums (handle_ep0_ctrl env s)) = xusb (ums s)"
  "mem (handle_ep0_ctrl env s) = mem s"
  using handle_ep0_ctrl_cases [of env s] by auto

text \<open>What finishing a reply and the status wrapper keep.\<close>

definition reply_frame :: "'w usys \<Rightarrow> 'w usys \<Rightarrow> bool" where
  "reply_frame s t \<longleftrightarrow>
     tag (ums t) = tag (ums s) \<and> residue (ums t) = residue (ums s) \<and> phase_error (ums t) = phase_error (ums s) \<and>
     lun (ums t) = lun (ums s) \<and> data_size (ums t) = data_size (ums s) \<and> cmnd (ums t) = cmnd (ums s) \<and>
     cmnd_size (ums t) = cmnd_size (ums s) \<and> can_stall (ums t) = can_stall (ums s) \<and> lun_idx (ums t) = lun_idx (ums s) \<and>
     xusb (ums t) = xusb (ums s) \<and> data_dir (ums t) = data_dir (ums s) \<and>
     bulk_in (bc t) = bulk_in (bc s) \<and> bulk_out (bc t) = bulk_out (bc s) \<and> bulk_out_buf (bc t) = bulk_out_buf (bc s)"

lemma reply_frame_refl [simp]: "reply_frame s s"
  by (simp add: reply_frame_def)

lemma reply_frame_trans [trans]: "reply_frame s t \<Longrightarrow> reply_frame t u \<Longrightarrow> reply_frame s u"
  by (simp add: reply_frame_def)

lemma pad_with_zeros_loop_frame:
  "reply_frame s (pad_with_zeros_loop env k s) \<and> usb_amount_left (ums (pad_with_zeros_loop env k s)) = 0"
proof (induction env k s rule: pad_with_zeros_loop.induct)
  case (1 env k s)
  show ?case
  proof (cases "usb_amount_left (ums s) > 0")
    case False
    then show ?thesis by (subst (1 2) pad_with_zeros_loop.simps) (simp add: word_gt_0)
  next
    case True
    define n where "n = MIN32 (usb_amount_left (ums s)) USB_EP_BUFFER_MAX_SIZE"
    define s1 where "s1 = s\<lparr>mem := mem_write (mem s) (bulk_in_buf (bc s) + k) (replicate (unat (n - k)) 0)\<rparr>"
    define s2 where "s2 = transfer_start env (bulk_in (bc s1)) USB_XFER_SYNCED_DATA (upd_bc (\<lambda>b. b\<lparr>bulk_in_length := n\<rparr>) s1)"
    define s3 where "s3 = upd_ums (\<lambda>u. u\<lparr>usb_amount_left := usb_amount_left u - n\<rparr>) s2"
    have "pad_with_zeros_loop env k s = pad_with_zeros_loop env 0 s3"
      using True unfolding s3_def s2_def s1_def n_def Let_def
      by (subst pad_with_zeros_loop.simps) (simp only: Let_def if_True)
    moreover have "reply_frame s s3" by (simp add: s3_def s2_def s1_def reply_frame_def)
    moreover note "1.IH" [OF True n_def s1_def s2_def, folded s3_def]
    ultimately show ?thesis using reply_frame_trans by auto
  qed
qed

lemma finish_reply_frame:
  assumes "finish_reply env s = (rc, t)"
  shows "reply_frame s t"
proof (cases "data_dir (ums s)")
  case DATA_DIR_TO_HOST
  define ts where "ts = transfer_start env (bulk_in (bc s)) USB_XFER_SYNCED_DATA s"
  define pz where "pz = snd (pad_with_zeros env s)"
  have rb: "reply_frame u (reset_buffer (bulk_in (bc u)) u)" for u :: "'a usys" by (simp add: reset_buffer_def reply_frame_def)
  have "reply_frame s ts" by (simp add: ts_def reply_frame_def)
  moreover have "reply_frame s pz"
  proof -
    define u where "u = upd_ums (\<lambda>u. u\<lparr>usb_amount_left := bulk_in_length (bc s) + residue u\<rparr>)
      (upd_bc (\<lambda>b. b\<lparr>bulk_in_buf_state := BUF_STATE_EMPTY\<rparr>) s)"
    have "reply_frame s u" by (simp add: u_def reply_frame_def)
    moreover have "pz = pad_with_zeros_loop env (bulk_in_length (bc s)) u"
      by (simp add: pz_def u_def pad_with_zeros_def Let_def)
    ultimately show ?thesis using pad_with_zeros_loop_frame reply_frame_trans by blast
  qed
  moreover define st where "st = set_text ''#FFDD00 Error:# Residue. Stalled EP IN!''
     (snd (set_ep_stall env (bulk_in (bc ts)) ts))"
  moreover have "reply_frame s st"
    using reply_frame_trans [OF calculation(1)] by (simp add: st_def set_ep_stall_def reply_frame_def)
  moreover define v where "v = (if data_size (ums s) = 0 then s else if residue (ums s) = 0 then ts
     else if can_stall (ums s) then st else pz)"
  ultimately have "reply_frame s v" by (simp add: v_def)
  moreover have "t = reset_buffer (bulk_in (bc v)) v"
    using assms DATA_DIR_TO_HOST
    by (auto simp: finish_reply_def Let_def v_def ts_def pz_def st_def set_ep_stall_def split_beta split: if_splits)
  ultimately show ?thesis using rb reply_frame_trans by blast
qed (use assms in \<open>auto simp: finish_reply_def throw_away_data_def set_ep_stall_def reply_frame_def Let_def
      split: if_splits\<close>)


text \<open>After a transfer to the host the bulk-in buffer points to the endpoint's own buffer again.\<close>

lemma finish_reply_buf:
  assumes "finish_reply env s = (rc, t)"
  shows "bulk_in_buf (bc t) =
    (if data_dir (ums s) = DATA_DIR_TO_HOST then USB_EP_BULK_IN_BUF_ADDR else bulk_in_buf (bc s))"
proof (cases "data_dir (ums s)")
  case DATA_DIR_TO_HOST
  then obtain v where "t = reset_buffer (bulk_in (bc v)) v"
    using assms by (auto simp: finish_reply_def Let_def split_beta)
  then show ?thesis using DATA_DIR_TO_HOST by (simp add: reset_buffer_def)
qed (use assms in \<open>auto simp: finish_reply_def throw_away_data_def set_ep_stall_def Let_def split: if_splits\<close>)

subsection \<open>The command wrapper\<close>

definition cbw_valid :: "bulk_recv_pkt_t \<Rightarrow> bool" where
  "cbw_valid cbw \<longleftrightarrow> cbw_Signature cbw = USB_BULK_CB_SIG \<and> cbw_Lun cbw = 0 \<and>
     (cbw_Flags cbw = 0 \<or> cbw_Flags cbw = USB_BULK_IN_FLAG) \<and> 1 \<le> cbw_Length cbw \<and> cbw_Length cbw \<le> 16"

definition received_packet :: "'w usys \<Rightarrow> bulk_recv_pkt_t" where
  "received_packet s = decode_cbw (mem_read (mem s) (bulk_out_buf (bc s)) 31)"

lemma flags_only_in: "x AND NOT USB_BULK_IN_FLAG = 0 \<longleftrightarrow> x = 0 \<or> x = USB_BULK_IN_FLAG"
proof
  assume a: "x AND NOT USB_BULK_IN_FLAG = 0"
  have "USB_BULK_IN_FLAG = 2 ^ 7" by (simp add: USB_BULK_IN_FLAG_def)
  then have flag: "bit USB_BULK_IN_FLAG n \<longleftrightarrow> n = 7" for n
    by (elim ssubst) (auto simp only: bit_exp_iff possible_bit_def, simp)
  have b: "n = 7" if bx: "bit x n" for n
  proof -
    have "n < 8" using bx bit_imp_le_length by force
    moreover have "\<not> bit (x AND NOT USB_BULK_IN_FLAG) n" using a by simp
    ultimately show ?thesis using bx by (simp add: bit_and_iff bit_not_iff flag)
  qed
  have "x = USB_BULK_IN_FLAG" if "bit x 7" by (rule bit_eqI) (use that b in \<open>unfold flag, blast\<close>)
  moreover have "x = 0" if "\<not> bit x 7" by (rule bit_eqI) (use that b in \<open>simp, blast\<close>)
  ultimately show "x = 0 \<or> x = USB_BULK_IN_FLAG" by blast
qed (auto simp: USB_BULK_IN_FLAG_def)

lemma cbw_valid_code:
  "cbw_valid cbw \<longleftrightarrow> cbw_Signature cbw = USB_BULK_CB_SIG \<and>
    \<not> (cbw_Lun cbw \<ge> UMS_MAX_LUN \<or> cbw_Flags cbw AND NOT USB_BULK_IN_FLAG \<noteq> 0 \<or>
       cbw_Length cbw = 0 \<or> cbw_Length cbw > SCSI_MAX_CMD_SZ)"
  by (auto simp: cbw_valid_def flags_only_in UMS_MAX_LUN_def SCSI_MAX_CMD_SZ_def not_le not_less word_le_nat_alt
    word_less_nat_alt Suc_le_eq unat_gt_0)

definition tick :: "'w usys \<Rightarrow> 'w usys \<Rightarrow> bool" where
  "tick s t \<longleftrightarrow> (\<exists>x n. t = s\<lparr>label_text := x, ums := (ums s)\<lparr>timeouts := n\<rparr>\<rparr>)"

lemma tickI: "t = s\<lparr>label_text := x, ums := (ums s)\<lparr>timeouts := n\<rparr>\<rparr> \<Longrightarrow> tick s t"
  unfolding tick_def by blast

lemma tick_intros [intro]:
  "tick s s" "tick s (set_text x s)" "tick s (upd_ums (\<lambda>u. u\<lparr>timeouts := timeouts u + n\<rparr>) s)"
  "tick s (upd_ums (\<lambda>u. u\<lparr>timeouts := timeouts u + n\<rparr>) (set_text x s))"
  by (rule tickI [where x = "label_text s" and n = "timeouts (ums s)"], simp)
    (rule tickI [where x = x and n = "timeouts (ums s)"], simp,
     rule tickI [where x = "label_text s" and n = "timeouts (ums s) + n"], simp,
     rule tickI [where x = x and n = "timeouts (ums s) + n"], simp)

lemma tick_trans: "tick s t \<Longrightarrow> tick t u \<Longrightarrow> tick s u"
  unfolding tick_def by (elim exE) (simp, blast)

lemma cbw_timeouts_cases:
  "\<exists>t. tick s t \<and> (cbw_timeouts env s = t \<or> cbw_timeouts env s = raise_exception UMS_STATE_EXIT t)"
proof -
  define status where "status = bulk_out_status (bc s)"
  define s1 where "s1 = (if status = USB2_ERROR_XFER_EP_DISABLED \<or>
                   (status = USB_ERROR_TIMEOUT \<and> removable (lu s) \<and> \<not> prevent_medium_removal (lu s))
                then if status = USB_ERROR_TIMEOUT
                     then if usb_device_get_port_in_sleep env (world s)
                          then upd_ums (\<lambda>u. u\<lparr>timeouts := timeouts u + 14\<rparr>)
                                 (set_text ''#C7EA46 Status:# EP in sleep'' s)
                          else if \<not> xusb (ums s) then upd_ums (\<lambda>u. u\<lparr>timeouts := timeouts u + 4\<rparr>) s
                          else s
                     else upd_ums (\<lambda>u. u\<lparr>timeouts := timeouts u + 4\<rparr>) s
                else s)"
  define u where "u = upd_ums (\<lambda>u. u\<lparr>timeouts := timeouts u + 1\<rparr>) (set_text ''#C7EA46 Status:# Medium unmounted'' s1)"
  define s2 where "s2 = (if unmounted (lu s1)
     then if status = 0 then upd_ums (\<lambda>u. u\<lparr>timeouts := timeouts u + 3\<rparr>) u else u else s1)"
  have "tick s s1" unfolding s1_def by (simp only: tick_intros split: if_split) simp
  moreover have "tick s1 u" unfolding u_def by (rule tick_intros)
  moreover have "tick u (upd_ums (\<lambda>u. u\<lparr>timeouts := timeouts u + 3\<rparr>) u)" by (rule tick_intros)
  ultimately have "tick s s2" unfolding s2_def using tick_trans by (simp only: split: if_split) blast
  moreover have "cbw_timeouts env s = (if timeouts (ums s2) > 20 then raise_exception UMS_STATE_EXIT s2 else s2)"
    unfolding cbw_timeouts_def Let_def status_def [symmetric] s1_def [symmetric] u_def [symmetric]
      s2_def [symmetric] ..
  ultimately show ?thesis by auto
qed

lemma tick_frame:
  assumes "tick s t"
  shows "mem t = mem s" "bulk_ctxt (ums t) = bulk_ctxt (ums s)" "lun (ums t) = lun (ums s)"
    "can_stall (ums t) = can_stall (ums s)" "cmnd (ums t) = cmnd (ums s)" "cmnd_size (ums t) = cmnd_size (ums s)"
    "lun_idx (ums t) = lun_idx (ums s)" "xusb (ums t) = xusb (ums s)" "data_dir (ums t) = data_dir (ums s)"
    "state (ums t) = state (ums s)"
  using assms by (auto simp: tick_def)

lemma cbw_timeouts_frame [simp]:
  "mem (cbw_timeouts env s) = mem s" "bulk_ctxt (ums (cbw_timeouts env s)) = bulk_ctxt (ums s)"
  "lun (ums (cbw_timeouts env s)) = lun (ums s)" "can_stall (ums (cbw_timeouts env s)) = can_stall (ums s)"
  "cmnd (ums (cbw_timeouts env s)) = cmnd (ums s)" "cmnd_size (ums (cbw_timeouts env s)) = cmnd_size (ums s)"
  "lun_idx (ums (cbw_timeouts env s)) = lun_idx (ums s)" "xusb (ums (cbw_timeouts env s)) = xusb (ums s)"
  using cbw_timeouts_cases [of s env] by (auto simp: tick_frame)

definition cbw_acceptable :: "'w usys \<Rightarrow> bool" where
  "cbw_acceptable s \<longleftrightarrow> bulk_out_status (bc s) = 0 \<and> \<not> bulk_out_ignore (bc s) \<and>
     bulk_out_length_actual (bc s) = USB_BULK_CB_WRAP_LEN \<and> cbw_valid (received_packet s)"

lemma received_cbw_cases:
  assumes "received_cbw env s = (rc, t)"
  obtains (rejected) "rc = UMS_RES_INVALID_ARG" "\<not> cbw_acceptable s"
      "bulk_in_buf (bc t) = bulk_in_buf (bc s)" "bulk_in (bc t) = bulk_in (bc s)" "bulk_out (bc t) = bulk_out (bc s)"
      "bulk_out_buf (bc t) = bulk_out_buf (bc s)" "lun (ums t) = lun (ums s)" "can_stall (ums t) = can_stall (ums s)"
      "cmnd (ums t) = cmnd (ums s)" "cmnd_size (ums t) = cmnd_size (ums s)" "lun_idx (ums t) = lun_idx (ums s)"
      "xusb (ums t) = xusb (ums s)"
    | (accepted) s1 where "rc = UMS_RES_OK" "cbw_acceptable s" "t = accept_cbw (received_packet s) s1"
      "s1 = upd_ums (\<lambda>u. u\<lparr>cbw_req_queued := False\<rparr>) (if unmounted (lu s) then cbw_timeouts env s else s)"
proof -
  define s1 where "s1 = (if bulk_out_status (bc s) \<noteq> 0 \<or> unmounted (lu s) then cbw_timeouts env s else s)"
  define s2 where "s2 = upd_ums (\<lambda>u. u\<lparr>cbw_req_queued := False\<rparr>) s1"
  have s1: "mem s1 = mem s" "bulk_ctxt (ums s1) = bulk_ctxt (ums s)" "lun (ums s1) = lun (ums s)"
    "can_stall (ums s1) = can_stall (ums s)" "cmnd (ums s1) = cmnd (ums s)" "cmnd_size (ums s1) = cmnd_size (ums s)"
    "lun_idx (ums s1) = lun_idx (ums s)" "xusb (ums s1) = xusb (ums s)"
    by (simp_all add: s1_def)
  then have s2: "mem s2 = mem s" "bulk_ctxt (ums s2) = bulk_ctxt (ums s)" "lun (ums s2) = lun (ums s)"
    "can_stall (ums s2) = can_stall (ums s)" "cmnd (ums s2) = cmnd (ums s)" "cmnd_size (ums s2) = cmnd_size (ums s)"
    "lun_idx (ums s2) = lun_idx (ums s)" "xusb (ums s2) = xusb (ums s)"
    by (simp_all add: s2_def)
  let ?p = "received_packet s"
  have rp: "received_packet s2 = ?p" by (simp add: received_packet_def s2)
  define bad2 where "bad2 \<longleftrightarrow> cbw_Lun ?p \<ge> UMS_MAX_LUN \<or> cbw_Flags ?p AND NOT USB_BULK_IN_FLAG \<noteq> 0 \<or>
     cbw_Length ?p = 0 \<or> cbw_Length ?p > SCSI_MAX_CMD_SZ"
  define sig where "sig \<longleftrightarrow> bulk_out_length_actual (bc s) = USB_BULK_CB_WRAP_LEN \<and> cbw_Signature ?p = USB_BULK_CB_SIG"
  define st where "st = (if can_stall (ums s2)
     then set_text ''#FFDD00 Error:# CBW unknown - Stalled both EP!''
            (snd (set_ep_stall env (bulk_in (bc (snd (set_ep_stall env (bulk_out (bc s2)) s2))))
               (snd (set_ep_stall env (bulk_out (bc s2)) s2))))
     else s2)"
  have eq: "received_cbw env s =
    (if bulk_out_status (bc s) \<noteq> 0 \<or> bulk_out_ignore (bc s) then (UMS_RES_INVALID_ARG, s1)
     else if \<not> sig then (UMS_RES_INVALID_ARG, upd_bc (\<lambda>b. b\<lparr>bulk_out_ignore := True\<rparr>) s2)
     else if bad2 then (UMS_RES_INVALID_ARG, st)
     else (UMS_RES_OK, accept_cbw ?p s2))"
    unfolding received_cbw_def Let_def s1_def [symmetric] s2_def [symmetric] received_packet_def [symmetric] rp
      wedge_bulk_in_endpoint_def split_beta bad2_def [symmetric] st_def [symmetric]
    by (simp only: s2 prod.case snd_conv sig_def de_Morgan_conj)
  have acc: "cbw_acceptable s \<longleftrightarrow> \<not> (bulk_out_status (bc s) \<noteq> 0 \<or> bulk_out_ignore (bc s)) \<and> sig \<and> \<not> bad2"
    by (auto simp: cbw_acceptable_def cbw_valid_code sig_def bad2_def)
  show ?thesis
  proof (cases "cbw_acceptable s")
    case True
    then have "rc = UMS_RES_OK" "t = accept_cbw ?p s2" using assms acc by (auto simp: eq)
    moreover have "s1 = (if unmounted (lu s) then cbw_timeouts env s else s)"
      using True by (simp add: s1_def cbw_acceptable_def)
    ultimately show ?thesis using accepted True by (simp only: s2_def)
  next
    case False
    then have t: "rc = UMS_RES_INVALID_ARG" "t = s1 \<or> t = upd_bc (\<lambda>b. b\<lparr>bulk_out_ignore := True\<rparr>) s2 \<or> t = st"
      using assms acc by (auto simp: eq simp del: upd_bc_def split: if_splits)
    have st: "bulk_ctxt (ums st) = bulk_ctxt (ums s)" "lun (ums st) = lun (ums s)" "can_stall (ums st) = can_stall (ums s)"
      "cmnd (ums st) = cmnd (ums s)" "cmnd_size (ums st) = cmnd_size (ums s)" "lun_idx (ums st) = lun_idx (ums s)"
      "xusb (ums st) = xusb (ums s)"
      by (simp_all add: st_def s2 set_ep_stall_def)
    from t(2) show ?thesis by (elim disjE) (rule rejected; simp add: t(1) False s1 s2 st)+
  qed
qed

text \<open>
  A command wrapper is accepted exactly when the transfer succeeded, it has 31 bytes, the
  signature is right, it is for the only logical unit, no reserved flag is set and the command is 1
  to 16 bytes long; the gadget then holds the wrapper's command bytes, transfer length, direction and tag.
\<close>

theorem received_cbw_accepts:
  assumes "received_cbw env s = (rc, t)" "length (cmnd (ums s)) = 16"
  defines "p \<equiv> received_packet s"
  shows "(rc = UMS_RES_OK \<longleftrightarrow> cbw_acceptable s) \<and>
    (rc = UMS_RES_OK \<longrightarrow> length (cmnd (ums t)) = 16 \<and> unat (cmnd_size (ums t)) = unat (cbw_Length p) \<and>
       take (unat (cbw_Length p)) (cmnd (ums t)) = take (unat (cbw_Length p)) (cbw_CDB p) \<and>
       tag (ums t) = cbw_Tag p \<and> data_size (ums t) = cbw_DataTransferLength p \<and>
       data_dir (ums t) = (if cbw_DataTransferLength p = 0 then DATA_DIR_NONE
         else if cbw_Flags p = USB_BULK_IN_FLAG then DATA_DIR_TO_HOST else DATA_DIR_FROM_HOST))"
  using assms(1)
proof (cases rule: received_cbw_cases)
  case (accepted s1)
  have len: "length (cbw_CDB p) = 16" by (simp add: p_def received_packet_def decode_cbw_def)
  have v: "cbw_valid p" using accepted(2) by (simp add: cbw_acceptable_def p_def)
  then have n: "unat (cbw_Length p) \<le> 16" by (simp add: cbw_valid_def word_le_nat_alt)
  have fl: "cbw_Flags p AND USB_BULK_IN_FLAG \<noteq> 0 \<longleftrightarrow> cbw_Flags p = USB_BULK_IN_FLAG"
    using v by (auto simp: cbw_valid_def USB_BULK_IN_FLAG_def)
  have c: "cmnd (ums s1) = cmnd (ums s)" by (simp add: accepted(4))
  show ?thesis
    using accepted(1-3) len n assms(2)
    by (simp add: c fl accept_cbw_def Let_def p_def [symmetric] unsigned_ucast_eq take_bit_nat_eq_self hk_defs)
qed (simp add: hk_defs)

subsection \<open>The status wrapper\<close>

lemma send_status_bytes:
  "mem_read (mem (send_status env s)) (bulk_in_buf (bc s)) 13 =
     encode_csw (tag (ums s)) (residue (ums s)) (csw_status (ums s))"
proof -
  define s1 where "s1 = (if phase_error (ums s) then set_text ''#FFDD00 Error:# Phase-error!'' s else s)"
  define s3 where "s3 = upd_bc (\<lambda>b. b\<lparr>bulk_in_length := USB_BULK_CS_WRAP_LEN\<rparr>)
    (s1\<lparr>mem := mem_write (mem s1) (bulk_in_buf (bc s1)) (encode_csw (tag (ums s)) (residue (ums s)) (csw_status (ums s)))\<rparr>)"
  have "send_status env s = transfer_start env (bulk_in (bc s3)) USB_XFER_SYNCED_CMD s3"
    by (simp add: send_status_def Let_def s3_def s1_def)
  moreover have "mem s3 = mem_write (mem s) (bulk_in_buf (bc s)) (encode_csw (tag (ums s)) (residue (ums s)) (csw_status (ums s)))"
    by (simp add: s3_def s1_def)
  moreover have "length (encode_csw (tag (ums s)) (residue (ums s)) (csw_status (ums s))) = 13"
    by (simp add: encode_csw_def le32.length_put)
  ultimately show ?thesis by (simp add: mem_read_write)
qed

lemma encode_csw_decode:
  "get_le32 (encode_csw tg res st) 0 = USB_BULK_CS_SIG" "get_le32 (encode_csw tg res st) 4 = tg"
  "get_le32 (encode_csw tg res st) 8 = res" "encode_csw tg res st ! 12 = st"
proof -
  show "get_le32 (encode_csw tg res st) 0 = USB_BULK_CS_SIG"
    using le32.get_put_head by (simp add: encode_csw_def)
  show "get_le32 (encode_csw tg res st) 4 = tg"
    using le32.get_put [of "put_le32 USB_BULK_CS_SIG" tg "put_le32 res @ [st]"]
    by (simp add: encode_csw_def le32.length_put)
  show "get_le32 (encode_csw tg res st) 8 = res"
    using le32.get_put [of "put_le32 USB_BULK_CS_SIG @ put_le32 tg" res "[st]"]
    by (simp add: encode_csw_def le32.length_put)
  show "encode_csw tg res st ! 12 = st"
    by (simp add: encode_csw_def nth_append le32.length_put)
qed

text \<open>
  C18. From the command wrapper to the status wrapper: the 13 bytes sent to the host carry the status
  signature, the tag of the command wrapper that was received, a residue of at most the transfer length
  that wrapper announced, and the status of the command.
\<close>

theorem status_answers_command:
  assumes "received_cbw env s = (UMS_RES_OK, s1)" "parse_scsi_cmd env (handle_ep0_ctrl env s1) = Some (rc, s2)"
    and "finish_reply env (handle_ep0_ctrl env s2) = (rc', s3)"
  defines "csw \<equiv> mem_read (mem (send_status env s3)) (bulk_in_buf (bc s3)) 13"
  shows "get_le32 csw 0 = USB_BULK_CS_SIG \<and> get_le32 csw 4 = cbw_Tag (received_packet s) \<and>
    get_le32 csw 8 \<le> cbw_DataTransferLength (received_packet s) \<and> csw ! 12 = csw_status (ums s2)"
proof -
  have csw: "csw = encode_csw (tag (ums s3)) (residue (ums s3)) (csw_status (ums s3))"
    unfolding csw_def by (rule send_status_bytes)
  have s3: "tag (ums s3) = tag (ums s2)" "residue (ums s3) = residue (ums s2)" "csw_status (ums s3) = csw_status (ums s2)"
    using finish_reply_frame [OF assms(3)] by (simp_all add: reply_frame_def csw_status_def)
  have s2: "cmd_frame (handle_ep0_ctrl env s1) s2" "residue (ums s2) \<le> data_size (ums s1)"
    using parse_scsi_cmd_ok [OF assms(2)] by simp_all
  have s1: "tag (ums s1) = cbw_Tag (received_packet s)" "data_size (ums s1) = cbw_DataTransferLength (received_packet s)"
    using assms(1) by (cases rule: received_cbw_cases; simp add: accept_cbw_def Let_def hk_defs)+
  show ?thesis unfolding csw using s1 s2 s3 by (simp add: encode_csw_decode cmd_frame_def)
qed

subsection \<open>The invariant of the main loop\<close>

text \<open>
  Between two iterations: the endpoints and the buffer commands arrive in are the ones set up at
  the start, the command buffer has its 16 bytes, and the logical unit is still configured as
  \<open>cfg\<close> says. (The buffer replies leave from is not part of it: a bus reset in the middle of a
  READ leaves it pointing into the transfer buffer until the next transfer to the host.)
\<close>

definition ums_wf :: "(sdmmc_storage_t \<times> u32 \<times> u32 \<times> bool \<times> u32 \<times> u32 \<times> bool) \<Rightarrow> 'w usys \<Rightarrow> bool" where
  "ums_wf cfg s \<longleftrightarrow>
     bulk_in (bc s) = USB_EP_BULK_IN \<and>
     bulk_out (bc s) = USB_EP_BULK_OUT \<and> bulk_out_buf (bc s) = USB_EP_BULK_OUT_BUF_ADDR \<and>
     length (cmnd (ums s)) = 16 \<and> cmnd_size (ums s) \<le> 16 \<and> lun_idx (ums s) = 0 \<and> \<not> can_stall (ums s) \<and>
     lun_config (lu s) = cfg"

lemma ums_wf_cong:
  "bulk_ctxt (ums t) = bulk_ctxt (ums s) \<Longrightarrow> lun (ums t) = lun (ums s) \<Longrightarrow> cmnd (ums t) = cmnd (ums s) \<Longrightarrow>
   cmnd_size (ums t) = cmnd_size (ums s) \<Longrightarrow> lun_idx (ums t) = lun_idx (ums s) \<Longrightarrow> can_stall (ums t) = can_stall (ums s) \<Longrightarrow>
   ums_wf cfg t \<longleftrightarrow> ums_wf cfg s"
  by (simp add: ums_wf_def)

lemma ums_wf_ep0 [simp]: "ums_wf cfg (handle_ep0_ctrl env s) \<longleftrightarrow> ums_wf cfg s"
  by (rule ums_wf_cong) simp_all









definition exception_reset :: "'w ums_env \<Rightarrow> 'w usys \<Rightarrow> 'w usys" where
  "exception_reset env s =
     (let s2 = upd_bc (\<lambda>b. b\<lparr>bulk_in_buf_state := BUF_STATE_EMPTY, bulk_out_buf_state := BUF_STATE_EMPTY\<rparr>)
                 (flush_endpoint env (bulk_out (bc s)) (flush_endpoint env (bulk_in (bc s)) s))
      in upd_ums (\<lambda>u. u\<lparr>state := UMS_STATE_NORMAL\<rparr>)
           (if state (ums s2) \<noteq> UMS_STATE_ABORT_BULK_OUT
            then upd_lun (\<lambda>l. l\<lparr>prevent_medium_removal := False, sense_data := SS_NO_SENSE,
                   unit_attention_data := SS_NO_SENSE, sense_data_info := 0, info_valid := 0\<rparr>) s2
            else s2))"

lemma exception_reset_state [simp]: "state (ums (exception_reset env s)) = UMS_STATE_NORMAL"
  by (simp add: exception_reset_def Let_def)

lemma handle_exception_eq:
  "handle_exception env s =
     (let s4 = exception_reset env s
      in case state (ums s) of
           UMS_STATE_NORMAL \<Rightarrow> s4
         | UMS_STATE_ABORT_BULK_OUT \<Rightarrow> send_status env s4
         | UMS_STATE_PROTOCOL_RESET \<Rightarrow>
             upd_lun (\<lambda>l. l\<lparr>unit_attention_data := SS_RESET_OCCURRED\<rparr>)
               (if bulk_out_ignore (bc s4)
                then snd (clear_ep_stall env (bulk_in (bc s4)) (upd_bc (\<lambda>b. b\<lparr>bulk_out_ignore := False\<rparr>) s4))
                else s4)
         | UMS_STATE_EXIT \<Rightarrow> upd_ums (\<lambda>u. u\<lparr>state := UMS_STATE_TERMINATED\<rparr>) s4
         | UMS_STATE_TERMINATED \<Rightarrow> s4)"
proof -
  define s2 where "s2 = upd_bc (\<lambda>b. b\<lparr>bulk_in_buf_state := BUF_STATE_EMPTY, bulk_out_buf_state := BUF_STATE_EMPTY\<rparr>)
                 (flush_endpoint env (bulk_out (bc s)) (flush_endpoint env (bulk_in (bc s)) s))"
  have st: "state (ums s2) = state (ums s)" by (simp add: s2_def)
  show ?thesis
    unfolding handle_exception_def exception_reset_def Let_def s2_def [symmetric] st ..
qed


lemma send_status_state [simp]: "state (ums (send_status env s)) = state (ums s)"
  by (simp add: send_status_def Let_def)

lemma system_maintainance_ums [simp]: "ums (system_maintainance env s) = ums s"
  by (simp add: system_maintainance_def Let_def split_beta)




text \<open>
  Handling an exception: an exit request terminates the gadget, every other exception is handled
  completely and the gadget is back in its normal state.
\<close>

theorem handle_exception_next_state:
  "state (ums (handle_exception env s)) =
     (if state (ums s) = UMS_STATE_EXIT then UMS_STATE_TERMINATED else UMS_STATE_NORMAL)"
proof -
  define s4 where "s4 = exception_reset env s"
  have "state (ums s4) = UMS_STATE_NORMAL" by (simp add: s4_def)
  then show ?thesis unfolding handle_exception_eq Let_def s4_def [symmetric]
    by (cases "state (ums s)") (simp_all add: clear_ep_stall_def)
qed




end
