(* ===== verification/Ums_Demo.thy ===== *)
theory Ums_Demo
  imports Ums_Loop
begin

text \<open>
  Concrete runs of the mass storage gadget: an environment whose calls all succeed, a disk of 100
  sectors, and the properties of the gadget applied to commands on it.
\<close>

definition demo_env :: "unit ums_env" where
  "demo_env =
     \<lparr>usbd_flush_endpoint = None, usbd_set_ep_stall = (\<lambda>w _ _. w), usbd_handle_ep0_ctrl_setup = (\<lambda>w. (w, 0)),
      usb_device_ep1_out_read = (\<lambda>w _ len _. (w, 0, Some len, [])),
      usb_device_ep1_out_read_big = (\<lambda>w _ len. (w, 0, Some len, [])),
      usb_device_ep1_out_reading_finish = (\<lambda>w _. (w, 0, None, [])),
      usb_device_ep1_in_write = (\<lambda>w _ _ len _. (w, 0, Some len)),
      usb_device_ep1_in_writing_finish = (\<lambda>w _ _. (w, 0, None)),
      usb_device_get_port_in_sleep = (\<lambda>_. False),
      sdmmc_storage_read = (\<lambda>w _ _. (w, False, [])),
      sdmmc_storage_write = (\<lambda>w _ _ _. (w, False)),
      get_tmr_ms = (\<lambda>w. (w, 0)), system_maintenance = (\<lambda>w _. w), minerva_periodic_training = (\<lambda>w. w),
      btn_read_vol = (\<lambda>w. (w, 0)), is_t210 = True, usb_device_init = (\<lambda>w. (w, 0)),
      usb_device_enumerate = (\<lambda>w. (w, 0)), usb_device_class_send_max_lun = (\<lambda>w _. (w, 0)),
      usbd_end = (\<lambda>w _ _. w), sd_end = (\<lambda>w. w), sd_mount = (\<lambda>w. (w, 0)), sd_unmount = (\<lambda>w. w),
      sd_storage = (\<lambda>_. storage_zero), emmc_initialize = (\<lambda>w _. (w, 0)), emmc_set_partition = (\<lambda>w _. w),
      emmc_end = (\<lambda>w. w), emmc_storage = (\<lambda>_. storage_zero)\<rparr>"

text \<open>A gadget that offers 100 sectors and has received the command \<open>c\<close> for \<open>n\<close> bytes.\<close>

definition demo_state :: "u8 list \<Rightarrow> data_direction \<Rightarrow> u32 \<Rightarrow> unit usys" where
  "demo_state c dir n =
     \<lparr>ums = (ums_init False \<lparr>ctxt_type = MMC_SD, ctxt_partition = 0, ctxt_offset = 0, ctxt_sectors = 100, ctxt_ro = 0\<rparr>)
        \<lparr>cmnd := c, cmnd_size := of_nat (length c), data_dir := dir, data_size := n,
         lun := (lun (ums_init False \<lparr>ctxt_type = MMC_SD, ctxt_partition = 0, ctxt_offset = 0, ctxt_sectors = 100, ctxt_ro = 0\<rparr>))
           \<lparr>unit_attention_data := 0\<rparr>\<rparr>,
      mem = (\<lambda>_. 0), label_text = [], timer_dram = 0, timer_status_bar = 0, world = ()\<rparr>"

definition demo_read_10 :: "unit usys" where
  "demo_read_10 = demo_state [0x28, 0, 0, 0, 0, 5, 0, 0, 2, 0] DATA_DIR_TO_HOST 1024"

definition demo_write_10 :: "u8 \<Rightarrow> u8 \<Rightarrow> unit usys" where
  "demo_write_10 lba n = demo_state [0x2A, 0, 0, 0, 0, lba, 0, 0, n, 0] DATA_DIR_FROM_HOST (ucast n * 512)"



theorem parse_scsi_cmd_residue_witness:
  "\<exists>t. parse_scsi_cmd demo_env demo_read_10 = Some (UMS_RES_OK, t) \<and> residue (ums t) \<le> 1024"
proof -
  have "map_option fst (parse_scsi_cmd demo_env demo_read_10) = Some UMS_RES_OK" by code_simp
  then obtain t where t: "parse_scsi_cmd demo_env demo_read_10 = Some (UMS_RES_OK, t)" by auto
  have "data_size (ums demo_read_10) = 1024" by code_simp
  then show ?thesis using t parse_scsi_cmd_residue [OF t] by auto
qed

theorem scsi_rejection_reported_witness:
  "\<exists>t. scsi_dispatch demo_env (demo_state [0x28, 0, 0, 0, 0, 200, 0, 0, 2, 0] DATA_DIR_TO_HOST 1024)
      = Some (UMS_RES_INVALID_ARG, t) \<and> csw_status (ums t) \<noteq> USB_STATUS_PASS"
proof -
  have "map_option fst (scsi_dispatch demo_env (demo_state [0x28, 0, 0, 0, 0, 200, 0, 0, 2, 0] DATA_DIR_TO_HOST 1024))
      = Some UMS_RES_INVALID_ARG" by code_simp
  then obtain t where
    "scsi_dispatch demo_env (demo_state [0x28, 0, 0, 0, 0, 200, 0, 0, 2, 0] DATA_DIR_TO_HOST 1024)
      = Some (UMS_RES_INVALID_ARG, t)" by auto
  then show ?thesis using scsi_rejection_reported by blast
qed



definition demo_write_checked :: "u8 \<Rightarrow> unit usys" where
  "demo_write_checked lba = upd_ums (\<lambda>u. u\<lparr>data_size_from_cmnd := 1024, residue := 1024\<rparr>) (demo_write_10 lba 2)"

theorem scsi_write_returns_witness: "\<exists>r s'. scsi_write demo_env (demo_write_checked 5) = Some (r, s')"
proof (rule scsi_write_returns)
  show "unat (data_size_from_cmnd (ums (demo_write_checked 5))) mod 512 = 0" by code_simp
  show "unat (write_lba (demo_write_checked 5)) + unat (data_size_from_cmnd (ums (demo_write_checked 5))) div 512
    \<le> unat (num_sectors (lu (demo_write_checked 5)))" by code_simp
qed




definition demo_disk :: "nat \<Rightarrow> u8 list" where
  "demo_disk i = replicate 512 (of_nat i)"

definition demo_serving_env :: "unit ums_env" where
  "demo_serving_env = demo_env\<lparr>sdmmc_storage_read :=
     (\<lambda>w sec n. (w, False, concat (map demo_disk [unat sec..<unat sec + unat n])))\<rparr>"

definition demo_read_checked :: "unit usys" where
  "demo_read_checked = upd_ums (\<lambda>u. u\<lparr>data_size_from_cmnd := 1024, residue := 1024\<rparr>) demo_read_10"

theorem scsi_read_delivers_witness:
  "\<exists>t. scsi_read demo_serving_env demo_read_checked = (UMS_RES_IO_ERROR, t) \<and>
     mem_read (mem t) SDXC_BUF_ALIGNED 1024 = replicate 512 5 @ replicate 512 6"
proof -
  have sv: "serves demo_serving_env demo_disk" by (simp add: serves_def demo_serving_env_def demo_disk_def)
  have f: "cmnd (ums demo_read_checked) ! 0 \<noteq> SC_READ_6" "cmnd (ums demo_read_checked) ! 1 AND NOT 0x18 = 0"
    "unat (get_array_be_to_le32 (cmnd (ums demo_read_checked)) 2) = 5"
    "unat (data_size_from_cmnd (ums demo_read_checked)) = 1024" "unat (num_sectors (lu demo_read_checked)) = 100"
    "unat (offset (lu demo_read_checked)) = 0" by code_simp+
  have "concat (map demo_disk [5..<7]) = replicate 512 5 @ replicate 512 6"
    by (simp add: demo_disk_def upt_rec)
  then show ?thesis using scsi_read_delivers [OF sv f(1,2)] by (auto simp: f)
qed

text \<open>A READ CAPACITY command wrapper with tag 0x04030201 in the receive buffer.\<close>

definition demo_cbw :: "unit usys" where
  "demo_cbw = upd_bc (\<lambda>b. b\<lparr>bulk_out_length_actual := 31\<rparr>)
     ((demo_state (replicate 16 0) DATA_DIR_NONE 0)
        \<lparr>mem := mem_write (\<lambda>_. 0) USB_EP_BULK_OUT_BUF_ADDR
           [0x55, 0x53, 0x42, 0x43, 1, 2, 3, 4, 8, 0, 0, 0, 0x80, 0, 10,
            0x25, 0, 0, 0, 0, 0, 0, 0, 0, 0, 0, 0, 0, 0, 0, 0]\<rparr>)"

lemma demo_cbw_packet:
  "received_packet demo_cbw = \<lparr>cbw_Signature = USB_BULK_CB_SIG, cbw_Tag = 0x04030201, cbw_DataTransferLength = 8,
     cbw_Flags = 0x80, cbw_Lun = 0, cbw_Length = 10, cbw_CDB = [0x25, 0, 0, 0, 0, 0, 0, 0, 0, 0, 0, 0, 0, 0, 0, 0]\<rparr>"
  by code_simp

lemma demo_cbw_acceptable: "cbw_acceptable demo_cbw"
  by code_simp

theorem received_cbw_accepts_witness:
  "\<exists>t. received_cbw demo_env demo_cbw = (UMS_RES_OK, t) \<and> data_dir (ums t) = DATA_DIR_TO_HOST \<and>
     take 10 (cmnd (ums t)) = [0x25, 0, 0, 0, 0, 0, 0, 0, 0, 0]"
proof -
  obtain rc t where r: "received_cbw demo_env demo_cbw = (rc, t)" by fastforce
  have "length (cmnd (ums demo_cbw)) = 16" by code_simp
  from received_cbw_accepts [OF r this] show ?thesis
    using demo_cbw_acceptable r by (simp add: demo_cbw_packet USB_BULK_IN_FLAG_def)
qed

theorem status_answers_command_witness:
  "\<exists>s3. let csw = mem_read (mem (send_status demo_env s3)) (bulk_in_buf (bc s3)) 13
        in get_le32 csw 4 = 0x04030201 \<and> get_le32 csw 8 \<le> 8"
proof -
  have "fst (received_cbw demo_env demo_cbw) = UMS_RES_OK" by code_simp
  then obtain s1 where r: "received_cbw demo_env demo_cbw = (UMS_RES_OK, s1)" by (metis prod.collapse)
  have "parse_scsi_cmd demo_env (handle_ep0_ctrl demo_env (snd (received_cbw demo_env demo_cbw))) \<noteq> None" by code_simp
  then obtain rc s2 where p: "parse_scsi_cmd demo_env (handle_ep0_ctrl demo_env s1) = Some (rc, s2)"
    by (auto simp: r)
  obtain rc' s3 where f: "finish_reply demo_env (handle_ep0_ctrl demo_env s2) = (rc', s3)" by fastforce
  from status_answers_command [OF r p f] show ?thesis by (auto simp: demo_cbw_packet Let_def)
qed



end
