(* ===== verification/Heap.thy ===== *)
theory Heap
  imports Prelude
begin

text \<open>
  The heap of \<open>bdk/mem/heap.c\<close>: a list of blocks laid out one after the other from the start
  address, each behind a 32 byte header that links it to its neighbours. The headers live in a
  memory of nodes indexed by address; links are addresses and 0 is \<open>NULL\<close>. The bytes handed out
  are a memory of their own. The flag \<open>defrag\<close> selects between the two builds (Nyx reuses and
  merges free blocks; the bootloader is built with \<open>BDK_MALLOC_NO_DEFRAG\<close>).
\<close>

subsection \<open>Data\<close>

definition HEAP_USED_MAGIC :: u32 where "HEAP_USED_MAGIC = 0x50414548"

text \<open>\<open>sizeof(hnode_t)\<close>: four words and four words of padding.\<close>

definition HNODE_SZ :: u32 where "HNODE_SZ = 32"

record hnode_t =
  hn_used :: u32
  hn_size :: u32
  hn_prev :: u32
  hn_next :: u32

record heap_t =
  heap_start :: u32
  heap_first :: u32
  heap_last :: u32
  nodes :: "u32 \<Rightarrow> hnode_t"
  bytes :: "u32 \<Rightarrow> u8"

record heap_monitor_t =
  mon_total :: u32
  mon_used :: u32
  mon_nodes_total :: u32
  mon_nodes_used :: u32

definition upd_node :: "u32 \<Rightarrow> (hnode_t \<Rightarrow> hnode_t) \<Rightarrow> heap_t \<Rightarrow> heap_t" where
  "upd_node a f h = h\<lparr>nodes := (nodes h)(a := f (nodes h a))\<rparr>"

subsection \<open>Operations\<close>

definition heap_create :: "u32 \<Rightarrow> heap_t \<Rightarrow> heap_t" where
  "heap_create start h = h\<lparr>heap_start := start, heap_first := 0, heap_last := 0\<rparr>"

text \<open>First fit: \<open>Inl\<close> the first unused node that is large enough, \<open>Inr\<close> the last node.\<close>

partial_function (option) heap_find :: "(u32 \<Rightarrow> hnode_t) \<Rightarrow> u32 \<Rightarrow> u32 \<Rightarrow> (u32 + u32) option" where
  "heap_find m size0 node =
     (if hn_used (m node) = 0 \<and> size0 \<le> hn_size (m node) then Some (Inl node)
      else if hn_next (m node) \<noteq> 0 then heap_find m size0 (hn_next (m node))
      else Some (Inr node))"

declare heap_find.simps [code]

text \<open>Taking an unused node, split when at least four headers' worth of space is left.\<close>

definition heap_take :: "u32 \<Rightarrow> u32 \<Rightarrow> heap_t \<Rightarrow> u32 \<times> heap_t" where
  "heap_take size0 node h =
     (let new_size = hn_size (nodes h node) - size0;
          new_node = node + HNODE_SZ + size0
      in if new_size \<ge> push_bit 2 HNODE_SZ
         then let nxt = hn_next (nodes h node);
                  h1 = upd_node new_node (\<lambda>n. n\<lparr>hn_used := 0, hn_size := new_size - HNODE_SZ, hn_next := nxt\<rparr>) h;
                  h2 = (if hn_next (nodes h1 new_node) \<noteq> 0
                        then upd_node (hn_next (nodes h1 new_node)) (\<lambda>n. n\<lparr>hn_prev := new_node\<rparr>) h1 else h1);
                  h3 = upd_node new_node (\<lambda>n. n\<lparr>hn_prev := node\<rparr>) h2;
                  h4 = upd_node node (\<lambda>n. n\<lparr>hn_next := new_node\<rparr>) h3
              in (node + HNODE_SZ, upd_node node (\<lambda>n. n\<lparr>hn_size := size0, hn_used := HEAP_USED_MAGIC\<rparr>) h4)
         else (node + HNODE_SZ,
               upd_node node (\<lambda>n. n\<lparr>hn_size := size0 + new_size, hn_used := HEAP_USED_MAGIC\<rparr>) h))"

definition heap_extend :: "u32 \<Rightarrow> u32 \<Rightarrow> heap_t \<Rightarrow> u32 \<times> heap_t" where
  "heap_extend size0 node h =
     (let new_node = node + HNODE_SZ + hn_size (nodes h node);
          h1 = upd_node new_node
                 (\<lambda>n. n\<lparr>hn_used := HEAP_USED_MAGIC, hn_size := size0, hn_prev := node, hn_next := 0\<rparr>) h;
          h2 = upd_node node (\<lambda>n. n\<lparr>hn_next := new_node\<rparr>) h1
      in (new_node + HNODE_SZ, h2\<lparr>heap_last := new_node\<rparr>))"

text \<open>\<open>None\<close>: the search never ends.\<close>

definition heap_alloc :: "bool \<Rightarrow> u32 \<Rightarrow> heap_t \<Rightarrow> (u32 \<times> heap_t) option" where
  "heap_alloc defrag size_req h =
     (let size0 = ALIGN size_req HNODE_SZ
      in if heap_first h = 0
         then let node = heap_start h;
                  h1 = upd_node node
                         (\<lambda>n. n\<lparr>hn_used := HEAP_USED_MAGIC, hn_size := size0, hn_prev := 0, hn_next := 0\<rparr>) h
              in Some (node + HNODE_SZ, h1\<lparr>heap_first := node, heap_last := node\<rparr>)
         else if defrag
         then (case heap_find (nodes h) size0 (heap_first h) of
                 None \<Rightarrow> None
               | Some (Inl node) \<Rightarrow> Some (heap_take size0 node h)
               | Some (Inr node) \<Rightarrow> Some (heap_extend size0 node h))
         else Some (heap_extend size0 (heap_last h) h))"

definition heap_merge_prev :: "u32 \<Rightarrow> heap_t \<Rightarrow> u32 \<times> heap_t" where
  "heap_merge_prev node h =
     (let prev = hn_prev (nodes h node)
      in if prev \<noteq> 0 \<and> hn_used (nodes h prev) = 0
         then let h1 = upd_node prev (\<lambda>n. n\<lparr>hn_size := hn_size n + (hn_size (nodes h node) + HNODE_SZ)\<rparr>) h;
                  h2 = upd_node prev (\<lambda>n. n\<lparr>hn_next := hn_next (nodes h1 node)\<rparr>) h1;
                  h3 = (if hn_next (nodes h2 node) \<noteq> 0
                        then upd_node (hn_next (nodes h2 node)) (\<lambda>n. n\<lparr>hn_prev := prev\<rparr>) h2 else h2)
              in (prev, h3)
         else (node, h))"

definition heap_merge_next :: "u32 \<Rightarrow> heap_t \<Rightarrow> heap_t" where
  "heap_merge_next node h =
     (let nxt = hn_next (nodes h node)
      in if nxt \<noteq> 0 \<and> hn_used (nodes h nxt) = 0
         then let h1 = upd_node node (\<lambda>n. n\<lparr>hn_size := hn_size n + (hn_size (nodes h nxt) + HNODE_SZ)\<rparr>) h;
                  h2 = upd_node node (\<lambda>n. n\<lparr>hn_next := hn_next (nodes h1 nxt)\<rparr>) h1
              in if hn_next (nodes h2 nxt) \<noteq> 0
                 then upd_node (hn_next (nodes h2 nxt)) (\<lambda>n. n\<lparr>hn_prev := node\<rparr>) h2 else h2
         else h)"

definition heap_free :: "bool \<Rightarrow> u32 \<Rightarrow> heap_t \<Rightarrow> heap_t" where
  "heap_free defrag addr h =
     (let node = addr - HNODE_SZ
      in if addr < heap_start h \<or> hn_used (nodes h node) \<noteq> HEAP_USED_MAGIC then h
         else let h1 = upd_node node (\<lambda>n. n\<lparr>hn_used := 0\<rparr>) h
              in if defrag then (case heap_merge_prev node h1 of (n, h2) \<Rightarrow> heap_merge_next n h2) else h1)"

definition heap_init :: "u32 \<Rightarrow> heap_t \<Rightarrow> heap_t" where
  "heap_init base h = heap_create base h"

text \<open>\<open>heap_set\<close> copies the three words of the descriptor; the memory stays.\<close>

definition heap_set :: "u32 \<times> u32 \<times> u32 \<Rightarrow> heap_t \<Rightarrow> heap_t" where
  "heap_set d h = (case d of (a, b, c) \<Rightarrow> h\<lparr>heap_start := a, heap_first := b, heap_last := c\<rparr>)"

definition malloc :: "bool \<Rightarrow> u32 \<Rightarrow> heap_t \<Rightarrow> (u32 \<times> heap_t) option" where
  "malloc defrag n h = heap_alloc defrag n h"

definition memset0 :: "u32 \<Rightarrow> u32 \<Rightarrow> (u32 \<Rightarrow> u8) \<Rightarrow> u32 \<Rightarrow> u8" where
  "memset0 buf n b = (\<lambda>x. if x - buf < n then 0 else b x)"

definition zalloc :: "bool \<Rightarrow> u32 \<Rightarrow> heap_t \<Rightarrow> (u32 \<times> heap_t) option" where
  "zalloc defrag n h =
     map_option (\<lambda>(buf, h1). (buf, h1\<lparr>bytes := memset0 buf (ALIGN n HNODE_SZ) (bytes h1)\<rparr>)) (heap_alloc defrag n h)"

definition calloc :: "bool \<Rightarrow> u32 \<Rightarrow> u32 \<Rightarrow> heap_t \<Rightarrow> (u32 \<times> heap_t) option" where
  "calloc defrag num n h = zalloc defrag (num * n) h"

definition free :: "bool \<Rightarrow> u32 \<Rightarrow> heap_t \<Rightarrow> heap_t" where
  "free defrag buf h = heap_free defrag buf h"

definition mon_count :: "hnode_t \<Rightarrow> heap_monitor_t \<Rightarrow> heap_monitor_t" where
  "mon_count n mon =
     (if hn_used n \<noteq> 0
      then mon\<lparr>mon_nodes_used := mon_nodes_used mon + 1, mon_used := mon_used mon + (hn_size n + HNODE_SZ)\<rparr>
      else mon\<lparr>mon_total := mon_total mon + (hn_size n + HNODE_SZ)\<rparr>)"

partial_function (option) heap_monitor_loop ::
  "(u32 \<Rightarrow> hnode_t) \<Rightarrow> u32 \<Rightarrow> u32 \<Rightarrow> heap_monitor_t \<Rightarrow> (u32 \<times> heap_monitor_t) option" where
  "heap_monitor_loop m node count mon =
     (let mon1 = mon_count (m node) mon
      in if hn_next (m node) \<noteq> 0 then heap_monitor_loop m (hn_next (m node)) (count + 1) mon1
         else Some (count + 1, mon1))"

declare heap_monitor_loop.simps [code]

definition heap_monitor :: "heap_t \<Rightarrow> heap_monitor_t option" where
  "heap_monitor h =
     map_option (\<lambda>(count, mon). mon\<lparr>mon_total := mon_total mon + mon_used mon, mon_nodes_total := count\<rparr>)
       (heap_monitor_loop (nodes h) (heap_first h) 0
          \<lparr>mon_total = 0, mon_used = 0, mon_nodes_total = 0, mon_nodes_used = 0\<rparr>)"

subsection \<open>Blocks\<close>

text \<open>
  The abstract heap: the sizes of the blocks from the start address on and whether each is in
  use. A block's header is at the sum of what lies before it.
\<close>

type_synonym blocks = "(nat \<times> bool) list"

definition extent :: "blocks \<Rightarrow> nat" where
  "extent bs = sum_list (map (\<lambda>b. 32 + fst b) bs)"

lemma extent_simps [simp]:
  "extent [] = 0" "extent (b # bs) = 32 + fst b + extent bs" "extent (xs @ ys) = extent xs + extent ys"
  by (simp_all add: extent_def)

text \<open>
  The headers from address \<open>a\<close> on describe the blocks; \<open>p\<close> is the header before and \<open>nx\<close>
  what the last header links to.
\<close>

fun chain :: "(u32 \<Rightarrow> hnode_t) \<Rightarrow> nat \<Rightarrow> nat \<Rightarrow> blocks \<Rightarrow> u32 \<Rightarrow> bool" where
  "chain m p a [] nx \<longleftrightarrow> True"
| "chain m p a (b # bs) nx \<longleftrightarrow>
     m (of_nat a) = \<lparr>hn_used = (if snd b then HEAP_USED_MAGIC else 0), hn_size = of_nat (fst b), hn_prev = of_nat p,
       hn_next = (if bs = [] then nx else of_nat (a + 32 + fst b))\<rparr> \<and>
     chain m a (a + 32 + fst b) bs nx"

text \<open>The address of the last header of a non-empty list of blocks.\<close>

definition last_header :: "nat \<Rightarrow> nat \<Rightarrow> blocks \<Rightarrow> nat" where
  "last_header p a bs = (if bs = [] then p else a + extent (butlast bs))"

lemma last_header_simps [simp]:
  "last_header p a [] = p" "last_header p a (b # bs) = last_header a (a + 32 + fst b) bs"
  "last_header p a (bs @ [b]) = a + extent bs"
  by (simp_all add: last_header_def)

lemma chain_append:
  "chain m p a (xs @ ys) nx \<longleftrightarrow>
     chain m p a xs (if ys = [] then nx else of_nat (a + extent xs)) \<and>
     chain m (last_header p a xs) (a + extent xs) ys nx"
  by (induction xs arbitrary: p a) (auto simp: add.assoc)

text \<open>The headers are at addresses inside the chain's extent, and only they matter.\<close>

lemma chain_cong:
  "(\<And>i. a \<le> i \<Longrightarrow> i < a + extent bs \<Longrightarrow> m' (of_nat i) = m (of_nat i)) \<Longrightarrow> chain m' p a bs nx = chain m p a bs nx"
proof (induction bs arbitrary: p a)
  case (Cons b bs)
  have "m' (of_nat a) = m (of_nat a)" by (rule Cons.prems) auto
  moreover have "chain m' a (a + 32 + fst b) bs nx = chain m a (a + 32 + fst b) bs nx"
    by (rule Cons.IH) (rule Cons.prems, auto)
  ultimately show ?case by simp
qed simp

lemma of_nat_inject_u32: "i < 2 ^ 32 \<Longrightarrow> j < 2 ^ 32 \<Longrightarrow> (of_nat i :: u32) = of_nat j \<longleftrightarrow> i = j"
  by (metis unat_of_nat_u32)

lemma chain_outside:
  assumes "chain m p a bs nx" "a + extent bs < 2 ^ 32" "x < 2 ^ 32" "x < a \<or> a + extent bs \<le> x"
  shows "chain (m(of_nat x := v)) p a bs nx"
  using assms by (subst chain_cong [of a bs _ m]) (auto simp: of_nat_inject_u32)

lemma chain_replace:
  assumes ch: "chain m p a (xs @ mid @ ys) nx" and ne: "mid \<noteq> []" "mid' \<noteq> []" and ext: "extent mid' = extent mid"
    and bound: "a + extent (xs @ mid @ ys) < 2 ^ 32"
  defines "A \<equiv> a + extent xs" and "Z \<equiv> a + extent xs + extent mid"
  assumes new: "chain m' (last_header p a xs) A mid' (if ys = [] then nx else of_nat Z)"
    and below: "\<And>i. i < A \<Longrightarrow> m' (of_nat i) = m (of_nat i)"
    and at: "ys \<noteq> [] \<Longrightarrow> m' (of_nat Z) = (m (of_nat Z))\<lparr>hn_prev := of_nat (last_header 0 A mid')\<rparr>"
    and above: "\<And>i. Z < i \<Longrightarrow> i < Z + extent ys \<Longrightarrow> m' (of_nat i) = m (of_nat i)"
  shows "chain m' p a (xs @ mid' @ ys) nx"
proof -
  have "chain m p a xs (of_nat A)" using ch ne unfolding A_def by (simp add: chain_append)
  then have 1: "chain m' p a xs (of_nat A)"
    by (subst chain_cong [of a xs _ m]) (auto simp: A_def [symmetric] intro!: below)
  have lh: "last_header q A mid' = last_header 0 A mid'" for q using ne(2) by (simp add: last_header_def)
  have ch2: "chain m (last_header p a xs) A (mid @ ys) nx" using ch unfolding A_def by (simp only: chain_append)
  have ZA: "Z = A + extent mid" by (simp add: Z_def A_def)
  have ch3: "chain m (last_header (last_header p a xs) A mid) Z ys nx" using ch2 unfolding ZA by (simp only: chain_append)
  have 2: "chain m' (last_header 0 A mid') Z ys nx"
  proof (cases ys)
    case (Cons y ys')
    then have old: "m (of_nat Z) = \<lparr>hn_used = (if snd y then HEAP_USED_MAGIC else 0), hn_size = of_nat (fst y),
        hn_prev = of_nat (last_header (last_header p a xs) A mid),
        hn_next = (if ys' = [] then nx else of_nat (Z + 32 + fst y))\<rparr>" "chain m Z (Z + 32 + fst y) ys' nx"
      using ch3 by simp_all
    have "chain m' Z (Z + 32 + fst y) ys' nx"
      using old(2) Cons by (subst chain_cong [of _ ys' _ m]) (auto intro!: above)
    then show ?thesis using old(1) at Cons by simp
  qed simp
  have "chain m' (last_header p a xs) A (mid' @ ys) nx"
    unfolding chain_append ext ZA [symmetric] lh [of "last_header p a xs"] using new 2 by (rule conjI)
  then show ?thesis using 1 ne by (simp add: chain_append A_def)
qed

subsection \<open>The relation between headers and blocks\<close>

definition heap_rel :: "bool \<Rightarrow> heap_t \<Rightarrow> blocks \<Rightarrow> bool" where
  "heap_rel defrag h bs \<longleftrightarrow>
     0 < heap_start h \<and> unat (heap_start h) + extent bs < 2 ^ 32 \<and>
     (if bs = [] then heap_first h = 0
      else heap_first h = heap_start h \<and> chain (nodes h) 0 (unat (heap_start h)) bs 0 \<and>
           (\<not> defrag \<longrightarrow> heap_last h = of_nat (last_header 0 (unat (heap_start h)) bs)))"

definition fits :: "nat \<Rightarrow> nat \<times> bool \<Rightarrow> bool" where
  "fits n b \<longleftrightarrow> \<not> snd b \<and> n \<le> fst b"

definition alloc_blocks :: "bool \<Rightarrow> nat \<Rightarrow> blocks \<Rightarrow> nat \<times> blocks" where
  "alloc_blocks defrag n bs =
     (case (if defrag then dropWhile (\<lambda>b. \<not> fits n b) bs else []) of
        [] \<Rightarrow> (extent bs, bs @ [(n, True)])
      | b # ys \<Rightarrow>
          let xs = takeWhile (\<lambda>b. \<not> fits n b) bs
          in (extent xs, xs @ (if fst b - n \<ge> 128 then [(n, True), (fst b - n - 32, False)] else [(fst b, True)]) @ ys))"

lemma u32_le_of_nat: "i < 2 ^ 32 \<Longrightarrow> j < 2 ^ 32 \<Longrightarrow> (of_nat i :: u32) \<le> of_nat j \<longleftrightarrow> i \<le> j"
  by (simp add: word_le_nat_alt unat_of_nat_u32)

lemma of_nat_nonzero_u32: "0 < i \<Longrightarrow> i < 2 ^ 32 \<Longrightarrow> (of_nat i :: u32) \<noteq> 0"
  by (metis unat_of_nat_u32 unsigned_0 less_irrefl)

lemma magic_nonzero [simp]: "HEAP_USED_MAGIC \<noteq> 0"
  by (simp add: HEAP_USED_MAGIC_def)

lemma heap_find_fit:
  assumes "chain m p a (xs @ b # ys) 0" "a + extent (xs @ b # ys) < 2 ^ 32" "n < 2 ^ 32" "0 < a"
    "\<forall>x \<in> set xs. \<not> fits n x" "fits n b"
  shows "heap_find m (of_nat n) (of_nat a) = Some (Inl (of_nat (a + extent xs)))"
  using assms
proof (induction xs arbitrary: p a)
  case Nil
  then show ?case
    by (subst heap_find.simps) (simp add: fits_def u32_le_of_nat)
next
  case (Cons x xs)
  have b: "a + 32 + fst x < 2 ^ 32" using Cons.prems(2) by simp
  have nz: "(of_nat (a + 32 + fst x) :: u32) \<noteq> 0" using b by (intro of_nat_nonzero_u32) simp_all
  have nf: "\<not> (hn_used (m (of_nat a)) = 0 \<and> of_nat n \<le> hn_size (m (of_nat a)))"
    using Cons.prems b by (auto simp: fits_def u32_le_of_nat)
  have nx: "hn_next (m (of_nat a)) = of_nat (a + 32 + fst x)" using Cons.prems(1) by simp
  have "heap_find m (of_nat n) (of_nat (a + 32 + fst x)) = Some (Inl (of_nat (a + 32 + fst x + extent xs)))"
    using Cons.prems by (intro Cons.IH [of a]) simp_all
  then have "heap_find m (of_nat n) (of_nat a) = Some (Inl (of_nat (a + 32 + fst x + extent xs)))"
    by (subst heap_find.simps) (simp only: nf if_False nx nz not_False_eq_True if_True)
  then show ?case by (simp add: add.assoc)
qed

lemma heap_find_none:
  assumes "chain m p a bs 0" "bs \<noteq> []" "a + extent bs < 2 ^ 32" "n < 2 ^ 32" "0 < a" "\<forall>x \<in> set bs. \<not> fits n x"
  shows "heap_find m (of_nat n) (of_nat a) = Some (Inr (of_nat (last_header p a bs)))"
  using assms
proof (induction bs arbitrary: p a)
  case (Cons x xs)
  have b: "a + 32 + fst x < 2 ^ 32" using Cons.prems(3) by simp
  have nz: "(of_nat (a + 32 + fst x) :: u32) \<noteq> 0" using b by (intro of_nat_nonzero_u32) simp_all
  have nf: "\<not> (hn_used (m (of_nat a)) = 0 \<and> of_nat n \<le> hn_size (m (of_nat a)))"
    using Cons.prems b by (auto simp: fits_def u32_le_of_nat)
  show ?case
  proof (cases "xs = []")
    case True
    then have "hn_next (m (of_nat a)) = 0" using Cons.prems(1) by simp
    then have "heap_find m (of_nat n) (of_nat a) = Some (Inr (of_nat a))"
      by (subst heap_find.simps) (simp only: nf if_False not_True_eq_False simp_thms)
    then show ?thesis using True by simp
  next
    case False
    then have nx: "hn_next (m (of_nat a)) = of_nat (a + 32 + fst x)" using Cons.prems(1) by simp
    have "heap_find m (of_nat n) (of_nat (a + 32 + fst x)) = Some (Inr (of_nat (last_header a (a + 32 + fst x) xs)))"
      using Cons.prems False by (intro Cons.IH) simp_all
    then have "heap_find m (of_nat n) (of_nat a) = Some (Inr (of_nat (last_header a (a + 32 + fst x) xs)))"
      by (subst heap_find.simps) (simp only: nf if_False nx nz not_False_eq_True if_True)
    then show ?thesis by simp
  qed
qed simp

lemma upd_node_simps [simp]:
  "nodes (upd_node a f h) = (nodes h)(a := f (nodes h a))" "heap_start (upd_node a f h) = heap_start h"
  "heap_first (upd_node a f h) = heap_first h" "heap_last (upd_node a f h) = heap_last h" "bytes (upd_node a f h) = bytes h"
  by (simp_all add: upd_node_def)

lemma of_nat_diff_u32: "j \<le> i \<Longrightarrow> (of_nat i - of_nat j :: u32) = of_nat (i - j)"
  by (simp add: of_nat_diff)

lemma node_at:
  assumes "chain m p a (xs @ b # ys) nx"
  shows "m (of_nat (a + extent xs)) = \<lparr>hn_used = (if snd b then HEAP_USED_MAGIC else 0), hn_size = of_nat (fst b),
    hn_prev = of_nat (last_header p a xs),
    hn_next = (if ys = [] then nx else of_nat (a + extent xs + 32 + fst b))\<rparr>"
  using assms unfolding chain_append by simp

lemma prev_at:
  assumes "chain m p a (xs @ b # ys) nx" "ys \<noteq> []"
  shows "hn_prev (m (of_nat (a + extent xs + 32 + fst b))) = of_nat (a + extent xs)"
  using node_at [of m p a "xs @ [b]" "hd ys" "tl ys" nx] assms by (simp add: add.assoc)

lemma heap_take_split:
  assumes "nodes h A = \<lparr>hn_used = u, hn_size = S, hn_prev = P, hn_next = nx\<rparr>" "S - n \<ge> push_bit 2 HNODE_SZ"
    "N = A + HNODE_SZ + n" "N \<noteq> A" "nx \<noteq> 0 \<Longrightarrow> nx \<noteq> A \<and> nx \<noteq> N"
  defines "m1 \<equiv> (nodes h)(N := \<lparr>hn_used = 0, hn_size = S - n - HNODE_SZ, hn_prev = A, hn_next = nx\<rparr>)"
  defines "m2 \<equiv> if nx = 0 then m1 else m1(nx := (nodes h nx)\<lparr>hn_prev := N\<rparr>)"
  shows "heap_take n A h = (A + HNODE_SZ,
    h\<lparr>nodes := m2(A := \<lparr>hn_used = HEAP_USED_MAGIC, hn_size = n, hn_prev = P, hn_next = N\<rparr>)\<rparr>)"
proof -
  have r: "(nodes h N)\<lparr>hn_used := 0, hn_size := S - n - HNODE_SZ, hn_next := nx, hn_prev := A\<rparr>
      = \<lparr>hn_used = 0, hn_size = S - n - HNODE_SZ, hn_prev = A, hn_next = nx\<rparr>" by (rule hnode_t.equality) simp_all
  show ?thesis
  proof (cases "nx = 0")
    case True
    then show ?thesis using assms(1,2,4)
      by (simp add: heap_take_def Let_def upd_node_def m1_def m2_def assms(3) [symmetric] r [unfolded True])
  next
    case False
    then have d: "nx \<noteq> A" "nx \<noteq> N" "A \<noteq> nx" "N \<noteq> nx" using assms(5) by auto
    then show ?thesis using False assms(1,2,4)
      by (simp add: heap_take_def Let_def upd_node_def m1_def m2_def assms(3) [symmetric] r fun_upd_twist [OF d(2)])
  qed
qed

lemma heap_take_refines:
  fixes h a xs sz ys n
  defines "A \<equiv> a + extent xs"
  assumes ch: "chain (nodes h) 0 a (xs @ (sz, False) # ys) 0" and bound: "a + extent (xs @ (sz, False) # ys) < 2 ^ 32"
    and n: "n \<le> sz" and a: "0 < a"
  shows "\<exists>h'. heap_take (of_nat n) (of_nat A) h = (of_nat (A + 32), h') \<and> heap_start h' = heap_start h \<and>
    heap_first h' = heap_first h \<and> heap_last h' = heap_last h \<and> bytes h' = bytes h \<and>
    chain (nodes h') 0 a (xs @ (if sz - n \<ge> 128 then [(n, True), (sz - n - 32, False)] else [(sz, True)]) @ ys) 0"
proof -
  let ?m = "nodes h" and ?wA = "of_nat A :: u32" and ?wN = "of_nat (A + 32 + n) :: u32" and ?wZ = "of_nat (A + 32 + sz) :: u32"
  define P where "P = last_header 0 a xs"
  have bd: "A + 32 + sz + extent ys < 2 ^ 32" using bound by (simp add: A_def)
  have nA: "?m ?wA = \<lparr>hn_used = 0, hn_size = of_nat sz, hn_prev = of_nat P, hn_next = (if ys = [] then 0 else ?wZ)\<rparr>"
    using node_at [OF ch] by (simp add: A_def P_def)
  have ns: "hn_size (?m ?wA) - of_nat n = of_nat (sz - n)" using n by (simp add: nA of_nat_diff)
  have ge: "(of_nat (sz - n) :: u32) \<ge> push_bit 2 HNODE_SZ \<longleftrightarrow> 128 \<le> sz - n"
  proof -
    have "push_bit 2 HNODE_SZ = (of_nat 128 :: u32)" by (simp add: HNODE_SZ_def)
    then show ?thesis using bd u32_le_of_nat [of 128 "sz - n"] by simp
  qed
  have wN: "?wA + HNODE_SZ + of_nat n = ?wN" by (simp add: HNODE_SZ_def)
  have ret: "?wA + HNODE_SZ = of_nat (A + 32)" by (simp add: HNODE_SZ_def)
  have rep: "chain m' 0 a (xs @ mid' @ ys) 0"
    if "mid' \<noteq> []" "extent mid' = 32 + sz" "chain m' P A mid' (if ys = [] then 0 else ?wZ)"
      "\<And>i. i < A \<Longrightarrow> m' (of_nat i) = ?m (of_nat i)"
      "ys \<noteq> [] \<Longrightarrow> m' ?wZ = (?m ?wZ)\<lparr>hn_prev := of_nat (last_header 0 A mid')\<rparr>"
      "\<And>i. A + 32 + sz < i \<Longrightarrow> i < A + 32 + sz + extent ys \<Longrightarrow> m' (of_nat i) = ?m (of_nat i)" for m' mid'
  proof -
    have e: "a + extent xs = A" "last_header 0 a xs = P" "A + extent [(sz, False)] = A + 32 + sz" by (simp_all add: A_def P_def)
    show ?thesis
      using chain_replace [of ?m 0 a xs "[(sz, False)]" ys 0 mid' m', unfolded e] ch bound that by simp
  qed
  show ?thesis
  proof (cases "128 \<le> sz - n")
    case False
    define m' where "m' = ?m(?wA := \<lparr>hn_used = HEAP_USED_MAGIC, hn_size = of_nat sz, hn_prev = of_nat P,
      hn_next = (if ys = [] then 0 else ?wZ)\<rparr>)"
    have "heap_take (of_nat n) ?wA h = (of_nat (A + 32), h\<lparr>nodes := m'\<rparr>)"
      using False unfolding heap_take_def Let_def ns ge ret by (simp add: upd_node_def nA m'_def of_nat_diff n)
    moreover have "chain m' 0 a (xs @ [(sz, True)] @ ys) 0"
    proof (rule rep)
      show "m' ?wZ = (?m ?wZ)\<lparr>hn_prev := of_nat (last_header 0 A [(sz, True)])\<rparr>" if "ys \<noteq> []"
      proof -
        have "?m ?wZ = (?m ?wZ)\<lparr>hn_prev := ?wA\<rparr>"
          using prev_at [OF ch that] by (simp add: A_def)
        moreover have "?wZ \<noteq> ?wA" using bd by (subst of_nat_inject_u32) simp_all
        ultimately show ?thesis by (simp add: m'_def)
      qed
    qed (use bd in \<open>auto simp: m'_def of_nat_inject_u32\<close>)
    ultimately show ?thesis using False by (intro exI [of _ "h\<lparr>nodes := m'\<rparr>"]) simp
  next
    case True
    define m1 where "m1 = ?m(?wN := \<lparr>hn_used = 0, hn_size = of_nat (sz - n - 32), hn_prev = ?wA,
      hn_next = (if ys = [] then 0 else ?wZ)\<rparr>)"
    define m2 where "m2 = (if ys = [] then m1 else m1(?wZ := (?m ?wZ)\<lparr>hn_prev := ?wN\<rparr>))"
    define m' where "m' = m2(?wA := \<lparr>hn_used = HEAP_USED_MAGIC, hn_size = of_nat n, hn_prev = of_nat P, hn_next = ?wN\<rparr>)"
    have dist: "?wN \<noteq> ?wA" "?wZ \<noteq> ?wA" "?wZ \<noteq> ?wN" "?wZ \<noteq> 0"
      using bd True by (subst of_nat_inject_u32; simp)+ (use bd in \<open>intro of_nat_nonzero_u32; simp\<close>)
    have s32: "of_nat (sz - n) - HNODE_SZ = of_nat (sz - n - 32)" using True by (simp add: HNODE_SZ_def of_nat_diff)
    have "heap_take (of_nat n) ?wA h = (of_nat (A + 32), h\<lparr>nodes := m'\<rparr>)"
      unfolding ret [symmetric]
      using heap_take_split [OF nA, of "of_nat n" ?wN] True dist wN ge ns nA s32
      by (auto simp: m'_def m2_def m1_def Let_def diff_diff_eq split: if_splits)
    moreover have "chain m' 0 a (xs @ [(n, True), (sz - n - 32, False)] @ ys) 0"
    proof (rule rep)
      show "chain m' P A [(n, True), (sz - n - 32, False)] (if ys = [] then 0 else ?wZ)"
        using dist by (simp add: m'_def m2_def m1_def)
      show "m' ?wZ = (?m ?wZ)\<lparr>hn_prev := of_nat (last_header 0 A [(n, True), (sz - n - 32, False)])\<rparr>" if "ys \<noteq> []"
        using that dist by (simp add: m'_def m2_def m1_def)
      have agree: "m' (of_nat i) = ?m (of_nat i)" if "i < 2 ^ 32" "i \<noteq> A" "i \<noteq> A + 32 + n" "i \<noteq> A + 32 + sz" for i
        using that bd n by (simp add: m'_def m2_def m1_def of_nat_inject_u32 del: of_nat_add)
      show "m' (of_nat i) = ?m (of_nat i)" if "i < A" for i using that bd by (intro agree) simp_all
      show "m' (of_nat i) = ?m (of_nat i)" if "A + 32 + sz < i" "i < A + 32 + sz + extent ys" for i
        using that bd n by (intro agree) simp_all
    qed (use True in auto)
    ultimately show ?thesis using True by (intro exI [of _ "h\<lparr>nodes := m'\<rparr>"]) simp
  qed
qed

lemma heap_extend_refines:
  fixes h a xs b n
  defines "L \<equiv> a + extent xs" and "N \<equiv> a + extent (xs @ [b])"
  assumes ch: "chain (nodes h) 0 a (xs @ [b]) 0" and bound: "a + extent (xs @ [b]) + 32 + n < 2 ^ 32"
  shows "\<exists>h'. heap_extend (of_nat n) (of_nat L) h = (of_nat (N + 32), h') \<and> heap_start h' = heap_start h \<and>
    heap_first h' = heap_first h \<and> heap_last h' = of_nat N \<and> bytes h' = bytes h \<and>
    chain (nodes h') 0 a (xs @ [b] @ [(n, True)]) 0"
proof -
  let ?m = "nodes h" and ?wL = "of_nat L :: u32" and ?wN = "of_nat N :: u32"
  have NL: "N = L + 32 + fst b" by (simp add: N_def L_def)
  have nL: "?m ?wL = \<lparr>hn_used = (if snd b then HEAP_USED_MAGIC else 0), hn_size = of_nat (fst b),
      hn_prev = of_nat (last_header 0 a xs), hn_next = 0\<rparr>"
    using node_at [OF ch] by (simp add: L_def)
  have d: "?wN \<noteq> ?wL" using bound by (subst of_nat_inject_u32) (simp_all add: NL L_def)
  define m' where "m' = ?m(?wN := \<lparr>hn_used = HEAP_USED_MAGIC, hn_size = of_nat n, hn_prev = ?wL, hn_next = 0\<rparr>,
    ?wL := (?m ?wL)\<lparr>hn_next := ?wN\<rparr>)"
  have new: "?wL + HNODE_SZ + hn_size (?m ?wL) = ?wN" by (simp add: nL NL HNODE_SZ_def)
  have r: "(?m ?wN)\<lparr>hn_used := HEAP_USED_MAGIC, hn_size := of_nat n, hn_prev := ?wL, hn_next := 0\<rparr> =
     \<lparr>hn_used = HEAP_USED_MAGIC, hn_size = of_nat n, hn_prev = ?wL, hn_next = 0\<rparr>" by (rule hnode_t.equality) simp_all
  have eq: "heap_extend (of_nat n) ?wL h = (of_nat (N + 32), h\<lparr>nodes := m', heap_last := ?wN\<rparr>)"
    unfolding heap_extend_def Let_def new m'_def using d by (simp add: upd_node_def r HNODE_SZ_def)
  have ag: "m' (of_nat i) = ?m (of_nat i)" if "i < L" for i
    using that bound d by (simp add: m'_def of_nat_inject_u32 NL L_def del: of_nat_add)
  have "chain ?m 0 a xs ?wL" using ch by (simp add: chain_append L_def)
  then have "chain m' 0 a xs ?wL" by (subst chain_cong [of a xs m' ?m]) (simp_all add: ag L_def)
  then have "chain m' 0 a (xs @ [b] @ [(n, True)]) 0"
    unfolding chain_append L_def [symmetric] using d nL
    by (simp add: NL [symmetric] NL [unfolded add.assoc, symmetric] m'_def del: of_nat_add)
  then show ?thesis using eq by (intro exI [of _ "h\<lparr>nodes := m', heap_last := ?wN\<rparr>"]) simp
qed

lemma unat_ALIGN: "unat (ALIGN x HNODE_SZ) < 2 ^ 32"
  by simp

text \<open>\<open>_heap_alloc\<close> implements the allocation on blocks, as long as the blocks stay below 4 GB.\<close>

lemma heap_alloc_refines:
  assumes rel: "heap_rel defrag h bs" and n: "n = unat (ALIGN x HNODE_SZ)"
    and room: "unat (heap_start h) + extent bs + 32 + n < 2 ^ 32"
  shows "\<exists>h'. heap_alloc defrag x h = Some (of_nat (unat (heap_start h) + fst (alloc_blocks defrag n bs) + 32), h') \<and>
    heap_rel defrag h' (snd (alloc_blocks defrag n bs)) \<and> heap_start h' = heap_start h \<and> bytes h' = bytes h"
proof -
  let ?a = "unat (heap_start h)"
  have wn: "ALIGN x HNODE_SZ = of_nat n" "n < 2 ^ 32" by (simp_all add: n)
  have a: "0 < ?a" "of_nat ?a = heap_start h" using rel by (simp_all add: heap_rel_def unat_gt_0 word_gt_0)
  show ?thesis
  proof (cases "bs = []")
    case True
    define h' where "h' = (upd_node (heap_start h)
      (\<lambda>k. k\<lparr>hn_used := HEAP_USED_MAGIC, hn_size := of_nat n, hn_prev := 0, hn_next := 0\<rparr>) h)
        \<lparr>heap_first := heap_start h, heap_last := heap_start h\<rparr>"
    have "heap_alloc defrag x h = Some (heap_start h + HNODE_SZ, h')"
      using rel True by (simp add: heap_alloc_def heap_rel_def Let_def wn h'_def)
    moreover have "heap_rel defrag h' [(n, True)]"
      using rel room True a by (simp add: heap_rel_def h'_def)
    ultimately show ?thesis using True a by (auto simp: alloc_blocks_def HNODE_SZ_def h'_def)
  next
    case False
    then have ch: "heap_first h = of_nat ?a" "heap_first h \<noteq> 0" "chain (nodes h) 0 ?a bs 0"
      "\<not> defrag \<Longrightarrow> heap_last h = of_nat (last_header 0 ?a bs)"
      using rel a by (auto simp: heap_rel_def)
    obtain zs z where bs: "bs = zs @ [z]" using False by (metis rev_exhaust)
    from heap_extend_refines [of h ?a zs z n] ch(3) room bs obtain h2 where
      h2: "heap_extend (of_nat n) (of_nat (?a + extent zs)) h = (of_nat (?a + extent bs + 32), h2)" "heap_start h2 = heap_start h"
        "heap_first h2 = heap_first h" "heap_last h2 = of_nat (?a + extent bs)" "bytes h2 = bytes h"
        "chain (nodes h2) 0 ?a (bs @ [(n, True)]) 0" by auto
    have ext: "heap_rel defrag h2 (bs @ [(n, True)])" using h2 ch(1) a room rel by (simp add: heap_rel_def)
    let ?P = "\<lambda>b. \<not> fits n b"
    consider (nodefrag) "\<not> defrag" | (none) defrag "dropWhile ?P bs = []" | (fit) b ys where defrag "dropWhile ?P bs = b # ys"
      by (cases "dropWhile ?P bs") auto
    then show ?thesis
    proof cases
      case nodefrag
      then have "heap_alloc defrag x h = Some (heap_extend (of_nat n) (of_nat (?a + extent zs)) h)"
        using ch(2,4) by (simp add: heap_alloc_def wn Let_def bs)
      then show ?thesis using nodefrag h2 ext by (simp add: alloc_blocks_def)
    next
      case none
      then have "heap_find (nodes h) (of_nat n) (of_nat ?a) = Some (Inr (of_nat (last_header 0 ?a bs)))"
        using ch False a wn rel by (intro heap_find_none) (auto simp: heap_rel_def dropWhile_eq_Nil_conv)
      then have "heap_alloc defrag x h = Some (heap_extend (of_nat n) (of_nat (?a + extent zs)) h)"
        using ch(1,2) none by (simp add: heap_alloc_def wn Let_def bs)
      moreover have "alloc_blocks defrag n bs = (extent bs, bs @ [(n, True)])"
        using none by (simp add: alloc_blocks_def del: dropWhile_eq_Nil_conv)
      ultimately show ?thesis using none h2 ext by simp
    next
      case fit
      define xs where "xs = takeWhile ?P bs"
      have bsx: "bs = xs @ b # ys" using takeWhile_dropWhile_id [of ?P bs] fit by (simp add: xs_def)
      have "fits n b" using fit(2) by (metis dropWhile_eq_Cons_conv)
      then obtain sz where b: "b = (sz, False)" "n \<le> sz" by (cases b) (auto simp: fits_def)
      have bd: "?a + extent (xs @ (sz, False) # ys) < 2 ^ 32" using room bsx b by simp
      have "\<forall>x \<in> set xs. \<not> fits n x" by (auto simp: xs_def dest: set_takeWhileD)
      then have fd: "heap_find (nodes h) (of_nat n) (of_nat ?a) = Some (Inl (of_nat (?a + extent xs)))"
        using ch(3) bd a wn \<open>fits n b\<close> bsx b by (intro heap_find_fit [of _ _ _ _ b ys]) simp_all
      from heap_take_refines [OF ch(3) [unfolded bsx b(1)] bd b(2) a(1)] obtain h3 where
        h3: "heap_take (of_nat n) (of_nat (?a + extent xs)) h = (of_nat (?a + extent xs + 32), h3)"
          "heap_start h3 = heap_start h" "heap_first h3 = heap_first h" "bytes h3 = bytes h"
          "chain (nodes h3) 0 ?a (xs @ (if 128 \<le> sz - n then [(n, True), (sz - n - 32, False)] else [(sz, True)]) @ ys) 0"
        by blast
      have ab: "alloc_blocks defrag n bs = (extent xs, xs @ (if 128 \<le> sz - n then [(n, True), (sz - n - 32, False)] else [(sz, True)]) @ ys)"
        using fit b by (simp add: alloc_blocks_def xs_def Let_def)
      have al: "heap_alloc defrag x h = Some (of_nat (?a + extent xs + 32), h3)"
        using ch(1,2) fit fd h3(1) by (simp add: heap_alloc_def wn Let_def del: of_nat_add)
      have "extent (xs @ (if 128 \<le> sz - n then [(n, True), (sz - n - 32, False)] else [(sz, True)]) @ ys) = extent bs"
        using b by (simp add: bsx)
      moreover have "xs @ (if 128 \<le> sz - n then [(n, True), (sz - n - 32, False)] else [(sz, True)]) @ ys \<noteq> []" by simp
      ultimately have "heap_rel defrag h3 (xs @ (if 128 \<le> sz - n then [(n, True), (sz - n - 32, False)] else [(sz, True)]) @ ys)"
        using fit(1) h3 ch(1) a rel unfolding heap_rel_def by (simp del: extent_simps append_is_Nil_conv)
      with al show ?thesis using h3 unfolding ab fst_conv snd_conv by blast
    qed
  qed
qed

lemma chain_mark_free:
  assumes ch: "chain m 0 a (xs @ (sz, u) # ys) 0" and bound: "a + extent (xs @ (sz, u) # ys) < 2 ^ 32"
  defines "A \<equiv> a + extent xs"
  shows "chain (m(of_nat A := (m (of_nat A))\<lparr>hn_used := 0\<rparr>)) 0 a (xs @ (sz, False) # ys) 0" (is "chain ?m' _ _ _ _")
proof -
  have bd: "A + 32 + sz + extent ys < 2 ^ 32" using bound by (simp add: A_def)
  have e: "a + extent xs = A" "A + extent [(sz, u)] = A + 32 + sz" by (simp_all add: A_def)
  have nA: "m (of_nat A) = \<lparr>hn_used = (if u then HEAP_USED_MAGIC else 0), hn_size = of_nat sz,
      hn_prev = of_nat (last_header 0 a xs), hn_next = (if ys = [] then 0 else of_nat (A + 32 + sz))\<rparr>"
    using node_at [OF ch] by (simp add: A_def)
  have agree: "?m' (of_nat i) = m (of_nat i)" if "i < 2 ^ 32" "i \<noteq> A" for i
    using that bd by (simp add: of_nat_inject_u32)
  have Z: "?m' (of_nat (A + 32 + sz)) = (m (of_nat (A + 32 + sz)))\<lparr>hn_prev := of_nat A\<rparr>" if "ys \<noteq> []"
  proof -
    have "?m' (of_nat (A + 32 + sz)) = m (of_nat (A + 32 + sz))" using bd by (intro agree) simp_all
    moreover have "hn_prev (m (of_nat (A + 32 + sz))) = of_nat A" using prev_at [OF ch that] by (simp add: A_def)
    ultimately show ?thesis by simp
  qed
  have "chain ?m' 0 a (xs @ [(sz, False)] @ ys) 0"
  proof (rule chain_replace [of m 0 a xs "[(sz, u)]" ys 0 "[(sz, False)]", unfolded e])
    show "chain ?m' (last_header 0 a xs) A [(sz, False)] (if ys = [] then 0 else of_nat (A + 32 + sz))"
      using nA by simp
    show "?m' (of_nat i) = m (of_nat i)" if "i < A" for i using that bd by (intro agree) simp_all
    show "?m' (of_nat i) = m (of_nat i)" if "A + 32 + sz < i" "i < A + 32 + sz + extent ys" for i
      using that bd by (intro agree) simp_all
    show "?m' (of_nat (A + 32 + sz)) = (m (of_nat (A + 32 + sz)))\<lparr>hn_prev := of_nat (last_header 0 A [(sz, False)])\<rparr>"
      if "ys \<noteq> []" using Z [OF that] by simp
  qed (use ch bound in simp_all)
  then show ?thesis by simp
qed

lemma chain_merge:
  assumes ch: "chain m 0 a (xs @ [(z, False), (sz, False)] @ ys) 0"
    and bound: "a + extent (xs @ [(z, False), (sz, False)] @ ys) < 2 ^ 32"
  defines "P \<equiv> a + extent xs" and "Z \<equiv> a + extent xs + 32 + z + 32 + sz"
  assumes mP: "m' (of_nat P) = (m (of_nat P))\<lparr>hn_size := of_nat (z + 32 + sz), hn_next := (if ys = [] then 0 else of_nat Z)\<rparr>"
    and mZ: "ys \<noteq> [] \<Longrightarrow> m' (of_nat Z) = (m (of_nat Z))\<lparr>hn_prev := of_nat P\<rparr>"
    and oth: "\<And>i. i < 2 ^ 32 \<Longrightarrow> i \<noteq> P \<Longrightarrow> i \<noteq> Z \<Longrightarrow> m' (of_nat i) = m (of_nat i)"
  shows "chain m' 0 a (xs @ (z + 32 + sz, False) # ys) 0"
proof -
  have bd: "Z + extent ys < 2 ^ 32" "P < Z" using bound by (simp_all add: P_def Z_def)
  have e: "a + extent xs = P" "P + extent [(z, False), (sz, False)] = Z" by (simp_all add: P_def Z_def)
  have nP: "m (of_nat P) = \<lparr>hn_used = 0, hn_size = of_nat z, hn_prev = of_nat (last_header 0 a xs),
      hn_next = of_nat (P + 32 + z)\<rparr>"
    using node_at [of m 0 a xs "(z, False)" "(sz, False) # ys" 0] ch by (simp add: P_def)
  have "chain m' 0 a (xs @ [(z + 32 + sz, False)] @ ys) 0"
  proof (rule chain_replace [of m 0 a xs "[(z, False), (sz, False)]" ys 0 "[(z + 32 + sz, False)]", unfolded e])
    show "chain m' (last_header 0 a xs) P [(z + 32 + sz, False)] (if ys = [] then 0 else of_nat Z)"
      using mP nP by simp
    show "m' (of_nat i) = m (of_nat i)" if "i < P" for i using that bd by (intro oth) simp_all
    show "m' (of_nat i) = m (of_nat i)" if "Z < i" "i < Z + extent ys" for i using that bd by (intro oth) simp_all
    show "m' (of_nat Z) = (m (of_nat Z))\<lparr>hn_prev := of_nat (last_header 0 P [(z + 32 + sz, False)])\<rparr>" if "ys \<noteq> []"
      using mZ that by simp
  qed (use ch bound in simp_all)
  then show ?thesis by simp
qed


text \<open>The two merges of \<open>_heap_free\<close> on headers, with the addresses as words.\<close>

definition merge_nodes :: "(u32 \<Rightarrow> hnode_t) \<Rightarrow> u32 \<Rightarrow> u32 \<Rightarrow> u32 \<Rightarrow> hnode_t" where
  "merge_nodes m p n =
     (let nx = hn_next (m n);
          m1 = m(p := (m p)\<lparr>hn_size := hn_size (m p) + (hn_size (m n) + HNODE_SZ), hn_next := nx\<rparr>)
      in if nx \<noteq> 0 then m1(nx := (m nx)\<lparr>hn_prev := p\<rparr>) else m1)"

lemma heap_merge_prev_nodes:
  assumes "hn_prev (nodes h n) = p" "p \<noteq> 0 \<Longrightarrow> p \<noteq> n \<and> hn_next (nodes h n) \<noteq> p \<and> hn_next (nodes h n) \<noteq> n"
  shows "heap_merge_prev n h =
    (if p \<noteq> 0 \<and> hn_used (nodes h p) = 0 then (p, h\<lparr>nodes := merge_nodes (nodes h) p n\<rparr>) else (n, h))"
  using assms by (auto simp: heap_merge_prev_def merge_nodes_def Let_def upd_node_def)

lemma heap_merge_next_nodes:
  assumes "hn_next (nodes h n) = x" "x \<noteq> 0 \<Longrightarrow> x \<noteq> n \<and> hn_next (nodes h x) \<noteq> n \<and> hn_next (nodes h x) \<noteq> x"
  shows "heap_merge_next n h =
    (if x \<noteq> 0 \<and> hn_used (nodes h x) = 0 then h\<lparr>nodes := merge_nodes (nodes h) n x\<rparr> else h)"
  using assms by (auto simp: heap_merge_next_def merge_nodes_def Let_def upd_node_def)

lemma merge_nodes_refines:
  assumes ch: "chain m 0 a (xs @ [(z, False), (sz, False)] @ ys) 0"
    and bound: "a + extent (xs @ [(z, False), (sz, False)] @ ys) < 2 ^ 32" and a: "0 < a"
  defines "P \<equiv> a + extent xs"
  shows "chain (merge_nodes m (of_nat P) (of_nat (P + 32 + z))) 0 a (xs @ (z + 32 + sz, False) # ys) 0"
proof -
  define Z where "Z = P + 32 + z + 32 + sz"
  have bd: "Z + extent ys < 2 ^ 32" "P < Z" "0 < Z" using bound a by (simp_all add: P_def Z_def)
  have nP: "m (of_nat P) = \<lparr>hn_used = 0, hn_size = of_nat z, hn_prev = of_nat (last_header 0 a xs),
      hn_next = of_nat (P + 32 + z)\<rparr>"
    using node_at [of m 0 a xs "(z, False)" "(sz, False) # ys" 0] ch by (simp add: P_def)
  have nN: "m (of_nat (P + 32 + z)) = \<lparr>hn_used = 0, hn_size = of_nat sz, hn_prev = of_nat P,
      hn_next = (if ys = [] then 0 else of_nat Z)\<rparr>"
    using node_at [of m 0 a "xs @ [(z, False)]" "(sz, False)" ys 0] ch by (simp add: P_def Z_def add.assoc)
  have Z0: "(of_nat Z :: u32) \<noteq> 0" using bd by (intro of_nat_nonzero_u32) simp_all
  have ZP: "(of_nat Z :: u32) \<noteq> of_nat P" using bd by (subst of_nat_inject_u32) simp_all
  define m' where "m' = (if ys = [] then m(of_nat P := (m (of_nat P))\<lparr>hn_size := of_nat (z + 32 + sz), hn_next := 0\<rparr>)
    else m(of_nat P := (m (of_nat P))\<lparr>hn_size := of_nat (z + 32 + sz), hn_next := of_nat Z\<rparr>,
           of_nat Z := (m (of_nat Z))\<lparr>hn_prev := of_nat P\<rparr>))"
  have "merge_nodes m (of_nat P) (of_nat (P + 32 + z)) = m'"
    unfolding merge_nodes_def Let_def nN using Z0 nP by (simp add: m'_def HNODE_SZ_def add_ac)
  moreover have "chain m' 0 a (xs @ (z + 32 + sz, False) # ys) 0"
    by (rule chain_merge [OF ch bound, folded P_def, folded Z_def])
      (use ZP bd in \<open>auto simp: m'_def of_nat_inject_u32\<close>)
  ultimately show ?thesis by simp
qed

definition merge_after :: "blocks \<Rightarrow> nat \<Rightarrow> blocks \<Rightarrow> blocks" where
  "merge_after xs sz ys =
     (case ys of [] \<Rightarrow> xs @ [(sz, False)]
      | y # ys' \<Rightarrow> if snd y then xs @ (sz, False) # ys else xs @ (sz + 32 + fst y, False) # ys')"

definition free_blocks :: "bool \<Rightarrow> blocks \<Rightarrow> nat \<Rightarrow> blocks \<Rightarrow> blocks" where
  "free_blocks defrag xs sz ys =
     (if \<not> defrag then xs @ (sz, False) # ys
      else if xs \<noteq> [] \<and> \<not> snd (last xs) then merge_after (butlast xs) (fst (last xs) + 32 + sz) ys
      else merge_after xs sz ys)"

lemma heap_merge_next_refines:
  assumes ch: "chain (nodes h) 0 a (xs @ (sz, False) # ys) 0"
    and bound: "a + extent (xs @ (sz, False) # ys) < 2 ^ 32" and a: "0 < a"
  shows "\<exists>m'. heap_merge_next (of_nat (a + extent xs)) h = h\<lparr>nodes := m'\<rparr> \<and> chain m' 0 a (merge_after xs sz ys) 0"
proof (cases ys)
  case Nil
  then have "hn_next (nodes h (of_nat (a + extent xs))) = 0" using node_at [OF ch] by simp
  then have "heap_merge_next (of_nat (a + extent xs)) h = h\<lparr>nodes := nodes h\<rparr>"
    by (simp add: heap_merge_next_def Let_def)
  then show ?thesis using ch Nil by (intro exI [of _ "nodes h"]) (simp add: merge_after_def)
next
  case (Cons y ys')
  let ?n = "of_nat (a + extent xs) :: u32" and ?x = "of_nat (a + extent xs + 32 + sz) :: u32"
    and ?z = "of_nat (a + extent xs + 32 + sz + 32 + fst y) :: u32"
  have nn: "hn_next (nodes h ?n) = ?x" using node_at [OF ch] Cons by simp
  have nx: "nodes h ?x = \<lparr>hn_used = (if snd y then HEAP_USED_MAGIC else 0), hn_size = of_nat (fst y),
      hn_prev = ?n, hn_next = (if ys' = [] then 0 else ?z)\<rparr>"
    using node_at [of "nodes h" 0 a "xs @ [(sz, False)]" y ys' 0] ch Cons by (simp add: add.assoc)
  have d: "?x \<noteq> ?n" "?z \<noteq> ?n" "?z \<noteq> ?x" using bound Cons by (subst of_nat_inject_u32; simp)+
  have nz: "?n \<noteq> 0" "?x \<noteq> 0" using bound Cons a by (intro of_nat_nonzero_u32; simp)+
  have "heap_merge_next ?n h =
    (if ?x \<noteq> 0 \<and> hn_used (nodes h ?x) = 0 then h\<lparr>nodes := merge_nodes (nodes h) ?n ?x\<rparr> else h)"
    by (rule heap_merge_next_nodes [OF nn]) (use d nz nx in auto)
  then have eq: "heap_merge_next ?n h = (if snd y then h else h\<lparr>nodes := merge_nodes (nodes h) ?n ?x\<rparr>)"
    using nz nx by simp
  show ?thesis
  proof (cases "snd y")
    case True
    then have "heap_merge_next ?n h = h\<lparr>nodes := nodes h\<rparr>" using eq by simp
    then show ?thesis using True ch Cons by (intro exI [of _ "nodes h"]) (simp add: merge_after_def)
  next
    case False
    then have y: "y = (fst y, False)" by (metis prod.collapse)
    have "chain (merge_nodes (nodes h) ?n ?x) 0 a (xs @ (sz + 32 + fst y, False) # ys') 0"
      using merge_nodes_refines [of "nodes h" a xs sz "fst y" ys'] ch bound a Cons y
      by (metis append_Cons append_Nil)
    then show ?thesis using False eq Cons by (auto simp: merge_after_def)
  qed
qed

lemma heap_merge_prev_refines:
  assumes ch: "chain (nodes h) 0 a (xs @ (sz, False) # ys) 0"
    and bound: "a + extent (xs @ (sz, False) # ys) < 2 ^ 32" and a: "0 < a"
  shows "\<exists>m' xs' sz'. heap_merge_prev (of_nat (a + extent xs)) h = (of_nat (a + extent xs'), h\<lparr>nodes := m'\<rparr>) \<and>
    chain m' 0 a (xs' @ (sz', False) # ys) 0 \<and> extent (xs' @ (sz', False) # ys) = extent (xs @ (sz, False) # ys) \<and>
    free_blocks True xs sz ys = merge_after xs' sz' ys"
proof (cases "xs = []")
  case True
  then have "hn_prev (nodes h (of_nat (a + extent xs))) = 0" using node_at [OF ch] by simp
  then have "heap_merge_prev (of_nat (a + extent xs)) h = (of_nat (a + extent xs), h\<lparr>nodes := nodes h\<rparr>)"
    by (simp add: heap_merge_prev_def Let_def)
  then show ?thesis using ch True by (intro exI [of _ "nodes h"] exI [of _ xs] exI [of _ sz]) (simp add: free_blocks_def)
next
  case False
  then obtain ws w where xs: "xs = ws @ [w]" by (metis rev_exhaust)
  let ?p = "of_nat (a + extent ws) :: u32" and ?n = "of_nat (a + extent xs) :: u32"
    and ?z = "of_nat (a + extent xs + 32 + sz) :: u32"
  have nn: "nodes h ?n = \<lparr>hn_used = 0, hn_size = of_nat sz, hn_prev = ?p, hn_next = (if ys = [] then 0 else ?z)\<rparr>"
    using node_at [OF ch] by (simp add: xs)
  have np: "hn_used (nodes h ?p) = (if snd w then HEAP_USED_MAGIC else 0)"
    using node_at [of "nodes h" 0 a ws w "(sz, False) # ys" 0] ch by (simp add: xs)
  have d: "?p \<noteq> ?n" "?z \<noteq> ?p" "?z \<noteq> ?n" using bound by (subst of_nat_inject_u32; simp add: xs)+
  have nz: "?p \<noteq> 0" "?n \<noteq> 0" using bound a by (intro of_nat_nonzero_u32; simp add: xs)+
  have "heap_merge_prev ?n h =
    (if ?p \<noteq> 0 \<and> hn_used (nodes h ?p) = 0 then (?p, h\<lparr>nodes := merge_nodes (nodes h) ?p ?n\<rparr>) else (?n, h))"
    by (rule heap_merge_prev_nodes) (use nn d nz in auto)
  then have eq: "heap_merge_prev ?n h = (if snd w then (?n, h) else (?p, h\<lparr>nodes := merge_nodes (nodes h) ?p ?n\<rparr>))"
    using nz np by simp
  show ?thesis
  proof (cases "snd w")
    case True
    then show ?thesis using eq ch xs
      by (intro exI [of _ "nodes h"] exI [of _ xs] exI [of _ sz]) (simp add: free_blocks_def)
  next
    case False
    then have w: "w = (fst w, False)" by (metis prod.collapse)
    have n: "a + extent xs = a + extent ws + 32 + fst w" by (simp add: xs)
    have "chain (merge_nodes (nodes h) ?p ?n) 0 a (ws @ (fst w + 32 + sz, False) # ys) 0"
      unfolding n using merge_nodes_refines [of "nodes h" a ws "fst w" sz ys] ch bound a w
      by (metis append_Cons append_Nil append_assoc xs)
    then show ?thesis using False eq xs
      by (intro exI [of _ "merge_nodes (nodes h) ?p ?n"] exI [of _ ws] exI [of _ "fst w + 32 + sz"])
        (simp add: free_blocks_def)
  qed
qed

lemma extent_merge_after [simp]: "extent (merge_after xs sz ys) = extent xs + 32 + sz + extent ys"
  by (cases ys) (simp_all add: merge_after_def)

lemma merge_after_nonempty [simp]: "merge_after xs sz ys \<noteq> []"
  by (cases ys) (simp_all add: merge_after_def)

lemma heap_free_refines:
  assumes rel: "heap_rel defrag h (xs @ (sz, True) # ys)"
    and addr: "addr = of_nat (unat (heap_start h) + extent xs + 32)"
  shows "heap_rel defrag (heap_free defrag addr h) (free_blocks defrag xs sz ys) \<and>
    heap_start (heap_free defrag addr h) = heap_start h \<and> bytes (heap_free defrag addr h) = bytes h"
proof -
  let ?a = "unat (heap_start h)" and ?n = "of_nat (unat (heap_start h) + extent xs) :: u32"
  have r: "0 < ?a" "?a + extent (xs @ (sz, True) # ys) < 2 ^ 32" "heap_first h = heap_start h"
    "chain (nodes h) 0 ?a (xs @ (sz, True) # ys) 0"
    "\<not> defrag \<Longrightarrow> heap_last h = of_nat (last_header 0 ?a (xs @ (sz, True) # ys))"
    using rel by (auto simp: heap_rel_def unat_gt_0 word_gt_0)
  have node: "addr - HNODE_SZ = ?n" by (simp add: addr HNODE_SZ_def)
  have own: "\<not> addr < heap_start h"
    using r(2) by (simp add: addr word_less_nat_alt unat_of_nat_u32 del: of_nat_add)
  have used: "hn_used (nodes h ?n) = HEAP_USED_MAGIC" using node_at [OF r(4)] by simp
  define h1 where "h1 = upd_node ?n (\<lambda>n. n\<lparr>hn_used := 0\<rparr>) h"
  have h1: "nodes h1 = (nodes h)(?n := (nodes h ?n)\<lparr>hn_used := 0\<rparr>)" "heap_start h1 = heap_start h"
    "heap_first h1 = heap_first h" "bytes h1 = bytes h" "heap_last h1 = heap_last h" by (simp_all add: h1_def)
  have ch1: "chain (nodes h1) 0 ?a (xs @ (sz, False) # ys) 0"
    unfolding h1(1) by (rule chain_mark_free [OF r(4,2)])
  have eq: "heap_free defrag addr h =
      (if defrag then (case heap_merge_prev ?n h1 of (n, h2) \<Rightarrow> heap_merge_next n h2) else h1)"
    using own used by (simp add: heap_free_def Let_def node h1_def)
  show ?thesis
  proof (cases defrag)
    case False
    have "last_header 0 ?a (xs @ (sz, False) # ys) = last_header 0 ?a (xs @ (sz, True) # ys)"
      by (cases ys rule: rev_cases) (simp_all add: last_header_def butlast_append)
    then show ?thesis using False eq ch1 h1 r rel by (simp add: free_blocks_def heap_rel_def)
  next
    case True
    have b1: "?a + extent (xs @ (sz, False) # ys) < 2 ^ 32" using r(2) by simp
    obtain m2 xs' sz' where mp: "heap_merge_prev ?n h1 = (of_nat (?a + extent xs'), h1\<lparr>nodes := m2\<rparr>)"
      "chain m2 0 ?a (xs' @ (sz', False) # ys) 0" "extent (xs' @ (sz', False) # ys) = extent (xs @ (sz, False) # ys)"
      "free_blocks True xs sz ys = merge_after xs' sz' ys"
      using heap_merge_prev_refines [OF ch1 b1 r(1)] by blast
    obtain m3 where mn: "heap_merge_next (of_nat (?a + extent xs')) (h1\<lparr>nodes := m2\<rparr>) = h1\<lparr>nodes := m3\<rparr>"
      "chain m3 0 ?a (merge_after xs' sz' ys) 0"
      using heap_merge_next_refines [of "h1\<lparr>nodes := m2\<rparr>" ?a xs' sz' ys] mp b1 r(1) by auto
    have "extent (merge_after xs' sz' ys) = extent (xs @ (sz, True) # ys)" using mp(3) by simp
    then have "heap_rel True (h1\<lparr>nodes := m3\<rparr>) (merge_after xs' sz' ys)"
      using mn(2) h1 r rel unfolding heap_rel_def by (simp del: extent_simps extent_merge_after)
    then show ?thesis using True eq mp mn h1 by simp
  qed
qed

end
