(* ===== verification/Heap_Alloc.thy ===== *)
theory Heap_Alloc
  imports Heap
begin

text \<open>
  What the heap promises to its clients: the allocations in use, the contract of an allocator as
  a locale with its interpretation on \<open>malloc\<close> and \<open>free\<close>, and the properties of both builds.
\<close>

subsection \<open>Live allocations\<close>

text \<open>Address and size of the memory of every block in use.\<close>

fun live :: "nat \<Rightarrow> blocks \<Rightarrow> (nat \<times> nat) set" where
  "live a [] = {}"
| "live a (b # bs) = (if snd b then {(a + 32, fst b)} else {}) \<union> live (a + 32 + fst b) bs"

lemma live_append [simp]: "live a (xs @ ys) = live a xs \<union> live (a + extent xs) ys"
  by (induction xs arbitrary: a) (auto simp: add.assoc)

lemma live_bounds: "(p, s) \<in> live a bs \<Longrightarrow> a + 32 \<le> p \<and> p + s \<le> a + extent bs"
  by (induction bs arbitrary: a) (fastforce split: if_splits)+

lemma live_disjoint:
  "(p, s) \<in> live a bs \<Longrightarrow> (q, t) \<in> live a bs \<Longrightarrow> (p, s) \<noteq> (q, t) \<Longrightarrow> p + s + 32 \<le> q \<or> q + t + 32 \<le> p"
proof (induction bs arbitrary: a)
  case (Cons b bs)
  then show ?case
    using live_bounds [of p s "a + 32 + fst b" bs] live_bounds [of q t "a + 32 + fst b" bs]
    by (auto split: if_splits)
qed simp

lemma live_split:
  "(p, s) \<in> live a bs \<Longrightarrow> \<exists>xs ys. bs = xs @ (s, True) # ys \<and> p = a + extent xs + 32"
proof (induction bs arbitrary: a)
  case (Cons b bs)
  show ?case
  proof (cases "snd b \<and> (p, s) = (a + 32, fst b)")
    case True
    then show ?thesis by (intro exI [of _ "[]"] exI [of _ bs]) (cases b, simp)
  next
    case False
    then have "(p, s) \<in> live (a + 32 + fst b) bs" using Cons.prems by (auto split: if_splits)
    then obtain xs ys where "bs = xs @ (s, True) # ys" "p = a + 32 + fst b + extent xs + 32" using Cons.IH by blast
    then show ?thesis by (intro exI [of _ "b # xs"] exI [of _ ys]) simp
  qed
qed simp

lemma alloc_blocks_live:
  obtains sz where "n \<le> sz" "live a (snd (alloc_blocks defrag n bs)) =
    insert (a + fst (alloc_blocks defrag n bs) + 32, sz) (live a bs)"
    "(a + fst (alloc_blocks defrag n bs) + 32, sz) \<notin> live a bs"
proof (cases "if defrag then dropWhile (\<lambda>b. \<not> fits n b) bs else []")
  case Nil
  then have ab: "alloc_blocks defrag n bs = (extent bs, bs @ [(n, True)])" by (simp only: alloc_blocks_def list.case)
  have "(a + extent bs + 32, n) \<notin> live a bs" using live_bounds by fastforce
  then show ?thesis by (intro that [of n]) (simp_all add: ab)
next
  case (Cons b ys)
  define xs where "xs = takeWhile (\<lambda>b. \<not> fits n b) bs"
  have d: "dropWhile (\<lambda>b. \<not> fits n b) bs = b # ys" using Cons by (cases defrag) simp_all
  have bs: "bs = xs @ b # ys" using takeWhile_dropWhile_id [of "\<lambda>b. \<not> fits n b" bs] d by (simp add: xs_def)
  have "fits n b" using d by (metis dropWhile_eq_Cons_conv)
  then have b: "\<not> snd b" "n \<le> fst b" by (simp_all add: fits_def)
  have ab: "alloc_blocks defrag n bs =
      (extent xs, xs @ (if fst b - n \<ge> 128 then [(n, True), (fst b - n - 32, False)] else [(fst b, True)]) @ ys)"
    unfolding alloc_blocks_def Cons by (simp add: xs_def Let_def)
  have out: "(a + extent xs + 32, s) \<notin> live a bs" for s
    using b live_bounds [of "a + extent xs + 32" s a xs] live_bounds [of "a + extent xs + 32" s "a + extent xs + 32 + fst b" ys]
    by (auto simp: bs)
  have lb: "live a bs = live a xs \<union> live (a + extent xs + 32 + fst b) ys" using b by (simp add: bs)
  show ?thesis
  proof (cases "fst b - n \<ge> 128")
    case True
    then show ?thesis using b out
      by (intro that [of n]; unfold ab fst_conv snd_conv lb) (auto simp: lb add_ac)
  next
    case False
    then show ?thesis using b out
      by (intro that [of "fst b"]; unfold ab fst_conv snd_conv lb) (auto simp: lb add_ac)
  qed
qed

lemma live_merge_after: "live a (merge_after xs sz ys) = live a xs \<union> live (a + extent xs + 32 + sz) ys"
  by (cases ys) (auto simp: merge_after_def add.assoc)

lemma free_blocks_live:
  "live a (free_blocks defrag xs sz ys) = live a (xs @ (sz, True) # ys) - {(a + extent xs + 32, sz)}"
proof -
  have "live a (free_blocks defrag xs sz ys) = live a xs \<union> live (a + extent xs + 32 + sz) ys"
    by (cases xs rule: rev_cases) (auto simp: free_blocks_def live_merge_after add.assoc split: if_splits)
  moreover have "(a + extent xs + 32, sz) \<notin> live a xs \<union> live (a + extent xs + 32 + sz) ys"
    using live_bounds [of _ _ a xs] live_bounds [of _ _ "a + extent xs + 32 + sz" ys] by fastforce
  ultimately show ?thesis by auto
qed

subsection \<open>The contract of an allocator\<close>

locale allocator =
  fixes alloc :: "u32 \<Rightarrow> 'h \<Rightarrow> (u32 \<times> 'h) option" and release :: "u32 \<Rightarrow> 'h \<Rightarrow> 'h"
    and rel :: "'h \<Rightarrow> 'b \<Rightarrow> bool" and room :: "u32 \<Rightarrow> 'h \<Rightarrow> 'b \<Rightarrow> bool" and owned :: "'h \<Rightarrow> 'b \<Rightarrow> (nat \<times> nat) set"
  assumes alloc_ok: "rel h b \<Longrightarrow> room x h b \<Longrightarrow>
      \<exists>p sz h' b'. alloc x h = Some (of_nat p, h') \<and> rel h' b' \<and> unat x \<le> sz \<and> 0 < p \<and>
        (p, sz) \<notin> owned h b \<and> owned h' b' = insert (p, sz) (owned h b)"
    and release_ok: "rel h b \<Longrightarrow> (p, sz) \<in> owned h b \<Longrightarrow>
      \<exists>b'. rel (release (of_nat p) h) b' \<and> owned (release (of_nat p) h) b' = owned h b - {(p, sz)}"
    and disjoint: "rel h b \<Longrightarrow> (p, s) \<in> owned h b \<Longrightarrow> (q, t) \<in> owned h b \<Longrightarrow> (p, s) \<noteq> (q, t) \<Longrightarrow>
      p + s \<le> q \<or> q + t \<le> p"
begin

text \<open>A new allocation overlaps nothing that is in use.\<close>

lemma alloc_fresh:
  assumes "rel h b" "room x h b"
  shows "\<exists>p sz h' b'. alloc x h = Some (of_nat p, h') \<and> rel h' b' \<and> unat x \<le> sz \<and> 0 < p \<and>
    owned h' b' = insert (p, sz) (owned h b) \<and> (\<forall>(q, t) \<in> owned h b. p + sz \<le> q \<or> q + t \<le> p)"
proof -
  from alloc_ok [OF assms] obtain p sz h' b' where a: "alloc x h = Some (of_nat p, h')" "rel h' b'" "unat x \<le> sz" "0 < p"
    "(p, sz) \<notin> owned h b" "owned h' b' = insert (p, sz) (owned h b)" by blast
  have "p + sz \<le> q \<or> q + t \<le> p" if "(q, t) \<in> owned h b" for q t
    using disjoint [OF a(2), of p sz q t] a(5,6) that by auto
  then show ?thesis using a by blast
qed

text \<open>Releasing what was just allocated gives the allocations back as they were.\<close>

lemma alloc_release:
  assumes "rel h b" "room x h b"
  shows "\<exists>p h' b'. alloc x h = Some (p, h') \<and> rel (release p h') b' \<and> owned (release p h') b' = owned h b"
proof -
  from alloc_ok [OF assms] obtain p sz h' b' where a: "alloc x h = Some (of_nat p, h')" "rel h' b'"
    "(p, sz) \<notin> owned h b" "owned h' b' = insert (p, sz) (owned h b)" by blast
  from release_ok [OF a(2), of p sz] a(3,4) show ?thesis using a(1) by auto
qed

end

lemma and_not_31: "y AND NOT 31 = push_bit 5 (drop_bit 5 y)" for y :: u32
proof (rule bit_eqI)
  fix k assume "possible_bit TYPE(u32) k"
  have m: "(31 :: u32) = mask 5" by (simp add: mask_numeral)
  show "bit (y AND NOT 31) k = bit (push_bit 5 (drop_bit 5 y)) k"
    unfolding m by (auto simp: bit_simps dest: bit_imp_le_length)
qed

lemma unat_ALIGN_32:
  assumes "unat x \<le> 2 ^ 32 - 32"
  shows "unat (ALIGN x HNODE_SZ) = (unat x + 31) div 32 * 32"
proof -
  have s: "unat (x + 31) = unat x + 31" using assms by (subst unat_plus_no_wrap) simp_all
  have "x + HNODE_SZ - 1 = x + 31" "HNODE_SZ - 1 = 31" by (simp_all add: HNODE_SZ_def)
  then have "ALIGN x HNODE_SZ = push_bit 5 (drop_bit 5 (x + 31))" unfolding ALIGN_def by (simp only: and_not_31)
  also have "unat \<dots> = unat (drop_bit 5 (x + 31)) * 32 mod 2 ^ 32" by (simp add: push_bit_eq_mult unat_word_ariths)
  also have "unat (drop_bit 5 (x + 31)) = (unat x + 31) div 32" using s by (simp add: drop_bit_eq_div unat_div)
  also have "(unat x + 31) div 32 * 32 mod 2 ^ 32 = (unat x + 31) div 32 * 32" using assms by simp
  finally show ?thesis .
qed

lemma unat_le_ALIGN: "unat x \<le> 2 ^ 32 - 32 \<Longrightarrow> unat x \<le> unat (ALIGN x HNODE_SZ)"
  using unat_ALIGN_32 [of x] by simp

text \<open>Room for a request: it does not wrap when aligned, and one more block of it ends below 4 GB.\<close>

definition heap_room :: "u32 \<Rightarrow> heap_t \<Rightarrow> blocks \<Rightarrow> bool" where
  "heap_room x h bs \<longleftrightarrow> unat x \<le> 2 ^ 32 - 32 \<and>
     unat (heap_start h) + extent bs + 32 + unat (ALIGN x HNODE_SZ) < 2 ^ 32"

definition heap_owned :: "heap_t \<Rightarrow> blocks \<Rightarrow> (nat \<times> nat) set" where
  "heap_owned h bs = live (unat (heap_start h)) bs"

interpretation heap: allocator "malloc defrag" "free defrag" "heap_rel defrag" heap_room heap_owned for defrag
proof
  fix h bs x
  assume rel: "heap_rel defrag h bs" and room: "heap_room x h bs"
  let ?n = "unat (ALIGN x HNODE_SZ)" and ?a = "unat (heap_start h)"
  have le: "unat x \<le> ?n" using room unat_le_ALIGN by (simp add: heap_room_def)
  obtain h' where h': "heap_alloc defrag x h = Some (of_nat (?a + fst (alloc_blocks defrag ?n bs) + 32), h')"
    "heap_rel defrag h' (snd (alloc_blocks defrag ?n bs))" "heap_start h' = heap_start h"
    using heap_alloc_refines [OF rel refl] room by (auto simp: heap_room_def)
  obtain sz where "?n \<le> sz" "live ?a (snd (alloc_blocks defrag ?n bs)) =
    insert (?a + fst (alloc_blocks defrag ?n bs) + 32, sz) (live ?a bs)"
    "(?a + fst (alloc_blocks defrag ?n bs) + 32, sz) \<notin> live ?a bs" by (rule alloc_blocks_live)
  then show "\<exists>p sz h' b'. malloc defrag x h = Some (of_nat p, h') \<and> heap_rel defrag h' b' \<and> unat x \<le> sz \<and> 0 < p \<and>
    (p, sz) \<notin> heap_owned h bs \<and> heap_owned h' b' = insert (p, sz) (heap_owned h bs)"
    using h' le unfolding malloc_def heap_owned_def
    by (intro exI [of _ "?a + fst (alloc_blocks defrag ?n bs) + 32"] exI [of _ sz] exI [of _ h']
          exI [of _ "snd (alloc_blocks defrag ?n bs)"]) simp
next
  fix h bs p sz
  assume rel: "heap_rel defrag h bs" and o: "(p, sz) \<in> heap_owned h bs"
  from live_split o obtain xs ys where bs: "bs = xs @ (sz, True) # ys" "p = unat (heap_start h) + extent xs + 32"
    unfolding heap_owned_def by blast
  from heap_free_refines [OF rel [unfolded bs(1)] arg_cong [OF bs(2), of of_nat]]
  show "\<exists>b'. heap_rel defrag (free defrag (of_nat p) h) b' \<and>
    heap_owned (free defrag (of_nat p) h) b' = heap_owned h bs - {(p, sz)}"
    using free_blocks_live [of "unat (heap_start h)" defrag xs sz ys]
    by (intro exI [of _ "free_blocks defrag xs sz ys"]) (simp add: free_def heap_owned_def bs)
next
  fix h bs p s q t
  assume "(p, s) \<in> heap_owned h bs" "(q, t) \<in> heap_owned h bs" "(p, s) \<noteq> (q, t)"
  then show "p + s \<le> q \<or> q + t \<le> p" using live_disjoint by (fastforce simp: heap_owned_def)
qed

text \<open>
  C11. \<open>malloc\<close> on a well formed heap with room returns, in both builds, the address of a block at
  least as large as requested that overlaps no block in use; every block in use stays in use at its
  place, and the heap stays well formed.
\<close>

theorem malloc_fresh:
  assumes "heap_rel defrag h bs" "heap_room x h bs"
  shows "\<exists>p sz h' bs'. malloc defrag x h = Some (of_nat p, h') \<and> heap_rel defrag h' bs' \<and> unat x \<le> sz \<and> 0 < p \<and>
    heap_owned h' bs' = insert (p, sz) (heap_owned h bs) \<and>
    (\<forall>(q, t) \<in> heap_owned h bs. p + sz \<le> q \<or> q + t \<le> p)"
  using assms by (rule heap.alloc_fresh)

text \<open>
  \<open>free\<close> of a block in use releases exactly that block: all others stay in use at their place and
  the heap stays well formed, in both builds.
\<close>

theorem free_releases:
  assumes "heap_rel defrag h bs" "(p, sz) \<in> heap_owned h bs"
  shows "\<exists>bs'. heap_rel defrag (free defrag (of_nat p) h) bs' \<and>
    heap_owned (free defrag (of_nat p) h) bs' = heap_owned h bs - {(p, sz)}"
  using assms by (rule heap.release_ok)

text \<open>Freeing the block \<open>malloc\<close> just returned leaves the same blocks in use as before.\<close>

theorem malloc_free_restores:
  assumes "heap_rel defrag h bs" "heap_room x h bs"
  shows "\<exists>p h' bs'. malloc defrag x h = Some (p, h') \<and> heap_rel defrag (free defrag p h') bs' \<and>
    heap_owned (free defrag p h') bs' = heap_owned h bs"
  using assms by (rule heap.alloc_release)

subsection \<open>No two free blocks side by side\<close>

fun coalesced :: "blocks \<Rightarrow> bool" where
  "coalesced [] \<longleftrightarrow> True"
| "coalesced [b] \<longleftrightarrow> True"
| "coalesced (b # c # bs) \<longleftrightarrow> (snd b \<or> snd c) \<and> coalesced (c # bs)"

lemma coalesced_append:
  "coalesced (xs @ ys) \<longleftrightarrow> coalesced xs \<and> coalesced ys \<and> (xs \<noteq> [] \<longrightarrow> ys \<noteq> [] \<longrightarrow> snd (last xs) \<or> snd (hd ys))"
proof (induction xs rule: coalesced.induct)
  case (2 b)
  then show ?case by (cases ys) auto
qed auto

lemma coalesced_Cons: "coalesced (b # bs) \<longleftrightarrow> coalesced bs \<and> (bs \<noteq> [] \<longrightarrow> snd b \<or> snd (hd bs))"
  by (cases bs) auto

lemma coalesced_alloc: "coalesced bs \<Longrightarrow> coalesced (snd (alloc_blocks True n bs))"
proof (cases "dropWhile (\<lambda>b. \<not> fits n b) bs")
  case Nil
  assume "coalesced bs"
  then show ?thesis using Nil by (simp add: alloc_blocks_def coalesced_append del: dropWhile_eq_Nil_conv)
next
  case (Cons b ys)
  assume c: "coalesced bs"
  define xs where "xs = takeWhile (\<lambda>b. \<not> fits n b) bs"
  have bs: "bs = xs @ b # ys" using takeWhile_dropWhile_id [of "\<lambda>b. \<not> fits n b" bs] Cons by (simp add: xs_def)
  have "fits n b" using Cons by (metis dropWhile_eq_Cons_conv)
  then have "\<not> snd b" by (simp add: fits_def)
  moreover have "snd (alloc_blocks True n bs) =
      xs @ (if fst b - n \<ge> 128 then [(n, True), (fst b - n - 32, False)] else [(fst b, True)]) @ ys"
    by (simp add: alloc_blocks_def Cons Let_def xs_def)
  ultimately show ?thesis using c [unfolded bs] by (auto simp: coalesced_append coalesced_Cons)
qed

lemma coalesced_merge_after:
  "coalesced xs \<Longrightarrow> coalesced ys \<Longrightarrow> (xs \<noteq> [] \<longrightarrow> snd (last xs)) \<Longrightarrow> coalesced (merge_after xs sz ys)"
  by (cases ys) (auto simp: merge_after_def coalesced_append coalesced_Cons)

lemma coalesced_free:
  assumes "coalesced (xs @ (sz, True) # ys)"
  shows "coalesced (free_blocks True xs sz ys)"
proof (cases xs rule: rev_cases)
  case Nil
  then show ?thesis using assms by (simp add: free_blocks_def coalesced_Cons coalesced_merge_after)
next
  case (snoc ws w)
  then show ?thesis using assms
    by (auto simp: free_blocks_def coalesced_append coalesced_Cons intro!: coalesced_merge_after)
qed

text \<open>
  C24. In the build that defragments, \<open>malloc\<close> and \<open>free\<close> refine first fit with splitting and merging
  on the list of blocks, and a heap without two neighbouring free blocks stays so: \<open>free\<close> never
  leaves mergeable fragments behind.
\<close>

theorem heap_defrag_coalesced:
  assumes "heap_rel True h bs" "coalesced bs"
  shows "(heap_room x h bs \<longrightarrow> (\<exists>p h'. malloc True x h = Some (p, h') \<and>
      heap_rel True h' (snd (alloc_blocks True (unat (ALIGN x HNODE_SZ)) bs)) \<and>
      coalesced (snd (alloc_blocks True (unat (ALIGN x HNODE_SZ)) bs)))) \<and>
    (\<forall>xs sz ys. bs = xs @ (sz, True) # ys \<longrightarrow>
      heap_rel True (free True (of_nat (unat (heap_start h) + extent xs + 32)) h) (free_blocks True xs sz ys) \<and>
      coalesced (free_blocks True xs sz ys))"
proof (intro conjI impI allI)
  assume "heap_room x h bs"
  then have "unat (heap_start h) + extent bs + 32 + unat (ALIGN x HNODE_SZ) < 2 ^ 32" by (simp add: heap_room_def)
  from heap_alloc_refines [OF assms(1) refl this] coalesced_alloc [OF assms(2)]
  show "\<exists>p h'. malloc True x h = Some (p, h') \<and>
      heap_rel True h' (snd (alloc_blocks True (unat (ALIGN x HNODE_SZ)) bs)) \<and>
      coalesced (snd (alloc_blocks True (unat (ALIGN x HNODE_SZ)) bs))"
    unfolding malloc_def by blast
next
  fix xs sz ys
  assume bs: "bs = xs @ (sz, True) # ys"
  show "heap_rel True (free True (of_nat (unat (heap_start h) + extent xs + 32)) h) (free_blocks True xs sz ys)"
    using heap_free_refines [OF assms(1) [unfolded bs] refl] by (simp add: free_def)
  show "coalesced (free_blocks True xs sz ys)" using coalesced_free assms(2) bs by blast
qed

subsection \<open>Invalid and repeated frees\<close>

lemma merges_keep_used:
  "hn_used (nodes (heap_merge_next n h) x) = hn_used (nodes h x)"
  "hn_used (nodes (snd (heap_merge_prev n h)) x) = hn_used (nodes h x)"
  by (simp_all add: heap_merge_next_def heap_merge_prev_def Let_def)

lemma heap_start_free [simp]: "heap_start (heap_free defrag addr h) = heap_start h"
  by (simp add: heap_free_def heap_merge_next_def heap_merge_prev_def Let_def)

lemma heap_free_unmarks: "\<not> addr < heap_start h \<Longrightarrow> hn_used (nodes (heap_free defrag addr h) (addr - HNODE_SZ)) \<noteq> HEAP_USED_MAGIC"
  using magic_nonzero by (auto simp: heap_free_def Let_def merges_keep_used split_beta)

text \<open>
  Freeing an address twice in a row is harmless on any heap, well formed or not: the second call
  finds the header unmarked and changes nothing.
\<close>

theorem double_free_ignored: "free defrag addr (free defrag addr h) = free defrag addr h"
proof (cases "addr < heap_start h")
  case True
  then have "heap_free defrag addr h = h" by (simp add: heap_free_def)
  then show ?thesis by (simp add: free_def)
next
  case False
  let ?h = "heap_free defrag addr h"
  have "heap_free defrag addr ?h = ?h"
    using heap_free_unmarks [OF False, of defrag] by (simp add: heap_free_def [of _ _ ?h] Let_def)
  then show ?thesis by (simp add: free_def)
qed

subsection \<open>Cleared allocations\<close>

lemma heap_rel_bytes: "heap_rel defrag (h\<lparr>bytes := b\<rparr>) bs \<longleftrightarrow> heap_rel defrag h bs"
  by (simp add: heap_rel_def)

text \<open>
  \<open>zalloc\<close> returns fresh memory that is all zero over the requested size, and changes no byte of
  any block in use.
\<close>

theorem zalloc_clears:
  assumes "heap_rel defrag h bs" "heap_room x h bs"
  shows "\<exists>p sz h' bs'. zalloc defrag x h = Some (of_nat p, h') \<and> heap_rel defrag h' bs' \<and>
    heap_owned h' bs' = insert (p, sz) (heap_owned h bs) \<and> unat x \<le> sz \<and>
    (\<forall>i < unat x. bytes h' (of_nat (p + i)) = 0) \<and>
    (\<forall>(q, t) \<in> heap_owned h bs. \<forall>i < t. bytes h' (of_nat (q + i)) = bytes h (of_nat (q + i)))"
proof -
  let ?n = "unat (ALIGN x HNODE_SZ)" and ?a = "unat (heap_start h)"
  have room: "?a + extent bs + 32 + ?n < 2 ^ 32" "unat x \<le> 2 ^ 32 - 32" using assms(2) by (simp_all add: heap_room_def)
  have le: "unat x \<le> ?n" using room unat_le_ALIGN by blast
  define p where "p = ?a + fst (alloc_blocks defrag ?n bs) + 32"
  obtain h1 where h1: "heap_alloc defrag x h = Some (of_nat p, h1)"
    "heap_rel defrag h1 (snd (alloc_blocks defrag ?n bs))" "heap_start h1 = heap_start h" "bytes h1 = bytes h"
    using heap_alloc_refines [OF assms(1) refl room(1)] unfolding p_def by blast
  obtain sz where sz: "?n \<le> sz" "live ?a (snd (alloc_blocks defrag ?n bs)) = insert (p, sz) (live ?a bs)"
    "(p, sz) \<notin> live ?a bs" unfolding p_def by (rule alloc_blocks_live)
  define h' where "h' = h1\<lparr>bytes := memset0 (of_nat p) (ALIGN x HNODE_SZ) (bytes h1)\<rparr>"
  have z: "zalloc defrag x h = Some (of_nat p, h')" by (simp add: zalloc_def h1 h'_def)
  have rel: "heap_rel defrag h' (snd (alloc_blocks defrag ?n bs))" using h1(2) by (simp add: heap_rel_bytes h'_def)
  have own: "heap_owned h' (snd (alloc_blocks defrag ?n bs)) = insert (p, sz) (heap_owned h bs)"
    using sz(2) h1(3) by (simp add: heap_owned_def h'_def)
  have pb: "p + sz < 2 ^ 32"
    using live_bounds [of p sz ?a "snd (alloc_blocks defrag ?n bs)"] sz(2) h1(2,3) by (auto simp: heap_rel_def)
  have clear: "bytes h' (of_nat (p + i)) = 0" if "i < unat x" for i
  proof -
    have "(of_nat (p + i) - of_nat p :: u32) = of_nat i" by simp
    moreover have "i < 2 ^ 32" using that le pb sz(1) by simp
    ultimately show ?thesis
      using that le by (simp add: h'_def memset0_def word_less_nat_alt unat_of_nat_u32 del: of_nat_add)
  qed
  have keep: "bytes h' (of_nat (q + i)) = bytes h (of_nat (q + i))" if "(q, t) \<in> live ?a bs" "i < t" for q t i
  proof -
    have b: "q + t \<le> ?a + extent bs" using live_bounds that(1) by blast
    have "(p, sz) \<noteq> (q, t)" using sz(3) that(1) by auto
    then have "q + t \<le> p \<or> p + sz \<le> q"
      using live_disjoint [of p sz ?a "snd (alloc_blocks defrag ?n bs)" q t] sz(2) that(1) by auto
    then have "\<not> (of_nat (q + i) - of_nat p :: u32) < ALIGN x HNODE_SZ"
    proof
      assume "p + sz \<le> q"
      then have "(of_nat (q + i) - of_nat p :: u32) = of_nat (q + i - p)" by (simp add: of_nat_diff)
      then show ?thesis using \<open>p + sz \<le> q\<close> sz(1) b that(2) room
        by (simp add: word_less_nat_alt unat_of_nat_u32 del: of_nat_add of_nat_diff)
    next
      assume "q + t \<le> p"
      then have "unat (of_nat (q + i) - of_nat p :: u32) = 2 ^ 32 - p + (q + i)"
        using that(2) pb by (intro unat_of_nat_minus) simp_all
      then show ?thesis using pb sz(1) by (simp add: word_less_nat_alt del: of_nat_add)
    qed
    then show ?thesis by (simp add: h'_def memset0_def h1 del: of_nat_add)
  qed
  show ?thesis
    using z rel own le sz(1) clear keep
    by (intro exI [of _ p] exI [of _ sz] exI [of _ h'] exI [of _ "snd (alloc_blocks defrag ?n bs)"])
      (auto simp: heap_owned_def simp del: of_nat_add)
qed

subsection \<open>Statistics\<close>

lemma heap_monitor_loop_chain:
  assumes "chain m p a bs 0" "bs \<noteq> []" "a + extent bs < 2 ^ 32" "0 < a"
  shows "heap_monitor_loop m (of_nat a) c mon =
    Some (c + of_nat (length bs), mon\<lparr>mon_nodes_used := mon_nodes_used mon + of_nat (length (filter snd bs)),
      mon_used := mon_used mon + of_nat (extent (filter snd bs)),
      mon_total := mon_total mon + of_nat (extent (filter (\<lambda>b. \<not> snd b) bs))\<rparr>)"
  using assms
proof (induction bs arbitrary: p a c mon)
  case (Cons b bs)
  define mon1 where "mon1 = mon_count (m (of_nat a)) mon"
  have mon1: "mon1 = (if snd b then mon\<lparr>mon_nodes_used := mon_nodes_used mon + 1,
        mon_used := mon_used mon + of_nat (32 + fst b)\<rparr> else mon\<lparr>mon_total := mon_total mon + of_nat (32 + fst b)\<rparr>)"
    using Cons.prems(1) by (simp add: mon1_def mon_count_def HNODE_SZ_def add_ac)
  show ?case
  proof (cases "bs = []")
    case True
    then have "heap_monitor_loop m (of_nat a) c mon = Some (c + 1, mon1)"
      using Cons.prems(1) by (subst heap_monitor_loop.simps) (simp add: mon1_def Let_def)
    then show ?thesis using True by (simp add: mon1)
  next
    case False
    have nx: "hn_next (m (of_nat a)) = of_nat (a + 32 + fst b)" using Cons.prems(1) False by simp
    have nz: "(of_nat (a + 32 + fst b) :: u32) \<noteq> 0" using Cons.prems by (intro of_nat_nonzero_u32) simp_all
    have "heap_monitor_loop m (of_nat a) c mon = heap_monitor_loop m (of_nat (a + 32 + fst b)) (c + 1) mon1"
      by (subst heap_monitor_loop.simps) (simp only: nx nz mon1_def Let_def not_False_eq_True if_True)
    also have "\<dots> = Some (c + 1 + of_nat (length bs), mon1\<lparr>mon_nodes_used := mon_nodes_used mon1 + of_nat (length (filter snd bs)),
      mon_used := mon_used mon1 + of_nat (extent (filter snd bs)),
      mon_total := mon_total mon1 + of_nat (extent (filter (\<lambda>b. \<not> snd b) bs))\<rparr>)"
      using Cons.prems False by (intro Cons.IH [of a]) simp_all
    finally show ?thesis by (cases "snd b") (simp_all add: mon1 add_ac)
  qed
qed simp

text \<open>
  The statistics of a well formed, non-empty heap are exact: \<open>heap_monitor\<close> returns the size of all
  blocks and of those in use, headers included, and counts them.
\<close>

theorem heap_monitor_exact:
  assumes "heap_rel defrag h bs" "bs \<noteq> []"
  shows "heap_monitor h = Some \<lparr>mon_total = of_nat (extent bs), mon_used = of_nat (extent (filter snd bs)),
    mon_nodes_total = of_nat (length bs), mon_nodes_used = of_nat (length (filter snd bs))\<rparr>"
proof -
  have r: "heap_first h = of_nat (unat (heap_start h))" "chain (nodes h) 0 (unat (heap_start h)) bs 0"
    "unat (heap_start h) + extent bs < 2 ^ 32" "0 < unat (heap_start h)"
    using assms by (auto simp: heap_rel_def unat_gt_0 word_gt_0)
  have "extent bs = extent (filter snd bs) + extent (filter (\<lambda>b. \<not> snd b) bs)" by (induction bs) auto
  then have "(of_nat (extent bs) :: u32) = of_nat (extent (filter snd bs)) + of_nat (extent (filter (\<lambda>b. \<not> snd b) bs))"
    by simp
  then show ?thesis
    unfolding heap_monitor_def r(1) heap_monitor_loop_chain [OF r(2) assms(2) r(3,4)] by (simp add: add_ac)
qed

subsection \<open>A concrete heap\<close>

definition demo_heap :: heap_t where
  "demo_heap = heap_init 0x90020000 \<lparr>heap_start = 0, heap_first = 0, heap_last = 0,
     nodes = (\<lambda>_. \<lparr>hn_used = 0, hn_size = 0, hn_prev = 0, hn_next = 0\<rparr>), bytes = (\<lambda>_. 0xAA)\<rparr>"

definition demo_heap1 :: heap_t where
  "demo_heap1 = (case malloc True 100 demo_heap of None \<Rightarrow> demo_heap | Some (_, h) \<Rightarrow> h)"

lemmas demo_heap_defs = demo_heap_def heap_init_def heap_create_def HNODE_SZ_def ALIGN_def

lemma demo_heap_rel: "heap_rel defrag demo_heap []" "heap_room 100 demo_heap []"
  by (simp_all add: heap_rel_def heap_room_def demo_heap_defs)

lemma demo_heap1_rel: "heap_rel True demo_heap1 [(128, True)]" "heap_room 100 demo_heap1 [(128, True)]"
  "heap_owned demo_heap1 [(128, True)] = {(0x90020020, 128)}" "heap_start demo_heap1 = 0x90020000"
  by (simp_all add: demo_heap1_def malloc_def heap_alloc_def Let_def upd_node_def heap_rel_def heap_room_def
    heap_owned_def demo_heap_defs)

theorem malloc_fresh_witness: "\<exists>p sz h'. malloc False 100 demo_heap = Some (of_nat p, h') \<and> (100 :: nat) \<le> sz \<and> 0 < p"
proof -
  have "unat (100 :: u32) = 100" by simp
  then show ?thesis using malloc_fresh [OF demo_heap_rel, of False] by metis
qed

theorem free_releases_witness:
  "\<exists>bs'. heap_rel True (free True (of_nat 0x90020020) demo_heap1) bs' \<and>
     heap_owned (free True (of_nat 0x90020020) demo_heap1) bs' = {}"
proof -
  have "(0x90020020, 128) \<in> heap_owned demo_heap1 [(128, True)]" by (simp add: demo_heap1_rel(3))
  from free_releases [OF demo_heap1_rel(1) this] show ?thesis by (simp only: demo_heap1_rel(3) Diff_cancel)
qed

theorem malloc_free_restores_witness:
  "\<exists>p h' bs'. malloc True 100 demo_heap1 = Some (p, h') \<and> heap_owned (free True p h') bs' = {(0x90020020, 128)}"
  using malloc_free_restores [OF demo_heap1_rel(1,2)] unfolding demo_heap1_rel(3) by blast

theorem heap_defrag_coalesced_witness:
  "coalesced (snd (alloc_blocks True (unat (ALIGN 100 HNODE_SZ)) [(128, True)])) \<and>
   heap_rel True (free True (of_nat (unat (heap_start demo_heap1) + extent [] + 32)) demo_heap1) (free_blocks True [] 128 [])"
proof -
  have c: "coalesced [(128, True)]" by simp
  show ?thesis using heap_defrag_coalesced [OF demo_heap1_rel(1) c, of 100] demo_heap1_rel(2) by blast
qed

theorem zalloc_clears_witness:
  "\<exists>p h'. zalloc True 100 demo_heap1 = Some (of_nat p, h') \<and> (\<forall>i < 100. bytes h' (of_nat (p + i)) = 0)"
proof -
  have "unat (100 :: u32) = 100" by simp
  then show ?thesis using zalloc_clears [OF demo_heap1_rel(1,2)] by metis
qed

theorem heap_monitor_exact_witness:
  "heap_monitor demo_heap1 = Some \<lparr>mon_total = 160, mon_used = 160, mon_nodes_total = 1, mon_nodes_used = 1\<rparr>"
  using heap_monitor_exact [OF demo_heap1_rel(1)] by simp

end
