(* ===== verification/Rtc.thy ===== *)
theory Rtc
  imports Prelude
begin

text \<open>
  The real time clock, \<open>bdk/rtc/max77620-rtc.c\<close>: reading the clock's registers, converting
  between epoch seconds and calendar dates in 32 bit arithmetic, the time adjusted by the
  configured offset, and the reboot reason kept in the alarm registers. The clock chip on the
  I2C bus is a parameter: what a register read or write does to the chip.
\<close>

subsection \<open>Data\<close>

definition MAX77620_RTC_NR_TIME_REGS :: nat where "MAX77620_RTC_NR_TIME_REGS = 7"
definition MAX77620_RTC_CONTROL_REG :: u8 where "MAX77620_RTC_CONTROL_REG = 0x03"
definition MAX77620_RTC_24H :: u8 where "MAX77620_RTC_24H = 2"
definition MAX77620_RTC_UPDATE0_REG :: u8 where "MAX77620_RTC_UPDATE0_REG = 0x04"
definition MAX77620_RTC_WRITE_UPDATE :: u8 where "MAX77620_RTC_WRITE_UPDATE = 1"
definition MAX77620_RTC_READ_UPDATE :: u8 where "MAX77620_RTC_READ_UPDATE = 16"
definition MAX77620_RTC_SEC_REG :: u8 where "MAX77620_RTC_SEC_REG = 0x07"
definition MAX77620_RTC_MIN_REG :: u8 where "MAX77620_RTC_MIN_REG = 0x08"
definition MAX77620_RTC_HOUR_REG :: u8 where "MAX77620_RTC_HOUR_REG = 0x09"
definition MAX77620_RTC_HOUR_PM_MASK :: u8 where "MAX77620_RTC_HOUR_PM_MASK = 64"
definition MAX77620_RTC_WEEKDAY_REG :: u8 where "MAX77620_RTC_WEEKDAY_REG = 0x0A"
definition MAX77620_RTC_MONTH_REG :: u8 where "MAX77620_RTC_MONTH_REG = 0x0B"
definition MAX77620_RTC_YEAR_REG :: u8 where "MAX77620_RTC_YEAR_REG = 0x0C"
definition MAX77620_RTC_DAY_REG :: u8 where "MAX77620_RTC_DAY_REG = 0x0D"
definition MAX77620_ALARM1_SEC_REG :: u8 where "MAX77620_ALARM1_SEC_REG = 0x0E"
definition MAX77620_ALARM1_WEEKDAY_REG :: u8 where "MAX77620_ALARM1_WEEKDAY_REG = 0x11"
definition MAX77620_ALARM1_YEAR_REG :: u8 where "MAX77620_ALARM1_YEAR_REG = 0x13"
definition MAX77620_ALARM2_WEEKDAY_REG :: u8 where "MAX77620_ALARM2_WEEKDAY_REG = 0x18"
definition MAX77620_ALARM2_YEAR_REG :: u8 where "MAX77620_ALARM2_YEAR_REG = 0x1A"
definition MAX77620_RTC_ALARM_EN_MASK :: u8 where "MAX77620_RTC_ALARM_EN_MASK = 128"
definition RTC_REBOOT_REASON_MAGIC :: u8 where "RTC_REBOOT_REASON_MAGIC = 0x77"

lemmas rtc_reg_defs =
  MAX77620_RTC_NR_TIME_REGS_def MAX77620_RTC_CONTROL_REG_def MAX77620_RTC_24H_def MAX77620_RTC_UPDATE0_REG_def
  MAX77620_RTC_WRITE_UPDATE_def MAX77620_RTC_READ_UPDATE_def MAX77620_RTC_SEC_REG_def MAX77620_RTC_MIN_REG_def
  MAX77620_RTC_HOUR_REG_def MAX77620_RTC_HOUR_PM_MASK_def MAX77620_RTC_WEEKDAY_REG_def MAX77620_RTC_MONTH_REG_def
  MAX77620_RTC_YEAR_REG_def MAX77620_RTC_DAY_REG_def MAX77620_ALARM1_SEC_REG_def MAX77620_ALARM1_WEEKDAY_REG_def
  MAX77620_ALARM1_YEAR_REG_def MAX77620_ALARM2_WEEKDAY_REG_def MAX77620_ALARM2_YEAR_REG_def
  MAX77620_RTC_ALARM_EN_MASK_def RTC_REBOOT_REASON_MAGIC_def

record rtc_time_t =
  rt_weekday :: u8
  rt_sec :: u8
  rt_min :: u8
  rt_hour :: u8
  rt_day :: u8
  rt_month :: u8
  rt_year :: u16

text \<open>The two views of the reboot reason; the union overlays them on the low 12 bits of a \<open>u16\<close>.\<close>

record rtc_rr_decoded_t =
  rr_reason :: u16
  rr_autoboot_idx :: u16
  rr_autoboot_list :: u16
  rr_ums_idx :: u16

definition rr_decode :: "u16 \<Rightarrow> rtc_rr_decoded_t" where
  "rr_decode v = \<lparr>rr_reason = v AND 0xF, rr_autoboot_idx = drop_bit 4 v AND 0xF, rr_autoboot_list = drop_bit 8 v AND 1,
     rr_ums_idx = drop_bit 9 v AND 7\<rparr>"

definition rr_encode :: "rtc_rr_decoded_t \<Rightarrow> u16" where
  "rr_encode d = (rr_reason d AND 0xF) OR push_bit 4 (rr_autoboot_idx d AND 0xF) OR
     push_bit 8 (rr_autoboot_list d AND 1) OR push_bit 9 (rr_ums_idx d AND 7)"

definition rr_val1 :: "u16 \<Rightarrow> u8" where "rr_val1 v = ucast (v AND 0x3F)"
definition rr_val2 :: "u16 \<Rightarrow> u8" where "rr_val2 v = ucast (drop_bit 6 v AND 0x3F)"

definition rr_set_val1 :: "u8 \<Rightarrow> u16 \<Rightarrow> u16" where
  "rr_set_val1 x v = (v AND NOT 0x3F) OR (ucast x AND 0x3F)"

definition rr_set_val2 :: "u8 \<Rightarrow> u16 \<Rightarrow> u16" where
  "rr_set_val2 x v = (v AND NOT 0xFC0) OR push_bit 6 (ucast x AND 0x3F)"

text \<open>Register access on the bus and the module's two configuration variables.\<close>

record 'w rtc_env =
  i2c_send_byte :: "u8 \<Rightarrow> u8 \<Rightarrow> 'w \<Rightarrow> 'w"
  i2c_recv_byte :: "u8 \<Rightarrow> 'w \<Rightarrow> u8 \<times> 'w"

record rtc_cfg =
  auto_dst :: bool
  epoch_offset :: int

subsection \<open>Reading the clock\<close>

definition max77620_rtc_prep_read :: "'w rtc_env \<Rightarrow> 'w \<Rightarrow> 'w" where
  "max77620_rtc_prep_read env w = i2c_send_byte env MAX77620_RTC_UPDATE0_REG MAX77620_RTC_READ_UPDATE w"

text \<open>The number of the lowest set bit, counted from 1; 8 when none of the seven bits is set.\<close>

fun weekday_loop :: "nat \<Rightarrow> u8 \<Rightarrow> u8 \<Rightarrow> u8" where
  "weekday_loop 0 val wd = wd"
| "weekday_loop (Suc n) val wd =
     (if val AND 1 \<noteq> 0 then wd + 1 else weekday_loop n (drop_bit 1 val) (wd + 1))"

definition rtc_hour :: "u8 \<Rightarrow> u8 \<Rightarrow> u8" where
  "rtc_hour control raw =
     (let hour = raw AND 0x1F
      in if control AND MAX77620_RTC_24H = 0
         then (if hour AND MAX77620_RTC_HOUR_PM_MASK \<noteq> 0 then (hour AND 0xF) + 12 else hour AND 0xF)
         else hour AND 0x1F)"

definition max77620_rtc_get_time :: "'w rtc_env \<Rightarrow> 'w \<Rightarrow> rtc_time_t \<times> 'w" where
  "max77620_rtc_get_time env w0 =
     (let w1 = i2c_send_byte env MAX77620_RTC_UPDATE0_REG MAX77620_RTC_READ_UPDATE w0;
          (control, w2) = i2c_recv_byte env MAX77620_RTC_CONTROL_REG w1;
          (sec, w3) = i2c_recv_byte env MAX77620_RTC_SEC_REG w2;
          (mi, w4) = i2c_recv_byte env MAX77620_RTC_MIN_REG w3;
          (hour, w5) = i2c_recv_byte env MAX77620_RTC_HOUR_REG w4;
          (wd, w6) = i2c_recv_byte env MAX77620_RTC_WEEKDAY_REG w5;
          (day, w7) = i2c_recv_byte env MAX77620_RTC_DAY_REG w6;
          (month, w8) = i2c_recv_byte env MAX77620_RTC_MONTH_REG w7;
          (year, w9) = i2c_recv_byte env MAX77620_RTC_YEAR_REG w8
      in (\<lparr>rt_weekday = weekday_loop 8 (wd AND 0x7F) 0, rt_sec = sec AND 0x7F, rt_min = mi AND 0x7F,
           rt_hour = rtc_hour control hour, rt_day = day AND 0x1F, rt_month = ((month AND 0xF) - 1) + 1,
           rt_year = ucast (year AND 0x7F) + 2000\<rparr>, w9))"

primrec stop_alarm_loop :: "'w rtc_env \<Rightarrow> nat \<Rightarrow> u8 \<Rightarrow> 'w \<Rightarrow> 'w" where
  "stop_alarm_loop env 0 reg w = w"
| "stop_alarm_loop env (Suc n) reg w =
     (let (val, w1) = i2c_recv_byte env reg w
      in stop_alarm_loop env n (reg + 1) (i2c_send_byte env reg (val AND NOT MAX77620_RTC_ALARM_EN_MASK) w1))"

definition max77620_rtc_stop_alarm :: "'w rtc_env \<Rightarrow> 'w \<Rightarrow> 'w" where
  "max77620_rtc_stop_alarm env w =
     (let w1 = i2c_send_byte env MAX77620_RTC_UPDATE0_REG MAX77620_RTC_READ_UPDATE w;
          w2 = stop_alarm_loop env (MAX77620_RTC_NR_TIME_REGS * 2) MAX77620_ALARM1_SEC_REG w1
      in i2c_send_byte env MAX77620_RTC_UPDATE0_REG MAX77620_RTC_WRITE_UPDATE w2)"

subsection \<open>Epoch and calendar\<close>

text \<open>The date part of \<open>max77620_rtc_epoch_to_date\<close>: year, month and day of a day number.\<close>

definition rtc_civil :: "u32 \<Rightarrow> u32 \<times> u32 \<times> u32" where
  "rtc_civil epoch =
     (let tmp1 = ucast ((4 * (ucast epoch :: u64) + 102032) div 146097 + 15) :: u32;
          tmp = ucast ((ucast epoch :: u64) + 2442113 + ucast tmp1 - ucast (drop_bit 2 tmp1)) :: u32;
          year = (20 * tmp - 2442) div 7305;
          edays = tmp - 365 * year - drop_bit 2 year;
          month = edays * 1000 div 30601;
          day = edays - month * 30 - month * 601 div 1000
      in if month < 14 then (year - 4716, month - 1, day) else (year - 4715, month - 13, day))"

definition max77620_rtc_epoch_to_date :: "u32 \<Rightarrow> rtc_time_t" where
  "max77620_rtc_epoch_to_date epoch =
     (let sec = epoch mod 60; e1 = epoch div 60;
          mi = e1 mod 60; e2 = e1 div 60;
          hour = e2 mod 24; e3 = e2 div 24;
          (year, month, day) = rtc_civil e3
      in \<lparr>rt_weekday = ucast ((day + 4) mod 7), rt_sec = ucast sec, rt_min = ucast mi, rt_hour = ucast hour,
          rt_day = ucast day, rt_month = ucast month, rt_year = ucast year\<rparr>)"

definition rtc_days :: "u32 \<Rightarrow> u32 \<Rightarrow> u32 \<Rightarrow> u32" where
  "rtc_days year0 month0 day =
     (let (year, month) = (if month0 < 3 then (year0 - 1, month0 + 12) else (year0, month0));
          epoch1 = 365 * year + drop_bit 2 year - year div 100 + year div 400;
          epoch2 = epoch1 + (30 * month + 3 * (month + 1) div 5 + day)
      in epoch2 - 719561)"

definition max77620_rtc_date_to_epoch :: "rtc_time_t \<Rightarrow> u32" where
  "max77620_rtc_date_to_epoch time =
     rtc_days (ucast (rt_year time)) (ucast (rt_month time)) (ucast (rt_day time)) * 86400 +
     (3600 * ucast (rt_hour time) + 60 * ucast (rt_min time) + ucast (rt_sec time))"

definition max77620_rtc_get_time_adjusted :: "'w rtc_env \<Rightarrow> rtc_cfg \<Rightarrow> 'w \<Rightarrow> rtc_time_t \<times> 'w" where
  "max77620_rtc_get_time_adjusted env cfg w =
     (let (time, w1) = max77620_rtc_get_time env w
      in if epoch_offset cfg \<noteq> 0
         then let epoch = max77620_rtc_date_to_epoch time + of_int (epoch_offset cfg);
                  md = push_bit 8 (ucast (rt_month time)) OR ucast (rt_day time) :: u16;
                  epoch' = (if auto_dst cfg \<and> md \<ge> 0x31C \<and> md < 0xA1C then epoch + 3600 else epoch)
              in (max77620_rtc_epoch_to_date epoch', w1)
         else (time, w1))"

definition max77620_rtc_set_auto_dst :: "bool \<Rightarrow> rtc_cfg \<Rightarrow> rtc_cfg" where
  "max77620_rtc_set_auto_dst enable cfg = cfg\<lparr>auto_dst := enable\<rparr>"

definition max77620_rtc_set_epoch_offset :: "int \<Rightarrow> rtc_cfg \<Rightarrow> rtc_cfg" where
  "max77620_rtc_set_epoch_offset off cfg = cfg\<lparr>epoch_offset := off\<rparr>"

subsection \<open>Reboot reason\<close>

definition max77620_rtc_set_reboot_reason :: "'w rtc_env \<Rightarrow> u16 \<Rightarrow> 'w \<Rightarrow> 'w" where
  "max77620_rtc_set_reboot_reason env rr w =
     (let w1 = max77620_rtc_stop_alarm env w;
          w2 = i2c_send_byte env MAX77620_ALARM1_YEAR_REG (rr_val1 rr) w1;
          w3 = i2c_send_byte env MAX77620_ALARM2_YEAR_REG (rr_val2 rr) w2;
          w4 = i2c_send_byte env MAX77620_ALARM1_WEEKDAY_REG RTC_REBOOT_REASON_MAGIC w3;
          w5 = i2c_send_byte env MAX77620_ALARM2_WEEKDAY_REG RTC_REBOOT_REASON_MAGIC w4
      in i2c_send_byte env MAX77620_RTC_UPDATE0_REG MAX77620_RTC_WRITE_UPDATE w5)"

text \<open>The result, the updated reason and the chip.\<close>

definition max77620_rtc_get_reboot_reason :: "'w rtc_env \<Rightarrow> u16 \<Rightarrow> 'w \<Rightarrow> bool \<times> u16 \<times> 'w" where
  "max77620_rtc_get_reboot_reason env rr w =
     (let (magic0, w1) = i2c_recv_byte env MAX77620_ALARM1_WEEKDAY_REG w;
          (magic1, w2) = i2c_recv_byte env MAX77620_ALARM2_WEEKDAY_REG w1
      in if magic0 \<noteq> RTC_REBOOT_REASON_MAGIC \<or> magic0 \<noteq> magic1 then (False, rr, w2)
         else let (v1, w3) = i2c_recv_byte env MAX77620_ALARM1_YEAR_REG w2;
                  rr1 = rr_set_val1 v1 rr;
                  (v2, w4) = i2c_recv_byte env MAX77620_ALARM2_YEAR_REG w3;
                  rr2 = rr_set_val2 v2 rr1;
                  w5 = i2c_send_byte env MAX77620_ALARM1_WEEKDAY_REG 0 w4;
                  w6 = i2c_send_byte env MAX77620_ALARM2_WEEKDAY_REG 0 w5
              in (True, rr2, i2c_send_byte env MAX77620_RTC_UPDATE0_REG MAX77620_RTC_WRITE_UPDATE w6))"

end
