(* ===== verification/Rtc_Date.thy ===== *)
theory Rtc_Date
  imports Rtc
begin

text \<open>
  The calendar conversions of \<open>max77620-rtc.c\<close>. The 32 bit formulas are first read over
  the natural numbers, for every day number a 32 bit epoch can give, then compared with the
  Gregorian calendar; the reboot reason is followed through the alarm registers.
\<close>

subsection \<open>The calendar over the natural numbers\<close>

definition civil_tmp :: "nat \<Rightarrow> nat" where
  "civil_tmp n = (let t = (4 * n + 102032) div 146097 + 15 in n + 2442113 + t - t div 4)"

definition civil_year :: "nat \<Rightarrow> nat" where "civil_year t = (20 * t - 2442) div 7305"
definition civil_edays :: "nat \<Rightarrow> nat" where "civil_edays t = t - 365 * civil_year t - civil_year t div 4"
definition civil_month :: "nat \<Rightarrow> nat" where "civil_month t = civil_edays t * 1000 div 30601"
definition civil_day :: "nat \<Rightarrow> nat" where
  "civil_day t = civil_edays t - civil_month t * 30 - civil_month t * 601 div 1000"

text \<open>Century steps on 1 March 2000 and 1 March 2100.\<close>

lemma civil_tmp_cases:
  assumes "n \<le> 49710"
  obtains "n < 11017" "civil_tmp n = n + 2442125" | "11017 \<le> n" "n < 47541" "civil_tmp n = n + 2442125"
    | "47541 \<le> n" "civil_tmp n = n + 2442126"
proof -
  consider "n < 11017" | "11017 \<le> n" "n < 47541" | "47541 \<le> n" by linarith
  then show ?thesis
  proof cases
    case 1
    then have "(4 * n + 102032) div 146097 = 0" by simp
    with 1 show ?thesis using that(1) by (simp add: civil_tmp_def)
  next
    case 2
    then have "(4 * n + 102032) div 146097 = 1" by (intro div_nat_eqI) simp_all
    with 2 show ?thesis using that(2) by (simp add: civil_tmp_def)
  next
    case 3
    then have "(4 * n + 102032) div 146097 = 2" using assms by (intro div_nat_eqI) simp_all
    with 3 show ?thesis using that(3) by (simp add: civil_tmp_def)
  qed
qed

lemma civil_year_bounds:
  "2442 \<le> 20 * t \<Longrightarrow> 7305 * civil_year t + 2442 \<le> 20 * t \<and> 20 * t < 7305 * civil_year t + 2442 + 7305"
  using div_mult_mod_eq [of "20 * t - 2442" 7305] mod_less_divisor [of 7305 "20 * t - 2442"]
  unfolding civil_year_def by linarith

lemma civil_edays_bounds:
  assumes "2442 \<le> 20 * t"
  shows "365 * civil_year t + civil_year t div 4 + civil_edays t = t" "123 \<le> civil_edays t" "civil_edays t \<le> 488"
  using civil_year_bounds [OF assms] div_mult_mod_eq [of "civil_year t" 4] mod_less_divisor [of 4 "civil_year t"]
  unfolding civil_edays_def by linarith+

lemma civil_month_bounds:
  assumes "2442 \<le> 20 * t"
  shows "4 \<le> civil_month t" "civil_month t \<le> 15"
  using civil_edays_bounds [OF assms] unfolding civil_month_def by (simp_all add: less_eq_div_iff_mult_less_eq div_le_mono [THEN order_trans])

lemma of_nat_div_u32: "a < 2 ^ 32 \<Longrightarrow> b < 2 ^ 32 \<Longrightarrow> (of_nat a :: u32) div of_nat b = of_nat (a div b)"
  by (rule word_unat_eq_iff [THEN iffD2]) (simp add: unat_div unat_of_nat_u32 div_le_dividend [THEN le_less_trans])

lemma of_nat_div_u64: "a < 2 ^ 64 \<Longrightarrow> b < 2 ^ 64 \<Longrightarrow> (of_nat a :: u64) div of_nat b = of_nat (a div b)"
  by (rule word_unat_eq_iff [THEN iffD2]) (simp add: unat_div unat_of_nat take_bit_nat_eq_self div_le_dividend [THEN le_less_trans])

lemma ucast_of_nat_32_64: "a < 2 ^ 32 \<Longrightarrow> (ucast (of_nat a :: u32) :: u64) = of_nat a"
  by (rule word_unat_eq_iff [THEN iffD2]) (simp add: unsigned_ucast_eq unat_of_nat take_bit_nat_eq_self)

lemma ucast_of_nat_64_32: "a < 2 ^ 32 \<Longrightarrow> (ucast (of_nat a :: u64) :: u32) = of_nat a"
  by (rule word_unat_eq_iff [THEN iffD2]) (simp add: unsigned_ucast_eq unat_of_nat take_bit_nat_eq_self)

lemma drop_2_of_nat_u32: "a < 2 ^ 32 \<Longrightarrow> drop_bit 2 (of_nat a :: u32) = of_nat (a div 4)"
  using of_nat_div_u32 [of a 4] by (simp add: drop_bit_eq_div)

lemma civil_day_sum: "civil_month t * 30 + civil_month t * 601 div 1000 + civil_day t = civil_edays t"
proof -
  have "civil_month t * 30601 \<le> civil_edays t * 1000" by (simp add: civil_month_def)
  moreover have "civil_month t * 601 div 1000 * 1000 \<le> civil_month t * 601" by simp
  ultimately have "civil_month t * 30 + civil_month t * 601 div 1000 \<le> civil_edays t" by linarith
  then show ?thesis by (simp add: civil_day_def)
qed

lemma rtc_civil_nat:
  assumes "n \<le> 49710"
  defines "t \<equiv> civil_tmp n"
  shows "rtc_civil (of_nat n) =
    (if civil_month t < 14 then (of_nat (civil_year t - 4716), of_nat (civil_month t - 1), of_nat (civil_day t))
     else (of_nat (civil_year t - 4715), of_nat (civil_month t - 13), of_nat (civil_day t)))"
proof -
  define c where "c = (4 * n + 102032) div 146097 + 15"
  have c: "c \<le> 20" using assms(1) by (simp add: c_def)
  have tc: "t = n + 2442113 + c - c div 4" by (simp add: t_def civil_tmp_def c_def)
  have tb: "2442125 \<le> t" "t \<le> 2491836" unfolding t_def by (rule civil_tmp_cases [OF assms(1)], use assms(1) in simp_all)+
  have t20: "2442 \<le> 20 * t" using tb by simp
  note yb = civil_year_bounds [OF t20] and eb = civil_edays_bounds [OF t20] and mb = civil_month_bounds [OF t20]
  have y: "6685 \<le> civil_year t" "civil_year t \<le> 6900" using yb tb by linarith+
  have db: "civil_month t * 30 + civil_month t * 601 div 1000 + civil_day t = civil_edays t" by (rule civil_day_sum)
  have w1: "(4 * (ucast (of_nat n :: u32) :: u64) + 102032) div 146097 + 15 = of_nat c"
  proof -
    have "4 * (ucast (of_nat n :: u32) :: u64) + 102032 = of_nat (4 * n + 102032)" using assms(1) by (simp add: ucast_of_nat_32_64)
    then show ?thesis using of_nat_div_u64 [of "4 * n + 102032" 146097] assms(1) by (simp add: c_def)
  qed
  have w2: "(ucast (of_nat n :: u32) :: u64) + 2442113 + ucast (of_nat c :: u32) - ucast (of_nat (c div 4) :: u32) = of_nat t"
    using assms(1) c by (simp add: ucast_of_nat_32_64 tc of_nat_diff)
  have w3: "(20 * (of_nat t :: u32) - 2442) div 7305 = of_nat (civil_year t)"
    using of_nat_div_u32 [of "20 * t - 2442" 7305] tb by (simp add: civil_year_def of_nat_diff)
  have w4: "(of_nat t :: u32) - 365 * of_nat (civil_year t) - of_nat (civil_year t div 4) = of_nat (civil_edays t)"
    using arg_cong [OF eb(1), of "of_nat :: nat \<Rightarrow> u32"] by (simp add: algebra_simps)
  have w5: "(of_nat (civil_edays t) :: u32) * 1000 div 30601 = of_nat (civil_month t)"
    using of_nat_div_u32 [of "civil_edays t * 1000" 30601] eb by (simp add: civil_month_def)
  have w6: "(of_nat (civil_edays t) :: u32) - of_nat (civil_month t) * 30 - of_nat (civil_month t) * 601 div 1000 = of_nat (civil_day t)"
    using arg_cong [OF db, of "of_nat :: nat \<Rightarrow> u32"] of_nat_div_u32 [of "civil_month t * 601" 1000] mb by (simp add: algebra_simps)
  have w7: "(of_nat (civil_month t) :: u32) < 14 \<longleftrightarrow> civil_month t < 14"
    using mb by (simp add: word_less_nat_alt unat_of_nat_u32)
  have d: "drop_bit 2 (of_nat c :: u32) = of_nat (c div 4)" "drop_bit 2 (of_nat (civil_year t) :: u32) = of_nat (civil_year t div 4)"
    using c y by (simp_all add: drop_2_of_nat_u32)
  have cc: "ucast (of_nat c :: u64) = (of_nat c :: u32)" "ucast (of_nat t :: u64) = (of_nat t :: u32)"
    using c tb by (simp_all add: ucast_of_nat_64_32)
  show ?thesis
    unfolding rtc_civil_def Let_def w1 cc d w2 w3 w4 w5 w6 w7 using y mb by (simp add: of_nat_diff)
qed

lemma month_term: "4 \<le> m \<Longrightarrow> m \<le> 15 \<Longrightarrow> 3 * m div 5 = m * 601 div (1000 :: nat)"
proof -
  assume "4 \<le> m" "m \<le> 15"
  moreover have "list_all (\<lambda>m. 3 * m div 5 = m * 601 div (1000 :: nat)) [4..<16]" by (simp add: upt_rec)
  ultimately show ?thesis by (simp add: list_all_iff)
qed

lemma civil_century:
  assumes "n \<le> 49710"
  defines "t \<equiv> civil_tmp n" and "Y \<equiv> civil_year (civil_tmp n) - 4716"
  shows "t + Y div 400 = n + 2442110 + Y div 100" "1969 \<le> Y" "Y \<le> 2106" "civil_year t = Y + 4716"
proof -
  have tb: "2442125 \<le> t" "t \<le> 2491836" unfolding t_def by (rule civil_tmp_cases [OF assms(1)], use assms(1) in simp_all)+
  have yb: "7305 * civil_year t + 2442 \<le> 20 * t" "20 * t < 7305 * civil_year t + 2442 + 7305"
    using civil_year_bounds [of t] tb by simp_all
  have y: "6685 \<le> civil_year t" "civil_year t \<le> 6822" using yb tb by linarith+
  show Y: "1969 \<le> Y" "Y \<le> 2106" "civil_year t = Y + 4716" using y by (simp_all add: Y_def t_def)
  show "t + Y div 400 = n + 2442110 + Y div 100"
    using assms(1)
  proof (cases rule: civil_tmp_cases)
    case 1
    then have "Y < 2000" using yb Y(3) by (simp add: t_def)
    then have "Y div 100 = 19" "Y div 400 = 4" using Y(1) by (intro div_nat_eqI; simp)+
    with 1 show ?thesis by (simp add: t_def)
  next
    case 2
    then have "2000 \<le> Y" "Y < 2100" using yb Y(3) by (simp_all add: t_def)
    then have "Y div 100 = 20" "Y div 400 = 5" by (intro div_nat_eqI; simp)+
    with 2 show ?thesis by (simp add: t_def)
  next
    case 3
    then have "2100 \<le> Y" using yb Y(3) by (simp add: t_def)
    then have "Y div 100 = 21" "Y div 400 = 5" using Y(2) by (intro div_nat_eqI; simp)+
    with 3 show ?thesis by (simp add: t_def)
  qed
qed

text \<open>The day number of the civil date that \<open>civil_*\<close> give for a day number is that day number.\<close>

lemma civil_days:
  assumes "n \<le> 49710"
  defines "t \<equiv> civil_tmp n" and "Y \<equiv> civil_year (civil_tmp n) - 4716" and "M \<equiv> civil_month (civil_tmp n) - 1"
  shows "365 * Y + Y div 4 + Y div 400 + 30 * M + 3 * (M + 1) div 5 + civil_day t = n + Y div 100 + 719561"
proof -
  have tb: "2442125 \<le> t" unfolding t_def by (rule civil_tmp_cases [OF assms(1)]) simp_all
  then have t20: "2442 \<le> 20 * t" by simp
  note c = civil_century [OF assms(1), folded t_def Y_def, folded Y_def]
  note m = civil_month_bounds [OF t20]
  have M: "M + 1 = civil_month t" using m by (simp add: M_def t_def)
  have "30 * M + 3 * (M + 1) div 5 + civil_day t + 30 = civil_edays t"
    using civil_day_sum [of t] month_term [OF m] M m by (simp add: M [symmetric])
  moreover have "civil_year t div 4 = Y div 4 + 1179" using c(4) by simp
  moreover have "365 * civil_year t + civil_year t div 4 + civil_edays t = t" using civil_edays_bounds [OF t20] by simp
  ultimately show ?thesis using c by (simp add: t_def)
qed

lemma rtc_days_nat:
  assumes "Y \<le> 2200" "3 \<le> M" "M \<le> 14" "d \<le> 31" "n < 2 ^ 32"
    "365 * Y + Y div 4 + Y div 400 + 30 * M + 3 * (M + 1) div 5 + d = n + Y div 100 + 719561"
    and "if M \<le> 12 then y = of_nat Y \<and> m = of_nat M else y = of_nat (Y + 1) \<and> m = of_nat (M - 12)"
  shows "rtc_days y m (of_nat d) = of_nat n"
proof -
  have ym: "(if m < 3 then (y - 1, m + 12) else (y, m)) = (of_nat Y, of_nat M)"
  proof (cases "M \<le> 12")
    case True
    then have "\<not> m < 3" using assms(2,7) by (simp add: word_less_nat_alt unat_of_nat_u32)
    then show ?thesis using True assms(7) by simp
  next
    case False
    then have "unat m = M - 12" using assms(3,7) unat_of_nat_u32 [of "M - 12"] by simp
    then have "m < 3" using assms(3) by (simp add: word_less_nat_alt)
    then show ?thesis using False assms(7) by (simp add: of_nat_diff)
  qed
  have w: "(of_nat Y :: u32) div 100 = of_nat (Y div 100)" "(of_nat Y :: u32) div 400 = of_nat (Y div 400)"
    "drop_bit 2 (of_nat Y :: u32) = of_nat (Y div 4)"
    "3 * ((of_nat M :: u32) + 1) div 5 = of_nat (3 * (M + 1) div 5)"
    using of_nat_div_u32 [of Y 100] of_nat_div_u32 [of Y 400] of_nat_div_u32 [of "3 * (M + 1)" 5] assms(1,3)
    by (simp_all add: drop_2_of_nat_u32 add.commute)
  have "(of_nat (365 * Y + Y div 4 + Y div 400 + 30 * M + 3 * (M + 1) div 5 + d) :: u32) = of_nat (n + Y div 100 + 719561)"
    using assms(6) by (rule arg_cong)
  then show ?thesis unfolding rtc_days_def ym prod.case Let_def w by (simp add: algebra_simps)
qed

subsection \<open>The calendar as a reference\<close>

definition leap_year :: "nat \<Rightarrow> bool" where
  "leap_year y \<longleftrightarrow> y mod 4 = 0 \<and> (y mod 100 \<noteq> 0 \<or> y mod 400 = 0)"

definition month_length :: "nat \<Rightarrow> nat \<Rightarrow> nat" where
  "month_length y m = (if m = 2 then (if leap_year y then 29 else 28) else if m \<in> {4, 6, 9, 11} then 30 else 31)"

definition valid_date :: "nat \<Rightarrow> nat \<Rightarrow> nat \<Rightarrow> bool" where
  "valid_date y m d \<longleftrightarrow> 1 \<le> m \<and> m \<le> 12 \<and> 1 \<le> d \<and> d \<le> month_length y m"

text \<open>Year, month and day that the code computes for the day number \<open>n\<close>.\<close>

definition civil_date :: "nat \<Rightarrow> nat \<times> nat \<times> nat" where
  "civil_date n = (let t = civil_tmp n in
     if civil_month t < 14 then (civil_year t - 4716, civil_month t - 1, civil_day t)
     else (civil_year t - 4715, civil_month t - 13, civil_day t))"

lemma civil_day_bounds:
  assumes "4 \<le> civil_month t" "civil_month t \<le> 15"
  shows "1 \<le> civil_day t" "civil_day t \<le> (if civil_month t \<in> {5, 7, 10, 12} then 30 else if civil_month t = 15 then
    (if civil_edays t \<le> 487 then 28 else civil_edays t - 459) else 31)"
proof -
  define m where "m = civil_month t"
  have e: "m * 30601 \<le> civil_edays t * 1000" "civil_edays t * 1000 < m * 30601 + 30601"
    using div_mult_mod_eq [of "civil_edays t * 1000" 30601] mod_less_divisor [of 30601 "civil_edays t * 1000"]
    by (simp_all add: m_def civil_month_def)
  have s: "m * 30 + m * 601 div 1000 + civil_day t = civil_edays t" using civil_day_sum [of t] by (simp add: m_def)
  have "m = 4 \<or> m = 5 \<or> m = 6 \<or> m = 7 \<or> m = 8 \<or> m = 9 \<or> m = 10 \<or> m = 11 \<or> m = 12 \<or> m = 13 \<or> m = 14 \<or> m = 15"
    using assms unfolding m_def by presburger
  then have "1 \<le> civil_day t \<and> civil_day t \<le> (if m \<in> {5, 7, 10, 12} then 30 else if m = 15 then
    (if civil_edays t \<le> 487 then 28 else civil_edays t - 459) else 31)"
    using e s by (elim disjE) auto
  then show "1 \<le> civil_day t" "civil_day t \<le> (if civil_month t \<in> {5, 7, 10, 12} then 30 else if civil_month t = 15 then
    (if civil_edays t \<le> 487 then 28 else civil_edays t - 459) else 31)" unfolding m_def by (rule conjunct1, rule conjunct2)
qed

lemma civil_date_valid:
  assumes "n \<le> 49710"
  shows "case civil_date n of (y, m, d) \<Rightarrow> valid_date y m d \<and> 1970 \<le> y + (if m < 3 then 0 else 1) \<and> y \<le> 2107"
proof -
  define t Y where "t = civil_tmp n" and "Y = civil_year (civil_tmp n) - 4716"
  have tb: "2442125 \<le> t" unfolding t_def by (rule civil_tmp_cases [OF assms(1)]) simp_all
  then have t20: "2442 \<le> 20 * t" by simp
  note c = civil_century [OF assms, folded t_def Y_def, folded Y_def] and m = civil_month_bounds [OF t20]
    and e = civil_edays_bounds [OF t20] and y = civil_year_bounds [OF t20]
  note d = civil_day_bounds [OF m]
  have Yc: "civil_year t - 4716 = Y" "civil_year t - 4715 = Y + 1" using c by simp_all
  show ?thesis
  proof (cases "civil_month t = 15")
    case False
    have dl: "civil_day t \<le> (if civil_month t \<in> {5, 7, 10, 12} then 30 else 31)"
      using d(2) unfolding if_not_P [OF False] .
    show ?thesis
    proof (cases "civil_month t < 14")
      case True
      then have cd: "civil_date n = (Y, civil_month t - 1, civil_day t)"
        by (simp add: civil_date_def Let_def t_def [symmetric] Yc)
      have "month_length Y (civil_month t - 1) = (if civil_month t \<in> {5, 7, 10, 12} then 30 else 31)"
        using m True by (auto simp: month_length_def)
      moreover have "\<not> civil_month t - 1 < 3" "civil_month t - 1 \<le> 12" "1 \<le> civil_month t - 1" using m True by linarith+
      ultimately show ?thesis unfolding cd using d(1) dl c by (simp add: valid_date_def)
    next
      case ge: False
      then have m14: "civil_month t = 14" using m False by simp
      then have cd: "civil_date n = (Y + 1, 1, civil_day t)"
        by (simp add: civil_date_def Let_def t_def [symmetric] Yc)
      show ?thesis unfolding cd using d(1) dl c m14 by (simp add: valid_date_def month_length_def)
    qed
  next
    case True
    then have cd: "civil_date n = (Y + 1, 2, civil_day t)" by (simp add: civil_date_def Let_def t_def [symmetric] Yc)
    have "civil_day t \<le> month_length (Y + 1) 2"
    proof (cases "civil_edays t \<le> 487")
      case True
      then show ?thesis using d \<open>civil_month t = 15\<close> by (simp add: month_length_def)
    next
      case False
      then have e488: "civil_edays t = 488" using e by simp
      have "20 * t = 7300 * civil_year t + 20 * (civil_year t div 4) + 9760" using e(1) e488 by linarith
      then have "13 < 5 * (civil_year t mod 4)" using y div_mult_mod_eq [of "civil_year t" 4] by linarith
      then have "civil_year t mod 4 = 3" using mod_less_divisor [of 4 "civil_year t"] by linarith
      then have "(Y + 4716) mod 4 = 3" unfolding c(4) .
      then have "(Y + 1) mod 4 = 0" by presburger
      moreover have "Y + 1 \<noteq> 2100"
      proof
        assume "Y + 1 = 2100"
        then have "t = 2489666" using e(1) e488 c(4) by simp
        then have "civil_tmp n = 2489666" by (simp add: t_def)
        then show False by (cases rule: civil_tmp_cases [OF assms]) simp_all
      qed
      moreover have "Y + 1 = 2000 \<or> Y + 1 = 2100" if "(Y + 1) mod 100 = 0"
      proof -
        from that obtain k where "Y + 1 = 100 * k" by (metis mod_0_imp_dvd dvdE)
        moreover from this have "k = 20 \<or> k = 21" using c(2,3) by presburger
        ultimately show ?thesis by auto
      qed
      ultimately have "leap_year (Y + 1)" unfolding leap_year_def by (cases "(Y + 1) mod 100 = 0") (auto simp: leap_year_def)
      then show ?thesis using d \<open>civil_month t = 15\<close> e488 by (simp add: month_length_def)
    qed
    then show ?thesis using d c by (simp add: cd valid_date_def)
  qed
qed

subsection \<open>Round trip and validity\<close>

lemma civil_date_cases:
  assumes "n \<le> 49710"
  defines "t \<equiv> civil_tmp n"
  obtains y m d where "civil_date n = (y, m, d)" "rtc_civil (of_nat n) = (of_nat y, of_nat m, of_nat d)"
    "valid_date y m d" "y \<le> 2107" "rtc_days (of_nat y) (of_nat m) (of_nat d) = of_nat n"
proof -
  define Y M where "Y = civil_year t - 4716" and "M = civil_month t - 1"
  have tb: "2442125 \<le> t" unfolding t_def by (rule civil_tmp_cases [OF assms(1)]) simp_all
  then have t20: "2442 \<le> 20 * t" by simp
  note c = civil_century [OF assms(1), folded t_def, folded Y_def] and m = civil_month_bounds [OF t20]
  obtain y mo d where cd: "civil_date n = (y, mo, d)" by (metis prod_cases3)
  have v: "valid_date y mo d" "y \<le> 2107" using civil_date_valid [OF assms(1)] by (simp_all add: cd)
  have d: "d = civil_day t" "d \<le> 31" using cd v by (auto simp: civil_date_def Let_def t_def valid_date_def month_length_def split: if_splits)
  have ym: "if M \<le> 12 then y = Y \<and> mo = M else y = Y + 1 \<and> mo = M - 12"
    using cd m c(4) by (auto simp: civil_date_def Let_def t_def [symmetric] Y_def M_def split: if_splits)
  have "rtc_civil (of_nat n) = (of_nat y, of_nat mo, of_nat d)"
    using rtc_civil_nat [OF assms(1)] cd by (auto simp: civil_date_def Let_def t_def split: if_splits)
  moreover have "rtc_days (of_nat y) (of_nat mo) (of_nat d) = of_nat n"
  proof (rule rtc_days_nat [of Y M])
    show "365 * Y + Y div 4 + Y div 400 + 30 * M + 3 * (M + 1) div 5 + d = n + Y div 100 + 719561"
      using civil_days [OF assms(1)] by (simp add: Y_def M_def t_def d)
    show "if M \<le> 12 then (of_nat y :: u32) = of_nat Y \<and> (of_nat mo :: u32) = of_nat M
      else (of_nat y :: u32) = of_nat (Y + 1) \<and> (of_nat mo :: u32) = of_nat (M - 12)"
      using ym by (cases "M \<le> 12") simp_all
  qed (use m c d assms(1) in \<open>simp_all add: M_def\<close>)
  ultimately show ?thesis using that cd v by blast
qed

lemma ucast_small:
  "x < 256 \<Longrightarrow> (ucast (ucast (of_nat x :: u32) :: u8) :: u32) = of_nat x"
  "x < 65536 \<Longrightarrow> (ucast (ucast (of_nat x :: u32) :: u16) :: u32) = of_nat x"
  "x < 256 \<Longrightarrow> unat (ucast (of_nat x :: u32) :: u8) = x"
  "x < 65536 \<Longrightarrow> unat (ucast (of_nat x :: u32) :: u16) = x"
  by (simp_all add: word_unat_eq_iff unsigned_ucast_eq unsigned_take_bit_eq unat_of_nat take_bit_nat_eq_self)


lemma epoch_split:
  fixes e :: u32
  shows "e div 60 div 60 div 24 * 86400 + (3600 * (e div 60 div 60 mod 24) + 60 * (e div 60 mod 60) + e mod 60) = e"
    "unat (e div 60 div 60 div 24) \<le> 49710"
proof -
  have a: "e div 60 * 60 + e mod 60 = e" "e div 60 div 60 * 60 + e div 60 mod 60 = e div 60"
    "e div 60 div 60 div 24 * 24 + e div 60 div 60 mod 24 = e div 60 div 60" by (rule div_mult_mod_eq)+
  have "(e div 60 div 60 div 24 * 24 + e div 60 div 60 mod 24) * 3600 + 60 * (e div 60 mod 60) + e mod 60
      = (e div 60 div 60 * 60 + e div 60 mod 60) * 60 + e mod 60" unfolding a(3) by (simp add: algebra_simps)
  also have "\<dots> = e" unfolding a ..
  finally show "e div 60 div 60 div 24 * 86400 + (3600 * (e div 60 div 60 mod 24) + 60 * (e div 60 mod 60) + e mod 60) = e"
    by (simp add: algebra_simps)
  have "unat e < 4294967296" by simp
  then show "unat (e div 60 div 60 div 24) \<le> 49710" by (simp add: unat_div div_mult2_eq [symmetric] del: unat_less_pow)
qed

lemma unat_mod_small: "unat (x mod 60 :: u32) < 60" "unat (x mod 24 :: u32) < 24"
  by (simp_all add: unat_mod)

lemma ucast_u8_small: "unat x < 256 \<Longrightarrow> (ucast (ucast (x :: u32) :: u8) :: u32) = x" "unat x < 256 \<Longrightarrow> unat (ucast x :: u8) = unat x"
  using ucast_small(1,3) [of "unat x"] by simp_all

text \<open>
  C19. Converting an epoch to a date and back is the identity, for every 32 bit epoch (1970 to 2106):
  no intermediate value of the 32 bit arithmetic overflows in a way that matters.
\<close>

theorem epoch_date_roundtrip: "max77620_rtc_date_to_epoch (max77620_rtc_epoch_to_date e) = e"
proof -
  define n where "n = unat (e div 60 div 60 div 24)"
  have e3: "e div 60 div 60 div 24 = of_nat n" by (simp add: n_def)
  have n: "n \<le> 49710" using epoch_split(2) [of e] by (simp add: n_def)
  obtain y m d where c: "rtc_civil (of_nat n) = (of_nat y, of_nat m, of_nat d)" "valid_date y m d" "y \<le> 2107"
    "rtc_days (of_nat y) (of_nat m) (of_nat d) = of_nat n"
    using civil_date_cases [OF n] by blast
  have b: "m < 256" "d < 256" "y < 65536"
    using c(2,3) by (auto simp: valid_date_def month_length_def split: if_splits)
  have s: "unat (e mod 60) < 256" "unat (e div 60 mod 60) < 256" "unat (e div 60 div 60 mod 24) < 256"
    using unat_mod_small(1) [of e] unat_mod_small(1) [of "e div 60"] unat_mod_small(2) [of "e div 60 div 60"] by simp_all
  show ?thesis
    using epoch_split(1) [of e] c(4)
    by (simp add: max77620_rtc_epoch_to_date_def max77620_rtc_date_to_epoch_def Let_def e3 c(1) ucast_small b ucast_u8_small s)
qed

text \<open>
  C36. Every 32 bit epoch converts to a date that exists in the Gregorian calendar, leap years
  included, at a time of day in range.
\<close>

theorem epoch_to_date_valid:
  "let t = max77620_rtc_epoch_to_date e
   in valid_date (unat (rt_year t)) (unat (rt_month t)) (unat (rt_day t)) \<and>
      unat (rt_hour t) < 24 \<and> unat (rt_min t) < 60 \<and> unat (rt_sec t) < 60"
proof -
  define n where "n = unat (e div 60 div 60 div 24)"
  have e3: "e div 60 div 60 div 24 = of_nat n" by (simp add: n_def)
  have n: "n \<le> 49710" using epoch_split(2) [of e] by (simp add: n_def)
  obtain y m d where c: "rtc_civil (of_nat n) = (of_nat y, of_nat m, of_nat d)" "valid_date y m d" "y \<le> 2107"
    using civil_date_cases [OF n] by blast
  have b: "m < 256" "d < 256" "y < 65536"
    using c(2,3) by (auto simp: valid_date_def month_length_def split: if_splits)
  have s: "unat (e mod 60) < 60" "unat (e div 60 mod 60) < 60" "unat (e div 60 div 60 mod 24) < 24"
    using unat_mod_small by blast+
  then show ?thesis using c(2)
    by (simp add: max77620_rtc_epoch_to_date_def Let_def e3 c(1) ucast_small b ucast_u8_small)
qed

subsection \<open>Reboot reason\<close>

text \<open>
  What the chip's documentation promises of the alarm registers: \<open>peek\<close> reads what a
  register holds, a read changes nothing, a write of a value that fits (seven bits in a weekday
  register, six in a year register) changes the register it names, and copying the registers to
  the clock (\<open>WRITE_UPDATE\<close>) leaves them as they are.
\<close>

definition alarm_regs :: "u8 set" where
  "alarm_regs = {MAX77620_ALARM1_WEEKDAY_REG, MAX77620_ALARM1_YEAR_REG, MAX77620_ALARM2_WEEKDAY_REG, MAX77620_ALARM2_YEAR_REG}"

definition alarm_fits :: "u8 \<Rightarrow> u8 \<Rightarrow> bool" where
  "alarm_fits r v \<longleftrightarrow> v < (if r = MAX77620_ALARM1_WEEKDAY_REG \<or> r = MAX77620_ALARM2_WEEKDAY_REG then 128 else 64)"

definition alarm_chip :: "'w rtc_env \<Rightarrow> (u8 \<Rightarrow> 'w \<Rightarrow> u8) \<Rightarrow> bool" where
  "alarm_chip env peek \<longleftrightarrow>
     (\<forall>r w. fst (i2c_recv_byte env r w) = peek r w) \<and>
     (\<forall>r r' w. r' \<in> alarm_regs \<longrightarrow> peek r' (snd (i2c_recv_byte env r w)) = peek r' w) \<and>
     (\<forall>r \<in> alarm_regs. \<forall>r' \<in> alarm_regs. \<forall>v w. alarm_fits r v \<longrightarrow> peek r' (i2c_send_byte env r v w) = (if r' = r then v else peek r' w)) \<and>
     (\<forall>r \<in> alarm_regs. \<forall>w. peek r (i2c_send_byte env MAX77620_RTC_UPDATE0_REG MAX77620_RTC_WRITE_UPDATE w) = peek r w)"

lemma alarm_regs_mem [simp]:
  "MAX77620_ALARM1_WEEKDAY_REG \<in> alarm_regs" "MAX77620_ALARM1_YEAR_REG \<in> alarm_regs"
  "MAX77620_ALARM2_WEEKDAY_REG \<in> alarm_regs" "MAX77620_ALARM2_YEAR_REG \<in> alarm_regs"
  by (simp_all add: alarm_regs_def)

lemma alarm_regs_distinct [simp]:
  "MAX77620_ALARM1_WEEKDAY_REG \<noteq> MAX77620_ALARM1_YEAR_REG" "MAX77620_ALARM1_WEEKDAY_REG \<noteq> MAX77620_ALARM2_WEEKDAY_REG"
  "MAX77620_ALARM1_WEEKDAY_REG \<noteq> MAX77620_ALARM2_YEAR_REG" "MAX77620_ALARM1_YEAR_REG \<noteq> MAX77620_ALARM2_WEEKDAY_REG"
  "MAX77620_ALARM1_YEAR_REG \<noteq> MAX77620_ALARM2_YEAR_REG" "MAX77620_ALARM2_WEEKDAY_REG \<noteq> MAX77620_ALARM2_YEAR_REG"
  by (simp_all add: rtc_reg_defs)

lemmas alarm_regs_distinct' [simp] = alarm_regs_distinct [symmetric]

lemma alarm_chipD:
  assumes "alarm_chip env peek"
  shows "fst (i2c_recv_byte env r w) = peek r w"
    "r' \<in> alarm_regs \<Longrightarrow> peek r' (snd (i2c_recv_byte env r w)) = peek r' w"
    "r \<in> alarm_regs \<Longrightarrow> r' \<in> alarm_regs \<Longrightarrow> alarm_fits r v \<Longrightarrow> peek r' (i2c_send_byte env r v w) = (if r' = r then v else peek r' w)"
    "r \<in> alarm_regs \<Longrightarrow> peek r (i2c_send_byte env MAX77620_RTC_UPDATE0_REG MAX77620_RTC_WRITE_UPDATE w) = peek r w"
  using assms by (simp_all add: alarm_chip_def prod_eq_iff)

lemma rr_val_fits [simp]: "alarm_fits r (rr_val1 rr)" "alarm_fits r (rr_val2 rr)"
proof -
  have "x AND 63 < 64" for x :: u16 using word_and_le1 [of x 63] by (simp add: word_le_nat_alt word_less_nat_alt)
  then have "unat (x AND 63) < 64" for x :: u16 by (simp add: word_less_nat_alt)
  then have "unat (ucast (x AND 63) :: u8) < 64" for x :: u16
    using mod_less_eq_dividend [THEN le_less_trans] by (simp add: unsigned_ucast_eq unsigned_take_bit_eq take_bit_eq_mod)
  note b = this
  have c: "unat (ucast (x AND 63) :: u8) < 128" for x :: u16 using b [of x] by simp
  show "alarm_fits r (rr_val1 rr)" "alarm_fits r (rr_val2 rr)"
    using b c by (simp_all add: alarm_fits_def rr_val1_def rr_val2_def word_less_nat_alt)
qed

lemma alarm_fits_const [simp]: "alarm_fits r 0"
  "alarm_fits MAX77620_ALARM1_WEEKDAY_REG RTC_REBOOT_REASON_MAGIC" "alarm_fits MAX77620_ALARM2_WEEKDAY_REG RTC_REBOOT_REASON_MAGIC"
  by (simp_all add: alarm_fits_def rtc_reg_defs)

lemma rr_vals_join: "rr_set_val2 (rr_val2 rr) (rr_set_val1 (rr_val1 rr) old) = (old AND 0xF000) OR (rr AND 0xFFF)"
proof -
  have m: "(0x3F :: u16) = mask 6" "(0xFC0 :: u16) = push_bit 6 (mask 6)" "(0xFFF :: u16) = mask 12" "(0xF000 :: u16) = push_bit 12 (mask 4)"
    by (simp_all add: mask_eq_exp_minus_1 push_bit_eq_mult)
  show ?thesis
    unfolding rr_set_val1_def rr_set_val2_def rr_val1_def rr_val2_def m
    by (rule bit_word_eqI) (auto simp: bit_simps)
qed

lemma set_reboot_reason_regs:
  fixes w :: 'w and rr :: u16
  assumes "alarm_chip env peek"
  defines "w' \<equiv> max77620_rtc_set_reboot_reason env rr w"
  shows "peek MAX77620_ALARM1_WEEKDAY_REG w' = RTC_REBOOT_REASON_MAGIC" "peek MAX77620_ALARM2_WEEKDAY_REG w' = RTC_REBOOT_REASON_MAGIC"
    "peek MAX77620_ALARM1_YEAR_REG w' = rr_val1 rr" "peek MAX77620_ALARM2_YEAR_REG w' = rr_val2 rr"
  by (simp_all add: w'_def max77620_rtc_set_reboot_reason_def Let_def alarm_chipD [OF assms(1)])

lemma get_reboot_reason_no_magic:
  assumes "alarm_chip env peek" "peek MAX77620_ALARM1_WEEKDAY_REG w \<noteq> RTC_REBOOT_REASON_MAGIC"
  shows "\<not> fst (max77620_rtc_get_reboot_reason env rr w)" "fst (snd (max77620_rtc_get_reboot_reason env rr w)) = rr"
  using assms(2)
  by (simp_all add: max77620_rtc_get_reboot_reason_def alarm_chipD(1) [OF assms(1)] split_def)

lemma get_reboot_reason_magic:
  assumes "alarm_chip env peek"
    and "peek MAX77620_ALARM1_WEEKDAY_REG w = RTC_REBOOT_REASON_MAGIC" "peek MAX77620_ALARM2_WEEKDAY_REG w = RTC_REBOOT_REASON_MAGIC"
  obtains w' where "max77620_rtc_get_reboot_reason env old w =
      (True, rr_set_val2 (peek MAX77620_ALARM2_YEAR_REG w) (rr_set_val1 (peek MAX77620_ALARM1_YEAR_REG w) old), w')"
    "peek MAX77620_ALARM1_WEEKDAY_REG w' = 0"
  using assms(2,3) that
  by (simp add: max77620_rtc_get_reboot_reason_def alarm_chipD [OF assms(1)] split_def Let_def)

text \<open>
  The reboot reason is delivered exactly once: on a chip that keeps its alarm registers, a
  reason that was set is read back by the next boot with all its 12 bits, the bits above are the
  reader's own, and the boot after that finds no reason and leaves its variable alone.
\<close>

theorem reboot_reason_once:
  assumes "alarm_chip env peek"
  shows "\<exists>w'. max77620_rtc_get_reboot_reason env old (max77620_rtc_set_reboot_reason env rr w) =
      (True, (old AND 0xF000) OR (rr AND 0xFFF), w') \<and>
      fst (max77620_rtc_get_reboot_reason env old2 w') = False \<and> fst (snd (max77620_rtc_get_reboot_reason env old2 w')) = old2"
proof -
  note s = set_reboot_reason_regs [OF assms, of rr w]
  obtain w' where w': "max77620_rtc_get_reboot_reason env old (max77620_rtc_set_reboot_reason env rr w) =
      (True, (old AND 0xF000) OR (rr AND 0xFFF), w')" "peek MAX77620_ALARM1_WEEKDAY_REG w' = 0"
    by (rule get_reboot_reason_magic [OF assms s(1,2), of old]) (auto simp: s(3,4) rr_vals_join)
  moreover have "peek MAX77620_ALARM1_WEEKDAY_REG w' \<noteq> RTC_REBOOT_REASON_MAGIC" unfolding w'(2) by (simp add: rtc_reg_defs)
  note get_reboot_reason_no_magic [OF assms this, of old2]
  ultimately show ?thesis by blast
qed

text \<open>A chip with the documented behaviour: its registers as a function.\<close>

definition reg_file :: "(u8 \<Rightarrow> u8) rtc_env" where
  "reg_file = \<lparr>i2c_send_byte = (\<lambda>r v w. w(r := v)), i2c_recv_byte = (\<lambda>r w. (w r, w))\<rparr>"

lemma reg_file_chip: "alarm_chip reg_file (\<lambda>r w. w r)"
  by (simp add: alarm_chip_def reg_file_def alarm_regs_def rtc_reg_defs)

theorem reboot_reason_once_witness:
  "alarm_chip reg_file (\<lambda>r w. w r) \<and>
   (\<exists>w'. max77620_rtc_get_reboot_reason reg_file 0 (max77620_rtc_set_reboot_reason reg_file 0xA53 (\<lambda>_. 0)) = (True, 0xA53, w'))"
  using reboot_reason_once [OF reg_file_chip, of 0 "0xA53" "\<lambda>_. 0" 0] reg_file_chip by auto

text \<open>
  With the clock in 12 hour mode the hour read back never exceeds 15 and the afternoon is lost:
  the register value is masked to five bits before its PM flag, bit 6, is tested.
\<close>

theorem rtc_hour_12h_drops_pm:
  "control AND MAX77620_RTC_24H = 0 \<Longrightarrow> rtc_hour control raw = raw AND 0xF \<and> rtc_hour control (raw OR 64) = rtc_hour control raw"
proof -
  have z: "(raw AND 0x1F) AND MAX77620_RTC_HOUR_PM_MASK = 0" "(raw OR 64) AND 0x1F = raw AND 0x1F" "(raw AND 0x1F) AND 0xF = raw AND 0xF" for raw :: u8
    unfolding MAX77620_RTC_HOUR_PM_MASK_def by (rule bit_word_eqI, auto simp: bit_simps numeral_eq_Suc less_Suc_eq)+
  assume "control AND MAX77620_RTC_24H = 0"
  then show ?thesis by (simp add: rtc_hour_def z Let_def)
qed

theorem rtc_hour_12h_drops_pm_witness: "(0 :: u8) AND MAX77620_RTC_24H = 0 \<and> rtc_hour 0 0x49 = 9 \<and> rtc_hour 0 0x09 = 9"
  using rtc_hour_12h_drops_pm [of 0 9] by (simp add: rtc_hour_def Let_def rtc_reg_defs)

end
