(* ===== verification/Links.thy ===== *)
theory Links
  imports Prelude
begin

text \<open>
  The intrusive doubly linked lists of \<open>bdk/utils/list.h\<close>. Links live in a store from
  addresses to \<open>link_t\<close>; a list is a ring through its head. The operations write the store in
  the order the code does, and refine the operations on the sequence of members.
\<close>

subsection \<open>Links and the operations\<close>

record link_t =
  link_prev :: u32
  link_next :: u32

type_synonym links = "u32 \<Rightarrow> link_t"

definition set_prev :: "u32 \<Rightarrow> u32 \<Rightarrow> links \<Rightarrow> links" where
  "set_prev l v m = m(l := (m l)\<lparr>link_prev := v\<rparr>)"

definition set_next :: "u32 \<Rightarrow> u32 \<Rightarrow> links \<Rightarrow> links" where
  "set_next l v m = m(l := (m l)\<lparr>link_next := v\<rparr>)"

definition link_init :: "u32 \<Rightarrow> links \<Rightarrow> links" where
  "link_init l m = set_next l 0 (set_prev l 0 m)"

definition link_used :: "u32 \<Rightarrow> links \<Rightarrow> bool" where
  "link_used l m \<longleftrightarrow> link_next (m l) = 0"

definition list_init :: "u32 \<Rightarrow> links \<Rightarrow> links" where
  "list_init lh m = set_next lh lh (set_prev lh lh m)"

definition list_prepend :: "u32 \<Rightarrow> u32 \<Rightarrow> links \<Rightarrow> links" where
  "list_prepend lh l m0 =
     (let m1 = set_next l (link_next (m0 lh)) m0;
          m2 = set_prev l lh m1;
          m3 = set_prev (link_next (m2 lh)) l m2
      in set_next lh l m3)"

definition list_append :: "u32 \<Rightarrow> u32 \<Rightarrow> links \<Rightarrow> links" where
  "list_append lh l m0 =
     (let m1 = set_prev l (link_prev (m0 lh)) m0;
          m2 = set_next l lh m1;
          m3 = set_next (link_prev (m2 lh)) l m2
      in set_prev lh l m3)"

definition list_remove :: "u32 \<Rightarrow> links \<Rightarrow> links" where
  "list_remove l m0 =
     (let m1 = set_prev (link_next (m0 l)) (link_prev (m0 l)) m0;
          m2 = set_next (link_prev (m1 l)) (link_next (m1 l)) m1
      in link_init l m2)"

definition list_empty :: "u32 \<Rightarrow> links \<Rightarrow> bool" where
  "list_empty lh m \<longleftrightarrow> link_next (m lh) = lh"

text \<open>
  The members a \<open>LIST_FOREACH\<close> loop visits, and those \<open>LIST_FOREACH_INVERSE\<close> visits; \<open>None\<close> when
  the loop never comes back to the head.
\<close>

partial_function (option) list_walk :: "links \<Rightarrow> u32 \<Rightarrow> u32 \<Rightarrow> u32 list option" where
  "list_walk m lh iter =
     (if iter = lh then Some []
      else Option.bind (list_walk m lh (link_next (m iter))) (\<lambda>xs. Some (iter # xs)))"

partial_function (option) list_walk_inverse :: "links \<Rightarrow> u32 \<Rightarrow> u32 \<Rightarrow> u32 list option" where
  "list_walk_inverse m lh iter =
     (if iter = lh then Some []
      else Option.bind (list_walk_inverse m lh (link_prev (m iter))) (\<lambda>xs. Some (iter # xs)))"

declare list_walk.simps [code] list_walk_inverse.simps [code]

definition list_foreach :: "u32 \<Rightarrow> links \<Rightarrow> u32 list option" where
  "list_foreach lh m = list_walk m lh (link_next (m lh))"

definition list_foreach_inverse :: "u32 \<Rightarrow> links \<Rightarrow> u32 list option" where
  "list_foreach_inverse lh m = list_walk_inverse m lh (link_prev (m lh))"

subsection \<open>Rings\<close>

text \<open>A segment of links from \<open>a\<close>, over the members \<open>xs\<close>, to \<open>b\<close>, linked both ways.\<close>

fun seg :: "links \<Rightarrow> u32 \<Rightarrow> u32 list \<Rightarrow> u32 \<Rightarrow> bool" where
  "seg m a [] b \<longleftrightarrow> link_next (m a) = b \<and> link_prev (m b) = a"
| "seg m a (x # xs) b \<longleftrightarrow> link_next (m a) = x \<and> link_prev (m x) = a \<and> seg m x xs b"

definition ring :: "links \<Rightarrow> u32 \<Rightarrow> u32 list \<Rightarrow> bool" where
  "ring m lh xs \<longleftrightarrow> distinct (lh # xs) \<and> seg m lh xs lh"

lemma set_link_simps [simp]:
  "link_next (set_next l v m k) = (if k = l then v else link_next (m k))"
  "link_prev (set_next l v m k) = link_prev (m k)"
  "link_prev (set_prev l v m k) = (if k = l then v else link_prev (m k))"
  "link_next (set_prev l v m k) = link_next (m k)"
  by (simp_all add: set_next_def set_prev_def)

lemma seg_append: "seg m a (xs @ x # ys) b \<longleftrightarrow> seg m a xs x \<and> seg m x ys b"
  by (induction xs arbitrary: a) auto

lemma seg_cong:
  assumes "\<And>k. k \<in> set (a # xs) \<Longrightarrow> link_next (m' k) = link_next (m k)"
    and "\<And>k. k \<in> set (xs @ [b]) \<Longrightarrow> link_prev (m' k) = link_prev (m k)"
  shows "seg m' a xs b \<longleftrightarrow> seg m a xs b"
  using assms by (induction xs arbitrary: a) auto

text \<open>The ends of a segment: its first and last link.\<close>

lemma seg_next: "seg m a xs b \<Longrightarrow> link_next (m a) = hd (xs @ [b])"
  by (cases xs) auto

lemma seg_prev: "seg m a xs b \<Longrightarrow> link_prev (m b) = last (a # xs)"
  by (induction xs arbitrary: a) auto

text \<open>Changing where a segment starts and where it ends.\<close>

lemma seg_relink_start:
  assumes "seg m a xs b" "link_next (m' a') = hd (xs @ [b])" "link_prev (m' (hd (xs @ [b]))) = a'"
    and "\<And>k. k \<in> set xs \<Longrightarrow> link_next (m' k) = link_next (m k)"
    and "\<And>k. k \<in> set (tl (xs @ [b])) \<Longrightarrow> link_prev (m' k) = link_prev (m k)"
  shows "seg m' a' xs b"
proof (cases xs)
  case Nil
  then show ?thesis using assms by simp
next
  case (Cons x ys)
  have "seg m' x ys b \<longleftrightarrow> seg m x ys b" by (rule seg_cong) (use assms(4,5) Cons in auto)
  then show ?thesis using assms Cons by simp
qed

lemma seg_relink_end:
  assumes "seg m a xs b" "link_next (m' (last (a # xs))) = b'" "link_prev (m' b') = last (a # xs)"
    and "\<And>k. k \<in> set (butlast (a # xs)) \<Longrightarrow> link_next (m' k) = link_next (m k)"
    and "\<And>k. k \<in> set xs \<Longrightarrow> link_prev (m' k) = link_prev (m k)"
  shows "seg m' a xs b'"
  using assms by (induction xs arbitrary: a) (auto split: if_splits)

subsection \<open>Refinement\<close>

lemma list_init_ring: "ring (list_init lh m) lh []"
  by (simp add: ring_def list_init_def)

lemma list_empty_ring: "ring m lh xs \<Longrightarrow> list_empty lh m \<longleftrightarrow> xs = []"
  by (cases xs) (auto simp: ring_def list_empty_def)

lemma hd_tl_ends: "distinct (lh # xs) \<Longrightarrow> k \<in> set (tl (xs @ [lh])) \<Longrightarrow> k \<noteq> hd (xs @ [lh])"
  by (cases xs) auto

lemma last_butlast_ends: "distinct xs \<Longrightarrow> k \<in> set (butlast xs) \<Longrightarrow> k \<noteq> last xs"
  by (induction xs rule: rev_induct) auto

lemma list_prepend_ring:
  assumes "ring m lh xs" "l \<notin> set (lh # xs)"
  shows "ring (list_prepend lh l m) lh (l # xs)"
proof -
  define m' where "m' = list_prepend lh l m"
  define h where "h = hd (xs @ [lh])"
  have s: "seg m lh xs lh" and d: "distinct (lh # xs)" using assms(1) by (simp_all add: ring_def)
  have n: "link_next (m lh) = h" using seg_next [OF s] by (simp add: h_def)
  have "h \<in> set (xs @ [lh])" unfolding h_def by (rule hd_in_set) simp
  then have hl: "h \<noteq> l" using assms(2) by auto
  have m': "link_next (m' k) = (if k = lh then l else if k = l then h else link_next (m k))"
    "link_prev (m' k) = (if k = h then l else if k = l then lh else link_prev (m k))" for k
    using assms(2) hl by (simp_all add: m'_def list_prepend_def Let_def n)
  have t: "k \<noteq> h \<and> k \<noteq> l" if "k \<in> set (tl (xs @ [lh]))" for k
    using hd_tl_ends [OF d that] assms(2) list.set_sel(2) [of "xs @ [lh]" k] that by (auto simp: h_def)
  have "seg m' l xs lh"
    by (rule seg_relink_start [OF s]) (use assms(2) d hl t in \<open>auto simp: m' h_def [symmetric]\<close>)
  then show ?thesis using assms(2) d hl by (auto simp: ring_def m'_def [symmetric] m')
qed

lemma list_append_ring:
  assumes "ring m lh xs" "l \<notin> set (lh # xs)"
  shows "ring (list_append lh l m) lh (xs @ [l])"
proof -
  define m' where "m' = list_append lh l m"
  define t where "t = last (lh # xs)"
  have s: "seg m lh xs lh" and d: "distinct (lh # xs)" using assms(1) by (simp_all add: ring_def)
  have n: "link_prev (m lh) = t" using seg_prev [OF s] by (simp add: t_def)
  have "t \<in> set (lh # xs)" unfolding t_def by (rule last_in_set) simp
  then have tl: "t \<noteq> l" using assms(2) by auto
  have m': "link_prev (m' k) = (if k = lh then l else if k = l then t else link_prev (m k))"
    "link_next (m' k) = (if k = t then l else if k = l then lh else link_next (m k))" for k
    using assms(2) tl by (simp_all add: m'_def list_append_def Let_def n)
  have b: "k \<noteq> t \<and> k \<noteq> l" if "k \<in> set (butlast (lh # xs))" for k
    using last_butlast_ends [OF d that] assms(2) in_set_butlastD [OF that] by (auto simp: t_def)
  have "seg m' lh xs l"
    by (rule seg_relink_end [OF s]) (use assms(2) d tl b in \<open>auto simp: m' t_def [symmetric] simp del: last.simps butlast.simps\<close>)
  then show ?thesis using assms(2) d tl by (auto simp: ring_def m'_def [symmetric] m' seg_append)
qed

lemma list_remove_ring:
  assumes "ring m lh (ys @ l # zs)"
  shows "ring (list_remove l m) lh (ys @ zs)" "link_used l (list_remove l m)"
proof -
  define m' where "m' = list_remove l m"
  define p where "p = last (lh # ys)"
  define n where "n = hd (zs @ [lh])"
  have s: "seg m lh ys l" "seg m l zs lh" and d: "distinct (lh # ys @ l # zs)"
    using assms by (simp_all add: ring_def seg_append)
  have pn: "link_prev (m l) = p" "link_next (m l) = n" using seg_prev [OF s(1)] seg_next [OF s(2)] by (simp_all add: p_def n_def)
  have "p \<in> set (lh # ys)" unfolding p_def by (rule last_in_set) simp
  moreover have "n \<in> set (zs @ [lh])" unfolding n_def by (rule hd_in_set) simp
  ultimately have pl: "p \<noteq> l" "n \<noteq> l" "p \<notin> set zs" "n \<notin> set ys" using d by auto
  have m': "link_prev (m' k) = (if k = l then 0 else if k = n then p else link_prev (m k))"
    "link_next (m' k) = (if k = l then 0 else if k = p then n else link_next (m k))" for k
    using pl by (auto simp: m'_def list_remove_def Let_def link_init_def pn)
  show "link_used l (list_remove l m)" by (simp add: link_used_def m'_def [symmetric] m')
  have b: "k \<noteq> p \<and> k \<noteq> l" if "k \<in> set (butlast (lh # ys))" for k
    using last_butlast_ends [of "lh # ys" k] d that in_set_butlastD [OF that] by (auto simp: p_def)
  have ys: "seg m' lh ys n"
    by (rule seg_relink_end [OF s(1)]) (use d pl b in \<open>auto simp: m' p_def [symmetric] simp del: last.simps butlast.simps\<close>)
  have "seg m' lh (ys @ zs) lh"
  proof (cases zs)
    case Nil
    then show ?thesis using ys by (simp add: n_def)
  next
    case (Cons z zs')
    have "seg m' z zs' lh \<longleftrightarrow> seg m z zs' lh"
      by (rule seg_cong) (use d pl Cons in \<open>auto simp: m' n_def\<close>)
    then show ?thesis using ys s(2) Cons by (simp add: n_def seg_append)
  qed
  then show "ring (list_remove l m) lh (ys @ zs)" using d by (simp add: ring_def m'_def [symmetric])
qed

lemma list_walk_seg: "seg m a xs lh \<Longrightarrow> lh \<notin> set xs \<Longrightarrow> list_walk m lh (hd (xs @ [lh])) = Some xs"
proof (induction xs arbitrary: a)
  case Nil
  then show ?case by (simp add: list_walk.simps)
next
  case (Cons x xs)
  then have "link_next (m x) = hd (xs @ [lh])" by (auto intro: seg_next)
  with Cons show ?case by (subst list_walk.simps) auto
qed

lemma list_walk_inverse_seg:
  "seg m lh xs b \<Longrightarrow> lh \<notin> set xs \<Longrightarrow> list_walk_inverse m lh (last (lh # xs)) = Some (rev xs)"
proof (induction xs arbitrary: b rule: rev_induct)
  case Nil
  then show ?case by (simp add: list_walk_inverse.simps)
next
  case (snoc x xs)
  then have "seg m lh xs x" by (simp add: seg_append)
  then have "link_prev (m x) = last (lh # xs)" by (rule seg_prev)
  with snoc show ?case by (subst list_walk_inverse.simps) (auto simp: seg_append)
qed

subsection \<open>The interface\<close>

text \<open>
  What users of the lists rely on: a representation \<open>rep\<close> of member sequences that the
  operations keep, and the sequence the loops visit. A \<open>script\<close> is a sequence of operations on one
  list; its effect on the sequence is \<open>run_spec\<close>.
\<close>

datatype list_op = Append u32 | Prepend u32 | Remove u32

fun op_spec :: "list_op \<Rightarrow> u32 list \<Rightarrow> u32 list" where
  "op_spec (Append l) xs = xs @ [l]"
| "op_spec (Prepend l) xs = l # xs"
| "op_spec (Remove l) xs = remove1 l xs"

fun op_ok :: "u32 \<Rightarrow> list_op \<Rightarrow> u32 list \<Rightarrow> bool" where
  "op_ok lh (Append l) xs \<longleftrightarrow> l \<notin> set (lh # xs)"
| "op_ok lh (Prepend l) xs \<longleftrightarrow> l \<notin> set (lh # xs)"
| "op_ok lh (Remove l) xs \<longleftrightarrow> l \<in> set xs"

fun list_exec :: "u32 \<Rightarrow> list_op \<Rightarrow> links \<Rightarrow> links" where
  "list_exec lh (Append l) m = list_append lh l m"
| "list_exec lh (Prepend l) m = list_prepend lh l m"
| "list_exec lh (Remove l) m = list_remove l m"

fun script_ok :: "u32 \<Rightarrow> list_op list \<Rightarrow> u32 list \<Rightarrow> bool" where
  "script_ok lh [] xs \<longleftrightarrow> True"
| "script_ok lh (c # cs) xs \<longleftrightarrow> op_ok lh c xs \<and> script_ok lh cs (op_spec c xs)"

locale linked_sequence =
  fixes rep :: "'m \<Rightarrow> u32 \<Rightarrow> u32 list \<Rightarrow> bool"
    and init :: "u32 \<Rightarrow> 'm \<Rightarrow> 'm"
    and exec :: "u32 \<Rightarrow> list_op \<Rightarrow> 'm \<Rightarrow> 'm"
    and visit :: "u32 \<Rightarrow> 'm \<Rightarrow> u32 list option"
  assumes rep_init: "rep (init lh m) lh []"
    and rep_exec: "rep m lh xs \<Longrightarrow> op_ok lh c xs \<Longrightarrow> rep (exec lh c m) lh (op_spec c xs)"
    and rep_visit: "rep m lh xs \<Longrightarrow> visit lh m = Some xs"
begin

lemma script_rep: "rep m lh xs \<Longrightarrow> script_ok lh cs xs \<Longrightarrow> rep (fold (exec lh) cs m) lh (fold op_spec cs xs)"
  by (induction cs arbitrary: m xs) (auto intro: rep_exec)

lemma script_visit: "script_ok lh cs [] \<Longrightarrow> visit lh (fold (exec lh) cs (init lh m)) = Some (fold op_spec cs [])"
  by (intro rep_visit script_rep rep_init)

end

lemma list_foreach_ring: "ring m lh xs \<Longrightarrow> list_foreach lh m = Some xs"
  using list_walk_seg [of m lh xs lh] seg_next [of m lh xs lh] by (auto simp: ring_def list_foreach_def)

lemma list_foreach_inverse_ring: "ring m lh xs \<Longrightarrow> list_foreach_inverse lh m = Some (rev xs)"
  using list_walk_inverse_seg [of m lh xs lh] seg_prev [of m lh xs lh] by (auto simp: ring_def list_foreach_inverse_def)

lemma list_exec_ring: "ring m lh xs \<Longrightarrow> op_ok lh c xs \<Longrightarrow> ring (list_exec lh c m) lh (op_spec c xs)"
proof (cases c)
  case (Remove l)
  assume r: "ring m lh xs" and ok: "op_ok lh c xs"
  then obtain ys zs where xs: "xs = ys @ l # zs" using Remove by (auto dest: split_list)
  then have "l \<notin> set ys" using r by (auto simp: ring_def)
  then have "remove1 l xs = ys @ zs" by (simp add: xs remove1_append)
  then show ?thesis using r list_remove_ring(1) [of m lh ys l zs] by (simp add: Remove xs)
qed (auto intro: list_append_ring list_prepend_ring)

interpretation fwd: linked_sequence ring list_init list_exec list_foreach
  by unfold_locales (auto intro: list_init_ring list_exec_ring list_foreach_ring)

interpretation bwd: linked_sequence ring list_init list_exec "\<lambda>lh m. map_option rev (list_foreach_inverse lh m)"
  by unfold_locales (auto intro: list_init_ring list_exec_ring simp: list_foreach_inverse_ring)

text \<open>
  C31. Starting from an initialised list, any sequence of appends and prepends of links not yet in
  the list and removals of members leaves a list whose forward loop visits exactly the members of
  the corresponding sequence in order, whose backward loop visits them in reverse order, and which
  is empty exactly when the sequence is: the loops always come back to the head.
\<close>

theorem list_script_members:
  fixes m :: links
  assumes "script_ok lh cs []"
  defines "m' \<equiv> fold (list_exec lh) cs (list_init lh m)"
  shows "list_foreach lh m' = Some (fold op_spec cs []) \<and> list_foreach_inverse lh m' = Some (rev (fold op_spec cs [])) \<and>
    (list_empty lh m' \<longleftrightarrow> fold op_spec cs [] = [])"
proof (intro conjI)
  have r: "ring m' lh (fold op_spec cs [])" unfolding m'_def by (rule fwd.script_rep [OF list_init_ring assms(1)])
  show "list_foreach lh m' = Some (fold op_spec cs [])" unfolding m'_def by (rule fwd.script_visit [OF assms(1)])
  show "list_foreach_inverse lh m' = Some (rev (fold op_spec cs []))"
    using bwd.script_visit [OF assms(1), of m] by (auto simp: m'_def rev_swap)
  show "list_empty lh m' \<longleftrightarrow> fold op_spec cs [] = []" by (rule list_empty_ring [OF r])
qed

theorem list_script_members_witness:
  "script_ok 1 [Append 16, Append 32, Prepend 8, Remove 16] [] \<and>
   list_foreach 1 (fold (list_exec 1) [Append 16, Append 32, Prepend 8, Remove 16]
     (list_init 1 (\<lambda>_. \<lparr>link_prev = 0, link_next = 0\<rparr>))) = Some [8, 32]"
  using list_script_members [of 1 "[Append 16, Append 32, Prepend 8, Remove 16]"] by simp

end
