(* ===== verification/Bytes.thy ===== *)
theory Bytes
  imports Prelude
begin

text \<open>
  Values in bytes: little endian fields of a buffer, and a memory of bytes that is read and written by
  ranges.
\<close>

subsection \<open>Fields of a buffer\<close>

definition le_nat :: "u8 list \<Rightarrow> nat" where
  "le_nat bs = foldr (\<lambda>b n. unat b + 256 * n) bs 0"

definition get_le :: "nat \<Rightarrow> u8 list \<Rightarrow> nat \<Rightarrow> 'a::len word" where
  "get_le n buf i = of_nat (le_nat (take n (drop i buf)))"

definition le_bytes :: "nat \<Rightarrow> 'a::len word \<Rightarrow> u8 list" where
  "le_bytes n v = map (\<lambda>i. ucast (drop_bit (8 * i) v)) [0..<n]"

lemma length_le_bytes [simp]: "length (le_bytes n v) = n"
  by (simp add: le_bytes_def)

lemma le_bytes_Suc: "le_bytes (Suc n) v = ucast v # le_bytes n (drop_bit 8 v)"
  by (simp add: le_bytes_def upt_conv_Cons map_Suc_upt [symmetric] add.commute del: upt_Suc)

lemma le_nat_le_bytes: "le_nat (le_bytes n v) = unat v mod 256 ^ n"
proof (induction n arbitrary: v)
  case (Suc n)
  have "unat (ucast v :: u8) = unat v mod 256" by (simp add: unsigned_ucast_eq take_bit_eq_mod)
  moreover have "unat (drop_bit 8 v) = unat v div 256" by (simp only: unat_drop_bit_eq) (simp add: drop_bit_eq_div)
  ultimately show ?case using Suc by (simp add: le_bytes_Suc le_nat_def mod_mult2_eq)
qed (simp add: le_nat_def le_bytes_def)

lemma get_le_le_bytes:
  "8 * n = LENGTH('a) \<Longrightarrow> length xs = i \<Longrightarrow> get_le n (xs @ le_bytes n v @ ys) i = v" for v :: "'a::len word"
proof -
  assume n: "8 * n = LENGTH('a)" "length xs = i"
  have "(256 :: nat) ^ n = 2 ^ LENGTH('a)" using power_mult [of "2 :: nat" 8 n] n(1) by simp
  then have "unat v mod 256 ^ n = unat v" using unsigned_less [of v] by simp
  then show ?thesis using n(2) by (simp add: get_le_def le_nat_le_bytes)
qed

lemmas get_le_head = get_le_le_bytes [where xs = "[]" and i = 0, simplified]

lemma get_le_append: "i + n \<le> length xs \<Longrightarrow> get_le n (xs @ ys) i = get_le n xs i"
  by (simp add: get_le_def)

lemma get_le_skip: "length xs \<le> i \<Longrightarrow> get_le n (xs @ ys) i = get_le n ys (i - length xs)"
  by (simp add: get_le_def)

lemma get_le_drop: "get_le n (drop k xs) i = get_le n xs (k + i)"
  by (simp add: get_le_def add.commute)

subsection \<open>Memory\<close>

type_synonym mem = "nat \<Rightarrow> u8"

definition mem_get :: "mem \<Rightarrow> nat \<Rightarrow> nat \<Rightarrow> u8 list" where
  "mem_get m a n = map m [a..<a + n]"

definition mem_put :: "nat \<Rightarrow> u8 list \<Rightarrow> mem \<Rightarrow> mem" where
  "mem_put a bs m = (\<lambda>i. if a \<le> i \<and> i < a + length bs then bs ! (i - a) else m i)"

definition ld32 :: "mem \<Rightarrow> nat \<Rightarrow> u32" where
  "ld32 m a = get_le 4 (mem_get m a 4) 0"

lemma length_mem_get [simp]: "length (mem_get m a n) = n"
  by (simp add: mem_get_def)

lemma mem_get_put_same [simp]: "n = length bs \<Longrightarrow> mem_get (mem_put a bs m) a n = bs"
  by (auto simp: mem_get_def mem_put_def intro!: nth_equalityI)

lemma mem_get_put_other: "b + n \<le> a \<or> a + length bs \<le> b \<Longrightarrow> mem_get (mem_put a bs m) b n = mem_get m b n"
  by (auto simp: mem_get_def mem_put_def)

lemma mem_get_add: "mem_get m a (n + k) = mem_get m a n @ mem_get m (a + n) k"
  using upt_add_eq_append [of a "a + n" k] by (simp add: mem_get_def add.assoc)

lemma take_mem_get: "k \<le> n \<Longrightarrow> take k (mem_get m a n) = mem_get m a k"
  by (simp add: mem_get_def take_map take_upt)

lemma drop_mem_get: "drop k (mem_get m a n) = mem_get m (a + k) (n - k)"
  by (cases "k \<le> n") (simp_all add: mem_get_def drop_map drop_upt)

lemma mem_put_append: "mem_put a (xs @ ys) m = mem_put (a + length xs) ys (mem_put a xs m)"
  by (auto simp: mem_put_def nth_append fun_eq_iff diff_diff_left)

lemma mem_put_swap: "a + length xs \<le> b \<or> b + length ys \<le> a \<Longrightarrow> mem_put a xs (mem_put b ys m) = mem_put b ys (mem_put a xs m)"
  by (auto simp: mem_put_def fun_eq_iff)

lemma mem_put_Nil [simp]: "mem_put a [] m = m"
  by (auto simp: mem_put_def fun_eq_iff)

lemma mem_put_get [simp]: "mem_put a (mem_get m a n) m = m"
  by (auto simp: mem_put_def mem_get_def fun_eq_iff)

lemma mem_put_twice: "length xs = length ys \<Longrightarrow> mem_put a xs (mem_put a ys m) = mem_put a xs m"
  by (auto simp: mem_put_def fun_eq_iff)

lemma mem_get_put_inside:
  assumes "a \<le> b" "b + n \<le> a + length bs"
  shows "mem_get (mem_put a bs m) b n = take n (drop (b - a) bs)"
  using assms by (auto simp: mem_get_def mem_put_def intro!: nth_equalityI)

lemma ld32_put_other: "b + 4 \<le> a \<or> a + length bs \<le> b \<Longrightarrow> ld32 (mem_put a bs m) b = ld32 m b"
  by (simp add: ld32_def mem_get_put_other)

lemma ld32_put_same: "ld32 (mem_put a (le_bytes 4 v) m) a = v"
  using get_le_head [of 4 v "[]"] by (simp add: ld32_def)

end
