(* ===== verification/Emmc.thy ===== *)
theory Emmc
  imports Bytes
begin

text \<open>
  The eMMC front end, \<open>bdk/storage/emmc.c\<close>: error counters, initialisation that falls back to
  slower bus modes, the partition table, and reads and writes inside a partition. The storage
  driver is a parameter: what initialising, ending, reading and writing do to the device.
\<close>

subsection \<open>Bus modes and state\<close>

definition SDMMC_BUS_WIDTH_1 :: u32 where "SDMMC_BUS_WIDTH_1 = 0"
definition SDMMC_BUS_WIDTH_4 :: u32 where "SDMMC_BUS_WIDTH_4 = 1"
definition SDMMC_BUS_WIDTH_8 :: u32 where "SDMMC_BUS_WIDTH_8 = 2"
definition SDHCI_TIMING_MMC_HS52 :: u32 where "SDHCI_TIMING_MMC_HS52 = 2"
definition SDHCI_TIMING_MMC_HS200 :: u32 where "SDHCI_TIMING_MMC_HS200 = 3"
definition SDHCI_TIMING_MMC_HS400 :: u32 where "SDHCI_TIMING_MMC_HS400 = 4"
definition EMMC_INIT_FAIL :: u32 where "EMMC_INIT_FAIL = 0"
definition EMMC_1BIT_HS52 :: u32 where "EMMC_1BIT_HS52 = 1"
definition EMMC_8BIT_HS52 :: u32 where "EMMC_8BIT_HS52 = 2"
definition EMMC_MMC_HS200 :: u32 where "EMMC_MMC_HS200 = 3"
definition EMMC_MMC_HS400 :: u32 where "EMMC_MMC_HS400 = 4"
definition EMMC_ERROR_INIT_FAIL :: u8 where "EMMC_ERROR_INIT_FAIL = 0"
definition EMMC_ERROR_RW_FAIL :: u8 where "EMMC_ERROR_RW_FAIL = 1"
definition EMMC_ERROR_RW_RETRY :: u8 where "EMMC_ERROR_RW_RETRY = 2"

lemmas emmc_mode_defs =
  EMMC_INIT_FAIL_def EMMC_1BIT_HS52_def EMMC_8BIT_HS52_def EMMC_MMC_HS200_def EMMC_MMC_HS400_def

record 'w emmc_env =
  emmc_storage_init :: "u32 \<Rightarrow> u32 \<Rightarrow> 'w \<Rightarrow> bool \<times> 'w"
  emmc_storage_end :: "'w \<Rightarrow> 'w"
  emmc_storage_set_partition :: "u32 \<Rightarrow> 'w \<Rightarrow> bool \<times> 'w"
  emmc_storage_read :: "u32 \<Rightarrow> u32 \<Rightarrow> 'w \<Rightarrow> bool \<times> u8 list \<times> 'w"
  emmc_storage_write :: "u32 \<Rightarrow> u32 \<Rightarrow> u8 list \<Rightarrow> 'w \<Rightarrow> bool \<times> 'w"

record 'w emmc_state =
  emmc_mode :: u32
  emmc_errors :: "u16 list"
  emmc_dev :: 'w

definition emmc_error_count_increment :: "u8 \<Rightarrow> 'w emmc_state \<Rightarrow> 'w emmc_state" where
  "emmc_error_count_increment type s =
     (if type = EMMC_ERROR_INIT_FAIL then s\<lparr>emmc_errors := (emmc_errors s)[0 := emmc_errors s ! 0 + 1]\<rparr>
      else if type = EMMC_ERROR_RW_FAIL then s\<lparr>emmc_errors := (emmc_errors s)[1 := emmc_errors s ! 1 + 1]\<rparr>
      else if type = EMMC_ERROR_RW_RETRY then s\<lparr>emmc_errors := (emmc_errors s)[2 := emmc_errors s ! 2 + 1]\<rparr>
      else s)"

definition emmc_get_error_count :: "'w emmc_state \<Rightarrow> u16 list" where
  "emmc_get_error_count s = emmc_errors s"

definition emmc_get_mode :: "'w emmc_state \<Rightarrow> u32" where
  "emmc_get_mode s = emmc_mode s"

definition emmc_end :: "'w emmc_env \<Rightarrow> 'w emmc_state \<Rightarrow> 'w emmc_state" where
  "emmc_end env s = s\<lparr>emmc_dev := emmc_storage_end env (emmc_dev s)\<rparr>"

subsection \<open>Initialisation\<close>

text \<open>The result is \<open>True\<close> on an error, as the code's nonzero results.\<close>

definition emmc_try :: "'w emmc_env \<Rightarrow> u32 \<Rightarrow> u32 \<Rightarrow> 'w emmc_state \<Rightarrow> bool \<times> 'w emmc_state" where
  "emmc_try env bus_width type s =
     (let (res, d) = emmc_storage_init env bus_width type (emmc_dev s) in (res, s\<lparr>emmc_dev := d\<rparr>))"

definition emmc_init_retry :: "'w emmc_env \<Rightarrow> bool \<Rightarrow> 'w emmc_state \<Rightarrow> bool \<times> 'w emmc_state" where
  "emmc_init_retry env power_cycle s0 =
     (let s = (if power_cycle then emmc_end env (s0\<lparr>emmc_mode := emmc_mode s0 - 1\<rparr>) else s0)
      in if emmc_mode s = EMMC_INIT_FAIL then (True, s)
         else if emmc_mode s = EMMC_1BIT_HS52 then emmc_try env SDMMC_BUS_WIDTH_1 SDHCI_TIMING_MMC_HS52 s
         else if emmc_mode s = EMMC_8BIT_HS52 then emmc_try env SDMMC_BUS_WIDTH_8 SDHCI_TIMING_MMC_HS52 s
         else if emmc_mode s = EMMC_MMC_HS200 then emmc_try env SDMMC_BUS_WIDTH_8 SDHCI_TIMING_MMC_HS200 s
         else if emmc_mode s = EMMC_MMC_HS400 then emmc_try env SDMMC_BUS_WIDTH_8 SDHCI_TIMING_MMC_HS400 s
         else emmc_try env SDMMC_BUS_WIDTH_8 SDHCI_TIMING_MMC_HS400 (s\<lparr>emmc_mode := EMMC_MMC_HS400\<rparr>))"

lemma emmc_try_frame [simp]:
  "emmc_mode (snd (emmc_try env b t s)) = emmc_mode s" "emmc_errors (snd (emmc_try env b t s)) = emmc_errors s"
  "fst (emmc_try env b t s) = fst (emmc_storage_init env b t (emmc_dev s))"
  by (simp_all add: emmc_try_def split_def Let_def)

lemma emmc_end_frame [simp]:
  "emmc_mode (emmc_end env s) = emmc_mode s" "emmc_errors (emmc_end env s) = emmc_errors s"
  by (simp_all add: emmc_end_def)

lemma emmc_init_retry_mode:
  "emmc_mode (snd (emmc_init_retry env pc s)) =
     (let m = (if pc then emmc_mode s - 1 else emmc_mode s) in if m > EMMC_MMC_HS400 then EMMC_MMC_HS400 else m)"
proof -
  define m where "m = (if pc then emmc_mode s - 1 else emmc_mode s)"
  have "m > 4 \<longleftrightarrow> m \<noteq> 0 \<and> m \<noteq> 1 \<and> m \<noteq> 2 \<and> m \<noteq> 3 \<and> m \<noteq> 4"
    by (simp add: word_less_nat_alt word_unat_eq_iff) linarith
  then show ?thesis unfolding emmc_init_retry_def Let_def m_def [symmetric]
    by (cases pc) (simp_all add: emmc_mode_defs m_def)
qed

lemma emmc_init_retry_errors [simp]: "emmc_errors (snd (emmc_init_retry env pc s)) = emmc_errors s"
  by (simp add: emmc_init_retry_def Let_def)

lemma unat_minus_one: "x \<noteq> 0 \<Longrightarrow> unat (x - 1) = unat x - 1" for x :: u32
  by (simp add: unat_minus_no_wrap word_le_nat_alt unat_gt_0 Suc_leI)

lemma emmc_init_retry_decreases:
  "emmc_mode s \<noteq> 0 \<Longrightarrow> unat (emmc_mode (snd (emmc_init_retry env True s))) = min 4 (unat (emmc_mode s) - 1)"
  unfolding emmc_init_retry_mode by (simp add: Let_def emmc_mode_defs word_less_nat_alt unat_minus_one min_def)

function emmc_init_loop :: "'w emmc_env \<Rightarrow> bool \<Rightarrow> 'w emmc_state \<Rightarrow> bool \<times> 'w emmc_state" where
  "emmc_init_loop env res s =
     (if \<not> res then (False, s)
      else let s1 = s\<lparr>emmc_errors := (emmc_errors s)[0 := emmc_errors s ! 0 + 1]\<rparr>
           in if emmc_mode s1 = EMMC_INIT_FAIL then (True, emmc_end env s1)
              else emmc_init_loop env (fst (emmc_init_retry env True s1)) (snd (emmc_init_retry env True s1)))"
  by pat_completeness auto
termination
proof (relation "measure (\<lambda>(env, res, s). unat (emmc_mode s))", goal_cases)
  case 1
  then show ?case by simp
next
  case prems: (2 env res s s1)
  then have "emmc_mode s \<noteq> 0" by (simp add: EMMC_INIT_FAIL_def)
  then have "unat (emmc_mode s) \<noteq> 0" by (simp add: unat_eq_0)
  then show ?case using prems emmc_init_retry_decreases [of s1 env] \<open>emmc_mode s \<noteq> 0\<close> by (simp add: split_def)
qed

declare emmc_init_loop.simps [simp del]

definition emmc_initialize :: "'w emmc_env \<Rightarrow> bool \<Rightarrow> 'w emmc_state \<Rightarrow> bool \<times> 'w emmc_state" where
  "emmc_initialize env power_cycle s0 =
     (let s1 = (if emmc_mode s0 = EMMC_INIT_FAIL then s0\<lparr>emmc_mode := EMMC_MMC_HS400\<rparr> else s0);
          s2 = (if power_cycle then emmc_end env s1 else s1);
          (res, s3) = emmc_init_retry env False s2
      in emmc_init_loop env res s3)"

definition emmc_set_partition :: "'w emmc_env \<Rightarrow> u32 \<Rightarrow> 'w emmc_state \<Rightarrow> bool \<times> 'w emmc_state" where
  "emmc_set_partition env part s =
     (let (res, d) = emmc_storage_set_partition env part (emmc_dev s) in (res, s\<lparr>emmc_dev := d\<rparr>))"

subsection \<open>Partition table\<close>

definition GPT_FIRST_LBA :: u32 where "GPT_FIRST_LBA = 1"
definition GPT_NUM_BLOCKS :: u32 where "GPT_NUM_BLOCKS = 33"
definition EMMC_BLOCKSIZE :: nat where "EMMC_BLOCKSIZE = 512"

record emmc_part_t =
  ep_index :: u32
  ep_lba_start :: u32
  ep_lba_end :: u32
  ep_attrs :: u64
  ep_name :: "u8 list"

record gpt_entry_t =
  ge_lba_start :: u64
  ge_lba_end :: u64
  ge_attrs :: u64
  ge_name :: "u16 list"

text \<open>Fields of the table in the sectors read: the header fills the first, 128 byte entries follow.\<close>

definition gpt_entry :: "u8 list \<Rightarrow> nat \<Rightarrow> gpt_entry_t" where
  "gpt_entry buf i =
     (let b = 512 + 128 * i
      in \<lparr>ge_lba_start = get_le 8 buf (b + 0x20), ge_lba_end = get_le 8 buf (b + 0x28),
          ge_attrs = get_le 8 buf (b + 0x30), ge_name = map (\<lambda>j. get_le 2 buf (b + 0x38 + 2 * j)) [0..<36]\<rparr>)"

definition gpt_signature_ok :: "u8 list \<Rightarrow> bool" where
  "gpt_signature_ok buf \<longleftrightarrow> take 8 buf = map (\<lambda>c. of_nat (of_char c)) ''EFI PART''"

definition gpt_first_use_lba :: "u8 list \<Rightarrow> u64" where
  "gpt_first_use_lba buf = get_le 8 buf 0x28"

definition gpt_num_part_ents :: "u8 list \<Rightarrow> u32" where
  "gpt_num_part_ents buf = get_le 4 buf 0x50"

text \<open>
  One partition: addresses truncated to 32 bits, the low bytes of the first 35 characters of the
  name, in a buffer of 37 zeroed bytes.
\<close>

definition gpt_part :: "nat \<Rightarrow> gpt_entry_t \<Rightarrow> emmc_part_t" where
  "gpt_part i e =
     \<lparr>ep_index = of_nat i, ep_lba_start = ucast (ge_lba_start e), ep_lba_end = ucast (ge_lba_end e),
      ep_attrs = ge_attrs e, ep_name = (map ucast (ge_name e) @ [0])[35 := 0]\<rparr>"

fun gpt_loop :: "u8 list \<Rightarrow> nat \<Rightarrow> nat \<Rightarrow> emmc_part_t list \<Rightarrow> emmc_part_t list" where
  "gpt_loop buf i 0 gpt = gpt"
| "gpt_loop buf i (Suc n) gpt =
     (if ge_lba_start (gpt_entry buf i) < gpt_first_use_lba buf then gpt_loop buf (Suc i) n gpt
      else gpt_loop buf (Suc i) n (gpt @ [gpt_part i (gpt_entry buf i)]))"

text \<open>The result of the read is not checked: on an error the buffer keeps what was delivered, else zero.\<close>

definition gpt_buffer :: "u8 list \<Rightarrow> u8 list" where
  "gpt_buffer data = (let len = unat GPT_NUM_BLOCKS * EMMC_BLOCKSIZE in take len (data @ replicate len 0))"

definition emmc_gpt_parse :: "'w emmc_env \<Rightarrow> emmc_part_t list \<Rightarrow> 'w emmc_state \<Rightarrow> emmc_part_t list \<times> 'w emmc_state" where
  "emmc_gpt_parse env gpt s =
     (let (res, data, d) = emmc_storage_read env GPT_FIRST_LBA GPT_NUM_BLOCKS (emmc_dev s);
          buf = gpt_buffer data
      in (if \<not> gpt_signature_ok buf \<or> gpt_num_part_ents buf > 128 then gpt
          else gpt_loop buf 0 (unat (gpt_num_part_ents buf)) gpt, s\<lparr>emmc_dev := d\<rparr>))"

definition c_string :: "u8 list \<Rightarrow> u8 list" where
  "c_string bs = takeWhile (\<lambda>b. b \<noteq> 0) bs"

definition emmc_part_find :: "emmc_part_t list \<Rightarrow> u8 list \<Rightarrow> emmc_part_t option" where
  "emmc_part_find gpt name = find (\<lambda>p. c_string (ep_name p) = name) gpt"

subsection \<open>Access to a partition\<close>

definition emmc_part_read ::
  "'w emmc_env \<Rightarrow> emmc_part_t \<Rightarrow> u32 \<Rightarrow> u32 \<Rightarrow> 'w emmc_state \<Rightarrow> bool \<times> u8 list \<times> 'w emmc_state" where
  "emmc_part_read env part sector_off num_sectors s =
     (if ep_lba_start part + sector_off > ep_lba_end part then (True, [], s)
      else let (res, data, d) = emmc_storage_read env (ep_lba_start part + sector_off) num_sectors (emmc_dev s)
           in (res, data, s\<lparr>emmc_dev := d\<rparr>))"

definition emmc_part_write ::
  "'w emmc_env \<Rightarrow> emmc_part_t \<Rightarrow> u32 \<Rightarrow> u32 \<Rightarrow> u8 list \<Rightarrow> 'w emmc_state \<Rightarrow> bool \<times> 'w emmc_state" where
  "emmc_part_write env part sector_off num_sectors buf s =
     (if ep_lba_start part + sector_off > ep_lba_end part then (True, s)
      else let (res, d) = emmc_storage_write env (ep_lba_start part + sector_off) num_sectors buf (emmc_dev s)
           in (res, s\<lparr>emmc_dev := d\<rparr>))"

definition nx_emmc_get_autorcm_masks :: "bool \<Rightarrow> u8 \<times> u8" where
  "nx_emmc_get_autorcm_masks hw_state_prod = (if hw_state_prod then (0xF7, 0x86) else (0x37, 0x84))"

subsection \<open>Falling back to slower modes\<close>

text \<open>The highest accepted level below \<open>l\<close>, or failure at level 0.\<close>

definition fallback_result :: "(nat \<Rightarrow> bool) \<Rightarrow> nat \<Rightarrow> bool \<Rightarrow> nat \<Rightarrow> bool" where
  "fallback_result accepts l fail k \<longleftrightarrow>
     (if \<exists>m. 0 < m \<and> m < l \<and> accepts m
      then \<not> fail \<and> 0 < k \<and> k < l \<and> accepts k \<and> (\<forall>m. k < m \<and> m < l \<longrightarrow> \<not> accepts m)
      else fail \<and> k = 0)"

lemma fallback_result_Suc_skip:
  "n = 0 \<or> \<not> accepts n \<Longrightarrow> fallback_result accepts n f k \<Longrightarrow> fallback_result accepts (Suc n) f k"
  by (auto simp: fallback_result_def less_Suc_eq split: if_splits)

lemma fallback_result_Suc_hit: "0 < n \<Longrightarrow> accepts n \<Longrightarrow> fallback_result accepts (Suc n) False n"
  by (auto simp: fallback_result_def)

text \<open>
  The contract of an initialisation loop that retries one level lower after every failure, shared by
  the eMMC and the SD card: \<open>retry\<close> tries the next level below, \<open>tally\<close> counts a failure, and the
  loop goes on while the device is \<open>present\<close>.
\<close>

locale mode_fallback =
  fixes level :: "'s \<Rightarrow> nat" and errs :: "'s \<Rightarrow> u16"
    and retry :: "'s \<Rightarrow> bool \<times> 's" and tally :: "'s \<Rightarrow> 's" and finish :: "'s \<Rightarrow> 's"
    and loop :: "bool \<Rightarrow> 's \<Rightarrow> bool \<times> 's" and wf :: "'s \<Rightarrow> bool" and top :: nat
    and present :: "'s \<Rightarrow> bool"
  assumes loop_ok: "loop False s = (False, s)"
    and loop_stop: "wf s \<Longrightarrow> present s \<Longrightarrow> level s = 0 \<Longrightarrow> loop True s = (True, finish (tally s))"
    and loop_step: "wf s \<Longrightarrow> present s \<Longrightarrow> 0 < level s \<Longrightarrow> loop True s = loop (fst (retry (tally s))) (snd (retry (tally s)))"
    and tally_level: "wf s \<Longrightarrow> level (tally s) = level s" and tally_errs: "wf s \<Longrightarrow> errs (tally s) = errs s + 1"
    and tally_wf: "wf s \<Longrightarrow> wf (tally s)"
    and retry_level: "wf s \<Longrightarrow> 0 < level s \<Longrightarrow> level s \<le> top \<Longrightarrow> level (snd (retry s)) = level s - 1"
    and retry_errs: "errs (snd (retry s)) = errs s" and retry_wf: "wf s \<Longrightarrow> wf (snd (retry s))"
    and finish_level: "level (finish s) = level s" and finish_errs: "errs (finish s) = errs s"
begin

lemma fallback:
  assumes retry_ok: "\<And>s. wf s \<Longrightarrow> 0 < level s \<Longrightarrow> level s \<le> top \<Longrightarrow> fst (retry s) \<longleftrightarrow> level s = 1 \<or> \<not> accepts (level s - 1)"
    and here: "\<And>s. present s" and "wf s" "level s \<le> top"
  shows "fallback_result accepts (level s) (fst (loop True s)) (level (snd (loop True s))) \<and>
    errs (snd (loop True s)) = errs s + of_nat (level s - level (snd (loop True s)) + (if fst (loop True s) then 1 else 0)) \<and>
    level (snd (loop True s)) \<le> level s"
  using assms(3,4)
proof (induction "level s" arbitrary: s)
  case 0
  then show ?case by (simp add: loop_stop here finish_level finish_errs tally_level tally_errs fallback_result_def)
next
  case (Suc n)
  define t where "t = snd (retry (tally s))"
  have pos: "0 < level s" "level (tally s) \<le> top" "0 < level (tally s)" using Suc by (simp_all add: tally_level flip: Suc.hyps(2))
  have t: "wf t" "level t = n" "errs t = errs s + 1" "n \<le> top"
    using Suc pos by (simp_all add: t_def retry_wf tally_wf retry_level tally_level retry_errs tally_errs flip: Suc.hyps(2))
  have l: "loop True s = loop (fst (retry (tally s))) t" using loop_step [OF Suc.prems(1) here pos(1)] by (simp add: t_def)
  have ok: "fst (retry (tally s)) \<longleftrightarrow> n = 0 \<or> \<not> accepts n"
    using retry_ok [OF tally_wf [OF Suc.prems(1)] pos(3,2)] by (simp add: tally_level [OF Suc.prems(1)] flip: Suc.hyps(2))
  show ?case
  proof (cases "fst (retry (tally s))")
    case False
    then have "loop True s = (False, t)" by (simp add: l loop_ok)
    then show ?thesis using False ok t fallback_result_Suc_hit [of n accepts] by (simp flip: Suc.hyps(2))
  next
    case True
    then have l: "loop True s = loop True t" by (simp add: l)
    note IH = Suc.hyps(1) [OF t(2) [symmetric] t(1)]
    have "fallback_result accepts (level s) (fst (loop True t)) (level (snd (loop True t)))"
      using IH t(2,4) True ok fallback_result_Suc_skip [of n accepts] by (simp flip: Suc.hyps(2))
    then show ?thesis unfolding l using IH t(2-4) by (simp add: Suc_diff_le flip: Suc.hyps(2))
  qed
qed

end

lemma emmc_init_loop_step:
  "emmc_mode s \<noteq> 0 \<Longrightarrow> emmc_init_loop env True s =
     emmc_init_loop env (fst (emmc_init_retry env True (s\<lparr>emmc_errors := (emmc_errors s)[0 := emmc_errors s ! 0 + 1]\<rparr>)))
       (snd (emmc_init_retry env True (s\<lparr>emmc_errors := (emmc_errors s)[0 := emmc_errors s ! 0 + 1]\<rparr>)))"
  by (subst emmc_init_loop.simps) (simp add: EMMC_INIT_FAIL_def Let_def)

interpretation emmc: mode_fallback "\<lambda>s. unat (emmc_mode s)" "\<lambda>s. emmc_errors s ! 0" "emmc_init_retry env True"
    "\<lambda>s. s\<lparr>emmc_errors := (emmc_errors s)[0 := emmc_errors s ! 0 + 1]\<rparr>" "emmc_end env" "emmc_init_loop env"
    "\<lambda>s. length (emmc_errors s) = 3" 5 "\<lambda>s. True" for env :: "'w emmc_env"
proof (unfold_locales, goal_cases)
  case (3 s)
  then show ?case using emmc_init_loop_step [of s env] by (simp add: unat_gt_0)
next
  case (7 s)
  then show ?case using emmc_init_retry_decreases [of s env] by (simp add: unat_gt_0)
qed (simp_all add: emmc_init_loop.simps EMMC_INIT_FAIL_def unat_eq_0 emmc_init_retry_decreases)

text \<open>Bus width and timing of a mode.\<close>

definition emmc_params :: "nat \<Rightarrow> u32 \<times> u32" where
  "emmc_params m = (if m = 1 then SDMMC_BUS_WIDTH_1 else SDMMC_BUS_WIDTH_8,
     if m \<le> 2 then SDHCI_TIMING_MMC_HS52 else if m = 3 then SDHCI_TIMING_MMC_HS200 else SDHCI_TIMING_MMC_HS400)"

lemma emmc_init_retry_fst:
  assumes "\<And>b t d. fst (emmc_storage_init env b t d) \<longleftrightarrow> \<not> acc (b, t)"
    and "m = (if pc then emmc_mode s - 1 else emmc_mode s)"
  shows "fst (emmc_init_retry env pc s) \<longleftrightarrow> m = 0 \<or> \<not> acc (emmc_params (unat (if m > 4 then 4 else m)))"
proof -
  consider "m = 0" | "m = 1" | "m = 2" | "m = 3" | "m = 4" | "m > 4"
    by (simp add: word_less_nat_alt word_unat_eq_iff) linarith
  then show ?thesis
  proof cases
    case 6
    then have "m \<noteq> 0" "m \<noteq> 1" "m \<noteq> 2" "m \<noteq> 3" "m \<noteq> 4" by auto
    with 6 show ?thesis using assms(2) unfolding emmc_init_retry_def
      by (cases pc) (simp_all add: emmc_mode_defs emmc_params_def assms(1))
  qed (use assms(2) in \<open>cases pc; simp add: emmc_init_retry_def emmc_mode_defs emmc_params_def assms(1) SDMMC_BUS_WIDTH_1_def\<close>)+
qed

lemma emmc_initialize_start:
  fixes s :: "'w emmc_state"
  defines "m \<equiv> if emmc_mode s = 0 \<or> emmc_mode s > 4 then 4 else unat (emmc_mode s)"
  obtains s2 where "emmc_initialize env pc s = emmc_init_loop env (fst (emmc_init_retry env False s2)) (snd (emmc_init_retry env False s2))"
    "emmc_errors s2 = emmc_errors s" "unat (emmc_mode (snd (emmc_init_retry env False s2))) = m" "emmc_mode s2 \<noteq> 0"
    "unat (if emmc_mode s2 > 4 then 4 else emmc_mode s2) = m"
proof -
  define s2 where "s2 = (let s1 = (if emmc_mode s = EMMC_INIT_FAIL then s\<lparr>emmc_mode := EMMC_MMC_HS400\<rparr> else s) in if pc then emmc_end env s1 else s1)"
  show ?thesis
  proof (rule that [of s2])
    show "emmc_initialize env pc s = emmc_init_loop env (fst (emmc_init_retry env False s2)) (snd (emmc_init_retry env False s2))"
      by (simp add: emmc_initialize_def s2_def Let_def split_def)
  qed (auto simp: s2_def Let_def emmc_init_retry_mode emmc_mode_defs m_def)
qed

text \<open>
  C26. On a device that accepts some set of bus modes, \<open>emmc_initialize\<close> always returns: with the
  fastest accepted mode that is not above the one it starts with, or with a failure when none of
  them is accepted. Every failed attempt is counted.
\<close>

theorem emmc_initialize_best_mode:
  fixes s :: "'w emmc_state" and pc :: bool
  assumes "\<And>b t d. fst (emmc_storage_init env b t d) \<longleftrightarrow> \<not> acc (b, t)" "length (emmc_errors s) = 3"
  defines "start \<equiv> if emmc_mode s = 0 \<or> emmc_mode s > 4 then 4 else unat (emmc_mode s)"
    and "r \<equiv> emmc_initialize env pc s"
  shows "fallback_result (\<lambda>m. acc (emmc_params m)) (Suc start) (fst r) (unat (emmc_mode (snd r))) \<and>
    emmc_get_error_count (snd r) ! 0 = emmc_errors s ! 0 + of_nat (start - unat (emmc_mode (snd r)) + (if fst r then 1 else 0))"
proof -
  obtain s2 where s2: "r = emmc_init_loop env (fst (emmc_init_retry env False s2)) (snd (emmc_init_retry env False s2))"
    "emmc_errors s2 = emmc_errors s" "unat (emmc_mode (snd (emmc_init_retry env False s2))) = start" "emmc_mode s2 \<noteq> 0"
    "unat (if emmc_mode s2 > 4 then 4 else emmc_mode s2) = start"
    unfolding r_def start_def by (rule emmc_initialize_start [of env pc s])
  define t where "t = snd (emmc_init_retry env False s2)"
  have start: "0 < start" "start \<le> 4" by (auto simp: start_def unat_gt_0 not_less word_le_nat_alt)
  have f: "fst (emmc_init_retry env False s2) \<longleftrightarrow> \<not> acc (emmc_params start)"
    using emmc_init_retry_fst [OF assms(1), where pc = False] s2(4,5) by simp
  have t: "emmc_errors t = emmc_errors s" "unat (emmc_mode t) = start" by (simp_all add: t_def s2)
  show ?thesis
  proof (cases "acc (emmc_params start)")
    case True
    then have "r = (False, t)" using s2(1) f by (simp add: t_def emmc.loop_ok)
    then show ?thesis using fallback_result_Suc_hit [of start] start t True by (simp add: emmc_get_error_count_def)
  next
    case False
    then have r: "r = emmc_init_loop env True t" using s2(1) f by (simp add: t_def)
    have "fst (emmc_init_retry env True u) \<longleftrightarrow> unat (emmc_mode u) = 1 \<or> \<not> acc (emmc_params (unat (emmc_mode u) - 1))"
      if "0 < unat (emmc_mode u)" "unat (emmc_mode u) \<le> 5" for u
    proof -
      have "emmc_mode u \<noteq> 0" "\<not> emmc_mode u - 1 > 4" using that by (simp_all add: unat_gt_0 word_less_nat_alt unat_minus_one)
      moreover have "emmc_mode u - 1 = 0 \<longleftrightarrow> unat (emmc_mode u) = 1"
        using unat_minus_one [OF \<open>emmc_mode u \<noteq> 0\<close>] that(1) by (simp add: word_unat_eq_iff) linarith
      ultimately show ?thesis
        using emmc_init_retry_fst [OF assms(1) refl, where pc = True and s = u] by (simp add: unat_minus_one)
    qed
    then have "fallback_result (\<lambda>m. acc (emmc_params m)) (unat (emmc_mode t)) (fst r) (unat (emmc_mode (snd r))) \<and>
       emmc_errors (snd r) ! 0 = emmc_errors t ! 0 + of_nat (unat (emmc_mode t) - unat (emmc_mode (snd r)) + (if fst r then 1 else 0)) \<and>
       unat (emmc_mode (snd r)) \<le> unat (emmc_mode t)"
      unfolding r by (intro emmc.fallback) (use t start assms(2) in simp_all)
    then show ?thesis using False t fallback_result_Suc_skip [of start "\<lambda>m. acc (emmc_params m)"]
      by (simp add: emmc_get_error_count_def)
  qed
qed

definition demo_emmc :: "nat emmc_env" where
  "demo_emmc = \<lparr>emmc_storage_init = (\<lambda>b t n. (t = SDHCI_TIMING_MMC_HS400, Suc n)), emmc_storage_end = id,
     emmc_storage_set_partition = (\<lambda>p n. (False, n)), emmc_storage_read = (\<lambda>a c n. (True, [], n)),
     emmc_storage_write = (\<lambda>a c d n. (True, n))\<rparr>"

theorem emmc_initialize_best_mode_witness:
  "fst (emmc_initialize demo_emmc False \<lparr>emmc_mode = 4, emmc_errors = [0, 0, 0], emmc_dev = 0\<rparr>) = False \<and>
   unat (emmc_mode (snd (emmc_initialize demo_emmc False \<lparr>emmc_mode = 4, emmc_errors = [0, 0, 0], emmc_dev = 0\<rparr>))) = 3"
proof -
  define r where "r = emmc_initialize demo_emmc False \<lparr>emmc_mode = 4, emmc_errors = [0, 0, 0], emmc_dev = 0\<rparr>"
  have "fallback_result (\<lambda>m. snd (emmc_params m) \<noteq> SDHCI_TIMING_MMC_HS400) 5 (fst r) (unat (emmc_mode (snd r)))"
    using emmc_initialize_best_mode [of demo_emmc "\<lambda>p. snd p \<noteq> SDHCI_TIMING_MMC_HS400" "\<lparr>emmc_mode = 4, emmc_errors = [0, 0, 0], emmc_dev = 0\<rparr>" False]
    by (simp add: r_def demo_emmc_def)
  moreover have a: "snd (emmc_params 3) \<noteq> SDHCI_TIMING_MMC_HS400" "snd (emmc_params 4) = SDHCI_TIMING_MMC_HS400"
    by (simp_all add: emmc_params_def SDHCI_TIMING_MMC_HS200_def SDHCI_TIMING_MMC_HS400_def)
  moreover have "\<exists>m. 0 < m \<and> m < 5 \<and> snd (emmc_params m) \<noteq> SDHCI_TIMING_MMC_HS400" by (rule exI [of _ 3]) (simp add: a)
  ultimately have r: "\<not> fst r" "unat (emmc_mode (snd r)) < 5" "unat (emmc_mode (snd r)) \<noteq> 4" "\<not> unat (emmc_mode (snd r)) < 3"
    unfolding fallback_result_def by (auto simp: a dest: spec [of _ 3])
  then have "unat (emmc_mode (snd r)) = 3" by linarith
  with r show ?thesis by (simp add: r_def)
qed

subsection \<open>The partition table read\<close>

lemma gpt_loop_filter:
  "gpt_loop buf i n gpt = gpt @ map (\<lambda>k. gpt_part k (gpt_entry buf k))
     (filter (\<lambda>k. gpt_first_use_lba buf \<le> ge_lba_start (gpt_entry buf k)) [i..<i + n])"
proof (induction buf i n gpt rule: gpt_loop.induct)
  case (2 buf i n gpt)
  have "[i..<i + Suc n] = i # [Suc i..<Suc i + n]" by (simp add: upt_conv_Cons del: upt_Suc)
  with 2 show ?case by (simp add: not_less del: upt_Suc)
qed simp

lemma c_string_part_name: "length (c_string (ep_name (gpt_part i (gpt_entry buf i)))) \<le> 35"
proof -
  define bs :: "u8 list" where "bs = map ucast (ge_name (gpt_entry buf i)) @ [0]"
  have len: "length bs = 37" by (simp add: bs_def gpt_entry_def Let_def)
  then have "bs[35 := 0] = take 35 bs @ 0 # drop 36 bs" by (simp add: upd_conv_take_nth_drop)
  then have "c_string (bs[35 := 0]) = c_string (take 35 bs)"
    by (simp add: c_string_def takeWhile_tail)
  also have "length \<dots> \<le> 35"
    using length_takeWhile_le [of "\<lambda>b. b \<noteq> 0" "take 35 bs"] len by (simp add: c_string_def)
  finally show ?thesis by (simp add: gpt_part_def bs_def)
qed

text \<open>
  C32. The partitions found in a table with the right signature and at most 128 entries are its
  entries that do not start below the first usable sector, in order, at most 128, each with a name
  of at most 35 characters that is terminated inside its buffer; any other table gives none.
\<close>

theorem emmc_gpt_parse_table:
  fixes s :: "'w emmc_state" and data :: "u8 list" and gpt :: "emmc_part_t list"
  assumes "emmc_storage_read env GPT_FIRST_LBA GPT_NUM_BLOCKS (emmc_dev s) = (res, data, d)"
  defines "buf \<equiv> gpt_buffer data"
    and "parts \<equiv> fst (emmc_gpt_parse env gpt s)"
  shows "parts = gpt @ (if gpt_signature_ok buf \<and> gpt_num_part_ents buf \<le> 128
      then map (\<lambda>k. gpt_part k (gpt_entry buf k))
        (filter (\<lambda>k. gpt_first_use_lba buf \<le> ge_lba_start (gpt_entry buf k)) [0..<unat (gpt_num_part_ents buf)])
      else []) \<and> length parts \<le> length gpt + 128 \<and>
    list_all (\<lambda>p. length (c_string (ep_name p)) \<le> 35) (drop (length gpt) parts)"
proof -
  define sel where "sel = filter (\<lambda>k. gpt_first_use_lba buf \<le> ge_lba_start (gpt_entry buf k)) [0..<unat (gpt_num_part_ents buf)]"
  have p: "parts = gpt @ (if gpt_signature_ok buf \<and> gpt_num_part_ents buf \<le> 128 then map (\<lambda>k. gpt_part k (gpt_entry buf k)) sel else [])"
    using assms(1) by (auto simp: parts_def emmc_gpt_parse_def Let_def gpt_loop_filter not_less sel_def buf_def)
  have "length sel \<le> unat (gpt_num_part_ents buf)" unfolding sel_def using length_filter_le [of _ "[0..<unat (gpt_num_part_ents buf)]"] by simp
  then show ?thesis unfolding p sel_def [symmetric]
    by (auto simp: word_le_nat_alt list_all_iff c_string_part_name)
qed

definition demo_gpt :: "u8 list" where
  "demo_gpt = (map (\<lambda>c. of_nat (of_char c)) ''EFI PART'' @ replicate 504 0)[0x50 := 1]"

definition demo_gpt_env :: "nat emmc_env" where
  "demo_gpt_env = demo_emmc\<lparr>emmc_storage_read := (\<lambda>a c n. (False, demo_gpt, n))\<rparr>"

theorem emmc_gpt_parse_table_witness:
  "emmc_storage_read demo_gpt_env GPT_FIRST_LBA GPT_NUM_BLOCKS (emmc_dev \<lparr>emmc_mode = 4, emmc_errors = [], emmc_dev = 0\<rparr>) = (False, demo_gpt, 0) \<and>
   length (fst (emmc_gpt_parse demo_gpt_env [] \<lparr>emmc_mode = 4, emmc_errors = [], emmc_dev = 0\<rparr>)) \<le> 128"
  using conjunct2 [OF emmc_gpt_parse_table, of demo_gpt_env "\<lparr>emmc_mode = 4, emmc_errors = [], emmc_dev = 0\<rparr>" False demo_gpt 0 "[]"]
  by (simp add: demo_gpt_env_def)

text \<open>
  Only the first sector of an access is compared with the end of the partition: an access that starts
  on its last sector reaches the device with its full length.
\<close>

lemma emmc_part_read_past_end:
  "ep_lba_start part + off = ep_lba_end part \<Longrightarrow>
   emmc_part_read env part off n s =
     (let (res, data, d) = emmc_storage_read env (ep_lba_end part) n (emmc_dev s) in (res, data, s\<lparr>emmc_dev := d\<rparr>))"
  by (simp add: emmc_part_read_def)

end
