(* ===== verification/Sd.thy ===== *)
theory Sd
  imports Emmc
begin

text \<open>
  The SD card front end, \<open>bdk/storage/sd.c\<close>: error counters, initialisation with fall back,
  mounting and unmounting the file system, and whole file access. The storage driver and the FAT
  file system are parameters. The build option \<open>BDK_SDMMC_UHS_DDR200_SUPPORT\<close> is the first field of
  the environment.
\<close>

subsection \<open>State\<close>

definition SDHCI_TIMING_SD_HS25 :: u32 where "SDHCI_TIMING_SD_HS25 = 7"
definition SDHCI_TIMING_UHS_SDR104 :: u32 where "SDHCI_TIMING_UHS_SDR104 = 11"
definition SDHCI_TIMING_UHS_SDR82 :: u32 where "SDHCI_TIMING_UHS_SDR82 = 13"
definition SDHCI_TIMING_UHS_DDR200 :: u32 where "SDHCI_TIMING_UHS_DDR200 = 15"
definition SD_INIT_FAIL :: u32 where "SD_INIT_FAIL = 0"
definition SD_1BIT_HS25 :: u32 where "SD_1BIT_HS25 = 1"
definition SD_4BIT_HS25 :: u32 where "SD_4BIT_HS25 = 2"
definition SD_UHS_SDR82 :: u32 where "SD_UHS_SDR82 = 3"
definition SD_UHS_SDR104 :: u32 where "SD_UHS_SDR104 = 4"
definition SD_UHS_DDR208 :: u32 where "SD_UHS_DDR208 = 5"
definition SD_ERROR_INIT_FAIL :: u8 where "SD_ERROR_INIT_FAIL = 0"
definition SD_ERROR_RW_FAIL :: u8 where "SD_ERROR_RW_FAIL = 1"
definition SD_ERROR_RW_RETRY :: u8 where "SD_ERROR_RW_RETRY = 2"
definition FR_OK :: nat where "FR_OK = 0"
definition FR_DISK_ERR :: nat where "FR_DISK_ERR = 1"

lemmas sd_mode_defs = SD_INIT_FAIL_def SD_1BIT_HS25_def SD_4BIT_HS25_def SD_UHS_SDR82_def SD_UHS_SDR104_def SD_UHS_DDR208_def

record ('w, 'f) sd_env =
  uhs_ddr200 :: bool
  sd_storage_init :: "u32 \<Rightarrow> u32 \<Rightarrow> 'w \<Rightarrow> bool \<times> 'w"
  sd_storage_end :: "'w \<Rightarrow> 'w"
  sdmmc_get_sd_inserted :: "'w \<Rightarrow> bool"
  f_mount :: "'w \<Rightarrow> nat \<times> 'w"
  f_unmount :: "'w \<Rightarrow> 'w"
  fs_part_type :: "'w \<Rightarrow> bool"
  f_open_read :: "string \<Rightarrow> 'w \<Rightarrow> nat \<times> 'f \<times> 'w"
  f_open_create :: "string \<Rightarrow> 'w \<Rightarrow> nat \<times> 'f \<times> 'w"
  f_size :: "'f \<Rightarrow> u32"
  f_read :: "'f \<Rightarrow> u32 \<Rightarrow> 'w \<Rightarrow> nat \<times> u8 list \<times> 'w"
  f_write :: "'f \<Rightarrow> u8 list \<Rightarrow> 'w \<Rightarrow> nat \<times> 'w"
  f_close :: "'f \<Rightarrow> 'w \<Rightarrow> 'w"

text \<open>What is printed on the console.\<close>

datatype sd_msg = Init_Failed | Not_Inserted | Not_Seated | Mount_Failed nat | Create_Failed nat string

record 'w sd_state =
  sd_mounted :: bool
  sd_init_done :: bool
  insertion_event :: bool
  sd_errors :: "u16 list"
  sd_mode :: u32
  sd_messages :: "sd_msg list"
  sd_dev :: 'w

definition SD_DEFAULT_SPEED :: "('w, 'f) sd_env \<Rightarrow> u32" where
  "SD_DEFAULT_SPEED env = (if uhs_ddr200 env then SD_UHS_DDR208 else SD_UHS_SDR104)"

definition sd_error_count_increment :: "u8 \<Rightarrow> 'w sd_state \<Rightarrow> 'w sd_state" where
  "sd_error_count_increment type s =
     (if type = SD_ERROR_INIT_FAIL then s\<lparr>sd_errors := (sd_errors s)[0 := sd_errors s ! 0 + 1]\<rparr>
      else if type = SD_ERROR_RW_FAIL then s\<lparr>sd_errors := (sd_errors s)[1 := sd_errors s ! 1 + 1]\<rparr>
      else if type = SD_ERROR_RW_RETRY then s\<lparr>sd_errors := (sd_errors s)[2 := sd_errors s ! 2 + 1]\<rparr>
      else s)"

definition sd_get_error_count :: "'w sd_state \<Rightarrow> u16 list" where
  "sd_get_error_count s = sd_errors s"

definition sd_get_card_removed :: "('w, 'f) sd_env \<Rightarrow> 'w sd_state \<Rightarrow> bool" where
  "sd_get_card_removed env s \<longleftrightarrow> insertion_event s \<and> \<not> sdmmc_get_sd_inserted env (sd_dev s)"

definition sd_get_card_initialized :: "'w sd_state \<Rightarrow> bool" where
  "sd_get_card_initialized s \<longleftrightarrow> sd_init_done s"

definition sd_get_card_mounted :: "'w sd_state \<Rightarrow> bool" where
  "sd_get_card_mounted s \<longleftrightarrow> sd_mounted s"

definition sd_get_mode :: "'w sd_state \<Rightarrow> u32" where
  "sd_get_mode s = sd_mode s"

definition sd_end_dev :: "('w, 'f) sd_env \<Rightarrow> 'w sd_state \<Rightarrow> 'w sd_state" where
  "sd_end_dev env s = s\<lparr>sd_dev := sd_storage_end env (sd_dev s)\<rparr>"

subsection \<open>Initialisation\<close>

text \<open>Bus width and timing for a mode, and the mode kept: unknown modes become the default.\<close>

definition sd_init_params :: "('w, 'f) sd_env \<Rightarrow> u32 \<Rightarrow> u32 \<times> u32 \<times> u32" where
  "sd_init_params env m =
     (if m = SD_1BIT_HS25 then (SDMMC_BUS_WIDTH_1, SDHCI_TIMING_SD_HS25, m)
      else if m = SD_4BIT_HS25 then (SDMMC_BUS_WIDTH_4, SDHCI_TIMING_SD_HS25, m)
      else if m = SD_UHS_SDR82 then (SDMMC_BUS_WIDTH_4, SDHCI_TIMING_UHS_SDR82, m)
      else if m = SD_UHS_SDR104 then (SDMMC_BUS_WIDTH_4, SDHCI_TIMING_UHS_SDR104, m)
      else if uhs_ddr200 env \<and> m = SD_UHS_DDR208 then (SDMMC_BUS_WIDTH_4, SDHCI_TIMING_UHS_DDR200, m)
      else (SDMMC_BUS_WIDTH_4, if uhs_ddr200 env then SDHCI_TIMING_UHS_DDR200 else SDHCI_TIMING_UHS_SDR104, SD_DEFAULT_SPEED env))"

definition sd_init_retry :: "('w, 'f) sd_env \<Rightarrow> bool \<Rightarrow> 'w sd_state \<Rightarrow> bool \<times> 'w sd_state" where
  "sd_init_retry env power_cycle s0 =
     (let s = (if power_cycle then sd_end_dev env (s0\<lparr>sd_mode := sd_mode s0 - 1\<rparr>) else s0)
      in if sd_mode s = SD_INIT_FAIL then (True, s)
         else let (bus_width, type, m) = sd_init_params env (sd_mode s);
                  (res, d) = sd_storage_init env bus_width type (sd_dev s);
                  s1 = s\<lparr>sd_mode := m, sd_dev := d\<rparr>
              in (res, if \<not> res then s1\<lparr>sd_init_done := True, insertion_event := True\<rparr> else s1\<lparr>sd_init_done := False\<rparr>))"

lemma sd_init_params_mode:
  "snd (snd (sd_init_params env m)) = (if 0 < m \<and> m \<le> SD_DEFAULT_SPEED env then m else SD_DEFAULT_SPEED env)"
proof -
  have "0 < m \<and> m \<le> SD_DEFAULT_SPEED env \<longleftrightarrow> m = 1 \<or> m = 2 \<or> m = 3 \<or> m = 4 \<or> (uhs_ddr200 env \<and> m = 5)"
    by (simp add: SD_DEFAULT_SPEED_def sd_mode_defs word_less_nat_alt word_le_nat_alt word_unat_eq_iff) linarith
  then show ?thesis by (simp add: sd_init_params_def sd_mode_defs)
qed

lemma sd_end_dev_frame [simp]:
  "sd_mode (sd_end_dev env s) = sd_mode s" "sd_errors (sd_end_dev env s) = sd_errors s"
  "sd_mounted (sd_end_dev env s) = sd_mounted s" "sd_init_done (sd_end_dev env s) = sd_init_done s"
  "insertion_event (sd_end_dev env s) = insertion_event s"
  by (simp_all add: sd_end_dev_def)

lemma sd_init_retry_frame [simp]:
  "sd_errors (snd (sd_init_retry env pc s)) = sd_errors s" "sd_mounted (snd (sd_init_retry env pc s)) = sd_mounted s"
  by (simp_all add: sd_init_retry_def Let_def split_def)

lemma sd_init_retry_mode:
  "sd_mode (snd (sd_init_retry env pc s)) =
     (let m = (if pc then sd_mode s - 1 else sd_mode s) in if m > SD_DEFAULT_SPEED env then SD_DEFAULT_SPEED env else m)"
  by (cases pc) (auto simp: sd_init_retry_def Let_def split_def sd_init_params_mode SD_INIT_FAIL_def not_less SD_DEFAULT_SPEED_def)

lemma unat_default_speed: "unat (SD_DEFAULT_SPEED env) = (if uhs_ddr200 env then 5 else 4)"
  by (simp add: SD_DEFAULT_SPEED_def sd_mode_defs)

lemma sd_init_retry_decreases:
  "sd_mode s \<noteq> 0 \<Longrightarrow> unat (sd_mode (snd (sd_init_retry env True s))) = min (if uhs_ddr200 env then 5 else 4) (unat (sd_mode s) - 1)"
  unfolding sd_init_retry_mode by (simp add: Let_def word_less_nat_alt unat_minus_one unat_default_speed min_def)

function sd_init_loop :: "('w, 'f) sd_env \<Rightarrow> bool \<Rightarrow> 'w sd_state \<Rightarrow> bool \<times> 'w sd_state" where
  "sd_init_loop env res s =
     (if \<not> res then (False, s)
      else if \<not> sdmmc_get_sd_inserted env (sd_dev s) then (True, sd_end_dev env (s\<lparr>sd_mode := SD_DEFAULT_SPEED env\<rparr>))
      else let s1 = s\<lparr>sd_errors := (sd_errors s)[0 := sd_errors s ! 0 + 1]\<rparr>
           in if sd_mode s1 = SD_INIT_FAIL then (True, sd_end_dev env s1)
              else sd_init_loop env (fst (sd_init_retry env True s1)) (snd (sd_init_retry env True s1)))"
  by pat_completeness auto
termination
proof (relation "measure (\<lambda>(env, res, s). unat (sd_mode s))", goal_cases)
  case 1
  then show ?case by simp
next
  case prems: (2 env res s s1)
  then have "sd_mode s \<noteq> 0" by (simp add: SD_INIT_FAIL_def)
  then have "unat (sd_mode s) \<noteq> 0" by (simp add: unat_eq_0)
  then show ?case using prems sd_init_retry_decreases [of s1 env] \<open>sd_mode s \<noteq> 0\<close> by (auto simp: split_def min_def split: if_splits)
qed

declare sd_init_loop.simps [simp del]

definition sd_initialize :: "('w, 'f) sd_env \<Rightarrow> bool \<Rightarrow> 'w sd_state \<Rightarrow> bool \<times> 'w sd_state" where
  "sd_initialize env power_cycle s0 =
     (let s1 = (if power_cycle then sd_end_dev env s0 else s0);
          (res, s2) = sd_init_retry env False s1
      in sd_init_loop env res s2)"

subsection \<open>Mounting\<close>

definition sd_message :: "sd_msg \<Rightarrow> 'w sd_state \<Rightarrow> 'w sd_state" where
  "sd_message t s = s\<lparr>sd_messages := sd_messages s @ [t]\<rparr>"

text \<open>\<open>True\<close> is the code's result 1.\<close>

definition sd_mount :: "('w, 'f) sd_env \<Rightarrow> 'w sd_state \<Rightarrow> bool \<times> 'w sd_state" where
  "sd_mount env s =
     (if sd_init_done s \<and> sd_mounted s then (False, s)
      else let (res, s1) = (if \<not> sd_init_done s then sd_initialize env False s else (False, s))
           in if res
              then (True, sd_message (if \<not> sdmmc_get_sd_inserted env (sd_dev s1) then Not_Inserted
                            else Not_Seated) (sd_message Init_Failed s1))
              else let (fr, s2) = (if \<not> sd_mounted s1 then (let (r, d) = f_mount env (sd_dev s1) in (r, s1\<lparr>sd_dev := d\<rparr>))
                                   else (FR_OK, s1))
                   in if fr = FR_OK then (False, s2\<lparr>sd_mounted := True\<rparr>)
                      else (True, sd_message (Mount_Failed fr) s2))"

definition sd_deinit :: "('w, 'f) sd_env \<Rightarrow> bool \<Rightarrow> 'w sd_state \<Rightarrow> 'w sd_state" where
  "sd_deinit env deinit s =
     (let s1 = (if deinit then s\<lparr>insertion_event := False,
                  sd_mode := if sd_mode s = SD_INIT_FAIL then SD_DEFAULT_SPEED env else sd_mode s\<rparr> else s);
          s2 = (if sd_init_done s1
                then let s3 = (if sd_mounted s1 then s1\<lparr>sd_dev := f_unmount env (sd_dev s1)\<rparr> else s1)
                     in if deinit then (sd_end_dev env s3)\<lparr>sd_init_done := False\<rparr> else s3
                else s1)
      in s2\<lparr>sd_mounted := False\<rparr>)"

definition sd_unmount :: "('w, 'f) sd_env \<Rightarrow> 'w sd_state \<Rightarrow> 'w sd_state" where
  "sd_unmount env s = sd_deinit env False s"

definition sd_end :: "('w, 'f) sd_env \<Rightarrow> 'w sd_state \<Rightarrow> 'w sd_state" where
  "sd_end env s = sd_deinit env True s"

definition sd_is_gpt :: "('w, 'f) sd_env \<Rightarrow> 'w sd_state \<Rightarrow> bool" where
  "sd_is_gpt env s = fs_part_type env (sd_dev s)"

subsection \<open>Files\<close>

definition sd_file_read :: "('w, 'f) sd_env \<Rightarrow> string \<Rightarrow> 'w sd_state \<Rightarrow> (u8 list \<times> u32) option \<times> 'w sd_state" where
  "sd_file_read env path s =
     (if \<not> sd_get_card_mounted s then (None, s)
      else let (r, fp, d1) = f_open_read env path (sd_dev s)
           in if r \<noteq> FR_OK then (None, s\<lparr>sd_dev := d1\<rparr>)
              else let size = f_size env fp;
                       (r2, data, d2) = f_read env fp size d1;
                       d3 = f_close env fp d2
                   in (if r2 \<noteq> FR_OK then None else Some (data, size), s\<lparr>sd_dev := d3\<rparr>))"

definition sd_save_to_file :: "('w, 'f) sd_env \<Rightarrow> u8 list \<Rightarrow> string \<Rightarrow> 'w sd_state \<Rightarrow> nat \<times> 'w sd_state" where
  "sd_save_to_file env buf filename s =
     (if \<not> sd_get_card_mounted s then (FR_DISK_ERR, s)
      else let (r, fp, d1) = f_open_create env filename (sd_dev s)
           in if r \<noteq> 0 then (r, sd_message (Create_Failed r filename) (s\<lparr>sd_dev := d1\<rparr>))
              else let (r2, d2) = f_write env fp buf d1
                   in (0, s\<lparr>sd_dev := f_close env fp d2\<rparr>))"

subsection \<open>Falling back, and recovering\<close>

lemma sd_init_loop_step:
  "sd_mode s \<noteq> 0 \<Longrightarrow> sdmmc_get_sd_inserted env (sd_dev s) \<Longrightarrow> sd_init_loop env True s =
     sd_init_loop env (fst (sd_init_retry env True (s\<lparr>sd_errors := (sd_errors s)[0 := sd_errors s ! 0 + 1]\<rparr>)))
       (snd (sd_init_retry env True (s\<lparr>sd_errors := (sd_errors s)[0 := sd_errors s ! 0 + 1]\<rparr>)))"
  by (subst sd_init_loop.simps) (simp add: SD_INIT_FAIL_def Let_def)

interpretation sd: mode_fallback "\<lambda>s. unat (sd_mode s)" "\<lambda>s. sd_errors s ! 0" "sd_init_retry env True"
    "\<lambda>s. s\<lparr>sd_errors := (sd_errors s)[0 := sd_errors s ! 0 + 1]\<rparr>" "sd_end_dev env" "sd_init_loop env"
    "\<lambda>s. length (sd_errors s) = 3" 5 "\<lambda>s. sdmmc_get_sd_inserted env (sd_dev s)" for env :: "('w, 'f) sd_env"
proof (unfold_locales, goal_cases)
  case (3 s)
  then show ?case using sd_init_loop_step [of s env] by (simp add: unat_gt_0)
next
  case (7 s)
  then show ?case using sd_init_retry_decreases [of s env] by (simp add: unat_gt_0)
qed (simp_all add: sd_init_loop.simps SD_INIT_FAIL_def unat_eq_0)

text \<open>A card that is inserted and accepts a fixed set of bus widths and timings.\<close>

definition sd_card :: "('w, 'f) sd_env \<Rightarrow> (u32 \<times> u32 \<Rightarrow> bool) \<Rightarrow> bool" where
  "sd_card env acc \<longleftrightarrow> (\<forall>d. sdmmc_get_sd_inserted env d) \<and> (\<forall>b t d. fst (sd_storage_init env b t d) \<longleftrightarrow> \<not> acc (b, t))"

definition sd_accepts :: "('w, 'f) sd_env \<Rightarrow> (u32 \<times> u32 \<Rightarrow> bool) \<Rightarrow> nat \<Rightarrow> bool" where
  "sd_accepts env acc m \<longleftrightarrow> acc (let (b, t, _) = sd_init_params env (of_nat m) in (b, t))"

definition sd_top :: "('w, 'f) sd_env \<Rightarrow> nat" where
  "sd_top env = unat (SD_DEFAULT_SPEED env)"

lemma sd_init_params_above: "m > SD_DEFAULT_SPEED env \<Longrightarrow> sd_init_params env m = sd_init_params env (SD_DEFAULT_SPEED env)"
proof -
  assume "m > SD_DEFAULT_SPEED env"
  then have "m \<noteq> 1" "m \<noteq> 2" "m \<noteq> 3" "m \<noteq> 4" "uhs_ddr200 env \<longrightarrow> m \<noteq> 5"
    by (auto simp: SD_DEFAULT_SPEED_def sd_mode_defs split: if_splits)
  then show ?thesis by (simp add: sd_init_params_def sd_mode_defs SD_DEFAULT_SPEED_def)
qed

lemma sd_init_retry_fst:
  assumes "sd_card env acc" "m = (if pc then sd_mode s - 1 else sd_mode s)"
  shows "fst (sd_init_retry env pc s) \<longleftrightarrow> m = 0 \<or> \<not> sd_accepts env acc (min (sd_top env) (unat m))"
    and "m \<noteq> 0 \<Longrightarrow> sd_init_done (snd (sd_init_retry env pc s)) \<longleftrightarrow> \<not> fst (sd_init_retry env pc s)"
proof -
  have p: "sd_init_params env (of_nat (min (sd_top env) (unat m))) = sd_init_params env m"
    by (cases "m > SD_DEFAULT_SPEED env") (simp_all add: sd_top_def sd_init_params_above min_def word_le_nat_alt word_less_nat_alt)
  show "fst (sd_init_retry env pc s) \<longleftrightarrow> m = 0 \<or> \<not> sd_accepts env acc (min (sd_top env) (unat m))"
    using assms p by (cases pc) (simp_all add: sd_init_retry_def Let_def split_def sd_card_def sd_accepts_def SD_INIT_FAIL_def)
  show "m \<noteq> 0 \<Longrightarrow> sd_init_done (snd (sd_init_retry env pc s)) \<longleftrightarrow> \<not> fst (sd_init_retry env pc s)"
    using assms(2) by (cases pc) (simp_all add: sd_init_retry_def Let_def split_def SD_INIT_FAIL_def)
qed

lemma sd_init_retry_done: "\<not> sd_init_done s \<Longrightarrow> sd_init_done (snd (sd_init_retry env pc s)) \<longleftrightarrow> \<not> fst (sd_init_retry env pc s)"
  by (simp add: sd_init_retry_def Let_def split_def)

lemma sd_init_loop_done:
  "(sd_init_done s \<longleftrightarrow> \<not> res) \<Longrightarrow> sd_init_done (snd (sd_init_loop env res s)) \<longleftrightarrow> \<not> fst (sd_init_loop env res s)"
proof (induction env res s rule: sd_init_loop.induct)
  case (1 env res s)
  define s1 where "s1 = s\<lparr>sd_errors := (sd_errors s)[0 := sd_errors s ! 0 + 1]\<rparr>"
  show ?case
  proof (cases "res \<and> sdmmc_get_sd_inserted env (sd_dev s) \<and> sd_mode s \<noteq> SD_INIT_FAIL")
    case True
    then have l: "sd_init_loop env res s = sd_init_loop env (fst (sd_init_retry env True s1)) (snd (sd_init_retry env True s1))"
      by (subst sd_init_loop.simps) (simp add: Let_def s1_def)
    have "sd_mode s1 \<noteq> SD_INIT_FAIL" "\<not> sd_init_done s1" using True "1.prems" by (simp_all add: s1_def)
    then show ?thesis unfolding l using "1.IH" [OF _ _ s1_def] True sd_init_retry_done by auto
  next
    case False
    then show ?thesis using "1.prems" by (subst (1 2) sd_init_loop.simps) (auto simp: Let_def)
  qed
qed

lemma sd_init_loop_mounted: "sd_mounted (snd (sd_init_loop env res s)) = sd_mounted s"
proof (induction env res s rule: sd_init_loop.induct)
  case (1 env res s)
  then show ?case by (subst sd_init_loop.simps) (simp add: Let_def)
qed

lemma sd_initialize_card:
  fixes s :: "'w sd_state" and pc :: bool
  assumes "sd_card env acc" "length (sd_errors s) = 3" "sd_mode s \<noteq> 0"
  defines "start \<equiv> min (sd_top env) (unat (sd_mode s))" and "r \<equiv> sd_initialize env pc s"
  shows "fallback_result (sd_accepts env acc) (Suc start) (fst r) (unat (sd_mode (snd r)))"
    "sd_errors (snd r) ! 0 = sd_errors s ! 0 + of_nat (start - unat (sd_mode (snd r)) + (if fst r then 1 else 0))"
    "sd_init_done (snd r) \<longleftrightarrow> \<not> fst r" "sd_mounted (snd r) = sd_mounted s"
proof -
  define s2 where "s2 = (if pc then sd_end_dev env s else s)"
  define t where "t = snd (sd_init_retry env False s2)"
  define f where "f = fst (sd_init_retry env False s2)"
  have s2: "sd_errors s2 = sd_errors s" "sd_mode s2 = sd_mode s" "sd_mounted s2 = sd_mounted s" by (simp_all add: s2_def)
  have r: "r = sd_init_loop env f t" by (simp add: r_def sd_initialize_def s2_def t_def f_def Let_def split_def)
  have f: "f \<longleftrightarrow> \<not> sd_accepts env acc start" "sd_init_done t \<longleftrightarrow> \<not> f"
    using sd_init_retry_fst [OF assms(1) refl, where pc = False and s = s2] assms(3) by (simp_all add: f_def t_def s2 start_def)
  have t: "sd_errors t = sd_errors s" "unat (sd_mode t) = start" "sd_mounted t = sd_mounted s"
    by (simp_all add: t_def s2 sd_init_retry_mode start_def sd_top_def min_def word_less_nat_alt Let_def)
  have start: "0 < start" "start \<le> 5" using assms(3) by (auto simp: start_def sd_top_def unat_default_speed unat_gt_0)
  show "sd_init_done (snd r) \<longleftrightarrow> \<not> fst r" unfolding r by (rule sd_init_loop_done) (use f in simp)
  show "sd_mounted (snd r) = sd_mounted s" unfolding r sd_init_loop_mounted t ..
  have "fallback_result (sd_accepts env acc) (Suc start) (fst r) (unat (sd_mode (snd r))) \<and>
    sd_errors (snd r) ! 0 = sd_errors s ! 0 + of_nat (start - unat (sd_mode (snd r)) + (if fst r then 1 else 0))"
  proof (cases f)
    case False
    then have "r = (False, t)" by (simp add: r sd.loop_ok)
    then show ?thesis using fallback_result_Suc_hit [of start] start t f False by simp
  next
    case True
    have "fst (sd_init_retry env True u) \<longleftrightarrow> unat (sd_mode u) = 1 \<or> \<not> sd_accepts env acc (unat (sd_mode u) - 1)"
      if "0 < unat (sd_mode u)" "unat (sd_mode u) \<le> 5" for u
    proof -
      have "sd_mode u \<noteq> 0" "unat (sd_mode u) - 1 \<le> sd_top env"
        using that by (auto simp: unat_gt_0 sd_top_def unat_default_speed)
      moreover have "sd_mode u - 1 = 0 \<longleftrightarrow> unat (sd_mode u) = 1"
        using unat_minus_one [OF \<open>sd_mode u \<noteq> 0\<close>] that(1) by (simp add: word_unat_eq_iff) linarith
      ultimately show ?thesis
        using sd_init_retry_fst(1) [OF assms(1) refl, where pc = True and s = u] by (simp add: unat_minus_one min_def)
    qed
    then have "fallback_result (sd_accepts env acc) (unat (sd_mode t)) (fst r) (unat (sd_mode (snd r))) \<and>
       sd_errors (snd r) ! 0 = sd_errors t ! 0 + of_nat (unat (sd_mode t) - unat (sd_mode (snd r)) + (if fst r then 1 else 0)) \<and>
       unat (sd_mode (snd r)) \<le> unat (sd_mode t)"
      using True unfolding r by (simp only: True) (intro sd.fallback, use t start assms(1,2) in \<open>simp_all add: sd_card_def\<close>)
    then show ?thesis using t True f fallback_result_Suc_skip [of start "sd_accepts env acc"] by simp
  qed
  then show "fallback_result (sd_accepts env acc) (Suc start) (fst r) (unat (sd_mode (snd r)))"
    "sd_errors (snd r) ! 0 = sd_errors s ! 0 + of_nat (start - unat (sd_mode (snd r)) + (if fst r then 1 else 0))" by blast+
qed


text \<open>
  With a card in the slot that accepts some set of bus modes, \<open>sd_initialize\<close> always returns, with
  the fastest accepted mode not above the one it starts with, or with a failure when none of them
  is accepted; every failed attempt is counted. Started in the failed mode 0 it fails at once,
  whatever the card accepts: only \<open>sd_end\<close> leaves that mode.
\<close>

theorem sd_initialize_best_mode:
  fixes s :: "'w sd_state" and pc :: bool
  assumes "sd_card env acc" "length (sd_errors s) = 3"
  defines "start \<equiv> min (sd_top env) (unat (sd_mode s))" and "r \<equiv> sd_initialize env pc s"
  shows "if sd_mode s = SD_INIT_FAIL then fst r \<and> sd_mode (snd r) = SD_INIT_FAIL
    else fallback_result (sd_accepts env acc) (Suc start) (fst r) (unat (sd_mode (snd r))) \<and>
      sd_get_error_count (snd r) ! 0 = sd_errors s ! 0 + of_nat (start - unat (sd_mode (snd r)) + (if fst r then 1 else 0))"
proof (cases "sd_mode s = SD_INIT_FAIL")
  case True
  then have "sd_init_retry env False (if pc then sd_end_dev env s else s) = (True, if pc then sd_end_dev env s else s)"
    by (simp add: sd_init_retry_def)
  then have "r = sd_init_loop env True (if pc then sd_end_dev env s else s)" by (simp add: r_def sd_initialize_def Let_def)
  also have "fst \<dots> \<and> sd_mode (snd \<dots>) = SD_INIT_FAIL"
    using True assms(1) by (subst (1 2) sd_init_loop.simps) (simp add: Let_def sd_card_def)
  finally show ?thesis using True by simp
next
  case False
  then show ?thesis using sd_initialize_card(1,2) [OF assms(1,2), of pc]
    by (simp add: SD_INIT_FAIL_def start_def r_def sd_get_error_count_def)
qed

text \<open>
  \<open>sd_mount\<close> reports success exactly when the card ends up initialised and mounted.
\<close>

theorem sd_mount_result:
  "\<not> fst (sd_mount env s) \<longleftrightarrow> sd_init_done (snd (sd_mount env s)) \<and> sd_mounted (snd (sd_mount env s))"
proof -
  define r where "r = (if \<not> sd_init_done s then sd_initialize env False s else (False, s))"
  have m: "sd_mounted (snd r) = sd_mounted s"
    by (simp add: r_def sd_initialize_def Let_def split_def sd_init_loop_mounted)
  have d: "sd_init_done (snd r) \<longleftrightarrow> \<not> fst r"
    using sd_init_loop_done [of "snd (sd_init_retry env False s)" "fst (sd_init_retry env False s)" env] sd_init_retry_done [of s env False]
    by (simp add: r_def sd_initialize_def split_def Let_def)
  show ?thesis using m d unfolding sd_mount_def r_def [symmetric] by (auto simp: Let_def split_def sd_message_def)
qed


text \<open>
  Whatever happened before, ending and mounting again recovers a card that accepts a bus mode
  the driver tries and holds a file system that mounts: the failed mode 0 is left, and \<open>sd_mount\<close> succeeds.
\<close>

theorem sd_end_mount_recovers:
  assumes "sd_card env acc" "length (sd_errors s) = 3"
    and "\<And>d. fst (f_mount env d) = FR_OK"
    and "0 < m" "m \<le> unat (sd_mode (sd_end env s))" "m \<le> sd_top env" "sd_accepts env acc m"
  shows "\<not> fst (sd_mount env (sd_end env s)) \<and> sd_get_card_mounted (snd (sd_mount env (sd_end env s)))"
proof -
  define t where "t = sd_end env s"
  have t: "\<not> sd_init_done t" "\<not> sd_mounted t" "sd_errors t = sd_errors s" "sd_mode t \<noteq> 0"
    by (auto simp: t_def sd_end_def sd_deinit_def Let_def SD_INIT_FAIL_def SD_DEFAULT_SPEED_def sd_mode_defs)
  define r where "r = sd_initialize env False t"
  have len: "length (sd_errors t) = 3" using assms(2) t(3) by simp
  note c = sd_initialize_card [OF assms(1) len t(4), of False, folded r_def]
  have "\<not> fst r"
    using c(1) assms(4-7) by (fastforce simp: fallback_result_def t_def less_Suc_eq_le split: if_splits)
  moreover have "\<not> sd_mounted (snd r)" using c(4) t(2) by simp
  ultimately have "sd_mount env t = (False, (snd r)\<lparr>sd_dev := snd (f_mount env (sd_dev (snd r))), sd_mounted := True\<rparr>)"
    using t assms(3) by (simp add: sd_mount_def r_def [symmetric] Let_def split_def)
  then show ?thesis by (simp add: t_def sd_get_card_mounted_def)
qed

definition demo_sd :: "(nat, nat) sd_env" where
  "demo_sd = \<lparr>uhs_ddr200 = False, sd_storage_init = (\<lambda>b t n. (t = SDHCI_TIMING_UHS_SDR104, Suc n)), sd_storage_end = id,
     sdmmc_get_sd_inserted = (\<lambda>_. True), f_mount = (\<lambda>n. (0, n)), f_unmount = id, fs_part_type = (\<lambda>_. False),
     f_open_read = (\<lambda>_ n. (1, 0, n)), f_open_create = (\<lambda>_ n. (1, 0, n)), f_size = (\<lambda>_. 0), f_read = (\<lambda>_ _ n. (1, [], n)),
     f_write = (\<lambda>_ _ n. (1, n)), f_close = (\<lambda>_. id)\<rparr>"

definition demo_sd_state :: "u32 \<Rightarrow> nat sd_state" where
  "demo_sd_state m = \<lparr>sd_mounted = False, sd_init_done = False, insertion_event = False, sd_errors = [0, 0, 0],
     sd_mode = m, sd_messages = [], sd_dev = 0\<rparr>"

lemma demo_sd_card: "sd_card demo_sd (\<lambda>p. snd p \<noteq> SDHCI_TIMING_UHS_SDR104)"
  by (simp add: sd_card_def demo_sd_def)

lemma demo_sd_accepts: "sd_accepts demo_sd (\<lambda>p. snd p \<noteq> SDHCI_TIMING_UHS_SDR104) 3" "sd_top demo_sd = 4"
  "SD_DEFAULT_SPEED demo_sd = 4"
  by (simp_all add: sd_accepts_def sd_init_params_def sd_mode_defs demo_sd_def sd_top_def SD_DEFAULT_SPEED_def
      SDHCI_TIMING_UHS_SDR82_def SDHCI_TIMING_UHS_SDR104_def SDHCI_TIMING_SD_HS25_def)

theorem sd_initialize_best_mode_witness:
  "sd_card demo_sd (\<lambda>p. snd p \<noteq> SDHCI_TIMING_UHS_SDR104) \<and> \<not> fst (sd_initialize demo_sd False (demo_sd_state 4))"
proof -
  have "fallback_result (sd_accepts demo_sd (\<lambda>p. snd p \<noteq> SDHCI_TIMING_UHS_SDR104)) 5
      (fst (sd_initialize demo_sd False (demo_sd_state 4))) (unat (sd_mode (snd (sd_initialize demo_sd False (demo_sd_state 4)))))"
    using sd_initialize_best_mode [OF demo_sd_card, of "demo_sd_state 4" False]
    by (simp add: demo_sd_state_def demo_sd_accepts SD_INIT_FAIL_def)
  moreover have "\<exists>m. 0 < m \<and> m < 5 \<and> sd_accepts demo_sd (\<lambda>p. snd p \<noteq> SDHCI_TIMING_UHS_SDR104) m"
    by (rule exI [of _ 3]) (use demo_sd_accepts(1) in simp)
  ultimately show ?thesis using demo_sd_card unfolding fallback_result_def by simp
qed

theorem sd_end_mount_recovers_witness:
  "sd_card demo_sd (\<lambda>p. snd p \<noteq> SDHCI_TIMING_UHS_SDR104) \<and> \<not> fst (sd_mount demo_sd (sd_end demo_sd (demo_sd_state 0)))"
proof -
  have "unat (sd_mode (sd_end demo_sd (demo_sd_state 0))) = 4"
    by (simp add: sd_end_def sd_deinit_def Let_def demo_sd_state_def SD_INIT_FAIL_def demo_sd_accepts)
  then show ?thesis
    using sd_end_mount_recovers [OF demo_sd_card, of "demo_sd_state 0" 3] demo_sd_card demo_sd_accepts
    by (simp add: demo_sd_state_def) (simp add: demo_sd_def FR_OK_def)
qed

end
