(* ===== verification/Se.thy ===== *)
theory Se
  imports Prelude
begin

text \<open>
  AES on the security engine, \<open>bdk/sec/se.c\<close>: running the engine over a message, ECB, and the two
  XTS modes (sector by sector, and the variant that can continue from a saved tweak). The engine
  itself is a parameter: what one operation with given configuration registers does.
\<close>

subsection \<open>Registers\<close>

definition SE_AES_BLOCK_SIZE :: nat where "SE_AES_BLOCK_SIZE = 16"
definition SE_LL_MAX_SIZE :: nat where "SE_LL_MAX_SIZE = 0xFFFF80"
definition SE_CONFIG_ENC_ALG :: "u32 \<Rightarrow> u32" where "SE_CONFIG_ENC_ALG x = push_bit 12 x"
definition SE_CONFIG_DEC_ALG :: "u32 \<Rightarrow> u32" where "SE_CONFIG_DEC_ALG x = push_bit 8 x"
definition SE_CONFIG_ENC_MODE :: "u32 \<Rightarrow> u32" where "SE_CONFIG_ENC_MODE x = push_bit 24 x"
definition SE_CONFIG_DEC_MODE :: "u32 \<Rightarrow> u32" where "SE_CONFIG_DEC_MODE x = push_bit 16 x"
definition SE_CONFIG_DST :: "u32 \<Rightarrow> u32" where "SE_CONFIG_DST x = push_bit 2 x"
definition SE_CRYPTO_KEY_INDEX :: "u32 \<Rightarrow> u32" where "SE_CRYPTO_KEY_INDEX x = push_bit 24 x"
definition SE_CRYPTO_CORE_SEL :: "u32 \<Rightarrow> u32" where "SE_CRYPTO_CORE_SEL x = push_bit 8 x"
definition SE_CRYPTO_XOR_POS :: "u32 \<Rightarrow> u32" where "SE_CRYPTO_XOR_POS x = push_bit 1 x"
definition SE_CRYPTO_IV_SEL :: "u32 \<Rightarrow> u32" where "SE_CRYPTO_IV_SEL x = push_bit 7 x"
definition SE_CRYPTO_MEMIF :: "u32 \<Rightarrow> u32" where "SE_CRYPTO_MEMIF x = push_bit 31 x"
definition MODE_KEY128 :: u32 where "MODE_KEY128 = 0"
definition ALG_AES_ENC :: u32 where "ALG_AES_ENC = 1"
definition ALG_AES_DEC :: u32 where "ALG_AES_DEC = 1"
definition DST_MEMORY :: u32 where "DST_MEMORY = 0"
definition CORE_DECRYPT :: u32 where "CORE_DECRYPT = 0"
definition CORE_ENCRYPT :: u32 where "CORE_ENCRYPT = 1"
definition XOR_BYPASS :: u32 where "XOR_BYPASS = 0"
definition IV_UPDATED :: u32 where "IV_UPDATED = 1"
definition MEMIF_MCCIF :: u32 where "MEMIF_MCCIF = 1"

text \<open>
  One operation of the engine: the configuration, crypto configuration and last block registers, and
  the source; an error flag, the destination and the engine's next state. \<open>in_dram\<close> says that both
  buffers are in DRAM. Every other register is written and read by its offset. A hash operation
  takes the configuration register and the source.
\<close>

record 'e se_env =
  se_start :: "u32 \<Rightarrow> u32 \<Rightarrow> u32 \<Rightarrow> u8 list \<Rightarrow> 'e \<Rightarrow> bool \<times> u8 list \<times> 'e"
  in_dram :: bool
  se_write :: "u32 \<Rightarrow> u32 \<Rightarrow> 'e \<Rightarrow> 'e"
  se_read :: "u32 \<Rightarrow> 'e \<Rightarrow> u32"
  se_sha_start :: "u32 \<Rightarrow> u8 list \<Rightarrow> 'e \<Rightarrow> bool \<times> 'e"

definition se_execute_oneshot :: "'e se_env \<Rightarrow> u32 \<Rightarrow> u32 \<Rightarrow> u32 \<Rightarrow> u8 list \<Rightarrow> u8 list \<Rightarrow> 'e \<Rightarrow> bool \<times> u8 list \<times> 'e" where
  "se_execute_oneshot env config crypto_config last_block dst src e =
     (if length src > SE_LL_MAX_SIZE then (True, dst, e) else se_start env config crypto_config last_block src e)"

text \<open>The message in whole blocks, then a partial block padded with zeros.\<close>

definition se_execute_aes_oneshot :: "'e se_env \<Rightarrow> u32 \<Rightarrow> u32 \<Rightarrow> u8 list \<Rightarrow> u8 list \<Rightarrow> 'e \<Rightarrow> bool \<times> u8 list \<times> 'e" where
  "se_execute_aes_oneshot env config crypto_config0 dst src e0 =
     (let crypto_config = (if in_dram env then crypto_config0 OR SE_CRYPTO_MEMIF MEMIF_MCCIF else crypto_config0);
          size = length src;
          size_aligned = size div SE_AES_BLOCK_SIZE * SE_AES_BLOCK_SIZE;
          size_residue = size mod SE_AES_BLOCK_SIZE;
          (res, out, e1) = (if size_aligned \<noteq> 0
            then se_execute_oneshot env config crypto_config (of_nat (size div 16) - 1) (take size_aligned dst) (take size_aligned src) e0
            else (False, [], e0))
      in if \<not> res \<and> size_residue \<noteq> 0
         then let block = drop size_aligned src @ replicate (SE_AES_BLOCK_SIZE - size_residue) 0;
                  (res2, out2, e2) = se_execute_oneshot env config (crypto_config OR SE_CRYPTO_IV_SEL IV_UPDATED) 0 block block e1
              in (res2, out @ take size_residue out2, e2)
         else (res, out @ drop size_aligned (take size dst), e1))"

definition se_aes_crypt_ecb :: "'e se_env \<Rightarrow> u32 \<Rightarrow> bool \<Rightarrow> u8 list \<Rightarrow> u8 list \<Rightarrow> 'e \<Rightarrow> bool \<times> u8 list \<times> 'e" where
  "se_aes_crypt_ecb env ks enc dst src e =
     (if enc
      then se_execute_aes_oneshot env
             (SE_CONFIG_ENC_MODE MODE_KEY128 OR SE_CONFIG_ENC_ALG ALG_AES_ENC OR SE_CONFIG_DST DST_MEMORY)
             (SE_CRYPTO_KEY_INDEX ks OR SE_CRYPTO_CORE_SEL CORE_ENCRYPT OR SE_CRYPTO_XOR_POS XOR_BYPASS) dst src e
      else se_execute_aes_oneshot env
             (SE_CONFIG_DEC_MODE MODE_KEY128 OR SE_CONFIG_DEC_ALG ALG_AES_DEC OR SE_CONFIG_DST DST_MEMORY)
             (SE_CRYPTO_KEY_INDEX ks OR SE_CRYPTO_CORE_SEL CORE_DECRYPT OR SE_CRYPTO_XOR_POS XOR_BYPASS) dst src e)"

subsection \<open>Doubling the tweak\<close>

text \<open>Big endian, from the last byte to the first.\<close>

definition ls_1bit_step :: "u8 \<Rightarrow> u8 list \<times> u32 \<Rightarrow> u8 list \<times> u32" where
  "ls_1bit_step b st = (case st of (out, carry) \<Rightarrow> ((push_bit 1 b OR ucast carry) # out, ucast (drop_bit 7 b)))"

definition se_ls_1bit :: "u8 list \<Rightarrow> u8 list" where
  "se_ls_1bit block =
     (let (out, carry) = foldr ls_1bit_step block ([], 0)
      in if carry \<noteq> 0 then out[15 := out ! 15 XOR 0x87] else out)"

text \<open>Little endian, over four 32 bit words; the buffer is read and written as bytes elsewhere.\<close>

definition words_of_bytes :: "u8 list \<Rightarrow> u32 list" where
  "words_of_bytes bs = map (\<lambda>i. ucast (bs ! (4 * i)) OR push_bit 8 (ucast (bs ! (4 * i + 1))) OR
     push_bit 16 (ucast (bs ! (4 * i + 2))) OR push_bit 24 (ucast (bs ! (4 * i + 3)))) [0..<length bs div 4]"

definition bytes_of_words :: "u32 list \<Rightarrow> u8 list" where
  "bytes_of_words ws = concat (map (\<lambda>w. [ucast w, ucast (drop_bit 8 w), ucast (drop_bit 16 w), ucast (drop_bit 24 w)]) ws)"

fun ls_1bit_le_loop :: "u32 \<Rightarrow> u32 list \<Rightarrow> u32 list \<times> u32" where
  "ls_1bit_le_loop carry [] = ([], carry)"
| "ls_1bit_le_loop carry (b # bs) =
     (let (out, c) = ls_1bit_le_loop (drop_bit 31 b) bs in ((push_bit 1 b OR carry) # out, c))"

definition se_ls_1bit_le :: "u8 list \<Rightarrow> u8 list" where
  "se_ls_1bit_le buf =
     (let (block, carry) = ls_1bit_le_loop 0 (words_of_bytes buf)
      in bytes_of_words (if carry \<noteq> 0 then block[0 := block ! 0 XOR 0x87] else block))"

subsection \<open>XTS\<close>

text \<open>The sector number as the 16 bytes of a big endian integer.\<close>

definition sector_tweak :: "u64 \<Rightarrow> u8 list" where
  "sector_tweak sec = rev (map (\<lambda>i. ucast (drop_bit (8 * i) sec)) [0..<16])"

definition xor_block :: "u8 list \<Rightarrow> u8 list \<Rightarrow> u8 list" where
  "xor_block a b = map2 (XOR) a b"

fun xts_sec_loop :: "'e se_env \<Rightarrow> u32 \<Rightarrow> bool \<Rightarrow> nat \<Rightarrow> u8 list \<Rightarrow> u8 list \<Rightarrow> 'e \<Rightarrow> (u8 list \<times> 'e) option" where
  "xts_sec_loop env ks enc 0 tweak src e = Some ([], e)"
| "xts_sec_loop env ks enc (Suc n) tweak src e =
     (let x = xor_block (take 16 src) tweak;
          (res, y, e1) = se_aes_crypt_ecb env ks enc x x e
      in if res then None
         else case xts_sec_loop env ks enc n (se_ls_1bit tweak) (drop 16 src) e1 of
                None \<Rightarrow> None
              | Some (out, e2) \<Rightarrow> Some (xor_block y tweak @ out, e2))"

text \<open>\<open>None\<close> is the error result; the destination is then unspecified.\<close>

definition se_aes_crypt_xts_sec :: "'e se_env \<Rightarrow> u32 \<Rightarrow> u32 \<Rightarrow> bool \<Rightarrow> u64 \<Rightarrow> u8 list \<Rightarrow> 'e \<Rightarrow> (u8 list \<times> 'e) option" where
  "se_aes_crypt_xts_sec env tweak_ks crypt_ks enc sec src e =
     (let t = sector_tweak sec;
          (res, tweak, e1) = se_aes_crypt_ecb env tweak_ks True t t e
      in if res then None else xts_sec_loop env crypt_ks enc (length src div SE_AES_BLOCK_SIZE) tweak src e1)"

fun xts_loop :: "'e se_env \<Rightarrow> u32 \<Rightarrow> u32 \<Rightarrow> bool \<Rightarrow> nat \<Rightarrow> u64 \<Rightarrow> nat \<Rightarrow> u8 list \<Rightarrow> 'e \<Rightarrow> (u8 list \<times> 'e) option" where
  "xts_loop env tk ck enc secsize sec 0 src e = Some ([], e)"
| "xts_loop env tk ck enc secsize sec (Suc n) src e =
     (case se_aes_crypt_xts_sec env tk ck enc sec (take secsize src) e of
        None \<Rightarrow> None
      | Some (out, e1) \<Rightarrow>
          (case xts_loop env tk ck enc secsize (sec + 1) n (drop secsize src) e1 of
             None \<Rightarrow> None | Some (out2, e2) \<Rightarrow> Some (out @ out2, e2)))"

definition se_aes_crypt_xts :: "'e se_env \<Rightarrow> u32 \<Rightarrow> u32 \<Rightarrow> bool \<Rightarrow> u64 \<Rightarrow> u8 list \<Rightarrow> nat \<Rightarrow> nat \<Rightarrow> 'e \<Rightarrow> (u8 list \<times> 'e) option" where
  "se_aes_crypt_xts env tweak_ks crypt_ks enc sec src secsize num_secs e =
     xts_loop env tweak_ks crypt_ks enc secsize sec num_secs src e"

text \<open>
  XOR of the source with the running tweak, block by block: the result and the tweak after it.
  Whole blocks only; the rest of the destination keeps its bytes.
\<close>

fun xts_xor :: "u8 list \<Rightarrow> nat \<Rightarrow> u8 list \<Rightarrow> u8 list \<times> u8 list" where
  "xts_xor tweak 0 src = ([], tweak)"
| "xts_xor tweak (Suc n) src =
     (let (out, t) = xts_xor (se_ls_1bit_le tweak) n (drop 16 src) in (xor_block (take 16 src) tweak @ out, t))"

text \<open>Error, the caller's tweak buffer, the destination, the engine.\<close>

definition se_aes_crypt_xts_sec_nx ::
  "'e se_env \<Rightarrow> u32 \<Rightarrow> u32 \<Rightarrow> bool \<Rightarrow> u64 \<Rightarrow> u8 list \<Rightarrow> bool \<Rightarrow> u32 \<Rightarrow> u8 list \<Rightarrow> u8 list \<Rightarrow> 'e \<Rightarrow> bool \<times> u8 list \<times> u8 list \<times> 'e" where
  "se_aes_crypt_xts_sec_nx env tweak_ks crypt_ks enc sec tweak0 regen_tweak tweak_exp dst src e0 =
     (let (res, tweak1, e1) = (if regen_tweak then se_aes_crypt_ecb env tweak_ks True (sector_tweak sec) (sector_tweak sec) e0
                               else (False, tweak0, e0))
      in if res then (True, tweak1, dst, e1)
         else let tweak2 = (se_ls_1bit_le ^^ unat (push_bit 5 tweak_exp)) tweak1;
                  n = length src div 16;
                  (x, tweak3) = xts_xor tweak2 n src;
                  dst1 = x @ drop (16 * n) (take (length src) dst);
                  (res2, dst2, e2) = se_aes_crypt_ecb env crypt_ks enc dst1 dst1 e1
              in if res2 then (True, tweak3, dst2, e2)
                 else (False, tweak3, fst (xts_xor tweak2 n dst2) @ drop (16 * n) dst2, e2))"

subsection \<open>The engine as a block cipher\<close>

function blocks16 :: "u8 list \<Rightarrow> u8 list list" where
  "blocks16 xs = (if length xs < 16 then [] else take 16 xs # blocks16 (drop 16 xs))"
  by pat_completeness auto
termination by (relation "measure length") auto

declare blocks16.simps [simp del]

text \<open>
  What the engine promises: with the ECB configurations it encrypts and decrypts every block of a
  message with the key in the slot, and decryption inverts encryption.
\<close>

definition ecb_config :: "bool \<Rightarrow> u32" where
  "ecb_config enc = (if enc then 0x1000 else 0x100)"

definition ecb_crypto_config :: "'e se_env \<Rightarrow> u32 \<Rightarrow> bool \<Rightarrow> u32" where
  "ecb_crypto_config env ks enc = push_bit 24 ks OR (if enc then 0x100 else 0) OR (if in_dram env then 0x80000000 else 0)"

definition aes_engine :: "'e se_env \<Rightarrow> (u32 \<Rightarrow> bool \<Rightarrow> u8 list \<Rightarrow> u8 list) \<Rightarrow> bool" where
  "aes_engine env F \<longleftrightarrow>
     (\<forall>ks enc b. length b = 16 \<longrightarrow> length (F ks enc b) = 16) \<and>
     (\<forall>ks b. length b = 16 \<longrightarrow> F ks False (F ks True b) = b) \<and>
     (\<forall>ks enc src e. src \<noteq> [] \<and> length src mod 16 = 0 \<longrightarrow>
        (\<exists>e'. se_start env (ecb_config enc) (ecb_crypto_config env ks enc) (of_nat (length src div 16) - 1) src e =
           (False, concat (map (F ks enc) (blocks16 src)), e')))"

lemma aes_engine_run:
  "aes_engine env F \<Longrightarrow> src \<noteq> [] \<Longrightarrow> length src mod 16 = 0 \<Longrightarrow>
   \<exists>e'. se_start env (ecb_config enc) (ecb_crypto_config env ks enc) (of_nat (length src div 16) - 1) src e =
     (False, concat (map (F ks enc) (blocks16 src)), e')"
  by (simp add: aes_engine_def)

lemma se_aes_crypt_ecb_blocks:
  assumes "aes_engine env F" "src \<noteq> []" "length src mod 16 = 0" "length src \<le> SE_LL_MAX_SIZE"
  shows "\<exists>e'. se_aes_crypt_ecb env ks enc dst src e = (False, concat (map (F ks enc) (blocks16 src)) @ drop (length src) (take (length src) dst), e')"
proof -
  define cc where "cc = (if enc then SE_CRYPTO_KEY_INDEX ks OR SE_CRYPTO_CORE_SEL CORE_ENCRYPT OR SE_CRYPTO_XOR_POS XOR_BYPASS
    else SE_CRYPTO_KEY_INDEX ks OR SE_CRYPTO_CORE_SEL CORE_DECRYPT OR SE_CRYPTO_XOR_POS XOR_BYPASS)"
  define cfg where "cfg = (if enc then SE_CONFIG_ENC_MODE MODE_KEY128 OR SE_CONFIG_ENC_ALG ALG_AES_ENC OR SE_CONFIG_DST DST_MEMORY
    else SE_CONFIG_DEC_MODE MODE_KEY128 OR SE_CONFIG_DEC_ALG ALG_AES_DEC OR SE_CONFIG_DST DST_MEMORY)"
  have cfg: "cfg = ecb_config enc"
    by (simp add: cfg_def ecb_config_def SE_CONFIG_ENC_MODE_def SE_CONFIG_ENC_ALG_def SE_CONFIG_DST_def SE_CONFIG_DEC_MODE_def
        SE_CONFIG_DEC_ALG_def MODE_KEY128_def ALG_AES_ENC_def ALG_AES_DEC_def DST_MEMORY_def)
  have cc: "(if in_dram env then cc OR SE_CRYPTO_MEMIF MEMIF_MCCIF else cc) = ecb_crypto_config env ks enc"
    by (simp add: cc_def ecb_crypto_config_def SE_CRYPTO_KEY_INDEX_def SE_CRYPTO_CORE_SEL_def SE_CRYPTO_XOR_POS_def
        CORE_ENCRYPT_def CORE_DECRYPT_def XOR_BYPASS_def SE_CRYPTO_MEMIF_def MEMIF_MCCIF_def or.assoc)
  have l: "length src div 16 * 16 = length src" using assms(3) by (metis add.right_neutral div_mult_mod_eq)
  have e: "se_aes_crypt_ecb env ks enc dst src e = se_execute_aes_oneshot env cfg cc dst src e"
    by (simp add: se_aes_crypt_ecb_def cfg_def cc_def)
  obtain e' where "se_start env (ecb_config enc) (ecb_crypto_config env ks enc) (of_nat (length src div 16) - 1) src e =
      (False, concat (map (F ks enc) (blocks16 src)), e')"
    using aes_engine_run [OF assms(1-3), of enc ks e] by (elim exE)
  then show ?thesis
    unfolding e se_execute_aes_oneshot_def Let_def cc SE_AES_BLOCK_SIZE_def cfg l
    using assms(2-4) by (simp add: se_execute_oneshot_def)
qed

subsection \<open>XTS as a function of the tweak\<close>

fun xts :: "(u8 list \<Rightarrow> u8 list) \<Rightarrow> (u8 list \<Rightarrow> u8 list) \<Rightarrow> u8 list \<Rightarrow> u8 list list \<Rightarrow> u8 list" where
  "xts dbl f t [] = []"
| "xts dbl f t (b # bs) = xor_block (f (xor_block b t)) t @ xts dbl f (dbl t) bs"

lemma xts_append: "xts dbl f t (as @ bs) = xts dbl f t as @ xts dbl f ((dbl ^^ length as) t) bs"
  by (induction as arbitrary: t) (simp_all add: funpow_swap1)

lemma length_xor_block [simp]: "length (xor_block a b) = min (length a) (length b)"
  by (simp add: xor_block_def)

lemma xor_block_cancel: "length a = length t \<Longrightarrow> xor_block (xor_block a t) t = a"
  unfolding xor_block_def by (induction a t rule: list_induct2) (simp_all add: xor.assoc)

lemma length_words_of_bytes [simp]: "length (words_of_bytes bs) = length bs div 4"
  by (simp add: words_of_bytes_def)

lemma length_bytes_of_words [simp]: "length (bytes_of_words ws) = 4 * length ws"
  by (induction ws) (simp_all add: bytes_of_words_def)

lemma length_ls_loop [simp]: "length (fst (ls_1bit_le_loop c ws)) = length ws"
  by (induction ws arbitrary: c) (simp_all add: Let_def split_def)

lemma length_ls_1bit_le: "length t = 16 \<Longrightarrow> length (se_ls_1bit_le t) = 16"
  by (simp add: se_ls_1bit_le_def Let_def split_def)

lemma length_ls_funpow: "length t = 16 \<Longrightarrow> length ((se_ls_1bit_le ^^ k) t) = 16"
  by (induction k) (simp_all add: length_ls_1bit_le)

lemma blocks16_append: "length a = 16 \<Longrightarrow> blocks16 (a @ b) = a # blocks16 b"
  by (subst blocks16.simps) simp

lemma blocks16_length: "length (blocks16 xs) = length xs div 16"
  by (induction xs rule: blocks16.induct) (subst blocks16.simps, simp add: le_div_geq)

lemma blocks16_all: "list_all (\<lambda>b. length b = 16) (blocks16 xs)"
proof (induction xs rule: blocks16.induct)
  case (1 xs)
  then show ?case by (subst blocks16.simps) simp
qed

lemma blocks16_concat: "list_all (\<lambda>b. length b = 16) bs \<Longrightarrow> blocks16 (concat bs) = bs"
  by (induction bs) (simp_all add: blocks16_append, simp add: blocks16.simps)

lemma concat_blocks16: "length xs mod 16 = 0 \<Longrightarrow> concat (blocks16 xs) = xs"
proof (induction xs rule: blocks16.induct)
  case (1 xs)
  show ?case
  proof (cases "length xs < 16")
    case False
    then have "length (drop 16 xs) mod 16 = 0" using "1.prems" by (simp add: le_mod_geq)
    then show ?thesis using 1 False by (subst blocks16.simps) simp
  qed (use "1.prems" in \<open>simp add: blocks16.simps\<close>)
qed

lemma length_concat16: "list_all (\<lambda>b. length b = 16) bs \<Longrightarrow> length (concat bs) = 16 * length bs"
  by (induction bs) simp_all

text \<open>One pass of the XOR loop over a list of blocks.\<close>

fun xor_blocks :: "u8 list \<Rightarrow> u8 list list \<Rightarrow> u8 list list" where
  "xor_blocks t [] = []"
| "xor_blocks t (b # bs) = xor_block b t # xor_blocks (se_ls_1bit_le t) bs"

lemma xts_xor_blocks:
  "list_all (\<lambda>b. length b = 16) bs \<Longrightarrow> xts_xor t (length bs) (concat bs) = (concat (xor_blocks t bs), (se_ls_1bit_le ^^ length bs) t)"
  by (induction bs arbitrary: t) (simp_all add: Let_def split_def funpow_swap1)

lemma xor_blocks_all: "length t = 16 \<Longrightarrow> list_all (\<lambda>b. length b = 16) bs \<Longrightarrow> list_all (\<lambda>b. length b = 16) (xor_blocks t bs)"
  by (induction bs arbitrary: t) (simp_all add: length_ls_1bit_le)

lemma length_xor_blocks [simp]: "length (xor_blocks t bs) = length bs"
  by (induction bs arbitrary: t) simp_all

lemma xts_two_passes: "concat (xor_blocks t (map f (xor_blocks t bs))) = xts se_ls_1bit_le f t bs"
  by (induction bs arbitrary: t) simp_all

lemma xts_length:
  assumes "\<And>b. length b = 16 \<Longrightarrow> length (f b) = 16" "\<And>t. length t = 16 \<Longrightarrow> length (dbl t) = 16"
    and "length t = 16" "list_all (\<lambda>b. length b = 16) bs"
  shows "length (xts dbl f t bs) = 16 * length bs"
  using assms(3,4) by (induction bs arbitrary: t) (simp_all add: assms(1,2))

lemma xts_inverse:
  assumes "\<And>b. length b = 16 \<Longrightarrow> length (f b) = 16" "\<And>b. length b = 16 \<Longrightarrow> g (f b) = b"
    and "\<And>t. length t = 16 \<Longrightarrow> length (dbl t) = 16" and "length t = 16" "list_all (\<lambda>b. length b = 16) bs"
  shows "xts dbl g t (blocks16 (xts dbl f t bs)) = concat bs"
  using assms(4,5)
proof (induction bs arbitrary: t)
  case Nil
  then show ?case by (simp add: blocks16.simps)
next
  case (Cons b bs)
  then have l: "length (xor_block (f (xor_block b t)) t) = 16" by (simp add: assms(1))
  have "xor_block (g (xor_block (xor_block (f (xor_block b t)) t) t)) t = b"
    using Cons.prems by (simp add: xor_block_cancel assms)
  then show ?case using Cons by (simp add: blocks16_append [OF l] assms(3))
qed

text \<open>The tweak a call starts from.\<close>

definition start_tweak :: "(u32 \<Rightarrow> bool \<Rightarrow> u8 list \<Rightarrow> u8 list) \<Rightarrow> u32 \<Rightarrow> u64 \<Rightarrow> u8 list" where
  "start_tweak F tweak_ks sec = F tweak_ks True (sector_tweak sec)"

lemma length_sector_tweak [simp]: "length (sector_tweak sec) = 16"
  by (simp add: sector_tweak_def)

lemma length_start_tweak: "aes_engine env F \<Longrightarrow> length (start_tweak F ks sec) = 16"
  by (simp add: start_tweak_def aes_engine_def)

lemma se_aes_crypt_xts_sec_nx_eq:
  fixes sec :: u64 and tk ex :: u32
  assumes aes: "aes_engine env F" and src: "src \<noteq> []" "length src mod 16 = 0" "length src \<le> SE_LL_MAX_SIZE"
    and tw: "regen \<or> length tweak = 16"
  defines "t \<equiv> (se_ls_1bit_le ^^ unat (push_bit 5 ex)) (if regen then start_tweak F tk sec else tweak)"
  shows "\<exists>e'. se_aes_crypt_xts_sec_nx env tk ck enc sec tweak regen ex dst src e =
    (False, (se_ls_1bit_le ^^ (length src div 16)) t, xts se_ls_1bit_le (F ck enc) t (blocks16 src), e')"
proof -
  have st: "blocks16 (sector_tweak sec) = [sector_tweak sec]" using blocks16_append [of "sector_tweak sec" "[]"] by (simp add: blocks16.simps)
  obtain e1 where e1: "(if regen then se_aes_crypt_ecb env tk True (sector_tweak sec) (sector_tweak sec) e else (False, tweak, e)) =
      (False, if regen then start_tweak F tk sec else tweak, e1)"
    using se_aes_crypt_ecb_blocks [OF aes, of "sector_tweak sec" tk True "sector_tweak sec" e]
    by (cases regen) (auto simp: st start_tweak_def SE_LL_MAX_SIZE_def simp flip: length_0_conv)
  define bs where "bs = blocks16 src"
  have bs: "list_all (\<lambda>b. length b = 16) bs" "concat bs = src" "length bs = length src div 16"
    unfolding bs_def by (rule blocks16_all, rule concat_blocks16 [OF src(2)], rule blocks16_length)
  have lt: "length t = 16" unfolding t_def using tw aes by (intro length_ls_funpow) (auto simp: length_start_tweak)
  define x where "x = concat (xor_blocks t bs)"
  have xb: "blocks16 x = xor_blocks t bs" unfolding x_def by (intro blocks16_concat xor_blocks_all lt bs)
  have lx: "length x = length src"
    using length_concat16 [OF xor_blocks_all [OF lt bs(1)]] length_concat16 [OF bs(1)] bs(2) by (simp add: x_def)
  have lF: "length (F ck enc b) = 16" if "length b = 16" for b using aes that by (simp add: aes_engine_def)
  define y where "y = concat (map (F ck enc) (xor_blocks t bs))"
  have mF: "list_all (\<lambda>b. length b = 16) (map (F ck enc) (xor_blocks t bs))"
    using xor_blocks_all [OF lt bs(1)] by (auto simp: list_all_iff lF)
  obtain e2 where e2: "se_aes_crypt_ecb env ck enc x x e1 = (False, y, e2)"
  proof -
    have "x \<noteq> []" "length x mod 16 = 0" "length x \<le> SE_LL_MAX_SIZE" using src lx by auto
    from se_aes_crypt_ecb_blocks [OF aes this, of ck enc x e1] show ?thesis using that by (auto simp: xb y_def)
  qed
  have p1: "xts_xor t (length src div 16) src = (x, (se_ls_1bit_le ^^ (length src div 16)) t)"
    using xts_xor_blocks [OF bs(1), of t] by (simp add: bs x_def)
  have p2: "fst (xts_xor t (length src div 16) y) = xts se_ls_1bit_le (F ck enc) t bs"
    using xts_xor_blocks [OF mF, of t] by (simp add: y_def bs xts_two_passes)
  have ly: "length y = length src"
    using length_concat16 [OF mF] length_concat16 [OF bs(1)] bs(2) by (simp add: y_def)
  have l: "16 * (length src div 16) = length src" using src(2) div_mult_mod_eq [of "length src" 16] by linarith
  show ?thesis
    unfolding se_aes_crypt_xts_sec_nx_def e1 using p1 e2 p2 ly l
    by (simp add: Let_def flip: t_def bs_def)
qed


subsection \<open>Round trips\<close>

lemma aes_engine_cipher:
  assumes "aes_engine env F"
  shows "length b = 16 \<Longrightarrow> length (F ks enc b) = 16" "length b = 16 \<Longrightarrow> F ks False (F ks True b) = b"
  using assms by (simp_all add: aes_engine_def)

text \<open>
  C22. Decrypting with the continuable XTS mode inverts encrypting with it, for every sector number,
  every starting block inside the sector and every message of whole blocks the engine can take, on an
  engine that implements a block cipher. Neither call fails, and both leave the same tweak behind.
\<close>

theorem xts_sec_nx_roundtrip:
  assumes "aes_engine env F" "src \<noteq> []" "length src mod 16 = 0" "length src \<le> SE_LL_MAX_SIZE"
  shows "\<exists>tw ct e1 e2. se_aes_crypt_xts_sec_nx env tk ck True sec tw0 True ex dst src e = (False, tw, ct, e1) \<and>
    length ct = length src \<and>
    se_aes_crypt_xts_sec_nx env tk ck False sec tw1 True ex dst' ct e1 = (False, tw, src, e2)"
proof -
  define t where "t = (se_ls_1bit_le ^^ unat (push_bit 5 ex)) (start_tweak F tk sec)"
  have lt: "length t = 16" unfolding t_def by (intro length_ls_funpow length_start_tweak [OF assms(1)])
  define ct where "ct = xts se_ls_1bit_le (F ck True) t (blocks16 src)"
  obtain e1 where e1: "se_aes_crypt_xts_sec_nx env tk ck True sec tw0 True ex dst src e = (False, (se_ls_1bit_le ^^ (length src div 16)) t, ct, e1)"
    using se_aes_crypt_xts_sec_nx_eq [OF assms, where regen = True and tk = tk and ck = ck and enc = True and sec = sec and tweak = tw0 and ex = ex and dst = dst and e = e]
    by (auto simp: t_def ct_def)
  have l: "length ct = length src"
  proof -
    have "length ct = 16 * length (blocks16 src)"
      unfolding ct_def by (rule xts_length [OF aes_engine_cipher(1) [OF assms(1)] length_ls_1bit_le lt blocks16_all])
    then show ?thesis using blocks16_length [of src] assms(3) div_mult_mod_eq [of "length src" 16] by simp
  qed
  then have ct: "ct \<noteq> []" "length ct mod 16 = 0" "length ct \<le> SE_LL_MAX_SIZE" using assms by auto
  obtain e2 where "se_aes_crypt_xts_sec_nx env tk ck False sec tw1 True ex dst' ct e1 =
      (False, (se_ls_1bit_le ^^ (length ct div 16)) t, xts se_ls_1bit_le (F ck False) t (blocks16 ct), e2)"
    using se_aes_crypt_xts_sec_nx_eq [OF assms(1) ct, where regen = True and tk = tk and ck = ck and enc = False and sec = sec and tweak = tw1 and ex = ex and dst = dst' and e = e1]
    by (auto simp: t_def)
  moreover have "xts se_ls_1bit_le (F ck False) t (blocks16 ct) = src"
    unfolding ct_def
    by (subst xts_inverse [of "F ck True"])
      (use aes_engine_cipher [OF assms(1)] length_ls_1bit_le lt blocks16_all concat_blocks16 [OF assms(3)] in simp_all)
  ultimately show ?thesis using e1 l by auto
qed

definition demo_engine :: "unit se_env" where
  "demo_engine = \<lparr>se_start = (\<lambda>cfg cc n src e. (False, concat (map rev (blocks16 src)), e)), in_dram = False, se_write = (\<lambda>r v e. e), se_read = (\<lambda>r e. 0),
     se_sha_start = (\<lambda>cfg src e. (False, e))\<rparr>"

lemma demo_engine_aes: "aes_engine demo_engine (\<lambda>ks enc. rev)"
  by (simp add: aes_engine_def demo_engine_def)

theorem xts_sec_nx_roundtrip_witness:
  "aes_engine demo_engine (\<lambda>ks enc. rev) \<and>
   (\<exists>tw ct. se_aes_crypt_xts_sec_nx demo_engine 1 0 True 7 [] True 3 [] (replicate 32 5) () = (False, tw, ct, ()))"
  using xts_sec_nx_roundtrip [OF demo_engine_aes, of "replicate 32 5" 1 0 7 "[]" 3 "[]" "()" "[]" "[]"] demo_engine_aes
  by (auto simp: SE_LL_MAX_SIZE_def)

subsection \<open>Doubling in the field of 2 to the 128 elements\<close>

definition gf128_double :: "128 word \<Rightarrow> 128 word" where
  "gf128_double v = push_bit 1 v XOR (if bit v 127 then 0x87 else 0)"

definition le128 :: "u8 list \<Rightarrow> 128 word" where
  "le128 bs = foldr (\<lambda>b v. ucast b OR push_bit 8 v) bs 0"

definition be128 :: "u8 list \<Rightarrow> 128 word" where
  "be128 bs = le128 (rev bs)"

definition words128 :: "u32 list \<Rightarrow> 128 word" where
  "words128 ws = foldr (\<lambda>w v. ucast w OR push_bit 32 v) ws 0"

lemma drop_bit_31: "drop_bit 31 (w :: u32) = (if bit w 31 then 1 else 0)"
proof (rule bit_word_eqI)
  fix n assume "n < LENGTH(32)"
  then show "bit (drop_bit 31 w) n = bit (if bit w 31 then 1 else 0 :: u32) n"
    by (cases "n = 0") (auto simp: bit_simps dest: bit_imp_le_length)
qed

lemma bit_word_times_2: "bit (w * 2) n \<longleftrightarrow> 0 < n \<and> n < LENGTH('a) \<and> bit w (n - 1)" for w :: "'a::len word"
  using bit_push_bit_iff [of 1 w n] by (auto simp: push_bit_eq_mult)

lemma words128_Cons: "words128 (w # ws) = ucast w OR push_bit 32 (words128 ws)"
  by (simp add: words128_def)

lemma dbl_word: "(ucast (push_bit 1 b OR c) OR push_bit 32 (push_bit 1 v OR ucast (drop_bit 31 b)) :: 128 word) =
   push_bit 1 (ucast b OR push_bit 32 v) OR ucast (c :: u32)"
proof (rule bit_word_eqI)
  fix n assume "n < LENGTH(128)"
  then have "n < 128" by simp
  consider "n = 0" | "0 < n" "n < 32" | "n = 32" | "32 < n" by linarith
  then show "bit (ucast (push_bit 1 b OR c) OR push_bit 32 (push_bit 1 v OR ucast (drop_bit 31 b)) :: 128 word) n =
      bit (push_bit 1 (ucast b OR push_bit 32 v) OR ucast c :: 128 word) n"
    using \<open>n < 128\<close> by cases (auto simp: bit_simps bit_word_times_2 dest: bit_imp_le_length)
qed

lemma words128_ls_loop:
  "words128 (fst (ls_1bit_le_loop c ws)) OR push_bit (32 * length ws) (ucast (snd (ls_1bit_le_loop c ws))) = push_bit 1 (words128 ws) OR ucast c"
proof (induction ws arbitrary: c)
  case Nil
  then show ?case by (simp add: words128_def)
next
  case (Cons b ws)
  define o1 k where "o1 = fst (ls_1bit_le_loop (drop_bit 31 b) ws)" and "k = snd (ls_1bit_le_loop (drop_bit 31 b) ws)"
  have o1: "fst (ls_1bit_le_loop c (b # ws)) = (push_bit 1 b OR c) # o1" "snd (ls_1bit_le_loop c (b # ws)) = k"
    by (simp_all add: o1_def k_def Let_def split_def)
  have "words128 (fst (ls_1bit_le_loop c (b # ws))) OR push_bit (32 * length (b # ws)) (ucast (snd (ls_1bit_le_loop c (b # ws)))) =
      ucast (push_bit 1 b OR c) OR push_bit 32 (words128 o1 OR push_bit (32 * length ws) (ucast k))"
    unfolding o1 words128_Cons by (simp add: push_bit_push_bit or.assoc add.commute)
  also have "\<dots> = ucast (push_bit 1 b OR c) OR push_bit 32 (push_bit 1 (words128 ws) OR ucast (drop_bit 31 b))"
    using Cons [of "drop_bit 31 b"] unfolding o1_def k_def by (simp only:)
  also have "\<dots> = push_bit 1 (words128 (b # ws)) OR ucast c" unfolding words128_Cons by (rule dbl_word)
  finally show ?case .
qed

lemma snd_ls_loop: "ws \<noteq> [] \<Longrightarrow> snd (ls_1bit_le_loop c ws) = drop_bit 31 (last ws)"
  by (induction ws arbitrary: c) (simp_all add: Let_def split_def)

lemma words128_update_0: "ws \<noteq> [] \<Longrightarrow> words128 (ws[0 := ws ! 0 XOR k]) = words128 ws XOR ucast k"
proof (cases ws)
  case (Cons b bs')
  have "(ucast (b XOR k) OR push_bit 32 v :: 128 word) = (ucast b OR push_bit 32 v) XOR ucast k" for v
    by (rule bit_word_eqI) (auto simp: bit_simps dest: bit_imp_le_length)
  then show ?thesis by (simp add: Cons words128_Cons)
qed simp

lemma push_bit_128: "push_bit 128 x = (0 :: 128 word)"
  by (rule bit_word_eqI) (simp add: bit_simps)

lemma words128_double:
  assumes "length ws = 4"
  shows "words128 (let (block, carry) = ls_1bit_le_loop 0 ws in if carry \<noteq> 0 then block[0 := block ! 0 XOR 0x87] else block)
   = gf128_double (words128 ws)"
proof -
  obtain a b c d where ws: "ws = [a, b, c, d]" using assms by (auto simp: length_Suc_conv numeral_eq_Suc)
  have "ucast d = drop_bit 96 (words128 ws)"
    unfolding ws words128_def by (rule bit_word_eqI) (auto simp: bit_simps dest: bit_imp_le_length)
  then have "bit (words128 ws) 127 \<longleftrightarrow> bit (ucast d :: 128 word) 31" by (simp add: bit_simps)
  then have t: "snd (ls_1bit_le_loop 0 ws) \<noteq> 0 \<longleftrightarrow> bit (words128 ws) 127"
    using snd_ls_loop [of ws 0] by (simp add: ws drop_bit_31 bit_simps)
  define o1 where "o1 = fst (ls_1bit_le_loop 0 ws)"
  have o1: "words128 o1 = push_bit 1 (words128 ws)" "o1 \<noteq> []"
    using words128_ls_loop [of 0 ws] assms by (auto simp: o1_def push_bit_128 ws Let_def)
  show ?thesis using words128_update_0 [OF o1(2), of "0x87"] t
    by (simp add: split_def Let_def gf128_double_def o1(1) flip: o1_def)
qed

lemma le_word_bytes:
  "ucast (ucast (a :: u8) OR push_bit 8 (ucast (b :: u8)) OR push_bit 16 (ucast (c :: u8)) OR push_bit 24 (ucast (d :: u8)) :: u32) OR push_bit 32 v =
   (ucast a OR push_bit 8 (ucast b OR push_bit 8 (ucast c OR push_bit 8 (ucast d OR push_bit 8 v))) :: 128 word)"
proof (rule bit_word_eqI)
  fix n assume "n < LENGTH(128)"
  then have "n < 128" by simp
  consider "n < 8" | "8 \<le> n" "n < 16" | "16 \<le> n" "n < 24" | "24 \<le> n" "n < 32" | "32 \<le> n" by linarith
  then show "bit (ucast (ucast (a :: u8) OR push_bit 8 (ucast (b :: u8)) OR push_bit 16 (ucast (c :: u8)) OR push_bit 24 (ucast (d :: u8)) :: u32) OR push_bit 32 v) n =
   bit (ucast a OR push_bit 8 (ucast b OR push_bit 8 (ucast c OR push_bit 8 (ucast d OR push_bit 8 v))) :: 128 word) n"
    using \<open>n < 128\<close> by cases (auto simp: bit_simps dest: bit_imp_le_length)
qed

lemma word_bytes_le:
  "(ucast (ucast w :: u8) OR push_bit 8 (ucast (ucast (drop_bit 8 w) :: u8)) OR push_bit 16 (ucast (ucast (drop_bit 16 w) :: u8)) OR
     push_bit 24 (ucast (ucast (drop_bit 24 w) :: u8)) OR push_bit 32 v :: 128 word) = ucast (w :: u32) OR push_bit 32 v"
  by (rule bit_word_eqI) (auto simp: bit_simps dest: bit_imp_le_length)

lemma le128_bytes_of_words: "le128 (bytes_of_words ws) = words128 ws"
  by (induction ws) (simp_all add: le128_def words128_def bytes_of_words_def word_bytes_le)

lemma length_16E:
  assumes "length bs = 16"
  obtains b0 b1 b2 b3 b4 b5 b6 b7 b8 b9 b10 b11 b12 b13 b14 b15
  where "bs = [b0, b1, b2, b3, b4, b5, b6, b7, b8, b9, b10, b11, b12, b13, b14, b15]"
  using assms by (auto simp: length_Suc_conv numeral_eq_Suc)

lemma words_of_bytes_128: "length bs = 16 \<Longrightarrow> words128 (words_of_bytes bs) = le128 bs"
  by (erule length_16E) (simp add: words128_def words_of_bytes_def le128_def upt_rec le_word_bytes)

fun ls_bytes :: "u8 \<Rightarrow> u8 list \<Rightarrow> u8 list \<times> u8" where
  "ls_bytes c [] = ([], c)"
| "ls_bytes c (b # bs) = (let (out, k) = ls_bytes (drop_bit 7 b) bs in ((push_bit 1 b OR c) # out, k))"

lemma ls_bytes_append: "ls_bytes c (as @ bs) =
   (let (o1, k1) = ls_bytes c as; (o2, k2) = ls_bytes k1 bs in (o1 @ o2, k2))"
  by (induction as arbitrary: c) (simp_all add: Let_def split_def)

lemma ucast_u8_u32_u8: "ucast (ucast (k :: u8) :: u32) = k"
  by (rule bit_word_eqI) (simp add: bit_simps)

lemma ls_1bit_foldr: "foldr ls_1bit_step bs ([], 0) = (rev (fst (ls_bytes 0 (rev bs))), ucast (snd (ls_bytes 0 (rev bs))))"
  by (induction bs) (simp_all add: ls_1bit_step_def ls_bytes_append Let_def split_def ucast_u8_u32_u8)

lemma le128_Cons: "le128 (b # bs) = ucast b OR push_bit 8 (le128 bs)"
  by (simp add: le128_def)

lemma dbl_byte: "(ucast (push_bit 1 b OR c) OR push_bit 8 (push_bit 1 v OR ucast (drop_bit 7 b)) :: 128 word) =
   push_bit 1 (ucast b OR push_bit 8 v) OR ucast (c :: u8)"
proof (rule bit_word_eqI)
  fix n assume "n < LENGTH(128)"
  then have "n < 128" by simp
  consider "n = 0" | "0 < n" "n < 8" | "n = 8" | "8 < n" by linarith
  then show "bit (ucast (push_bit 1 b OR c) OR push_bit 8 (push_bit 1 v OR ucast (drop_bit 7 b)) :: 128 word) n =
      bit (push_bit 1 (ucast b OR push_bit 8 v) OR ucast c :: 128 word) n"
    using \<open>n < 128\<close> by cases (auto simp: bit_simps bit_word_times_2 dest: bit_imp_le_length)
qed

lemma le128_ls_bytes:
  "le128 (fst (ls_bytes c bs)) OR push_bit (8 * length bs) (ucast (snd (ls_bytes c bs))) = push_bit 1 (le128 bs) OR ucast c"
proof (induction bs arbitrary: c)
  case Nil
  then show ?case by (simp add: le128_def)
next
  case (Cons b bs)
  define o1 k where "o1 = fst (ls_bytes (drop_bit 7 b) bs)" and "k = snd (ls_bytes (drop_bit 7 b) bs)"
  have o1: "fst (ls_bytes c (b # bs)) = (push_bit 1 b OR c) # o1" "snd (ls_bytes c (b # bs)) = k"
    by (simp_all add: o1_def k_def Let_def split_def)
  have "le128 (fst (ls_bytes c (b # bs))) OR push_bit (8 * length (b # bs)) (ucast (snd (ls_bytes c (b # bs)))) =
      ucast (push_bit 1 b OR c) OR push_bit 8 (le128 o1 OR push_bit (8 * length bs) (ucast k))"
    unfolding o1 le128_Cons by (simp add: push_bit_push_bit or.assoc add.commute)
  also have "\<dots> = ucast (push_bit 1 b OR c) OR push_bit 8 (push_bit 1 (le128 bs) OR ucast (drop_bit 7 b))"
    using Cons [of "drop_bit 7 b"] unfolding o1_def k_def by (simp only:)
  also have "\<dots> = push_bit 1 (le128 (b # bs)) OR ucast c" unfolding le128_Cons by (rule dbl_byte)
  finally show ?case .
qed

lemma length_ls_bytes [simp]: "length (fst (ls_bytes c bs)) = length bs"
  by (induction bs arbitrary: c) (simp_all add: Let_def split_def)

lemma snd_ls_bytes: "bs \<noteq> [] \<Longrightarrow> snd (ls_bytes c bs) = drop_bit 7 (last bs)"
  by (induction bs arbitrary: c rule: rev_induct) (simp_all add: ls_bytes_append Let_def split_def)

lemma bit_le128: "bit (le128 bs) n \<longleftrightarrow> n < 128 \<and> n div 8 < length bs \<and> bit (bs ! (n div 8)) (n mod 8)"
proof (induction bs arbitrary: n)
  case Nil
  then show ?case by (simp add: le128_def)
next
  case (Cons b bs)
  show ?case
  proof (cases "n < 8")
    case True
    then show ?thesis by (auto simp: le128_Cons bit_simps)
  next
    case False
    then have "n div 8 = Suc ((n - 8) div 8)" "n mod 8 = (n - 8) mod 8" by (simp_all add: le_div_geq le_mod_geq)
    then show ?thesis using False Cons [of "n - 8"] by (auto simp: le128_Cons bit_simps dest: bit_imp_le_length)
  qed
qed

lemma drop_bit_7: "drop_bit 7 (w :: u8) = (if bit w 7 then 1 else 0)"
proof (rule bit_word_eqI)
  fix n assume "n < LENGTH(8)"
  then show "bit (drop_bit 7 w) n = bit (if bit w 7 then 1 else 0 :: u8) n"
    by (cases "n = 0") (auto simp: bit_simps dest: bit_imp_le_length)
qed

lemma le128_update_0: "bs \<noteq> [] \<Longrightarrow> le128 (bs[0 := bs ! 0 XOR k]) = le128 bs XOR ucast k"
proof (cases bs)
  case (Cons b bs')
  have "(ucast (b XOR k) OR push_bit 8 v :: 128 word) = (ucast b OR push_bit 8 v) XOR ucast k" for v
    by (rule bit_word_eqI) (auto simp: bit_simps dest: bit_imp_le_length)
  then show ?thesis by (simp add: Cons le128_Cons)
qed simp

lemma rev_update_15: "length bs = 16 \<Longrightarrow> rev ((rev bs)[15 := x]) = bs[0 := x]"
  by (simp add: rev_update)

lemma se_ls_1bit_le_gf128:
  assumes "length buf = 16"
  shows "le128 (se_ls_1bit_le buf) = gf128_double (le128 buf)"
proof -
  have "le128 (se_ls_1bit_le buf) = words128 (let (block, carry) = ls_1bit_le_loop 0 (words_of_bytes buf)
      in if carry \<noteq> 0 then block[0 := block ! 0 XOR 0x87] else block)"
    by (simp add: se_ls_1bit_le_def le128_bytes_of_words Let_def split_def)
  also have "\<dots> = gf128_double (le128 buf)"
    using words128_double [of "words_of_bytes buf"] words_of_bytes_128 [OF assms] assms by simp
  finally show ?thesis .
qed

lemma se_ls_1bit_gf128:
  assumes "length buf = 16"
  shows "length (se_ls_1bit buf) = 16" "be128 (se_ls_1bit buf) = gf128_double (be128 buf)"
proof -
  define bs where "bs = rev buf"
  have bs: "length bs = 16" "rev bs = buf" "bs \<noteq> []" using assms by (auto simp: bs_def)
  define v o1 where "v = le128 bs" and "o1 = fst (ls_bytes 0 bs)"
  have o1: "le128 o1 = push_bit 1 v" "length o1 = 16" using le128_ls_bytes [of 0 bs] by (simp_all add: bs v_def o1_def push_bit_128)
  then have "o1 \<noteq> []" by auto
  have "bit v 127 \<longleftrightarrow> bit (last bs) 7" by (simp add: v_def bit_le128 bs last_conv_nth)
  also have "\<dots> \<longleftrightarrow> (ucast (snd (ls_bytes 0 bs)) :: u32) \<noteq> 0"
    unfolding snd_ls_bytes [OF bs(3)] drop_bit_7 by simp
  finally have c: "bit v 127 \<longleftrightarrow> (ucast (snd (ls_bytes 0 bs)) :: u32) \<noteq> 0" .
  have r: "rev (se_ls_1bit buf) = (if bit v 127 then o1[0 := o1 ! 0 XOR 0x87] else o1)"
    unfolding se_ls_1bit_def ls_1bit_foldr bs_def [symmetric] o1_def [symmetric] Let_def prod.case c
    using rev_update_15 [OF o1(2)] by (simp add: rev_nth o1(2))
  then have "length (rev (se_ls_1bit buf)) = 16" using o1(2) by (simp split: if_splits)
  then show "length (se_ls_1bit buf) = 16" by simp
  show "be128 (se_ls_1bit buf) = gf128_double (be128 buf)"
    using r le128_update_0 [of o1 "0x87"] o1 \<open>o1 \<noteq> []\<close> by (auto simp: be128_def gf128_double_def bs_def [symmetric] v_def [symmetric])
qed

text \<open>
  The tweak update of the continuable mode is multiplication by x in the field with 2 to the
  128 elements that XTS is defined over, the buffer read as a little endian integer; the update of the
  other mode is the same multiplication on a big endian buffer.
\<close>

theorem se_ls_1bit_double:
  assumes "length buf = 16"
  shows "le128 (se_ls_1bit_le buf) = gf128_double (le128 buf) \<and> be128 (se_ls_1bit buf) = gf128_double (be128 buf)"
  using se_ls_1bit_le_gf128 [OF assms] se_ls_1bit_gf128(2) [OF assms] by blast

theorem se_ls_1bit_double_witness:
  "length (sector_tweak 0x80) = 16 \<and> le128 (se_ls_1bit_le (sector_tweak 0x80)) = gf128_double (le128 (sector_tweak 0x80)) \<and>
   be128 (se_ls_1bit (sector_tweak 0x80)) = gf128_double (be128 (sector_tweak 0x80))"
  using se_ls_1bit_double [of "sector_tweak 0x80"] by simp

end
