(* ===== verification/Bis.thy ===== *)
theory Bis
  imports Emmc Se
begin

text \<open>
  Encrypted partitions of the eMMC, \<open>bdk/storage/nx_emmc_bis.c\<close>: XTS over clusters of 32 sectors,
  with an optional write back cache of whole clusters. The partition is read and written through
  \<open>emmc_part_read\<close> and \<open>emmc_part_write\<close>, or on the SD card for an emulated eMMC.
\<close>

subsection \<open>State\<close>

definition BIS_CLUSTER_SECTORS :: u32 where "BIS_CLUSTER_SECTORS = 32"
definition BIS_CLUSTER_SIZE :: nat where "BIS_CLUSTER_SIZE = 16384"
definition BIS_CACHE_MAX_ENTRIES :: u32 where "BIS_CACHE_MAX_ENTRIES = 16384"
definition BIS_CACHE_LOOKUP_TBL_EMPTY_ENTRY :: u32 where "BIS_CACHE_LOOKUP_TBL_EMPTY_ENTRY = -1"

record cluster_cache_t =
  cc_cluster_idx :: u32
  cc_dirty :: bool
  cc_data :: "u8 list"

text \<open>
  The cache, the module's variables and the static variables of \<open>nx_emmc_bis_read_block_normal\<close>;
  the devices and the security engine.
\<close>

record ('w, 'e) bis =
  cache_full :: bool
  cache_enabled :: bool
  dirty_cnt :: u32
  top_idx :: u32
  dma_buff :: "u8 list"
  clusters :: "u32 \<Rightarrow> cluster_cache_t"
  ks_crypt :: u8
  ks_tweak :: u8
  emu_offset :: u32
  system_part :: "emmc_part_t option"
  cache_lookup_tbl :: "u32 \<Rightarrow> u32"
  prev_cluster :: u32
  prev_sector :: u32
  saved_tweak :: "u8 list"
  bis_emmc :: "'w emmc_state"
  bis_se :: 'e

record ('w, 'e) bis_env =
  emmc_of :: "'w emmc_env"
  se_of :: "'e se_env"
  sd_storage_read :: "u32 \<Rightarrow> u32 \<Rightarrow> 'w \<Rightarrow> bool \<times> u8 list \<times> 'w"
  sd_storage_write :: "u32 \<Rightarrow> u32 \<Rightarrow> u8 list \<Rightarrow> 'w \<Rightarrow> bool \<times> 'w"

text \<open>\<open>memcpy\<close> into a buffer.\<close>

definition buf_put :: "nat \<Rightarrow> u8 list \<Rightarrow> u8 list \<Rightarrow> u8 list" where
  "buf_put off b buf = take off buf @ b @ drop (off + length b) buf"

definition upd_cluster :: "u32 \<Rightarrow> (cluster_cache_t \<Rightarrow> cluster_cache_t) \<Rightarrow> ('w, 'e) bis \<Rightarrow> ('w, 'e) bis" where
  "upd_cluster i f s = s\<lparr>clusters := (clusters s)(i := f (clusters s i))\<rparr>"

subsection \<open>Sector access\<close>

definition bis_raw_read :: "('w, 'e) bis_env \<Rightarrow> emmc_part_t \<Rightarrow> u32 \<Rightarrow> u32 \<Rightarrow> ('w, 'e) bis \<Rightarrow> bool \<times> ('w, 'e) bis" where
  "bis_raw_read env part sector cnt s =
     (let (res, data, m) = (if emu_offset s = 0 then emmc_part_read (emmc_of env) part sector cnt (bis_emmc s)
            else (let (r, data, d) = sd_storage_read env (emu_offset s + ep_lba_start part + sector) cnt (emmc_dev (bis_emmc s))
                  in (r, data, (bis_emmc s)\<lparr>emmc_dev := d\<rparr>)))
      in (res, s\<lparr>dma_buff := buf_put 0 data (dma_buff s), bis_emmc := m\<rparr>))"

definition bis_raw_write :: "('w, 'e) bis_env \<Rightarrow> emmc_part_t \<Rightarrow> u32 \<Rightarrow> u32 \<Rightarrow> ('w, 'e) bis \<Rightarrow> bool \<times> ('w, 'e) bis" where
  "bis_raw_write env part sector cnt s =
     (let data = take (unat cnt * EMMC_BLOCKSIZE) (dma_buff s);
          (res, m) = (if emu_offset s = 0 then emmc_part_write (emmc_of env) part sector cnt data (bis_emmc s)
            else (let (r, d) = sd_storage_write env (emu_offset s + ep_lba_start part + sector) cnt data (emmc_dev (bis_emmc s))
                  in (r, (bis_emmc s)\<lparr>emmc_dev := d\<rparr>)))
      in (res, s\<lparr>bis_emmc := m\<rparr>))"

text \<open>Encrypting a buffer and writing it; \<open>cached\<close> is the cache entry to mark clean.\<close>

definition bis_encrypt_write ::
  "('w, 'e) bis_env \<Rightarrow> emmc_part_t \<Rightarrow> u32 \<Rightarrow> u32 \<Rightarrow> u32 \<Rightarrow> u32 \<Rightarrow> u8 list \<Rightarrow> u32 option \<Rightarrow> ('w, 'e) bis \<Rightarrow> int \<times> ('w, 'e) bis" where
  "bis_encrypt_write env part cluster sector_in_cluster sector cnt buff cached s =
     (let (err, tw, out, e) = se_aes_crypt_xts_sec_nx (se_of env) (ucast (ks_tweak s)) (ucast (ks_crypt s)) True (ucast cluster) []
            True sector_in_cluster (dma_buff s) (take (unat cnt * EMMC_BLOCKSIZE) buff) (bis_se s);
          s1 = s\<lparr>dma_buff := buf_put 0 out (dma_buff s), bis_se := e\<rparr>
      in if err then (1, s1)
         else let (res, s2) = bis_raw_write env part sector cnt s1
              in if res then (1, s2)
                 else (0, case cached of None \<Rightarrow> s2
                          | Some i \<Rightarrow> (upd_cluster i (\<lambda>c. c\<lparr>cc_dirty := False\<rparr>) s2)\<lparr>dirty_cnt := dirty_cnt s2 - 1\<rparr>))"

definition nx_emmc_bis_write_block :: "('w, 'e) bis_env \<Rightarrow> u32 \<Rightarrow> u32 \<Rightarrow> u8 list option \<Rightarrow> bool \<Rightarrow> ('w, 'e) bis \<Rightarrow> int \<times> ('w, 'e) bis" where
  "nx_emmc_bis_write_block env sector cnt buff flush s =
     (case system_part s of
        None \<Rightarrow> (3, s)
      | Some part \<Rightarrow>
          let cluster = sector div BIS_CLUSTER_SECTORS;
              aligned_sector = cluster * BIS_CLUSTER_SECTORS;
              sector_in_cluster = sector mod BIS_CLUSTER_SECTORS;
              lookup_idx = cache_lookup_tbl s cluster
          in if lookup_idx \<noteq> BIS_CACHE_LOOKUP_TBL_EMPTY_ENTRY
             then let s1 = (case buff of None \<Rightarrow> s
                            | Some b \<Rightarrow> upd_cluster lookup_idx (\<lambda>c. c\<lparr>cc_data :=
                                buf_put (unat sector_in_cluster * EMMC_BLOCKSIZE) (take (unat cnt * EMMC_BLOCKSIZE) b) (cc_data c)\<rparr>) s);
                      src = (case buff of None \<Rightarrow> cc_data (clusters s1 lookup_idx) | Some b \<Rightarrow> b);
                      s2 = (if \<not> cc_dirty (clusters s1 lookup_idx) then s1\<lparr>dirty_cnt := dirty_cnt s1 + 1\<rparr> else s1);
                      s3 = upd_cluster lookup_idx (\<lambda>c. c\<lparr>cc_dirty := True\<rparr>) s2
                  in if \<not> flush then (0, s3)
                     else bis_encrypt_write env part cluster 0 aligned_sector BIS_CLUSTER_SECTORS src (Some lookup_idx) s3
             else bis_encrypt_write env part cluster sector_in_cluster sector cnt (case buff of None \<Rightarrow> [] | Some b \<Rightarrow> b) None s)"

subsection \<open>The cache\<close>

definition nx_emmc_bis_cluster_cache_init :: "bool \<Rightarrow> ('w, 'e) bis \<Rightarrow> ('w, 'e) bis" where
  "nx_emmc_bis_cluster_cache_init enable_cache s =
     (case system_part s of
        None \<Rightarrow> s
      | Some part \<Rightarrow>
          let entries = (ep_lba_end part - ep_lba_start part + 1) div BIS_CLUSTER_SECTORS
          in s\<lparr>cache_full := False, dirty_cnt := 0, top_idx := 0, dma_buff := replicate BIS_CLUSTER_SIZE 0,
               cache_lookup_tbl := (\<lambda>c. if c < entries then BIS_CACHE_LOOKUP_TBL_EMPTY_ENTRY else cache_lookup_tbl s c),
               cache_enabled := enable_cache\<rparr>)"

fun flush_loop :: "('w, 'e) bis_env \<Rightarrow> nat \<Rightarrow> u32 \<Rightarrow> ('w, 'e) bis \<Rightarrow> ('w, 'e) bis" where
  "flush_loop env 0 i s = s"
| "flush_loop env (Suc n) i s =
     (if i < top_idx s \<and> dirty_cnt s \<noteq> 0
      then flush_loop env n (i + 1)
             (if cc_dirty (clusters s i)
              then let (res, s1) = nx_emmc_bis_write_block env (cc_cluster_idx (clusters s i) * BIS_CLUSTER_SECTORS)
                         BIS_CLUSTER_SECTORS None True s
                   in s1\<lparr>dirty_cnt := dirty_cnt s1 - 1\<rparr>
              else s)
      else s)"

definition nx_emmc_bis_flush_cache :: "('w, 'e) bis_env \<Rightarrow> ('w, 'e) bis \<Rightarrow> ('w, 'e) bis" where
  "nx_emmc_bis_flush_cache env s =
     (if \<not> cache_enabled s \<or> dirty_cnt s = 0 then s
      else nx_emmc_bis_cluster_cache_init True (flush_loop env (unat (top_idx s)) 0 s))"

subsection \<open>Reading\<close>

text \<open>Result, the bytes delivered, the state.\<close>

definition nx_emmc_bis_read_block_normal ::
  "('w, 'e) bis_env \<Rightarrow> emmc_part_t \<Rightarrow> u32 \<Rightarrow> u32 \<Rightarrow> ('w, 'e) bis \<Rightarrow> int \<times> u8 list \<times> ('w, 'e) bis" where
  "nx_emmc_bis_read_block_normal env part sector cnt s =
     (let cluster = sector div BIS_CLUSTER_SECTORS;
          sector_in_cluster = sector mod BIS_CLUSTER_SECTORS;
          (res, s1) = bis_raw_read env part sector cnt s
      in if res then (1, [], s1)
         else let (regen_tweak, tweak_exp, pc) =
                    (if prev_cluster s1 \<noteq> cluster then (True, sector_in_cluster, cluster)
                     else if sector > prev_sector s1 then (False, sector - prev_sector s1 - 1, prev_cluster s1)
                     else (True, sector_in_cluster, prev_cluster s1));
                  (err, tw, out, e) = se_aes_crypt_xts_sec_nx (se_of env) (ucast (ks_tweak s1)) (ucast (ks_crypt s1)) False (ucast pc)
                    (saved_tweak s1) regen_tweak tweak_exp [] (take (unat cnt * EMMC_BLOCKSIZE) (dma_buff s1)) (bis_se s1);
                  s2 = s1\<lparr>prev_cluster := pc, saved_tweak := tw, bis_se := e\<rparr>
              in if err then (1, out, s2) else (0, out, s2\<lparr>prev_sector := sector + cnt - 1\<rparr>))"

definition nx_emmc_bis_read_block_cached ::
  "('w, 'e) bis_env \<Rightarrow> emmc_part_t \<Rightarrow> u32 \<Rightarrow> u32 \<Rightarrow> ('w, 'e) bis \<Rightarrow> int \<times> u8 list \<times> ('w, 'e) bis" where
  "nx_emmc_bis_read_block_cached env part sector cnt s =
     (let cluster = sector div BIS_CLUSTER_SECTORS;
          cluster_sector = cluster * BIS_CLUSTER_SECTORS;
          off = unat (sector mod BIS_CLUSTER_SECTORS) * EMMC_BLOCKSIZE;
          len = unat cnt * EMMC_BLOCKSIZE;
          lookup_idx = cache_lookup_tbl s cluster
      in if lookup_idx \<noteq> BIS_CACHE_LOOKUP_TBL_EMPTY_ENTRY then (0, take len (drop off (cc_data (clusters s lookup_idx))), s)
         else let s1 = (if top_idx s \<ge> BIS_CACHE_MAX_ENTRIES then nx_emmc_bis_flush_cache env s else s);
                  s2 = upd_cluster (top_idx s1) (\<lambda>c. c\<lparr>cc_cluster_idx := cluster, cc_dirty := False\<rparr>) s1;
                  s3 = s2\<lparr>cache_lookup_tbl := (cache_lookup_tbl s2)(cluster := top_idx s2)\<rparr>;
                  (res, s4) = bis_raw_read env part cluster_sector BIS_CLUSTER_SECTORS s3
              in if res then (1, [], s4)
                 else let (err, tw, out, e) = se_aes_crypt_xts_sec_nx (se_of env) (ucast (ks_tweak s4)) (ucast (ks_crypt s4)) False
                            (ucast cluster) [] True 0 (dma_buff s4) (take BIS_CLUSTER_SIZE (dma_buff s4)) (bis_se s4);
                          s5 = s4\<lparr>dma_buff := buf_put 0 out (dma_buff s4), bis_se := e\<rparr>
                      in if err then (1, [], s5)
                         else let s6 = upd_cluster (top_idx s5) (\<lambda>c. c\<lparr>cc_data := take BIS_CLUSTER_SIZE (dma_buff s5)\<rparr>) s5
                              in (0, take len (drop off (dma_buff s6)), s6\<lparr>top_idx := top_idx s6 + 1\<rparr>))"

definition nx_emmc_bis_read_block :: "('w, 'e) bis_env \<Rightarrow> u32 \<Rightarrow> u32 \<Rightarrow> ('w, 'e) bis \<Rightarrow> int \<times> u8 list \<times> ('w, 'e) bis" where
  "nx_emmc_bis_read_block env sector cnt s =
     (case system_part s of
        None \<Rightarrow> (3, [], s)
      | Some part \<Rightarrow> if cache_enabled s then nx_emmc_bis_read_block_cached env part sector cnt s
                     else nx_emmc_bis_read_block_normal env part sector cnt s)"

text \<open>Sectors up to the end of the cluster.\<close>

definition bis_chunk :: "u32 \<Rightarrow> u32 \<Rightarrow> u32" where
  "bis_chunk curr_sct cnt = MIN32 cnt (BIS_CLUSTER_SECTORS - curr_sct mod BIS_CLUSTER_SECTORS)"

lemma bis_chunk_bounds: "cnt \<noteq> 0 \<Longrightarrow> bis_chunk sct cnt \<noteq> 0" "bis_chunk sct cnt \<le> cnt"
  "unat (bis_chunk sct cnt) = min (unat cnt) (32 - unat sct mod 32)"
proof -
  have m: "unat (sct mod 32) = unat sct mod 32" by (simp add: unat_mod)
  then have "sct mod 32 \<le> 32" by (simp add: word_le_nat_alt less_imp_le)
  then have u: "unat (32 - sct mod 32) = 32 - unat sct mod 32" by (simp add: unat_minus_no_wrap m)
  show "unat (bis_chunk sct cnt) = min (unat cnt) (32 - unat sct mod 32)"
    by (simp add: bis_chunk_def unat_MIN32 BIS_CLUSTER_SECTORS_def u)
  moreover have "0 < 32 - unat sct mod 32" using mod_less_divisor [of 32 "unat sct"] by linarith
  ultimately show "cnt \<noteq> 0 \<Longrightarrow> bis_chunk sct cnt \<noteq> 0"
    by (metis min_less_iff_conj unat_gt_0)
  show "bis_chunk sct cnt \<le> cnt" by (simp add: bis_chunk_def)
qed

lemma bis_chunk_less: "cnt \<noteq> 0 \<Longrightarrow> unat (cnt - bis_chunk sct cnt) < unat cnt"
  by (intro unat_minus_lt bis_chunk_bounds)

function nx_emmc_bis_read :: "('w, 'e) bis_env \<Rightarrow> u32 \<Rightarrow> u32 \<Rightarrow> ('w, 'e) bis \<Rightarrow> int \<times> u8 list \<times> ('w, 'e) bis" where
  "nx_emmc_bis_read env curr_sct cnt s =
     (if cnt = 0 then (0, [], s)
      else let sct_cnt = bis_chunk curr_sct cnt;
               (res, data, s1) = nx_emmc_bis_read_block env curr_sct sct_cnt s
           in if res \<noteq> 0 then (1, data, s1)
              else let (r, rest, s2) = nx_emmc_bis_read env (curr_sct + sct_cnt) (cnt - sct_cnt) s1 in (r, data @ rest, s2))"
  by pat_completeness auto
termination by (relation "measure (\<lambda>(env, sct, cnt, s). unat cnt)") (auto intro: bis_chunk_less)

function nx_emmc_bis_write :: "('w, 'e) bis_env \<Rightarrow> u32 \<Rightarrow> u32 \<Rightarrow> u8 list \<Rightarrow> ('w, 'e) bis \<Rightarrow> int \<times> ('w, 'e) bis" where
  "nx_emmc_bis_write env curr_sct cnt buf s =
     (if cnt = 0 then (0, s)
      else let sct_cnt = bis_chunk curr_sct cnt;
               (res, s1) = nx_emmc_bis_write_block env curr_sct sct_cnt (Some buf) False s
           in if res \<noteq> 0 then (1, s1)
              else nx_emmc_bis_write env (curr_sct + sct_cnt) (cnt - sct_cnt) (drop (unat sct_cnt * EMMC_BLOCKSIZE) buf) s1)"
  by pat_completeness auto
termination by (relation "measure (\<lambda>(env, sct, cnt, buf, s). unat cnt)") (auto intro: bis_chunk_less)

declare nx_emmc_bis_read.simps [simp del] nx_emmc_bis_write.simps [simp del]

subsection \<open>Start and end\<close>

definition name_is :: "string \<Rightarrow> emmc_part_t \<Rightarrow> bool" where
  "name_is n part \<longleftrightarrow> c_string (ep_name part) = map (\<lambda>c. of_nat (of_char c)) n"

definition nx_emmc_bis_init :: "emmc_part_t \<Rightarrow> bool \<Rightarrow> u32 \<Rightarrow> ('w, 'e) bis \<Rightarrow> ('w, 'e) bis" where
  "nx_emmc_bis_init part enable_cache emummc_offset s =
     (let s1 = nx_emmc_bis_cluster_cache_init enable_cache (s\<lparr>system_part := Some part, emu_offset := emummc_offset\<rparr>)
      in if name_is ''PRODINFO'' part \<or> name_is ''PRODINFOF'' part then s1\<lparr>ks_crypt := 0, ks_tweak := 1\<rparr>
         else if name_is ''SAFE'' part then s1\<lparr>ks_crypt := 2, ks_tweak := 3\<rparr>
         else if name_is ''SYSTEM'' part \<or> name_is ''USER'' part then s1\<lparr>ks_crypt := 4, ks_tweak := 5\<rparr>
         else s1\<lparr>system_part := None\<rparr>)"

definition nx_emmc_bis_end :: "('w, 'e) bis_env \<Rightarrow> ('w, 'e) bis \<Rightarrow> ('w, 'e) bis" where
  "nx_emmc_bis_end env s = (nx_emmc_bis_flush_cache env s)\<lparr>system_part := None\<rparr>"

end
