(* ===== verification/Bis_Sector.thy ===== *)
theory Bis_Sector
  imports Bis
begin

text \<open>
  Sectors of the encrypted partition: what a storage keeps, each sector in the clear, the tweak of a
  sector and its continuation from the last read, and the read without the cache.
\<close>

subsection \<open>The devices\<close>

text \<open>
  A storage that keeps what is written: \<open>content\<close> gives the 512 bytes of every sector. Reads and
  writes inside 32 bit addresses succeed.
\<close>

definition store_ok ::
  "(u32 \<Rightarrow> u32 \<Rightarrow> 'w \<Rightarrow> bool \<times> u8 list \<times> 'w) \<Rightarrow> (u32 \<Rightarrow> u32 \<Rightarrow> u8 list \<Rightarrow> 'w \<Rightarrow> bool \<times> 'w) \<Rightarrow> ('w \<Rightarrow> nat \<Rightarrow> u8 list) \<Rightarrow> bool" where
  "store_ok rd wr content \<longleftrightarrow>
     (\<forall>w k. length (content w k) = 512) \<and>
     (\<forall>a n w. unat a + unat n \<le> 2 ^ 32 \<longrightarrow>
        fst (rd a n w) = False \<and> fst (snd (rd a n w)) = concat (map (content w) [unat a..<unat a + unat n]) \<and>
        content (snd (snd (rd a n w))) = content w) \<and>
     (\<forall>a n data w. unat a + unat n \<le> 2 ^ 32 \<and> length data = 512 * unat n \<longrightarrow>
        fst (wr a n data w) = False \<and>
        content (snd (wr a n data w)) = (\<lambda>k. if unat a \<le> k \<and> k < unat a + unat n then take 512 (drop (512 * (k - unat a)) data) else content w k))"

definition bis_ok :: "('w, 'e) bis_env \<Rightarrow> ('w \<Rightarrow> nat \<Rightarrow> u8 list) \<Rightarrow> (u32 \<Rightarrow> bool \<Rightarrow> u8 list \<Rightarrow> u8 list) \<Rightarrow> bool" where
  "bis_ok env content F \<longleftrightarrow> aes_engine (se_of env) F \<and>
     store_ok (emmc_storage_read (emmc_of env)) (emmc_storage_write (emmc_of env)) content \<and>
     store_ok (sd_storage_read env) (sd_storage_write env) content"

text \<open>The partition: its first sector on the device and its number of sectors, inside 32 bit addresses.\<close>

definition bis_base :: "('w, 'e) bis \<Rightarrow> emmc_part_t \<Rightarrow> nat" where
  "bis_base s part = unat (emu_offset s) + unat (ep_lba_start part)"

definition part_sectors :: "emmc_part_t \<Rightarrow> nat" where
  "part_sectors part = unat (ep_lba_end part) - unat (ep_lba_start part) + 1"

definition part_ok :: "('w, 'e) bis \<Rightarrow> emmc_part_t \<Rightarrow> bool" where
  "part_ok s part \<longleftrightarrow> ep_lba_start part \<le> ep_lba_end part \<and> bis_base s part + part_sectors part < 2 ^ 32"

definition raw_sector :: "('w \<Rightarrow> nat \<Rightarrow> u8 list) \<Rightarrow> ('w, 'e) bis \<Rightarrow> emmc_part_t \<Rightarrow> nat \<Rightarrow> u8 list" where
  "raw_sector content s part n = content (emmc_dev (bis_emmc s)) (bis_base s part + n)"

text \<open>Fields neither the devices nor the transfer buffer touch.\<close>

definition same_bis :: "('w, 'e) bis \<Rightarrow> ('w, 'e) bis \<Rightarrow> bool" where
  "same_bis s t \<longleftrightarrow> t = s\<lparr>dma_buff := dma_buff t, bis_emmc := bis_emmc t, bis_se := bis_se t\<rparr>"

lemma same_bis_fields:
  assumes "same_bis s t"
  shows "cache_enabled t = cache_enabled s" "dirty_cnt t = dirty_cnt s" "top_idx t = top_idx s" "clusters t = clusters s"
    "ks_crypt t = ks_crypt s" "ks_tweak t = ks_tweak s" "emu_offset t = emu_offset s" "system_part t = system_part s"
    "cache_lookup_tbl t = cache_lookup_tbl s" "prev_cluster t = prev_cluster s" "prev_sector t = prev_sector s" "saved_tweak t = saved_tweak s"
  by (subst assms [unfolded same_bis_def], simp)+

lemma length_concat_sectors: "(\<And>k. length (f k) = 512) \<Longrightarrow> length (concat (map f ns)) = 512 * length ns"
  by (induction ns) simp_all

lemma unat_add3:
  "unat a + unat b + unat c < 2 ^ 32 \<Longrightarrow> unat (a + b + c) = unat a + unat b + unat c" for a b c :: u32
  using unat_plus_no_wrap [of a b] unat_plus_no_wrap [of "a + b" c] by simp

lemma part_sector_address:
  assumes "part_ok s part" "unat sector < part_sectors part"
  shows "unat (ep_lba_start part + sector) = unat (ep_lba_start part) + unat sector" "\<not> ep_lba_start part + sector > ep_lba_end part"
    "unat (emu_offset s + ep_lba_start part + sector) = bis_base s part + unat sector"
proof -
  have b: "unat (emu_offset s) + unat (ep_lba_start part) + unat sector < 2 ^ 32" "unat (ep_lba_start part) + unat sector \<le> unat (ep_lba_end part)"
    using assms by (auto simp: part_ok_def bis_base_def part_sectors_def word_le_nat_alt)
  show a: "unat (ep_lba_start part + sector) = unat (ep_lba_start part) + unat sector"
    by (rule unat_plus_no_wrap) (use b in simp)
  show "\<not> ep_lba_start part + sector > ep_lba_end part" unfolding word_less_nat_alt a using b(2) by simp
  show "unat (emu_offset s + ep_lba_start part + sector) = bis_base s part + unat sector"
    using unat_add3 [of "emu_offset s" "ep_lba_start part" sector] b(1) by (simp add: bis_base_def)
qed

lemma bis_raw_read_ok:
  assumes "bis_ok env content F" "part_ok s part" "unat sector + unat cnt \<le> part_sectors part" "cnt \<noteq> 0" "length (dma_buff s) = 16384" "unat cnt \<le> 32"
  obtains s' where "bis_raw_read env part sector cnt s = (False, s')" "same_bis s s'" "bis_se s' = bis_se s"
    "take (unat cnt * 512) (dma_buff s') = concat (map (raw_sector content s part) [unat sector..<unat sector + unat cnt])"
    "raw_sector content s' part = raw_sector content s part" "length (dma_buff s') = 16384"
    "content (emmc_dev (bis_emmc s')) = content (emmc_dev (bis_emmc s))"
proof -
  define w where "w = emmc_dev (bis_emmc s)"
  define a where "a = (if emu_offset s = 0 then ep_lba_start part + sector else emu_offset s + ep_lba_start part + sector)"
  define rd where "rd = (if emu_offset s = 0 then emmc_storage_read (emmc_of env) else sd_storage_read env)"
  obtain wr where so: "store_ok rd wr content" using assms(1) unfolding bis_ok_def rd_def by (cases "emu_offset s = 0") auto
  have sec: "unat sector < part_sectors part" using assms(3,4) unat_gt_0 [of cnt] by linarith
  note adr = part_sector_address [OF assms(2) sec]
  have ua: "unat a = bis_base s part + unat sector" using adr by (simp add: a_def bis_base_def)
  then have "unat a + unat cnt \<le> 2 ^ 32" using assms(2,3) by (simp add: part_ok_def)
  then have r: "fst (rd a cnt w) = False" "fst (snd (rd a cnt w)) = concat (map (content w) [unat a..<unat a + unat cnt])"
    "content (snd (snd (rd a cnt w))) = content w" and lc: "\<And>k. length (content w k) = 512"
    using so unfolding store_ok_def by blast+
  define data where "data = fst (snd (rd a cnt w))"
  define m where "m = (bis_emmc s)\<lparr>emmc_dev := snd (snd (rd a cnt w))\<rparr>"
  define s' where "s' = s\<lparr>dma_buff := buf_put 0 data (dma_buff s), bis_emmc := m\<rparr>"
  have e: "bis_raw_read env part sector cnt s = (False, s')"
    using r(1) adr(2) unfolding bis_raw_read_def emmc_part_read_def s'_def m_def data_def w_def a_def rd_def
    by (cases "emu_offset s = 0") (simp_all add: split_def Let_def)
  have "map (content w) [unat a..<unat a + unat cnt] = map (raw_sector content s part) [unat sector..<unat sector + unat cnt]"
    unfolding ua by (rule nth_equalityI) (simp_all add: raw_sector_def w_def add.assoc)
  then have d: "data = concat (map (raw_sector content s part) [unat sector..<unat sector + unat cnt])" by (simp add: data_def r(2))
  have ld: "length data = unat cnt * 512" unfolding d by (subst length_concat_sectors) (simp_all add: raw_sector_def lc flip: w_def)
  show ?thesis
    by (rule that [OF e]) (use r(3) ld assms(5,6) in \<open>simp_all add: s'_def same_bis_def m_def buf_put_def d raw_sector_def bis_base_def w_def fun_eq_iff\<close>)
qed

subsection \<open>Sectors in the clear\<close>

definition sector_tweak_at :: "(u32 \<Rightarrow> bool \<Rightarrow> u8 list \<Rightarrow> u8 list) \<Rightarrow> u8 \<Rightarrow> nat \<Rightarrow> u8 list" where
  "sector_tweak_at F tk n = (se_ls_1bit_le ^^ (32 * (n mod 32))) (start_tweak F (ucast tk) (of_nat (n div 32)))"

definition crypt_sector :: "(u32 \<Rightarrow> bool \<Rightarrow> u8 list \<Rightarrow> u8 list) \<Rightarrow> u8 \<Rightarrow> u8 \<Rightarrow> bool \<Rightarrow> nat \<Rightarrow> u8 list \<Rightarrow> u8 list" where
  "crypt_sector F tk ck enc n data = xts se_ls_1bit_le (F (ucast ck) enc) (sector_tweak_at F tk n) (blocks16 data)"

text \<open>What the partition holds, decrypted sector by sector.\<close>

definition plain_sector ::
  "('w \<Rightarrow> nat \<Rightarrow> u8 list) \<Rightarrow> (u32 \<Rightarrow> bool \<Rightarrow> u8 list \<Rightarrow> u8 list) \<Rightarrow> ('w, 'e) bis \<Rightarrow> emmc_part_t \<Rightarrow> nat \<Rightarrow> u8 list" where
  "plain_sector content F s part n = crypt_sector F (ks_tweak s) (ks_crypt s) False n (raw_sector content s part n)"

lemma blocks16_append_mult: "length a mod 16 = 0 \<Longrightarrow> blocks16 (a @ b) = blocks16 a @ blocks16 b"
proof (induction a rule: blocks16.induct)
  case (1 a)
  show ?case
  proof (cases "length a < 16")
    case True
    then have "a = []" using "1.prems" by simp
    then show ?thesis by (simp add: blocks16.simps [of "[]"])
  next
    case False
    then have "length (drop 16 a) mod 16 = 0" using "1.prems" by (simp add: le_mod_geq)
    then show ?thesis using 1(1) False by (subst (1 2) blocks16.simps) simp
  qed
qed

lemma sector_tweak_at_step: "n mod 32 < 31 \<Longrightarrow> sector_tweak_at F tk (Suc n) = (se_ls_1bit_le ^^ 32) (sector_tweak_at F tk n)"
proof -
  assume "n mod 32 < 31"
  then have "Suc n mod 32 = Suc (n mod 32)" "Suc n div 32 = n div 32" by (simp_all add: mod_Suc div_Suc)
  moreover have "32 * Suc (n mod 32) = 32 + 32 * (n mod 32)" by simp
  ultimately show ?thesis by (simp only: sector_tweak_at_def funpow_add comp_apply)
qed

lemma xts_sectors:
  assumes "\<And>k. length (f k) = 512" "n mod 32 + c \<le> 32"
  shows "xts se_ls_1bit_le (F (ucast ck) enc) (sector_tweak_at F tk n) (blocks16 (concat (map f [n..<n + c]))) =
    concat (map (\<lambda>k. crypt_sector F tk ck enc k (f k)) [n..<n + c])"
  using assms(2)
proof (induction c arbitrary: n)
  case 0
  then show ?case by (simp add: blocks16.simps)
next
  case (Suc c)
  have up: "[n..<n + Suc c] = n # [Suc n..<Suc n + c]" by (simp add: upt_conv_Cons del: upt_Suc)
  have b: "blocks16 (concat (map f [n..<n + Suc c])) = blocks16 (f n) @ blocks16 (concat (map f [Suc n..<Suc n + c]))"
    unfolding up by (simp add: blocks16_append_mult assms(1) del: upt_Suc)
  have l: "length (blocks16 (f n)) = 32" by (simp add: blocks16_length assms(1))
  show ?case
  proof (cases "c = 0")
    case True
    then show ?thesis by (simp add: crypt_sector_def)
  next
    case False
    then have m: "n mod 32 < 31" using Suc.prems by simp
    then have "Suc n mod 32 + c \<le> 32" using Suc.prems by (simp add: mod_Suc)
    note IH = Suc.IH [OF this]
    show ?thesis unfolding b xts_append l sector_tweak_at_step [OF m, symmetric] IH unfolding up by (simp add: crypt_sector_def del: upt_Suc)
  qed
qed

subsection \<open>Continuing the tweak\<close>

text \<open>
  The invariant of the saved tweak: nothing has been read yet, or the saved tweak is the one of the
  sector after the last one read, computed from that sector's cluster.
\<close>

definition tweak_inv :: "(u32 \<Rightarrow> bool \<Rightarrow> u8 list \<Rightarrow> u8 list) \<Rightarrow> ('w, 'e) bis \<Rightarrow> bool" where
  "tweak_inv F s \<longleftrightarrow> prev_cluster s = -1 \<or>
     (prev_cluster s = prev_sector s div 32 \<and>
      saved_tweak s = (se_ls_1bit_le ^^ (32 * (unat (prev_sector s) mod 32 + 1))) (start_tweak F (ucast (ks_tweak s)) (ucast (prev_cluster s))))"

lemma ucast_cluster: "ucast (sector div 32 :: u32) = (of_nat (unat sector div 32) :: u64)"
proof -
  have "unat (sector div 32) = unat sector div 32" by (simp add: unat_div)
  moreover have "(ucast x :: u64) = of_nat (unat x)" for x :: u32 by simp
  ultimately show ?thesis by metis
qed

lemma unat_push_bit_5: "unat x < 2 ^ 27 \<Longrightarrow> unat (push_bit 5 x) = 32 * unat x" for x :: u32
  by (simp add: push_bit_eq_mult unat_word_ariths)

lemma normal_tweak:
  fixes sector :: u32
  assumes "tweak_inv F s"
  defines "p \<equiv> (if prev_cluster s \<noteq> sector div 32 then (True, sector mod 32, sector div 32)
             else if sector > prev_sector s then (False, sector - prev_sector s - 1, prev_cluster s)
             else (True, sector mod 32, prev_cluster s))"
  shows "snd (snd p) = sector div 32"
    and "(se_ls_1bit_le ^^ unat (push_bit 5 (fst (snd p)))) (if fst p then start_tweak F (ucast (ks_tweak s)) (ucast (snd (snd p))) else saved_tweak s) =
      sector_tweak_at F (ks_tweak s) (unat sector)"
    and "aes_engine env F \<Longrightarrow> fst p \<or> length (saved_tweak s) = 16"
proof -
  show p3: "snd (snd p) = sector div 32" by (simp add: p_def)
  have m: "unat (sector mod 32) = unat sector mod 32" by (simp add: unat_mod)
  then have u: "unat (push_bit 5 (sector mod 32)) = 32 * (unat sector mod 32)" by (subst unat_push_bit_5) (simp_all add: less_trans [of _ 32])
  have nm: "sector div 32 \<noteq> -1"
  proof
    assume "sector div 32 = -1"
    then have "unat sector div 32 = unat (-1 :: u32)" using unat_div [of sector 32] by simp
    moreover have "unat (-1 :: u32) = 4294967295" by (simp add: unsigned_minus_1_eq_mask mask_eq_exp_minus_1)
    ultimately show False using unat_less_pow [of sector] by linarith
  qed
  {
    assume np: "\<not> fst p"
    then have c: "prev_cluster s = sector div 32" "sector > prev_sector s" and ex: "fst (snd p) = sector - prev_sector s - 1"
      by (auto simp: p_def split: if_splits)
    then have inv: "sector div 32 = prev_sector s div 32"
      "saved_tweak s = (se_ls_1bit_le ^^ (32 * (unat (prev_sector s) mod 32 + 1))) (start_tweak F (ucast (ks_tweak s)) (ucast (sector div 32)))"
      using assms nm by (auto simp: tweak_inv_def)
    have dv: "unat sector div 32 = unat (prev_sector s) div 32" using arg_cong [OF inv(1), of unat] by (simp add: unat_div)
    have lt: "unat (prev_sector s) < unat sector" using c(2) by (simp add: word_less_nat_alt)
    have "unat (sector - prev_sector s) = unat sector - unat (prev_sector s)" using c(2) by (simp add: unat_minus_no_wrap)
    then have "unat (sector - prev_sector s - 1) = unat sector - unat (prev_sector s) - 1"
      using lt by (subst unat_minus_no_wrap) (simp_all add: word_le_nat_alt)
    moreover have "unat sector - unat (prev_sector s) = unat sector mod 32 - unat (prev_sector s) mod 32"
      "unat (prev_sector s) mod 32 < unat sector mod 32"
      using dv lt div_mult_mod_eq [of "unat sector" 32] div_mult_mod_eq [of "unat (prev_sector s)" 32] by linarith+
    ultimately have e: "unat (push_bit 5 (fst (snd p))) = 32 * (unat sector mod 32 - unat (prev_sector s) mod 32 - 1)"
      unfolding ex by (subst unat_push_bit_5) (simp_all add: less_imp_diff_less less_trans [OF mod_less_divisor])
    have sum: "32 * (unat sector mod 32 - unat (prev_sector s) mod 32 - 1) + 32 * (unat (prev_sector s) mod 32 + 1) = 32 * (unat sector mod 32)"
      using \<open>unat (prev_sector s) mod 32 < unat sector mod 32\<close> by simp
    have fp: "(f ^^ i) ((f ^^ j) x) = (f ^^ (i + j)) x" for f :: "u8 list \<Rightarrow> u8 list" and i j x by (simp only: funpow_add comp_apply)
    have "(se_ls_1bit_le ^^ unat (push_bit 5 (fst (snd p)))) (saved_tweak s) = sector_tweak_at F (ks_tweak s) (unat sector)"
      unfolding e inv(2) fp sum by (simp only: sector_tweak_at_def ucast_cluster)
  } note cont = this
  show "(se_ls_1bit_le ^^ unat (push_bit 5 (fst (snd p)))) (if fst p then start_tweak F (ucast (ks_tweak s)) (ucast (snd (snd p))) else saved_tweak s) =
      sector_tweak_at F (ks_tweak s) (unat sector)"
  proof (cases "fst p")
    case True
    then have "fst (snd p) = sector mod 32" by (auto simp: p_def split: if_splits)
    then show ?thesis using True p3 u by (simp add: sector_tweak_at_def ucast_cluster)
  qed (simp add: cont)
  show "aes_engine env F \<Longrightarrow> fst p \<or> length (saved_tweak s) = 16"
    using assms(1) nm by (auto simp: p_def tweak_inv_def length_ls_funpow length_start_tweak split: if_splits)
qed

subsection \<open>Reading without the cache\<close>

text \<open>A state in which the partition can be read without the cache.\<close>

definition normal_inv :: "(u32 \<Rightarrow> bool \<Rightarrow> u8 list \<Rightarrow> u8 list) \<Rightarrow> emmc_part_t \<Rightarrow> ('w, 'e) bis \<Rightarrow> bool" where
  "normal_inv F part s \<longleftrightarrow> system_part s = Some part \<and> part_ok s part \<and> \<not> cache_enabled s \<and> length (dma_buff s) = 16384 \<and> tweak_inv F s"

lemma unat_u32_32: "unat (32 :: u32) = 32" by simp

lemma store_ok_length: "bis_ok env content F \<Longrightarrow> length (content w k) = 512"
  by (simp add: bis_ok_def store_ok_def)

lemma bis_ok_aes: "bis_ok env content F \<Longrightarrow> aes_engine (se_of env) F"
  by (simp add: bis_ok_def)

lemma read_block_normal_ok:
  assumes ok: "bis_ok env content F" and inv: "normal_inv F part s"
    and rng: "unat sector + unat cnt \<le> part_sectors part" "cnt \<noteq> 0" "unat sector mod 32 + unat cnt \<le> 32"
  obtains s' where "nx_emmc_bis_read_block_normal env part sector cnt s =
      (0, concat (map (plain_sector content F s part) [unat sector..<unat sector + unat cnt]), s')"
    "normal_inv F part s'" "plain_sector content F s' part = plain_sector content F s part"
    "content (emmc_dev (bis_emmc s')) = content (emmc_dev (bis_emmc s))" "cache_lookup_tbl s' = cache_lookup_tbl s" "top_idx s' = top_idx s"
proof -
  have c32: "unat cnt \<le> 32" "unat sector mod 32 + unat cnt \<le> 32" using rng by auto
  from inv have po: "part_ok s part" and len: "length (dma_buff s) = 16384" by (simp_all add: normal_inv_def)
  obtain s1 where s1: "bis_raw_read env part sector cnt s = (False, s1)" "same_bis s s1" "bis_se s1 = bis_se s"
    "take (unat cnt * 512) (dma_buff s1) = concat (map (raw_sector content s part) [unat sector..<unat sector + unat cnt])"
    "raw_sector content s1 part = raw_sector content s part" "length (dma_buff s1) = 16384"
    "content (emmc_dev (bis_emmc s1)) = content (emmc_dev (bis_emmc s))"
    by (rule bis_raw_read_ok [OF ok po rng(1,2) len c32(1)])
  note sf = same_bis_fields [OF s1(2)]
  define src where "src = take (unat cnt * 512) (dma_buff s1)"
  have lsrc: "length src = unat cnt * 512" using s1(6) c32 by (simp add: src_def)
  have "0 < unat cnt" using rng(2) by (simp add: unat_gt_0)
  then have src: "src \<noteq> []" "length src mod 16 = 0" "length src \<le> SE_LL_MAX_SIZE" "length src div 16 = 32 * unat cnt"
    using lsrc c32 by (auto simp: SE_LL_MAX_SIZE_def simp flip: length_0_conv)
  have tinv: "tweak_inv F s1" using inv by (simp add: normal_inv_def tweak_inv_def sf)
  define p where "p = (if prev_cluster s1 \<noteq> sector div 32 then (True, sector mod 32, sector div 32)
             else if sector > prev_sector s1 then (False, sector - prev_sector s1 - 1, prev_cluster s1)
             else (True, sector mod 32, prev_cluster s1))"
  note nt = normal_tweak [OF tinv, where sector = sector, folded p_def]
  define t where "t = sector_tweak_at F (ks_tweak s) (unat sector)"
  have tt: "(se_ls_1bit_le ^^ unat (push_bit 5 (fst (snd p)))) (if fst p then start_tweak F (ucast (ks_tweak s)) (ucast (sector div 32)) else saved_tweak s1) = t"
    unfolding t_def by (rule nt(2) [unfolded nt(1) sf(6)])
  note xe = se_aes_crypt_xts_sec_nx_eq [OF bis_ok_aes [OF ok] src(1-3) nt(3) [OF bis_ok_aes [OF ok]], where tk = "ucast (ks_tweak s)" and sec = "ucast (sector div 32)" and ck = "ucast (ks_crypt s)"
    and enc = False and ex = "fst (snd p)" and dst = "[]" and e = "bis_se s1", unfolded tt src(4)]
  obtain e' where x: "se_aes_crypt_xts_sec_nx (se_of env) (ucast (ks_tweak s)) (ucast (ks_crypt s)) False (ucast (sector div 32)) (saved_tweak s1) (fst p) (fst (snd p)) [] src (bis_se s1) =
      (False, (se_ls_1bit_le ^^ (32 * unat cnt)) t, xts se_ls_1bit_le (F (ucast (ks_crypt s)) False) t (blocks16 src), e')"
    using xe by (elim exE)
  have out: "xts se_ls_1bit_le (F (ucast (ks_crypt s)) False) t (blocks16 src) = concat (map (plain_sector content F s part) [unat sector..<unat sector + unat cnt])"
    unfolding src_def s1(4) t_def
    by (subst xts_sectors [OF _ c32(2)]) (simp_all add: raw_sector_def store_ok_length [OF ok] plain_sector_def [abs_def])
  define s' where "s' = s1\<lparr>prev_cluster := sector div 32, saved_tweak := (se_ls_1bit_le ^^ (32 * unat cnt)) t, bis_se := e', prev_sector := sector + cnt - 1\<rparr>"
  have r: "nx_emmc_bis_read_block_normal env part sector cnt s = (0, concat (map (plain_sector content F s part) [unat sector..<unat sector + unat cnt]), s')"
    unfolding nx_emmc_bis_read_block_normal_def s1(1) BIS_CLUSTER_SECTORS_def EMMC_BLOCKSIZE_def Let_def prod.case p_def [symmetric]
    using x out nt(1) by (simp add: split_def s'_def sf flip: src_def)
  show ?thesis
  proof (rule that [OF r])
    have ps: "unat (sector + cnt - 1) = unat sector + unat cnt - 1"
    proof -
      have "unat sector + unat cnt < 2 ^ 32" using po rng(1) by (simp add: part_ok_def)
      then have "unat (sector + cnt) = unat sector + unat cnt" by (intro unat_plus_no_wrap) simp
      moreover from this have "1 \<le> sector + cnt" using \<open>0 < unat cnt\<close> by (simp add: word_le_nat_alt)
      ultimately show ?thesis by (simp add: unat_minus_no_wrap)
    qed
    have md: "(unat sector + unat cnt - 1) mod 32 + 1 = unat sector mod 32 + unat cnt" "(unat sector + unat cnt - 1) div 32 = unat sector div 32"
    proof -
      have "unat sector + unat cnt - 1 = unat sector div 32 * 32 + (unat sector mod 32 + unat cnt - 1)"
        using \<open>0 < unat cnt\<close> by simp
      moreover have "unat sector mod 32 + unat cnt - 1 < 32" "0 < unat cnt" using c32(2) \<open>0 < unat cnt\<close> by linarith+
      ultimately show "(unat sector + unat cnt - 1) mod 32 + 1 = unat sector mod 32 + unat cnt" "(unat sector + unat cnt - 1) div 32 = unat sector div 32"
        by (simp_all only: mod_mult_self3 div_mult_self3 mod_less div_less zero_neq_numeral not_False_eq_True add_0_right)
    qed
    have pc: "sector div 32 = (sector + cnt - 1) div 32"
      using md(2) by (intro word_unat_eq_iff [THEN iffD2]) (simp only: unat_div ps unat_u32_32)
    have fp: "(f ^^ i) ((f ^^ j) x) = (f ^^ (i + j)) x" for f :: "u8 list \<Rightarrow> u8 list" and i j x by (simp only: funpow_add comp_apply)
    have "(se_ls_1bit_le ^^ (32 * unat cnt)) t = (se_ls_1bit_le ^^ (32 * (unat (sector + cnt - 1) mod 32 + 1))) (start_tweak F (ucast (ks_tweak s)) (ucast (sector div 32)))"
      unfolding t_def sector_tweak_at_def fp ps md(1) ucast_cluster by (simp only: distrib_left add.commute)
    then have "tweak_inv F s'" unfolding tweak_inv_def s'_def using pc by (simp add: sf)
    then show "normal_inv F part s'"
      using inv s1(6) by (simp add: normal_inv_def s'_def sf part_ok_def bis_base_def)
    show "plain_sector content F s' part = plain_sector content F s part"
      using s1(5) by (simp add: plain_sector_def s'_def sf raw_sector_def bis_base_def fun_eq_iff)
    show "content (emmc_dev (bis_emmc s')) = content (emmc_dev (bis_emmc s))" using s1(7) by (simp add: s'_def)
    show "cache_lookup_tbl s' = cache_lookup_tbl s" "top_idx s' = top_idx s" by (simp_all add: s'_def sf)
  qed
qed


lemma bis_chunk_step:
  assumes "unat sct + unat cnt < 2 ^ 32" "cnt \<noteq> 0"
  defines "c \<equiv> bis_chunk sct cnt"
  shows "unat (sct + c) = unat sct + unat c" "unat (cnt - c) = unat cnt - unat c" "0 < unat c" "unat c \<le> unat cnt"
    "unat sct mod 32 + unat c \<le> 32" "c \<noteq> 0"
proof -
  note b = bis_chunk_bounds [where cnt = cnt and sct = sct, folded c_def]
  show "c \<noteq> 0" using b assms(2) by blast
  then show "0 < unat c" by (simp add: unat_gt_0)
  show le: "unat c \<le> unat cnt" using b(2) by (simp add: word_le_nat_alt)
  show "unat (sct + c) = unat sct + unat c" by (rule unat_plus_no_wrap) (use le assms(1) in simp)
  show "unat (cnt - c) = unat cnt - unat c" using b(2) by (rule unat_minus_no_wrap)
  show "unat sct mod 32 + unat c \<le> 32" using b(3) mod_less_divisor [of 32 "unat sct"] by linarith
qed

end
