(* ===== verification/Bis_View.thy ===== *)
theory Bis_View
  imports Bis_Sector
begin

text \<open>
  The partition as its user sees it, through the cache: reads return this view, writes update it, by
  block and by whole transfer.
\<close>

subsection \<open>Sectors inside a buffer\<close>

definition nth_sct :: "u8 list \<Rightarrow> nat \<Rightarrow> u8 list" where
  "nth_sct data k = take 512 (drop (512 * k) data)"

lemma nth_sct_length: "512 * (k + 1) \<le> length data \<Longrightarrow> length (nth_sct data k) = 512"
  by (simp add: nth_sct_def)

lemma nth_sct_concat: "(\<And>k. length (f k) = 512) \<Longrightarrow> i < length ns \<Longrightarrow> nth_sct (concat (map f ns)) i = f (ns ! i)"
proof (induction ns arbitrary: i)
  case (Cons n ns)
  then show ?case by (cases i) (simp_all add: nth_sct_def)
qed simp

lemma concat_scts: "512 * (k + n) \<le> length data \<Longrightarrow> concat (map (nth_sct data) [k..<k + n]) = take (512 * n) (drop (512 * k) data)"
proof (induction n)
  case (Suc n)
  then have "concat (map (nth_sct data) [k..<k + n]) = take (512 * n) (drop (512 * k) data)" by simp
  moreover have "take (512 * Suc n) (drop (512 * k) data) = take (512 * n) (drop (512 * k) data) @ take 512 (drop (512 * n + 512 * k) data)"
    using take_add [of "512 * n" 512 "drop (512 * k) data"] by (simp add: add.commute)
  moreover have "nth_sct data (k + n) = take 512 (drop (512 * n + 512 * k) data)" by (simp add: nth_sct_def algebra_simps)
  ultimately show ?case by simp
qed simp

lemma nth_sct_put:
  assumes "off + length b \<le> length d" "off = 512 * i" "length b = 512 * m"
  shows "nth_sct (buf_put off b d) k = (if i \<le> k \<and> k < i + m then nth_sct b (k - i) else nth_sct d k)"
proof -
  consider "k < i" | "i \<le> k" "k < i + m" | "i + m \<le> k" by linarith
  then show ?thesis
  proof cases
    case 1
    then have "512 \<le> 512 * i - 512 * k" by simp
    then have "take 512 (drop (512 * k) (take (512 * i) d)) = take 512 (drop (512 * k) d)"
      by (simp add: drop_take min_absorb1)
    moreover have "drop (512 * k) (buf_put off b d) = drop (512 * k) (take (512 * i) d) @ b @ drop (off + length b) d"
      using 1 assms by (simp add: buf_put_def)
    ultimately show ?thesis using 1 assms \<open>512 \<le> 512 * i - 512 * k\<close> by (simp add: nth_sct_def)
  next
    case 2
    have e: "512 * k - 512 * i = 512 * (k - i)" by (simp add: diff_mult_distrib2)
    have "512 * (k - i) + 512 \<le> length b" using 2 assms(3) by simp
    moreover have "drop (512 * k) (buf_put off b d) = drop (512 * (k - i)) (b @ drop (off + length b) d)"
      unfolding buf_put_def using 2 assms by (subst drop_append) (simp add: e)
    ultimately show ?thesis using 2 by (simp add: nth_sct_def)
  next
    case 3
    then have "512 * k = 512 * i + 512 * m + 512 * (k - i - m)" by simp
    then obtain r where r: "512 * k = off + length b + r" using assms(2,3) by simp
    have "take off d @ b = take (off + length b) (buf_put off b d)" "length (take off d @ b) = off + length b"
      using assms(1) by (simp_all add: buf_put_def)
    then have "drop (512 * k) (buf_put off b d) = drop (512 * k) d"
      unfolding r buf_put_def append_assoc [symmetric] using assms(1) by (subst drop_append) (simp add: add.commute)
    then show ?thesis using 3 by (simp add: nth_sct_def)
  qed
qed

lemma length_buf_put: "off + length b \<le> length d \<Longrightarrow> length (buf_put off b d) = length d"
  by (simp add: buf_put_def)

subsection \<open>The cache and what it holds\<close>

definition cached :: "('w, 'e) bis \<Rightarrow> nat \<Rightarrow> bool" where
  "cached s c \<longleftrightarrow> cache_lookup_tbl s (of_nat c) \<noteq> BIS_CACHE_LOOKUP_TBL_EMPTY_ENTRY"

definition entry :: "('w, 'e) bis \<Rightarrow> nat \<Rightarrow> cluster_cache_t" where
  "entry s c = clusters s (cache_lookup_tbl s (of_nat c))"

definition entry_ok :: "('w, 'e) bis \<Rightarrow> nat \<Rightarrow> bool" where
  "entry_ok s c \<longleftrightarrow> cached s c \<longrightarrow> cache_enabled s \<and> cache_lookup_tbl s (of_nat c) < top_idx s \<and>
     cc_cluster_idx (entry s c) = of_nat c \<and> length (cc_data (entry s c)) = 16384"

text \<open>
  The partition has whole clusters; every cached cluster has its own entry below \<open>top_idx\<close>; with the
  cache off nothing is cached.
\<close>

definition bis_inv :: "(u32 \<Rightarrow> bool \<Rightarrow> u8 list \<Rightarrow> u8 list) \<Rightarrow> emmc_part_t \<Rightarrow> ('w, 'e) bis \<Rightarrow> bool" where
  "bis_inv F part s \<longleftrightarrow> system_part s = Some part \<and> part_ok s part \<and> part_sectors part mod 32 = 0 \<and> length (dma_buff s) = 16384 \<and>
     tweak_inv F s \<and> unat (top_idx s) \<le> 16384 \<and> (\<forall>c < part_sectors part div 32. entry_ok s c)"

text \<open>The partition as its user sees it: cached clusters, else the decrypted device.\<close>

definition view :: "('w \<Rightarrow> nat \<Rightarrow> u8 list) \<Rightarrow> (u32 \<Rightarrow> bool \<Rightarrow> u8 list \<Rightarrow> u8 list) \<Rightarrow> ('w, 'e) bis \<Rightarrow> emmc_part_t \<Rightarrow> nat \<Rightarrow> u8 list" where
  "view content F s part n =
     (if cached s (n div 32) then nth_sct (cc_data (entry s (n div 32))) (n mod 32) else plain_sector content F s part n)"

lemma of_nat_cluster: "of_nat (unat sector div 32) = sector div 32" for sector :: u32
proof -
  have "of_nat (unat (sector div 32)) = sector div 32" by simp
  then show ?thesis by (simp add: unat_div)
qed

lemma of_nat_u32_eq: "(of_nat a :: u32) = of_nat b \<longleftrightarrow> a = b" if "a < 2 ^ 32" "b < 2 ^ 32"
proof
  assume "(of_nat a :: u32) = of_nat b"
  then have "unat (of_nat a :: u32) = unat (of_nat b :: u32)" by simp
  then show "a = b" using that by (simp add: unat_of_nat_u32)
qed simp

text \<open>A chunk of sectors inside one cluster.\<close>

lemma chunk_sectors:
  fixes n c k :: nat
  assumes "n mod 32 + c \<le> 32" "k \<in> {n..<n + c}"
  shows "k div 32 = n div 32" "k mod 32 = n mod 32 + (k - n)"
proof -
  have k: "k = n div 32 * 32 + (n mod 32 + (k - n))" "n mod 32 + (k - n) < 32" using assms by auto
  from k(2) have "(n div 32 * 32 + (n mod 32 + (k - n))) div 32 = n div 32" "(n div 32 * 32 + (n mod 32 + (k - n))) mod 32 = n mod 32 + (k - n)"
    by (simp_all only: mod_mult_self3 div_mult_self3 mod_less div_less zero_neq_numeral not_False_eq_True add_0_right)
  then show "k div 32 = n div 32" "k mod 32 = n mod 32 + (k - n)" unfolding k(1) [symmetric] .
qed

lemma chunk_of_cluster:
  assumes "length data = 16384" "n mod 32 + c \<le> 32"
  shows "take (512 * c) (drop (512 * (n mod 32)) data) = concat (map (\<lambda>k. nth_sct data (k mod 32)) [n..<n + c])"
proof -
  have "(n + i) mod 32 = n mod 32 + i" if "i < c" for i using chunk_sectors(2) [OF assms(2), of "n + i"] that by simp
  then have "map (\<lambda>k. nth_sct data (k mod 32)) [n..<n + c] = map (nth_sct data) [n mod 32..<n mod 32 + c]"
    by (intro nth_equalityI) simp_all
  then show ?thesis using concat_scts [of "n mod 32" c data] assms by simp
qed

lemma cluster_in_part:
  assumes "bis_inv F part s" "unat sector < part_sectors part"
  shows "unat sector div 32 < part_sectors part div 32" "unat sector div 32 * 32 + 32 \<le> part_sectors part"
    "part_sectors part < 2 ^ 32"
proof -
  have m: "part_sectors part = part_sectors part div 32 * 32" using assms(1) by (simp add: bis_inv_def mult.commute mod_0_imp_dvd)
  have "unat sector div 32 * 32 \<le> unat sector" by simp
  then have "unat sector div 32 * 32 < part_sectors part div 32 * 32" using assms(2) m by linarith
  then show c: "unat sector div 32 < part_sectors part div 32" by simp
  then have "(unat sector div 32 + 1) * 32 \<le> part_sectors part div 32 * 32" by (intro mult_le_mono1) simp
  then show "unat sector div 32 * 32 + 32 \<le> part_sectors part" using m by simp
  show "part_sectors part < 2 ^ 32" using assms(1) by (simp add: bis_inv_def part_ok_def)
qed

lemma unat_cluster_start: "unat (sector div 32 * 32) = unat sector div 32 * 32" for sector :: u32
proof -
  have "unat sector div 32 * 32 < 2 ^ 32" using le_less_trans [OF div_times_less_eq_dividend [of "unat sector" 32] unat_less_pow [of sector]] by simp
  then show ?thesis by (simp add: unat_word_ariths(2) unat_div)
qed

text \<open>A read that finds its cluster.\<close>

lemma read_block_hit:
  assumes inv: "bis_inv F part s" and rng: "unat sector < part_sectors part" "unat sector mod 32 + unat cnt \<le> 32"
    and hit: "cached s (unat sector div 32)"
  shows "nx_emmc_bis_read_block_cached env part sector cnt s =
    (0, concat (map (view content F s part) [unat sector..<unat sector + unat cnt]), s)"
proof -
  note cp = cluster_in_part [OF inv rng(1)]
  have e: "length (cc_data (entry s (unat sector div 32))) = 16384"
    using inv cp(1) hit by (simp add: bis_inv_def entry_ok_def)
  have v: "view content F s part k = nth_sct (cc_data (entry s (unat sector div 32))) (k mod 32)"
    if "k \<in> {unat sector..<unat sector + unat cnt}" for k
    unfolding view_def chunk_sectors(1) [OF rng(2) that] using hit by simp
  have "map (view content F s part) [unat sector..<unat sector + unat cnt] =
      map (\<lambda>k. nth_sct (cc_data (entry s (unat sector div 32))) (k mod 32)) [unat sector..<unat sector + unat cnt]"
    by (intro map_cong refl v) simp
  then have "concat (map (view content F s part) [unat sector..<unat sector + unat cnt]) =
      take (512 * unat cnt) (drop (512 * (unat sector mod 32)) (cc_data (entry s (unat sector div 32))))"
    by (simp only: chunk_of_cluster [OF e rng(2)])
  then show ?thesis using hit
    by (simp add: nx_emmc_bis_read_block_cached_def cached_def entry_def of_nat_cluster BIS_CLUSTER_SECTORS_def EMMC_BLOCKSIZE_def
        Let_def unat_mod mult.commute)
qed

text \<open>The tweak of a whole cluster.\<close>

lemma cluster_tweak: "(se_ls_1bit_le ^^ unat (push_bit 5 (0 :: u32))) (start_tweak F (ucast tk) (ucast (sector div 32 :: u32))) =
    sector_tweak_at F tk (unat sector div 32 * 32)"
  by (simp add: sector_tweak_at_def ucast_cluster)

lemma crypt_sector_length:
  assumes "aes_engine env F" "length d = 512" shows "length (crypt_sector F tk ck enc n d) = 512"
proof -
  have "length (sector_tweak_at F tk n) = 16" unfolding sector_tweak_at_def by (intro length_ls_funpow length_start_tweak [OF assms(1)])
  then have "length (crypt_sector F tk ck enc n d) = 16 * length (blocks16 d)"
    unfolding crypt_sector_def using assms(1) by (intro xts_length) (simp_all add: aes_engine_def length_ls_1bit_le blocks16_all)
  then show ?thesis using assms(2) by (simp add: blocks16_length)
qed

lemma crypt_sector_inverse:
  assumes "aes_engine env F" "length d = 512" shows "crypt_sector F tk ck False n (crypt_sector F tk ck True n d) = d"
proof -
  have "length (sector_tweak_at F tk n) = 16" unfolding sector_tweak_at_def by (intro length_ls_funpow length_start_tweak [OF assms(1)])
  then have "crypt_sector F tk ck False n (crypt_sector F tk ck True n d) = concat (blocks16 d)"
    unfolding crypt_sector_def using assms(1) by (intro xts_inverse) (simp_all add: aes_engine_def length_ls_1bit_le blocks16_all)
  then show ?thesis using assms(2) by (simp add: concat_blocks16)
qed

lemma plain_sector_length: "bis_ok env content F \<Longrightarrow> length (plain_sector content F s part n) = 512"
  unfolding plain_sector_def by (rule crypt_sector_length [OF bis_ok_aes]) (simp_all add: raw_sector_def store_ok_length)

lemma nth_sct_of_cluster:
  assumes "bis_ok env content F" "k div 32 = c"
  shows "nth_sct (concat (map (plain_sector content F s part) [c * 32..<c * 32 + 32])) (k mod 32) = plain_sector content F s part k"
proof -
  have "k = c * 32 + k mod 32" unfolding assms(2) [symmetric] by simp
  then have "[c * 32..<c * 32 + 32] ! (k mod 32) = k" by simp
  then show ?thesis by (subst nth_sct_concat) (simp_all add: plain_sector_length [OF assms(1)])
qed

lemma cluster_view_chunk:
  fixes n c :: nat
  assumes ok: "bis_ok env content F" and miss: "\<not> cached s (n div 32)" and c: "n mod 32 + c \<le> 32"
  shows "take (512 * c) (drop (512 * (n mod 32)) (concat (map (plain_sector content F s part) [n div 32 * 32..<n div 32 * 32 + 32]))) =
    concat (map (view content F s part) [n..<n + c])"
proof -
  define data where "data = concat (map (plain_sector content F s part) [n div 32 * 32..<n div 32 * 32 + 32])"
  have ld: "length data = 16384" unfolding data_def by (subst length_concat_sectors [OF plain_sector_length [OF ok]]) simp
  have "nth_sct data (k mod 32) = view content F s part k" if "k \<in> {n..<n + c}" for k
    using miss nth_sct_of_cluster [OF ok chunk_sectors(1) [OF c that]] by (simp add: data_def view_def chunk_sectors(1) [OF c that])
  then have eq: "map (\<lambda>k. nth_sct data (k mod 32)) [n..<n + c] = map (view content F s part) [n..<n + c]"
    by (intro map_cong refl) simp
  show ?thesis using chunk_of_cluster [OF ld c] unfolding eq unfolding data_def .
qed

text \<open>A cluster decrypted as a whole.\<close>

lemma decrypt_cluster:
  assumes ok: "bis_ok env content F"
  obtains tw e' where "se_aes_crypt_xts_sec_nx (se_of env) (ucast (ks_tweak s)) (ucast (ks_crypt s)) False (ucast (sector div 32 :: u32)) [] True 0 dst
      (concat (map (raw_sector content s part) [unat sector div 32 * 32..<unat sector div 32 * 32 + 32])) e =
    (False, tw, concat (map (plain_sector content F s part) [unat sector div 32 * 32..<unat sector div 32 * 32 + 32]), e')"
proof -
  define c where "c = unat sector div 32 * 32"
  define src where "src = concat (map (raw_sector content s part) [c..<c + 32])"
  have lr: "length (raw_sector content s part k) = 512" for k by (simp add: raw_sector_def store_ok_length [OF ok])
  have lsrc: "length src = 16384" unfolding src_def by (subst length_concat_sectors [OF lr]) simp
  have sl: "src \<noteq> []" "length src mod 16 = 0" "length src \<le> SE_LL_MAX_SIZE" using lsrc by (auto simp: SE_LL_MAX_SIZE_def simp flip: length_0_conv)
  have out: "xts se_ls_1bit_le (F (ucast (ks_crypt s)) False) (sector_tweak_at F (ks_tweak s) c) (blocks16 src) =
      concat (map (plain_sector content F s part) [c..<c + 32])"
    unfolding src_def by (subst xts_sectors [OF lr]) (simp_all add: plain_sector_def [abs_def] c_def)
  obtain e' where "se_aes_crypt_xts_sec_nx (se_of env) (ucast (ks_tweak s)) (ucast (ks_crypt s)) False (ucast (sector div 32)) [] True 0 dst src e =
      (False, (se_ls_1bit_le ^^ (length src div 16)) (sector_tweak_at F (ks_tweak s) c), concat (map (plain_sector content F s part) [c..<c + 32]), e')"
    using se_aes_crypt_xts_sec_nx_eq [OF bis_ok_aes [OF ok] sl, where regen = True and tk = "ucast (ks_tweak s)" and sec = "ucast (sector div 32)"
        and ck = "ucast (ks_crypt s)" and enc = False and ex = 0 and dst = dst and e = e and tweak = "[]"]
    unfolding if_True cluster_tweak c_def [symmetric] out by auto
  then show ?thesis using that unfolding src_def c_def by blast
qed

text \<open>Filling an entry: the state after a cluster has been read into the entry at \<open>top_idx\<close>.\<close>

definition filled :: "u32 \<Rightarrow> u8 list \<Rightarrow> ('w, 'e) bis \<Rightarrow> ('w, 'e) bis \<Rightarrow> bool" where
  "filled cluster data s s' \<longleftrightarrow> cache_enabled s' = cache_enabled s \<and> top_idx s' = top_idx s + 1 \<and>
     (\<exists>e. clusters s' = (clusters s)(top_idx s := e) \<and> cc_cluster_idx e = cluster \<and> cc_data e = data) \<and>
     ks_crypt s' = ks_crypt s \<and> ks_tweak s' = ks_tweak s \<and> emu_offset s' = emu_offset s \<and> system_part s' = system_part s \<and>
     cache_lookup_tbl s' = (cache_lookup_tbl s)(cluster := top_idx s) \<and> length (dma_buff s') = length (dma_buff s) \<and>
     prev_cluster s' = prev_cluster s \<and> prev_sector s' = prev_sector s \<and> saved_tweak s' = saved_tweak s"

lemma filled_view:
  assumes inv: "bis_inv F part s" and en: "cache_enabled s" and room: "unat (top_idx s) < 16384"
    and c: "c < part_sectors part div 32" "\<not> cached s c"
    and fl: "filled (of_nat c) (concat (map (plain_sector content F s part) [c * 32..<c * 32 + 32])) s s'"
    and raw: "content (emmc_dev (bis_emmc s')) = content (emmc_dev (bis_emmc s))" and ok: "bis_ok env content F"
  shows "bis_inv F part s'" "\<And>n. n < part_sectors part \<Longrightarrow> view content F s' part n = view content F s part n"
proof -
  define data where "data = concat (map (plain_sector content F s part) [c * 32..<c * 32 + 32])"
  from fl obtain e where e: "clusters s' = (clusters s)(top_idx s := e)" "cc_cluster_idx e = of_nat c" "cc_data e = data"
    unfolding filled_def data_def by blast
  have f: "cache_enabled s'" "top_idx s' = top_idx s + 1" "ks_crypt s' = ks_crypt s" "ks_tweak s' = ks_tweak s" "emu_offset s' = emu_offset s"
    "system_part s' = system_part s" "cache_lookup_tbl s' = (cache_lookup_tbl s)(of_nat c := top_idx s)" "length (dma_buff s') = length (dma_buff s)"
    "prev_cluster s' = prev_cluster s" "prev_sector s' = prev_sector s" "saved_tweak s' = saved_tweak s"
    using fl en unfolding filled_def by auto
  have ps: "part_sectors part < 2 ^ 32" using inv by (simp add: bis_inv_def part_ok_def)
  have small: "d < 2 ^ 32" if "d < part_sectors part div 32" for d using that ps div_le_dividend [of "part_sectors part" 32] by linarith
  have top: "unat (top_idx s + 1) = unat (top_idx s) + 1" using unat_plus_no_wrap [of "top_idx s" 1] room by simp
  have ne: "top_idx s \<noteq> BIS_CACHE_LOOKUP_TBL_EMPTY_ENTRY"
    using room by (auto simp: BIS_CACHE_LOOKUP_TBL_EMPTY_ENTRY_def unsigned_minus_1_eq_mask mask_eq_exp_minus_1)
  have ld: "length data = 16384" unfolding data_def by (subst length_concat_sectors [OF plain_sector_length [OF ok]]) simp
  have new: "cached s' c" "entry s' c = e" using ne by (simp_all add: cached_def entry_def f e)
  have old: "cached s' d = cached s d" "cached s d \<Longrightarrow> entry s' d = entry s d \<and> cache_lookup_tbl s (of_nat d) < top_idx s"
    if d: "d < part_sectors part div 32" "d \<noteq> c" for d
  proof -
    have nd: "(of_nat d :: u32) \<noteq> of_nat c" using of_nat_u32_eq [OF small [OF d(1)] small [OF c(1)]] d(2) by simp
    then show "cached s' d = cached s d" by (simp add: cached_def f)
    assume "cached s d"
    then have "cache_lookup_tbl s (of_nat d) < top_idx s" using inv d(1) by (simp add: bis_inv_def entry_ok_def)
    then show "entry s' d = entry s d \<and> cache_lookup_tbl s (of_nat d) < top_idx s" using nd by (simp add: entry_def f e)
  qed
  have "entry_ok s' d" if d: "d < part_sectors part div 32" for d
  proof (cases "d = c")
    case True
    have "top_idx s < top_idx s + 1" using top by (simp add: word_less_nat_alt)
    then show ?thesis using True new e ld f by (simp add: entry_ok_def)
  next
    case False
    have "entry_ok s d" using inv d by (simp add: bis_inv_def)
    moreover have "x < top_idx s + 1" if "x < top_idx s" for x using that top by (simp add: word_less_nat_alt)
    moreover have "cache_lookup_tbl s' (of_nat d) = cache_lookup_tbl s (of_nat d)"
      using of_nat_u32_eq [OF small [OF d] small [OF c(1)]] False by (simp add: f)
    ultimately show ?thesis using old [OF d False] f(1,2) by (auto simp: entry_ok_def)
  qed
  then show "bis_inv F part s'"
    using inv top room by (simp add: bis_inv_def f part_ok_def bis_base_def tweak_inv_def)
  have pl: "plain_sector content F s' part n = plain_sector content F s part n" for n
    by (simp add: plain_sector_def raw_sector_def raw f bis_base_def)
  show "view content F s' part n = view content F s part n" if n: "n < part_sectors part" for n
  proof (cases "n div 32 = c")
    case True
    have "nth_sct data (n mod 32) = plain_sector content F s part n" unfolding data_def by (rule nth_sct_of_cluster [OF ok True])
    then show ?thesis using True new e c(2) by (simp add: view_def)
  next
    case False
    have "n div 32 < part_sectors part div 32"
    proof -
      have "part_sectors part div 32 * 32 = part_sectors part" using inv by (simp add: bis_inv_def mod_0_imp_dvd)
      then show ?thesis using n by (simp add: less_mult_imp_div_less)
    qed
    then show ?thesis using old [OF _ False] pl by (simp add: view_def)
  qed
qed

text \<open>A read that misses: the cluster is read, decrypted and becomes an entry.\<close>

lemma read_block_miss:
  assumes ok: "bis_ok env content F" and inv: "bis_inv F part s" and en: "cache_enabled s" and room: "unat (top_idx s) < 16384"
    and rng: "unat sector < part_sectors part" "unat sector mod 32 + unat cnt \<le> 32" and miss: "\<not> cached s (unat sector div 32)"
  obtains s' where "nx_emmc_bis_read_block_cached env part sector cnt s =
      (0, concat (map (view content F s part) [unat sector..<unat sector + unat cnt]), s')"
    "bis_inv F part s'" "cache_enabled s'" "unat (top_idx s') = unat (top_idx s) + 1"
    "\<forall>n < part_sectors part. view content F s' part n = view content F s part n"
proof -
  define c where "c = unat sector div 32"
  note cp = cluster_in_part [OF inv rng(1), folded c_def]
  define s3 where "s3 = (upd_cluster (top_idx s) (\<lambda>e. e\<lparr>cc_cluster_idx := sector div 32, cc_dirty := False\<rparr>) s)
    \<lparr>cache_lookup_tbl := (cache_lookup_tbl s)(sector div 32 := top_idx s)\<rparr>"
  have s3: "part_ok s3 part" "length (dma_buff s3) = 16384" "raw_sector content s3 part = raw_sector content s part" "bis_emmc s3 = bis_emmc s"
    "ks_crypt s3 = ks_crypt s" "ks_tweak s3 = ks_tweak s" "top_idx s3 = top_idx s"
    using inv by (simp_all add: s3_def upd_cluster_def bis_inv_def part_ok_def bis_base_def raw_sector_def fun_eq_iff)
  have uc: "unat (sector div 32 * 32) = c * 32" by (simp add: unat_cluster_start c_def)
  have r32: "unat (sector div 32 * 32) + unat (32 :: u32) \<le> part_sectors part" using cp(2) by (simp add: uc)
  obtain s4 where s4: "bis_raw_read env part (sector div 32 * 32) 32 s3 = (False, s4)" "same_bis s3 s4" "bis_se s4 = bis_se s3"
    "take (unat (32 :: u32) * 512) (dma_buff s4) = concat (map (raw_sector content s3 part) [unat (sector div 32 * 32)..<unat (sector div 32 * 32) + unat (32 :: u32)])"
    "raw_sector content s4 part = raw_sector content s3 part" "length (dma_buff s4) = 16384"
    "content (emmc_dev (bis_emmc s4)) = content (emmc_dev (bis_emmc s3))"
    by (rule bis_raw_read_ok [OF ok s3(1) r32 _ s3(2)]) simp_all
  note sf = same_bis_fields [OF s4(2)]
  have src: "take 16384 (dma_buff s4) = concat (map (raw_sector content s part) [c * 32..<c * 32 + 32])"
    using s4(4) by (simp only: uc s3(3) unat_u32_32) simp
  define src where "src = concat (map (raw_sector content s part) [c * 32..<c * 32 + 32])"
  define data where "data = concat (map (plain_sector content F s part) [c * 32..<c * 32 + 32])"
  obtain tw e' where x: "se_aes_crypt_xts_sec_nx (se_of env) (ucast (ks_tweak s)) (ucast (ks_crypt s)) False (ucast (sector div 32)) [] True 0 (dma_buff s4) src (bis_se s4) =
      (False, tw, data, e')"
    unfolding src_def data_def c_def by (rule decrypt_cluster [OF ok])
  have ld: "length data = 16384" unfolding data_def by (subst length_concat_sectors [OF plain_sector_length [OF ok]]) simp
  define s5 where "s5 = s4\<lparr>dma_buff := data, bis_se := e'\<rparr>"
  define s' where "s' = (upd_cluster (top_idx s) (\<lambda>e. e\<lparr>cc_data := data\<rparr>) s5)\<lparr>top_idx := top_idx s + 1\<rparr>"
  have bp: "buf_put 0 data (dma_buff s4) = data" using ld s4(6) by (simp add: buf_put_def)
  have chunk: "take (unat cnt * 512) (drop (unat (sector mod 32) * 512) data) = concat (map (view content F s part) [unat sector..<unat sector + unat cnt])"
    using cluster_view_chunk [OF ok miss rng(2)] by (simp add: data_def c_def unat_mod mult.commute)
  have r: "nx_emmc_bis_read_block_cached env part sector cnt s = (0, concat (map (view content F s part) [unat sector..<unat sector + unat cnt]), s')"
  proof -
    have nf: "\<not> top_idx s \<ge> BIS_CACHE_MAX_ENTRIES" using room by (simp add: BIS_CACHE_MAX_ENTRIES_def word_le_nat_alt)
    have mi: "cache_lookup_tbl s (sector div 32) = BIS_CACHE_LOOKUP_TBL_EMPTY_ENTRY" using miss by (simp add: cached_def of_nat_cluster)
    have tk: "take BIS_CLUSTER_SIZE (dma_buff s4) = src" using src by (simp add: BIS_CLUSTER_SIZE_def src_def)
    have td: "take BIS_CLUSTER_SIZE data = data" using ld by (simp add: BIS_CLUSTER_SIZE_def)
    have k4: "ks_tweak s4 = ks_tweak s" "ks_crypt s4 = ks_crypt s" "top_idx s4 = top_idx s" by (simp_all add: sf s3)
    have lk: "cache_lookup_tbl (upd_cluster i g s) = cache_lookup_tbl s" "top_idx (upd_cluster i g s) = top_idx s" for i g by (simp_all add: upd_cluster_def)
    have s5: "take BIS_CLUSTER_SIZE (dma_buff s5) = data" "top_idx s5 = top_idx s" "dma_buff (upd_cluster i g s5) = data" "top_idx (upd_cluster i g s5) = top_idx s" for i g
      using ld by (simp_all add: s5_def BIS_CLUSTER_SIZE_def k4 upd_cluster_def)
    show ?thesis
      unfolding nx_emmc_bis_read_block_cached_def BIS_CLUSTER_SECTORS_def EMMC_BLOCKSIZE_def Let_def mi if_not_P [OF nf] lk s3_def [symmetric] s4(1)
      by (simp add: tk k4 x bp s5 chunk td s'_def flip: s5_def)
  qed
  have fl: "filled (of_nat c) data s s'"
    unfolding filled_def using ld inv
    by (auto simp: s'_def s5_def upd_cluster_def sf s3_def of_nat_cluster c_def bis_inv_def)
  have "content (emmc_dev (bis_emmc s')) = content (emmc_dev (bis_emmc s))" using s4(7) by (simp add: s'_def s5_def upd_cluster_def s3(4))
  note fv = filled_view [OF inv en room cp(1) _ fl [unfolded data_def] this ok]
  have "unat (top_idx s') = unat (top_idx s) + 1" using unat_plus_no_wrap [of "top_idx s" 1] room by (simp add: s'_def)
  moreover have "cache_enabled s'" using fl en by (simp add: filled_def)
  moreover have "\<not> cached s c" using miss by (simp add: c_def)
  ultimately show ?thesis using that [OF r] fv by blast
qed

subsection \<open>Writing\<close>

definition put_sectors :: "nat \<Rightarrow> u8 list \<Rightarrow> nat \<Rightarrow> (nat \<Rightarrow> u8 list) \<Rightarrow> nat \<Rightarrow> u8 list" where
  "put_sectors n data c f k = (if n \<le> k \<and> k < n + c then nth_sct data (k - n) else f k)"

lemma bis_raw_write_ok:
  assumes "bis_ok env content F" "part_ok s part" "unat sector + unat cnt \<le> part_sectors part" "cnt \<noteq> 0" "length (dma_buff s) = 16384" "unat cnt \<le> 32"
  obtains s' where "bis_raw_write env part sector cnt s = (False, s')" "s' = s\<lparr>bis_emmc := bis_emmc s'\<rparr>"
    "raw_sector content s' part = put_sectors (unat sector) (dma_buff s) (unat cnt) (raw_sector content s part)"
proof -
  define w where "w = emmc_dev (bis_emmc s)"
  define a where "a = (if emu_offset s = 0 then ep_lba_start part + sector else emu_offset s + ep_lba_start part + sector)"
  define wr where "wr = (if emu_offset s = 0 then emmc_storage_write (emmc_of env) else sd_storage_write env)"
  define data where "data = take (unat cnt * 512) (dma_buff s)"
  obtain rd where so: "store_ok rd wr content" using assms(1) unfolding bis_ok_def wr_def by (cases "emu_offset s = 0") auto
  have sec: "unat sector < part_sectors part" using assms(3,4) unat_gt_0 [of cnt] by linarith
  note adr = part_sector_address [OF assms(2) sec]
  have ua: "unat a = bis_base s part + unat sector" using adr by (simp add: a_def bis_base_def)
  have ld: "length data = 512 * unat cnt" using assms(5,6) by (simp add: data_def)
  have "unat a + unat cnt \<le> 2 ^ 32" using ua assms(2,3) by (simp add: part_ok_def)
  then have r: "fst (wr a cnt data w) = False"
    "content (snd (wr a cnt data w)) = (\<lambda>k. if unat a \<le> k \<and> k < unat a + unat cnt then take 512 (drop (512 * (k - unat a)) data) else content w k)"
    using so ld unfolding store_ok_def by blast+
  define s' where "s' = s\<lparr>bis_emmc := (bis_emmc s)\<lparr>emmc_dev := snd (wr a cnt data w)\<rparr>\<rparr>"
  have e: "bis_raw_write env part sector cnt s = (False, s')"
    using r(1) adr(2) unfolding bis_raw_write_def emmc_part_write_def s'_def data_def w_def a_def wr_def EMMC_BLOCKSIZE_def
    by (cases "emu_offset s = 0") (simp_all add: split_def Let_def)
  have sd: "nth_sct data k = nth_sct (dma_buff s) k" if "k < unat cnt" for k
  proof -
    have "512 \<le> unat cnt * 512 - 512 * k" using that by simp
    then show ?thesis by (simp add: nth_sct_def data_def drop_take min_absorb1)
  qed
  have "raw_sector content s' part k = put_sectors (unat sector) (dma_buff s) (unat cnt) (raw_sector content s part) k" for k
    using sd [of "k - unat sector"] unfolding raw_sector_def put_sectors_def s'_def bis_base_def
    by (auto simp: r(2) [unfolded w_def] ua bis_base_def w_def simp flip: nth_sct_def)
  then show ?thesis using that [OF e] by (auto simp: s'_def fun_eq_iff)
qed

lemma take_scts:
  assumes "512 * c \<le> length b"
  shows "take (512 * c) b = concat (map (put_sectors n b c (\<lambda>k. replicate 512 0)) [n..<n + c])"
proof -
  have "map (put_sectors n b c (\<lambda>k. replicate 512 0)) [n..<n + c] = map (nth_sct b) [0..<c]"
    by (rule nth_equalityI) (simp_all add: put_sectors_def)
  then show ?thesis using concat_scts [of 0 c b] assms by simp
qed

lemma put_sectors_length:
  assumes "512 * c \<le> length b" "\<And>k. length (f k) = 512" shows "length (put_sectors n b c f k) = 512"
proof -
  have "512 * (k - n + 1) \<le> length b" if "n \<le> k" "k < n + c"
  proof -
    have "512 * (k - n + 1) \<le> 512 * c" using that by (intro mult_le_mono2) simp
    then show ?thesis using assms(1) by linarith
  qed
  then show ?thesis using assms(2) by (simp add: put_sectors_def nth_sct_length)
qed

lemma start_tweak_sector:
  "(se_ls_1bit_le ^^ unat (push_bit 5 (sector mod 32 :: u32))) (start_tweak F (ucast tk) (ucast (sector div 32))) = sector_tweak_at F tk (unat sector)"
proof -
  have "unat (sector mod 32) = unat sector mod 32" by (simp add: unat_mod)
  then have "unat (push_bit 5 (sector mod 32)) = 32 * (unat sector mod 32)" by (subst unat_push_bit_5) (simp_all add: less_trans [of _ 32])
  then show ?thesis by (simp only: sector_tweak_at_def ucast_cluster)
qed

text \<open>A chunk inside a cluster, encrypted sector by sector.\<close>

definition cipher_sector :: "(u32 \<Rightarrow> bool \<Rightarrow> u8 list \<Rightarrow> u8 list) \<Rightarrow> ('w, 'e) bis \<Rightarrow> nat \<Rightarrow> nat \<Rightarrow> u8 list \<Rightarrow> nat \<Rightarrow> u8 list" where
  "cipher_sector F s n c buff k = crypt_sector F (ks_tweak s) (ks_crypt s) True k (put_sectors n buff c (\<lambda>k. replicate 512 0) k)"

lemma encrypt_chunk:
  assumes ok: "bis_ok env content F" and rng: "cnt \<noteq> 0" "unat sector mod 32 + unat cnt \<le> 32" and b: "unat cnt * 512 \<le> length buff"
  obtains tw e' where "se_aes_crypt_xts_sec_nx (se_of env) (ucast (ks_tweak s)) (ucast (ks_crypt s)) True (ucast (sector div 32)) [] True (sector mod 32)
      (dma_buff s) (take (unat cnt * 512) buff) (bis_se s) =
    (False, tw, concat (map (cipher_sector F s (unat sector) (unat cnt) buff) [unat sector..<unat sector + unat cnt]), e')"
proof -
  define n c where "n = unat sector" and "c = unat cnt"
  have c: "c \<le> 32" "n mod 32 + c \<le> 32" "0 < c" using rng by (simp_all add: n_def c_def unat_gt_0)
  define f where "f = put_sectors n buff c (\<lambda>k. replicate 512 0)"
  define src where "src = concat (map f [n..<n + c])"
  have lf: "length (f k) = 512" for k unfolding f_def using b by (intro put_sectors_length) (simp_all add: c_def mult.commute)
  have tk: "take (unat cnt * 512) buff = src" using take_scts [of c buff n] b by (simp add: src_def f_def c_def mult.commute)
  have "length src = 512 * c" unfolding src_def by (subst length_concat_sectors [OF lf]) simp
  then have sl: "src \<noteq> []" "length src mod 16 = 0" "length src \<le> SE_LL_MAX_SIZE" using c by (auto simp: SE_LL_MAX_SIZE_def simp flip: length_0_conv)
  have xo: "xts se_ls_1bit_le (F (ucast (ks_crypt s)) True) (sector_tweak_at F (ks_tweak s) (unat sector)) (blocks16 src) =
      concat (map (cipher_sector F s n c buff) [n..<n + c])"
    unfolding src_def cipher_sector_def f_def [symmetric] n_def [symmetric] by (rule xts_sectors [OF lf c(2)])
  obtain tw e' where "se_aes_crypt_xts_sec_nx (se_of env) (ucast (ks_tweak s)) (ucast (ks_crypt s)) True (ucast (sector div 32)) [] True (sector mod 32) (dma_buff s) src (bis_se s) =
      (False, tw, concat (map (cipher_sector F s n c buff) [n..<n + c]), e')"
    using se_aes_crypt_xts_sec_nx_eq [OF bis_ok_aes [OF ok] sl, where regen = True and tk = "ucast (ks_tweak s)" and sec = "ucast (sector div 32)"
        and ck = "ucast (ks_crypt s)" and enc = True and ex = "sector mod 32" and dst = "dma_buff s" and e = "bis_se s" and tweak = "[]"]
    unfolding if_True start_tweak_sector xo by auto
  then show ?thesis using that unfolding tk n_def c_def by blast
qed

text \<open>Encrypting and writing a chunk: the device holds it in the clear afterwards.\<close>

lemma encrypt_write_ok:
  assumes ok: "bis_ok env content F" and po: "part_ok s part" and len: "length (dma_buff s) = 16384"
    and rng: "unat sector + unat cnt \<le> part_sectors part" "cnt \<noteq> 0" "unat sector mod 32 + unat cnt \<le> 32" and b: "unat cnt * 512 \<le> length buff"
  obtains s' where "bis_encrypt_write env part (sector div 32) (sector mod 32) sector cnt buff None s = (0, s')" "same_bis s s'" "length (dma_buff s') = 16384"
    "plain_sector content F s' part = put_sectors (unat sector) buff (unat cnt) (plain_sector content F s part)"
proof -
  define n c where "n = unat sector" and "c = unat cnt"
  have c: "c \<le> 32" using rng by (simp add: c_def)
  define g where "g = cipher_sector F s n c buff"
  have lf: "length (put_sectors n buff c (\<lambda>k. replicate 512 0) k) = 512" for k using b by (intro put_sectors_length) (simp_all add: c_def mult.commute)
  have lg: "length (g k) = 512" for k unfolding g_def cipher_sector_def by (rule crypt_sector_length [OF bis_ok_aes [OF ok] lf])
  define out where "out = concat (map g [n..<n + c])"
  have lo: "length out = 512 * c" unfolding out_def by (subst length_concat_sectors [OF lg]) simp
  obtain tw e' where x: "se_aes_crypt_xts_sec_nx (se_of env) (ucast (ks_tweak s)) (ucast (ks_crypt s)) True (ucast (sector div 32)) [] True (sector mod 32) (dma_buff s)
      (take (unat cnt * 512) buff) (bis_se s) = (False, tw, out, e')"
    unfolding out_def g_def n_def c_def by (rule encrypt_chunk [OF ok rng(2,3) b])
  define s1 where "s1 = s\<lparr>dma_buff := buf_put 0 out (dma_buff s), bis_se := e'\<rparr>"
  have s1: "part_ok s1 part" "length (dma_buff s1) = 16384" "raw_sector content s1 part = raw_sector content s part"
    using po len lo c by (simp_all add: s1_def part_ok_def bis_base_def raw_sector_def fun_eq_iff length_buf_put)
  obtain s' where s': "bis_raw_write env part sector cnt s1 = (False, s')" "s' = s1\<lparr>bis_emmc := bis_emmc s'\<rparr>"
    "raw_sector content s' part = put_sectors n (dma_buff s1) c (raw_sector content s1 part)"
    unfolding n_def c_def by (rule bis_raw_write_ok [OF ok s1(1) rng(1,2) s1(2) c [unfolded c_def]])
  have r: "bis_encrypt_write env part (sector div 32) (sector mod 32) sector cnt buff None s = (0, s')"
    using x s'(1) by (simp add: bis_encrypt_write_def EMMC_BLOCKSIZE_def flip: s1_def)
  obtain m where m: "s' = s1\<lparr>bis_emmc := m\<rparr>" using s'(2) by blast
  have ks: "ks_tweak s' = ks_tweak s" "ks_crypt s' = ks_crypt s" by (simp_all add: m s1_def)
  have "plain_sector content F s' part k = put_sectors n buff c (plain_sector content F s part) k" for k
  proof (cases "n \<le> k \<and> k < n + c")
    case True
    have "nth_sct (dma_buff s1) (k - n) = g k"
    proof -
      have "nth_sct (buf_put 0 out (dma_buff s)) (k - n) = nth_sct out (k - n)"
        by (subst nth_sct_put [where i = 0 and m = c]) (use lo len c True in auto)
      then show ?thesis using nth_sct_concat [of g "k - n" "[n..<n + c]"] lg True by (simp add: s1_def out_def less_diff_conv2)
    qed
    then have "plain_sector content F s' part k = crypt_sector F (ks_tweak s) (ks_crypt s) False k (g k)"
      using True by (simp add: plain_sector_def s'(3) ks put_sectors_def)
    also have "\<dots> = put_sectors n buff c (\<lambda>k. replicate 512 0) k" unfolding g_def cipher_sector_def by (rule crypt_sector_inverse [OF bis_ok_aes [OF ok] lf])
    finally show ?thesis using True by (simp add: put_sectors_def)
  qed (auto simp: plain_sector_def s'(3) ks put_sectors_def s1(3))
  moreover have "same_bis s s'" "length (dma_buff s') = 16384" using s1(2) by (simp_all add: same_bis_def m s1_def)
  ultimately show ?thesis using that [OF r] by (auto simp: n_def c_def)
qed

lemma same_cluster_range:
  fixes n m k :: nat
  assumes "n div 32 = m div 32"
  shows "(m mod 32 \<le> n mod 32 \<and> n mod 32 < m mod 32 + k) = (m \<le> n \<and> n < m + k)" "n mod 32 - m mod 32 = n - m"
proof -
  have e: "n = m div 32 * 32 + n mod 32" "m = m div 32 * 32 + m mod 32" using div_mult_mod_eq [of n 32] assms by simp_all
  then obtain q a b where "n = q + a" "m = q + b" "n mod 32 = a" "m mod 32 = b" by blast
  then show "(m mod 32 \<le> n mod 32 \<and> n mod 32 < m mod 32 + k) = (m \<le> n \<and> n < m + k)" "n mod 32 - m mod 32 = n - m" by auto
qed

text \<open>A write without a flush: cached clusters take the data, others go to the device.\<close>

lemma write_cached_view:
  assumes inv: "bis_inv F part s" and rng: "unat sector < part_sectors part" "unat sector mod 32 + unat cnt \<le> 32" and b: "unat cnt * 512 \<le> length buff"
    and hit: "cached s (unat sector div 32)"
  defines "j \<equiv> cache_lookup_tbl s (sector div 32)"
  assumes s': "s' = s\<lparr>clusters := (clusters s)(j := (clusters s j)\<lparr>cc_data := buf_put (unat sector mod 32 * 512) (take (unat cnt * 512) buff) (cc_data (clusters s j)), cc_dirty := True\<rparr>), dirty_cnt := d\<rparr>"
  shows "bis_inv F part s'" "\<And>n. n < part_sectors part \<Longrightarrow> view content F s' part n = put_sectors (unat sector) buff (unat cnt) (view content F s part) n"
proof -
  define c where "c = unat sector div 32"
  note cp = cluster_in_part [OF inv rng(1), folded c_def]
  have jc: "j = cache_lookup_tbl s (of_nat c)" by (simp add: j_def c_def of_nat_cluster)
  have small: "e < 2 ^ 32" if "e < part_sectors part div 32" for e using that cp(3) div_le_dividend [of "part_sectors part" 32] by linarith
  have ek: "entry_ok s e" if "e < part_sectors part div 32" for e using inv that by (simp add: bis_inv_def)
  have ec: "cc_cluster_idx (clusters s j) = of_nat c" "length (cc_data (clusters s j)) = 16384"
    using ek [OF cp(1)] hit by (simp_all add: entry_ok_def entry_def jc flip: c_def)
  have nj: "cache_lookup_tbl s (of_nat e) \<noteq> j" if "e < part_sectors part div 32" "cached s e" "e \<noteq> c" for e
    using ek [OF that(1)] that(2,3) ec(1) of_nat_u32_eq [OF small [OF that(1)] small [OF cp(1)]] by (auto simp: entry_ok_def entry_def)
  have lb: "length (take (unat cnt * 512) buff) = 512 * unat cnt" using b by simp
  have fit: "unat sector mod 32 * 512 + length (take (unat cnt * 512) buff) \<le> length (cc_data (clusters s j))"
    using rng(2) ec(2) lb by simp
  have same: "cached s' e = cached s e" "cache_lookup_tbl s' = cache_lookup_tbl s" "cache_enabled s' = cache_enabled s" "top_idx s' = top_idx s" for e by (simp_all add: cached_def s')
  have new: "entry s' c = (clusters s j)\<lparr>cc_data := buf_put (unat sector mod 32 * 512) (take (unat cnt * 512) buff) (cc_data (clusters s j)), cc_dirty := True\<rparr>"
    by (simp add: entry_def s' flip: jc)
  have old: "entry s' e = entry s e" if "e < part_sectors part div 32" "cached s e" "e \<noteq> c" for e
    using nj [OF that] by (simp add: entry_def s')
  have "entry_ok s' e" if e: "e < part_sectors part div 32" for e
  proof (cases "e = c")
    case True
    then show ?thesis using ek [OF cp(1)] ec new length_buf_put [OF fit] by (simp add: entry_ok_def same)
  next
    case False
    then show ?thesis using ek [OF e] old [OF e _ False] by (auto simp: entry_ok_def same)
  qed
  then show "bis_inv F part s'" using inv by (simp add: bis_inv_def s' part_ok_def bis_base_def tweak_inv_def)
  have pl: "plain_sector content F s' part n = plain_sector content F s part n" for n
    by (simp add: plain_sector_def raw_sector_def s' bis_base_def)
  show "view content F s' part n = put_sectors (unat sector) buff (unat cnt) (view content F s part) n" if n: "n < part_sectors part" for n
  proof (cases "n div 32 = c")
    case True
    have rg: "(unat sector mod 32 \<le> n mod 32 \<and> n mod 32 < unat sector mod 32 + unat cnt) = (unat sector \<le> n \<and> n < unat sector + unat cnt)"
      "n mod 32 - unat sector mod 32 = n - unat sector"
      using same_cluster_range [of n "unat sector"] True by (simp_all add: c_def)
    have "nth_sct (take (unat cnt * 512) buff) i = nth_sct buff i" if "i < unat cnt" for i
      using that by (simp add: nth_sct_def drop_take min_absorb1)
    then have st: "nth_sct (take (unat cnt * 512) buff) (n - unat sector) = nth_sct buff (n - unat sector)" if "unat sector \<le> n \<and> n < unat sector + unat cnt"
      using that by auto
    have "entry s c = clusters s j" "cached s c" using hit by (simp_all add: entry_def c_def flip: jc [unfolded c_def])
    moreover have "nth_sct (cc_data (entry s' c)) (n mod 32) = (if unat sector \<le> n \<and> n < unat sector + unat cnt then nth_sct (take (unat cnt * 512) buff) (n - unat sector)
        else nth_sct (cc_data (clusters s j)) (n mod 32))"
      unfolding new rg [symmetric] using nth_sct_put [OF fit _ lb, of "unat sector mod 32" "n mod 32"] by simp
    ultimately show ?thesis using st by (simp add: view_def same True put_sectors_def)
  next
    case False
    then have "\<not> (unat sector \<le> n \<and> n < unat sector + unat cnt)" using chunk_sectors(1) [OF rng(2), of n] by (auto simp: c_def)
    moreover have "n div 32 < part_sectors part div 32"
      using n inv by (simp add: bis_inv_def less_mult_imp_div_less mod_0_imp_dvd)
    ultimately show ?thesis using old [OF _ _ False] pl by (auto simp: view_def same put_sectors_def)
  qed
qed

lemma write_block_ok:
  assumes ok: "bis_ok env content F" and inv: "bis_inv F part s"
    and rng: "unat sector + unat cnt \<le> part_sectors part" "cnt \<noteq> 0" "unat sector mod 32 + unat cnt \<le> 32" and b: "unat cnt * 512 \<le> length buff"
  obtains s' where "nx_emmc_bis_write_block env sector cnt (Some buff) False s = (0, s')" "bis_inv F part s'" "top_idx s' = top_idx s"
    "\<forall>n < part_sectors part. view content F s' part n = put_sectors (unat sector) buff (unat cnt) (view content F s part) n"
proof (cases "cached s (unat sector div 32)")
  case True
  have sec: "unat sector < part_sectors part" using rng(1,2) unat_gt_0 [of cnt] by linarith
  define j where "j = cache_lookup_tbl s (sector div 32)"
  define s' where "s' = s\<lparr>clusters := (clusters s)(j := (clusters s j)\<lparr>cc_data := buf_put (unat sector mod 32 * 512) (take (unat cnt * 512) buff) (cc_data (clusters s j)), cc_dirty := True\<rparr>),
    dirty_cnt := (if cc_dirty (clusters s j) then dirty_cnt s else dirty_cnt s + 1)\<rparr>"
  have "j \<noteq> BIS_CACHE_LOOKUP_TBL_EMPTY_ENTRY" using True by (simp add: cached_def j_def of_nat_cluster)
  moreover have "system_part s = Some part" using inv by (simp add: bis_inv_def)
  ultimately have "nx_emmc_bis_write_block env sector cnt (Some buff) False s = (0, s')"
    by (simp add: nx_emmc_bis_write_block_def Let_def BIS_CLUSTER_SECTORS_def EMMC_BLOCKSIZE_def upd_cluster_def s'_def unat_mod flip: j_def)
  moreover note write_cached_view [OF inv sec rng(3) b True s'_def [unfolded j_def]]
  ultimately show ?thesis using that by (simp add: s'_def)
next
  case False
  have part: "system_part s = Some part" "part_ok s part" "length (dma_buff s) = 16384" using inv by (simp_all add: bis_inv_def)
  obtain s' where s': "bis_encrypt_write env part (sector div 32) (sector mod 32) sector cnt buff None s = (0, s')" "same_bis s s'" "length (dma_buff s') = 16384"
    "plain_sector content F s' part = put_sectors (unat sector) buff (unat cnt) (plain_sector content F s part)"
    by (rule encrypt_write_ok [OF ok part(2,3) rng b])
  note sf = same_bis_fields [OF s'(2)]
  have same: "cached s' e = cached s e" "entry s' e = entry s e" "entry_ok s' e = entry_ok s e" for e
    by (simp_all add: cached_def entry_def entry_ok_def sf)
  have inv': "bis_inv F part s'" using inv s'(3) by (simp add: bis_inv_def sf same part_ok_def bis_base_def tweak_inv_def)
  have r: "nx_emmc_bis_write_block env sector cnt (Some buff) False s = (0, s')"
    using False part s'(1) by (simp add: nx_emmc_bis_write_block_def Let_def BIS_CLUSTER_SECTORS_def cached_def of_nat_cluster)
  have "view content F s' part n = put_sectors (unat sector) buff (unat cnt) (view content F s part) n" for n
  proof (cases "unat sector \<le> n \<and> n < unat sector + unat cnt")
    case True
    then have "n div 32 = unat sector div 32" using chunk_sectors(1) [OF rng(3), of n] by simp
    then show ?thesis using True False by (simp add: view_def same s'(4) put_sectors_def)
  qed (auto simp: view_def same s'(4) put_sectors_def)
  then show ?thesis using that [OF r inv'] by (simp add: sf)
qed

lemma read_block_ok:
  assumes ok: "bis_ok env content F" and inv: "bis_inv F part s" and room: "unat (top_idx s) < 16384"
    and rng: "unat sector + unat cnt \<le> part_sectors part" "cnt \<noteq> 0" "unat sector mod 32 + unat cnt \<le> 32"
  obtains s' where "nx_emmc_bis_read_block env sector cnt s = (0, concat (map (view content F s part) [unat sector..<unat sector + unat cnt]), s')"
    "bis_inv F part s'" "unat (top_idx s') \<le> unat (top_idx s) + 1"
    "\<forall>n < part_sectors part. view content F s' part n = view content F s part n"
proof (cases "cache_enabled s")
  case True
  have sec: "unat sector < part_sectors part" using rng(1,2) unat_gt_0 [of cnt] by linarith
  have part: "system_part s = Some part" using inv by (simp add: bis_inv_def)
  show ?thesis
  proof (cases "cached s (unat sector div 32)")
    case hit: True
    show ?thesis
      by (rule that [of s]) (simp_all add: nx_emmc_bis_read_block_def part True inv read_block_hit [OF inv sec rng(3) hit])
  next
    case False
    obtain s' where "nx_emmc_bis_read_block_cached env part sector cnt s =
        (0, concat (map (view content F s part) [unat sector..<unat sector + unat cnt]), s')"
      "bis_inv F part s'" "unat (top_idx s') = unat (top_idx s) + 1"
      "\<forall>n < part_sectors part. view content F s' part n = view content F s part n"
      by (rule read_block_miss [OF ok inv True room sec rng(3) False])
    then show ?thesis using that by (simp add: nx_emmc_bis_read_block_def part True)
  qed
next
  case False
  have part: "system_part s = Some part" and ni: "normal_inv F part s" using inv False by (simp_all add: bis_inv_def normal_inv_def)
  have nc: "\<not> cached s c" if "c < part_sectors part div 32" for c using inv False that by (simp add: bis_inv_def entry_ok_def)
  have lt: "n div 32 < part_sectors part div 32" if "n < part_sectors part" for n
    using that inv by (simp add: bis_inv_def less_mult_imp_div_less mod_0_imp_dvd)
  have vp: "view content F s part n = plain_sector content F s part n" if "n < part_sectors part" for n
    using nc [OF lt [OF that]] by (simp add: view_def)
  obtain s' where s': "nx_emmc_bis_read_block_normal env part sector cnt s =
      (0, concat (map (plain_sector content F s part) [unat sector..<unat sector + unat cnt]), s')"
    "normal_inv F part s'" "plain_sector content F s' part = plain_sector content F s part"
    "content (emmc_dev (bis_emmc s')) = content (emmc_dev (bis_emmc s))" "cache_lookup_tbl s' = cache_lookup_tbl s" "top_idx s' = top_idx s"
    by (rule read_block_normal_ok [OF ok ni rng])
  have nc': "\<not> cached s' c" if "c < part_sectors part div 32" for c using nc [OF that] s'(5) by (simp add: cached_def)
  have eq: "map (plain_sector content F s part) [unat sector..<unat sector + unat cnt] = map (view content F s part) [unat sector..<unat sector + unat cnt]"
    using vp rng(1) by (intro map_cong refl) simp
  have "nx_emmc_bis_read_block env sector cnt s = (0, concat (map (view content F s part) [unat sector..<unat sector + unat cnt]), s')"
    using s'(1) [unfolded eq] False part by (simp add: nx_emmc_bis_read_block_def)
  moreover have "bis_inv F part s'" using s'(2,6) inv nc' by (simp add: bis_inv_def normal_inv_def entry_ok_def)
  moreover have "view content F s' part n = view content F s part n" if "n < part_sectors part" for n
    using vp [OF that] nc' [OF lt [OF that]] s'(3) by (simp add: view_def)
  ultimately show ?thesis using that s'(6) by simp
qed


subsection \<open>Whole transfers\<close>

lemma bis_read_ok:
  assumes ok: "bis_ok env content F"
  shows "bis_inv F part s \<Longrightarrow> unat sct + unat cnt \<le> part_sectors part \<Longrightarrow> unat (top_idx s) + unat cnt \<le> 16384 \<Longrightarrow>
    \<exists>s'. nx_emmc_bis_read env sct cnt s = (0, concat (map (view content F s part) [unat sct..<unat sct + unat cnt]), s') \<and>
      bis_inv F part s' \<and> (\<forall>n < part_sectors part. view content F s' part n = view content F s part n) \<and> unat (top_idx s') \<le> unat (top_idx s) + unat cnt"
proof (induction "unat cnt" arbitrary: sct cnt s rule: less_induct)
  case less
  show ?case
  proof (cases "cnt = 0")
    case True
    then show ?thesis using less.prems by (auto simp: nx_emmc_bis_read.simps)
  next
    case False
    define c where "c = bis_chunk sct cnt"
    have ovf: "unat sct + unat cnt < 2 ^ 32" using less.prems(1,2) by (simp add: bis_inv_def part_ok_def)
    note st = bis_chunk_step [OF ovf False, folded c_def]
    have room: "unat (top_idx s) < 16384" using less.prems(3) st(3,4) by linarith
    have r1: "unat sct + unat c \<le> part_sectors part" using less.prems(2) st(4) by linarith
    obtain s1 where s1: "nx_emmc_bis_read_block env sct c s = (0, concat (map (view content F s part) [unat sct..<unat sct + unat c]), s1)"
      "bis_inv F part s1" "unat (top_idx s1) \<le> unat (top_idx s) + 1"
      "\<forall>n < part_sectors part. view content F s1 part n = view content F s part n"
      by (rule read_block_ok [OF ok less.prems(1) room r1 st(6,5)])
    have e: "unat sct + unat c + (unat cnt - unat c) = unat sct + unat cnt" using st(4) by simp
    have smaller: "unat (cnt - c) < unat cnt" "unat (sct + c) + unat (cnt - c) \<le> part_sectors part" "unat (top_idx s1) + unat (cnt - c) \<le> 16384"
      using st(1-4) less.prems(2,3) s1(3) by linarith+
    obtain s2 where s2: "nx_emmc_bis_read env (sct + c) (cnt - c) s1 =
        (0, concat (map (view content F s1 part) [unat sct + unat c..<unat sct + unat cnt]), s2)"
      "bis_inv F part s2" "\<forall>n < part_sectors part. view content F s2 part n = view content F s1 part n" "unat (top_idx s2) \<le> unat (top_idx s1) + unat (cnt - c)"
      using less.hyps [OF smaller(1) s1(2) smaller(2,3)] unfolding st(1,2) e by blast
    have eq: "map (view content F s1 part) [unat sct + unat c..<unat sct + unat cnt] = map (view content F s part) [unat sct + unat c..<unat sct + unat cnt]"
      using s1(4) less.prems(2) by (intro map_cong refl) simp
    have "[unat sct..<unat sct + unat cnt] = [unat sct..<unat sct + unat c] @ [unat sct + unat c..<unat sct + unat cnt]"
      using st(4) upt_add_eq_append [of "unat sct" "unat sct + unat c" "unat cnt - unat c"] by simp
    then have "nx_emmc_bis_read env sct cnt s = (0, concat (map (view content F s part) [unat sct..<unat sct + unat cnt]), s2)"
      using s1(1) s2(1) [unfolded eq] False by (subst nx_emmc_bis_read.simps) (simp add: Let_def flip: c_def)
    moreover have "unat (top_idx s2) \<le> unat (top_idx s) + unat cnt" using s1(3) s2(4) st(1-4) by linarith
    ultimately show ?thesis using s2(2,3) s1(4) by simp
  qed
qed

lemma put_sectors_split:
  assumes "c \<le> m" shows "put_sectors (n + c) (drop (c * 512) b) (m - c) (put_sectors n b c f) = put_sectors n b m f"
proof
  fix k
  have "nth_sct (drop (c * 512) b) (k - (n + c)) = nth_sct b (k - n)" if "n + c \<le> k"
  proof -
    have "512 * (k - (n + c)) + c * 512 = 512 * (k - n)" using that by (simp add: algebra_simps)
    then show ?thesis by (simp add: nth_sct_def)
  qed
  then show "put_sectors (n + c) (drop (c * 512) b) (m - c) (put_sectors n b c f) k = put_sectors n b m f k"
    using assms by (auto simp: put_sectors_def)
qed

lemma bis_write_ok:
  assumes ok: "bis_ok env content F"
  shows "bis_inv F part s \<Longrightarrow> unat sct + unat cnt \<le> part_sectors part \<Longrightarrow> unat cnt * 512 \<le> length buf \<Longrightarrow>
    \<exists>s'. nx_emmc_bis_write env sct cnt buf s = (0, s') \<and> bis_inv F part s' \<and> top_idx s' = top_idx s \<and>
      (\<forall>n < part_sectors part. view content F s' part n = put_sectors (unat sct) buf (unat cnt) (view content F s part) n)"
proof (induction "unat cnt" arbitrary: sct cnt s buf rule: less_induct)
  case less
  show ?case
  proof (cases "cnt = 0")
    case True
    then show ?thesis using less.prems by (auto simp: nx_emmc_bis_write.simps put_sectors_def)
  next
    case False
    define c where "c = bis_chunk sct cnt"
    have ovf: "unat sct + unat cnt < 2 ^ 32" using less.prems(1,2) by (simp add: bis_inv_def part_ok_def)
    note st = bis_chunk_step [OF ovf False, folded c_def]
    have r1: "unat sct + unat c \<le> part_sectors part" "unat c * 512 \<le> length buf" using less.prems(2,3) st(4) by linarith+
    obtain s1 where s1: "nx_emmc_bis_write_block env sct c (Some buf) False s = (0, s1)" "bis_inv F part s1" "top_idx s1 = top_idx s"
      "\<forall>n < part_sectors part. view content F s1 part n = put_sectors (unat sct) buf (unat c) (view content F s part) n"
      by (rule write_block_ok [OF ok less.prems(1) r1(1) st(6,5) r1(2)])
    have smaller: "unat (cnt - c) < unat cnt" "unat (sct + c) + unat (cnt - c) \<le> part_sectors part" "unat (cnt - c) * 512 \<le> length (drop (unat c * 512) buf)"
      using st(1-4) less.prems(2,3) by (simp_all add: diff_mult_distrib)
    obtain s2 where s2: "nx_emmc_bis_write env (sct + c) (cnt - c) (drop (unat c * 512) buf) s1 = (0, s2)" "bis_inv F part s2" "top_idx s2 = top_idx s1"
      "\<forall>n < part_sectors part. view content F s2 part n = put_sectors (unat sct + unat c) (drop (unat c * 512) buf) (unat cnt - unat c) (view content F s1 part) n"
      using less.hyps [OF smaller(1) s1(2) smaller(2,3)] unfolding st(1,2) by blast
    have "view content F s2 part n = put_sectors (unat sct) buf (unat cnt) (view content F s part) n" if n: "n < part_sectors part" for n
    proof -
      have "view content F s2 part n = put_sectors (unat sct + unat c) (drop (unat c * 512) buf) (unat cnt - unat c) (put_sectors (unat sct) buf (unat c) (view content F s part)) n"
        using s2(4) s1(4) [rule_format, OF n] n by (simp add: put_sectors_def)
      then show ?thesis by (simp only: put_sectors_split [OF st(4)])
    qed
    moreover have "nx_emmc_bis_write env sct cnt buf s = (0, s2)"
      using s1(1) s2(1) False by (subst nx_emmc_bis_write.simps) (simp add: Let_def EMMC_BLOCKSIZE_def flip: c_def)
    ultimately show ?thesis using s2(2,3) s1(3) by simp
  qed
qed

end
