(* ===== verification/Bis_Flush.thy ===== *)
theory Bis_Flush
  imports Bis_View
begin

text \<open>
  Flushing the cache, the partition as a device of sectors, and the properties of the whole component
  with an instance of its environment.
\<close>

subsection \<open>Flushing\<close>

text \<open>Every entry belongs to a cluster of the partition that looks it up, and clean entries agree with the device.\<close>

definition cluster_plain :: "('w \<Rightarrow> nat \<Rightarrow> u8 list) \<Rightarrow> (u32 \<Rightarrow> bool \<Rightarrow> u8 list \<Rightarrow> u8 list) \<Rightarrow> ('w, 'e) bis \<Rightarrow> emmc_part_t \<Rightarrow> u32 \<Rightarrow> bool" where
  "cluster_plain content F s part i \<longleftrightarrow>
     (\<forall>n. n div 32 = unat (cc_cluster_idx (clusters s i)) \<longrightarrow> nth_sct (cc_data (clusters s i)) (n mod 32) = plain_sector content F s part n)"

definition flushable :: "('w \<Rightarrow> nat \<Rightarrow> u8 list) \<Rightarrow> (u32 \<Rightarrow> bool \<Rightarrow> u8 list \<Rightarrow> u8 list) \<Rightarrow> emmc_part_t \<Rightarrow> ('w, 'e) bis \<Rightarrow> bool" where
  "flushable content F part s \<longleftrightarrow> bis_inv F part s \<and> cache_enabled s \<and>
     (\<forall>i < top_idx s. unat (cc_cluster_idx (clusters s i)) < part_sectors part div 32 \<and> cache_lookup_tbl s (cc_cluster_idx (clusters s i)) = i) \<and>
     (\<forall>i < top_idx s. \<not> cc_dirty (clusters s i) \<longrightarrow> cluster_plain content F s part i)"

lemma cluster_range:
  fixes c n :: nat
  shows "(c * 32 \<le> n \<and> n < c * 32 + 32) = (n div 32 = c)" "n div 32 = c \<Longrightarrow> n - c * 32 = n mod 32"
proof -
  show "n div 32 = c \<Longrightarrow> n - c * 32 = n mod 32" by (simp add: minus_div_mult_eq_mod [symmetric])
  show "(c * 32 \<le> n \<and> n < c * 32 + 32) = (n div 32 = c)"
    by (auto intro!: div_nat_eqI simp: mult.commute)
qed

lemma encrypt_write_cached:
  "bis_encrypt_write env part c k sector cnt buff None s = (0, s') \<Longrightarrow>
   bis_encrypt_write env part c k sector cnt buff (Some i) s = (0, (upd_cluster i (\<lambda>c. c\<lparr>cc_dirty := False\<rparr>) s')\<lparr>dirty_cnt := dirty_cnt s' - 1\<rparr>)"
  by (auto simp: bis_encrypt_write_def Let_def split_def split: if_splits)

lemma flushable_entry:
  assumes "flushable content F part s" "i < top_idx s"
  defines "cl \<equiv> cc_cluster_idx (clusters s i)" and "c \<equiv> unat (cc_cluster_idx (clusters s i))"
  shows "c * 32 + 32 \<le> part_sectors part" "unat (cl * 32) = c * 32" "cl * 32 div 32 = cl" "cl * 32 mod 32 = 0"
    "i \<noteq> BIS_CACHE_LOOKUP_TBL_EMPTY_ENTRY" "cache_lookup_tbl s cl = i" "length (cc_data (clusters s i)) = 16384"
proof -
  have inv: "bis_inv F part s" using assms(1) by (simp add: flushable_def)
  have c: "c < part_sectors part div 32" and lk: "cache_lookup_tbl s cl = i" using assms(1,2) by (simp_all add: flushable_def c_def cl_def)
  show "cache_lookup_tbl s cl = i" by (rule lk)
  have ps: "part_sectors part < 2 ^ 32" "part_sectors part div 32 * 32 = part_sectors part"
    using inv by (simp_all add: bis_inv_def part_ok_def mod_0_imp_dvd)
  have "(c + 1) * 32 \<le> part_sectors part div 32 * 32" using c by (intro mult_le_mono1) simp
  then show cs: "c * 32 + 32 \<le> part_sectors part" using ps(2) by simp
  then show uc: "unat (cl * 32) = c * 32" using ps(1) by (simp add: c_def cl_def unat_word_ariths(2))
  then show "cl * 32 div 32 = cl" "cl * 32 mod 32 = 0" by (simp_all add: word_unat_eq_iff unat_div unat_mod c_def cl_def)
  show ne: "i \<noteq> BIS_CACHE_LOOKUP_TBL_EMPTY_ENTRY"
  proof
    assume "i = BIS_CACHE_LOOKUP_TBL_EMPTY_ENTRY"
    then have "unat i = 4294967295" by (simp add: BIS_CACHE_LOOKUP_TBL_EMPTY_ENTRY_def unsigned_minus_1_eq_mask mask_eq_exp_minus_1)
    moreover have "unat i < 16384" using assms(2) inv by (simp add: bis_inv_def word_less_nat_alt)
    ultimately show False by simp
  qed
  have "of_nat c = cl" by (simp add: c_def cl_def)
  then show "length (cc_data (clusters s i)) = 16384" using inv c lk ne by (auto simp: bis_inv_def entry_ok_def cached_def entry_def)
qed

lemma flush_entry:
  assumes ok: "bis_ok env content F" and fl: "flushable content F part s" and i: "i < top_idx s" "cc_dirty (clusters s i)"
  obtains s' where "nx_emmc_bis_write_block env (cc_cluster_idx (clusters s i) * 32) 32 None True s = (0, s')"
    "flushable content F part s'" "\<forall>n < part_sectors part. view content F s' part n = view content F s part n"
    "dirty_cnt s' = dirty_cnt s - 1" "top_idx s' = top_idx s" "cache_enabled s'" "\<And>j. cc_dirty (clusters s' j) = (cc_dirty (clusters s j) \<and> j \<noteq> i)"
    "\<And>n. n div 32 \<noteq> unat (cc_cluster_idx (clusters s i)) \<Longrightarrow> plain_sector content F s' part n = plain_sector content F s part n"
    "\<And>j. cc_cluster_idx (clusters s' j) = cc_cluster_idx (clusters s j)"
proof -
  define cl where "cl = cc_cluster_idx (clusters s i)"
  define c where "c = unat cl"
  have inv: "bis_inv F part s" and en: "cache_enabled s" using fl by (simp_all add: flushable_def)
  have ps: "system_part s = Some part" "part_ok s part" "length (dma_buff s) = 16384" using inv by (simp_all add: bis_inv_def)
  note fe = flushable_entry [OF fl i(1), folded cl_def, folded c_def]
  note cs = fe(1) and uc = fe(2) and dm = fe(3,4) and ne = fe(5) and lk = fe(6) and ld = fe(7)
  have oc: "of_nat c = cl" by (simp add: c_def)
  have rq: "unat (cl * 32) + unat (32 :: u32) \<le> part_sectors part" "(32 :: u32) \<noteq> 0" "unat (cl * 32) mod 32 + unat (32 :: u32) \<le> 32"
    "unat (32 :: u32) * 512 \<le> length (cc_data (clusters s i))" using cs uc ld by simp_all
  obtain s1 where s1: "bis_encrypt_write env part (cl * 32 div 32) (cl * 32 mod 32) (cl * 32) 32 (cc_data (clusters s i)) None s = (0, s1)"
    "same_bis s s1" "length (dma_buff s1) = 16384"
    "plain_sector content F s1 part = put_sectors (unat (cl * 32)) (cc_data (clusters s i)) (unat (32 :: u32)) (plain_sector content F s part)"
    by (rule encrypt_write_ok [OF ok ps(2,3) rq])
  note sf = same_bis_fields [OF s1(2)]
  define s' where "s' = (upd_cluster i (\<lambda>c. c\<lparr>cc_dirty := False\<rparr>) s1)\<lparr>dirty_cnt := dirty_cnt s1 - 1\<rparr>"
  have same: "upd_cluster i (\<lambda>c. c\<lparr>cc_dirty := True\<rparr>) s = s" using i(2) by (cases s, cases "clusters s i") (simp add: upd_cluster_def fun_upd_idem)
  have r: "nx_emmc_bis_write_block env (cl * 32) 32 None True s = (0, s')"
    using s1(1) ne lk ps(1) i(2) encrypt_write_cached [OF s1(1) [unfolded dm], of i]
    by (simp add: nx_emmc_bis_write_block_def Let_def BIS_CLUSTER_SECTORS_def dm same s'_def)
  have g: "cc_data (clusters s' j) = cc_data (clusters s j)" "cc_cluster_idx (clusters s' j) = cc_cluster_idx (clusters s j)"
    "cc_dirty (clusters s' j) = (cc_dirty (clusters s j) \<and> j \<noteq> i)" for j by (simp_all add: s'_def upd_cluster_def sf)
  have h: "cache_lookup_tbl s' = cache_lookup_tbl s" "top_idx s' = top_idx s" "cache_enabled s' = cache_enabled s" "dirty_cnt s' = dirty_cnt s - 1"
    by (simp_all add: s'_def upd_cluster_def sf)
  have "plain_sector content F s' part = plain_sector content F s1 part" by (simp add: s'_def upd_cluster_def plain_sector_def raw_sector_def bis_base_def fun_eq_iff)
  then have pl: "plain_sector content F s' part n = (if n div 32 = c then nth_sct (cc_data (clusters s i)) (n mod 32) else plain_sector content F s part n)" for n
    using cluster_range(1) [of c n] cluster_range(2) [of n c] by (simp add: s1(4) uc put_sectors_def)
  have eo: "entry_ok s' e = entry_ok s e" "cached s' e = cached s e" "cc_data (entry s' e) = cc_data (entry s e)" for e
    by (simp_all add: entry_ok_def cached_def entry_def g h)
  have inv': "bis_inv F part s'" using inv s1(3) by (simp add: bis_inv_def eo h) (simp add: s'_def upd_cluster_def sf part_ok_def bis_base_def tweak_inv_def)
  have "cluster_plain content F s' part j" if j: "j < top_idx s" "\<not> cc_dirty (clusters s j) \<or> j = i" for j
  proof (cases "j = i")
    case True
    then show ?thesis using pl by (simp add: cluster_plain_def g c_def cl_def)
  next
    case False
    have "cc_cluster_idx (clusters s j) \<noteq> cl" using fl j(1) False lk by (auto simp: flushable_def)
    then have "unat (cc_cluster_idx (clusters s j)) \<noteq> c" by (simp add: c_def word_unat_eq_iff)
    then show ?thesis using fl j False pl by (simp add: flushable_def cluster_plain_def g)
  qed
  then have fl': "flushable content F part s'" using fl inv' by (auto simp: flushable_def g h)
  have "view content F s' part n = view content F s part n" for n
    using pl [of n] ne lk oc by (auto simp: view_def eo cached_def entry_def g h)
  then show ?thesis using that r fl' h en g pl unfolding cl_def c_def by simp
qed


text \<open>One step of the flush loop takes two off the count of dirty entries.\<close>

lemma odd_minus_2: "bit (d :: u32) 0 \<Longrightarrow> bit (d - 1 - 1) 0"
proof -
  have "d - 1 - 1 = d - 2" by simp
  then show "bit d 0 \<Longrightarrow> bit (d - 1 - 1) 0" by (simp add: bit_0)
qed

lemma flush_loop_odd:
  assumes ok: "bis_ok env content F"
  shows "flushable content F part s \<Longrightarrow> bit (dirty_cnt s) 0 \<Longrightarrow> unat (top_idx s) - unat i \<le> m \<Longrightarrow> (\<And>j. j < i \<Longrightarrow> \<not> cc_dirty (clusters s j)) \<Longrightarrow>
    flushable content F part (flush_loop env m i s) \<and> (\<forall>j < top_idx s. \<not> cc_dirty (clusters (flush_loop env m i s) j)) \<and>
    top_idx (flush_loop env m i s) = top_idx s \<and>
    (\<forall>n < part_sectors part. view content F (flush_loop env m i s) part n = view content F s part n)"
proof (induction m arbitrary: i s)
  case 0
  then have "unat (top_idx s) \<le> unat i" by simp
  then have "j < i" if "j < top_idx s" for j using that by (simp add: word_less_nat_alt)
  then show ?case using 0 by auto
next
  case (Suc m)
  have nz: "dirty_cnt s \<noteq> 0" using Suc.prems(2) by auto
  show ?case
  proof (cases "i < top_idx s")
    case False
    then have "j < i" if "j < top_idx s" for j using that by simp
    then show ?thesis using Suc.prems False by auto
  next
    case True
    then have i1: "unat (i + 1) = unat i + 1" using unat_plus_no_wrap [of i 1] unat_less_pow [of "top_idx s"] by (simp add: word_less_nat_alt)
    then have ji: "j < i + 1 \<longleftrightarrow> j < i \<or> j = i" for j by (auto simp: word_less_nat_alt word_unat_eq_iff)
    have m: "unat (top_idx s) - unat (i + 1) \<le> m" using Suc.prems(3) i1 by simp
    show ?thesis
    proof (cases "cc_dirty (clusters s i)")
      case clean: False
      have "\<not> cc_dirty (clusters s j)" if "j < i + 1" for j using that clean Suc.prems(4) ji by blast
      then show ?thesis using Suc.IH [OF Suc.prems(1,2) m] True nz clean by simp
    next
      case dirty: True
      obtain s1 where s1: "nx_emmc_bis_write_block env (cc_cluster_idx (clusters s i) * 32) 32 None True s = (0, s1)"
        "flushable content F part s1" "\<forall>n < part_sectors part. view content F s1 part n = view content F s part n"
        "dirty_cnt s1 = dirty_cnt s - 1" "top_idx s1 = top_idx s" "\<And>j. cc_dirty (clusters s1 j) = (cc_dirty (clusters s j) \<and> j \<noteq> i)"
        by (rule flush_entry [OF ok Suc.prems(1) True dirty]) blast
      define s2 where "s2 = s1\<lparr>dirty_cnt := dirty_cnt s1 - 1\<rparr>"
      have same: "flushable content F part s2 = flushable content F part s1" "view content F s2 part = view content F s1 part" "clusters s2 = clusters s1" "top_idx s2 = top_idx s1"
        by (simp_all add: s2_def flushable_def bis_inv_def part_ok_def bis_base_def tweak_inv_def entry_ok_def cached_def entry_def cluster_plain_def
            plain_sector_def raw_sector_def view_def fun_eq_iff)
      have "bit (dirty_cnt s2) 0" using odd_minus_2 [OF Suc.prems(2)] by (simp add: s2_def s1(4))
      moreover have "\<not> cc_dirty (clusters s2 j)" if "j < i + 1" for j using that Suc.prems(4) ji same(3) s1(6) by auto
      ultimately have "flushable content F part (flush_loop env m (i + 1) s2) \<and> (\<forall>j < top_idx s2. \<not> cc_dirty (clusters (flush_loop env m (i + 1) s2) j)) \<and>
          top_idx (flush_loop env m (i + 1) s2) = top_idx s2 \<and>
          (\<forall>n < part_sectors part. view content F (flush_loop env m (i + 1) s2) part n = view content F s2 part n)"
        using s1(2,5) m same by (intro Suc.IH) simp_all
      moreover have "flush_loop env (Suc m) i s = flush_loop env m (i + 1) s2"
        using True nz dirty s1(1) by (simp add: BIS_CLUSTER_SECTORS_def s2_def)
      ultimately show ?thesis using same s1(3,5) by simp
    qed
  qed
qed

text \<open>After the loop the cache starts empty.\<close>

lemma cache_init_view:
  fixes s :: "('w, 'e) bis" and en :: bool
  assumes "system_part s = Some part" "part_ok s part" "part_sectors part mod 32 = 0" "tweak_inv F s"
  defines "s' \<equiv> nx_emmc_bis_cluster_cache_init en s"
  shows "bis_inv F part s'" "n < part_sectors part \<Longrightarrow> view content F s' part n = plain_sector content F s part n"
    "plain_sector content F s' part = plain_sector content F s part" "top_idx s' = 0" "dirty_cnt s' = 0" "cache_enabled s' = en"
proof -
  have part: "system_part s = Some part" "ep_lba_start part \<le> ep_lba_end part" "part_sectors part < 2 ^ 32" using assms(1,2) by (simp_all add: part_ok_def)
  define k where "k = (ep_lba_end part - ep_lba_start part + 1) div 32"
  have "unat (ep_lba_end part - ep_lba_start part) = unat (ep_lba_end part) - unat (ep_lba_start part)" by (rule unat_minus_no_wrap [OF part(2)])
  then have "unat (ep_lba_end part - ep_lba_start part + 1) = part_sectors part"
    using unat_plus_no_wrap [of "ep_lba_end part - ep_lba_start part" 1] part(3) by (simp add: part_sectors_def)
  then have k: "unat k = part_sectors part div 32" by (simp add: k_def unat_div)
  have lk: "cache_lookup_tbl s' c = (if c < k then BIS_CACHE_LOOKUP_TBL_EMPTY_ENTRY else cache_lookup_tbl s c)" for c
    using part(1) by (simp add: s'_def nx_emmc_bis_cluster_cache_init_def Let_def BIS_CLUSTER_SECTORS_def k_def)
  have nc: "\<not> cached s' c" if "c < part_sectors part div 32" for c
  proof -
    have "c < 2 ^ 32" using that part(3) div_le_dividend [of "part_sectors part" 32] by linarith
    then have "(of_nat c :: u32) < k" using that by (simp add: word_less_nat_alt k unat_of_nat_u32)
    then show ?thesis by (simp add: cached_def lk)
  qed
  have f: "length (dma_buff s') = 16384" "system_part s' = Some part" "emu_offset s' = emu_offset s" "ks_crypt s' = ks_crypt s" "ks_tweak s' = ks_tweak s"
    "prev_cluster s' = prev_cluster s" "prev_sector s' = prev_sector s" "saved_tweak s' = saved_tweak s" "bis_emmc s' = bis_emmc s"
    and f2: "top_idx s' = 0" "dirty_cnt s' = 0" "cache_enabled s' = en"
    using part(1) by (simp_all add: s'_def nx_emmc_bis_cluster_cache_init_def Let_def BIS_CLUSTER_SIZE_def)
  show "top_idx s' = 0" "dirty_cnt s' = 0" "cache_enabled s' = en" by (fact f2)+
  show "bis_inv F part s'" using assms(2-4) nc by (simp add: bis_inv_def f f2 part_ok_def bis_base_def tweak_inv_def entry_ok_def)
  show pl: "plain_sector content F s' part = plain_sector content F s part" by (simp add: plain_sector_def raw_sector_def f bis_base_def fun_eq_iff)
  have "n div 32 < part_sectors part div 32" if "n < part_sectors part"
    using that assms(3) by (simp add: less_mult_imp_div_less mod_0_imp_dvd)
  then show "n < part_sectors part \<Longrightarrow> view content F s' part n = plain_sector content F s part n" using nc pl by (simp add: view_def)
qed

lemma flushed_view:
  assumes "flushable content F part s" "\<forall>j < top_idx s. \<not> cc_dirty (clusters s j)" "n < part_sectors part"
  shows "plain_sector content F s part n = view content F s part n"
proof (cases "cached s (n div 32)")
  case True
  have inv: "bis_inv F part s" using assms(1) by (simp add: flushable_def)
  define i where "i = cache_lookup_tbl s (of_nat (n div 32))"
  have lt: "n div 32 < part_sectors part div 32" using assms(3) inv by (simp add: bis_inv_def less_mult_imp_div_less mod_0_imp_dvd)
  then have i: "i < top_idx s" "cc_cluster_idx (clusters s i) = of_nat (n div 32)" using inv True by (simp_all add: bis_inv_def entry_ok_def entry_def i_def)
  have "n div 32 < 2 ^ 32" using assms(3) inv le_less_trans [OF div_le_dividend [of n 32], of "2 ^ 32"] by (simp add: bis_inv_def part_ok_def)
  then have "unat (cc_cluster_idx (clusters s i)) = n div 32" using i(2) by (simp add: unat_of_nat_u32)
  moreover have "cluster_plain content F s part i" using assms(1,2) i(1) by (simp add: flushable_def)
  ultimately show ?thesis using True by (simp add: cluster_plain_def view_def entry_def i_def)
qed (simp add: view_def)

lemma flush_cache_odd:
  fixes s :: "('w, 'e) bis" and env :: "('w, 'e) bis_env"
  assumes "bis_ok env content F" "flushable content F part s" "bit (dirty_cnt s) 0"
  defines "s' \<equiv> nx_emmc_bis_flush_cache env s"
  shows "bis_inv F part s'" "n < part_sectors part \<Longrightarrow> view content F s' part n = view content F s part n"
    "n < part_sectors part \<Longrightarrow> plain_sector content F s' part n = view content F s part n" "top_idx s' = 0" "dirty_cnt s' = 0" "cache_enabled s'"
proof -
  define l where "l = flush_loop env (unat (top_idx s)) 0 s"
  have "flushable content F part l \<and> (\<forall>j < top_idx s. \<not> cc_dirty (clusters l j)) \<and> top_idx l = top_idx s \<and>
      (\<forall>n < part_sectors part. view content F l part n = view content F s part n)"
    unfolding l_def by (rule flush_loop_odd [OF assms(1-3)]) simp_all
  then have l: "flushable content F part l" "\<forall>j < top_idx l. \<not> cc_dirty (clusters l j)" "\<forall>n < part_sectors part. view content F l part n = view content F s part n"
    by simp_all
  have "dirty_cnt s \<noteq> 0" "cache_enabled s" using assms(2,3) by (auto simp: flushable_def)
  then have s': "s' = nx_emmc_bis_cluster_cache_init True l" by (simp add: s'_def nx_emmc_bis_flush_cache_def l_def)
  have li: "system_part l = Some part" "part_ok l part" "part_sectors part mod 32 = 0" "tweak_inv F l" using l(1) by (simp_all add: flushable_def bis_inv_def)
  note ci = cache_init_view [OF li, where en = True, folded s']
  show "bis_inv F part s'" "top_idx s' = 0" "dirty_cnt s' = 0" "cache_enabled s'" using ci by simp_all
  show "n < part_sectors part \<Longrightarrow> view content F s' part n = view content F s part n"
    "n < part_sectors part \<Longrightarrow> plain_sector content F s' part n = view content F s part n"
    using ci(2,3) flushed_view [OF l(1,2)] l(3) by simp_all
qed

lemma flush_cache_two:
  assumes ok: "bis_ok env content F" and fl: "flushable content F part s" and d: "dirty_cnt s = 2" "1 < top_idx s" "cc_dirty (clusters s 0)"
    and n: "n < part_sectors part" "n div 32 \<noteq> unat (cc_cluster_idx (clusters s 0))"
  shows "view content F (nx_emmc_bis_flush_cache env s) part n = plain_sector content F s part n"
proof -
  have t: "0 < top_idx s" "unat (top_idx s) \<noteq> 0" using d(2) by (auto simp: word_less_nat_alt)
  obtain s1 where s1: "nx_emmc_bis_write_block env (cc_cluster_idx (clusters s 0) * 32) 32 None True s = (0, s1)"
    "flushable content F part s1" "dirty_cnt s1 = dirty_cnt s - 1" "top_idx s1 = top_idx s"
    "\<And>n. n div 32 \<noteq> unat (cc_cluster_idx (clusters s 0)) \<Longrightarrow> plain_sector content F s1 part n = plain_sector content F s part n"
    by (rule flush_entry [OF ok fl t(1) d(3)]) blast
  define s2 where "s2 = s1\<lparr>dirty_cnt := 0\<rparr>"
  have stop: "flush_loop env m i s2 = s2" for m i by (cases m) (simp_all add: s2_def)
  have "flush_loop env (Suc m) 0 s = flush_loop env m 1 s2" for m using t(1) d s1(1,3) by (simp add: BIS_CLUSTER_SECTORS_def s2_def)
  then have "flush_loop env (unat (top_idx s)) 0 s = s2" using t(2) stop by (cases "unat (top_idx s)") simp_all
  moreover have "cache_enabled s" using fl by (simp add: flushable_def)
  ultimately have f: "nx_emmc_bis_flush_cache env s = nx_emmc_bis_cluster_cache_init True s2" using d(1) by (simp add: nx_emmc_bis_flush_cache_def)
  have same: "flushable content F part s2 = flushable content F part s1" "plain_sector content F s2 part = plain_sector content F s1 part"
    by (simp_all add: s2_def flushable_def bis_inv_def part_ok_def bis_base_def tweak_inv_def entry_ok_def cached_def entry_def cluster_plain_def
        plain_sector_def raw_sector_def fun_eq_iff)
  have "system_part s2 = Some part" "part_ok s2 part" "part_sectors part mod 32 = 0" "tweak_inv F s2" using s1(2) same by (simp_all add: flushable_def bis_inv_def)
  note ci = cache_init_view(2) [OF this n(1), where content = content and en = True]
  show ?thesis unfolding f ci same(2) by (rule s1(5) [OF n(2)])
qed

subsection \<open>A device of sectors\<close>

text \<open>
  What a client of a block device relies on: reads return the sectors, writes replace them, both
  succeed inside the device while the device has room for the transfer.
\<close>

locale sector_device =
  fixes inv :: "'s \<Rightarrow> bool" and sectors :: "'s \<Rightarrow> nat \<Rightarrow> u8 list" and capacity :: nat and room :: "'s \<Rightarrow> nat"
    and rd :: "u32 \<Rightarrow> u32 \<Rightarrow> 's \<Rightarrow> int \<times> u8 list \<times> 's" and wr :: "u32 \<Rightarrow> u32 \<Rightarrow> u8 list \<Rightarrow> 's \<Rightarrow> int \<times> 's"
  assumes rd_ok: "inv s \<Longrightarrow> unat a + unat c \<le> capacity \<Longrightarrow> unat c \<le> room s \<Longrightarrow>
      \<exists>s'. rd a c s = (0, concat (map (sectors s) [unat a..<unat a + unat c]), s') \<and> inv s' \<and> (\<forall>n < capacity. sectors s' n = sectors s n) \<and> room s \<le> room s' + unat c"
    and wr_ok: "inv s \<Longrightarrow> unat a + unat c \<le> capacity \<Longrightarrow> length b = unat c * 512 \<Longrightarrow>
      \<exists>s'. wr a c b s = (0, s') \<and> inv s' \<and> room s' = room s \<and> (\<forall>n < capacity. sectors s' n = put_sectors (unat a) b (unat c) (sectors s) n)"
begin

lemma read_after_write:
  assumes "inv s" "unat a + unat c \<le> capacity" "length b = unat c * 512" "unat c \<le> room s"
  shows "\<exists>s1 s2. wr a c b s = (0, s1) \<and> rd a c s1 = (0, b, s2) \<and> inv s2"
proof -
  obtain s1 where s1: "wr a c b s = (0, s1)" "inv s1" "room s1 = room s" "\<forall>n < capacity. sectors s1 n = put_sectors (unat a) b (unat c) (sectors s) n"
    using wr_ok [OF assms(1-3)] by blast
  obtain s2 where s2: "rd a c s1 = (0, concat (map (sectors s1) [unat a..<unat a + unat c]), s2)" "inv s2"
    using rd_ok [OF s1(2) assms(2)] assms(4) s1(3) by auto
  have eq: "map (sectors s1) [unat a..<unat a + unat c] = map (put_sectors (unat a) b (unat c) (\<lambda>k. replicate 512 0)) [unat a..<unat a + unat c]"
    using s1(4) assms(2) by (intro map_cong refl) (simp add: put_sectors_def)
  have "concat (map (sectors s1) [unat a..<unat a + unat c]) = b"
    unfolding eq using take_scts [of "unat c" b "unat a"] assms(3) by simp
  then show ?thesis using s1(1) s2 by auto
qed

lemma read_elsewhere:
  assumes "inv s" "unat a + unat c \<le> capacity" "length b = unat c * 512" "unat x + unat y \<le> capacity" "unat y \<le> room s"
    and "unat a + unat c \<le> unat x \<or> unat x + unat y \<le> unat a"
  shows "\<exists>s1. wr a c b s = (0, s1) \<and> fst (snd (rd x y s1)) = fst (snd (rd x y s)) \<and> fst (rd x y s1) = 0 \<and> fst (rd x y s) = 0"
proof -
  obtain s1 where s1: "wr a c b s = (0, s1)" "inv s1" "room s1 = room s" "\<forall>n < capacity. sectors s1 n = put_sectors (unat a) b (unat c) (sectors s) n"
    using wr_ok [OF assms(1-3)] by blast
  obtain s2 where s2: "rd x y s1 = (0, concat (map (sectors s1) [unat x..<unat x + unat y]), s2)" using rd_ok [OF s1(2) assms(4)] assms(5) s1(3) by auto
  obtain s3 where s3: "rd x y s = (0, concat (map (sectors s) [unat x..<unat x + unat y]), s3)" using rd_ok [OF assms(1,4,5)] by auto
  have eq: "map (sectors s1) [unat x..<unat x + unat y] = map (sectors s) [unat x..<unat x + unat y]"
    using s1(4) assms(4,6) by (intro map_cong refl) (auto simp: put_sectors_def)
  show ?thesis using s1(1) s2 [unfolded eq] s3 by simp
qed

end

definition bis_room :: "('w, 'e) bis \<Rightarrow> nat" where
  "bis_room s = 16384 - unat (top_idx s)"

text \<open>The encrypted partition is such a device, with its cache and without.\<close>

interpretation bis: sector_device "\<lambda>s. bis_ok env content F \<and> bis_inv F part s" "\<lambda>s. view content F s part" "part_sectors part" bis_room
  "nx_emmc_bis_read env" "nx_emmc_bis_write env"
proof
  fix s :: "('a, 'b) bis" and a c :: u32
  assume i: "bis_ok env content F \<and> bis_inv F part s" and r: "unat a + unat c \<le> part_sectors part" "unat c \<le> bis_room s"
  have "unat (top_idx s) \<le> 16384" using i by (simp add: bis_inv_def)
  then have room: "unat (top_idx s) + unat c \<le> 16384" using r(2) by (simp add: bis_room_def)
  from i have ok: "bis_ok env content F" and inv: "bis_inv F part s" by simp_all
  obtain s' where "nx_emmc_bis_read env a c s = (0, concat (map (view content F s part) [unat a..<unat a + unat c]), s')" "bis_inv F part s'"
    "\<forall>n < part_sectors part. view content F s' part n = view content F s part n" "unat (top_idx s') \<le> unat (top_idx s) + unat c"
    using bis_read_ok [OF ok inv r(1) room] by blast
  then show "\<exists>s'. nx_emmc_bis_read env a c s = (0, concat (map (view content F s part) [unat a..<unat a + unat c]), s') \<and>
      (bis_ok env content F \<and> bis_inv F part s') \<and> (\<forall>n < part_sectors part. view content F s' part n = view content F s part n) \<and> bis_room s \<le> bis_room s' + unat c"
    using ok by (intro exI [of _ s']) (auto simp: bis_room_def)
next
  fix s :: "('a, 'b) bis" and a c :: u32 and b :: "u8 list"
  assume i: "bis_ok env content F \<and> bis_inv F part s" and r: "unat a + unat c \<le> part_sectors part" "length b = unat c * 512"
  from i have ok: "bis_ok env content F" and inv: "bis_inv F part s" by simp_all
  have len: "unat c * 512 \<le> length b" using r(2) by simp
  obtain s' where "nx_emmc_bis_write env a c b s = (0, s')" "bis_inv F part s'" "top_idx s' = top_idx s"
    "\<forall>n < part_sectors part. view content F s' part n = put_sectors (unat a) b (unat c) (view content F s part) n"
    using bis_write_ok [OF ok inv r(1) len] by blast
  then show "\<exists>s'. nx_emmc_bis_write env a c b s = (0, s') \<and> (bis_ok env content F \<and> bis_inv F part s') \<and> bis_room s' = bis_room s \<and>
      (\<forall>n < part_sectors part. view content F s' part n = put_sectors (unat a) b (unat c) (view content F s part) n)"
    using ok by (intro exI [of _ s']) (simp add: bis_room_def)
qed


subsection \<open>Properties\<close>

text \<open>
  C2. The encrypted partition behaves as an array of sectors in the clear, with its cache and without:
  a read returns the sectors in order and changes none, a write replaces its sectors and no other.
\<close>

theorem nx_emmc_bis_refines_sectors:
  assumes "bis_ok env content F" "bis_inv F part s" "unat a + unat c \<le> part_sectors part"
  shows "(unat (top_idx s) + unat c \<le> 16384 \<longrightarrow> (\<exists>s'. nx_emmc_bis_read env a c s = (0, concat (map (view content F s part) [unat a..<unat a + unat c]), s') \<and>
        bis_inv F part s' \<and> (\<forall>n < part_sectors part. view content F s' part n = view content F s part n))) \<and>
    (unat c * 512 \<le> length b \<longrightarrow> (\<exists>s'. nx_emmc_bis_write env a c b s = (0, s') \<and> bis_inv F part s' \<and>
        (\<forall>n < part_sectors part. view content F s' part n =
          (if unat a \<le> n \<and> n < unat a + unat c then take 512 (drop (512 * (n - unat a)) b) else view content F s part n))))"
  using bis_read_ok [OF assms] bis_write_ok [OF assms, of b] by (auto simp: put_sectors_def nth_sct_def)

text \<open>
  C17. What is written to the encrypted partition is what a following read of the same sectors returns,
  whatever mixture of cached and uncached clusters they fall in.
\<close>

theorem nx_emmc_bis_read_after_write:
  assumes "bis_ok env content F" "bis_inv F part s" "unat a + unat c \<le> part_sectors part" "length b = unat c * 512" "unat (top_idx s) + unat c \<le> 16384"
  shows "\<exists>s1 s2. nx_emmc_bis_write env a c b s = (0, s1) \<and> nx_emmc_bis_read env a c s1 = (0, b, s2)"
proof -
  have "unat c \<le> bis_room s" using assms(5) by (simp add: bis_room_def)
  then show ?thesis using bis.read_after_write [of env content F part s a c b] assms(1-4) by blast
qed

text \<open>
  C25. A flush with an odd count of dirty clusters writes all of them: afterwards the device holds, in the
  clear, the partition as its user saw it before, and the cache is empty.
\<close>

theorem nx_emmc_bis_flush_odd:
  fixes s :: "('w, 'e) bis"
  assumes "bis_ok env content F" "flushable content F part s" "bit (dirty_cnt s) 0" "n < part_sectors part"
  shows "view content F (nx_emmc_bis_flush_cache env s) part n = view content F s part n \<and>
    plain_sector content F (nx_emmc_bis_flush_cache env s) part n = view content F s part n \<and>
    top_idx (nx_emmc_bis_flush_cache env s) = 0"
  using flush_cache_odd [OF assms(1-3)] assms(4) by simp

text \<open>
  C33. The loop of the flush takes every written cluster off the count twice: with two dirty clusters the
  second is not written, and what its user wrote there is replaced by what the device held before.
\<close>

theorem nx_emmc_bis_flush_two_loses:
  assumes "bis_ok env content F" "flushable content F part s" "dirty_cnt s = 2" "1 < top_idx s" "cc_dirty (clusters s 0)" "cc_dirty (clusters s 1)"
    and "n < part_sectors part" "n div 32 = unat (cc_cluster_idx (clusters s 1))"
  shows "view content F (nx_emmc_bis_flush_cache env s) part n = plain_sector content F s part n"
proof -
  have "cc_cluster_idx (clusters s 0) \<noteq> cc_cluster_idx (clusters s 1)"
  proof
    assume e: "cc_cluster_idx (clusters s 0) = cc_cluster_idx (clusters s 1)"
    have "0 < top_idx s" using assms(4) by (simp add: word_less_nat_alt)
    then have "cache_lookup_tbl s (cc_cluster_idx (clusters s 0)) = 0" "cache_lookup_tbl s (cc_cluster_idx (clusters s 1)) = 1"
      using assms(2,4) by (simp_all add: flushable_def)
    then show False using e by simp
  qed
  then have "n div 32 \<noteq> unat (cc_cluster_idx (clusters s 0))" using assms(8) by (simp add: word_unat_eq_iff)
  then show ?thesis by (rule flush_cache_two [OF assms(1-5,7)])
qed

text \<open>
  Opening another partition leaves the saved tweak of the last read in place: a read that starts further
  on in the cluster of the same number continues from the tweak of the other partition.
\<close>

lemma nx_emmc_bis_init_keeps_tweak:
  "prev_cluster (nx_emmc_bis_init part en off s) = prev_cluster s \<and> prev_sector (nx_emmc_bis_init part en off s) = prev_sector s \<and>
   saved_tweak (nx_emmc_bis_init part en off s) = saved_tweak s"
  by (simp add: nx_emmc_bis_init_def nx_emmc_bis_cluster_cache_init_def Let_def)

text \<open>The first partition opened starts in the invariant.\<close>

lemma nx_emmc_bis_init_inv:
  assumes "name_is nm part" "nm \<in> {''PRODINFO'', ''PRODINFOF'', ''SAFE'', ''SYSTEM'', ''USER''}" "prev_cluster s = -1"
    and "ep_lba_start part \<le> ep_lba_end part" "unat off + unat (ep_lba_start part) + part_sectors part < 2 ^ 32" "part_sectors part mod 32 = 0"
  shows "bis_inv F part (nx_emmc_bis_init part en off s)"
proof -
  define s0 where "s0 = s\<lparr>system_part := Some part, emu_offset := off\<rparr>"
  define s1 where "s1 = nx_emmc_bis_cluster_cache_init en s0"
  have "bis_inv F part s1" unfolding s1_def
    by (rule cache_init_view) (use assms(3-6) in \<open>simp_all add: s0_def part_ok_def bis_base_def tweak_inv_def\<close>)
  moreover have "prev_cluster s1 = -1" using assms(3) by (simp add: s1_def s0_def nx_emmc_bis_cluster_cache_init_def Let_def)
  ultimately have "bis_inv F part (s1\<lparr>ks_crypt := x, ks_tweak := y\<rparr>)" for x y
    by (simp add: bis_inv_def part_ok_def bis_base_def tweak_inv_def entry_ok_def cached_def entry_def)
  then show ?thesis using assms(1,2) unfolding nx_emmc_bis_init_def Let_def s0_def [symmetric] s1_def [symmetric] by auto
qed

subsection \<open>An instance\<close>

text \<open>A storage that keeps its sectors, an engine with a simple cipher, a partition of two clusters.\<close>

definition demo_content :: "(nat \<Rightarrow> u8 list) \<Rightarrow> nat \<Rightarrow> u8 list" where
  "demo_content w k = take 512 (w k @ replicate 512 0)"

definition demo_read :: "u32 \<Rightarrow> u32 \<Rightarrow> (nat \<Rightarrow> u8 list) \<Rightarrow> bool \<times> u8 list \<times> (nat \<Rightarrow> u8 list)" where
  "demo_read a n w = (False, concat (map (demo_content w) [unat a..<unat a + unat n]), w)"

definition demo_write :: "u32 \<Rightarrow> u32 \<Rightarrow> u8 list \<Rightarrow> (nat \<Rightarrow> u8 list) \<Rightarrow> bool \<times> (nat \<Rightarrow> u8 list)" where
  "demo_write a n data w = (False, \<lambda>k. if unat a \<le> k \<and> k < unat a + unat n then take 512 (drop (512 * (k - unat a)) data) else w k)"

definition demo_bis :: "(nat \<Rightarrow> u8 list, unit) bis_env" where
  "demo_bis = \<lparr>emmc_of = \<lparr>emmc_storage_init = (\<lambda>b t w. (False, w)), emmc_storage_end = id, emmc_storage_set_partition = (\<lambda>p w. (False, w)),
      emmc_storage_read = demo_read, emmc_storage_write = demo_write\<rparr>,
    se_of = demo_engine, sd_storage_read = demo_read, sd_storage_write = demo_write\<rparr>"

definition demo_part :: emmc_part_t where
  "demo_part = \<lparr>ep_index = 0, ep_lba_start = 64, ep_lba_end = 127, ep_attrs = 0, ep_name = map (\<lambda>c. of_nat (of_char c)) ''SYSTEM'' @ [0]\<rparr>"

definition demo_entry :: "u32 \<Rightarrow> cluster_cache_t" where
  "demo_entry i = \<lparr>cc_cluster_idx = i, cc_dirty = True, cc_data = replicate 16384 7\<rparr>"

text \<open>Two cached dirty clusters, counted as \<open>d\<close>.\<close>

definition demo_state :: "u32 \<Rightarrow> u32 \<Rightarrow> (nat \<Rightarrow> u8 list, unit) bis" where
  "demo_state d t = \<lparr>cache_full = False, cache_enabled = True, dirty_cnt = d, top_idx = t, dma_buff = replicate 16384 0, clusters = demo_entry,
     ks_crypt = 4, ks_tweak = 5, emu_offset = 0, system_part = Some demo_part, cache_lookup_tbl = (\<lambda>c. if c < t then c else -1),
     prev_cluster = -1, prev_sector = 0, saved_tweak = [], bis_emmc = \<lparr>emmc_mode = 4, emmc_errors = [0, 0, 0], emmc_dev = (\<lambda>k. [])\<rparr>, bis_se = ()\<rparr>"

lemma demo_content_length: "length (demo_content w k) = 512" by (simp add: demo_content_def)

lemma demo_store: "store_ok demo_read demo_write demo_content"
proof -
  have "demo_content (snd (demo_write a n data w)) = (\<lambda>k. if unat a \<le> k \<and> k < unat a + unat n then take 512 (drop (512 * (k - unat a)) data) else demo_content w k)"
    if "length data = 512 * unat n" for a n data w
  proof
    fix k
    have "512 * (k - unat a + 1) \<le> 512 * unat n" if "unat a \<le> k" "k < unat a + unat n" using that by (intro mult_le_mono2) simp
    then show "demo_content (snd (demo_write a n data w)) k = (if unat a \<le> k \<and> k < unat a + unat n then take 512 (drop (512 * (k - unat a)) data) else demo_content w k)"
      using that by (auto simp: demo_write_def demo_content_def)
  qed
  then show ?thesis by (simp add: store_ok_def demo_content_length demo_read_def) (simp add: demo_write_def)
qed

lemma demo_bis_ok: "bis_ok demo_bis demo_content (\<lambda>ks enc. rev)"
  by (simp add: bis_ok_def demo_bis_def demo_store demo_engine_aes)

lemma demo_sectors: "part_sectors demo_part = 64" by (simp add: part_sectors_def demo_part_def)

lemma demo_inv: "t \<le> 2 \<Longrightarrow> bis_inv (\<lambda>ks enc. rev) demo_part (demo_state d t)"
proof -
  assume t: "t \<le> 2"
  have "entry_ok (demo_state d t) c" if "c < 2" for c
    by (simp add: entry_ok_def cached_def entry_def demo_state_def demo_entry_def BIS_CACHE_LOOKUP_TBL_EMPTY_ENTRY_def)
  moreover have "unat t \<le> 16384" using t by (simp add: word_le_nat_alt)
  ultimately show ?thesis
    by (simp add: bis_inv_def demo_sectors part_ok_def bis_base_def tweak_inv_def) (simp add: demo_state_def demo_part_def)
qed

lemma demo_flushable: "t \<le> 2 \<Longrightarrow> flushable demo_content (\<lambda>ks enc. rev) demo_part (demo_state d t)"
proof -
  assume t: "t \<le> 2"
  have "unat i < 2" if "i < t" for i using that t by (simp add: word_le_nat_alt word_less_nat_alt)
  then show ?thesis using demo_inv [OF t, of d]
    by (simp add: flushable_def demo_sectors) (simp add: demo_state_def demo_entry_def)
qed

theorem nx_emmc_bis_refines_sectors_witness:
  "bis_inv (\<lambda>ks enc. rev) demo_part (demo_state 0 1) \<and>
   (\<exists>data s'. nx_emmc_bis_read demo_bis 3 40 (demo_state 0 1) = (0, data, s') \<and> bis_inv (\<lambda>ks enc. rev) demo_part s')"
proof -
  have inv: "bis_inv (\<lambda>ks enc. rev) demo_part (demo_state 0 1)" by (rule demo_inv) (simp add: word_le_nat_alt)
  have t: "unat (top_idx (demo_state 0 1)) + unat (40 :: u32) \<le> 16384" by (simp add: demo_state_def)
  show ?thesis using nx_emmc_bis_refines_sectors [OF demo_bis_ok inv, of 3 40 "[]"] inv t by (auto simp: demo_sectors)
qed

theorem nx_emmc_bis_read_after_write_witness:
  "bis_inv (\<lambda>ks enc. rev) demo_part (demo_state 0 1) \<and>
   (\<exists>s1 s2. nx_emmc_bis_write demo_bis 30 4 (replicate 2048 9) (demo_state 0 1) = (0, s1) \<and> nx_emmc_bis_read demo_bis 30 4 s1 = (0, replicate 2048 9, s2))"
proof -
  have inv: "bis_inv (\<lambda>ks enc. rev) demo_part (demo_state 0 1)" by (rule demo_inv) (simp add: word_le_nat_alt)
  have t: "unat (top_idx (demo_state 0 1)) + unat (4 :: u32) \<le> 16384" by (simp add: demo_state_def)
  show ?thesis using nx_emmc_bis_read_after_write [OF demo_bis_ok inv _ _ t, of 30 "replicate 2048 9"] inv by (simp add: demo_sectors)
qed

theorem nx_emmc_bis_flush_odd_witness:
  "flushable demo_content (\<lambda>ks enc. rev) demo_part (demo_state 1 1) \<and> bit (dirty_cnt (demo_state 1 1)) 0 \<and>
   plain_sector demo_content (\<lambda>ks enc. rev) (nx_emmc_bis_flush_cache demo_bis (demo_state 1 1)) demo_part 3 = replicate 512 7"
proof -
  have fl: "flushable demo_content (\<lambda>ks enc. rev) demo_part (demo_state 1 1)" by (rule demo_flushable) (simp add: word_le_nat_alt)
  have o: "bit (dirty_cnt (demo_state 1 1)) 0" by (simp add: demo_state_def)
  have "view demo_content (\<lambda>ks enc. rev) (demo_state 1 1) demo_part 3 = replicate 512 7"
    by (simp add: view_def cached_def entry_def demo_state_def demo_entry_def nth_sct_def BIS_CACHE_LOOKUP_TBL_EMPTY_ENTRY_def)
  then show ?thesis using nx_emmc_bis_flush_odd [OF demo_bis_ok fl o, of 3] fl o by (simp add: demo_sectors)
qed

theorem nx_emmc_bis_flush_two_loses_witness:
  "flushable demo_content (\<lambda>ks enc. rev) demo_part (demo_state 2 2) \<and>
   view demo_content (\<lambda>ks enc. rev) (demo_state 2 2) demo_part 40 = replicate 512 7 \<and>
   view demo_content (\<lambda>ks enc. rev) (nx_emmc_bis_flush_cache demo_bis (demo_state 2 2)) demo_part 40 =
     plain_sector demo_content (\<lambda>ks enc. rev) (demo_state 2 2) demo_part 40"
proof -
  have fl: "flushable demo_content (\<lambda>ks enc. rev) demo_part (demo_state 2 2)" by (rule demo_flushable) (simp add: word_le_nat_alt)
  have d: "dirty_cnt (demo_state 2 2) = 2" "1 < top_idx (demo_state 2 2)" "cc_dirty (clusters (demo_state 2 2) 0)" "cc_dirty (clusters (demo_state 2 2) 1)"
    "40 div 32 = unat (cc_cluster_idx (clusters (demo_state 2 2) 1))"
    by (simp_all add: demo_state_def demo_entry_def)
  have "view demo_content (\<lambda>ks enc. rev) (demo_state 2 2) demo_part 40 = replicate 512 7"
    by (simp add: view_def cached_def entry_def demo_state_def demo_entry_def nth_sct_def BIS_CACHE_LOOKUP_TBL_EMPTY_ENTRY_def)
  then show ?thesis using nx_emmc_bis_flush_two_loses [OF demo_bis_ok fl d(1-4) _ d(5)] fl by (simp add: demo_sectors)
qed

end
