(* ===== verification/Dirlist.thy ===== *)
theory Dirlist
  imports Prelude "HOL-Library.Multiset" "HOL-Library.List_Lexorder"
begin

text \<open>
  Directory listings, \<open>bdk/utils/dirlist.c\<close>: the names of a directory, or of the files that match a
  pattern, in alphabetical order. A list has room for 64 names. The directory functions of FatFs are
  parameters; a directory handle is of any type.
\<close>

subsection \<open>Data\<close>

definition DIR_MAX_ENTRIES :: nat where "DIR_MAX_ENTRIES = 64"
definition DIR_SHOW_HIDDEN :: u32 where "DIR_SHOW_HIDDEN = 1"
definition DIR_SHOW_DIRS :: u32 where "DIR_SHOW_DIRS = 2"
definition DIR_ASCII_ORDER :: u32 where "DIR_ASCII_ORDER = 4"
definition AM_HID :: u8 where "AM_HID = 0x02"
definition AM_DIR :: u8 where "AM_DIR = 0x10"

record FILINFO =
  fname :: string
  fattrib :: u8

text \<open>Results are \<open>True\<close> on an error.\<close>

record 'd dir_env =
  f_opendir :: "string \<Rightarrow> bool \<times> 'd"
  f_readdir :: "'d \<Rightarrow> bool \<times> FILINFO \<times> 'd"
  f_findfirst :: "string \<Rightarrow> string \<Rightarrow> bool \<times> FILINFO \<times> 'd"
  f_findnext :: "'d \<Rightarrow> bool \<times> FILINFO \<times> 'd"

subsection \<open>Comparing strings\<close>

text \<open>The standard library's comparisons, of which only the sign is defined.\<close>

fun strcmp :: "string \<Rightarrow> string \<Rightarrow> int" where
  "strcmp [] [] = 0"
| "strcmp [] (b # bs) = -1"
| "strcmp (a # as) [] = 1"
| "strcmp (a # as) (b # bs) = (if a = b then strcmp as bs else of_char a - of_char b)"

definition tolower :: "char \<Rightarrow> char" where
  "tolower c = (if 65 \<le> (of_char c :: nat) \<and> (of_char c :: nat) \<le> 90 then char_of ((of_char c :: nat) + 32) else c)"

definition strcasecmp :: "string \<Rightarrow> string \<Rightarrow> int" where
  "strcasecmp s t = strcmp (map tolower s) (map tolower t)"

subsection \<open>Collecting the names\<close>

definition dir_visible :: "bool \<Rightarrow> FILINFO \<Rightarrow> bool" where
  "dir_visible show_hidden fno \<longleftrightarrow> hd (fname fno) \<noteq> CHR ''.'' \<and> (show_hidden \<or> fattrib fno AND AM_HID = 0)"

definition dir_wanted :: "bool \<Rightarrow> bool \<Rightarrow> FILINFO \<Rightarrow> bool" where
  "dir_wanted show_dirs show_hidden fno \<longleftrightarrow>
     (if show_dirs then fattrib fno AND AM_DIR \<noteq> 0 else fattrib fno AND AM_DIR = 0) \<and> dir_visible show_hidden fno"

text \<open>The loops end with the directory; a directory without end is no result.\<close>

partial_function (option) readdir_loop :: "'d dir_env \<Rightarrow> (FILINFO \<Rightarrow> bool) \<Rightarrow> 'd \<Rightarrow> string list \<Rightarrow> string list option" where
  "readdir_loop env wanted d data =
     (let (res, fno, d1) = f_readdir env d
      in if res \<or> fname fno = [] then Some data
         else if wanted fno
              then if length (data @ [fname fno]) \<ge> DIR_MAX_ENTRIES then Some (data @ [fname fno])
                   else readdir_loop env wanted d1 (data @ [fname fno])
              else readdir_loop env wanted d1 data)"

partial_function (option) findnext_loop :: "'d dir_env \<Rightarrow> (FILINFO \<Rightarrow> bool) \<Rightarrow> FILINFO \<Rightarrow> 'd \<Rightarrow> string list \<Rightarrow> string list option" where
  "findnext_loop env wanted fno d data =
     (let data1 = (if wanted fno then data @ [fname fno] else data)
      in if wanted fno \<and> length data1 \<ge> DIR_MAX_ENTRIES then Some data1
         else let (res, fno1, d1) = f_findnext env d
              in if fname fno1 \<noteq> [] \<and> \<not> res then findnext_loop env wanted fno1 d1 data1 else Some data1)"

subsection \<open>Ordering\<close>

definition sort_step :: "(string \<Rightarrow> string \<Rightarrow> int) \<Rightarrow> nat \<Rightarrow> nat \<Rightarrow> string list \<Rightarrow> string list" where
  "sort_step strcmpex i j name = (if strcmpex (name ! i) (name ! j) > 0 then name[i := name ! j, j := name ! i] else name)"

definition sort_names :: "(string \<Rightarrow> string \<Rightarrow> int) \<Rightarrow> string list \<Rightarrow> string list" where
  "sort_names strcmpex name =
     (let k = length name in fold (\<lambda>i. fold (sort_step strcmpex i) [i + 1..<k]) [0..<k - 1] name)"

text \<open>
  The list of names is ended with a null pointer. In a full list there is no pointer left for it: the
  write goes to the first bytes of the names, which follow in memory, and empties the first one found.
\<close>

definition terminate_names :: "string list \<Rightarrow> string list" where
  "terminate_names name = (if length name = DIR_MAX_ENTRIES then name[0 := []] else name)"

definition dirlist :: "'d dir_env \<Rightarrow> string \<Rightarrow> string option \<Rightarrow> u32 \<Rightarrow> string list option option" where
  "dirlist env directory pattern flags =
     (let show_hidden = (flags AND DIR_SHOW_HIDDEN \<noteq> 0); show_dirs = (flags AND DIR_SHOW_DIRS \<noteq> 0);
          ascii_order = (flags AND DIR_ASCII_ORDER \<noteq> 0);
          found = (case pattern of
             None \<Rightarrow> (let (res, d) = f_opendir env directory
                       in if res then Some [] else readdir_loop env (dir_wanted show_dirs show_hidden) d [])
           | Some pat \<Rightarrow> (let (res, fno, d) = f_findfirst env directory pat
                           in if res \<or> fname fno = [] then Some [] else findnext_loop env (dir_wanted False show_hidden) fno d []))
      in case found of
           None \<Rightarrow> None
         | Some [] \<Rightarrow> Some None
         | Some (n # ns) \<Rightarrow> Some (Some (sort_names (if ascii_order then strcmp else strcasecmp) (terminate_names (n # ns)))))"

subsection \<open>Ordering by a comparison function\<close>

text \<open>A comparison function orders by a key when its sign is that of the comparison of the keys.\<close>

locale comparison =
  fixes cmp :: "string \<Rightarrow> string \<Rightarrow> int" and key :: "string \<Rightarrow> nat list"
  assumes cmp_key: "cmp a b > 0 \<longleftrightarrow> key b < key a"
begin

lemma sort_step_length [simp]: "length (sort_step cmp i j xs) = length xs"
  by (simp add: sort_step_def)

lemma inner_length [simp]: "length (fold (sort_step cmp i) js xs) = length xs"
  by (induction js arbitrary: xs) simp_all

lemma sort_step_mset: "i < length xs \<Longrightarrow> j < length xs \<Longrightarrow> mset (sort_step cmp i j xs) = mset xs"
  by (simp add: sort_step_def mset_swap)

lemma inner_mset: "i < length xs \<Longrightarrow> \<forall>j \<in> set js. j < length xs \<Longrightarrow> mset (fold (sort_step cmp i) js xs) = mset xs"
  by (induction js arbitrary: xs) (simp_all add: sort_step_mset)

text \<open>One pass leaves the least of the rest at its position and nothing before it changes.\<close>

lemma inner_below: "i \<notin> set js \<Longrightarrow> m < i \<Longrightarrow> \<forall>j \<in> set js. i < j \<Longrightarrow> fold (sort_step cmp i) js xs ! m = xs ! m"
proof (induction js arbitrary: xs)
  case (Cons j js)
  then have "sort_step cmp i j xs ! m = xs ! m" by (simp add: sort_step_def)
  then show ?case using Cons by simp
qed simp

lemma inner_least:
  assumes "i < n" "n \<le> length xs"
  shows "\<forall>m. i \<le> m \<and> m < n \<longrightarrow> key (fold (sort_step cmp i) [i + 1..<n] xs ! i) \<le> key (fold (sort_step cmp i) [i + 1..<n] xs ! m)"
  using assms
proof (induction n)
  case (Suc n)
  show ?case
  proof (cases "i = n")
    case False
    define ys where "ys = fold (sort_step cmp i) [i + 1..<n] xs"
    have ys: "length ys = length xs" "\<forall>m. i \<le> m \<and> m < n \<longrightarrow> key (ys ! i) \<le> key (ys ! m)" using Suc False by (simp_all add: ys_def)
    have f: "fold (sort_step cmp i) [i + 1..<Suc n] xs = sort_step cmp i n ys" using Suc.prems False by (simp add: ys_def)
    have sw: "sort_step cmp i n ys = (if key (ys ! n) < key (ys ! i) then ys[i := ys ! n, n := ys ! i] else ys)" by (simp add: sort_step_def cmp_key)
    show ?thesis
    proof (intro allI impI)
      fix m assume m: "i \<le> m \<and> m < Suc n"
      show "key (fold (sort_step cmp i) [i + 1..<Suc n] xs ! i) \<le> key (fold (sort_step cmp i) [i + 1..<Suc n] xs ! m)"
        unfolding f sw using m ys Suc.prems False
        by (cases "m = n"; cases "m = i") (auto intro: order.trans less_imp_le)
    qed
  qed (auto simp: less_Suc_eq_le)
qed simp

lemma inner_range:
  "\<forall>j \<in> set js. i < j \<and> j < length xs \<Longrightarrow> i \<le> m \<Longrightarrow> m < length xs \<Longrightarrow>
   \<exists>m'. i \<le> m' \<and> m' < length xs \<and> fold (sort_step cmp i) js xs ! m = xs ! m'"
proof (induction js arbitrary: xs)
  case (Cons j js)
  then obtain m' where m': "i \<le> m'" "m' < length xs" "fold (sort_step cmp i) js (sort_step cmp i j xs) ! m = sort_step cmp i j xs ! m'"
    using Cons.IH [of "sort_step cmp i j xs"] by auto
  have j: "i < j" "j < length xs" using Cons.prems by simp_all
  then have "sort_step cmp i j xs ! m' = xs ! m' \<or> sort_step cmp i j xs ! m' = xs ! j \<or> sort_step cmp i j xs ! m' = xs ! i"
    using m' by (auto simp: sort_step_def nth_list_update)
  then show ?case using m' j by (auto intro: less_imp_le less_trans)
qed auto

lemma outer_sorted:
  assumes "k \<le> length xs"
  shows "mset (fold (\<lambda>i. fold (sort_step cmp i) [i + 1..<length xs]) [0..<k] xs) = mset xs \<and>
    (\<forall>i m. i < k \<and> i \<le> m \<and> m < length xs \<longrightarrow>
      key (fold (\<lambda>i. fold (sort_step cmp i) [i + 1..<length xs]) [0..<k] xs ! i) \<le> key (fold (\<lambda>i. fold (sort_step cmp i) [i + 1..<length xs]) [0..<k] xs ! m))"
  using assms
proof (induction k)
  case (Suc k)
  define zs where "zs = fold (\<lambda>i. fold (sort_step cmp i) [i + 1..<length xs]) [0..<k] xs"
  define ws where "ws = fold (sort_step cmp k) [k + 1..<length xs] zs"
  have zs: "mset zs = mset xs" "\<forall>i m. i < k \<and> i \<le> m \<and> m < length xs \<longrightarrow> key (zs ! i) \<le> key (zs ! m)" using Suc by (simp_all add: zs_def)
  have len: "length zs = length xs" using zs(1) by (rule mset_eq_length)
  have f: "fold (\<lambda>i. fold (sort_step cmp i) [i + 1..<length xs]) [0..<Suc k] xs = ws" by (simp add: zs_def ws_def)
  have mw: "mset ws = mset zs" unfolding ws_def using Suc.prems len by (intro inner_mset) auto
  have low: "ws ! i = zs ! i" if "i < k" for i unfolding ws_def by (rule inner_below) (use that in auto)
  have "key (ws ! i) \<le> key (ws ! m)" if im: "i < Suc k" "i \<le> m" "m < length xs" for i m
  proof (cases "i = k")
    case True
    then show ?thesis unfolding ws_def using inner_least [of k "length xs" zs] im len by simp
  next
    case False
    then have i: "i < k" using im by simp
    obtain m' where "ws ! m = zs ! m'" "i \<le> m'" "m' < length xs"
    proof (cases "m < k")
      case True
      then show ?thesis using that [of m] low im by simp
    next
      case False
      have "\<exists>m'. k \<le> m' \<and> m' < length zs \<and> ws ! m = zs ! m'" unfolding ws_def by (rule inner_range) (use False im len in auto)
      then show ?thesis using that i len by auto
    qed
    then show ?thesis using zs(2) i low [OF i] by simp
  qed
  then show ?case unfolding f using mw zs(1) by simp
qed simp

lemma sort_names_sorted: "mset (sort_names cmp xs) = mset xs \<and> sorted (map key (sort_names cmp xs))"
proof -
  define ys where "ys = sort_names cmp xs"
  have y: "mset ys = mset xs" "\<forall>i m. i < length xs - 1 \<and> i \<le> m \<and> m < length xs \<longrightarrow> key (ys ! i) \<le> key (ys ! m)"
    using outer_sorted [of "length xs - 1" xs] by (simp_all add: ys_def sort_names_def Let_def)
  have len: "length ys = length xs" using y(1) by (rule mset_eq_length)
  have "sorted (map key ys)" unfolding sorted_iff_nth_mono using y(2) len by (auto simp: le_less)
  then show ?thesis using y(1) by (simp add: ys_def)
qed

end

text \<open>Both comparisons of the code order by the codes of the characters.\<close>

lemma strcmp_sign: "strcmp a b > 0 \<longleftrightarrow> map of_char b < (map of_char a :: nat list)"
proof (induction a b rule: strcmp.induct)
  case (4 a as b bs)
  have "(of_char a - of_char b > (0 :: int)) \<longleftrightarrow> of_char b < (of_char a :: nat)"
    using of_nat_less_iff [of "of_char b :: nat" "of_char a :: nat", where 'a = int] by (simp add: of_nat_of_char)
  then show ?case using 4 by auto
qed simp_all

interpretation ascii: comparison strcmp "map of_char"
  by unfold_locales (rule strcmp_sign)

interpretation nocase: comparison strcasecmp "\<lambda>s. map (\<lambda>c. of_char (tolower c)) s"
  by unfold_locales (simp add: strcasecmp_def strcmp_sign comp_def)

subsection \<open>The names collected\<close>

text \<open>The entries a directory handle gives until an error or the end, and those after a match.\<close>

inductive readdir_gives :: "'d dir_env \<Rightarrow> 'd \<Rightarrow> FILINFO list \<Rightarrow> bool" for env where
  readdir_end: "f_readdir env d = (res, fno, d1) \<Longrightarrow> res \<or> fname fno = [] \<Longrightarrow> readdir_gives env d []"
| readdir_entry: "f_readdir env d = (False, fno, d1) \<Longrightarrow> fname fno \<noteq> [] \<Longrightarrow> readdir_gives env d1 es \<Longrightarrow> readdir_gives env d (fno # es)"

inductive findnext_gives :: "'d dir_env \<Rightarrow> 'd \<Rightarrow> FILINFO list \<Rightarrow> bool" for env where
  findnext_end: "f_findnext env d = (res, fno, d1) \<Longrightarrow> res \<or> fname fno = [] \<Longrightarrow> findnext_gives env d []"
| findnext_entry: "f_findnext env d = (False, fno, d1) \<Longrightarrow> fname fno \<noteq> [] \<Longrightarrow> findnext_gives env d1 es \<Longrightarrow> findnext_gives env d (fno # es)"

definition names_wanted :: "(FILINFO \<Rightarrow> bool) \<Rightarrow> FILINFO list \<Rightarrow> string list" where
  "names_wanted wanted es = map fname (filter wanted es)"

lemma take_room: "n < 64 \<Longrightarrow> take (64 - n) (x # xs) = x # take (63 - n) xs"
  by (simp add: take_Cons')

lemma readdir_loop_collects:
  assumes "readdir_gives env d es" "length data < 64"
  shows "readdir_loop env wanted d data = Some (take 64 (data @ names_wanted wanted es))"
  using assms
proof (induction arbitrary: data)
  case (readdir_end d res fno d1)
  then show ?case by (subst readdir_loop.simps) (simp add: names_wanted_def)
next
  case (readdir_entry d fno d1 es)
  then show ?case by (subst readdir_loop.simps) (auto simp: names_wanted_def DIR_MAX_ENTRIES_def not_le take_room)
qed

lemma findnext_loop_collects:
  assumes "findnext_gives env d es" "length data < 64"
  shows "findnext_loop env wanted fno d data = Some (take 64 (data @ names_wanted wanted (fno # es)))"
  using assms
proof (induction arbitrary: data fno)
  case (findnext_end d res fno1 d1)
  then show ?case by (subst findnext_loop.simps) (auto simp: names_wanted_def DIR_MAX_ENTRIES_def Let_def take_room)
next
  case (findnext_entry d fno1 d1 es)
  show ?case
  proof (cases "wanted fno \<and> 63 \<le> length data")
    case True
    then show ?thesis using findnext_entry.prems by (subst findnext_loop.simps) (simp add: names_wanted_def DIR_MAX_ENTRIES_def Let_def take_room)
  next
    case False
    then have "length (if wanted fno then data @ [fname fno] else data) < 64" using findnext_entry.prems by auto
    note IH = findnext_entry.IH [OF this, of fno1]
    show ?thesis using False IH findnext_entry.hyps by (subst findnext_loop.simps) (auto simp: names_wanted_def DIR_MAX_ENTRIES_def Let_def take_room)
  qed
qed

text \<open>What a listing is made from: the entries of the directory, or of the matches.\<close>

inductive dir_source :: "'d dir_env \<Rightarrow> string \<Rightarrow> string option \<Rightarrow> FILINFO list \<Rightarrow> bool" for env where
  source_no_dir: "f_opendir env dir = (True, d) \<Longrightarrow> dir_source env dir None []"
| source_dir: "f_opendir env dir = (False, d) \<Longrightarrow> readdir_gives env d es \<Longrightarrow> dir_source env dir None es"
| source_no_match: "f_findfirst env dir pat = (res, fno, d) \<Longrightarrow> res \<or> fname fno = [] \<Longrightarrow> dir_source env dir (Some pat) []"
| source_match: "f_findfirst env dir pat = (False, fno, d) \<Longrightarrow> fname fno \<noteq> [] \<Longrightarrow> findnext_gives env d es \<Longrightarrow> dir_source env dir (Some pat) (fno # es)"

definition listed :: "string option \<Rightarrow> u32 \<Rightarrow> FILINFO list \<Rightarrow> string list" where
  "listed pattern flags es = names_wanted (dir_wanted (pattern = None \<and> flags AND DIR_SHOW_DIRS \<noteq> 0) (flags AND DIR_SHOW_HIDDEN \<noteq> 0)) es"

definition order_key :: "u32 \<Rightarrow> string \<Rightarrow> nat list" where
  "order_key flags s = map (\<lambda>c. of_char (if flags AND DIR_ASCII_ORDER \<noteq> 0 then c else tolower c)) s"

lemma dirlist_collects:
  assumes "dir_source env dir pattern es"
  shows "dirlist env dir pattern flags = Some (case take 64 (listed pattern flags es) of [] \<Rightarrow> None
    | n # ns \<Rightarrow> Some (sort_names (if flags AND DIR_ASCII_ORDER \<noteq> 0 then strcmp else strcasecmp) (terminate_names (n # ns))))"
  using assms
proof cases
  case (source_no_dir d)
  then show ?thesis by (simp add: dirlist_def listed_def names_wanted_def)
next
  case (source_dir d)
  then show ?thesis using readdir_loop_collects [OF source_dir(3), of "[]"]
    by (simp add: dirlist_def listed_def Let_def split: list.split)
next
  case (source_no_match pat res fno d)
  then show ?thesis by (simp add: dirlist_def listed_def names_wanted_def)
next
  case (source_match pat fno d es)
  then show ?thesis using findnext_loop_collects [OF source_match(5), of "[]"]
    by (simp add: dirlist_def listed_def Let_def split: list.split)
qed

lemma sort_flags_sorted:
  "mset (sort_names (if flags AND DIR_ASCII_ORDER \<noteq> 0 then strcmp else strcasecmp) xs) = mset xs \<and>
   sorted (map (order_key flags) (sort_names (if flags AND DIR_ASCII_ORDER \<noteq> 0 then strcmp else strcasecmp) xs))"
  using ascii.sort_names_sorted [of xs] nocase.sort_names_sorted [of xs] by (simp add: order_key_def [abs_def])


text \<open>
  A directory with 64 or more names to list loses the first one it gives: the null pointer that ends
  the list overwrites that name, and the listing has an empty name in its place.
\<close>

theorem dirlist_full_loses_first:
  assumes "dir_source env dir pattern es" "listed pattern flags es = n # ns" "63 \<le> length ns"
  shows "\<exists>l. dirlist env dir pattern flags = Some (Some l) \<and> mset l = mset ([] # take 63 ns) \<and> sorted (map (order_key flags) l)"
proof -
  have t: "take 64 (n # ns) = n # take 63 ns" by (simp add: take_Cons')
  have "terminate_names (n # take 63 ns) = [] # take 63 ns" using assms(3) by (simp add: terminate_names_def DIR_MAX_ENTRIES_def)
  then show ?thesis using dirlist_collects [OF assms(1), of flags] assms(2) t sort_flags_sorted [of flags "[] # take 63 ns"] by simp
qed

subsection \<open>An instance\<close>

text \<open>A directory that is a list of its entries.\<close>

definition demo_dir :: "FILINFO list \<Rightarrow> FILINFO list dir_env" where
  "demo_dir es = (let step = (\<lambda>d. case d of [] \<Rightarrow> (False, \<lparr>fname = [], fattrib = 0\<rparr>, []) | e # r \<Rightarrow> (False, e, r))
     in \<lparr>f_opendir = (\<lambda>p. (False, es)), f_readdir = step, f_findfirst = (\<lambda>p q. step es), f_findnext = step\<rparr>)"

lemma demo_dir_gives: "\<forall>e \<in> set l. fname e \<noteq> [] \<Longrightarrow> readdir_gives (demo_dir es) l l"
proof (induction l)
  case Nil
  show ?case by (rule readdir_end [of _ _ False "\<lparr>fname = [], fattrib = 0\<rparr>" "[]"]) (simp_all add: demo_dir_def Let_def)
next
  case (Cons e l)
  then show ?case by (intro readdir_entry [of _ _ e l]) (simp_all add: demo_dir_def Let_def)
qed

lemma demo_dir_source: "\<forall>e \<in> set es. fname e \<noteq> [] \<Longrightarrow> dir_source (demo_dir es) p None es"
  by (rule source_dir [of _ _ es]) (simp_all add: demo_dir_gives, simp add: demo_dir_def Let_def)



definition demo_many :: "FILINFO list" where
  "demo_many = \<lparr>fname = ''z'', fattrib = 0\<rparr> # replicate 63 \<lparr>fname = ''y'', fattrib = 0\<rparr>"

theorem dirlist_full_loses_first_witness:
  "dir_source (demo_dir demo_many) ''ini'' None demo_many \<and>
   (\<exists>l. dirlist (demo_dir demo_many) ''ini'' None 0 = Some (Some l) \<and> ''z'' \<notin> set l \<and> [] \<in> set l)"
proof -
  have s: "dir_source (demo_dir demo_many) ''ini'' None demo_many" by (rule demo_dir_source) (simp add: demo_many_def)
  have l: "listed None 0 demo_many = ''z'' # replicate 63 ''y''"
    by (simp add: listed_def names_wanted_def demo_many_def dir_wanted_def dir_visible_def AM_DIR_def AM_HID_def DIR_SHOW_DIRS_def map_replicate filter_replicate)
  obtain ns where ns: "dirlist (demo_dir demo_many) ''ini'' None 0 = Some (Some ns)" "mset ns = mset ([] # take 63 (replicate 63 ''y''))"
    using dirlist_full_loses_first [OF s l] by auto
  then have "set ns = set ([] # take 63 (replicate 63 ''y''))" by (rule_tac mset_eq_setD)
  then show ?thesis using s ns(1) by auto
qed

end
