(* ===== verification/Ini.thy ===== *)
theory Ini
  imports Dirlist Util
begin

text \<open>
  Configuration files, \<open>bdk/utils/ini.c\<close>: sections, captions, comments, empty lines and key/value
  pairs, from one file or from all files of a directory. A list of sections is the sequence of its
  members. A file is the string of its characters; lines are read with FatFs' \<open>f_gets\<close>, modelled here
  for the build's configuration (no conversion, carriage returns removed).
\<close>

subsection \<open>Data\<close>

definition INI_CHOICE :: u32 where "INI_CHOICE = 3"
definition INI_CAPTION :: u32 where "INI_CAPTION = 5"
definition INI_NEWLINE :: u32 where "INI_NEWLINE = 0xFE"
definition INI_COMMENT :: u32 where "INI_COMMENT = 0xFF"

record ini_kv_t =
  kv_key :: string
  kv_val :: string

record ini_sec_t =
  sec_name :: "string option"
  sec_kvs :: "ini_kv_t list"
  sec_type :: u32
  sec_color :: u32

definition NUL :: char where "NUL = CHR 0x00"
definition LF :: char where "LF = CHR 0x0A"
definition CR :: char where "CR = CHR 0x0D"

text \<open>The string at an offset of a buffer; \<open>None\<close> when it does not end inside the buffer.\<close>

definition cstr :: "string \<Rightarrow> nat \<Rightarrow> string option" where
  "cstr buf i = (if NUL \<in> set (drop i buf) then Some (takeWhile (\<lambda>c. c \<noteq> NUL) (drop i buf)) else None)"

subsection \<open>Reading lines\<close>

fun f_gets :: "nat \<Rightarrow> string \<Rightarrow> string \<times> string" where
  "f_gets 0 content = ([], content)"
| "f_gets (Suc n) [] = ([], [])"
| "f_gets (Suc n) (c # cs) =
     (if c = CR then f_gets (Suc n) cs
      else if c = LF then ([c], cs)
      else let (s, r) = f_gets n cs in (c # s, r))"

text \<open>A line in the buffer: its characters, the terminator, and what the buffer held before.\<close>

definition put_line :: "string \<Rightarrow> string \<Rightarrow> string" where
  "put_line s lbuf = s @ [NUL] @ drop (length s + 1) lbuf"

subsection \<open>Parsing\<close>

definition find_section_name :: "string \<Rightarrow> nat \<Rightarrow> char \<Rightarrow> nat \<times> string" where
  "find_section_name lbuf lblen schar =
     (let i = length (takeWhile (\<lambda>c. c \<noteq> schar \<and> c \<noteq> LF) (take lblen lbuf)) in (i, lbuf[i := NUL]))"

text \<open>The section at hand is appended when the next one starts.\<close>

definition ini_create_section :: "ini_sec_t list \<Rightarrow> ini_sec_t option \<Rightarrow> string option \<Rightarrow> u32 \<Rightarrow> ini_sec_t list \<times> ini_sec_t" where
  "ini_create_section dst csec name type =
     ((case csec of None \<Rightarrow> dst | Some c \<Rightarrow> dst @ [c]),
      \<lparr>sec_name = strcpy_ns True name, sec_kvs = [], sec_type = type, sec_color = 0\<rparr>)"

text \<open>
  One line. The state is the list, the section at hand and the line buffer; no result is a string that
  is read past the end of the buffer.
\<close>

type_synonym ini_state = "ini_sec_t list \<times> ini_sec_t option \<times> string"

definition ini_line :: "string \<Rightarrow> ini_state \<Rightarrow> ini_state option" where
  "ini_line s st =
     (case st of (dst, csec, lbuf0) \<Rightarrow>
        let lbuf1 = put_line s lbuf0;
            lblen = length (takeWhile (\<lambda>c. c \<noteq> NUL) s);
            lbuf = (if lblen \<noteq> 0 \<and> lbuf1 ! (lblen - 1) = LF then lbuf1[lblen - 1 := NUL] else lbuf1)
        in if lblen > 2 \<and> lbuf ! 0 = CHR ''['' then
             let (i, b) = find_section_name lbuf lblen (CHR '']'')
             in (case cstr b 1 of None \<Rightarrow> None
                 | Some n \<Rightarrow> let (d, c) = ini_create_section dst csec (Some n) INI_CHOICE in Some (d, Some c, b))
           else if lblen > 1 \<and> lbuf ! 0 = CHR ''{'' then
             let (i, b) = find_section_name lbuf lblen (CHR ''}'')
             in (case cstr b 1 of None \<Rightarrow> None
                 | Some n \<Rightarrow> let (d, c) = ini_create_section dst csec (Some n) INI_CAPTION in Some (d, Some (c\<lparr>sec_color := 0xFF0AB9E6\<rparr>), b))
           else if lblen > 2 \<and> lbuf ! 0 = CHR ''#'' then
             (case cstr lbuf 1 of None \<Rightarrow> None
              | Some n \<Rightarrow> let (d, c) = ini_create_section dst csec (Some n) INI_COMMENT in Some (d, Some c, lbuf))
           else if lblen < 2 then
             let (d, c) = ini_create_section dst csec None INI_NEWLINE in Some (d, Some c, lbuf)
           else case csec of
               None \<Rightarrow> Some (dst, csec, lbuf)
             | Some c \<Rightarrow>
                 if sec_type c = INI_CHOICE
                 then let (i, b) = find_section_name lbuf lblen (CHR ''='')
                      in (case (cstr b 0, cstr b (i + 1)) of
                            (Some k, Some v) \<Rightarrow>
                              (case (strcpy_ns True (Some k), strcpy_ns True (Some v)) of
                                 (Some key, Some val) \<Rightarrow> Some (dst, Some (c\<lparr>sec_kvs := sec_kvs c @ [\<lparr>kv_key = key, kv_val = val\<rparr>]\<rparr>), b)
                               | _ \<Rightarrow> None)
                          | _ \<Rightarrow> None)
                 else Some (dst, csec, lbuf))"

lemma f_gets_Nil [simp]: "f_gets n [] = ([], [])"
  by (cases n) simp_all

lemma f_gets_shrinks: "length (snd (f_gets n content)) \<le> length content"
  by (induction n content rule: f_gets.induct) (auto simp: split_def Let_def)

lemma f_gets_consumes: "content \<noteq> [] \<Longrightarrow> 0 < n \<Longrightarrow> length (snd (f_gets n content)) < length content"
proof (induction n content rule: f_gets.induct)
  case (3 n c cs)
  then show ?case using f_gets_shrinks [of "Suc n" cs] f_gets_shrinks [of n cs] by (auto simp: split_def Let_def)
qed simp_all

text \<open>All lines of a file: one is read before the end is looked for.\<close>

function ini_lines :: "string \<Rightarrow> ini_state \<Rightarrow> ini_state option" where
  "ini_lines content st =
     (let (s, rest) = f_gets 511 content
      in case ini_line s st of None \<Rightarrow> None | Some st1 \<Rightarrow> if rest = [] then Some st1 else ini_lines rest st1)"
  by pat_completeness auto
termination
proof (relation "measure (\<lambda>(content, st). length content)", goal_cases)
  case (2 content st x s rest st1)
  have "content \<noteq> []" using 2 by auto
  then show ?case using 2 f_gets_consumes [of content 511] by (cases "f_gets 511 content") simp
qed simp

declare ini_lines.simps [simp del]

text \<open>A file opened and parsed; \<open>junk\<close> is what the allocated line buffer holds.\<close>

definition ini_file :: "string \<Rightarrow> string \<Rightarrow> ini_sec_t list \<Rightarrow> ini_sec_t option \<Rightarrow> (ini_sec_t list \<times> ini_sec_t option) option" where
  "ini_file junk content dst csec =
     (case ini_lines content (dst, csec, junk) of
        None \<Rightarrow> None
      | Some (dst1, csec1, lbuf) \<Rightarrow> Some ((case csec1 of None \<Rightarrow> dst1 | Some c \<Rightarrow> dst1 @ [c]), csec1))"

record 'd ini_env =
  ini_dirs :: "'d dir_env"
  f_open :: "string \<Rightarrow> string option"
  malloc_junk :: string

text \<open>
  \<open>True\<close> is the result 1; sections parsed before an error stay in the list. The path is built in a buffer of
  256 characters: no result is a longer path, or a string read past the line buffer.
\<close>

fun ini_files :: "'d ini_env \<Rightarrow> string \<Rightarrow> string list \<Rightarrow> ini_sec_t list \<Rightarrow> (bool \<times> ini_sec_t list) option" where
  "ini_files env path [] dst = Some (False, dst)"
| "ini_files env path (n # ns) dst =
     (if length (path @ n) \<ge> 256 then None
      else case f_open env (path @ n) of
        None \<Rightarrow> Some (True, dst)
      | Some content \<Rightarrow> (case ini_file (malloc_junk env) content dst None of None \<Rightarrow> None | Some (dst1, c) \<Rightarrow> ini_files env path ns dst1))"

definition ini_parse :: "'d ini_env \<Rightarrow> ini_sec_t list \<Rightarrow> string \<Rightarrow> bool \<Rightarrow> (bool \<times> ini_sec_t list) option" where
  "ini_parse env dst ini_path is_dir =
     (if length ini_path + (if is_dir then 1 else 0) \<ge> 256 then None
      else if is_dir then
        (case dirlist (ini_dirs env) ini_path (Some ''*.ini'') DIR_ASCII_ORDER of
           None \<Rightarrow> None
         | Some None \<Rightarrow> Some (True, dst)
         | Some (Some names) \<Rightarrow> ini_files env (ini_path @ ''/'') names dst)
      else
        (case f_open env ini_path of
           None \<Rightarrow> Some (True, dst)
         | Some content \<Rightarrow> (case ini_file (malloc_junk env) content dst None of None \<Rightarrow> None | Some (dst1, c) \<Rightarrow> Some (False, dst1))))"

text \<open>\<open>Inl\<close> is the special result for a Linux entry, \<open>Inr\<close> the payload.\<close>

fun special_loop :: "ini_kv_t list \<Rightarrow> (unit + string) option" where
  "special_loop [] = None"
| "special_loop (kv # kvs) =
     (if kv_key kv = ''l4t'' then (if take 1 (kv_val kv) = ''1'' then Some (Inl ()) else None)
      else if kv_key kv = ''payload'' then Some (Inr (kv_val kv))
      else special_loop kvs)"

definition ini_check_special_section :: "ini_sec_t option \<Rightarrow> (unit + string) option" where
  "ini_check_special_section cfg = (case cfg of None \<Rightarrow> None | Some c \<Rightarrow> special_loop (sec_kvs c))"

subsection \<open>Lines\<close>

text \<open>Text that a line can carry: no control characters the parser looks at, no space at either end.\<close>

definition plain_text :: "string \<Rightarrow> bool" where
  "plain_text s \<longleftrightarrow> NUL \<notin> set s \<and> LF \<notin> set s \<and> CR \<notin> set s"

definition trimmed :: "string \<Rightarrow> bool" where
  "trimmed s \<longleftrightarrow> s = [] \<or> hd s \<noteq> CHR '' '' \<and> last s \<noteq> CHR '' ''"

lemma strcpy_ns_trimmed: "trimmed s \<Longrightarrow> strcpy_ns True (Some s) = Some s"
  by (auto simp: trimmed_def strcpy_ns_def Let_def)

lemma NUL_LF [simp]: "NUL \<noteq> LF" "LF \<noteq> NUL" "LF \<noteq> CR" "CR \<noteq> LF" by (simp_all add: NUL_def LF_def CR_def)

lemma takeWhile_stop: "\<not> P y \<Longrightarrow> \<forall>x \<in> set xs. P x \<Longrightarrow> takeWhile P (xs @ y # zs) = xs"
  by (induction xs) auto

lemma takeWhile_neq: "y \<notin> set xs \<Longrightarrow> takeWhile (\<lambda>c. c \<noteq> y) (xs @ y # zs) = xs"
  by (induction xs) auto

lemma cstr_at: "NUL \<notin> set s \<Longrightarrow> cstr (pre @ s @ NUL # post) (length pre) = Some s"
  by (simp add: cstr_def takeWhile_neq)

lemma f_gets_line: "plain_text t \<Longrightarrow> length t < n \<Longrightarrow> f_gets n (t @ LF # rest) = (t @ [LF], rest)"
proof (induction t arbitrary: n)
  case Nil
  then show ?case by (cases n) simp_all
next
  case (Cons c t)
  obtain m where m: "n = Suc m" using Cons.prems(2) by (cases n) auto
  have "f_gets m (t @ LF # rest) = (t @ [LF], rest)" using Cons m by (simp add: plain_text_def)
  then show ?case using Cons.prems(1) m by (auto simp: plain_text_def)
qed

text \<open>The buffer after a line has been fetched and its end removed.\<close>

definition fetched :: "string \<Rightarrow> string \<Rightarrow> string" where
  "fetched t lbuf = t @ NUL # NUL # drop (length t + 2) lbuf"

lemma fetched_length: "length t + 2 \<le> length lbuf \<Longrightarrow> length (fetched t lbuf) = length lbuf"
  by (simp add: fetched_def)

lemma line_buffer:
  assumes "plain_text t"
  shows "length (takeWhile (\<lambda>c. c \<noteq> NUL) (t @ [LF])) = length t + 1"
    "(if length t + 1 \<noteq> 0 \<and> put_line (t @ [LF]) lbuf ! (length t + 1 - 1) = LF then (put_line (t @ [LF]) lbuf)[length t + 1 - 1 := NUL]
      else put_line (t @ [LF]) lbuf) = fetched t lbuf"
proof -
  have "takeWhile (\<lambda>c. c \<noteq> NUL) (t @ [LF]) = t @ [LF]" using assms by (auto simp: takeWhile_eq_all_conv plain_text_def)
  then show "length (takeWhile (\<lambda>c. c \<noteq> NUL) (t @ [LF])) = length t + 1" by simp
  show "(if length t + 1 \<noteq> 0 \<and> put_line (t @ [LF]) lbuf ! (length t + 1 - 1) = LF then (put_line (t @ [LF]) lbuf)[length t + 1 - 1 := NUL]
      else put_line (t @ [LF]) lbuf) = fetched t lbuf"
    by (simp add: put_line_def fetched_def nth_append list_update_append)
qed

lemma find_in_line:
  assumes "plain_text a" "s \<notin> set a" "s \<noteq> NUL"
  shows "find_section_name (fetched (a @ s # b) lbuf) (length (a @ s # b) + 1) s =
    (length a, a @ NUL # b @ NUL # NUL # drop (length (a @ s # b) + 2) lbuf)"
proof -
  have "takeWhile (\<lambda>c. c \<noteq> s \<and> c \<noteq> LF) (a @ s # b @ [NUL]) = a"
    by (rule takeWhile_stop) (use assms in \<open>auto simp: plain_text_def\<close>)
  then show ?thesis by (simp add: find_section_name_def fetched_def Let_def list_update_append)
qed

lemma find_not_in_line:
  assumes "plain_text a" "s \<notin> set a" "s \<noteq> NUL"
  shows "find_section_name (fetched a lbuf) (length a + 1) s = (length a + 1, fetched a lbuf)"
proof -
  have "takeWhile (\<lambda>c. c \<noteq> s \<and> c \<noteq> LF) (a @ [NUL]) = a @ [NUL]"
    using assms by (auto simp: plain_text_def takeWhile_eq_all_conv)
  then show ?thesis by (simp add: find_section_name_def fetched_def Let_def list_update_append)
qed

definition close_sec :: "ini_sec_t list \<Rightarrow> ini_sec_t option \<Rightarrow> ini_sec_t list" where
  "close_sec dst csec = (case csec of None \<Rightarrow> dst | Some c \<Rightarrow> dst @ [c])"

definition new_sec :: "string option \<Rightarrow> u32 \<Rightarrow> u32 \<Rightarrow> ini_sec_t" where
  "new_sec n t col = \<lparr>sec_name = n, sec_kvs = [], sec_type = t, sec_color = col\<rparr>"

lemma ini_line_choice:
  assumes "plain_text n" "CHR '']'' \<notin> set n" "trimmed n" "length lbuf = 512" "length n \<le> 508"
  shows "\<exists>b. ini_line (CHR ''['' # n @ [CHR '']'', LF]) (dst, csec, lbuf) = Some (close_sec dst csec, Some (new_sec (Some n) INI_CHOICE 0), b) \<and> length b = 512"
proof -
  define t where "t = CHR ''['' # n @ [CHR '']'']"
  have t: "plain_text t" using assms(1) by (simp add: t_def plain_text_def NUL_def LF_def CR_def)
  have s: "CHR ''['' # n @ [CHR '']'', LF] = t @ [LF]" by (simp add: t_def)
  define b where "b = (CHR ''['' # n) @ NUL # [] @ NUL # NUL # drop (length t + 2) lbuf"
  have f: "find_section_name (fetched t lbuf) (length t + 1) (CHR '']'') = (length n + 1, b)"
    using find_in_line [of "CHR ''['' # n" "CHR '']''" "[]" lbuf] assms(1,2) by (simp add: t_def b_def plain_text_def NUL_def LF_def CR_def)
  have c: "cstr b 1 = Some n" using cstr_at [of n "[CHR ''['']"] assms(1) by (simp add: b_def plain_text_def)
  have h: "fetched t lbuf ! 0 = CHR ''[''" "2 < length t + 1" by (simp_all add: fetched_def t_def)
  have "ini_line (t @ [LF]) (dst, csec, lbuf) = Some (close_sec dst csec, Some (new_sec (Some n) INI_CHOICE 0), b)"
    unfolding ini_line_def prod.case Let_def line_buffer [OF t] using h
    by (simp add: f [simplified] c [simplified] ini_create_section_def strcpy_ns_trimmed [OF assms(3)] close_sec_def new_sec_def)
  moreover have "length b = 512" using assms(4,5) by (simp add: b_def t_def)
  ultimately show ?thesis unfolding s by blast
qed

lemma ini_line_caption:
  assumes "plain_text n" "CHR ''}'' \<notin> set n" "trimmed n" "length lbuf = 512" "length n \<le> 508"
  shows "\<exists>b. ini_line (CHR ''{'' # n @ [CHR ''}'', LF]) (dst, csec, lbuf) = Some (close_sec dst csec, Some (new_sec (Some n) INI_CAPTION 0xFF0AB9E6), b) \<and> length b = 512"
proof -
  define t where "t = CHR ''{'' # n @ [CHR ''}'']"
  have t: "plain_text t" using assms(1) by (simp add: t_def plain_text_def NUL_def LF_def CR_def)
  have s: "CHR ''{'' # n @ [CHR ''}'', LF] = t @ [LF]" by (simp add: t_def)
  define b where "b = (CHR ''{'' # n) @ NUL # [] @ NUL # NUL # drop (length t + 2) lbuf"
  have f: "find_section_name (fetched t lbuf) (length t + 1) (CHR ''}'') = (length n + 1, b)"
    using find_in_line [of "CHR ''{'' # n" "CHR ''}''" "[]" lbuf] assms(1,2) by (simp add: t_def b_def plain_text_def NUL_def LF_def CR_def)
  have c: "cstr b 1 = Some n" using cstr_at [of n "[CHR ''{'']"] assms(1) by (simp add: b_def plain_text_def)
  have h: "fetched t lbuf ! 0 = CHR ''{''" "1 < length t + 1" by (simp_all add: fetched_def t_def)
  have "ini_line (t @ [LF]) (dst, csec, lbuf) = Some (close_sec dst csec, Some (new_sec (Some n) INI_CAPTION 0xFF0AB9E6), b)"
    unfolding ini_line_def prod.case Let_def line_buffer [OF t] using h
    by (simp add: f [simplified] c [simplified] ini_create_section_def strcpy_ns_trimmed [OF assms(3)] close_sec_def new_sec_def)
  moreover have "length b = 512" using assms(4,5) by (simp add: b_def t_def)
  ultimately show ?thesis unfolding s by blast
qed

lemma ini_line_comment:
  assumes "plain_text n" "trimmed n" "n \<noteq> []" "length lbuf = 512" "length n \<le> 509"
  shows "\<exists>b. ini_line (CHR ''#'' # n @ [LF]) (dst, csec, lbuf) = Some (close_sec dst csec, Some (new_sec (Some n) INI_COMMENT 0), b) \<and> length b = 512"
proof -
  define t where "t = CHR ''#'' # n"
  have t: "plain_text t" using assms(1) by (simp add: t_def plain_text_def NUL_def LF_def CR_def)
  have s: "CHR ''#'' # n @ [LF] = t @ [LF]" by (simp add: t_def)
  have c: "cstr (fetched t lbuf) 1 = Some n" using cstr_at [of n "[CHR ''#'']"] assms(1) by (simp add: fetched_def t_def plain_text_def)
  have h: "fetched t lbuf ! 0 = CHR ''#''" "2 < length t + 1" using assms(3) by (simp_all add: fetched_def t_def)
  have "ini_line (t @ [LF]) (dst, csec, lbuf) = Some (close_sec dst csec, Some (new_sec (Some n) INI_COMMENT 0), fetched t lbuf)"
    unfolding ini_line_def prod.case Let_def line_buffer [OF t] using h
    by (simp add: c [simplified] ini_create_section_def strcpy_ns_trimmed [OF assms(2)] close_sec_def new_sec_def)
  moreover have "length (fetched t lbuf) = 512" using assms(4,5) by (simp add: fetched_length t_def)
  ultimately show ?thesis unfolding s by blast
qed

lemma ini_line_empty:
  assumes "length lbuf = 512"
  shows "\<exists>b. ini_line [LF] (dst, csec, lbuf) = Some (close_sec dst csec, Some (new_sec None INI_NEWLINE 0), b) \<and> length b = 512"
proof -
  have t: "plain_text []" by (simp add: plain_text_def)
  have "ini_line ([] @ [LF]) (dst, csec, lbuf) = Some (close_sec dst csec, Some (new_sec None INI_NEWLINE 0), fetched [] lbuf)"
    unfolding ini_line_def prod.case Let_def line_buffer [OF t]
    by (simp add: ini_create_section_def strcpy_ns_def close_sec_def new_sec_def)
  moreover have "length (fetched [] lbuf) = 512" using assms by (simp add: fetched_length)
  ultimately show ?thesis by auto
qed

text \<open>A line that starts none of the other kinds, in a section.\<close>

definition pair_line :: "string \<Rightarrow> bool" where
  "pair_line t \<longleftrightarrow> plain_text t \<and> t \<noteq> [] \<and> hd t \<notin> {CHR ''['', CHR ''{'', CHR ''#''}"

lemma ini_line_pair:
  assumes "pair_line t" "sec_type c = INI_CHOICE"
  shows "ini_line (t @ [LF]) (dst, Some c, lbuf) =
    (let (i, b) = find_section_name (fetched t lbuf) (length t + 1) (CHR ''='')
     in (case (cstr b 0, cstr b (i + 1)) of
           (Some k, Some v) \<Rightarrow>
             (case (strcpy_ns True (Some k), strcpy_ns True (Some v)) of
                (Some key, Some val) \<Rightarrow> Some (dst, Some (c\<lparr>sec_kvs := sec_kvs c @ [\<lparr>kv_key = key, kv_val = val\<rparr>]\<rparr>), b)
              | _ \<Rightarrow> None)
         | _ \<Rightarrow> None))"
proof -
  have t: "plain_text t" using assms(1) by (simp add: pair_line_def)
  obtain x xs where x: "t = x # xs" using assms(1) by (cases t) (auto simp: pair_line_def)
  then have h: "fetched t lbuf ! 0 = x" "x \<notin> {CHR ''['', CHR ''{'', CHR ''#''}" "\<not> length t + 1 < 2"
    using assms(1) by (auto simp: fetched_def pair_line_def)
  show ?thesis unfolding ini_line_def prod.case Let_def line_buffer [OF t] using h assms(2) by simp
qed

lemma ini_line_kv:
  assumes "plain_text k" "plain_text v" "CHR ''='' \<notin> set k" "trimmed k" "trimmed v" "k = [] \<or> hd k \<notin> {CHR ''['', CHR ''{'', CHR ''#''}"
    "length lbuf = 512" "length k + length v \<le> 509" "sec_type c = INI_CHOICE"
  shows "\<exists>b. ini_line (k @ CHR ''='' # v @ [LF]) (dst, Some c, lbuf) =
    Some (dst, Some (c\<lparr>sec_kvs := sec_kvs c @ [\<lparr>kv_key = k, kv_val = v\<rparr>]\<rparr>), b) \<and> length b = 512"
proof -
  define t where "t = k @ CHR ''='' # v"
  have t: "pair_line t" using assms(1,2,6) by (cases k) (auto simp: t_def pair_line_def plain_text_def NUL_def LF_def CR_def)
  have s: "k @ CHR ''='' # v @ [LF] = t @ [LF]" by (simp add: t_def)
  define b where "b = k @ NUL # v @ NUL # NUL # drop (length t + 2) lbuf"
  have f: "find_section_name (fetched t lbuf) (length t + 1) (CHR ''='') = (length k, b)"
    using find_in_line [of k "CHR ''=''" v lbuf] assms(1,3) by (simp add: t_def b_def NUL_def)
  have c: "cstr b 0 = Some k" "cstr b (length k + 1) = Some v"
    using cstr_at [of k "[]"] cstr_at [of v "k @ [NUL]"] assms(1,2) by (simp_all add: b_def plain_text_def)
  have "ini_line (t @ [LF]) (dst, Some c, lbuf) = Some (dst, Some (c\<lparr>sec_kvs := sec_kvs c @ [\<lparr>kv_key = k, kv_val = v\<rparr>]\<rparr>), b)"
    unfolding ini_line_pair [OF t assms(9)] f Let_def prod.case c by (simp add: strcpy_ns_trimmed assms(4,5))
  moreover have "length b = 512" using assms(7,8) by (simp add: b_def t_def)
  ultimately show ?thesis unfolding s by blast
qed

text \<open>
  A line of a section that has no equals sign becomes a pair whose value is left over from an
  earlier, longer line of the file.
\<close>

theorem ini_stale_value:
  assumes "pair_line t" "CHR ''='' \<notin> set t" "trimmed t" "length t + 2 \<le> 511" "length lbuf = 512" "lbuf ! 511 = NUL" "sec_type c = INI_CHOICE"
  shows "\<exists>v. cstr lbuf (length t + 2) = Some v \<and> ini_line (t @ [LF]) (dst, Some c, lbuf) =
    Some (dst, Some (c\<lparr>sec_kvs := sec_kvs c @ [\<lparr>kv_key = t, kv_val = the (strcpy_ns True (Some v))\<rparr>]\<rparr>), fetched t lbuf)"
proof -
  have p: "plain_text t" using assms(1) by (simp add: pair_line_def)
  have "NUL \<in> set (drop (length t + 2) lbuf)" unfolding in_set_conv_nth
    by (rule exI [of _ "511 - (length t + 2)"]) (use assms(4-6) in simp)
  then obtain v where v: "cstr lbuf (length t + 2) = Some v" by (simp add: cstr_def)
  have f: "find_section_name (fetched t lbuf) (length t + 1) (CHR ''='') = (length t + 1, fetched t lbuf)"
    by (rule find_not_in_line [OF p assms(2)]) (simp add: NUL_def)
  have d: "drop (length t + 2) (fetched t lbuf) = drop (length t + 2) lbuf" by (simp add: fetched_def)
  have "cstr (fetched t lbuf) (length t + 1 + 1) = Some v" using v d by (auto simp: cstr_def split: if_splits)
  moreover have "cstr (fetched t lbuf) 0 = Some t" using cstr_at [of t "[]"] p by (simp add: fetched_def plain_text_def)
  moreover obtain w where "strcpy_ns True (Some v) = Some w" by (simp add: strcpy_ns_def Let_def)
  ultimately have "ini_line (t @ [LF]) (dst, Some c, lbuf) =
    Some (dst, Some (c\<lparr>sec_kvs := sec_kvs c @ [\<lparr>kv_key = t, kv_val = the (strcpy_ns True (Some v))\<rparr>]\<rparr>), fetched t lbuf)"
    unfolding ini_line_pair [OF assms(1,7)] f Let_def prod.case by (simp add: strcpy_ns_trimmed assms(3))
  then show ?thesis using v by blast
qed

subsection \<open>Files\<close>

text \<open>How a configuration is written, line by line.\<close>

definition print_kv :: "ini_kv_t \<Rightarrow> string" where
  "print_kv kv = kv_key kv @ CHR ''='' # kv_val kv"

definition print_head :: "ini_sec_t \<Rightarrow> string" where
  "print_head s = (case sec_name s of None \<Rightarrow> []
     | Some n \<Rightarrow> if sec_type s = INI_CHOICE then CHR ''['' # n @ '']''
                else if sec_type s = INI_CAPTION then CHR ''{'' # n @ ''}''
                else CHR ''#'' # n)"

definition print_sec :: "ini_sec_t \<Rightarrow> string list" where
  "print_sec s = print_head s # map print_kv (sec_kvs s)"

definition print_ini :: "ini_sec_t list \<Rightarrow> string" where
  "print_ini secs = concat (map (\<lambda>l. l @ [LF]) (concat (map print_sec secs)))"

definition kv_ok :: "ini_kv_t \<Rightarrow> bool" where
  "kv_ok kv \<longleftrightarrow> plain_text (kv_key kv) \<and> plain_text (kv_val kv) \<and> trimmed (kv_key kv) \<and> trimmed (kv_val kv) \<and>
     CHR ''='' \<notin> set (kv_key kv) \<and> (kv_key kv = [] \<or> hd (kv_key kv) \<notin> {CHR ''['', CHR ''{'', CHR ''#''}) \<and>
     length (kv_key kv) + length (kv_val kv) \<le> 509"

text \<open>Sections a file can say.\<close>

definition sec_ok :: "ini_sec_t \<Rightarrow> bool" where
  "sec_ok s \<longleftrightarrow> (case sec_name s of
       None \<Rightarrow> s = new_sec None INI_NEWLINE 0
     | Some n \<Rightarrow> plain_text n \<and> trimmed n \<and> length n \<le> 508 \<and>
         (sec_type s = INI_CHOICE \<and> CHR '']'' \<notin> set n \<and> sec_color s = 0 \<and> list_all kv_ok (sec_kvs s) \<or>
          s = new_sec (Some n) INI_CAPTION 0xFF0AB9E6 \<and> CHR ''}'' \<notin> set n \<or>
          s = new_sec (Some n) INI_COMMENT 0 \<and> n \<noteq> []))"

fun run_lines :: "string list \<Rightarrow> ini_state \<Rightarrow> ini_state option" where
  "run_lines [] st = Some st"
| "run_lines (l # ls) st = (case ini_line (l @ [LF]) st of None \<Rightarrow> None | Some st1 \<Rightarrow> run_lines ls st1)"

lemma run_lines_append: "run_lines (as @ bs) st = (case run_lines as st of None \<Rightarrow> None | Some st1 \<Rightarrow> run_lines bs st1)"
  by (induction as arbitrary: st) (auto split: option.split)

lemma ini_lines_run:
  assumes "ls \<noteq> []" "\<forall>l \<in> set ls. plain_text l \<and> length l < 511"
  shows "ini_lines (concat (map (\<lambda>l. l @ [LF]) ls)) st = run_lines ls st"
  using assms
proof (induction ls arbitrary: st)
  case (Cons l ls)
  have g: "f_gets 511 (concat (map (\<lambda>l. l @ [LF]) (l # ls))) = (l @ [LF], concat (map (\<lambda>l. l @ [LF]) ls))"
    using f_gets_line [of l 511 "concat (map (\<lambda>l. l @ [LF]) ls)"] Cons.prems by simp
  have "concat (map (\<lambda>l. l @ [LF]) ls) = [] \<longleftrightarrow> ls = []" by (cases ls) simp_all
  then have "ini_lines (concat (map (\<lambda>l. l @ [LF]) (l # ls))) st =
      (case ini_line (l @ [LF]) st of None \<Rightarrow> None | Some st1 \<Rightarrow> if ls = [] then Some st1 else ini_lines (concat (map (\<lambda>l. l @ [LF]) ls)) st1)"
    by (subst ini_lines.simps) (simp only: g prod.case Let_def)
  then show ?case using Cons by (auto split: option.split)
qed simp

lemma run_pairs:
  assumes "list_all kv_ok kvs" "length lbuf = 512" "sec_type c = INI_CHOICE"
  shows "\<exists>b. run_lines (map print_kv kvs) (dst, Some c, lbuf) = Some (dst, Some (c\<lparr>sec_kvs := sec_kvs c @ kvs\<rparr>), b) \<and> length b = 512"
  using assms
proof (induction kvs arbitrary: c lbuf)
  case (Cons kv kvs)
  define c1 where "c1 = c\<lparr>sec_kvs := sec_kvs c @ [kv]\<rparr>"
  have kv: "plain_text (kv_key kv)" "plain_text (kv_val kv)" "CHR ''='' \<notin> set (kv_key kv)" "trimmed (kv_key kv)" "trimmed (kv_val kv)"
    "kv_key kv = [] \<or> hd (kv_key kv) \<notin> {CHR ''['', CHR ''{'', CHR ''#''}" "length (kv_key kv) + length (kv_val kv) \<le> 509"
    using Cons.prems(1) by (simp_all add: kv_ok_def)
  obtain b where b: "ini_line (print_kv kv @ [LF]) (dst, Some c, lbuf) = Some (dst, Some c1, b)" "length b = 512"
    using ini_line_kv [OF kv(1-6) Cons.prems(2) kv(7) Cons.prems(3), of dst] by (auto simp: print_kv_def c1_def)
  then show ?case using Cons.IH [of b c1] Cons.prems by (simp add: c1_def)
qed simp

lemma run_sec:
  assumes "sec_ok s" "length lbuf = 512"
  shows "\<exists>b. run_lines (print_sec s) (dst, csec, lbuf) = Some (close_sec dst csec, Some s, b) \<and> length b = 512"
proof (cases "sec_name s")
  case None
  then have s: "s = new_sec None INI_NEWLINE 0" using assms(1) by (simp add: sec_ok_def)
  show ?thesis using ini_line_empty [OF assms(2), of dst csec] s by (auto simp: print_sec_def print_head_def new_sec_def)
next
  case (Some n)
  have n: "plain_text n" "trimmed n" "length n \<le> 508" using assms(1) Some by (simp_all add: sec_ok_def)
  consider "sec_type s = INI_CHOICE" "CHR '']'' \<notin> set n" "sec_color s = 0" "list_all kv_ok (sec_kvs s)"
    | "s = new_sec (Some n) INI_CAPTION 0xFF0AB9E6" "CHR ''}'' \<notin> set n" | "s = new_sec (Some n) INI_COMMENT 0" "n \<noteq> []"
    using assms(1) Some by (auto simp: sec_ok_def)
  then show ?thesis
  proof cases
    case 1
    define c where "c = new_sec (Some n) INI_CHOICE 0"
    obtain b where b: "ini_line (print_head s @ [LF]) (dst, csec, lbuf) = Some (close_sec dst csec, Some c, b)" "length b = 512"
      using ini_line_choice [OF n(1) 1(2) n(2) assms(2) n(3), of dst csec] 1 Some by (auto simp: print_head_def c_def)
    have "c\<lparr>sec_kvs := sec_kvs c @ sec_kvs s\<rparr> = s" using 1 Some by (cases s) (simp add: c_def new_sec_def)
    then show ?thesis using run_pairs [OF 1(4) b(2), of c "close_sec dst csec"] b(1) by (simp add: print_sec_def c_def new_sec_def)
  next
    case 2
    then show ?thesis using ini_line_caption [OF n(1) 2(2) n(2) assms(2) n(3), of dst csec]
      by (auto simp: print_sec_def print_head_def new_sec_def INI_CAPTION_def INI_CHOICE_def)
  next
    case 3
    then show ?thesis using ini_line_comment [OF n(1,2) 3(2) assms(2), of dst csec] n(3)
      by (auto simp: print_sec_def print_head_def new_sec_def INI_CAPTION_def INI_CHOICE_def INI_COMMENT_def)
  qed
qed

lemma run_secs:
  assumes "list_all sec_ok secs" "length lbuf = 512"
  shows "\<exists>d c b. run_lines (concat (map print_sec secs)) (dst, csec, lbuf) = Some (d, c, b) \<and> close_sec d c = close_sec dst csec @ secs"
  using assms
proof (induction secs arbitrary: dst csec lbuf)
  case (Cons s secs)
  obtain b where b: "run_lines (print_sec s) (dst, csec, lbuf) = Some (close_sec dst csec, Some s, b)" "length b = 512"
    using run_sec [of s lbuf dst csec] Cons.prems by auto
  then show ?case using Cons.IH [of b "close_sec dst csec" "Some s"] Cons.prems by (auto simp: run_lines_append close_sec_def)
qed simp

lemma print_sec_lines: "sec_ok s \<Longrightarrow> l \<in> set (print_sec s) \<Longrightarrow> plain_text l \<and> length l < 511"
  by (cases "sec_name s")
    (auto simp: print_sec_def sec_ok_def print_head_def print_kv_def kv_ok_def plain_text_def new_sec_def list_all_iff NUL_def LF_def CR_def INI_CAPTION_def INI_CHOICE_def INI_COMMENT_def INI_NEWLINE_def)

text \<open>
  C39. A configuration of sections, captions, comments, empty lines and key/value pairs written to a
  file is what parsing the file gives, appended to the list, whatever the line buffer held.
\<close>

theorem ini_parse_print:
  assumes "list_all sec_ok secs" "secs \<noteq> []" "f_open env path = Some (print_ini secs)" "length (malloc_junk env) = 512" "length path < 256"
  shows "ini_parse env dst path False = Some (False, dst @ secs)"
proof -
  have "concat (map print_sec secs) \<noteq> []" using assms(2) by (cases secs) (simp_all add: print_sec_def)
  moreover have "\<forall>l \<in> set (concat (map print_sec secs)). plain_text l \<and> length l < 511"
    using assms(1) by (auto simp: list_all_iff dest: print_sec_lines)
  ultimately have "ini_lines (print_ini secs) (dst, None, malloc_junk env) = run_lines (concat (map print_sec secs)) (dst, None, malloc_junk env)"
    unfolding print_ini_def by (rule ini_lines_run)
  moreover obtain d c b where "run_lines (concat (map print_sec secs)) (dst, None, malloc_junk env) = Some (d, c, b)" "close_sec d c = dst @ secs"
    using run_secs [OF assms(1,4), of dst None] by (auto simp: close_sec_def)
  ultimately show ?thesis using assms(3,5) by (simp add: ini_parse_def ini_file_def close_sec_def)
qed

subsection \<open>An instance\<close>

definition demo_config :: "ini_sec_t list" where
  "demo_config = [\<lparr>sec_name = Some ''config'', sec_kvs = [\<lparr>kv_key = ''autoboot'', kv_val = ''1''\<rparr>, \<lparr>kv_key = ''id'', kv_val = []\<rparr>], sec_type = INI_CHOICE, sec_color = 0\<rparr>,
     new_sec None INI_NEWLINE 0, new_sec (Some ''Stock'') INI_CAPTION 0xFF0AB9E6]"

definition demo_ini :: "unit ini_env" where
  "demo_ini = \<lparr>ini_dirs = \<lparr>f_opendir = (\<lambda>p. (True, ())), f_readdir = (\<lambda>d. (True, \<lparr>fname = [], fattrib = 0\<rparr>, ())),
      f_findfirst = (\<lambda>p q. (True, \<lparr>fname = [], fattrib = 0\<rparr>, ())), f_findnext = (\<lambda>d. (True, \<lparr>fname = [], fattrib = 0\<rparr>, ()))\<rparr>,
    f_open = (\<lambda>p. Some (print_ini demo_config)), malloc_junk = replicate 512 (CHR ''x'')\<rparr>"

theorem ini_parse_print_witness:
  "f_open demo_ini ''a.ini'' = Some (print_ini demo_config) \<and> ini_parse demo_ini [] ''a.ini'' False = Some (False, demo_config)"
proof -
  have "list_all sec_ok demo_config"
    by (simp add: demo_config_def sec_ok_def new_sec_def kv_ok_def plain_text_def trimmed_def NUL_def LF_def CR_def)
  then show ?thesis using ini_parse_print [of demo_config demo_ini "''a.ini''" "[]"] by (simp add: demo_ini_def demo_config_def)
qed

definition demo_lbuf :: string where
  "demo_lbuf = ''abcdefgh'' @ NUL # CHR ''1'' # replicate 502 NUL"

theorem ini_stale_value_witness:
  "ini_line (''xy'' @ [LF]) ([], Some (new_sec (Some ''s'') INI_CHOICE 0), demo_lbuf) =
   Some ([], Some ((new_sec (Some ''s'') INI_CHOICE 0)\<lparr>sec_kvs := [\<lparr>kv_key = ''xy'', kv_val = ''efgh''\<rparr>]\<rparr>), fetched ''xy'' demo_lbuf)"
proof -
  have p: "pair_line ''xy''" "trimmed ''xy''" by (simp_all add: pair_line_def plain_text_def trimmed_def NUL_def LF_def CR_def)
  have l: "length demo_lbuf = 512" "demo_lbuf ! 511 = NUL" by (simp_all add: demo_lbuf_def nth_append)
  have c: "cstr demo_lbuf (length ''xy'' + 2) = Some ''efgh''" by (simp add: cstr_def demo_lbuf_def NUL_def)
  show ?thesis using ini_stale_value [OF p(1) _ p(2) _ l, of "new_sec (Some ''s'') INI_CHOICE 0" "[]"] unfolding c
    by (simp add: new_sec_def strcpy_ns_def)
qed

end
