(* ===== verification/Sdmmc_Base.thy ===== *)
theory Sdmmc_Base
  imports Sd
begin

text \<open>
  SD and eMMC storage, \<open>bdk/storage/sdmmc.c\<close>, first part: the card registers, commands and status
  checks both kinds of card share. The host controller driver, \<open>sdmmc_driver.c\<close>, is a parameter:
  what each of its functions does to the controller and, behind it, to the card and the clock. The
  part of the controller context the code looks at is a record; the rest is of any type.
\<close>

subsection \<open>Constants\<close>

definition R1_OUT_OF_RANGE :: u32 where "R1_OUT_OF_RANGE = 0x80000000"
definition R1_ADDRESS_ERROR :: u32 where "R1_ADDRESS_ERROR = 0x40000000"
definition R1_BLOCK_LEN_ERROR :: u32 where "R1_BLOCK_LEN_ERROR = 0x20000000"
definition R1_ERASE_SEQ_ERROR :: u32 where "R1_ERASE_SEQ_ERROR = 0x10000000"
definition R1_ERASE_PARAM :: u32 where "R1_ERASE_PARAM = 0x8000000"
definition R1_WP_VIOLATION :: u32 where "R1_WP_VIOLATION = 0x4000000"
definition R1_LOCK_UNLOCK_FAILED :: u32 where "R1_LOCK_UNLOCK_FAILED = 0x1000000"
definition R1_COM_CRC_ERROR :: u32 where "R1_COM_CRC_ERROR = 0x800000"
definition R1_ILLEGAL_COMMAND :: u32 where "R1_ILLEGAL_COMMAND = 0x400000"
definition R1_CARD_ECC_FAILED :: u32 where "R1_CARD_ECC_FAILED = 0x200000"
definition R1_CC_ERROR :: u32 where "R1_CC_ERROR = 0x100000"
definition R1_ERROR :: u32 where "R1_ERROR = 0x80000"
definition R1_CID_CSD_OVERWRITE :: u32 where "R1_CID_CSD_OVERWRITE = 0x10000"
definition R1_WP_ERASE_SKIP :: u32 where "R1_WP_ERASE_SKIP = 0x8000"
definition R1_ERASE_RESET :: u32 where "R1_ERASE_RESET = 0x2000"
definition R1_SWITCH_ERROR :: u32 where "R1_SWITCH_ERROR = 0x80"
definition R1_READY_FOR_DATA :: u32 where "R1_READY_FOR_DATA = 0x100"
definition R1_SKIP_STATE_CHECK :: u32 where "R1_SKIP_STATE_CHECK = 16"
definition R1_STATE_READY :: u32 where "R1_STATE_READY = 1"
definition R1_STATE_TRAN :: u32 where "R1_STATE_TRAN = 4"

definition SDMMC_RSP_TYPE_0 :: u32 where "SDMMC_RSP_TYPE_0 = 0"
definition SDMMC_RSP_TYPE_1 :: u32 where "SDMMC_RSP_TYPE_1 = 1"
definition SDMMC_RSP_TYPE_2 :: u32 where "SDMMC_RSP_TYPE_2 = 2"
definition SDMMC_RSP_TYPE_3 :: u32 where "SDMMC_RSP_TYPE_3 = 3"
definition SDMMC_RSP_TYPE_6 :: u32 where "SDMMC_RSP_TYPE_6 = 4"
definition SDMMC_RSP_TYPE_7 :: u32 where "SDMMC_RSP_TYPE_7 = 5"
definition SDMMC_POWER_1_8 :: u32 where "SDMMC_POWER_1_8 = 1"
definition SDMMC_POWER_3_3 :: u32 where "SDMMC_POWER_3_3 = 2"
definition SDMMC_1 :: u32 where "SDMMC_1 = 0"
definition SDMMC_2 :: u32 where "SDMMC_2 = 1"
definition SDMMC_4 :: u32 where "SDMMC_4 = 3"
definition SDMMC_POWER_SAVE_ENABLE :: u32 where "SDMMC_POWER_SAVE_ENABLE = 1"
definition SDMMC_CMD_BLOCKSIZE :: u32 where "SDMMC_CMD_BLOCKSIZE = 64"
definition SDMMC_DAT_BLOCKSIZE :: u32 where "SDMMC_DAT_BLOCKSIZE = 0x200"
definition SDMMC_AMAX_BLOCKNUM :: u32 where "SDMMC_AMAX_BLOCKNUM = 0xf000"
definition SDMMC_ADMA_ADDR_ALIGN :: u32 where "SDMMC_ADMA_ADDR_ALIGN = 8"
definition SDHCI_ERR_INT_CMD_TIMEOUT :: u32 where "SDHCI_ERR_INT_CMD_TIMEOUT = 1"

definition MMC_GO_IDLE_STATE :: u32 where "MMC_GO_IDLE_STATE = 0"
definition MMC_ALL_SEND_CID :: u32 where "MMC_ALL_SEND_CID = 2"
definition MMC_SELECT_CARD :: u32 where "MMC_SELECT_CARD = 7"
definition MMC_SEND_CSD :: u32 where "MMC_SEND_CSD = 9"
definition MMC_SEND_STATUS :: u32 where "MMC_SEND_STATUS = 13"
definition MMC_SET_BLOCKLEN :: u32 where "MMC_SET_BLOCKLEN = 16"
definition MMC_READ_MULTIPLE_BLOCK :: u32 where "MMC_READ_MULTIPLE_BLOCK = 18"
definition MMC_WRITE_MULTIPLE_BLOCK :: u32 where "MMC_WRITE_MULTIPLE_BLOCK = 25"
definition MMC_APP_CMD :: u32 where "MMC_APP_CMD = 55"
definition MMC_GEN_CMD :: u32 where "MMC_GEN_CMD = 56"
definition MMC_VENDOR_CMD_60 :: u32 where "MMC_VENDOR_CMD_60 = 60"
definition MMC_VENDOR_CMD_62 :: u32 where "MMC_VENDOR_CMD_62 = 62"
definition MMC_VENDOR_CMD_63 :: u32 where "MMC_VENDOR_CMD_63 = 63"
definition MMC_SEND_TUNING_BLOCK_HS200 :: u32 where "MMC_SEND_TUNING_BLOCK_HS200 = 21"
definition MMC_SANDISK_HEALTH_REPORT :: u32 where "MMC_SANDISK_HEALTH_REPORT = 0x96c9d71c"

lemmas rsp_type_defs = SDMMC_RSP_TYPE_0_def SDMMC_RSP_TYPE_1_def SDMMC_RSP_TYPE_2_def SDMMC_RSP_TYPE_3_def
  SDMMC_RSP_TYPE_6_def SDMMC_RSP_TYPE_7_def

definition R1_CURRENT_STATE :: "u32 \<Rightarrow> u32" where
  "R1_CURRENT_STATE x = drop_bit 9 (x AND 0x1E00)"

definition R1_STATE :: "u32 \<Rightarrow> u32" where
  "R1_STATE x = push_bit 9 x"

definition SDMMC_SWITCH :: "u32 \<Rightarrow> u32 \<Rightarrow> u32 \<Rightarrow> u32" where
  "SDMMC_SWITCH mode index value = push_bit 24 mode OR push_bit 16 index OR push_bit 8 value"

subsection \<open>Data\<close>

record mmc_cid_t =
  manfid :: u32
  prod_name :: "u8 list"
  serial :: u32
  oemid :: u16
  cid_year :: u16
  prv :: u8
  hwrev :: u8
  fwrev :: u8
  cid_month :: u8
  cid_rsvd :: u32

record mmc_csd_t =
  csd_structure :: u8
  mmca_vsn :: u8
  cmdclass :: u16
  c_size :: u32
  r2w_factor :: u32
  read_blkbits :: u32
  capacity :: u32
  write_protect :: u8
  busspeed :: u16

record mmc_ext_csd_t =
  bkops :: u8
  bkops_en :: u8
  ext_rev :: u8
  ext_struct :: u8
  card_type :: u8
  pre_eol_info :: u8
  dev_life_est_a :: u8
  dev_life_est_b :: u8
  boot_mult :: u8
  rpmb_mult :: u8
  dev_version :: u16
  cache_size :: u32
  max_enh_mult :: u32

record sd_scr_t =
  sda_vsn :: u8
  sda_spec :: u8
  bus_widths :: u8
  scr_cmds :: u8
  scr_vendor :: u32

record sd_ssr_t =
  ssr_bus_width :: u8
  speed_class :: u8
  uhs_grade :: u8
  video_class :: u8
  app_class :: u8
  au_size :: u8
  uhs_au_size :: u8
  perf_enhance :: u8
  protected_size :: u32

record sd_ext_reg_t =
  ser_cmdq :: u8
  ser_cmdq_ext :: u8
  ser_cache :: u8
  ser_cache_ext :: u8
  ser_valid :: bool

text \<open>The storage context, without the pointer to the controller. Identification registers are words, as the code reads them.\<close>

record sdmmc_storage_t =
  initialized :: bool
  is_low_voltage :: bool
  has_sector_access :: bool
  has_pcie :: bool
  rca :: u32
  sec_cnt :: u32
  partition_no :: u32
  max_power :: u32
  raw_cid :: "u32 list"
  raw_csd :: "u32 list"
  raw_scr :: "u8 list"
  raw_ssr :: "u8 list"
  raw_ext_csd :: "u8 list"
  cid :: mmc_cid_t
  csd :: mmc_csd_t
  ext_csd :: mmc_ext_csd_t
  scr :: sd_scr_t
  ssr :: sd_ssr_t
  ser :: sd_ext_reg_t

text \<open>All fields zero, as \<open>memset\<close> leaves it.\<close>

definition zero_storage :: sdmmc_storage_t where
  "zero_storage =
     \<lparr>initialized = False, is_low_voltage = False, has_sector_access = False, has_pcie = False, rca = 0, sec_cnt = 0,
      partition_no = 0, max_power = 0, raw_cid = replicate 4 0, raw_csd = replicate 4 0, raw_scr = replicate 8 0,
      raw_ssr = replicate 64 0, raw_ext_csd = replicate 512 0,
      cid = \<lparr>manfid = 0, prod_name = replicate 8 0, serial = 0, oemid = 0, cid_year = 0, prv = 0, hwrev = 0, fwrev = 0, cid_month = 0, cid_rsvd = 0\<rparr>,
      csd = \<lparr>csd_structure = 0, mmca_vsn = 0, cmdclass = 0, c_size = 0, r2w_factor = 0, read_blkbits = 0, capacity = 0, write_protect = 0, busspeed = 0\<rparr>,
      ext_csd = \<lparr>bkops = 0, bkops_en = 0, ext_rev = 0, ext_struct = 0, card_type = 0, pre_eol_info = 0, dev_life_est_a = 0,
        dev_life_est_b = 0, boot_mult = 0, rpmb_mult = 0, dev_version = 0, cache_size = 0, max_enh_mult = 0\<rparr>,
      scr = \<lparr>sda_vsn = 0, sda_spec = 0, bus_widths = 0, scr_cmds = 0, scr_vendor = 0\<rparr>,
      ssr = \<lparr>ssr_bus_width = 0, speed_class = 0, uhs_grade = 0, video_class = 0, app_class = 0, au_size = 0, uhs_au_size = 0, perf_enhance = 0, protected_size = 0\<rparr>,
      ser = \<lparr>ser_cmdq = 0, ser_cmdq_ext = 0, ser_cache = 0, ser_cache_ext = 0, ser_valid = False\<rparr>\<rparr>"

record sdmmc_cmd_t =
  cmd_no :: u16
  cmd_arg :: u32
  rsp_type :: u32
  check_busy :: u32

record sdmmc_req_t =
  req_buf :: "u8 list"
  blksize :: u32
  num_sectors :: u32
  is_write :: bool
  is_multi_block :: bool
  is_auto_stop_trn :: bool

text \<open>The controller: \<open>mc_hw\<close> is its registers, the card and the timer.\<close>

record 'h sdmmc_t =
  mc_id :: u32
  card_clock :: u32
  expected_rsp_type :: u32
  mc_rsp :: "u32 list"
  error_sts :: u32
  mc_hw :: 'h

text \<open>
  The driver's functions. A command gives an error flag, the bytes delivered into the request's buffer
  from its start, and the number of blocks transferred.
\<close>

record 'h host_env =
  sdmmc_execute_cmd :: "sdmmc_cmd_t \<Rightarrow> sdmmc_req_t option \<Rightarrow> 'h sdmmc_t \<Rightarrow> bool \<times> u8 list \<times> u32 \<times> 'h sdmmc_t"
  sdmmc_stop_transmission :: "'h sdmmc_t \<Rightarrow> 'h sdmmc_t"
  sdmmc_init :: "u32 \<Rightarrow> u32 \<Rightarrow> u32 \<Rightarrow> u32 \<Rightarrow> 'h sdmmc_t \<Rightarrow> bool \<times> 'h sdmmc_t"
  sdmmc_end :: "'h sdmmc_t \<Rightarrow> 'h sdmmc_t"
  sdmmc_setup_clock :: "u32 \<Rightarrow> 'h sdmmc_t \<Rightarrow> bool \<times> 'h sdmmc_t"
  sdmmc_tuning_execute :: "u32 \<Rightarrow> u32 \<Rightarrow> 'h sdmmc_t \<Rightarrow> bool \<times> 'h sdmmc_t"
  sdmmc_enable_low_voltage :: "'h sdmmc_t \<Rightarrow> bool \<times> 'h sdmmc_t"
  sdmmc_set_bus_width :: "u32 \<Rightarrow> 'h sdmmc_t \<Rightarrow> 'h sdmmc_t"
  sdmmc_get_bus_width :: "'h sdmmc_t \<Rightarrow> u32"
  sdmmc_get_io_power :: "'h sdmmc_t \<Rightarrow> u32"
  sdmmc_save_tap_value :: "'h sdmmc_t \<Rightarrow> 'h sdmmc_t"
  sdmmc_setup_drv_type :: "u32 \<Rightarrow> 'h sdmmc_t \<Rightarrow> 'h sdmmc_t"
  sdmmc_card_clock_powersave :: "u32 \<Rightarrow> 'h sdmmc_t \<Rightarrow> 'h sdmmc_t"
  get_tmr_ms :: "'h \<Rightarrow> u32"
  usleep :: "u32 \<Rightarrow> 'h \<Rightarrow> 'h"
  sd_power_cycle_time_start :: "'h \<Rightarrow> u32"

text \<open>A storage with its controller.\<close>

record 'h dev =
  dev_st :: sdmmc_storage_t
  dev_mc :: "'h sdmmc_t"

type_synonym 'h dev_op = "'h dev \<Rightarrow> bool \<times> 'h dev"

definition set_st :: "(sdmmc_storage_t \<Rightarrow> sdmmc_storage_t) \<Rightarrow> 'h dev \<Rightarrow> 'h dev" where
  "set_st f d = d\<lparr>dev_st := f (dev_st d)\<rparr>"

text \<open>Steps each followed by a return of 1 when it fails; a step that cannot fail; a call of the driver.\<close>

fun run_steps :: "'h dev_op list \<Rightarrow> 'h dev_op" where
  "run_steps [] d = (False, d)"
| "run_steps (f # fs) d = (let (err, d1) = f d in if err then (True, d1) else run_steps fs d1)"

declare run_steps.simps [simp del]

definition effect :: "('h dev \<Rightarrow> 'h dev) \<Rightarrow> 'h dev_op" where
  "effect f d = (False, f d)"

definition drv_op :: "('h sdmmc_t \<Rightarrow> bool \<times> 'h sdmmc_t) \<Rightarrow> 'h dev_op" where
  "drv_op f d = (let (err, m) = f (dev_mc d) in (err, d\<lparr>dev_mc := m\<rparr>))"

definition drv_do :: "('h sdmmc_t \<Rightarrow> 'h sdmmc_t) \<Rightarrow> 'h dev_op" where
  "drv_do f d = (False, d\<lparr>dev_mc := f (dev_mc d)\<rparr>)"

definition delay :: "'h host_env \<Rightarrow> u32 \<Rightarrow> 'h dev \<Rightarrow> 'h dev" where
  "delay env us d = d\<lparr>dev_mc := (dev_mc d)\<lparr>mc_hw := usleep env us (mc_hw (dev_mc d))\<rparr>\<rparr>"

definition msleep :: "'h host_env \<Rightarrow> u32 \<Rightarrow> 'h dev \<Rightarrow> 'h dev" where
  "msleep env ms d = delay env (ms * 1000) d"

definition tmr_ms :: "'h host_env \<Rightarrow> 'h dev \<Rightarrow> u32" where
  "tmr_ms env d = get_tmr_ms env (mc_hw (dev_mc d))"

text \<open>A buffer after bytes were delivered at its start.\<close>

definition buf_fill :: "u8 list \<Rightarrow> u8 list \<Rightarrow> u8 list" where
  "buf_fill buf data = take (length buf) (data @ drop (length data) buf)"

subsection \<open>Register fields\<close>

definition unstuff_bits :: "u32 list \<Rightarrow> nat \<Rightarrow> nat \<Rightarrow> u32" where
  "unstuff_bits resp start0 width =
     (let start = start0 mod 128;
          msk = (if width < 32 then push_bit width 1 else 0) - 1;
          off = 3 - start div 32;
          shft = start mod 32;
          res = drop_bit shft (resp ! off);
          res2 = (if width + shft > 32 then res OR push_bit ((32 - shft) mod 32) (resp ! (off - 1)) else res)
      in res2 AND msk)"

text \<open>The words of a byte buffer, in memory order.\<close>

definition words_le :: "u8 list \<Rightarrow> nat \<Rightarrow> nat \<Rightarrow> u32 list" where
  "words_le buf i n = map (\<lambda>k. get_le 4 buf (i + 4 * k)) [0..<n]"

subsection \<open>Commands\<close>

definition sdmmc_init_cmd :: "u32 \<Rightarrow> u32 \<Rightarrow> u32 \<Rightarrow> u32 \<Rightarrow> sdmmc_cmd_t" where
  "sdmmc_init_cmd c arg rt busy = \<lparr>cmd_no = ucast c, cmd_arg = arg, rsp_type = rt, check_busy = busy\<rparr>"

text \<open>The response kept of the last command; \<open>None\<close> is the error result, which leaves the buffer alone.\<close>

definition sdmmc_get_cached_rsp :: "'h sdmmc_t \<Rightarrow> u32 \<Rightarrow> u32 list option" where
  "sdmmc_get_cached_rsp m type =
     (if expected_rsp_type m \<noteq> type then None
      else if type \<in> {SDMMC_RSP_TYPE_1, SDMMC_RSP_TYPE_3, SDMMC_RSP_TYPE_6, SDMMC_RSP_TYPE_7} then Some [mc_rsp m ! 0]
      else if type = SDMMC_RSP_TYPE_2 then Some (map (\<lambda>i. mc_rsp m ! i) [0..<4])
      else None)"

definition rsp_word :: "u32 \<Rightarrow> 'h sdmmc_t \<Rightarrow> u32 \<Rightarrow> u32" where
  "rsp_word old m type = (case sdmmc_get_cached_rsp m type of None \<Rightarrow> old | Some r \<Rightarrow> hd r)"

definition exec_cmd :: "'h host_env \<Rightarrow> sdmmc_cmd_t \<Rightarrow> 'h dev_op" where
  "exec_cmd env c d = (let (err, data, n, m) = sdmmc_execute_cmd env c None (dev_mc d) in (err, d\<lparr>dev_mc := m\<rparr>))"

definition exec_req :: "'h host_env \<Rightarrow> sdmmc_cmd_t \<Rightarrow> sdmmc_req_t \<Rightarrow> 'h dev \<Rightarrow> bool \<times> u8 list \<times> u32 \<times> 'h dev" where
  "exec_req env c r d =
     (let (err, data, n, m) = sdmmc_execute_cmd env c (Some r) (dev_mc d)
      in (err, buf_fill (req_buf r) data, n, d\<lparr>dev_mc := m\<rparr>))"

text \<open>A request of one block into a buffer.\<close>

definition single_req :: "u8 list \<Rightarrow> u32 \<Rightarrow> bool \<Rightarrow> sdmmc_req_t" where
  "single_req buf bs wr =
     \<lparr>req_buf = buf, blksize = bs, num_sectors = 1, is_write = wr, is_multi_block = False, is_auto_stop_trn = False\<rparr>"

definition sdmmc_storage_check_card_status :: "u32 \<Rightarrow> bool" where
  "sdmmc_storage_check_card_status res \<longleftrightarrow>
     res AND (R1_OUT_OF_RANGE OR R1_ADDRESS_ERROR OR R1_BLOCK_LEN_ERROR OR R1_ERASE_SEQ_ERROR OR R1_ERASE_PARAM OR R1_WP_VIOLATION OR
       R1_LOCK_UNLOCK_FAILED OR R1_COM_CRC_ERROR OR R1_ILLEGAL_COMMAND OR R1_CARD_ECC_FAILED OR R1_CC_ERROR OR R1_ERROR OR
       R1_CID_CSD_OVERWRITE OR R1_WP_ERASE_SKIP OR R1_ERASE_RESET OR R1_SWITCH_ERROR) \<noteq> 0"

text \<open>
  The status word is a local the code does not initialise; it is set because the driver notes the
  response type of every command that succeeds. It is zero here when the type does not match.
\<close>

definition sdmmc_storage_check_cached_card_status :: "'h dev \<Rightarrow> bool" where
  "sdmmc_storage_check_cached_card_status d \<longleftrightarrow> sdmmc_storage_check_card_status (rsp_word 0 (dev_mc d) SDMMC_RSP_TYPE_1)"

definition sdmmc_storage_execute_cmd_ex_masked ::
  "'h host_env \<Rightarrow> u32 \<Rightarrow> u32 \<Rightarrow> u32 \<Rightarrow> u32 \<Rightarrow> u32 \<Rightarrow> u32 \<Rightarrow> 'h dev \<Rightarrow> bool \<times> u32 \<times> 'h dev" where
  "sdmmc_storage_execute_cmd_ex_masked env resp c arg busy expected_state msk d =
     (let (err, d1) = exec_cmd env (sdmmc_init_cmd c arg SDMMC_RSP_TYPE_1 busy) d
      in if err then (True, resp, d1)
         else let r = rsp_word resp (dev_mc d1) SDMMC_RSP_TYPE_1;
                  resp1 = (if msk \<noteq> 0 then r AND NOT msk else r)
              in (\<not> (\<not> sdmmc_storage_check_card_status resp1 \<and>
                    (expected_state = R1_SKIP_STATE_CHECK \<or> R1_CURRENT_STATE resp1 = expected_state)), resp1, d1))"

definition sdmmc_storage_execute_cmd_ex_state :: "'h host_env \<Rightarrow> u32 \<Rightarrow> u32 \<Rightarrow> u32 \<Rightarrow> u32 \<Rightarrow> 'h dev_op" where
  "sdmmc_storage_execute_cmd_ex_state env c arg busy expected_state d =
     (let (err, tmp, d1) = sdmmc_storage_execute_cmd_ex_masked env 0 c arg busy expected_state 0 d in (err, d1))"

definition sdmmc_storage_go_idle_state :: "'h host_env \<Rightarrow> 'h dev_op" where
  "sdmmc_storage_go_idle_state env d = exec_cmd env (sdmmc_init_cmd MMC_GO_IDLE_STATE 0 SDMMC_RSP_TYPE_0 0) d"

definition sdmmc_storage_get_cid :: "'h host_env \<Rightarrow> 'h dev_op" where
  "sdmmc_storage_get_cid env d =
     (let (err, d1) = exec_cmd env (sdmmc_init_cmd MMC_ALL_SEND_CID 0 SDMMC_RSP_TYPE_2 0) d
      in if err then (True, d1)
         else (False, case sdmmc_get_cached_rsp (dev_mc d1) SDMMC_RSP_TYPE_2 of None \<Rightarrow> d1 | Some r \<Rightarrow> set_st (\<lambda>s. s\<lparr>raw_cid := r\<rparr>) d1))"

definition sdmmc_storage_select_card :: "'h host_env \<Rightarrow> 'h dev_op" where
  "sdmmc_storage_select_card env d =
     sdmmc_storage_execute_cmd_ex_state env MMC_SELECT_CARD (push_bit 16 (rca (dev_st d))) 1 R1_SKIP_STATE_CHECK d"

definition sdmmc_storage_get_csd :: "'h host_env \<Rightarrow> 'h dev_op" where
  "sdmmc_storage_get_csd env d =
     (let (err, d1) = exec_cmd env (sdmmc_init_cmd MMC_SEND_CSD (push_bit 16 (rca (dev_st d))) SDMMC_RSP_TYPE_2 0) d
      in if err then (True, d1)
         else (False, case sdmmc_get_cached_rsp (dev_mc d1) SDMMC_RSP_TYPE_2 of None \<Rightarrow> d1 | Some r \<Rightarrow> set_st (\<lambda>s. s\<lparr>raw_csd := r\<rparr>) d1))"

definition sdmmc_storage_set_blocklen :: "'h host_env \<Rightarrow> u32 \<Rightarrow> 'h dev_op" where
  "sdmmc_storage_set_blocklen env blocklen d = sdmmc_storage_execute_cmd_ex_state env MMC_SET_BLOCKLEN blocklen 0 R1_STATE_TRAN d"

definition sdmmc_storage_get_status :: "'h host_env \<Rightarrow> u32 \<Rightarrow> u32 \<Rightarrow> 'h dev \<Rightarrow> bool \<times> u32 \<times> 'h dev" where
  "sdmmc_storage_get_status env resp msk d =
     sdmmc_storage_execute_cmd_ex_masked env resp MMC_SEND_STATUS (push_bit 16 (rca (dev_st d))) 0 R1_STATE_TRAN msk d"

definition sdmmc_storage_check_status :: "'h host_env \<Rightarrow> 'h dev_op" where
  "sdmmc_storage_check_status env d = (let (err, tmp, d1) = sdmmc_storage_get_status env 0 0 d in (err, d1))"

end
