(* ===== verification/Sdmmc_Mmc.thy ===== *)
theory Sdmmc_Mmc
  imports Sdmmc_Base
begin

text \<open>
  SD and eMMC storage, \<open>bdk/storage/sdmmc.c\<close>, second part: polling with a time limit, vendor commands
  and the initialisation of an eMMC.
\<close>

subsection \<open>Constants\<close>

definition MMC_SEND_OP_COND :: u32 where "MMC_SEND_OP_COND = 1"
definition MMC_SET_RELATIVE_ADDR :: u32 where "MMC_SET_RELATIVE_ADDR = 3"
definition MMC_SWITCH :: u32 where "MMC_SWITCH = 6"
definition MMC_SEND_EXT_CSD :: u32 where "MMC_SEND_EXT_CSD = 8"
definition MMC_OCR_VCCQ_18 :: u32 where "MMC_OCR_VCCQ_18 = 0x80"
definition MMC_OCR_VCCQ_27_34 :: u32 where "MMC_OCR_VCCQ_27_34 = 0x3f8000"
definition MMC_OCR_HCS :: u32 where "MMC_OCR_HCS = 0x40000000"
definition MMC_OCR_CCS :: u32 where "MMC_OCR_CCS = 0x40000000"
definition MMC_OCR_BUSY :: u32 where "MMC_OCR_BUSY = 0x80000000"
definition MMC_SWITCH_MODE_WRITE_BYTE :: u32 where "MMC_SWITCH_MODE_WRITE_BYTE = 3"
definition EXT_CSD_PART_CONFIG :: u32 where "EXT_CSD_PART_CONFIG = 0xb3"
definition EXT_CSD_BUS_WIDTH :: u32 where "EXT_CSD_BUS_WIDTH = 0xb7"
definition EXT_CSD_HS_TIMING :: u32 where "EXT_CSD_HS_TIMING = 0xb9"
definition EXT_CSD_BUS_WIDTH_4 :: u32 where "EXT_CSD_BUS_WIDTH_4 = 1"
definition EXT_CSD_BUS_WIDTH_8 :: u32 where "EXT_CSD_BUS_WIDTH_8 = 2"
definition EXT_CSD_DDR_BUS_WIDTH_8 :: u32 where "EXT_CSD_DDR_BUS_WIDTH_8 = 6"
definition EXT_CSD_TIMING_HS :: u32 where "EXT_CSD_TIMING_HS = 1"
definition EXT_CSD_TIMING_HS200 :: u32 where "EXT_CSD_TIMING_HS200 = 2"
definition EXT_CSD_TIMING_HS400 :: u32 where "EXT_CSD_TIMING_HS400 = 3"
definition SDHCI_TIMING_MMC_ID :: u32 where "SDHCI_TIMING_MMC_ID = 0"
definition SDHCI_TIMING_MMC_LS26 :: u32 where "SDHCI_TIMING_MMC_LS26 = 1"
definition EXT_CSD_CARD_TYPE_HS_52 :: u32 where "EXT_CSD_CARD_TYPE_HS_52 = 2"
definition EXT_CSD_CARD_TYPE_HS200_1_8V :: u32 where "EXT_CSD_CARD_TYPE_HS200_1_8V = 16"
definition EXT_CSD_CARD_TYPE_HS400_1_8V :: u32 where "EXT_CSD_CARD_TYPE_HS400_1_8V = 64"
definition CSD_SPEC_VER_4 :: u8 where "CSD_SPEC_VER_4 = 4"

text \<open>Offsets into the extended CSD.\<close>

definition EXT_CSD_REV :: nat where "EXT_CSD_REV = 0xc0"
definition EXT_CSD_STRUCTURE :: nat where "EXT_CSD_STRUCTURE = 0xc2"
definition EXT_CSD_CARD_TYPE :: nat where "EXT_CSD_CARD_TYPE = 0xc4"
definition EXT_CSD_DEVICE_VERSION :: nat where "EXT_CSD_DEVICE_VERSION = 0x106"
definition EXT_CSD_BOOT_MULT :: nat where "EXT_CSD_BOOT_MULT = 0xe2"
definition EXT_CSD_RPMB_MULT :: nat where "EXT_CSD_RPMB_MULT = 0xa8"
definition EXT_CSD_BKOPS_SUPPORT :: nat where "EXT_CSD_BKOPS_SUPPORT = 0x1f6"
definition EXT_CSD_BKOPS_EN :: nat where "EXT_CSD_BKOPS_EN = 0xa3"
definition EXT_CSD_PRE_EOL_INFO :: nat where "EXT_CSD_PRE_EOL_INFO = 0x10b"
definition EXT_CSD_DEVICE_LIFE_TIME_EST_TYP_A :: nat where "EXT_CSD_DEVICE_LIFE_TIME_EST_TYP_A = 0x10c"
definition EXT_CSD_DEVICE_LIFE_TIME_EST_TYP_B :: nat where "EXT_CSD_DEVICE_LIFE_TIME_EST_TYP_B = 0x10d"
definition EXT_CSD_CACHE_SIZE :: nat where "EXT_CSD_CACHE_SIZE = 0xf9"
definition EXT_CSD_MAX_ENH_SIZE_MULT :: nat where "EXT_CSD_MAX_ENH_SIZE_MULT = 0x9d"
definition EXT_CSD_HC_WP_GRP_SIZE :: nat where "EXT_CSD_HC_WP_GRP_SIZE = 0xdd"
definition EXT_CSD_HC_ERASE_GRP_SIZE :: nat where "EXT_CSD_HC_ERASE_GRP_SIZE = 0xe0"
definition EXT_CSD_SEC_CNT :: nat where "EXT_CSD_SEC_CNT = 0xd4"

subsection \<open>Polling\<close>

text \<open>
  A loop that repeats a step until it is decided or the time is over, with a delay between two tries.
  The delay is at least one millisecond and the limit 1500, so 1502 tries are all there can be while
  the clock runs; \<open>timed_poll_limit\<close> shows that the bound makes no difference.
\<close>

fun timed_poll ::
  "nat \<Rightarrow> 'h host_env \<Rightarrow> ('r \<Rightarrow> 'h dev \<Rightarrow> bool \<times> 'r \<times> 'h dev) \<Rightarrow> u32 \<Rightarrow> u32 \<Rightarrow> 'r \<Rightarrow> 'h dev \<Rightarrow> 'r \<times> 'h dev" where
  "timed_poll 0 env step timeout us r d = (r, d)"
| "timed_poll (Suc n) env step timeout us r d =
     (let (fin, r1, d1) = step r d
      in if fin \<or> tmr_ms env d1 > timeout then (r1, d1) else timed_poll n env step timeout us r1 (delay env us d1))"

definition POLL_LIMIT :: nat where "POLL_LIMIT = 1502"

subsection \<open>Vendor commands\<close>

definition vendor_step :: "'h host_env \<Rightarrow> u32 \<Rightarrow> 'h dev \<Rightarrow> bool \<times> u32 \<times> 'h dev" where
  "vendor_step env resp d =
     (let (err, resp1, d1) = sdmmc_storage_get_status env resp 0 d
      in (resp1 = R1_READY_FOR_DATA OR R1_STATE R1_STATE_TRAN, resp1, d1))"

definition sdmmc_storage_vendor_cmd :: "'h host_env \<Rightarrow> u32 \<Rightarrow> 'h dev_op" where
  "sdmmc_storage_vendor_cmd env arg d =
     (let (err, d1) = exec_cmd env (sdmmc_init_cmd MMC_VENDOR_CMD_62 arg SDMMC_RSP_TYPE_1 1) d
      in if err then (True, d1)
         else let (resp, d2) = timed_poll POLL_LIMIT env (vendor_step env) (tmr_ms env d1 + 1500) 10000 (-1) d1
              in (sdmmc_storage_check_card_status resp, d2))"

definition sdmmc_storage_vendor_sandisk_report :: "'h host_env \<Rightarrow> u8 list \<Rightarrow> 'h dev \<Rightarrow> nat \<times> u8 list \<times> 'h dev" where
  "sdmmc_storage_vendor_sandisk_report env buf d =
     (let (err, d1) = sdmmc_storage_vendor_cmd env MMC_SANDISK_HEALTH_REPORT d
      in if err then (2, buf, d1)
         else let (err2, buf2, n, d2) =
                    exec_req env (sdmmc_init_cmd MMC_VENDOR_CMD_63 0 SDMMC_RSP_TYPE_1 0) (single_req buf SDMMC_DAT_BLOCKSIZE False) d1
              in if err2 then (1, buf2, snd (snd (sdmmc_storage_get_status env 0 0 d2)))
                 else (if sdmmc_storage_check_cached_card_status d2 then 1 else 0, buf2, d2))"

definition sdmmc_storage_gen_cmd :: "'h host_env \<Rightarrow> u32 \<Rightarrow> u8 list \<Rightarrow> 'h dev \<Rightarrow> bool \<times> u8 list \<times> 'h dev" where
  "sdmmc_storage_gen_cmd env arg buf d =
     (let (err, buf1, n, d1) =
            exec_req env (sdmmc_init_cmd MMC_GEN_CMD arg SDMMC_RSP_TYPE_1 0) (single_req buf SDMMC_DAT_BLOCKSIZE (arg AND 1 = 0)) d
      in if err then (True, buf1, snd (snd (sdmmc_storage_get_status env 0 0 d1)))
         else (sdmmc_storage_check_cached_card_status d1, buf1, d1))"

subsection \<open>Identification\<close>

definition mmc_storage_get_op_cond_inner :: "'h host_env \<Rightarrow> u32 \<Rightarrow> u32 \<Rightarrow> 'h dev \<Rightarrow> bool \<times> u32 \<times> 'h dev" where
  "mmc_storage_get_op_cond_inner env rocr pwr d =
     (let send = (\<lambda>arg. let (err, d1) = exec_cmd env (sdmmc_init_cmd MMC_SEND_OP_COND arg SDMMC_RSP_TYPE_3 0) d
                         in if err then (True, rocr, d1)
                            else (case sdmmc_get_cached_rsp (dev_mc d1) SDMMC_RSP_TYPE_3 of None \<Rightarrow> (True, rocr, d1) | Some r \<Rightarrow> (False, hd r, d1)))
      in if pwr = SDMMC_POWER_1_8 then send (MMC_OCR_HCS OR MMC_OCR_VCCQ_18)
         else if pwr = SDMMC_POWER_3_3 then send (MMC_OCR_HCS OR MMC_OCR_VCCQ_27_34)
         else (True, rocr, d))"

definition mmc_op_cond_step :: "'h host_env \<Rightarrow> u32 \<Rightarrow> bool \<Rightarrow> 'h dev \<Rightarrow> bool \<times> bool \<times> 'h dev" where
  "mmc_op_cond_step env pwr res d =
     (let (err, rocr, d1) = mmc_storage_get_op_cond_inner env 0 pwr d
      in if err then (True, True, d1)
         else if rocr AND MMC_OCR_BUSY \<noteq> 0
         then (True, False, if rocr AND MMC_OCR_CCS \<noteq> 0 then set_st (\<lambda>s. s\<lparr>has_sector_access := True\<rparr>) d1 else d1)
         else (False, True, d1))"

definition mmc_storage_get_op_cond :: "'h host_env \<Rightarrow> u32 \<Rightarrow> 'h dev_op" where
  "mmc_storage_get_op_cond env pwr d = timed_poll POLL_LIMIT env (mmc_op_cond_step env pwr) (tmr_ms env d + 1500) 1000 True d"

definition mmc_storage_set_relative_addr :: "'h host_env \<Rightarrow> 'h dev_op" where
  "mmc_storage_set_relative_addr env d =
     sdmmc_storage_execute_cmd_ex_state env MMC_SET_RELATIVE_ADDR (push_bit 16 (rca (dev_st d))) 0 R1_SKIP_STATE_CHECK d"

subsection \<open>Registers\<close>

definition mmc_parse_cid_version :: "u8 \<Rightarrow> u32 list \<Rightarrow> mmc_cid_t \<Rightarrow> mmc_cid_t" where
  "mmc_parse_cid_version vsn raw c =
     (if vsn = 0 \<or> vsn = 1
      then c\<lparr>prod_name := (prod_name c)[6 := ucast (unstuff_bits raw 48 8)], manfid := unstuff_bits raw 104 24,
             hwrev := ucast (unstuff_bits raw 44 4), fwrev := ucast (unstuff_bits raw 40 4), serial := unstuff_bits raw 16 24\<rparr>
      else if vsn = 2 \<or> vsn = 3 \<or> vsn = 4
      then c\<lparr>manfid := unstuff_bits raw 120 8, oemid := ucast (unstuff_bits raw 104 8), prv := ucast (unstuff_bits raw 48 8),
             serial := unstuff_bits raw 16 32\<rparr>
      else c)"

definition mmc_storage_parse_cid :: "sdmmc_storage_t \<Rightarrow> sdmmc_storage_t" where
  "mmc_storage_parse_cid s =
     (let raw = raw_cid s;
          c = mmc_parse_cid_version (mmca_vsn (csd s)) raw (cid s);
          year0 = (ucast (unstuff_bits raw 8 4 + 1997) :: u16);
          year = (if ext_rev (ext_csd s) \<ge> 5 \<and> year0 < 2010 then year0 + 16 else year0)
      in s\<lparr>cid := c\<lparr>prod_name := (prod_name c)
              [0 := ucast (unstuff_bits raw 96 8), 1 := ucast (unstuff_bits raw 88 8), 2 := ucast (unstuff_bits raw 80 8),
               3 := ucast (unstuff_bits raw 72 8), 4 := ucast (unstuff_bits raw 64 8), 5 := ucast (unstuff_bits raw 56 8)],
            cid_month := ucast (unstuff_bits raw 12 4), cid_year := year\<rparr>\<rparr>)"

definition mmc_storage_parse_csd :: "sdmmc_storage_t \<Rightarrow> sdmmc_storage_t" where
  "mmc_storage_parse_csd s =
     (let raw = raw_csd s;
          cap = push_bit (unat (unstuff_bits raw 47 3 + 2)) (1 + unstuff_bits raw 62 12)
      in s\<lparr>csd := (csd s)\<lparr>mmca_vsn := ucast (unstuff_bits raw 122 4), csd_structure := ucast (unstuff_bits raw 126 2),
             cmdclass := ucast (unstuff_bits raw 84 12), read_blkbits := unstuff_bits raw 80 4, capacity := cap\<rparr>,
           sec_cnt := cap\<rparr>)"

definition mmc_storage_parse_ext_csd :: "sdmmc_storage_t \<Rightarrow> sdmmc_storage_t" where
  "mmc_storage_parse_ext_csd s =
     (let e = raw_ext_csd s
      in s\<lparr>ext_csd :=
             \<lparr>bkops = e ! EXT_CSD_BKOPS_SUPPORT, bkops_en = e ! EXT_CSD_BKOPS_EN, ext_rev = e ! EXT_CSD_REV,
              ext_struct = e ! EXT_CSD_STRUCTURE, card_type = e ! EXT_CSD_CARD_TYPE, pre_eol_info = e ! EXT_CSD_PRE_EOL_INFO,
              dev_life_est_a = e ! EXT_CSD_DEVICE_LIFE_TIME_EST_TYP_A, dev_life_est_b = e ! EXT_CSD_DEVICE_LIFE_TIME_EST_TYP_B,
              boot_mult = e ! EXT_CSD_BOOT_MULT, rpmb_mult = e ! EXT_CSD_RPMB_MULT, dev_version = get_le 2 e EXT_CSD_DEVICE_VERSION,
              cache_size = ucast (e ! EXT_CSD_CACHE_SIZE) OR push_bit 8 (ucast (e ! (EXT_CSD_CACHE_SIZE + 1))) OR
                push_bit 16 (ucast (e ! (EXT_CSD_CACHE_SIZE + 2))) OR push_bit 24 (ucast (e ! (EXT_CSD_CACHE_SIZE + 3))),
              max_enh_mult = (ucast (e ! EXT_CSD_MAX_ENH_SIZE_MULT) OR push_bit 8 (ucast (e ! (EXT_CSD_MAX_ENH_SIZE_MULT + 1))) OR
                push_bit 16 (ucast (e ! (EXT_CSD_MAX_ENH_SIZE_MULT + 2)))) * ucast (e ! EXT_CSD_HC_WP_GRP_SIZE) * ucast (e ! EXT_CSD_HC_ERASE_GRP_SIZE)\<rparr>,
           sec_cnt := get_le 4 e EXT_CSD_SEC_CNT\<rparr>)"

definition mmc_storage_get_ext_csd :: "'h host_env \<Rightarrow> 'h dev_op" where
  "mmc_storage_get_ext_csd env d =
     (let (err, buf, n, d1) = exec_req env (sdmmc_init_cmd MMC_SEND_EXT_CSD 0 SDMMC_RSP_TYPE_1 0)
                                (single_req (raw_ext_csd (dev_st d)) SDMMC_DAT_BLOCKSIZE False) d;
          d2 = set_st (\<lambda>s. s\<lparr>raw_ext_csd := buf\<rparr>) d1
      in if err then (True, d2)
         else let d3 = set_st mmc_storage_parse_ext_csd d2 in (sdmmc_storage_check_cached_card_status d3, d3))"

subsection \<open>Bus width and speed\<close>

definition mmc_storage_switch :: "'h host_env \<Rightarrow> u32 \<Rightarrow> 'h dev_op" where
  "mmc_storage_switch env arg d = sdmmc_storage_execute_cmd_ex_state env MMC_SWITCH arg 1 R1_SKIP_STATE_CHECK d"

definition mmc_storage_switch_buswidth :: "'h host_env \<Rightarrow> u32 \<Rightarrow> 'h dev_op" where
  "mmc_storage_switch_buswidth env bus_width d =
     (if bus_width = SDMMC_BUS_WIDTH_1 then (False, d)
      else let arg = (if bus_width = SDMMC_BUS_WIDTH_4 then SDMMC_SWITCH MMC_SWITCH_MODE_WRITE_BYTE EXT_CSD_BUS_WIDTH EXT_CSD_BUS_WIDTH_4
                      else if bus_width = SDMMC_BUS_WIDTH_8 then SDMMC_SWITCH MMC_SWITCH_MODE_WRITE_BYTE EXT_CSD_BUS_WIDTH EXT_CSD_BUS_WIDTH_8
                      else 0)
           in run_steps [mmc_storage_switch env arg, sdmmc_storage_check_status env, drv_do (sdmmc_set_bus_width env bus_width)] d)"

definition set_busspeed :: "u16 \<Rightarrow> 'h dev \<Rightarrow> 'h dev" where
  "set_busspeed v d = set_st (\<lambda>s. s\<lparr>csd := (csd s)\<lparr>busspeed := v\<rparr>\<rparr>) d"

definition mmc_storage_enable_HS :: "'h host_env \<Rightarrow> bool \<Rightarrow> 'h dev_op" where
  "mmc_storage_enable_HS env check_sts_before_clk_setup d =
     run_steps
       ([mmc_storage_switch env (SDMMC_SWITCH MMC_SWITCH_MODE_WRITE_BYTE EXT_CSD_HS_TIMING EXT_CSD_TIMING_HS)] @
        (if check_sts_before_clk_setup then [sdmmc_storage_check_status env] else []) @
        [drv_op (sdmmc_setup_clock env SDHCI_TIMING_MMC_HS52), effect (set_busspeed 52)] @
        (if check_sts_before_clk_setup then [] else [sdmmc_storage_check_status env])) d"

definition mmc_storage_enable_HS200 :: "'h host_env \<Rightarrow> 'h dev_op" where
  "mmc_storage_enable_HS200 env d =
     run_steps
       [mmc_storage_switch env (SDMMC_SWITCH MMC_SWITCH_MODE_WRITE_BYTE EXT_CSD_HS_TIMING EXT_CSD_TIMING_HS200),
        drv_op (sdmmc_setup_clock env SDHCI_TIMING_MMC_HS200),
        drv_op (sdmmc_tuning_execute env SDHCI_TIMING_MMC_HS200 MMC_SEND_TUNING_BLOCK_HS200),
        effect (set_busspeed 200),
        sdmmc_storage_check_status env] d"

definition mmc_storage_enable_HS400 :: "'h host_env \<Rightarrow> 'h dev_op" where
  "mmc_storage_enable_HS400 env d =
     run_steps
       [mmc_storage_enable_HS200 env,
        drv_do (sdmmc_save_tap_value env),
        mmc_storage_enable_HS env False,
        mmc_storage_switch env (SDMMC_SWITCH MMC_SWITCH_MODE_WRITE_BYTE EXT_CSD_BUS_WIDTH EXT_CSD_DDR_BUS_WIDTH_8),
        mmc_storage_switch env (SDMMC_SWITCH MMC_SWITCH_MODE_WRITE_BYTE EXT_CSD_HS_TIMING EXT_CSD_TIMING_HS400),
        drv_op (sdmmc_setup_clock env SDHCI_TIMING_MMC_HS400),
        effect (set_busspeed 400),
        sdmmc_storage_check_status env] d"

definition mmc_storage_enable_highspeed :: "'h host_env \<Rightarrow> u32 \<Rightarrow> u32 \<Rightarrow> 'h dev_op" where
  "mmc_storage_enable_highspeed env ctype type d =
     (let bw = sdmmc_get_bus_width env (dev_mc d); low = (sdmmc_get_io_power env (dev_mc d) = SDMMC_POWER_1_8)
      in if low \<and> bw = SDMMC_BUS_WIDTH_8 \<and> ctype AND EXT_CSD_CARD_TYPE_HS400_1_8V \<noteq> 0 \<and> type = SDHCI_TIMING_MMC_HS400
         then mmc_storage_enable_HS400 env d
         else if low \<and> (bw = SDMMC_BUS_WIDTH_8 \<or> bw = SDMMC_BUS_WIDTH_4) \<and> ctype AND EXT_CSD_CARD_TYPE_HS200_1_8V \<noteq> 0 \<and>
                 (type = SDHCI_TIMING_MMC_HS400 \<or> type = SDHCI_TIMING_MMC_HS200)
         then mmc_storage_enable_HS200 env d
         else if ctype AND EXT_CSD_CARD_TYPE_HS_52 \<noteq> 0 then mmc_storage_enable_HS env True d
         else (False, d))"

subsection \<open>Initialisation\<close>

text \<open>The wait after pwr on, for a number of clock cycles.\<close>

definition init_wait :: "'h host_env \<Rightarrow> u32 \<Rightarrow> 'h dev \<Rightarrow> 'h dev" where
  "init_wait env cycles d =
     (let ck = card_clock (dev_mc d) in delay env (1000 + (cycles * 1000 + ck - 1) div ck) d)"

definition mmc_features :: "'h host_env \<Rightarrow> u32 \<Rightarrow> u32 \<Rightarrow> 'h dev_op" where
  "mmc_features env bus_width type d =
     (if mmca_vsn (csd (dev_st d)) < CSD_SPEC_VER_4 then (False, d)
      else run_steps
        [mmc_storage_switch_buswidth env bus_width,
         mmc_storage_get_ext_csd env,
         effect (set_st mmc_storage_parse_cid),
         \<lambda>d. mmc_storage_enable_highspeed env (ucast (card_type (ext_csd (dev_st d)))) type d,
         drv_do (sdmmc_card_clock_powersave env SDMMC_POWER_SAVE_ENABLE)] d)"

definition sdmmc_storage_init_mmc :: "'h host_env \<Rightarrow> u32 \<Rightarrow> u32 \<Rightarrow> 'h dev_op" where
  "sdmmc_storage_init_mmc env bus_width type d =
     run_steps
       [effect (set_st (\<lambda>s. zero_storage\<lparr>rca := 2\<rparr>)),
        drv_op (sdmmc_init env SDMMC_4 SDMMC_POWER_1_8 SDMMC_BUS_WIDTH_1 SDHCI_TIMING_MMC_ID),
        effect (init_wait env 74),
        sdmmc_storage_go_idle_state env,
        mmc_storage_get_op_cond env SDMMC_POWER_1_8,
        sdmmc_storage_get_cid env,
        mmc_storage_set_relative_addr env,
        sdmmc_storage_get_csd env,
        effect (set_st mmc_storage_parse_csd),
        drv_op (sdmmc_setup_clock env SDHCI_TIMING_MMC_LS26),
        sdmmc_storage_select_card env,
        sdmmc_storage_set_blocklen env SDMMC_DAT_BLOCKSIZE,
        mmc_features env bus_width type,
        effect (set_st (\<lambda>s. s\<lparr>initialized := True\<rparr>))] d"

definition sdmmc_storage_set_mmc_partition :: "'h host_env \<Rightarrow> u32 \<Rightarrow> 'h dev_op" where
  "sdmmc_storage_set_mmc_partition env part d =
     run_steps
       [mmc_storage_switch env (SDMMC_SWITCH MMC_SWITCH_MODE_WRITE_BYTE EXT_CSD_PART_CONFIG part),
        sdmmc_storage_check_status env,
        effect (set_st (\<lambda>s. s\<lparr>partition_no := part\<rparr>))] d"

definition sdmmc_storage_end :: "'h host_env \<Rightarrow> 'h dev_op" where
  "sdmmc_storage_end env d =
     run_steps
       [sdmmc_storage_go_idle_state env,
        drv_do (sdmmc_end env),
        effect (set_st (\<lambda>s. s\<lparr>initialized := False\<rparr>))] d"

end
