(* ===== verification/Sdmmc_Sd.thy ===== *)
theory Sdmmc_Sd
  imports Sdmmc_Mmc
begin

text \<open>
  SD and eMMC storage, \<open>bdk/storage/sdmmc.c\<close>, third part: the registers and the initialisation of an SD
  card, and of a game card. The build is the one of the makefiles, without
  \<open>BDK_SDMMC_UHS_DDR200_SUPPORT\<close> and without register dumps.
\<close>

subsection \<open>Constants\<close>

definition SD_SEND_RELATIVE_ADDR :: u32 where "SD_SEND_RELATIVE_ADDR = 3"
definition SD_SEND_IF_COND :: u32 where "SD_SEND_IF_COND = 8"
definition SD_VOLTAGE_SWITCH :: u32 where "SD_VOLTAGE_SWITCH = 11"
definition SD_SEND_TUNING_BLOCK :: u32 where "SD_SEND_TUNING_BLOCK = 19"
definition SD_SWITCH :: u32 where "SD_SWITCH = 6"
definition SD_READ_EXTR_SINGLE :: u32 where "SD_READ_EXTR_SINGLE = 48"
definition SD_APP_SET_BUS_WIDTH :: u32 where "SD_APP_SET_BUS_WIDTH = 6"
definition SD_APP_SD_STATUS :: u32 where "SD_APP_SD_STATUS = 13"
definition SD_APP_SD_SEND_OP_COND :: u32 where "SD_APP_SD_SEND_OP_COND = 41"
definition SD_APP_SET_CLR_CARD_DETECT :: u32 where "SD_APP_SET_CLR_CARD_DETECT = 42"
definition SD_APP_SEND_SCR :: u32 where "SD_APP_SEND_SCR = 51"
definition SD_ICR_PATTERN :: u32 where "SD_ICR_PATTERN = 0xaa"
definition SD_ICR_VHS_27_36 :: u32 where "SD_ICR_VHS_27_36 = 0x100"
definition SD_ICR_PCIE :: u32 where "SD_ICR_PCIE = 0x1000"
definition SD_OCR_VDD_32_33 :: u32 where "SD_OCR_VDD_32_33 = 0x100000"
definition SD_OCR_S18R :: u32 where "SD_OCR_S18R = 0x1000000"
definition SD_OCR_S18A :: u32 where "SD_OCR_S18A = 0x1000000"
definition SD_OCR_XPC :: u32 where "SD_OCR_XPC = 0x10000000"
definition SD_OCR_HCS :: u32 where "SD_OCR_HCS = 0x40000000"
definition SD_OCR_CCS :: u32 where "SD_OCR_CCS = 0x40000000"
definition SD_OCR_BUSY :: u32 where "SD_OCR_BUSY = 0x80000000"
definition SD_BUS_WIDTH_4 :: u32 where "SD_BUS_WIDTH_4 = 2"
definition HIGH_SPEED_BUS_SPEED :: u32 where "HIGH_SPEED_BUS_SPEED = 1"
definition UHS_SDR25_BUS_SPEED :: u32 where "UHS_SDR25_BUS_SPEED = 1"
definition UHS_SDR50_BUS_SPEED :: u32 where "UHS_SDR50_BUS_SPEED = 2"
definition UHS_SDR104_BUS_SPEED :: u32 where "UHS_SDR104_BUS_SPEED = 3"
definition SD_SET_POWER_LIMIT_0_72 :: u32 where "SD_SET_POWER_LIMIT_0_72 = 0"
definition SD_SET_POWER_LIMIT_1_44 :: u32 where "SD_SET_POWER_LIMIT_1_44 = 1"
definition SDHCI_TIMING_SD_ID :: u32 where "SDHCI_TIMING_SD_ID = 5"
definition SDHCI_TIMING_SD_DS12 :: u32 where "SDHCI_TIMING_SD_DS12 = 6"
definition SDHCI_TIMING_UHS_SDR12 :: u32 where "SDHCI_TIMING_UHS_SDR12 = 8"
definition SDHCI_TIMING_UHS_SDR25 :: u32 where "SDHCI_TIMING_UHS_SDR25 = 9"
definition SDHCI_TIMING_UHS_SDR50 :: u32 where "SDHCI_TIMING_UHS_SDR50 = 10"
definition SDHCI_TIMING_UHS_DDR50 :: u32 where "SDHCI_TIMING_UHS_DDR50 = 12"
definition SDHCI_TIMING_MMC_HS100 :: u32 where "SDHCI_TIMING_MMC_HS100 = 14"
definition SD_MODE_HIGH_SPEED :: u16 where "SD_MODE_HIGH_SPEED = 2"
definition SD_MODE_UHS_SDR25 :: u16 where "SD_MODE_UHS_SDR25 = 2"
definition SD_MODE_UHS_SDR50 :: u16 where "SD_MODE_UHS_SDR50 = 4"
definition SD_MODE_UHS_SDR104 :: u16 where "SD_MODE_UHS_SDR104 = 8"
definition SD_CMD_SYSTEM_VND :: u16 where "SD_CMD_SYSTEM_VND = 0x4000"
definition SD_MAX_POWER_1_44 :: u16 where "SD_MAX_POWER_1_44 = 2"
definition CCC_APP_SPEC :: u16 where "CCC_APP_SPEC = 0x100"
definition SCR_SPEC_VER_2 :: u8 where "SCR_SPEC_VER_2 = 2"
definition SD_SWITCH_CHECK :: u32 where "SD_SWITCH_CHECK = 0"
definition SD_SWITCH_SET :: u32 where "SD_SWITCH_SET = 1"
definition SD_SWITCH_GRP_ACCESS :: nat where "SD_SWITCH_GRP_ACCESS = 0"
definition SD_SWITCH_GRP_DRVSTR :: nat where "SD_SWITCH_GRP_DRVSTR = 2"
definition SD_SWITCH_GRP_PWRLIM :: nat where "SD_SWITCH_GRP_PWRLIM = 3"

subsection \<open>Application commands\<close>

definition sd_storage_execute_app_cmd ::
  "'h host_env \<Rightarrow> u32 \<Rightarrow> u32 \<Rightarrow> sdmmc_cmd_t \<Rightarrow> sdmmc_req_t option \<Rightarrow> 'h dev \<Rightarrow> bool \<times> u8 list \<times> 'h dev" where
  "sd_storage_execute_app_cmd env expected_state msk c req d =
     (let (err, tmp, d1) = sdmmc_storage_execute_cmd_ex_masked env 0 MMC_APP_CMD (push_bit 16 (rca (dev_st d))) 0 expected_state msk d
      in case req of
           None \<Rightarrow> if err then (True, [], d1) else (let (err2, d2) = exec_cmd env c d1 in (err2, [], d2))
         | Some r \<Rightarrow> if err then (True, req_buf r, d1) else (let (err2, buf, n, d2) = exec_req env c r d1 in (err2, buf, d2)))"

definition sd_storage_execute_app_cmd_tran :: "'h host_env \<Rightarrow> u32 \<Rightarrow> u32 \<Rightarrow> 'h dev_op" where
  "sd_storage_execute_app_cmd_tran env c arg d =
     run_steps
       [sdmmc_storage_execute_cmd_ex_state env MMC_APP_CMD (push_bit 16 (rca (dev_st d))) 0 R1_STATE_TRAN,
        sdmmc_storage_execute_cmd_ex_state env c arg 0 R1_STATE_TRAN] d"

definition sd_storage_get_ext_reg ::
  "'h host_env \<Rightarrow> u8 \<Rightarrow> u8 \<Rightarrow> u16 \<Rightarrow> u32 \<Rightarrow> u8 list \<Rightarrow> 'h dev \<Rightarrow> bool \<times> u8 list \<times> 'h dev" where
  "sd_storage_get_ext_reg env fno page address len buf d =
     (if scr_cmds (scr (dev_st d)) AND 4 = 0 then (True, buf, d)
      else let arg = push_bit 27 (ucast fno) OR push_bit 18 (ucast page) OR push_bit 9 (ucast address) OR (len - 1);
               (err, buf1, n, d1) = exec_req env (sdmmc_init_cmd SD_READ_EXTR_SINGLE arg SDMMC_RSP_TYPE_1 0) (single_req buf SDMMC_DAT_BLOCKSIZE False) d
           in if err then (True, buf1, d1) else (sdmmc_storage_check_cached_card_status d1, buf1, d1))"

subsection \<open>Identification\<close>

text \<open>The second result is whether the card is of version 1, which does not answer.\<close>

definition sd_storage_send_if_cond :: "'h host_env \<Rightarrow> bool \<Rightarrow> 'h dev \<Rightarrow> bool \<times> bool \<times> 'h dev" where
  "sd_storage_send_if_cond env is_sd_v1 d =
     (let icr = SD_ICR_PCIE OR SD_ICR_VHS_27_36 OR SD_ICR_PATTERN;
          (err, d1) = exec_cmd env (sdmmc_init_cmd SD_SEND_IF_COND icr SDMMC_RSP_TYPE_7 0) d
      in if err
         then (if error_sts (dev_mc d1) = SDHCI_ERR_INT_CMD_TIMEOUT then (False, True, d1) else (True, is_sd_v1, d1))
         else let ricr = rsp_word 0 (dev_mc d1) SDMMC_RSP_TYPE_7
              in if ricr AND 0xFFF = icr AND 0xFFF
                 then (False, is_sd_v1, set_st (\<lambda>s. s\<lparr>has_pcie := (ricr AND SD_ICR_PCIE \<noteq> 0)\<rparr>) d1)
                 else (True, is_sd_v1, d1))"

definition sd_storage_send_op_cond :: "'h host_env \<Rightarrow> u32 \<Rightarrow> u32 \<Rightarrow> bool \<Rightarrow> 'h dev \<Rightarrow> bool \<times> u32 \<times> 'h dev" where
  "sd_storage_send_op_cond env rocr ocr is_sd_v1 d =
     (let (err, buf, d1) = sd_storage_execute_app_cmd env R1_SKIP_STATE_CHECK (if is_sd_v1 then R1_ILLEGAL_COMMAND else 0)
                             (sdmmc_init_cmd SD_APP_SD_SEND_OP_COND ocr SDMMC_RSP_TYPE_3 0) None d
      in if err then (True, rocr, d1)
         else (case sdmmc_get_cached_rsp (dev_mc d1) SDMMC_RSP_TYPE_3 of None \<Rightarrow> (True, rocr, d1) | Some r \<Rightarrow> (False, hd r, d1)))"

definition sd_low_voltage :: "'h host_env \<Rightarrow> 'h dev_op" where
  "sd_low_voltage env d =
     run_steps [drv_op (sdmmc_setup_clock env SDHCI_TIMING_UHS_SDR12), drv_op (sdmmc_enable_low_voltage env),
                effect (set_st (\<lambda>s. s\<lparr>is_low_voltage := True\<rparr>))] d"

definition sd_op_cond_step :: "'h host_env \<Rightarrow> u32 \<Rightarrow> bool \<Rightarrow> bool \<Rightarrow> bool \<Rightarrow> 'h dev \<Rightarrow> bool \<times> bool \<times> 'h dev" where
  "sd_op_cond_step env ocr is_sd_v1 lv_support res d =
     (let (err, rocr, d1) = sd_storage_send_op_cond env 0 ocr is_sd_v1 d
      in if err then (True, True, d1)
         else if rocr AND SD_OCR_BUSY \<noteq> 0
         then let d2 = (if rocr AND SD_OCR_CCS \<noteq> 0 then set_st (\<lambda>s. s\<lparr>has_sector_access := True\<rparr>) d1 else d1)
              in if rocr AND SD_OCR_S18A \<noteq> 0 \<and> lv_support
                 then let (err3, d3) = sdmmc_storage_execute_cmd_ex_state env SD_VOLTAGE_SWITCH 0 0 R1_STATE_READY d2
                      in if err3 then (True, False, d3) else (let (err4, d4) = sd_low_voltage env d3 in (True, err4, d4))
                 else (True, False, d2)
         else (False, True, d1))"

definition sd_storage_get_op_cond :: "'h host_env \<Rightarrow> bool \<Rightarrow> bool \<Rightarrow> 'h dev_op" where
  "sd_storage_get_op_cond env is_sd_v1 lv_support d =
     (let ocr = (if is_sd_v1 then SD_OCR_VDD_32_33
                 else SD_OCR_VDD_32_33 OR SD_OCR_XPC OR SD_OCR_HCS OR (if lv_support then SD_OCR_S18R else 0))
      in timed_poll POLL_LIMIT env (sd_op_cond_step env ocr is_sd_v1 lv_support) (tmr_ms env d + 1500) 10000 True d)"

definition sd_rca_step :: "'h host_env \<Rightarrow> bool \<Rightarrow> 'h dev \<Rightarrow> bool \<times> bool \<times> 'h dev" where
  "sd_rca_step env res d =
     (let (err, d1) = exec_cmd env (sdmmc_init_cmd SD_SEND_RELATIVE_ADDR 0 SDMMC_RSP_TYPE_6 0) d
      in if err then (True, True, d1)
         else case sdmmc_get_cached_rsp (dev_mc d1) SDMMC_RSP_TYPE_6 of
                None \<Rightarrow> (True, True, d1)
              | Some r \<Rightarrow> if drop_bit 16 (hd r) \<noteq> 0 then (True, False, set_st (\<lambda>s. s\<lparr>rca := drop_bit 16 (hd r)\<rparr>) d1)
                          else (False, True, d1))"

definition sd_storage_get_rca :: "'h host_env \<Rightarrow> 'h dev_op" where
  "sd_storage_get_rca env d = timed_poll POLL_LIMIT env (sd_rca_step env) (tmr_ms env d + 1500) 1000 True d"

subsection \<open>Registers\<close>

text \<open>A register delivered with its highest byte first, as words in memory.\<close>

definition swap_words :: "u8 list \<Rightarrow> nat \<Rightarrow> u8 list" where
  "swap_words buf n = concat (map (\<lambda>i. rev (take 4 (drop (4 * i) buf))) [0..<n div 4])"

definition sd_storage_get_scr_sda_ver :: "sdmmc_storage_t \<Rightarrow> u8" where
  "sd_storage_get_scr_sda_ver s =
     (let sda_spec0 = sda_vsn (scr s);
          sda_spec3 = sda_spec (scr s) AND 1;
          sda_spec4 = drop_bit 1 (sda_spec (scr s)) AND 1;
          sda_specx = drop_bit 4 (sda_spec (scr s))
      in if sda_spec0 = 0 then 1
         else if sda_spec0 = 1 then 1
         else if sda_spec0 = 2
         then (if sda_spec3 = 0 then 2 else if sda_spec4 = 0 \<and> sda_specx = 0 then 3 else sda_specx + 4)
         else 0)"

definition sd_storage_parse_scr :: "sdmmc_storage_t \<Rightarrow> sdmmc_storage_t" where
  "sd_storage_parse_scr s =
     (let w = [0, 0] @ words_le (raw_scr s) 0 2;
          vsn = (ucast (unstuff_bits w 56 4) :: u8);
          spec3 = (if vsn = SCR_SPEC_VER_2 then ucast (unstuff_bits w 47 1) else (0 :: u8));
          spec4 = (if spec3 \<noteq> 0 then ucast (unstuff_bits w 42 1) else (0 :: u8));
          specx = (if spec3 \<noteq> 0 then ucast (unstuff_bits w 38 4) else (0 :: u8));
          cmds = (if spec3 \<noteq> 0 then (if spec4 \<noteq> 0 then ucast (unstuff_bits w 32 4) else ucast (unstuff_bits w 32 2)) else scr_cmds (scr s))
      in s\<lparr>scr := \<lparr>sda_vsn = vsn, sda_spec = spec3 OR push_bit 1 spec4 OR push_bit 4 specx,
                   bus_widths = ucast (unstuff_bits w 48 4), scr_cmds = cmds, scr_vendor = unstuff_bits w 0 32\<rparr>\<rparr>)"

text \<open>The buffer of eight bytes is a local, zero here until the card fills it.\<close>

definition sd_storage_get_scr :: "'h host_env \<Rightarrow> 'h dev_op" where
  "sd_storage_get_scr env d =
     (let (err, buf, d1) = sd_storage_execute_app_cmd env R1_STATE_TRAN 0 (sdmmc_init_cmd SD_APP_SEND_SCR 0 SDMMC_RSP_TYPE_1 0)
                             (Some (single_req (replicate 8 0) 8 False)) d
      in if err then (True, d1)
         else let d2 = set_st (\<lambda>s. sd_storage_parse_scr (s\<lparr>raw_scr := swap_words buf 8\<rparr>)) d1
              in (sdmmc_storage_check_cached_card_status d2, d2))"

definition sd_speed_class :: "u32 \<Rightarrow> u8" where
  "sd_speed_class v = (if v \<in> {0, 1, 2, 3} then ucast (push_bit 1 v) else if v = 4 then 10 else ucast v)"

definition sd_storage_parse_ssr :: "sdmmc_storage_t \<Rightarrow> sdmmc_storage_t" where
  "sd_storage_parse_ssr s =
     (let w1 = words_le (raw_ssr s) 0 4; w2 = words_le (raw_ssr s) 16 4
      in s\<lparr>ssr := \<lparr>ssr_bus_width = (if unstuff_bits w1 510 2 AND SD_BUS_WIDTH_4 \<noteq> 0 then 4 else 1),
                   speed_class = sd_speed_class (unstuff_bits w1 440 8),
                   uhs_grade = ucast (unstuff_bits w1 396 4), video_class = ucast (unstuff_bits w1 384 8),
                   app_class = ucast (unstuff_bits w2 336 4), au_size = ucast (unstuff_bits w1 428 4),
                   uhs_au_size = ucast (unstuff_bits w1 392 4), perf_enhance = ucast (unstuff_bits w2 328 8),
                   protected_size = unstuff_bits w1 448 32\<rparr>\<rparr>)"

definition sd_storage_get_ssr :: "'h host_env \<Rightarrow> 'h dev_op" where
  "sd_storage_get_ssr env d =
     (if cmdclass (csd (dev_st d)) AND CCC_APP_SPEC = 0 then (True, d)
      else let (err, buf, d1) = sd_storage_execute_app_cmd env R1_STATE_TRAN 0 (sdmmc_init_cmd SD_APP_SD_STATUS 0 SDMMC_RSP_TYPE_1 0)
                                  (Some (single_req (raw_ext_csd (dev_st d)) SDMMC_CMD_BLOCKSIZE False)) d;
               d2 = set_st (\<lambda>s. s\<lparr>raw_ext_csd := buf\<rparr>) d1
           in if err then (True, d2)
              else let d3 = set_st (\<lambda>s. sd_storage_parse_ssr (s\<lparr>raw_ssr := swap_words buf 64\<rparr>)) d2
                   in (sdmmc_storage_check_cached_card_status d3, d3))"

text \<open>Allocation unit in kilobytes from the four bit code.\<close>

definition sd_storage_get_ssr_au :: "sdmmc_storage_t \<Rightarrow> u32" where
  "sd_storage_get_ssr_au s =
     (let a = (if uhs_au_size (ssr s) \<noteq> 0 then ucast (uhs_au_size (ssr s)) else ucast (au_size (ssr s)))
      in if a \<le> 10 then push_bit (unat a) (if a \<noteq> 0 then 8 else 0)
         else if a = 11 then 12288
         else if a = 12 then 16384
         else if a = 13 then 24576
         else if a = 14 then 32768
         else if a = 15 then 65536
         else a)"

definition sd_storage_parse_cid :: "sdmmc_storage_t \<Rightarrow> sdmmc_storage_t" where
  "sd_storage_parse_cid s =
     (let raw = raw_cid s
      in s\<lparr>cid := (cid s)
            \<lparr>manfid := unstuff_bits raw 120 8, oemid := ucast (unstuff_bits raw 104 16),
             prod_name := (prod_name (cid s))
               [0 := ucast (unstuff_bits raw 96 8), 1 := ucast (unstuff_bits raw 88 8), 2 := ucast (unstuff_bits raw 80 8),
                3 := ucast (unstuff_bits raw 72 8), 4 := ucast (unstuff_bits raw 64 8)],
             hwrev := ucast (unstuff_bits raw 60 4), fwrev := ucast (unstuff_bits raw 56 4), serial := unstuff_bits raw 24 32,
             cid_rsvd := unstuff_bits raw 20 4, cid_year := ucast (unstuff_bits raw 12 8 + 2000), cid_month := ucast (unstuff_bits raw 8 4)\<rparr>\<rparr>)"

text \<open>Structures other than the first two leave the capacity as it was.\<close>

definition sd_storage_parse_csd :: "sdmmc_storage_t \<Rightarrow> sdmmc_storage_t" where
  "sd_storage_parse_csd s =
     (let raw = raw_csd s;
          c = (csd s)\<lparr>csd_structure := ucast (unstuff_bits raw 126 2), cmdclass := ucast (unstuff_bits raw 84 12),
                read_blkbits := unstuff_bits raw 80 4, write_protect := ucast (unstuff_bits raw 12 2)\<rparr>;
          c1 = (if csd_structure c = 0
                then c\<lparr>capacity := push_bit (unat (unstuff_bits raw 80 4 - 9))
                         (push_bit (unat (unstuff_bits raw 47 3 + 2)) (1 + unstuff_bits raw 62 12))\<rparr>
                else if csd_structure c = 1
                then c\<lparr>c_size := 1 + unstuff_bits raw 48 22, capacity := push_bit 10 (1 + unstuff_bits raw 48 22), read_blkbits := 9\<rparr>
                else c)
      in s\<lparr>csd := c1, sec_cnt := capacity c1\<rparr>)"

text \<open>Vendor fields of the registers. The two low words the code leaves unset below \<open>scr\<close> are zero; the field does not reach them.\<close>

record sd_vendor_info_t =
  info_cid_rsvd :: u8
  csd_rsvd8_9 :: u8
  csd_rsvd16_20 :: u8
  csd_rsvd29_30 :: u8
  csd_rsvd120_125 :: u8
  info_scr_vendor :: u32
  scr_rsvd :: u8
  ssr_vendor0_31 :: u32
  ssr_vendor32_63 :: u32
  ssr_vendor64_95 :: u32
  ssr_vendor96_127 :: u32
  ssr_vendor128_159 :: u32
  ssr_vendor160_191 :: u32
  ssr_vendor192_223 :: u32
  ssr_vendor224_255 :: u32
  ssr_vendor256_287 :: u32
  ssr_vendor288_311 :: u32
  ssr_rsvd314_327 :: u16
  ssr_rsvd340_345 :: u8
  ssr_rsvd378_383 :: u8
  ssr_rsvd424_427 :: u8
  ssr_rsvd496_501 :: u8

definition sd_storage_get_vendor_info :: "sdmmc_storage_t \<Rightarrow> sd_vendor_info_t" where
  "sd_storage_get_vendor_info s =
     (let w = [0, 0] @ words_le (raw_scr s) 0 2; ssr0 = words_le (raw_ssr s) 0 4; ssr1 = words_le (raw_ssr s) 16 4;
          ssr2 = words_le (raw_ssr s) 32 4; ssr3 = words_le (raw_ssr s) 48 4
      in \<lparr>info_cid_rsvd = ucast (cid_rsvd (cid s)), csd_rsvd8_9 = ucast (unstuff_bits (raw_csd s) 8 2), 
         csd_rsvd16_20 = ucast (unstuff_bits (raw_csd s) 16 5), csd_rsvd29_30 = ucast (unstuff_bits (raw_csd s) 29 2), 
         csd_rsvd120_125 = ucast (unstuff_bits (raw_csd s) 120 6), info_scr_vendor = scr_vendor (scr s), 
         scr_rsvd = ucast (unstuff_bits w 36 2), ssr_vendor0_31 = unstuff_bits ssr3 0 32, 
         ssr_vendor32_63 = unstuff_bits ssr3 32 32, ssr_vendor64_95 = unstuff_bits ssr3 64 32, 
         ssr_vendor96_127 = unstuff_bits ssr3 96 32, ssr_vendor128_159 = unstuff_bits ssr2 128 32, 
         ssr_vendor160_191 = unstuff_bits ssr2 160 32, ssr_vendor192_223 = unstuff_bits ssr2 192 32, 
         ssr_vendor224_255 = unstuff_bits ssr2 224 32, ssr_vendor256_287 = unstuff_bits ssr1 256 32, 
         ssr_vendor288_311 = unstuff_bits ssr1 288 24, ssr_rsvd314_327 = ucast (unstuff_bits ssr1 314 14), 
         ssr_rsvd340_345 = ucast (unstuff_bits ssr1 340 6), ssr_rsvd378_383 = ucast (unstuff_bits ssr1 378 6), 
         ssr_rsvd424_427 = ucast (unstuff_bits ssr0 424 4), ssr_rsvd496_501 = ucast (unstuff_bits ssr0 496 6)\<rparr>)"

subsection \<open>Functions of the card\<close>

record sd_func_modes_t =
  access_mode :: u16
  cmd_system :: u16
  driver_strength :: u16
  power_limit :: u16

text \<open>The operations of this part fill a buffer of the caller and return it.\<close>

definition sd_storage_switch_get_all :: "'h host_env \<Rightarrow> u8 list \<Rightarrow> 'h dev \<Rightarrow> bool \<times> u8 list \<times> 'h dev" where
  "sd_storage_switch_get_all env buf d =
     (let (err, buf1, n, d1) = exec_req env (sdmmc_init_cmd SD_SWITCH 0xFFFFFF SDMMC_RSP_TYPE_1 0) (single_req buf SDMMC_CMD_BLOCKSIZE False) d
      in if err then (True, buf1, d1) else (sdmmc_storage_check_cached_card_status d1, buf1, d1))"

definition sd_storage_switch :: "'h host_env \<Rightarrow> u8 list \<Rightarrow> u32 \<Rightarrow> nat \<Rightarrow> u32 \<Rightarrow> 'h dev \<Rightarrow> bool \<times> u8 list \<times> 'h dev" where
  "sd_storage_switch env buf mode grp arg d =
     (let switchcmd = ((push_bit 31 mode OR 0x00FFFFFF) AND NOT (push_bit (grp * 4) 0xF)) OR push_bit (grp * 4) arg;
          (err, buf1, n, d1) = exec_req env (sdmmc_init_cmd SD_SWITCH switchcmd SDMMC_RSP_TYPE_1 0) (single_req buf SDMMC_CMD_BLOCKSIZE False) d
      in if err then (True, buf1, d1) else (sdmmc_storage_check_cached_card_status d1, buf1, d1))"

definition sd_storage_set_power_limit :: "'h host_env \<Rightarrow> u16 \<Rightarrow> u8 list \<Rightarrow> 'h dev \<Rightarrow> u8 list \<times> 'h dev" where
  "sd_storage_set_power_limit env limit buf d =
     (let pwr = (if limit AND SD_MAX_POWER_1_44 \<noteq> 0 then SD_SET_POWER_LIMIT_1_44 else SD_SET_POWER_LIMIT_0_72);
          (err, buf1, d1) = sd_storage_switch env buf SD_SWITCH_SET SD_SWITCH_GRP_PWRLIM pwr d
      in (buf1, d1))"

definition sd_storage_set_driver_type :: "'h host_env \<Rightarrow> u32 \<Rightarrow> u8 list \<Rightarrow> 'h dev \<Rightarrow> bool \<times> u8 list \<times> 'h dev" where
  "sd_storage_set_driver_type env driver buf d =
     (let (err, buf1, d1) = sd_storage_switch env buf SD_SWITCH_CHECK SD_SWITCH_GRP_DRVSTR driver d;
          driver_out = (ucast (buf1 ! 15) AND 0xF :: u32)
      in if err \<or> driver_out \<noteq> driver then (True, buf1, d1)
         else let (err2, buf2, d2) = sd_storage_switch env buf1 SD_SWITCH_SET SD_SWITCH_GRP_DRVSTR driver d1
              in if err2 \<or> driver_out \<noteq> ucast (buf2 ! 15) AND 0xF then (True, buf2, d2)
                 else (False, buf2, d2\<lparr>dev_mc := sdmmc_setup_drv_type env driver (dev_mc d2)\<rparr>))"

definition sd_storage_set_card_bus_speed :: "'h host_env \<Rightarrow> u32 \<Rightarrow> u8 list \<Rightarrow> 'h dev \<Rightarrow> bool \<times> u8 list \<times> 'h dev" where
  "sd_storage_set_card_bus_speed env hs_type buf d =
     (let (err, buf1, d1) = sd_storage_switch env buf SD_SWITCH_CHECK SD_SWITCH_GRP_ACCESS hs_type d;
          type_out = (ucast (buf1 ! 16) AND 0xF :: u32);
          total_pwr_consumption = (push_bit 8 (ucast (buf1 ! 0)) OR ucast (buf1 ! 1) :: u16)
      in if err \<or> type_out \<noteq> hs_type then (True, buf1, d1)
         else let d2 = set_st (\<lambda>s. s\<lparr>max_power := ucast total_pwr_consumption\<rparr>) d1
              in if total_pwr_consumption \<le> 800
                 then let (err3, buf3, d3) = sd_storage_switch env buf1 SD_SWITCH_SET SD_SWITCH_GRP_ACCESS hs_type d2
                      in (err3 \<or> type_out \<noteq> ucast (buf3 ! 16) AND 0xF, buf3, d3)
                 else (True, buf1, d2))"

definition fmodes_of :: "u8 list \<Rightarrow> sd_func_modes_t" where
  "fmodes_of buf =
     \<lparr>access_mode = ucast (buf ! 13) OR push_bit 8 (ucast (buf ! 12)), cmd_system = ucast (buf ! 11) OR push_bit 8 (ucast (buf ! 10)),
      driver_strength = ucast (buf ! 9) OR push_bit 8 (ucast (buf ! 8)), power_limit = ucast (buf ! 7) OR push_bit 8 (ucast (buf ! 6))\<rparr>"

definition sd_storage_get_fmodes :: "'h host_env \<Rightarrow> u8 list \<Rightarrow> 'h dev \<Rightarrow> sd_func_modes_t option \<times> u8 list \<times> 'h dev" where
  "sd_storage_get_fmodes env buf d =
     (let (err, buf1, d1) = sd_storage_switch_get_all env buf d in (if err then None else Some (fmodes_of buf1), buf1, d1))"

subsection \<open>Bus speed\<close>

text \<open>The buffer of the storage, kept through an operation that uses it.\<close>

definition set_ext_csd :: "u8 list \<Rightarrow> 'h dev \<Rightarrow> 'h dev" where
  "set_ext_csd buf d = set_st (\<lambda>s. s\<lparr>raw_ext_csd := buf\<rparr>) d"

text \<open>
  The cases of the switch fall through to the next lower speed the card has. The first of them assigns
  \<open>type\<close> before it looks at it, so the speed asked for makes no difference there.
\<close>

definition uhs_select :: "u32 \<Rightarrow> u16 \<Rightarrow> (u32 \<times> u32 \<times> u16) option" where
  "uhs_select type am =
     (if type \<in> {SDHCI_TIMING_UHS_SDR104, SDHCI_TIMING_UHS_SDR82} \<and> am AND SD_MODE_UHS_SDR104 \<noteq> 0
      then Some (SDHCI_TIMING_UHS_SDR104, UHS_SDR104_BUS_SPEED, 104)
      else if type \<in> {SDHCI_TIMING_UHS_SDR104, SDHCI_TIMING_UHS_SDR82, SDHCI_TIMING_UHS_SDR50} \<and> am AND SD_MODE_UHS_SDR50 \<noteq> 0
      then Some (SDHCI_TIMING_UHS_SDR50, UHS_SDR50_BUS_SPEED, 50)
      else if type \<in> {SDHCI_TIMING_UHS_SDR104, SDHCI_TIMING_UHS_SDR82, SDHCI_TIMING_UHS_SDR50, SDHCI_TIMING_UHS_SDR25} \<and> am AND SD_MODE_UHS_SDR25 \<noteq> 0
      then Some (SDHCI_TIMING_UHS_SDR25, UHS_SDR25_BUS_SPEED, 25)
      else None)"

definition sd_storage_set_uhs_bus_speed :: "'h host_env \<Rightarrow> u32 \<Rightarrow> 'h dev_op" where
  "sd_storage_set_uhs_bus_speed env type0 d =
     (if sdmmc_get_bus_width env (dev_mc d) \<noteq> SDMMC_BUS_WIDTH_4 then (True, d)
      else case sd_storage_get_fmodes env (raw_ext_csd (dev_st d)) d of
             (None, buf, d1) \<Rightarrow> (True, set_ext_csd buf d1)
           | (Some fmodes, buf, d1) \<Rightarrow>
               (case uhs_select type0 (access_mode fmodes) of
                  None \<Rightarrow> (False, set_busspeed 12 (set_ext_csd buf d1))
                | Some (type, hs_type, speed) \<Rightarrow>
                    let d2 = set_busspeed speed (set_ext_csd buf d1);
                        (buf3, d3) = (if hs_type \<noteq> UHS_SDR25_BUS_SPEED then sd_storage_set_power_limit env (power_limit fmodes) buf d2 else (buf, d2));
                        (err4, buf4, d4) = sd_storage_set_card_bus_speed env hs_type buf3 d3;
                        d5 = set_ext_csd buf4 d4
                    in if err4 then (True, d5)
                       else run_steps [drv_op (sdmmc_setup_clock env type), drv_op (sdmmc_tuning_execute env type SD_SEND_TUNING_BLOCK),
                                       sdmmc_storage_check_status env] d5))"

definition sd_storage_set_hs25_bus_speed :: "'h host_env \<Rightarrow> 'h dev_op" where
  "sd_storage_set_hs25_bus_speed env d =
     (case sd_storage_get_fmodes env (raw_ext_csd (dev_st d)) d of
        (None, buf, d1) \<Rightarrow> (True, set_ext_csd buf d1)
      | (Some fmodes, buf, d1) \<Rightarrow>
          if access_mode fmodes AND SD_MODE_HIGH_SPEED = 0 then (False, set_ext_csd buf d1)
          else let (err2, buf2, d2) = sd_storage_set_card_bus_speed env HIGH_SPEED_BUS_SPEED buf (set_ext_csd buf d1);
                   d3 = set_ext_csd buf2 d2
               in if err2 then (True, d3)
                  else run_steps [sdmmc_storage_check_status env, drv_op (sdmmc_setup_clock env SDHCI_TIMING_SD_HS25)] d3)"

definition sd_storage_get_ddr200_support :: "'h host_env \<Rightarrow> 'h dev_op" where
  "sd_storage_get_ddr200_support env d =
     (case sd_storage_get_fmodes env (raw_ext_csd (dev_st d)) d of
        (None, buf, d1) \<Rightarrow> (False, set_ext_csd buf d1)
      | (Some fmodes, buf, d1) \<Rightarrow>
          let s = dev_st d1; d2 = set_ext_csd buf d1
          in if cid_year (cid s) < 2018 then (False, d2)
             else if access_mode fmodes AND SD_MODE_UHS_SDR104 = 0 then (False, d2)
             else if cmd_system fmodes AND SD_CMD_SYSTEM_VND = 0 then (False, d2)
             else if sd_storage_get_scr_sda_ver s < 5 then (False, d2)
             else if manfid (cid s) = 0x03 then (prv (cid s) \<ge> 0x80, d2)
             else if cid_rsvd (cid s) = 0xA \<or> cid_rsvd (cid s) = 0x7 then (True, d2)
             else (scr_vendor (scr s) AND 0xFFFF = 0x6432, d2))"

subsection \<open>Extension registers\<close>

definition sd_storage_parse_perf_enhance ::
  "'h host_env \<Rightarrow> u8 \<Rightarrow> u8 \<Rightarrow> u16 \<Rightarrow> u8 list \<Rightarrow> 'h dev \<Rightarrow> bool \<times> u8 list \<times> 'h dev" where
  "sd_storage_parse_perf_enhance env fno page offset buf d =
     (let pe = perf_enhance (ssr (dev_st d));
          d1 = set_st (\<lambda>s. s\<lparr>ser := (ser s)\<lparr>ser_cache := drop_bit 2 pe AND 1, ser_cmdq := drop_bit 3 pe AND 0x1F\<rparr>\<rparr>) d;
          (err, buf2, d2) = sd_storage_get_ext_reg env fno page offset 512 buf d1
      in if err then (True, buf2, set_st (\<lambda>s. s\<lparr>ser := (ser s)\<lparr>ser_cache_ext := 0, ser_cmdq_ext := 0\<rparr>\<rparr>) d2)
         else (False, buf2, set_st (\<lambda>s. s\<lparr>ser := (ser s)\<lparr>ser_cache_ext := buf2 ! 4 AND 1, ser_cmdq_ext := buf2 ! 6 AND 0x1F\<rparr>\<rparr>) d2))"

text \<open>One extension: the address of the next, the buffer and the device; no result is a read past the buffer.\<close>

definition sd_storage_parse_ext_reg :: "'h host_env \<Rightarrow> u8 list \<Rightarrow> u16 \<Rightarrow> 'h dev \<Rightarrow> (u16 \<times> u8 list \<times> 'h dev) option" where
  "sd_storage_parse_ext_reg env buf addr d =
     (let a = unat addr
      in if a + 43 > length buf then None
         else let addr_next = push_bit 8 (ucast (buf ! (a + 41))) OR ucast (buf ! (a + 40));
                  sfc = (push_bit 8 (ucast (buf ! (a + 1))) OR ucast (buf ! a) :: u16)
              in if sfc = 2 \<and> buf ! (a + 42) = 1
                 then if a + 48 > length buf then None
                      else let set0 = (get_le 4 buf (a + 44) :: u32);
                               (err, buf1, d1) = sd_storage_parse_perf_enhance env (ucast (drop_bit 18 set0 AND 0xFF)) (ucast (drop_bit 9 set0 AND 0xFF))
                                                   (ucast (set0 AND 0x1FF)) buf d
                           in Some (addr_next, buf1, if err then set_st (\<lambda>s. s\<lparr>ser := (ser s)\<lparr>ser_valid := True\<rparr>\<rparr>) d1 else d1)
                 else Some (addr_next, buf, d))"

fun ext_reg_loop :: "'h host_env \<Rightarrow> nat \<Rightarrow> u16 \<Rightarrow> u16 \<Rightarrow> u8 list \<Rightarrow> 'h dev \<Rightarrow> (u8 list \<times> 'h dev) option" where
  "ext_reg_loop env 0 len addr buf d = Some (buf, d)"
| "ext_reg_loop env (Suc n) len addr buf d =
     (if addr < len
      then (case sd_storage_parse_ext_reg env buf addr d of None \<Rightarrow> None | Some (addr1, buf1, d1) \<Rightarrow> ext_reg_loop env n len addr1 buf1 d1)
      else Some (buf, d))"

definition sd_storage_get_ext_regs :: "'h host_env \<Rightarrow> u8 list \<Rightarrow> 'h dev \<Rightarrow> (u8 list \<times> 'h dev) option" where
  "sd_storage_get_ext_regs env buf d =
     (if scr_cmds (scr (dev_st d)) AND 4 = 0 then Some (buf, d)
      else let (err, buf1, d1) = sd_storage_get_ext_reg env 0 0 0 512 buf d
           in if err then Some (buf1, d1)
              else ext_reg_loop env (unat (buf1 ! 4)) (push_bit 8 (ucast (buf1 ! 3)) OR ucast (buf1 ! 2)) 16 buf1 d1)"

subsection \<open>Initialisation\<close>

definition sd_storage_get_bus_uhs_support :: "u32 \<Rightarrow> u32 \<Rightarrow> bool" where
  "sd_storage_get_bus_uhs_support bus_width type \<longleftrightarrow>
     type \<in> {SDHCI_TIMING_UHS_SDR12, SDHCI_TIMING_UHS_SDR25, SDHCI_TIMING_UHS_SDR50, SDHCI_TIMING_UHS_SDR104, SDHCI_TIMING_UHS_SDR82,
             SDHCI_TIMING_UHS_DDR50, SDHCI_TIMING_UHS_DDR200} \<and> bus_width = SDMMC_BUS_WIDTH_4"

definition sdmmc_storage_init_wait_sd :: "'h host_env \<Rightarrow> 'h dev \<Rightarrow> 'h dev" where
  "sdmmc_storage_init_wait_sd env d =
     (let sd_poweroff_time = tmr_ms env d - sd_power_cycle_time_start env (mc_hw (dev_mc d))
      in if sd_poweroff_time < 239 then msleep env (239 - sd_poweroff_time) d else d)"

definition sd_voltage_and_ocr :: "'h host_env \<Rightarrow> bool \<Rightarrow> 'h dev_op" where
  "sd_voltage_and_ocr env lv_support d =
     (let (err, is_sd_v1, d1) = sd_storage_send_if_cond env False d
      in if err then (True, d1) else sd_storage_get_op_cond env is_sd_v1 lv_support d1)"

definition sd_wide_bus :: "u32 \<Rightarrow> sdmmc_storage_t \<Rightarrow> bool" where
  "sd_wide_bus bus_width s \<longleftrightarrow>
     bus_width = SDMMC_BUS_WIDTH_4 \<and> bus_widths (scr s) AND ucast (BIT (unat SD_BUS_WIDTH_4)) \<noteq> 0 \<and> sda_vsn (scr s) \<noteq> 0"

text \<open>Bus width and speed. The width used is four bits exactly when the card was switched to it.\<close>

definition sd_bus_setup :: "'h host_env \<Rightarrow> u32 \<Rightarrow> u32 \<Rightarrow> 'h dev_op" where
  "sd_bus_setup env bus_width type d =
     (let wide = sd_wide_bus bus_width (dev_st d)
      in run_steps
        ((if wide then [sd_storage_execute_app_cmd_tran env SD_APP_SET_BUS_WIDTH SD_BUS_WIDTH_4, drv_do (sdmmc_set_bus_width env SDMMC_BUS_WIDTH_4)] else []) @
         (if is_low_voltage (dev_st d) then [sd_storage_set_uhs_bus_speed env type]
          else if type \<noteq> SDHCI_TIMING_SD_DS12 \<and> sda_vsn (scr (dev_st d)) \<noteq> 0
          then [sd_storage_set_hs25_bus_speed env, effect (set_busspeed (if wide then 25 else 6))]
          else [])) d)"

definition sdmmc_storage_init_sd :: "'h host_env \<Rightarrow> u32 \<Rightarrow> u32 \<Rightarrow> 'h dev_op" where
  "sdmmc_storage_init_sd env bus_width type d =
     run_steps
       [effect (sdmmc_storage_init_wait_sd env),
        effect (set_st (\<lambda>s. zero_storage)),
        drv_op (sdmmc_init env SDMMC_1 SDMMC_POWER_3_3 SDMMC_BUS_WIDTH_1 SDHCI_TIMING_SD_ID),
        effect (init_wait env 74),
        sdmmc_storage_go_idle_state env,
        sd_voltage_and_ocr env (sd_storage_get_bus_uhs_support bus_width type),
        sdmmc_storage_get_cid env,
        effect (set_st sd_storage_parse_cid),
        sd_storage_get_rca env,
        sdmmc_storage_get_csd env,
        effect (set_st sd_storage_parse_csd),
        \<lambda>d. if is_low_voltage (dev_st d) then (False, d) else drv_op (sdmmc_setup_clock env SDHCI_TIMING_SD_DS12) d,
        sdmmc_storage_select_card env,
        sdmmc_storage_set_blocklen env SDMMC_DAT_BLOCKSIZE,
        sd_storage_execute_app_cmd_tran env SD_APP_SET_CLR_CARD_DETECT 0,
        sd_storage_get_scr env,
        sd_bus_setup env bus_width type,
        \<lambda>d. (False, snd (sd_storage_get_ssr env d)),
        drv_do (sdmmc_card_clock_powersave env SDMMC_POWER_SAVE_ENABLE),
        effect (set_st (\<lambda>s. s\<lparr>initialized := True\<rparr>))] d"

subsection \<open>Game cards\<close>

definition gc_storage_custom_cmd :: "'h host_env \<Rightarrow> u8 list \<Rightarrow> 'h dev_op" where
  "gc_storage_custom_cmd env buf d =
     (let (err, buf1, n, d1) = exec_req env (sdmmc_init_cmd MMC_VENDOR_CMD_60 0 SDMMC_RSP_TYPE_1 1) (single_req buf SDMMC_CMD_BLOCKSIZE True) d
      in if err then (True, d1\<lparr>dev_mc := sdmmc_stop_transmission env (dev_mc d1)\<rparr>)
         else if sdmmc_storage_check_cached_card_status d1 then (True, d1)
         else sdmmc_storage_check_status env d1)"

definition sdmmc_storage_init_gc :: "'h host_env \<Rightarrow> 'h dev_op" where
  "sdmmc_storage_init_gc env d =
     run_steps
       [effect (set_st (\<lambda>s. zero_storage)),
        drv_op (sdmmc_init env SDMMC_2 SDMMC_POWER_1_8 SDMMC_BUS_WIDTH_8 SDHCI_TIMING_MMC_HS100),
        effect (init_wait env 10),
        drv_op (sdmmc_tuning_execute env SDHCI_TIMING_MMC_HS100 MMC_SEND_TUNING_BLOCK_HS200),
        drv_do (sdmmc_card_clock_powersave env SDMMC_POWER_SAVE_ENABLE),
        effect (set_st (\<lambda>s. s\<lparr>initialized := True\<rparr>))] d"

end
