(* ===== verification/Sdmmc_Rw.thy ===== *)
theory Sdmmc_Rw
  imports Sdmmc_Sd
begin

text \<open>
  SD and eMMC storage, \<open>bdk/storage/sdmmc.c\<close>, fourth part: reading and writing sectors. A transfer that
  fails is tried again; when it goes on failing the card is initialised anew, in a slower mode each
  time, and the whole request starts over. The front ends of \<open>sd.c\<close> and \<open>emmc.c\<close> do the initialisation,
  here with the functions of this file in place of their parameters.
\<close>

subsection \<open>State\<close>

text \<open>The three storages of the program. The state of the front ends holds theirs.\<close>

datatype storage_ptr = Sd_storage | Emmc_storage | Gc_storage

record 'h sdworld =
  w_sd :: "'h dev sd_state"
  w_emmc :: "'h dev emmc_state"
  w_gc :: "'h dev"
  w_alt :: "u8 list"

definition storage_dev :: "storage_ptr \<Rightarrow> 'h sdworld \<Rightarrow> 'h dev" where
  "storage_dev p w = (case p of Sd_storage \<Rightarrow> sd_dev (w_sd w) | Emmc_storage \<Rightarrow> emmc_dev (w_emmc w) | Gc_storage \<Rightarrow> w_gc w)"

definition set_storage_dev :: "storage_ptr \<Rightarrow> 'h dev \<Rightarrow> 'h sdworld \<Rightarrow> 'h sdworld" where
  "set_storage_dev p d w =
     (case p of Sd_storage \<Rightarrow> w\<lparr>w_sd := (w_sd w)\<lparr>sd_dev := d\<rparr>\<rparr> | Emmc_storage \<Rightarrow> w\<lparr>w_emmc := (w_emmc w)\<lparr>emmc_dev := d\<rparr>\<rparr> | Gc_storage \<Rightarrow> w\<lparr>w_gc := d\<rparr>)"

text \<open>The host driver, with what the SD front end needs of the card detection and the file system.\<close>

record ('h, 'f) rw_env =
  rw_host :: "'h host_env"
  rw_sd :: "('h dev, 'f) sd_env"

definition sd_env_of :: "('h, 'f) rw_env \<Rightarrow> ('h dev, 'f) sd_env" where
  "sd_env_of E =
     (rw_sd E)\<lparr>uhs_ddr200 := False, sd_storage_init := sdmmc_storage_init_sd (rw_host E),
              sd_storage_end := (\<lambda>d. snd (sdmmc_storage_end (rw_host E) d))\<rparr>"

text \<open>Initialisation neither reads nor writes through the front end.\<close>

definition emmc_env_of :: "('h, 'f) rw_env \<Rightarrow> 'h dev emmc_env" where
  "emmc_env_of E =
     \<lparr>emmc_storage_init = sdmmc_storage_init_mmc (rw_host E), emmc_storage_end = (\<lambda>d. snd (sdmmc_storage_end (rw_host E) d)),
      emmc_storage_set_partition = sdmmc_storage_set_mmc_partition (rw_host E),
      emmc_storage_read = (\<lambda>a n d. (True, [], d)), emmc_storage_write = (\<lambda>a n b d. (True, d))\<rparr>"

subsection \<open>One transfer\<close>

definition sdmmc_storage_readwrite_ex ::
  "'h host_env \<Rightarrow> u32 \<Rightarrow> u32 \<Rightarrow> u8 list \<Rightarrow> bool \<Rightarrow> 'h dev \<Rightarrow> bool \<times> u8 list \<times> u32 \<times> 'h dev" where
  "sdmmc_storage_readwrite_ex env sector0 n buf wr d =
     (let sector = (if has_sector_access (dev_st d) then sector0 else push_bit 9 sector0);
          c = sdmmc_init_cmd (if wr then MMC_WRITE_MULTIPLE_BLOCK else MMC_READ_MULTIPLE_BLOCK) sector SDMMC_RSP_TYPE_1 0;
          r = \<lparr>req_buf = buf, blksize = SDMMC_DAT_BLOCKSIZE, num_sectors = n, is_write = wr, is_multi_block = True, is_auto_stop_trn = True\<rparr>;
          (err, buf1, blkcnt, d1) = exec_req env c r d
      in if err
         then let d2 = d1\<lparr>dev_mc := sdmmc_stop_transmission env (dev_mc d1)\<rparr>
              in (True, buf1, blkcnt, snd (snd (sdmmc_storage_get_status env 0 0 d2)))
         else (sdmmc_storage_check_cached_card_status d1, buf1, blkcnt, d1))"

subsection \<open>Recovery\<close>

definition sdmmc_storage_handle_io_error :: "('h, 'f) rw_env \<Rightarrow> storage_ptr \<Rightarrow> bool \<Rightarrow> 'h sdworld \<Rightarrow> bool \<times> 'h sdworld" where
  "sdmmc_storage_handle_io_error E p first_reinit w =
     (let id = mc_id (dev_mc (storage_dev p w))
      in if id = SDMMC_1
         then let s = sd_error_count_increment SD_ERROR_RW_FAIL (w_sd w);
                  (res, s1) = (if first_reinit then sd_initialize (sd_env_of E) True s else sd_init_retry (sd_env_of E) True s)
              in (res, w\<lparr>w_sd := if res \<and> \<not> first_reinit then sd_error_count_increment SD_ERROR_INIT_FAIL s1 else s1\<rparr>)
         else if id = SDMMC_4
         then let s = emmc_error_count_increment EMMC_ERROR_RW_FAIL (w_emmc w);
                  (res, s1) = (if first_reinit then emmc_initialize (emmc_env_of E) True s else emmc_init_retry (emmc_env_of E) True s)
              in (res, w\<lparr>w_emmc := if res \<and> \<not> first_reinit then emmc_error_count_increment EMMC_ERROR_INIT_FAIL s1 else s1\<rparr>)
         else (True, w))"

text \<open>After a failed try: the retry counter of the SD card, whatever the storage, and a pause.\<close>

definition rw_pause :: "('h, 'f) rw_env \<Rightarrow> storage_ptr \<Rightarrow> 'h sdworld \<Rightarrow> 'h sdworld" where
  "rw_pause E p w =
     (let w1 = w\<lparr>w_sd := sd_error_count_increment SD_ERROR_RW_RETRY (w_sd w)\<rparr>
      in set_storage_dev p (msleep (rw_host E) 50 (storage_dev p w1)) w1)"

subsection \<open>Requests\<close>

text \<open>
  Both loops in one: a try at \<open>sct_off\<close> with \<open>retries\<close> left. A transfer that does nothing would repeat for
  ever; that it returns is shown in \<open>Sdmmc_Data\<close>.
\<close>

partial_function (option) rw_loop ::
  "('h, 'f) rw_env \<Rightarrow> storage_ptr \<Rightarrow> bool \<Rightarrow> u32 \<Rightarrow> u32 \<Rightarrow> nat \<Rightarrow> bool \<Rightarrow> u32 \<Rightarrow> u32 \<Rightarrow> nat \<Rightarrow> u8 list \<Rightarrow> 'h sdworld \<Rightarrow>
   (bool \<times> u8 list \<times> 'h sdworld) option" where
  "rw_loop E p wr sector num retries first_reinit sct_off sct_total boff buf w =
     (let (err, part, blkcnt, d) =
            sdmmc_storage_readwrite_ex (rw_host E) sct_off (MIN32 sct_total SDMMC_AMAX_BLOCKNUM) (drop boff buf) wr (storage_dev p w);
          buf1 = take boff buf @ part;
          w1 = set_storage_dev p d w
      in if \<not> err
         then (if sct_total - blkcnt = 0 then Some (False, buf1, w1)
               else rw_loop E p wr sector num 5 first_reinit (sct_off + blkcnt) (sct_total - blkcnt) (boff + unat (SDMMC_DAT_BLOCKSIZE * blkcnt)) buf1 w1)
         else let w2 = rw_pause E p w1
              in if retries > 1 then rw_loop E p wr sector num (retries - 1) first_reinit sct_off sct_total boff buf1 w2
                 else let (res, w3) = sdmmc_storage_handle_io_error E p first_reinit w2
                      in if \<not> res then rw_loop E p wr sector num 3 False sector num 0 buf1 w3
                         else Some (True, buf1, w3))"

definition sdmmc_storage_readwrite ::
  "('h, 'f) rw_env \<Rightarrow> storage_ptr \<Rightarrow> u32 \<Rightarrow> u32 \<Rightarrow> u8 list \<Rightarrow> bool \<Rightarrow> 'h sdworld \<Rightarrow> (bool \<times> u8 list \<times> 'h sdworld) option" where
  "sdmmc_storage_readwrite E p sector num buf wr w =
     (let s = dev_st (storage_dev p w)
      in if \<not> initialized s then Some (True, buf, w)
         else if (ucast sector + ucast num :: u64) > ucast (sec_cnt s) then Some (True, buf, w)
         else if num = 0 then Some (False, buf, w)
         else rw_loop E p wr sector num 5 True sector num 0 buf w)"

text \<open>
  \<open>dma_ok\<close> is whether the address of the buffer can be used by the controller: it has access to it and it
  is aligned to 8. Otherwise the data goes through a buffer at a fixed address, of 128 megabytes.
\<close>

definition SDMMC_ALT_DMA_BUF_SZ :: u32 where "SDMMC_ALT_DMA_BUF_SZ = 0x8000000"

definition sdmmc_storage_read ::
  "('h, 'f) rw_env \<Rightarrow> storage_ptr \<Rightarrow> u32 \<Rightarrow> u32 \<Rightarrow> bool \<Rightarrow> u8 list \<Rightarrow> 'h sdworld \<Rightarrow> (bool \<times> u8 list \<times> 'h sdworld) option" where
  "sdmmc_storage_read E p sector num dma_ok buf w =
     (if dma_ok then sdmmc_storage_readwrite E p sector num buf False w
      else if num > SDMMC_ALT_DMA_BUF_SZ div SDMMC_DAT_BLOCKSIZE then Some (True, buf, w)
      else let len = unat (SDMMC_DAT_BLOCKSIZE * num)
           in case sdmmc_storage_readwrite E p sector num (take len (w_alt w)) False w of
                None \<Rightarrow> None
              | Some (err, tmp, w1) \<Rightarrow>
                  let w2 = w1\<lparr>w_alt := tmp @ drop len (w_alt w)\<rparr> in Some (if err then (True, buf, w2) else (False, buf_fill buf (take len tmp), w2)))"

definition sdmmc_storage_write ::
  "('h, 'f) rw_env \<Rightarrow> storage_ptr \<Rightarrow> u32 \<Rightarrow> u32 \<Rightarrow> bool \<Rightarrow> u8 list \<Rightarrow> 'h sdworld \<Rightarrow> (bool \<times> 'h sdworld) option" where
  "sdmmc_storage_write E p sector num dma_ok buf w =
     (if dma_ok then map_option (\<lambda>(err, b, w1). (err, w1)) (sdmmc_storage_readwrite E p sector num buf True w)
      else if num > SDMMC_ALT_DMA_BUF_SZ div SDMMC_DAT_BLOCKSIZE then Some (True, w)
      else let len = unat (SDMMC_DAT_BLOCKSIZE * num);
               w1 = w\<lparr>w_alt := take len buf @ drop len (w_alt w)\<rparr>
           in map_option (\<lambda>(err, b, w2). (err, w2\<lparr>w_alt := b @ drop len (w_alt w2)\<rparr>)) (sdmmc_storage_readwrite E p sector num (take len buf) True w1))"

end
