(* ===== verification/Sdmmc_Safe.thy ===== *)
theory Sdmmc_Safe
  imports Sdmmc_Rw
begin

text \<open>
  What the operations of \<open>bdk/storage/sdmmc.c\<close> leave alone: the contract of a controller with a card in
  it, and that no operation but a write of sectors changes what the card holds.
\<close>

subsection \<open>A card in the controller\<close>

text \<open>
  A card seen through the controller: the 512 bytes of every sector of the area that is addressed,
  whether the card is addressed by sectors, and whether the area is the one after power on.
\<close>

record 'h card =
  card_sec :: "'h \<Rightarrow> nat \<Rightarrow> u8 list"
  card_ccs :: bool
  card_main :: "'h \<Rightarrow> bool"

definition card_addr :: "'h card \<Rightarrow> u32 \<Rightarrow> nat" where
  "card_addr K arg = (if card_ccs K then unat arg else unat arg div 512)"

definition put_blocks :: "nat \<Rightarrow> u8 list \<Rightarrow> nat \<Rightarrow> (nat \<Rightarrow> u8 list) \<Rightarrow> nat \<Rightarrow> u8 list" where
  "put_blocks a buf k f i = (if a \<le> i \<and> i < a + k then take 512 (drop (512 * (i - a)) buf) else f i)"

text \<open>Nothing of this changes from one state of the controller to another.\<close>

definition mc_keeps :: "'h card \<Rightarrow> 'h sdmmc_t \<Rightarrow> 'h sdmmc_t \<Rightarrow> bool" where
  "mc_keeps K m m' \<longleftrightarrow> (card_main K (mc_hw m) \<longrightarrow>
     card_main K (mc_hw m') \<and> card_sec K (mc_hw m') = card_sec K (mc_hw m) \<and> mc_id m' = mc_id m)"

text \<open>
  Commands that neither write nor erase nor select another area of an eMMC: identification, selection,
  status, registers, reads, and switches of other than the partition configuration.
\<close>

definition plain_cmd :: "sdmmc_cmd_t \<Rightarrow> bool" where
  "plain_cmd c \<longleftrightarrow> cmd_no c \<in> {0, 1, 2, 3, 7, 8, 9, 11, 13, 16, 18, 41, 42, 48, 51, 55} \<or>
     cmd_no c = 6 \<and> drop_bit 16 (cmd_arg c) AND 0xFF \<noteq> 0xB3"

definition transfer_req :: "bool \<Rightarrow> sdmmc_req_t \<Rightarrow> bool" where
  "transfer_req wr r \<longleftrightarrow> is_write r = wr \<and> blksize r = 512 \<and> 0 < num_sectors r \<and> num_sectors r \<le> 0xF000 \<and> length (req_buf r) \<ge> 512 * unat (num_sectors r)"

text \<open>The documented effect of the two transfer commands, on success and on failure.\<close>

definition reads_ok :: "'h host_env \<Rightarrow> 'h card \<Rightarrow> bool" where
  "reads_ok env K \<longleftrightarrow> (\<forall>c r m data n m'. card_main K (mc_hw m) \<and> cmd_no c = 18 \<and> rsp_type c = 1 \<and> transfer_req False r \<and>
     sdmmc_execute_cmd env c (Some r) m = (False, data, n, m') \<longrightarrow>
     n = num_sectors r \<and> expected_rsp_type m' = 1 \<and>
     (\<not> sdmmc_storage_check_card_status (mc_rsp m' ! 0) \<longrightarrow>
        data = concat (map (card_sec K (mc_hw m)) [card_addr K (cmd_arg c)..<card_addr K (cmd_arg c) + unat n])))"

definition writes_ok :: "'h host_env \<Rightarrow> 'h card \<Rightarrow> bool" where
  "writes_ok env K \<longleftrightarrow> (\<forall>c r m err data n m'. card_main K (mc_hw m) \<and> cmd_no c = 25 \<and> rsp_type c = 1 \<and> transfer_req True r \<and>
     sdmmc_execute_cmd env c (Some r) m = (err, data, n, m') \<longrightarrow>
     data = [] \<and> card_main K (mc_hw m') \<and> mc_id m' = mc_id m \<and>
     (\<forall>i. i < card_addr K (cmd_arg c) \<or> card_addr K (cmd_arg c) + unat (num_sectors r) \<le> i \<longrightarrow> card_sec K (mc_hw m') i = card_sec K (mc_hw m) i) \<and>
     (\<not> err \<longrightarrow> n = num_sectors r \<and> expected_rsp_type m' = 1 \<and>
        (\<not> sdmmc_storage_check_card_status (mc_rsp m' ! 0) \<longrightarrow>
           card_sec K (mc_hw m') = put_blocks (card_addr K (cmd_arg c)) (req_buf r) (unat n) (card_sec K (mc_hw m)))))"

text \<open>A card that reports the end of its power up also reports how it is addressed.\<close>

definition ocr_ok :: "'h host_env \<Rightarrow> 'h card \<Rightarrow> bool" where
  "ocr_ok env K \<longleftrightarrow> (\<forall>c m data n m'. card_main K (mc_hw m) \<and> cmd_no c \<in> {1, 41} \<and> rsp_type c = 3 \<and>
     sdmmc_execute_cmd env c None m = (False, data, n, m') \<and> mc_rsp m' ! 0 AND 0x80000000 \<noteq> 0 \<longrightarrow>
     (mc_rsp m' ! 0 AND 0x40000000 \<noteq> 0 \<longleftrightarrow> card_ccs K))"

definition driver_ok :: "'h host_env \<Rightarrow> 'h card \<Rightarrow> bool" where
  "driver_ok env K \<longleftrightarrow>
     (\<forall>c r m. plain_cmd c \<longrightarrow> mc_keeps K m (snd (snd (snd (sdmmc_execute_cmd env c r m))))) \<and>
     (\<forall>m. mc_keeps K m (sdmmc_stop_transmission env m)) \<and>
     (\<forall>i p b t m. card_main K (mc_hw m) \<longrightarrow> card_main K (mc_hw (snd (sdmmc_init env i p b t m))) \<and>
        card_sec K (mc_hw (snd (sdmmc_init env i p b t m))) = card_sec K (mc_hw m) \<and> mc_id (snd (sdmmc_init env i p b t m)) = i) \<and>
     (\<forall>m. mc_keeps K m (sdmmc_end env m)) \<and>
     (\<forall>t m. mc_keeps K m (snd (sdmmc_setup_clock env t m))) \<and>
     (\<forall>t c m. mc_keeps K m (snd (sdmmc_tuning_execute env t c m))) \<and>
     (\<forall>m. mc_keeps K m (snd (sdmmc_enable_low_voltage env m))) \<and>
     (\<forall>b m. mc_keeps K m (sdmmc_set_bus_width env b m)) \<and>
     (\<forall>m. mc_keeps K m (sdmmc_save_tap_value env m)) \<and>
     (\<forall>t m. mc_keeps K m (sdmmc_setup_drv_type env t m)) \<and>
     (\<forall>e m. mc_keeps K m (sdmmc_card_clock_powersave env e m)) \<and>
     (\<forall>us h. card_main K h \<longrightarrow> card_main K (usleep env us h) \<and> card_sec K (usleep env us h) = card_sec K h)"

definition card_host :: "'h host_env \<Rightarrow> 'h card \<Rightarrow> bool" where
  "card_host env K \<longleftrightarrow> driver_ok env K \<and> reads_ok env K \<and> writes_ok env K \<and> ocr_ok env K \<and> (\<forall>h i. length (card_sec K h i) = 512)"

lemma driver_okD:
  assumes "driver_ok env K"
  shows "plain_cmd c \<Longrightarrow> mc_keeps K m (snd (snd (snd (sdmmc_execute_cmd env c r m))))"
    "mc_keeps K m (sdmmc_stop_transmission env m)" "mc_keeps K m (sdmmc_end env m)" "mc_keeps K m (snd (sdmmc_setup_clock env t m))"
    "mc_keeps K m (snd (sdmmc_tuning_execute env t cc m))" "mc_keeps K m (snd (sdmmc_enable_low_voltage env m))"
    "mc_keeps K m (sdmmc_set_bus_width env b m)" "mc_keeps K m (sdmmc_save_tap_value env m)" "mc_keeps K m (sdmmc_setup_drv_type env t m)"
    "mc_keeps K m (sdmmc_card_clock_powersave env e m)"
  using assms by (simp_all add: driver_ok_def)

subsection \<open>Operations that keep the card and the mode of access\<close>

definition keeps :: "'h card \<Rightarrow> 'h dev \<Rightarrow> 'h dev \<Rightarrow> bool" where
  "keeps K d d' \<longleftrightarrow> mc_keeps K (dev_mc d) (dev_mc d') \<and>
     initialized (dev_st d') = initialized (dev_st d) \<and> has_sector_access (dev_st d') = has_sector_access (dev_st d)"

lemma mc_keeps_refl [simp, intro]: "mc_keeps K m m"
  by (simp add: mc_keeps_def)

lemma keeps_refl [simp, intro]: "keeps K d d"
  by (simp add: keeps_def)

lemma keeps_trans [trans]: "keeps K a b \<Longrightarrow> keeps K b c \<Longrightarrow> keeps K a c"
  by (auto simp: keeps_def mc_keeps_def)

text \<open>Steps of an operation compose; the rules for operations are collected.\<close>

definition stable :: "'h card \<Rightarrow> 'h dev_op \<Rightarrow> bool" where
  "stable K f \<longleftrightarrow> (\<forall>d. keeps K d (snd (f d)))"

named_theorems stable_intros "operations that keep the card"

lemma stableI: "(\<And>d. keeps K d (snd (f d))) \<Longrightarrow> stable K f"
  by (simp add: stable_def)

lemma stableD: "stable K f \<Longrightarrow> keeps K d (snd (f d))"
  by (simp add: stable_def)

lemma keeps_steps:
  "\<forall>f \<in> set fs. stable K f \<Longrightarrow> keeps K d (snd (run_steps fs d))"
proof (induction fs arbitrary: d)
  case (Cons f fs)
  have "keeps K d (snd (f d))" using Cons.prems by (simp add: stableD)
  then show ?case using Cons by (auto simp: run_steps.simps split_def Let_def intro: keeps_trans)
qed (simp add: run_steps.simps)

lemma stable_effect [stable_intros]:
  assumes "\<And>s. initialized (g s) = initialized s" "\<And>s. has_sector_access (g s) = has_sector_access s"
  shows "stable K (effect (set_st g))"
  using assms by (intro stableI) (simp add: effect_def set_st_def keeps_def)

lemma keeps_set_st:
  "keeps K d d1 \<Longrightarrow> (\<And>s. initialized (g s) = initialized s) \<Longrightarrow> (\<And>s. has_sector_access (g s) = has_sector_access s) \<Longrightarrow> keeps K d (set_st g d1)"
  by (simp add: set_st_def keeps_def)

lemma keeps_mc: "mc_keeps K (dev_mc d) m \<Longrightarrow> keeps K d (d\<lparr>dev_mc := m\<rparr>)"
  by (simp add: keeps_def)

lemma stable_drv_op [stable_intros]: "(\<And>m. mc_keeps K m (snd (f m))) \<Longrightarrow> stable K (drv_op f)"
  by (intro stableI) (simp add: drv_op_def split_def Let_def keeps_mc)

lemma stable_drv_do [stable_intros]: "(\<And>m. mc_keeps K m (f m)) \<Longrightarrow> stable K (drv_do f)"
  by (intro stableI) (simp add: drv_do_def keeps_mc)

lemma keeps_delay: "driver_ok env K \<Longrightarrow> keeps K d (delay env us d)"
  by (simp add: delay_def keeps_def mc_keeps_def driver_ok_def)

lemma keeps_exec_cmd: "driver_ok env K \<Longrightarrow> plain_cmd c \<Longrightarrow> keeps K d (snd (exec_cmd env c d))"
  by (simp add: exec_cmd_def split_def Let_def keeps_mc driver_okD)

lemma keeps_exec_req: "driver_ok env K \<Longrightarrow> plain_cmd c \<Longrightarrow> keeps K d (snd (snd (snd (exec_req env c r d))))"
  by (simp add: exec_req_def split_def Let_def keeps_mc driver_okD)

lemma plain_init_cmd [simp]:
  "plain_cmd (sdmmc_init_cmd c arg rt busy) \<longleftrightarrow> (ucast c :: u16) \<in> {0, 1, 2, 3, 7, 8, 9, 11, 13, 16, 18, 41, 42, 48, 51, 55} \<or>
     (ucast c :: u16) = 6 \<and> drop_bit 16 arg AND 0xFF \<noteq> 0xB3"
  by (simp add: plain_cmd_def sdmmc_init_cmd_def)

lemma keeps_masked:
  "driver_ok env K \<Longrightarrow> plain_cmd (sdmmc_init_cmd c arg SDMMC_RSP_TYPE_1 busy) \<Longrightarrow>
   keeps K d (snd (snd (sdmmc_storage_execute_cmd_ex_masked env resp c arg busy st msk d)))"
  using keeps_exec_cmd [of env K "sdmmc_init_cmd c arg SDMMC_RSP_TYPE_1 busy" d]
  by (simp add: sdmmc_storage_execute_cmd_ex_masked_def split_def Let_def)

lemma stable_ex_state [stable_intros]:
  "driver_ok env K \<Longrightarrow> plain_cmd (sdmmc_init_cmd c arg SDMMC_RSP_TYPE_1 busy) \<Longrightarrow>
   stable K (sdmmc_storage_execute_cmd_ex_state env c arg busy st)"
  by (intro stableI) (simp add: sdmmc_storage_execute_cmd_ex_state_def split_def Let_def keeps_masked del: plain_init_cmd)

lemma stable_go_idle [stable_intros]: "driver_ok env K \<Longrightarrow> stable K (sdmmc_storage_go_idle_state env)"
  by (intro stableI) (simp add: sdmmc_storage_go_idle_state_def keeps_exec_cmd MMC_GO_IDLE_STATE_def)

lemma stable_get_cid [stable_intros]: "driver_ok env K \<Longrightarrow> stable K (sdmmc_storage_get_cid env)"
  using keeps_exec_cmd [of env K "sdmmc_init_cmd MMC_ALL_SEND_CID 0 SDMMC_RSP_TYPE_2 0"]
  by (intro stableI) (auto simp: sdmmc_storage_get_cid_def split_def Let_def MMC_ALL_SEND_CID_def intro!: keeps_set_st split: option.split)

lemma stable_get_csd [stable_intros]: "driver_ok env K \<Longrightarrow> stable K (sdmmc_storage_get_csd env)"
  using keeps_exec_cmd [of env K "sdmmc_init_cmd MMC_SEND_CSD arg SDMMC_RSP_TYPE_2 0" for arg]
  by (intro stableI) (auto simp: sdmmc_storage_get_csd_def split_def Let_def MMC_SEND_CSD_def intro!: keeps_set_st split: option.split)

lemma stable_select_card [stable_intros]: "driver_ok env K \<Longrightarrow> stable K (sdmmc_storage_select_card env)"
  by (intro stableI) (simp add: sdmmc_storage_select_card_def stableD stable_ex_state MMC_SELECT_CARD_def)

lemma stable_set_blocklen [stable_intros]: "driver_ok env K \<Longrightarrow> stable K (sdmmc_storage_set_blocklen env n)"
  by (intro stableI) (simp add: sdmmc_storage_set_blocklen_def stableD stable_ex_state MMC_SET_BLOCKLEN_def)

lemma keeps_get_status: "driver_ok env K \<Longrightarrow> keeps K d (snd (snd (sdmmc_storage_get_status env resp msk d)))"
  by (simp add: sdmmc_storage_get_status_def keeps_masked MMC_SEND_STATUS_def)

lemma stable_check_status [stable_intros]: "driver_ok env K \<Longrightarrow> stable K (sdmmc_storage_check_status env)"
  by (intro stableI) (simp add: sdmmc_storage_check_status_def split_def Let_def keeps_get_status)

lemma keeps_timed_poll:
  assumes "driver_ok env K" "\<And>r d. keeps K d (snd (snd (step r d)))"
  shows "keeps K d (snd (timed_poll n env step timeout us r d))"
proof (induction n arbitrary: r d)
  case (Suc n)
  have "keeps K d (delay env us (snd (snd (step r d))))" using assms by (blast intro: keeps_trans keeps_delay)
  then show ?case using Suc assms(2) by (auto simp: split_def Let_def intro: keeps_trans)
qed simp

subsection \<open>Initialisation of an eMMC\<close>

lemma stable_mmc_switch [stable_intros]:
  "driver_ok env K \<Longrightarrow> drop_bit 16 arg AND 0xFF \<noteq> 0xB3 \<Longrightarrow> stable K (mmc_storage_switch env arg)"
  by (intro stableI) (simp add: mmc_storage_switch_def stableD stable_ex_state MMC_SWITCH_def)

lemma stable_set_relative_addr [stable_intros]: "driver_ok env K \<Longrightarrow> stable K (mmc_storage_set_relative_addr env)"
  by (intro stableI) (simp add: mmc_storage_set_relative_addr_def stableD stable_ex_state MMC_SET_RELATIVE_ADDR_def)

lemmas mmc_switch_consts = SDMMC_SWITCH_def MMC_SWITCH_MODE_WRITE_BYTE_def EXT_CSD_BUS_WIDTH_def EXT_CSD_BUS_WIDTH_4_def EXT_CSD_BUS_WIDTH_8_def
  EXT_CSD_DDR_BUS_WIDTH_8_def EXT_CSD_HS_TIMING_def EXT_CSD_TIMING_HS_def EXT_CSD_TIMING_HS200_def EXT_CSD_TIMING_HS400_def

lemma stable_buswidth [stable_intros]: "driver_ok env K \<Longrightarrow> stable K (mmc_storage_switch_buswidth env bw)"
  by (intro stableI) (auto simp: mmc_storage_switch_buswidth_def Let_def mmc_switch_consts driver_okD intro!: keeps_steps stable_intros)

lemma stable_busspeed [stable_intros]: "stable K (effect (set_busspeed v))"
  by (intro stableI) (simp add: effect_def set_busspeed_def set_st_def keeps_def)

lemma stable_enable_HS [stable_intros]: "driver_ok env K \<Longrightarrow> stable K (mmc_storage_enable_HS env b)"
  by (intro stableI) (auto simp: mmc_storage_enable_HS_def mmc_switch_consts driver_okD intro!: keeps_steps stable_intros)

lemma stable_enable_HS200 [stable_intros]: "driver_ok env K \<Longrightarrow> stable K (mmc_storage_enable_HS200 env)"
  by (intro stableI) (auto simp: mmc_storage_enable_HS200_def mmc_switch_consts driver_okD intro!: keeps_steps stable_intros)

lemma stable_enable_HS400 [stable_intros]: "driver_ok env K \<Longrightarrow> stable K (mmc_storage_enable_HS400 env)"
  by (intro stableI) (auto simp: mmc_storage_enable_HS400_def mmc_switch_consts driver_okD intro!: keeps_steps stable_intros)

lemma keeps_highspeed: "driver_ok env K \<Longrightarrow> keeps K d (snd (mmc_storage_enable_highspeed env ct t d))"
  by (auto simp: mmc_storage_enable_highspeed_def Let_def intro: stableD stable_intros)

lemma parse_ext_csd_keeps [simp]:
  "initialized (mmc_storage_parse_ext_csd s) = initialized s" "has_sector_access (mmc_storage_parse_ext_csd s) = has_sector_access s"
  by (simp_all add: mmc_storage_parse_ext_csd_def Let_def)

lemma parse_regs_keep [simp]:
  "initialized (mmc_storage_parse_csd s) = initialized s" "has_sector_access (mmc_storage_parse_csd s) = has_sector_access s"
  "initialized (mmc_storage_parse_cid s) = initialized s" "has_sector_access (mmc_storage_parse_cid s) = has_sector_access s"
  by (simp_all add: mmc_storage_parse_csd_def mmc_storage_parse_cid_def Let_def)

lemma stable_get_ext_csd [stable_intros]: "driver_ok env K \<Longrightarrow> stable K (mmc_storage_get_ext_csd env)"
  using keeps_exec_req [of env K "sdmmc_init_cmd MMC_SEND_EXT_CSD 0 SDMMC_RSP_TYPE_1 0"]
  by (intro stableI) (auto simp: mmc_storage_get_ext_csd_def split_def Let_def MMC_SEND_EXT_CSD_def intro!: keeps_set_st)

lemma stable_mmc_features [stable_intros]: "driver_ok env K \<Longrightarrow> stable K (mmc_features env bw t)"
  by (intro stableI) (auto simp: mmc_features_def driver_okD keeps_highspeed intro!: keeps_steps stable_intros stableI [of K "\<lambda>d. mmc_storage_enable_highspeed env (f d) t d" for f])

text \<open>
  A storage being initialised: the controller's card untouched, the storage not marked yet. The mode of
  access is known once the card has reported it.
\<close>

definition fresh :: "'h card \<Rightarrow> (nat \<Rightarrow> u8 list) \<Rightarrow> u32 \<Rightarrow> bool \<Rightarrow> 'h dev \<Rightarrow> bool" where
  "fresh K F i h d \<longleftrightarrow> card_main K (mc_hw (dev_mc d)) \<and> card_sec K (mc_hw (dev_mc d)) = F \<and> mc_id (dev_mc d) = i \<and>
     \<not> initialized (dev_st d) \<and> has_sector_access (dev_st d) = h"

lemma fresh_keeps: "fresh K F i h d \<Longrightarrow> keeps K d d' \<Longrightarrow> fresh K F i h d'"
  by (simp add: fresh_def keeps_def mc_keeps_def)

lemma fresh_step: "fresh K F i h d \<Longrightarrow> stable K f \<Longrightarrow> fresh K F i h (snd (f d))"
  by (rule fresh_keeps) (auto dest: stableD)

lemma run_steps_append:
  "run_steps (as @ bs) d = (let (err, d1) = run_steps as d in if err then (True, d1) else run_steps bs d1)"
  by (induction as arbitrary: d) (simp_all add: run_steps.simps split_def Let_def)

lemma timed_poll_rule:
  assumes "P d" "Q r d"
    and step: "\<And>r d. P d \<Longrightarrow> Q r d \<Longrightarrow> Q (fst (snd (step r d))) (snd (snd (step r d))) \<and> (\<not> fst (step r d) \<longrightarrow> P (snd (snd (step r d))))"
    and wait: "\<And>d. P d \<Longrightarrow> P (delay env us d)" "\<And>r d. Q r d \<Longrightarrow> Q r (delay env us d)"
  shows "Q (fst (timed_poll n env step timeout us r d)) (snd (timed_poll n env step timeout us r d))"
  using assms(1,2)
proof (induction n arbitrary: r d)
  case (Suc n)
  then show ?case using step [of d r] wait by (auto simp: split_def Let_def)
qed simp

text \<open>The result of a poll for the end of power up, of either kind of card.\<close>

definition ocr_known :: "'h card \<Rightarrow> (nat \<Rightarrow> u8 list) \<Rightarrow> u32 \<Rightarrow> bool \<Rightarrow> 'h dev \<Rightarrow> bool" where
  "ocr_known K F i err d \<longleftrightarrow> (\<exists>h. fresh K F i h d) \<and> (\<not> err \<longrightarrow> fresh K F i (card_ccs K) d)"

lemma ocr_known_keeps: "ocr_known K F i err d \<Longrightarrow> keeps K d d' \<Longrightarrow> ocr_known K F i err d'"
  by (auto simp: ocr_known_def intro: fresh_keeps)

lemma ocr_known_ccs: "fresh K F i (card_ccs K) d \<Longrightarrow> ocr_known K F i err d"
  by (auto simp: ocr_known_def)

lemma ocr_poll:
  assumes "driver_ok env K" "fresh K F i False d"
    and "\<And>r d. fresh K F i False d \<Longrightarrow> ocr_known K F i (fst (snd (step r d))) (snd (snd (step r d))) \<and>
      (\<not> fst (step r d) \<longrightarrow> fresh K F i False (snd (snd (step r d))))"
  shows "ocr_known K F i (fst (timed_poll n env step timeout us True d)) (snd (timed_poll n env step timeout us True d))"
  by (rule timed_poll_rule [where P = "fresh K F i False"])
    (use assms in \<open>auto simp: ocr_known_def intro: fresh_keeps keeps_delay\<close>)

lemma ocr_response:
  assumes "ocr_ok env K" "card_main K (mc_hw (dev_mc d))" "cmd_no c \<in> {1, 41}" "rsp_type c = SDMMC_RSP_TYPE_3" "exec_cmd env c d = (False, d1)"
    and "sdmmc_get_cached_rsp (dev_mc d1) SDMMC_RSP_TYPE_3 = Some r" "hd r AND 0x80000000 \<noteq> 0"
  shows "hd r AND 0x40000000 \<noteq> 0 \<longleftrightarrow> card_ccs K"
proof -
  obtain data n m where m: "sdmmc_execute_cmd env c None (dev_mc d) = (False, data, n, m)" "d1 = d\<lparr>dev_mc := m\<rparr>"
    using assms(5) by (auto simp: exec_cmd_def split_def Let_def prod_eq_iff)
  have "r = [mc_rsp m ! 0]" using assms(6) m(2) by (simp add: sdmmc_get_cached_rsp_def rsp_type_defs split: if_splits)
  then show ?thesis using assms(1-4,7) m(1) unfolding ocr_ok_def rsp_type_defs by auto
qed

lemma fresh_access: "fresh K F i False d \<Longrightarrow> fresh K F i h (if h then set_st (\<lambda>s. s\<lparr>has_sector_access := True\<rparr>) d else d)"
  by (simp add: fresh_def set_st_def)

lemma mmc_op_cond_step_ok:
  assumes "driver_ok env K" "ocr_ok env K" "fresh K F i False d"
  shows "ocr_known K F i (fst (snd (mmc_op_cond_step env SDMMC_POWER_1_8 r d))) (snd (snd (mmc_op_cond_step env SDMMC_POWER_1_8 r d))) \<and>
    (\<not> fst (mmc_op_cond_step env SDMMC_POWER_1_8 r d) \<longrightarrow> fresh K F i False (snd (snd (mmc_op_cond_step env SDMMC_POWER_1_8 r d))))"
proof -
  define c where "c = sdmmc_init_cmd MMC_SEND_OP_COND (MMC_OCR_HCS OR MMC_OCR_VCCQ_18) SDMMC_RSP_TYPE_3 0"
  obtain err d1 where e: "exec_cmd env c d = (err, d1)" by force
  have c: "plain_cmd c" "cmd_no c \<in> {1, 41}" "rsp_type c = SDMMC_RSP_TYPE_3"
    by (simp_all add: c_def MMC_SEND_OP_COND_def sdmmc_init_cmd_def plain_cmd_def)
  have f: "fresh K F i False d1" using fresh_keeps [OF assms(3) keeps_exec_cmd [OF assms(1) c(1)]] e by simp
  have m: "card_main K (mc_hw (dev_mc d))" using assms(3) by (simp add: fresh_def)
  have k: "ocr_known K F i True d1" using f by (auto simp: ocr_known_def)
  show ?thesis
  proof (cases "err \<or> sdmmc_get_cached_rsp (dev_mc d1) SDMMC_RSP_TYPE_3 = None")
    case True
    then show ?thesis using k e by (auto simp: mmc_op_cond_step_def mmc_storage_get_op_cond_inner_def c_def [symmetric])
  next
    case False
    then obtain w where w: "\<not> err" "sdmmc_get_cached_rsp (dev_mc d1) SDMMC_RSP_TYPE_3 = Some w" by auto
    have inner: "mmc_storage_get_op_cond_inner env 0 SDMMC_POWER_1_8 d = (False, hd w, d1)"
      using w e by (simp add: mmc_storage_get_op_cond_inner_def c_def [symmetric])
    have "hd w AND 0x80000000 \<noteq> 0 \<Longrightarrow> hd w AND 0x40000000 \<noteq> 0 \<longleftrightarrow> card_ccs K"
      by (rule ocr_response [OF assms(2) m c(2,3) _ w(2)]) (use e w in simp_all)
    then show ?thesis using fresh_access [OF f, of "card_ccs K"] k f
      by (auto simp: mmc_op_cond_step_def inner MMC_OCR_BUSY_def MMC_OCR_CCS_def intro: ocr_known_ccs split: if_splits)
  qed
qed

lemma stable_list: "\<forall>f \<in> set fs. stable K f \<Longrightarrow> fresh K F i h d \<Longrightarrow> fresh K F i h (snd (run_steps fs d))"
  by (blast intro: fresh_keeps keeps_steps)

text \<open>
  The result of an initialisation: the card untouched, the storage marked exactly on success, and then
  with the right mode of access. Both initialisations share their frame: a part up to the poll, the
  poll, a part after it, and the mark.
\<close>

definition init_result :: "'h card \<Rightarrow> (nat \<Rightarrow> u8 list) \<Rightarrow> u32 \<Rightarrow> bool \<times> 'h dev \<Rightarrow> bool" where
  "init_result K F i r \<longleftrightarrow> card_main K (mc_hw (dev_mc (snd r))) \<and> card_sec K (mc_hw (dev_mc (snd r))) = F \<and> mc_id (dev_mc (snd r)) = i \<and>
     (initialized (dev_st (snd r)) \<longleftrightarrow> \<not> fst r) \<and> (\<not> fst r \<longrightarrow> has_sector_access (dev_st (snd r)) = card_ccs K)"

lemma init_frame:
  assumes "fresh K F i False (snd (run_steps pre d))" "ocr_known K F i (fst (poll d1)) (snd (poll d1))" "d1 = snd (run_steps pre d)"
    and "\<forall>f \<in> set post. stable K f"
  defines "r \<equiv> run_steps (pre @ [poll] @ post @ [effect (set_st (\<lambda>s. s\<lparr>initialized := True\<rparr>))]) d"
  shows "init_result K F i r"
proof -
  define d2 where "d2 = snd (poll d1)"
  define d3 where "d3 = snd (run_steps post d2)"
  have p: "\<exists>h. fresh K F i h d2" "\<not> fst (poll d1) \<longrightarrow> fresh K F i (card_ccs K) d2" using assms(2) by (simp_all add: ocr_known_def d2_def)
  have q: "fresh K F i (card_ccs K) d3" if "\<not> fst (poll d1)" unfolding d3_def using stable_list [OF assms(4)] p(2) that by blast
  have "r = (if fst (run_steps pre d) then (True, d1) else if fst (poll d1) then (True, d2)
      else if fst (run_steps post d2) then (True, d3) else (False, set_st (\<lambda>s. s\<lparr>initialized := True\<rparr>) d3))"
    unfolding r_def run_steps_append assms(3) [symmetric]
    by (simp add: run_steps.simps effect_def split_def Let_def assms(3) d2_def d3_def)
  then show ?thesis using assms(1,3) p q by (auto simp: init_result_def fresh_def set_st_def)
qed

lemma fresh_memset:
  "card_main K (mc_hw (dev_mc d)) \<Longrightarrow> card_sec K (mc_hw (dev_mc d)) = F \<Longrightarrow> mc_id (dev_mc d) = i \<Longrightarrow> s \<in> {zero_storage, zero_storage\<lparr>rca := 2\<rparr>} \<Longrightarrow>
   fresh K F i False (set_st (\<lambda>_. s) d)"
  by (auto simp: fresh_def set_st_def zero_storage_def)

lemma fresh_init:
  assumes "driver_ok env K" "fresh K F j h d"
  shows "fresh K F i h (snd (drv_op (sdmmc_init env i p b t) d))"
  using assms by (simp add: drv_op_def split_def Let_def fresh_def driver_ok_def)

lemma init_pre:
  assumes ok: "driver_ok env K" and d: "card_main K (mc_hw (dev_mc d))" and s0: "s0 \<in> {zero_storage, zero_storage\<lparr>rca := 2\<rparr>}"
  shows "fresh K (card_sec K (mc_hw (dev_mc d))) i False
    (snd (run_steps [effect (set_st (\<lambda>s. s0)), drv_op (sdmmc_init env i p b t), effect (init_wait env n), sdmmc_storage_go_idle_state env] d))"
proof -
  define F where "F = card_sec K (mc_hw (dev_mc d))"
  define d0 where "d0 = set_st (\<lambda>_. s0) d"
  have f0: "fresh K F (mc_id (dev_mc d)) False d0" unfolding d0_def by (rule fresh_memset) (use d s0 in \<open>simp_all add: F_def\<close>)
  define d1 where "d1 = snd (drv_op (sdmmc_init env i p b t) d0)"
  have f1: "fresh K F i False d1" unfolding d1_def by (rule fresh_init [OF ok f0])
  have w: "stable K (effect (init_wait env n))" by (intro stableI) (simp add: effect_def init_wait_def Let_def keeps_delay ok)
  have "fresh K F i False (snd (run_steps [effect (init_wait env n), sdmmc_storage_go_idle_state env] d1))"
    by (rule stable_list [OF _ f1]) (use w ok in \<open>auto intro: stable_intros\<close>)
  then show ?thesis using f1 by (simp add: run_steps.simps effect_def split_def Let_def d0_def d1_def F_def)
qed

lemma init_mmc_ok:
  assumes "card_host env K" "card_main K (mc_hw (dev_mc d))"
  shows "init_result K (card_sec K (mc_hw (dev_mc d))) SDMMC_4 (sdmmc_storage_init_mmc env bw t d)"
proof -
  have ok: "driver_ok env K" "ocr_ok env K" using assms(1) by (simp_all add: card_host_def)
  define F where "F = card_sec K (mc_hw (dev_mc d))"
  define pre where "pre = [effect (set_st (\<lambda>s. zero_storage\<lparr>rca := 2\<rparr>)), drv_op (sdmmc_init env SDMMC_4 SDMMC_POWER_1_8 SDMMC_BUS_WIDTH_1 SDHCI_TIMING_MMC_ID),
    effect (init_wait env 74), sdmmc_storage_go_idle_state env]"
  have f: "fresh K F SDMMC_4 False (snd (run_steps pre d))" unfolding pre_def F_def by (rule init_pre [OF ok(1) assms(2)]) simp
  have o: "ocr_known K F SDMMC_4 (fst (mmc_storage_get_op_cond env SDMMC_POWER_1_8 d)) (snd (mmc_storage_get_op_cond env SDMMC_POWER_1_8 d))"
    if "fresh K F SDMMC_4 False d" for d
    unfolding mmc_storage_get_op_cond_def by (rule ocr_poll [OF ok(1) that mmc_op_cond_step_ok [OF ok]])
  define post where "post = [sdmmc_storage_get_cid env, mmc_storage_set_relative_addr env, sdmmc_storage_get_csd env, effect (set_st mmc_storage_parse_csd),
    drv_op (sdmmc_setup_clock env SDHCI_TIMING_MMC_LS26), sdmmc_storage_select_card env, sdmmc_storage_set_blocklen env SDMMC_DAT_BLOCKSIZE, mmc_features env bw t]"
  have s: "\<forall>f \<in> set post. stable K f" using ok(1) by (auto simp: post_def driver_okD intro!: stable_intros)
  have r: "sdmmc_storage_init_mmc env bw t d =
      run_steps (pre @ [mmc_storage_get_op_cond env SDMMC_POWER_1_8] @ post @ [effect (set_st (\<lambda>s. s\<lparr>initialized := True\<rparr>))]) d"
    by (simp add: sdmmc_storage_init_mmc_def pre_def post_def)
  show ?thesis unfolding r F_def [symmetric] by (rule init_frame [where poll = "mmc_storage_get_op_cond env SDMMC_POWER_1_8", OF f o [OF f] refl s])
qed

subsection \<open>Initialisation of an SD card\<close>

lemma keeps_app_cmd:
  assumes "driver_ok env K" "plain_cmd c"
  shows "keeps K d (snd (snd (sd_storage_execute_app_cmd env st msk c req d)))"
proof -
  define d1 where "d1 = snd (snd (sdmmc_storage_execute_cmd_ex_masked env 0 MMC_APP_CMD (push_bit 16 (rca (dev_st d))) 0 st msk d))"
  have k: "keeps K d d1" unfolding d1_def by (rule keeps_masked [OF assms(1)]) (simp add: MMC_APP_CMD_def)
  have "keeps K d1 (snd (exec_cmd env c d1))" "keeps K d1 (snd (snd (snd (exec_req env c r d1))))" for r
    by (rule keeps_exec_cmd [OF assms] keeps_exec_req [OF assms])+
  then show ?thesis using k by (auto simp: sd_storage_execute_app_cmd_def split_def Let_def d1_def [symmetric] intro: keeps_trans split: option.split)
qed

lemma stable_app_cmd_tran [stable_intros]:
  "driver_ok env K \<Longrightarrow> plain_cmd (sdmmc_init_cmd c arg SDMMC_RSP_TYPE_1 0) \<Longrightarrow> stable K (sd_storage_execute_app_cmd_tran env c arg)"
  by (intro stableI) (auto simp: sd_storage_execute_app_cmd_tran_def MMC_APP_CMD_def simp del: plain_init_cmd intro!: keeps_steps stable_ex_state, simp)

lemma sd_parse_keeps [simp]:
  "initialized (sd_storage_parse_scr s) = initialized s" "has_sector_access (sd_storage_parse_scr s) = has_sector_access s"
  "initialized (sd_storage_parse_ssr s) = initialized s" "has_sector_access (sd_storage_parse_ssr s) = has_sector_access s"
  "initialized (sd_storage_parse_cid s) = initialized s" "has_sector_access (sd_storage_parse_cid s) = has_sector_access s"
  "initialized (sd_storage_parse_csd s) = initialized s" "has_sector_access (sd_storage_parse_csd s) = has_sector_access s"
  by (simp_all add: sd_storage_parse_scr_def sd_storage_parse_ssr_def sd_storage_parse_cid_def sd_storage_parse_csd_def Let_def)

lemma stable_get_scr [stable_intros]: "driver_ok env K \<Longrightarrow> stable K (sd_storage_get_scr env)"
  using keeps_app_cmd [of env K "sdmmc_init_cmd SD_APP_SEND_SCR 0 SDMMC_RSP_TYPE_1 0"]
  by (intro stableI) (auto simp: sd_storage_get_scr_def split_def Let_def SD_APP_SEND_SCR_def intro!: keeps_set_st)

lemma keeps_get_ssr: "driver_ok env K \<Longrightarrow> keeps K d (snd (sd_storage_get_ssr env d))"
  using keeps_app_cmd [of env K "sdmmc_init_cmd SD_APP_SD_STATUS 0 SDMMC_RSP_TYPE_1 0"]
  by (auto simp: sd_storage_get_ssr_def split_def Let_def SD_APP_SD_STATUS_def intro!: keeps_set_st)

lemma switch_not_partition:
  assumes "g \<le> 3"
  shows "drop_bit 16 (((push_bit 31 mode OR 0x00FFFFFF) AND NOT (push_bit (g * 4) 0xF)) OR x) AND 0xFF \<noteq> (0xB3 :: u32)"
proof
  assume e: "drop_bit 16 (((push_bit 31 mode OR 0x00FFFFFF) AND NOT (push_bit (g * 4) 0xF)) OR x) AND 0xFF = (0xB3 :: u32)"
  have "bit (drop_bit 16 (((push_bit 31 mode OR 0x00FFFFFF) AND NOT (push_bit (g * 4) 0xF)) OR x) AND (0xFF :: u32)) 2"
  proof -
    have "g = 0 \<or> g = 1 \<or> g = 2 \<or> g = 3" using assms by linarith
    then have "\<not> bit (push_bit (g * 4) (0xF :: u32)) 18" by (elim disjE) (simp_all add: bit_numeral_rec)
    moreover have "bit (0x00FFFFFF :: u32) 18" "bit (0xFF :: u32) 2" by (simp_all add: bit_numeral_rec)
    ultimately show ?thesis by (simp add: bit_simps)
  qed
  moreover have "\<not> bit (0xB3 :: u32) 2" by (simp add: bit_numeral_rec)
  ultimately show False using e by simp
qed

lemma keeps_switch:
  "driver_ok env K \<Longrightarrow> g \<le> 3 \<Longrightarrow> keeps K d (snd (snd (sd_storage_switch env buf mode g arg d)))"
  using keeps_exec_req [of env K "sdmmc_init_cmd SD_SWITCH (((push_bit 31 mode OR 0x00FFFFFF) AND NOT (push_bit (g * 4) 0xF)) OR push_bit (g * 4) arg) SDMMC_RSP_TYPE_1 0"
      d "single_req buf SDMMC_CMD_BLOCKSIZE False"] switch_not_partition [of g mode "push_bit (g * 4) arg"]
  by (simp add: sd_storage_switch_def split_def Let_def SD_SWITCH_def)

lemma keeps_get_fmodes: "driver_ok env K \<Longrightarrow> keeps K d (snd (snd (sd_storage_get_fmodes env buf d)))"
  using keeps_exec_req [of env K "sdmmc_init_cmd SD_SWITCH 0xFFFFFF SDMMC_RSP_TYPE_1 0" d "single_req buf SDMMC_CMD_BLOCKSIZE False"]
  by (simp add: sd_storage_get_fmodes_def sd_storage_switch_get_all_def split_def Let_def SD_SWITCH_def)

lemma keeps_power_limit: "driver_ok env K \<Longrightarrow> keeps K d (snd (sd_storage_set_power_limit env l buf d))"
  by (simp add: sd_storage_set_power_limit_def split_def Let_def keeps_switch SD_SWITCH_GRP_PWRLIM_def)

lemma keeps_ext_csd: "keeps K d (set_ext_csd buf d)"
  by (simp add: set_ext_csd_def keeps_set_st)

lemma keeps_busspeed: "keeps K d (set_busspeed v d)"
  by (simp add: set_busspeed_def keeps_set_st)

lemma keeps_card_bus_speed:
  assumes "driver_ok env K"
  shows "keeps K d (snd (snd (sd_storage_set_card_bus_speed env hs buf d)))"
proof -
  define a where "a = sd_storage_switch env buf SD_SWITCH_CHECK SD_SWITCH_GRP_ACCESS hs d"
  have a: "keeps K d (snd (snd a))" unfolding a_def by (rule keeps_switch [OF assms]) (simp add: SD_SWITCH_GRP_ACCESS_def)
  then have d2: "keeps K d (set_st (\<lambda>s. s\<lparr>max_power := v\<rparr>) (snd (snd a)))" for v by (rule keeps_set_st) simp_all
  have "keeps K d2 (snd (snd (sd_storage_switch env b SD_SWITCH_SET SD_SWITCH_GRP_ACCESS hs d2)))" for b d2
    by (rule keeps_switch [OF assms]) (simp add: SD_SWITCH_GRP_ACCESS_def)
  then have "keeps K d (snd (snd (sd_storage_switch env b SD_SWITCH_SET SD_SWITCH_GRP_ACCESS hs (set_st (\<lambda>s. s\<lparr>max_power := v\<rparr>) (snd (snd a))))))" for b v
    using d2 by (blast intro: keeps_trans)
  then show ?thesis using a d2 by (simp add: sd_storage_set_card_bus_speed_def split_def Let_def a_def [symmetric])
qed

lemma stable_set_uhs [stable_intros]:
  assumes "driver_ok env K"
  shows "stable K (sd_storage_set_uhs_bus_speed env t)"
proof (intro stableI)
  fix d :: "'a dev"
  obtain fm buf d1 where g: "sd_storage_get_fmodes env (raw_ext_csd (dev_st d)) d = (fm, buf, d1)" by (metis prod_cases3)
  have k1: "keeps K d (set_ext_csd buf d1)"
    using keeps_get_fmodes [OF assms, of d "raw_ext_csd (dev_st d)"] g by (auto intro: keeps_trans keeps_ext_csd)
  have speed: "keeps K d (set_busspeed v (set_ext_csd buf d1))" for v using k1 keeps_busspeed by (blast intro: keeps_trans)
  have rest: "keeps K d (snd (run_steps [drv_op (sdmmc_setup_clock env ty), drv_op (sdmmc_tuning_execute env ty SD_SEND_TUNING_BLOCK), sdmmc_storage_check_status env] d5))"
    if "keeps K d d5" for d5 ty
    by (rule keeps_trans [OF that keeps_steps]) (use assms in \<open>auto simp: driver_okD intro!: stable_intros\<close>)
  have conf: "keeps K d (set_ext_csd b (snd (snd (sd_storage_set_card_bus_speed env hs buf3 d3))))" if "keeps K d d3" for b hs buf3 d3
    using that keeps_card_bus_speed [OF assms] keeps_ext_csd by (meson keeps_trans)
  have pl: "keeps K d (snd (sd_storage_set_power_limit env l b (set_busspeed v (set_ext_csd buf d1))))" for l b v
    using speed keeps_power_limit [OF assms] by (meson keeps_trans)
  show "keeps K d (snd (sd_storage_set_uhs_bus_speed env t d))"
    using k1 speed conf [OF speed] conf [OF pl] rest [OF conf [OF speed]] rest [OF conf [OF pl]]
    by (auto simp: sd_storage_set_uhs_bus_speed_def g split_def Let_def split: option.split)
qed

lemma stable_set_hs25 [stable_intros]:
  assumes "driver_ok env K"
  shows "stable K (sd_storage_set_hs25_bus_speed env)"
proof (intro stableI)
  fix d :: "'a dev"
  obtain fm buf d1 where g: "sd_storage_get_fmodes env (raw_ext_csd (dev_st d)) d = (fm, buf, d1)" by (metis prod_cases3)
  have k1: "keeps K d (set_ext_csd buf d1)"
    using keeps_get_fmodes [OF assms, of d "raw_ext_csd (dev_st d)"] g by (auto intro: keeps_trans keeps_ext_csd)
  have conf: "keeps K d (set_ext_csd b (snd (snd (sd_storage_set_card_bus_speed env hs buf (set_ext_csd buf d1)))))" for b hs
    using k1 keeps_card_bus_speed [OF assms] keeps_ext_csd by (meson keeps_trans)
  have rest: "keeps K d (snd (run_steps [sdmmc_storage_check_status env, drv_op (sdmmc_setup_clock env SDHCI_TIMING_SD_HS25)] d5))" if "keeps K d d5" for d5
    by (rule keeps_trans [OF that keeps_steps]) (use assms in \<open>auto simp: driver_okD intro!: stable_intros\<close>)
  show "keeps K d (snd (sd_storage_set_hs25_bus_speed env d))"
    using k1 conf rest [OF conf] by (auto simp: sd_storage_set_hs25_bus_speed_def g split_def Let_def split: option.split)
qed

lemma stable_sd_bus_setup [stable_intros]: "driver_ok env K \<Longrightarrow> stable K (sd_bus_setup env bw t)"
  by (intro stableI) (auto simp: sd_bus_setup_def Let_def driver_okD SD_APP_SET_BUS_WIDTH_def SD_BUS_WIDTH_4_def intro!: keeps_steps stable_intros)

lemma stable_get_rca [stable_intros]: "driver_ok env K \<Longrightarrow> stable K (sd_storage_get_rca env)"
proof (intro stableI)
  fix d :: "'a dev"
  assume ok: "driver_ok env K"
  have "keeps K d (snd (snd (sd_rca_step env r d)))" for r and d :: "'a dev"
    using keeps_exec_cmd [OF ok, of "sdmmc_init_cmd SD_SEND_RELATIVE_ADDR 0 SDMMC_RSP_TYPE_6 0" d]
    by (auto simp: sd_rca_step_def split_def Let_def SD_SEND_RELATIVE_ADDR_def intro!: keeps_set_st split: option.split)
  then show "keeps K d (snd (sd_storage_get_rca env d))" unfolding sd_storage_get_rca_def by (rule keeps_timed_poll [OF ok])
qed

lemma stable_low_voltage [stable_intros]: "driver_ok env K \<Longrightarrow> stable K (sd_low_voltage env)"
  by (intro stableI) (auto simp: sd_low_voltage_def driver_okD intro!: keeps_steps stable_intros)

lemma keeps_send_if_cond: "driver_ok env K \<Longrightarrow> keeps K d (snd (snd (sd_storage_send_if_cond env v d)))"
  using keeps_exec_cmd [of env K "sdmmc_init_cmd SD_SEND_IF_COND (SD_ICR_PCIE OR SD_ICR_VHS_27_36 OR SD_ICR_PATTERN) SDMMC_RSP_TYPE_7 0" d]
  by (auto simp: sd_storage_send_if_cond_def split_def Let_def SD_SEND_IF_COND_def intro!: keeps_set_st)

lemma sd_op_cond_step_ok:
  assumes "driver_ok env K" "ocr_ok env K" "fresh K F i False d"
  shows "ocr_known K F i (fst (snd (sd_op_cond_step env ocr v1 lv r d))) (snd (snd (sd_op_cond_step env ocr v1 lv r d))) \<and>
    (\<not> fst (sd_op_cond_step env ocr v1 lv r d) \<longrightarrow> fresh K F i False (snd (snd (sd_op_cond_step env ocr v1 lv r d))))"
proof -
  define c where "c = sdmmc_init_cmd SD_APP_SD_SEND_OP_COND ocr SDMMC_RSP_TYPE_3 0"
  obtain e0 x d0 where m: "sdmmc_storage_execute_cmd_ex_masked env 0 MMC_APP_CMD (push_bit 16 (rca (dev_st d))) 0 R1_SKIP_STATE_CHECK
      (if v1 then R1_ILLEGAL_COMMAND else 0) d = (e0, x, d0)" by (metis prod_cases3)
  have f0: "fresh K F i False d0"
    using fresh_keeps [OF assms(3) keeps_masked [OF assms(1), of MMC_APP_CMD "push_bit 16 (rca (dev_st d))" 0 d 0 R1_SKIP_STATE_CHECK "if v1 then R1_ILLEGAL_COMMAND else 0"]] m
    by (simp add: MMC_APP_CMD_def)
  obtain err d1 where e: "exec_cmd env c d0 = (err, d1)" by force
  have c: "plain_cmd c" "cmd_no c \<in> {1, 41}" "rsp_type c = SDMMC_RSP_TYPE_3"
    by (simp_all add: c_def SD_APP_SD_SEND_OP_COND_def sdmmc_init_cmd_def plain_cmd_def)
  have f: "fresh K F i False d1" using fresh_keeps [OF f0 keeps_exec_cmd [OF assms(1) c(1)]] e by simp
  have main: "card_main K (mc_hw (dev_mc d0))" using f0 by (simp add: fresh_def)
  have k: "ocr_known K F i True d1" "ocr_known K F i True d0" using f f0 by (auto simp: ocr_known_def)
  show ?thesis
  proof (cases "e0 \<or> err \<or> sdmmc_get_cached_rsp (dev_mc d1) SDMMC_RSP_TYPE_3 = None")
    case True
    then show ?thesis using k e m by (auto simp: sd_op_cond_step_def sd_storage_send_op_cond_def sd_storage_execute_app_cmd_def c_def [symmetric])
  next
    case False
    then obtain w where w: "\<not> e0" "\<not> err" "sdmmc_get_cached_rsp (dev_mc d1) SDMMC_RSP_TYPE_3 = Some w" by auto
    have inner: "sd_storage_send_op_cond env 0 ocr v1 d = (False, hd w, d1)"
      using w e m by (simp add: sd_storage_send_op_cond_def sd_storage_execute_app_cmd_def c_def [symmetric])
    define d2 where "d2 = (if hd w AND SD_OCR_CCS \<noteq> 0 then set_st (\<lambda>s. s\<lparr>has_sector_access := True\<rparr>) d1 else d1)"
    show ?thesis
    proof (cases "hd w AND SD_OCR_BUSY \<noteq> 0")
      case True
      have "hd w AND 0x40000000 \<noteq> 0 \<longleftrightarrow> card_ccs K"
        by (rule ocr_response [OF assms(2) main c(2,3) _ w(3)]) (use e w True in \<open>simp_all add: SD_OCR_BUSY_def\<close>)
      then have d2: "fresh K F i (card_ccs K) d2" using fresh_access [OF f, of "card_ccs K"] by (simp add: d2_def SD_OCR_CCS_def)
      define v where "v = sdmmc_storage_execute_cmd_ex_state env SD_VOLTAGE_SWITCH 0 0 R1_STATE_READY d2"
      have v: "fresh K F i (card_ccs K) (snd v)" unfolding v_def
        by (rule fresh_step [OF d2 stable_ex_state [OF assms(1)]]) (simp add: SD_VOLTAGE_SWITCH_def)
      then have l: "fresh K F i (card_ccs K) (snd (sd_low_voltage env (snd v)))" by (rule fresh_step [OF _ stable_low_voltage [OF assms(1)]])
      have "sd_op_cond_step env ocr v1 lv r d = (if hd w AND SD_OCR_S18A \<noteq> 0 \<and> lv
          then if fst v then (True, False, snd v) else (True, fst (sd_low_voltage env (snd v)), snd (sd_low_voltage env (snd v))) else (True, False, d2))"
        unfolding sd_op_cond_step_def inner prod.case Let_def split_def fst_conv snd_conv d2_def [symmetric] v_def [symmetric] using True by simp
      then show ?thesis using d2 v l by (auto intro: ocr_known_ccs)
    next
      case False
      then show ?thesis using k f by (simp add: sd_op_cond_step_def inner)
    qed
  qed
qed

lemma init_sd_ok:
  assumes "card_host env K" "card_main K (mc_hw (dev_mc d))"
  shows "init_result K (card_sec K (mc_hw (dev_mc d))) SDMMC_1 (sdmmc_storage_init_sd env bw t d)"
proof -
  have ok: "driver_ok env K" "ocr_ok env K" using assms(1) by (simp_all add: card_host_def)
  define F where "F = card_sec K (mc_hw (dev_mc d))"
  define dw where "dw = sdmmc_storage_init_wait_sd env d"
  have "keeps K d dw" by (simp add: dw_def sdmmc_storage_init_wait_sd_def Let_def msleep_def keeps_delay ok(1))
  then have dw: "card_main K (mc_hw (dev_mc dw))" "card_sec K (mc_hw (dev_mc dw)) = F" using assms(2) by (simp_all add: keeps_def mc_keeps_def F_def)
  define pre where "pre = [effect (set_st (\<lambda>s. zero_storage)), drv_op (sdmmc_init env SDMMC_1 SDMMC_POWER_3_3 SDMMC_BUS_WIDTH_1 SDHCI_TIMING_SD_ID),
    effect (init_wait env 74), sdmmc_storage_go_idle_state env]"
  have f: "fresh K F SDMMC_1 False (snd (run_steps pre dw))" unfolding pre_def dw(2) [symmetric] by (rule init_pre [OF ok(1) dw(1)]) simp
  define lv where "lv = sd_storage_get_bus_uhs_support bw t"
  have o: "ocr_known K F SDMMC_1 (fst (sd_voltage_and_ocr env lv d)) (snd (sd_voltage_and_ocr env lv d))" if fd: "fresh K F SDMMC_1 False d" for d
  proof -
    obtain e v1 d1 where i: "sd_storage_send_if_cond env False d = (e, v1, d1)" by (metis prod_cases3)
    have f1: "fresh K F SDMMC_1 False d1" using fresh_keeps [OF fd keeps_send_if_cond [OF ok(1)], of False] i by simp
    have "ocr_known K F SDMMC_1 (fst (sd_storage_get_op_cond env v1 lv d1)) (snd (sd_storage_get_op_cond env v1 lv d1))"
      unfolding sd_storage_get_op_cond_def Let_def by (rule ocr_poll [OF ok(1) f1 sd_op_cond_step_ok [OF ok]])
    then show ?thesis using f1 by (auto simp: sd_voltage_and_ocr_def i ocr_known_def)
  qed
  define post where "post = [sdmmc_storage_get_cid env, effect (set_st sd_storage_parse_cid), sd_storage_get_rca env, sdmmc_storage_get_csd env,
    effect (set_st sd_storage_parse_csd), \<lambda>d. if is_low_voltage (dev_st d) then (False, d) else drv_op (sdmmc_setup_clock env SDHCI_TIMING_SD_DS12) d,
    sdmmc_storage_select_card env, sdmmc_storage_set_blocklen env SDMMC_DAT_BLOCKSIZE, sd_storage_execute_app_cmd_tran env SD_APP_SET_CLR_CARD_DETECT 0,
    sd_storage_get_scr env, sd_bus_setup env bw t, \<lambda>d. (False, snd (sd_storage_get_ssr env d)), drv_do (sdmmc_card_clock_powersave env SDMMC_POWER_SAVE_ENABLE)]"
  have c: "stable K (\<lambda>d. if is_low_voltage (dev_st d) then (False, d) else drv_op (sdmmc_setup_clock env SDHCI_TIMING_SD_DS12) d)"
    using stable_drv_op [of K "sdmmc_setup_clock env SDHCI_TIMING_SD_DS12"] driver_okD(4) [OF ok(1)] by (auto simp: stable_def)
  have g: "stable K (\<lambda>d. (False, snd (sd_storage_get_ssr env d)))" using keeps_get_ssr [OF ok(1)] by (simp add: stable_def)
  have "\<forall>f \<in> set post. stable K f" using ok(1) c g by (auto simp: post_def driver_okD SD_APP_SET_CLR_CARD_DETECT_def intro!: stable_intros)
  note frame = init_frame [where poll = "sd_voltage_and_ocr env lv", OF f o [OF f] refl this]
  have "sdmmc_storage_init_sd env bw t d = run_steps (pre @ [sd_voltage_and_ocr env lv] @ post @ [effect (set_st (\<lambda>s. s\<lparr>initialized := True\<rparr>))]) dw"
    by (simp add: sdmmc_storage_init_sd_def pre_def post_def lv_def dw_def run_steps.simps(2) [of "effect (sdmmc_storage_init_wait_sd env)"] effect_def [of "sdmmc_storage_init_wait_sd env"])
  then show ?thesis using frame by (simp add: F_def)
qed

end
