(* ===== verification/Sdmmc_Data.thy ===== *)
theory Sdmmc_Data
  imports Sdmmc_Safe
begin

text \<open>
  Requests of \<open>bdk/storage/sdmmc.c\<close> return, deliver the sectors of the card and write exactly those asked
  for, through retries and initialisations of the card.
\<close>

subsection \<open>A card initialised anew\<close>

text \<open>What holds of a storage between two requests, whether or not its card is initialised.\<close>

definition card_kept :: "'h card \<Rightarrow> (nat \<Rightarrow> u8 list) \<Rightarrow> u32 \<Rightarrow> 'h dev \<Rightarrow> bool" where
  "card_kept K F i d \<longleftrightarrow> card_main K (mc_hw (dev_mc d)) \<and> card_sec K (mc_hw (dev_mc d)) = F \<and> mc_id (dev_mc d) = i \<and>
     (initialized (dev_st d) \<longrightarrow> has_sector_access (dev_st d) = card_ccs K)"

definition dev_ready :: "'h card \<Rightarrow> (nat \<Rightarrow> u8 list) \<Rightarrow> u32 \<Rightarrow> 'h dev \<Rightarrow> bool" where
  "dev_ready K F i d \<longleftrightarrow> card_kept K F i d \<and> initialized (dev_st d)"

lemma card_keptD: "card_kept K F i d \<Longrightarrow> keeps K d d' \<Longrightarrow> card_kept K F i d'"
  by (simp add: card_kept_def keeps_def mc_keeps_def)

lemma dev_ready_keeps: "dev_ready K F i d \<Longrightarrow> keeps K d d' \<Longrightarrow> dev_ready K F i d'"
  by (simp add: dev_ready_def card_kept_def keeps_def mc_keeps_def)

lemma init_result_kept: "init_result K F i (err, d) \<Longrightarrow> card_kept K F i d" "init_result K F i (False, d) \<Longrightarrow> dev_ready K F i d"
  by (simp_all add: init_result_def card_kept_def dev_ready_def)

lemma storage_end_kept:
  assumes "driver_ok env K" "card_kept K F i d"
  shows "card_kept K F i (snd (sdmmc_storage_end env d))"
proof -
  define d1 where "d1 = snd (run_steps [sdmmc_storage_go_idle_state env, drv_do (sdmmc_end env)] d)"
  have "card_kept K F i d1" unfolding d1_def
    by (rule card_keptD [OF assms(2) keeps_steps]) (use assms(1) in \<open>auto simp: driver_okD intro!: stable_intros\<close>)
  moreover have "sdmmc_storage_end env d = (if fst (run_steps [sdmmc_storage_go_idle_state env, drv_do (sdmmc_end env)] d) then (True, d1)
      else (False, set_st (\<lambda>s. s\<lparr>initialized := False\<rparr>) d1))"
    using run_steps_append [of "[sdmmc_storage_go_idle_state env, drv_do (sdmmc_end env)]" "[effect (set_st (\<lambda>s. s\<lparr>initialized := False\<rparr>))]" d]
    by (simp add: sdmmc_storage_end_def d1_def split_def Let_def run_steps.simps(1) run_steps.simps(2) [of "effect f" for f] effect_def)
  ultimately show ?thesis by (auto simp: card_kept_def set_st_def)
qed

text \<open>The front ends' attempts leave the card as it is; one that succeeds leaves the storage ready, in a mode that is not zero.\<close>

lemma sd_retry_ok:
  assumes "card_host (rw_host E) K" "card_kept K F SDMMC_1 (sd_dev s)" "sd_init_retry (sd_env_of E) pc s = (res, s')"
  shows "card_kept K F SDMMC_1 (sd_dev s')" "\<not> res \<Longrightarrow> dev_ready K F SDMMC_1 (sd_dev s') \<and> sd_mode s' \<noteq> 0"
proof -
  have ok: "driver_ok (rw_host E) K" using assms(1) by (simp add: card_host_def)
  define s1 where "s1 = (if pc then sd_end_dev (sd_env_of E) (s\<lparr>sd_mode := sd_mode s - 1\<rparr>) else s)"
  have k: "card_kept K F SDMMC_1 (sd_dev s1)"
    using assms(2) storage_end_kept [OF ok] by (simp add: s1_def sd_end_dev_def sd_env_of_def)
  obtain b t m where p: "sd_init_params (sd_env_of E) (sd_mode s1) = (b, t, m)" by (metis prod_cases3)
  obtain e d where i: "sdmmc_storage_init_sd (rw_host E) b t (sd_dev s1) = (e, d)" by force
  have r: "init_result K F SDMMC_1 (e, d)" using init_sd_ok [OF assms(1), of "sd_dev s1" b t] k i by (simp add: card_kept_def)
  have "m \<noteq> 0" using p sd_init_params_mode [of "sd_env_of E" "sd_mode s1"] by (simp add: SD_DEFAULT_SPEED_def sd_mode_defs word_neq_0_conv split: if_splits)
  moreover have "sd_init_retry (sd_env_of E) pc s = (if sd_mode s1 = SD_INIT_FAIL then (True, s1)
      else (e, if \<not> e then s1\<lparr>sd_mode := m, sd_dev := d, sd_init_done := True, insertion_event := True\<rparr> else s1\<lparr>sd_mode := m, sd_dev := d, sd_init_done := False\<rparr>))"
    using i by (simp add: sd_init_retry_def s1_def [symmetric] p Let_def) (simp add: sd_env_of_def)
  ultimately show "card_kept K F SDMMC_1 (sd_dev s')" "\<not> res \<Longrightarrow> dev_ready K F SDMMC_1 (sd_dev s') \<and> sd_mode s' \<noteq> 0"
    using assms(3) k init_result_kept(1) [OF r] init_result_kept(2) [of K F SDMMC_1 d] r by (auto split: if_splits)
qed

lemma sd_loop_ok:
  assumes "card_host (rw_host E) K" "card_kept K F SDMMC_1 (sd_dev s)" "\<not> res \<longrightarrow> dev_ready K F SDMMC_1 (sd_dev s) \<and> sd_mode s \<noteq> 0"
    and "sd_init_loop (sd_env_of E) res s = (res', s')"
  shows "card_kept K F SDMMC_1 (sd_dev s') \<and> (\<not> res' \<longrightarrow> dev_ready K F SDMMC_1 (sd_dev s') \<and> sd_mode s' \<noteq> 0)"
  using assms(2-4)
proof (induction "sd_env_of E" res s rule: sd_init_loop.induct)
  case (1 res s)
  define s1 where "s1 = s\<lparr>sd_errors := (sd_errors s)[0 := sd_errors s ! 0 + 1]\<rparr>"
  have ok: "driver_ok (rw_host E) K" using assms(1) by (simp add: card_host_def)
  show ?case
  proof (cases "res \<and> sdmmc_get_sd_inserted (sd_env_of E) (sd_dev s) \<and> sd_mode s1 \<noteq> SD_INIT_FAIL")
    case True
    obtain r2 s2 where r: "sd_init_retry (sd_env_of E) True s1 = (r2, s2)" by force
    have k1: "card_kept K F SDMMC_1 (sd_dev s1)" using "1.prems"(1) by (simp add: s1_def)
    note ok2 = sd_retry_ok [OF assms(1) k1 r]
    have l: "sd_init_loop (sd_env_of E) r2 s2 = (res', s')" using "1.prems"(3) True r
      by (subst (asm) sd_init_loop.simps) (simp add: s1_def [symmetric] Let_def)
    show ?thesis using "1.hyps" [OF _ _ s1_def] True r ok2 l by auto
  next
    case False
    then show ?thesis using "1.prems" storage_end_kept [OF ok "1.prems"(1)]
      by (subst (asm) sd_init_loop.simps) (auto simp: Let_def sd_end_dev_def sd_env_of_def s1_def split: if_splits)
  qed
qed

lemma sd_initialize_ok:
  assumes "card_host (rw_host E) K" "card_kept K F SDMMC_1 (sd_dev s)" "sd_initialize (sd_env_of E) pc s = (res, s')"
  shows "card_kept K F SDMMC_1 (sd_dev s') \<and> (\<not> res \<longrightarrow> dev_ready K F SDMMC_1 (sd_dev s') \<and> sd_mode s' \<noteq> 0)"
proof -
  have ok: "driver_ok (rw_host E) K" using assms(1) by (simp add: card_host_def)
  define s1 where "s1 = (if pc then sd_end_dev (sd_env_of E) s else s)"
  have k: "card_kept K F SDMMC_1 (sd_dev s1)" using assms(2) storage_end_kept [OF ok] by (simp add: s1_def sd_end_dev_def sd_env_of_def)
  obtain r2 s2 where r: "sd_init_retry (sd_env_of E) False s1 = (r2, s2)" by force
  note ok2 = sd_retry_ok [OF assms(1) k r]
  show ?thesis by (rule sd_loop_ok [OF assms(1), of F s2 r2]) (use ok2 assms(3) r in \<open>auto simp: sd_initialize_def s1_def Let_def\<close>)
qed

lemma emmc_retry_ok:
  assumes "card_host (rw_host E) K" "card_kept K F SDMMC_4 (emmc_dev s)" "emmc_init_retry (emmc_env_of E) pc s = (res, s')"
  shows "card_kept K F SDMMC_4 (emmc_dev s')" "\<not> res \<Longrightarrow> dev_ready K F SDMMC_4 (emmc_dev s') \<and> emmc_mode s' \<noteq> 0"
proof -
  have ok: "driver_ok (rw_host E) K" using assms(1) by (simp add: card_host_def)
  define s1 where "s1 = (if pc then emmc_end (emmc_env_of E) (s\<lparr>emmc_mode := emmc_mode s - 1\<rparr>) else s)"
  have k: "card_kept K F SDMMC_4 (emmc_dev s1)" using assms(2) storage_end_kept [OF ok] by (simp add: s1_def emmc_end_def emmc_env_of_def)
  obtain b t m where "emmc_init_retry (emmc_env_of E) pc s = (if emmc_mode s1 = EMMC_INIT_FAIL then (True, s1) else emmc_try (emmc_env_of E) b t (s1\<lparr>emmc_mode := m\<rparr>))" "m \<noteq> 0"
  proof (cases "emmc_mode s1 = EMMC_INIT_FAIL")
    case True
    then show ?thesis by (intro that [of 0 0 1]) (simp_all add: emmc_init_retry_def s1_def [symmetric] Let_def)
  next
    case False
    have up: "emmc_mode s1 = x \<Longrightarrow> s1\<lparr>emmc_mode := x\<rparr> = s1" for x by (cases s1) simp
    have e: "emmc_init_retry (emmc_env_of E) pc s =
        (if emmc_mode s1 = EMMC_INIT_FAIL then (True, s1)
         else if emmc_mode s1 = EMMC_1BIT_HS52 then emmc_try (emmc_env_of E) SDMMC_BUS_WIDTH_1 SDHCI_TIMING_MMC_HS52 (s1\<lparr>emmc_mode := EMMC_1BIT_HS52\<rparr>)
         else if emmc_mode s1 = EMMC_8BIT_HS52 then emmc_try (emmc_env_of E) SDMMC_BUS_WIDTH_8 SDHCI_TIMING_MMC_HS52 (s1\<lparr>emmc_mode := EMMC_8BIT_HS52\<rparr>)
         else if emmc_mode s1 = EMMC_MMC_HS200 then emmc_try (emmc_env_of E) SDMMC_BUS_WIDTH_8 SDHCI_TIMING_MMC_HS200 (s1\<lparr>emmc_mode := EMMC_MMC_HS200\<rparr>)
         else emmc_try (emmc_env_of E) SDMMC_BUS_WIDTH_8 SDHCI_TIMING_MMC_HS400 (s1\<lparr>emmc_mode := EMMC_MMC_HS400\<rparr>))"
      unfolding emmc_init_retry_def s1_def [symmetric] Let_def by (auto simp: up)
    show ?thesis using e that False by (auto simp: emmc_mode_defs split: if_splits)
  qed
  note eq = this
  obtain e d where i: "sdmmc_storage_init_mmc (rw_host E) b t (emmc_dev s1) = (e, d)" by force
  have r: "init_result K F SDMMC_4 (e, d)" using init_mmc_ok [OF assms(1), of "emmc_dev s1" b t] k i by (simp add: card_kept_def)
  have "emmc_try (emmc_env_of E) b t (s1\<lparr>emmc_mode := m\<rparr>) = (e, s1\<lparr>emmc_mode := m, emmc_dev := d\<rparr>)"
    using i by (simp add: emmc_try_def emmc_env_of_def)
  then show "card_kept K F SDMMC_4 (emmc_dev s')" "\<not> res \<Longrightarrow> dev_ready K F SDMMC_4 (emmc_dev s') \<and> emmc_mode s' \<noteq> 0"
    using assms(3) eq k init_result_kept(1) [OF r] init_result_kept(2) [of K F SDMMC_4 d] r by (auto split: if_splits)
qed

lemma emmc_loop_ok:
  assumes "card_host (rw_host E) K" "card_kept K F SDMMC_4 (emmc_dev s)" "\<not> res \<longrightarrow> dev_ready K F SDMMC_4 (emmc_dev s) \<and> emmc_mode s \<noteq> 0"
    and "emmc_init_loop (emmc_env_of E) res s = (res', s')"
  shows "card_kept K F SDMMC_4 (emmc_dev s') \<and> (\<not> res' \<longrightarrow> dev_ready K F SDMMC_4 (emmc_dev s') \<and> emmc_mode s' \<noteq> 0)"
  using assms(2-4)
proof (induction "emmc_env_of E" res s rule: emmc_init_loop.induct)
  case (1 res s)
  define s1 where "s1 = s\<lparr>emmc_errors := (emmc_errors s)[0 := emmc_errors s ! 0 + 1]\<rparr>"
  have ok: "driver_ok (rw_host E) K" using assms(1) by (simp add: card_host_def)
  show ?case
  proof (cases "res \<and> emmc_mode s1 \<noteq> EMMC_INIT_FAIL")
    case True
    obtain r2 s2 where r: "emmc_init_retry (emmc_env_of E) True s1 = (r2, s2)" by force
    have k1: "card_kept K F SDMMC_4 (emmc_dev s1)" using "1.prems"(1) by (simp add: s1_def)
    note ok2 = emmc_retry_ok [OF assms(1) k1 r]
    have l: "emmc_init_loop (emmc_env_of E) r2 s2 = (res', s')" using "1.prems"(3) True r
      by (subst (asm) emmc_init_loop.simps) (simp add: s1_def [symmetric] Let_def)
    show ?thesis using "1.hyps" [OF _ s1_def] True r ok2 l by auto
  next
    case False
    then show ?thesis using "1.prems" storage_end_kept [OF ok "1.prems"(1)]
      by (subst (asm) emmc_init_loop.simps) (auto simp: Let_def emmc_end_def emmc_env_of_def s1_def split: if_splits)
  qed
qed

lemma emmc_initialize_ok:
  assumes "card_host (rw_host E) K" "card_kept K F SDMMC_4 (emmc_dev s)" "emmc_initialize (emmc_env_of E) pc s = (res, s')"
  shows "card_kept K F SDMMC_4 (emmc_dev s') \<and> (\<not> res \<longrightarrow> dev_ready K F SDMMC_4 (emmc_dev s') \<and> emmc_mode s' \<noteq> 0)"
proof -
  have ok: "driver_ok (rw_host E) K" using assms(1) by (simp add: card_host_def)
  define s0 where "s0 = (if emmc_mode s = EMMC_INIT_FAIL then s\<lparr>emmc_mode := EMMC_MMC_HS400\<rparr> else s)"
  define s1 where "s1 = (if pc then emmc_end (emmc_env_of E) s0 else s0)"
  have k: "card_kept K F SDMMC_4 (emmc_dev s1)" using assms(2) storage_end_kept [OF ok] by (simp add: s1_def s0_def emmc_end_def emmc_env_of_def)
  obtain r2 s2 where r: "emmc_init_retry (emmc_env_of E) False s1 = (r2, s2)" by force
  note ok2 = emmc_retry_ok [OF assms(1) k r]
  have "emmc_init_loop (emmc_env_of E) r2 s2 = (res, s')"
    using assms(3) r unfolding emmc_initialize_def s0_def [symmetric] s1_def [symmetric] Let_def by simp
  then show ?thesis by (rule emmc_loop_ok [OF assms(1), of F s2 r2, rotated 2]) (use ok2 in auto)
qed

subsection \<open>Recovery comes to an end\<close>

definition ptr_id :: "storage_ptr \<Rightarrow> u32" where
  "ptr_id p = (case p of Sd_storage \<Rightarrow> SDMMC_1 | Emmc_storage \<Rightarrow> SDMMC_4 | Gc_storage \<Rightarrow> SDMMC_2)"

definition rw_mode :: "storage_ptr \<Rightarrow> 'h sdworld \<Rightarrow> u32" where
  "rw_mode p w = (case p of Sd_storage \<Rightarrow> sd_mode (w_sd w) | Emmc_storage \<Rightarrow> emmc_mode (w_emmc w) | Gc_storage \<Rightarrow> 0)"

lemma set_storage_dev_simps [simp]:
  "storage_dev p (set_storage_dev p d w) = d" "rw_mode p (set_storage_dev q d w) = rw_mode p w"
  "set_storage_dev p d (set_storage_dev p d' w) = set_storage_dev p d w"
  by (simp_all add: storage_dev_def set_storage_dev_def rw_mode_def split: storage_ptr.split)

lemma sd_error_count_frame [simp]:
  "sd_dev (sd_error_count_increment t s) = sd_dev s" "sd_mode (sd_error_count_increment t s) = sd_mode s"
  by (simp_all add: sd_error_count_increment_def)

lemma emmc_error_count_frame [simp]:
  "emmc_dev (emmc_error_count_increment t s) = emmc_dev s" "emmc_mode (emmc_error_count_increment t s) = emmc_mode s"
  by (simp_all add: emmc_error_count_increment_def)

lemma rw_pause_frame:
  "rw_mode p (rw_pause E p w) = rw_mode p w" "storage_dev p (rw_pause E p w) = msleep (rw_host E) 50 (storage_dev p w)"
  by (simp_all add: rw_pause_def Let_def storage_dev_def set_storage_dev_def rw_mode_def split: storage_ptr.split)

lemma keeps_pause: "driver_ok (rw_host E) K \<Longrightarrow> keeps K (storage_dev p w) (storage_dev p (rw_pause E p w))"
  by (simp add: rw_pause_frame msleep_def keeps_delay)

text \<open>After a recovery the mode is not zero, and from the second one on it is lower each time.\<close>

lemma handle_io_error_ok:
  assumes "card_host (rw_host E) K" "card_kept K F (ptr_id p) (storage_dev p w)" "first \<or> rw_mode p w \<noteq> 0"
    and "sdmmc_storage_handle_io_error E p first w = (res, w')"
  shows "card_kept K F (ptr_id p) (storage_dev p w')" 
    "\<not> res \<Longrightarrow> dev_ready K F (ptr_id p) (storage_dev p w') \<and> rw_mode p w' \<noteq> 0 \<and> (\<not> first \<longrightarrow> unat (rw_mode p w') < unat (rw_mode p w))"
proof -
  have id: "mc_id (dev_mc (storage_dev p w)) = ptr_id p" using assms(2) by (simp add: card_kept_def)
  have "card_kept K F (ptr_id p) (storage_dev p w') \<and>
    (\<not> res \<longrightarrow> dev_ready K F (ptr_id p) (storage_dev p w') \<and> rw_mode p w' \<noteq> 0 \<and> (\<not> first \<longrightarrow> unat (rw_mode p w') < unat (rw_mode p w)))"
  proof (cases p)
    case Sd_storage
    define s where "s = sd_error_count_increment SD_ERROR_RW_FAIL (w_sd w)"
    obtain r1 s1 where r: "(if first then sd_initialize (sd_env_of E) True s else sd_init_retry (sd_env_of E) True s) = (r1, s1)" by force
    have k: "card_kept K F SDMMC_1 (sd_dev s)" using assms(2) Sd_storage by (simp add: s_def storage_dev_def ptr_id_def)
    have a: "card_kept K F SDMMC_1 (sd_dev s1)" "\<not> r1 \<longrightarrow> dev_ready K F SDMMC_1 (sd_dev s1) \<and> sd_mode s1 \<noteq> 0"
      using r sd_initialize_ok [OF assms(1) k, of True r1 s1] sd_retry_ok [OF assms(1) k, of True r1 s1] by (auto split: if_splits)
    have lower: "unat (sd_mode s1) < unat (sd_mode s)" if "\<not> first"
    proof -
      have "sd_mode s \<noteq> 0" using assms(3) that Sd_storage by (simp add: rw_mode_def s_def)
      moreover then have "0 < unat (sd_mode s)" by (simp add: unat_gt_0)
      ultimately show ?thesis using sd_init_retry_decreases [of s "sd_env_of E"] r that by (auto simp: min_def)
    qed
    have "sdmmc_storage_handle_io_error E p first w = (r1, w\<lparr>w_sd := if r1 \<and> \<not> first then sd_error_count_increment SD_ERROR_INIT_FAIL s1 else s1\<rparr>)"
      using id r Sd_storage by (simp add: sdmmc_storage_handle_io_error_def ptr_id_def s_def [symmetric] Let_def split_def split: if_splits)
    then show ?thesis using a lower assms(4) Sd_storage by (auto simp: storage_dev_def ptr_id_def rw_mode_def s_def)
  next
    case Emmc_storage
    define s where "s = emmc_error_count_increment EMMC_ERROR_RW_FAIL (w_emmc w)"
    obtain r1 s1 where r: "(if first then emmc_initialize (emmc_env_of E) True s else emmc_init_retry (emmc_env_of E) True s) = (r1, s1)" by force
    have k: "card_kept K F SDMMC_4 (emmc_dev s)" using assms(2) Emmc_storage by (simp add: s_def storage_dev_def ptr_id_def)
    have a: "card_kept K F SDMMC_4 (emmc_dev s1)" "\<not> r1 \<longrightarrow> dev_ready K F SDMMC_4 (emmc_dev s1) \<and> emmc_mode s1 \<noteq> 0"
      using r emmc_initialize_ok [OF assms(1) k, of True r1 s1] emmc_retry_ok [OF assms(1) k, of True r1 s1] by (auto split: if_splits)
    have lower: "unat (emmc_mode s1) < unat (emmc_mode s)" if "\<not> first"
    proof -
      have "emmc_mode s \<noteq> 0" using assms(3) that Emmc_storage by (simp add: rw_mode_def s_def)
      moreover then have "0 < unat (emmc_mode s)" by (simp add: unat_gt_0)
      ultimately show ?thesis using emmc_init_retry_decreases [of s "emmc_env_of E"] r that by (auto simp: min_def)
    qed
    have "sdmmc_storage_handle_io_error E p first w = (r1, w\<lparr>w_emmc := if r1 \<and> \<not> first then emmc_error_count_increment EMMC_ERROR_INIT_FAIL s1 else s1\<rparr>)"
      using id r Emmc_storage by (simp add: sdmmc_storage_handle_io_error_def ptr_id_def s_def [symmetric] Let_def split_def SDMMC_1_def SDMMC_4_def split: if_splits)
    then show ?thesis using a lower assms(4) Emmc_storage by (auto simp: storage_dev_def ptr_id_def rw_mode_def s_def)
  next
    case Gc_storage
    then show ?thesis using assms(2,4) id by (simp add: sdmmc_storage_handle_io_error_def ptr_id_def SDMMC_1_def SDMMC_2_def SDMMC_4_def)
  qed
  then show "card_kept K F (ptr_id p) (storage_dev p w')"
    "\<not> res \<Longrightarrow> dev_ready K F (ptr_id p) (storage_dev p w') \<and> rw_mode p w' \<noteq> 0 \<and> (\<not> first \<longrightarrow> unat (rw_mode p w') < unat (rw_mode p w))"
    by auto
qed

subsection \<open>The loop\<close>

lemma rw_loop_moves:
  assumes "sdmmc_storage_readwrite_ex (rw_host E) (sector + of_nat n) (MIN32 (num - of_nat n) SDMMC_AMAX_BLOCKNUM) (drop (512 * n) buf) wr (storage_dev p w) =
      (False, part, k, d)"
    and k: "unat k = min (unat num - n) 0xF000" and n: "n < unat num"
  shows "rw_loop E p wr sector num retries first (sector + of_nat n) (num - of_nat n) (512 * n) buf w =
    (if n + unat k = unat num then Some (False, take (512 * n) buf @ part, set_storage_dev p d w)
     else rw_loop E p wr sector num 5 first (sector + of_nat (n + unat k)) (num - of_nat (n + unat k)) (512 * (n + unat k))
       (take (512 * n) buf @ part) (set_storage_dev p d w))"
proof -
  have off: "sector + of_nat n + k = sector + of_nat (n + unat k)" "num - of_nat n - k = num - of_nat (n + unat k)" by (simp_all add: add.assoc)
  have le: "n + unat k \<le> unat num" using n k by simp
  have "unat (of_nat (n + unat k) :: u32) = n + unat k" using le_less_trans [OF le unat_less_pow] by (intro unat_of_nat_u32) simp
  then have total: "num - of_nat n - k = 0 \<longleftrightarrow> n + unat k = unat num" unfolding off by (metis eq_iff_diff_eq_0 word_unat_eq_iff)
  have "unat k \<le> 0xF000" using k by simp
  then have boff: "512 * n + unat (SDMMC_DAT_BLOCKSIZE * k) = 512 * (n + unat k)" by (simp add: SDMMC_DAT_BLOCKSIZE_def unat_word_ariths)
  show ?thesis using total by (subst rw_loop.simps) (simp only: assms(1) prod.case Let_def if_True if_False boff off simp_thms)
qed

lemma rw_loop_fails:
  assumes "sdmmc_storage_readwrite_ex (rw_host E) so (MIN32 st SDMMC_AMAX_BLOCKNUM) (drop bo buf) wr (storage_dev p w) = (True, part, k, d)"
    and "w2 = rw_pause E p (set_storage_dev p d w)" "sdmmc_storage_handle_io_error E p first w2 = (res, w3)"
  shows "rw_loop E p wr sector num retries first so st bo buf w =
    (if retries > 1 then rw_loop E p wr sector num (retries - 1) first so st bo (take bo buf @ part) w2
     else if \<not> res then rw_loop E p wr sector num 3 False sector num 0 (take bo buf @ part) w3 else Some (True, take bo buf @ part, w3))"
  by (subst rw_loop.simps) (simp only: assms(1) prod.case Let_def if_True if_False assms(2) [symmetric] assms(3) simp_thms)

text \<open>
  What the loop does, from an invariant of the number of sectors done: a try that fails keeps it, one that
  succeeds moves on by its blocks, and a recovery takes the request back to its start. The loop returns:
  recoveries lower the mode, and between them the sectors left or the tries left fall.
\<close>

lemma rw_loop_rule:
  fixes E :: "('h, 'f) rw_env" and I :: "nat \<Rightarrow> u8 list \<Rightarrow> 'h sdworld \<Rightarrow> bool"
  assumes step: "\<And>n buf w err part k d. I n buf w \<Longrightarrow> n < unat num \<Longrightarrow>
      sdmmc_storage_readwrite_ex (rw_host E) (sector + of_nat n) (MIN32 (num - of_nat n) SDMMC_AMAX_BLOCKNUM) (drop (512 * n) buf) wr (storage_dev p w) = (err, part, k, d) \<Longrightarrow>
      if err then I n (take (512 * n) buf @ part) (set_storage_dev p d w)
      else unat k = min (unat num - n) 0xF000 \<and> I (n + unat k) (take (512 * n) buf @ part) (set_storage_dev p d w)"
    and pause: "\<And>n buf w. I n buf w \<Longrightarrow> I n buf (rw_pause E p w)"
    and reinit: "\<And>n buf w first res w'. I n buf w \<Longrightarrow> first \<or> rw_mode p w \<noteq> 0 \<Longrightarrow> sdmmc_storage_handle_io_error E p first w = (res, w') \<Longrightarrow>
      if res then Q buf w' else I 0 buf w' \<and> rw_mode p w' \<noteq> 0 \<and> (\<not> first \<longrightarrow> unat (rw_mode p w') < unat (rw_mode p w))"
    and start: "I n buf w" "n < unat num" "first \<or> rw_mode p w \<noteq> 0"
  shows "\<exists>err buf' w'. rw_loop E p wr sector num retries first (sector + of_nat n) (num - of_nat n) (512 * n) buf w = Some (err, buf', w') \<and>
    (if err then Q buf' w' else I (unat num) buf' w')"
proof -
  define M :: "((nat \<times> bool \<times> nat \<times> u8 list \<times> 'h sdworld) \<times> _) set" where
    "M = measures [\<lambda>(r, f, n, b, w). if f then 2 ^ 32 else unat (rw_mode p w), \<lambda>(r, f, n, b, w). unat num - n, \<lambda>(r, f, n, b, w). r]"
  have "wf M" by (simp add: M_def)
  define R where "R = (\<lambda>x. \<exists>err buf' w'. x = Some (err, buf', w') \<and> (if err then Q buf' w' else I (unat num) buf' w'))"
  have R_Some: "R (Some (err, b, v)) \<longleftrightarrow> (if err then Q b v else I (unat num) b v)" for err b v by (auto simp: R_def)
  define G where "G = (\<lambda>(retries, first, n, buf, w). I n buf w \<longrightarrow> n < unat num \<longrightarrow> first \<or> rw_mode p w \<noteq> 0 \<longrightarrow>
    R (rw_loop E p wr sector num retries first (sector + of_nat n) (num - of_nat n) (512 * n) buf w))"
  have "G (retries, first, n, buf, w)" for retries first n buf w
    using \<open>wf M\<close>
  proof (induction "(retries, first, n, buf, w)" arbitrary: retries first n buf w rule: wf_induct_rule)
    case less
    have "R (rw_loop E p wr sector num retries first (sector + of_nat n) (num - of_nat n) (512 * n) buf w)" if i: "I n buf w" and n: "n < unat num" and f: "first \<or> rw_mode p w \<noteq> 0"
    proof -
      obtain err part k d where x: "sdmmc_storage_readwrite_ex (rw_host E) (sector + of_nat n) (MIN32 (num - of_nat n) SDMMC_AMAX_BLOCKNUM) (drop (512 * n) buf) wr (storage_dev p w) = (err, part, k, d)"
        by (metis prod_cases4)
      define b1 where "b1 = take (512 * n) buf @ part"
      define w1 where "w1 = set_storage_dev p d w"
      have m1: "rw_mode p w1 = rw_mode p w" by (simp add: w1_def)
      show ?thesis
      proof (cases err)
        case False
        have "unat k = min (unat num - n) 0xF000 \<and> I (n + unat k) b1 w1" using step [OF i n x] False unfolding b1_def w1_def by argo
        then have k: "unat k = min (unat num - n) 0xF000" and i1: "I (n + unat k) b1 w1" by blast+
        have le: "n + unat k \<le> unat num" using n k by simp
        have x0: "sdmmc_storage_readwrite_ex (rw_host E) (sector + of_nat n) (MIN32 (num - of_nat n) SDMMC_AMAX_BLOCKNUM) (drop (512 * n) buf) wr (storage_dev p w) = (False, part, k, d)"
          using x False by simp
        note e = rw_loop_moves [OF x0 k n, of retries first, folded b1_def w1_def]
        show ?thesis
        proof (cases "n + unat k = unat num")
          case True
          then show ?thesis using e i1 by (simp add: R_Some)
        next
          case nf: False
          have "((5, first, n + unat k, b1, w1), (retries, first, n, buf, w)) \<in> M" using nf k n m1 by (auto simp: M_def)
          note ih = less [OF this]
          show ?thesis unfolding e using ih i1 nf le f m1 by (cases first) (simp_all add: G_def)
        qed
      next
        case True
        then have i1: "I n b1 w1" using step [OF i n x] by (simp add: b1_def w1_def)
        define w2 where "w2 = rw_pause E p w1"
        have i2: "I n b1 w2" unfolding w2_def by (rule pause [OF i1])
        have m2: "rw_mode p w2 = rw_mode p w" by (simp add: w2_def rw_pause_frame m1)
        obtain res w3 where h: "sdmmc_storage_handle_io_error E p first w2 = (res, w3)" by force
        have e: "rw_loop E p wr sector num retries first (sector + of_nat n) (num - of_nat n) (512 * n) buf w =
          (if retries > 1 then rw_loop E p wr sector num (retries - 1) first (sector + of_nat n) (num - of_nat n) (512 * n) b1 w2
           else if \<not> res then rw_loop E p wr sector num 3 False sector num 0 b1 w3 else Some (True, b1, w3))"
          unfolding b1_def by (rule rw_loop_fails) (use x True h in \<open>simp_all add: w1_def w2_def\<close>)
        show ?thesis
        proof (cases "retries > 1")
          case r: True
          have "((retries - 1, first, n, b1, w2), (retries, first, n, buf, w)) \<in> M" using r m2 by (auto simp: M_def)
          note ih = less [OF this]
          show ?thesis unfolding e using ih i2 n f m2 r by (cases first) (simp_all add: G_def)
        next
          case r: False
          note q = reinit [OF i2 _ h]
          show ?thesis
          proof (cases res)
            case True
            then show ?thesis unfolding e using r q f m2 by (simp add: R_Some)
          next
            case nr: False
            then have q: "I 0 b1 w3" "rw_mode p w3 \<noteq> 0" "\<not> first \<longrightarrow> unat (rw_mode p w3) < unat (rw_mode p w)" using q f m2 by auto
            have "unat (rw_mode p w3) < 2 ^ 32" by simp
            then have "((3, False, 0, b1, w3), (retries, first, n, buf, w)) \<in> M" using q(3) by (auto simp: M_def)
            note ih = less [OF this]
            show ?thesis unfolding e using ih q n r nr by (simp add: G_def)
          qed
        qed
      qed
    qed
    then show ?case unfolding G_def by blast
  qed
  then have "R (rw_loop E p wr sector num retries first (sector + of_nat n) (num - of_nat n) (512 * n) buf w)"
    using start unfolding G_def by blast
  then show ?thesis unfolding R_def .
qed

subsection \<open>One transfer\<close>

lemma card_addr_sector:
  "card_ccs K \<or> unat sector < 2 ^ 23 \<Longrightarrow> card_addr K (if card_ccs K then sector else push_bit 9 sector) = unat sector"
  by (auto simp: card_addr_def unat_push_bit_9)

definition rw_req :: "bool \<Rightarrow> u32 \<Rightarrow> u8 list \<Rightarrow> sdmmc_req_t" where
  "rw_req wr n buf = \<lparr>req_buf = buf, blksize = SDMMC_DAT_BLOCKSIZE, num_sectors = n, is_write = wr, is_multi_block = True, is_auto_stop_trn = True\<rparr>"

definition rw_cmd :: "bool \<Rightarrow> u32 \<Rightarrow> sdmmc_cmd_t" where
  "rw_cmd wr arg = sdmmc_init_cmd (if wr then MMC_WRITE_MULTIPLE_BLOCK else MMC_READ_MULTIPLE_BLOCK) arg SDMMC_RSP_TYPE_1 0"

lemma rw_cmd_simps [simp]:
  "cmd_no (rw_cmd wr arg) = (if wr then 25 else 18)" "rsp_type (rw_cmd wr arg) = 1" "cmd_arg (rw_cmd wr arg) = arg"
  by (simp_all add: rw_cmd_def sdmmc_init_cmd_def MMC_WRITE_MULTIPLE_BLOCK_def MMC_READ_MULTIPLE_BLOCK_def SDMMC_RSP_TYPE_1_def)

lemma transfer_rw_req: "0 < n \<Longrightarrow> n \<le> 0xF000 \<Longrightarrow> 512 * unat n \<le> length buf \<Longrightarrow> transfer_req wr (rw_req wr n buf)"
  by (simp add: transfer_req_def rw_req_def SDMMC_DAT_BLOCKSIZE_def)

text \<open>The result in terms of the command: on an error the transmission is stopped and the status asked for.\<close>

lemma readwrite_ex_exec:
  assumes "sdmmc_execute_cmd env (rw_cmd wr (if has_sector_access (dev_st d) then sector else push_bit 9 sector)) (Some (rw_req wr n buf)) (dev_mc d) = (e, data, k, m)"
  shows "sdmmc_storage_readwrite_ex env sector n buf wr d =
    (if e then (True, buf_fill buf data, k, snd (snd (sdmmc_storage_get_status env 0 0 (d\<lparr>dev_mc := sdmmc_stop_transmission env m\<rparr>))))
     else (sdmmc_storage_check_cached_card_status (d\<lparr>dev_mc := m\<rparr>), buf_fill buf data, k, d\<lparr>dev_mc := m\<rparr>))"
  using assms by (simp add: sdmmc_storage_readwrite_ex_def exec_req_def rw_cmd_def rw_req_def Let_def split_def)

lemma buf_fill_length [simp]: "length (buf_fill buf data) = length buf"
  by (simp add: buf_fill_def)

lemma buf_fill_Nil [simp]: "buf_fill buf [] = buf"
  by (simp add: buf_fill_def)

lemma status_of_type1: "expected_rsp_type m = 1 \<Longrightarrow> sdmmc_storage_check_cached_card_status (d\<lparr>dev_mc := m\<rparr>) = sdmmc_storage_check_card_status (mc_rsp m ! 0)"
  by (simp add: sdmmc_storage_check_cached_card_status_def rsp_word_def sdmmc_get_cached_rsp_def SDMMC_RSP_TYPE_1_def)

lemma keeps_stop_status:
  assumes "driver_ok env K"
  shows "keeps K (d\<lparr>dev_mc := m\<rparr>) (snd (snd (sdmmc_storage_get_status env 0 0 (d\<lparr>dev_mc := sdmmc_stop_transmission env m\<rparr>))))"
proof -
  have "keeps K (d\<lparr>dev_mc := m\<rparr>) (d\<lparr>dev_mc := sdmmc_stop_transmission env m\<rparr>)" using driver_okD(2) [OF assms] by (simp add: keeps_def)
  then show ?thesis using keeps_get_status [OF assms] by (rule keeps_trans)
qed

lemma concat_sectors_length: "\<forall>i. length (f i) = n \<Longrightarrow> length (concat (map f [a..<a + k])) = n * k"
  by (induction k) simp_all

lemma readwrite_ex_read:
  assumes host: "card_host env K" and d: "dev_ready K F i d" and n: "0 < n" "n \<le> 0xF000" "512 * unat n \<le> length buf"
    and a: "card_ccs K \<or> unat sector < 2 ^ 23" and x: "sdmmc_storage_readwrite_ex env sector n buf False d = (err, part, k, d')"
  shows "dev_ready K F i d'" "length part = length buf"
    "\<not> err \<Longrightarrow> k = n \<and> part = concat (map F [unat sector..<unat sector + unat n]) @ drop (512 * unat n) buf"
proof -
  have ok: "driver_ok env K" "reads_ok env K" "length (card_sec K h j) = 512" for h j using host by (simp_all add: card_host_def)
  have acc: "has_sector_access (dev_st d) = card_ccs K" and main: "card_main K (mc_hw (dev_mc d))" and F: "card_sec K (mc_hw (dev_mc d)) = F"
    using d by (simp_all add: dev_ready_def card_kept_def)
  define c where "c = rw_cmd False (if card_ccs K then sector else push_bit 9 sector)"
  obtain e data kk m where ex: "sdmmc_execute_cmd env c (Some (rw_req False n buf)) (dev_mc d) = (e, data, kk, m)" by (metis prod_cases4)
  have plain: "plain_cmd c" by (simp add: c_def plain_cmd_def)
  have km: "keeps K d (d\<lparr>dev_mc := m\<rparr>)" using driver_okD(1) [OF ok(1) plain, of "dev_mc d" "Some (rw_req False n buf)"] ex by (simp add: keeps_mc)
  note eq = readwrite_ex_exec [of env False d sector n buf e data kk m, unfolded acc, folded c_def, OF ex]
  have "keeps K d d'" using x km keeps_trans [OF km keeps_stop_status [OF ok(1), of m d]] unfolding eq by (auto split: if_splits)
  then show "dev_ready K F i d'" by (rule dev_ready_keeps [OF d])
  show "length part = length buf" using x unfolding eq by (auto split: if_splits)
  assume "\<not> err"
  then have e: "\<not> e" and st: "\<not> sdmmc_storage_check_cached_card_status (d\<lparr>dev_mc := m\<rparr>)" and p: "part = buf_fill buf data" "k = kk"
    using x unfolding eq by (auto split: if_splits)
  have req: "cmd_no c = 18" "rsp_type c = 1" "cmd_arg c = (if card_ccs K then sector else push_bit 9 sector)" by (simp_all add: c_def)
  have r: "kk = n \<and> expected_rsp_type m = 1 \<and> (\<not> sdmmc_storage_check_card_status (mc_rsp m ! 0) \<longrightarrow>
      data = concat (map F [card_addr K (cmd_arg c)..<card_addr K (cmd_arg c) + unat kk]))"
    using ok(2) [unfolded reads_ok_def, rule_format, of "dev_mc d" c "rw_req False n buf" data kk m] main req(1,2) transfer_rw_req [OF n] ex e
    unfolding F by (simp add: rw_req_def)
  then have "data = concat (map F [unat sector..<unat sector + unat n])"
    using st status_of_type1 [of m d] card_addr_sector [OF a] req(3) by simp
  moreover have "length (concat (map F [unat sector..<unat sector + unat n])) = 512 * unat n"
    using concat_sectors_length [of F 512] ok(3) [of "mc_hw (dev_mc d)"] F by simp
  ultimately show "k = n \<and> part = concat (map F [unat sector..<unat sector + unat n]) @ drop (512 * unat n) buf"
    using p r n(3) by (simp add: buf_fill_def)
qed

lemma readwrite_ex_write:
  assumes host: "card_host env K" and d: "dev_ready K F i d" and n: "0 < n" "n \<le> 0xF000" "512 * unat n \<le> length buf"
    and a: "card_ccs K \<or> unat sector < 2 ^ 23" and x: "sdmmc_storage_readwrite_ex env sector n buf True d = (err, part, k, d')"
  shows "\<exists>G. dev_ready K G i d' \<and> part = buf \<and> (\<forall>j. j < unat sector \<or> unat sector + unat n \<le> j \<longrightarrow> G j = F j) \<and>
    (\<not> err \<longrightarrow> k = n \<and> G = put_blocks (unat sector) buf (unat n) F)"
proof -
  have ok: "driver_ok env K" "writes_ok env K" using host by (simp_all add: card_host_def)
  have acc: "has_sector_access (dev_st d) = card_ccs K" and main: "card_main K (mc_hw (dev_mc d))" and F: "card_sec K (mc_hw (dev_mc d)) = F"
    using d by (simp_all add: dev_ready_def card_kept_def)
  define c where "c = rw_cmd True (if card_ccs K then sector else push_bit 9 sector)"
  obtain e data kk m where ex: "sdmmc_execute_cmd env c (Some (rw_req True n buf)) (dev_mc d) = (e, data, kk, m)" by (metis prod_cases4)
  note eq = readwrite_ex_exec [of env True d sector n buf e data kk m, unfolded acc, folded c_def, OF ex]
  have req: "cmd_no c = 25" "rsp_type c = 1" "card_addr K (cmd_arg c) = unat sector" using card_addr_sector [OF a] by (simp_all add: c_def)
  define G where "G = card_sec K (mc_hw m)"
  have r: "data = [] \<and> card_main K (mc_hw m) \<and> mc_id m = mc_id (dev_mc d) \<and> (\<forall>j. j < unat sector \<or> unat sector + unat n \<le> j \<longrightarrow> G j = F j) \<and>
      (\<not> e \<longrightarrow> kk = n \<and> expected_rsp_type m = 1 \<and> (\<not> sdmmc_storage_check_card_status (mc_rsp m ! 0) \<longrightarrow> G = put_blocks (unat sector) buf (unat kk) F))"
    using ok(2) [unfolded writes_ok_def, rule_format, of "dev_mc d" c "rw_req True n buf" e data kk m] main req transfer_rw_req [OF n] ex
    unfolding F G_def by (simp add: rw_req_def)
  have g: "dev_ready K G i (d\<lparr>dev_mc := m\<rparr>)" using d r by (simp add: dev_ready_def card_kept_def G_def)
  then have "dev_ready K G i d'" using x dev_ready_keeps [OF g keeps_stop_status [OF ok(1)]] unfolding eq by (auto split: if_splits)
  moreover have "part = buf" using x r unfolding eq by (auto split: if_splits)
  moreover have "\<not> err \<longrightarrow> k = n \<and> G = put_blocks (unat sector) buf (unat n) F"
    using x r status_of_type1 [of m d] unfolding eq by (auto split: if_splits)
  ultimately show ?thesis using r by blast
qed

subsection \<open>Requests\<close>

text \<open>The piece tried after \<open>n\<close> sectors: where it starts and how long it is.\<close>

lemma rw_piece:
  fixes sector num :: u32
  assumes "unat sector + unat num < 2 ^ 32" "n < unat num" "card_ccs K \<or> unat sector + unat num \<le> 2 ^ 23"
  shows "unat (sector + of_nat n) = unat sector + n" "unat (MIN32 (num - of_nat n) SDMMC_AMAX_BLOCKNUM) = min (unat num - n) 0xF000"
    "0 < MIN32 (num - of_nat n) SDMMC_AMAX_BLOCKNUM" "MIN32 (num - of_nat n) SDMMC_AMAX_BLOCKNUM \<le> 0xF000"
    "card_ccs K \<or> unat (sector + of_nat n) < 2 ^ 23"
proof -
  have n: "unat (of_nat n :: u32) = n" using less_trans [OF assms(2) unat_less_pow] by (intro unat_of_nat_u32) simp
  then show s: "unat (sector + of_nat n) = unat sector + n" using assms(1,2) by (simp add: unat_plus_no_wrap)
  have "of_nat n \<le> num" using n assms(2) by (simp add: word_le_nat_alt)
  then have "unat (num - of_nat n) = unat num - n" using n by (simp add: unat_minus_no_wrap)
  then show m: "unat (MIN32 (num - of_nat n) SDMMC_AMAX_BLOCKNUM) = min (unat num - n) 0xF000" by (simp add: unat_MIN32 SDMMC_AMAX_BLOCKNUM_def)
  show "0 < MIN32 (num - of_nat n) SDMMC_AMAX_BLOCKNUM" using m assms(2) by (simp add: word_less_nat_alt)
  show "MIN32 (num - of_nat n) SDMMC_AMAX_BLOCKNUM \<le> 0xF000" using m by (simp add: word_le_nat_alt)
  show "card_ccs K \<or> unat (sector + of_nat n) < 2 ^ 23" using s assms(2,3) by auto
qed

definition read_inv :: "'h card \<Rightarrow> (nat \<Rightarrow> u8 list) \<Rightarrow> storage_ptr \<Rightarrow> u32 \<Rightarrow> u32 \<Rightarrow> nat \<Rightarrow> u8 list \<Rightarrow> 'h sdworld \<Rightarrow> bool" where
  "read_inv K F p sector num n buf w \<longleftrightarrow> n \<le> unat num \<and> dev_ready K F (ptr_id p) (storage_dev p w) \<and> length buf = 512 * unat num \<and>
     take (512 * n) buf = concat (map F [unat sector..<unat sector + n])"

lemma read_inv_keeps:
  "read_inv K F p sector num n buf w \<Longrightarrow> keeps K (storage_dev p w) (storage_dev p w') \<Longrightarrow> read_inv K F p sector num n buf w'"
  by (auto simp: read_inv_def intro: dev_ready_keeps)

lemma read_step:
  assumes host: "card_host (rw_host E) K" and i: "read_inv K F p sector num n buf w" and n: "n < unat num"
    and a: "unat sector + unat num < 2 ^ 32" "card_ccs K \<or> unat sector + unat num \<le> 2 ^ 23"
    and x: "sdmmc_storage_readwrite_ex (rw_host E) (sector + of_nat n) (MIN32 (num - of_nat n) SDMMC_AMAX_BLOCKNUM) (drop (512 * n) buf) False (storage_dev p w) = (err, part, k, d)"
  shows "if err then read_inv K F p sector num n (take (512 * n) buf @ part) (set_storage_dev p d w)
    else unat k = min (unat num - n) 0xF000 \<and> read_inv K F p sector num (n + unat k) (take (512 * n) buf @ part) (set_storage_dev p d w)"
proof -
  note pc = rw_piece [OF a(1) n a(2)]
  define m where "m = min (unat num - n) 0xF000"
  have m: "n + m \<le> unat num" using n by (simp add: m_def)
  have dr: "dev_ready K F (ptr_id p) (storage_dev p w)" and len: "length buf = 512 * unat num"
    and t: "take (512 * n) buf = concat (map F [unat sector..<unat sector + n])" using i by (simp_all add: read_inv_def)
  have le: "512 * unat (MIN32 (num - of_nat n) SDMMC_AMAX_BLOCKNUM) \<le> length (drop (512 * n) buf)" using len n unfolding pc(2) by simp
  note r = readwrite_ex_read [OF host dr pc(3,4) le pc(5) x, unfolded pc(1,2), folded m_def]
  have F: "\<forall>j. length (F j) = 512" using host dr by (auto simp: card_host_def dev_ready_def card_kept_def)
  have l1: "length (take (512 * n) buf) = 512 * n" using n len by simp
  have l2: "length (take (512 * n) buf @ part) = 512 * unat num" using r(2) len n by simp
  show ?thesis
  proof (cases err)
    case True
    then show ?thesis using r(1) l1 l2 t n by (simp add: read_inv_def)
  next
    case False
    then have k: "unat k = m" and p: "part = concat (map F [unat sector + n..<unat sector + n + m]) @ drop (512 * m) (drop (512 * n) buf)"
      using r(3) pc(2) by (simp_all add: m_def)
    have "take (512 * (n + m)) (take (512 * n) buf @ part) = take (512 * n) buf @ concat (map F [unat sector + n..<unat sector + n + m])"
      using l1 concat_sectors_length [OF F, of "unat sector + n" m] by (simp add: p distrib_left)
    also have "\<dots> = concat (map F [unat sector..<unat sector + (n + m)])"
      unfolding t by (metis add.assoc concat_append le_add1 map_append upt_add_eq_append)
    finally show ?thesis using False k m r(1) l2 by (simp add: read_inv_def m_def [symmetric])
  qed
qed

text \<open>A write: outside the request nothing changes, what is done holds the data.\<close>

definition write_inv :: "'h card \<Rightarrow> (nat \<Rightarrow> u8 list) \<Rightarrow> storage_ptr \<Rightarrow> u32 \<Rightarrow> u32 \<Rightarrow> u8 list \<Rightarrow> nat \<Rightarrow> u8 list \<Rightarrow> 'h sdworld \<Rightarrow> bool" where
  "write_inv K F p sector num data n buf w \<longleftrightarrow> n \<le> unat num \<and> buf = data \<and>
     (\<exists>G. dev_ready K G (ptr_id p) (storage_dev p w) \<and> (\<forall>j. j < unat sector \<or> unat sector + unat num \<le> j \<longrightarrow> G j = F j) \<and>
        (\<forall>j. unat sector \<le> j \<and> j < unat sector + n \<longrightarrow> G j = take 512 (drop (512 * (j - unat sector)) data)))"

lemma write_inv_keeps:
  assumes "write_inv K F p sector num data n buf w" "keeps K (storage_dev p w) (storage_dev p w')"
  shows "write_inv K F p sector num data n buf w'"
proof -
  obtain G where "dev_ready K G (ptr_id p) (storage_dev p w)" "\<forall>j. j < unat sector \<or> unat sector + unat num \<le> j \<longrightarrow> G j = F j"
    "\<forall>j. unat sector \<le> j \<and> j < unat sector + n \<longrightarrow> G j = take 512 (drop (512 * (j - unat sector)) data)" "n \<le> unat num" "buf = data"
    using assms(1) unfolding write_inv_def by blast
  then show ?thesis unfolding write_inv_def using dev_ready_keeps [OF _ assms(2)] by blast
qed

lemma write_step:
  assumes host: "card_host (rw_host E) K" and i: "write_inv K F p sector num data n buf w" and n: "n < unat num" and len: "length data = 512 * unat num"
    and a: "unat sector + unat num < 2 ^ 32" "card_ccs K \<or> unat sector + unat num \<le> 2 ^ 23"
    and x: "sdmmc_storage_readwrite_ex (rw_host E) (sector + of_nat n) (MIN32 (num - of_nat n) SDMMC_AMAX_BLOCKNUM) (drop (512 * n) buf) True (storage_dev p w) = (err, part, k, d)"
  shows "if err then write_inv K F p sector num data n (take (512 * n) buf @ part) (set_storage_dev p d w)
    else unat k = min (unat num - n) 0xF000 \<and> write_inv K F p sector num data (n + unat k) (take (512 * n) buf @ part) (set_storage_dev p d w)"
proof -
  note pc = rw_piece [OF a(1) n a(2)]
  define m where "m = min (unat num - n) 0xF000"
  have m: "n + m \<le> unat num" using n by (simp add: m_def)
  obtain G where G: "dev_ready K G (ptr_id p) (storage_dev p w)" "\<forall>j. j < unat sector \<or> unat sector + unat num \<le> j \<longrightarrow> G j = F j"
    "\<forall>j. unat sector \<le> j \<and> j < unat sector + n \<longrightarrow> G j = take 512 (drop (512 * (j - unat sector)) data)" and b: "buf = data"
    using i by (auto simp: write_inv_def)
  have le: "512 * unat (MIN32 (num - of_nat n) SDMMC_AMAX_BLOCKNUM) \<le> length (drop (512 * n) buf)" using len b n unfolding pc(2) by simp
  obtain G' where G': "dev_ready K G' (ptr_id p) d" "part = drop (512 * n) buf" "\<forall>j. j < unat sector + n \<or> unat sector + n + m \<le> j \<longrightarrow> G' j = G j"
    "\<not> err \<longrightarrow> k = MIN32 (num - of_nat n) SDMMC_AMAX_BLOCKNUM \<and> G' = put_blocks (unat sector + n) (drop (512 * n) buf) m G"
    using readwrite_ex_write [OF host G(1) pc(3,4) le pc(5) x, unfolded pc(1,2), folded m_def] by blast
  have whole: "take (512 * n) buf @ part = data" using G'(2) b by simp
  have out: "\<forall>j. j < unat sector \<or> unat sector + unat num \<le> j \<longrightarrow> G' j = F j" using G'(3) G(2) m by auto
  show ?thesis
  proof (cases err)
    case True
    have "\<forall>j. unat sector \<le> j \<and> j < unat sector + n \<longrightarrow> G' j = take 512 (drop (512 * (j - unat sector)) data)" using G'(3) G(3) by auto
    then show ?thesis using True whole G'(1) out n by (auto simp: write_inv_def)
  next
    case False
    have "G' j = take 512 (drop (512 * (j - unat sector)) data)" if j: "unat sector \<le> j" "j < unat sector + (n + m)" for j
    proof (cases "j < unat sector + n")
      case True
      then show ?thesis using G'(3) G(3) j by auto
    next
      case nl: False
      then have "512 * (j - (unat sector + n)) + 512 * n = 512 * (j - unat sector)" by simp
      then show ?thesis using G'(4) False nl j b by (simp add: put_blocks_def)
    qed
    moreover have "unat k = m" using G'(4) False pc(2) by (simp add: m_def)
    ultimately show ?thesis using False whole G'(1) out m by (auto simp: write_inv_def m_def [symmetric])
  qed
qed

lemma bound_check: "(ucast a + ucast b :: u64) > ucast c \<longleftrightarrow> unat a + unat b > unat c" for a b c :: u32
proof -
  have u: "unat (ucast x :: u64) = unat x" for x :: u32 by (simp add: unsigned_ucast_eq take_bit_nat_eq_self less_trans [OF unat_less_pow])
  have "unat (ucast a + ucast b :: u64) = unat a + unat b"
    using unat_plus_no_wrap [of "ucast a :: u64" "ucast b"] u [of a] u [of b] unat_less_pow [of a] unat_less_pow [of b] by simp
  then show ?thesis by (simp add: word_less_nat_alt u)
qed

text \<open>A request that reaches past the end of the card is refused before any command is sent.\<close>

lemma readwrite_out_of_bounds:
  "unat sector + unat num > unat (sec_cnt (dev_st (storage_dev p w))) \<Longrightarrow> sdmmc_storage_readwrite E p sector num buf wr w = Some (True, buf, w)"
  by (simp add: sdmmc_storage_readwrite_def Let_def bound_check)

text \<open>The conditions of a request: the card ready, the sectors inside it, and inside 32 bit byte addresses when it is addressed by bytes.\<close>

definition request_ok :: "('h, 'f) rw_env \<Rightarrow> 'h card \<Rightarrow> (nat \<Rightarrow> u8 list) \<Rightarrow> storage_ptr \<Rightarrow> u32 \<Rightarrow> u32 \<Rightarrow> 'h sdworld \<Rightarrow> bool" where
  "request_ok E K F p sector num w \<longleftrightarrow> card_host (rw_host E) K \<and> dev_ready K F (ptr_id p) (storage_dev p w) \<and>
     unat sector + unat num \<le> unat (sec_cnt (dev_st (storage_dev p w))) \<and> (card_ccs K \<or> unat sector + unat num \<le> 2 ^ 23)"

lemma request_empty:
  assumes "request_ok E K F p sector 0 w"
  shows "sdmmc_storage_readwrite E p sector 0 buf wr w = Some (False, buf, w)"
proof -
  have "\<not> (ucast sector + ucast (0 :: u32) :: u64) > ucast (sec_cnt (dev_st (storage_dev p w)))"
    unfolding bound_check using assms by (simp add: request_ok_def)
  then show ?thesis using assms by (simp add: sdmmc_storage_readwrite_def request_ok_def dev_ready_def)
qed

lemma request_loop:
  assumes "request_ok E K F p sector num w" "num \<noteq> 0"
  shows "sdmmc_storage_readwrite E p sector num buf wr w = rw_loop E p wr sector num 5 True (sector + of_nat 0) (num - of_nat 0) (512 * 0) buf w"
    "unat sector + unat num < 2 ^ 32" "0 < unat num"
proof -
  have "initialized (dev_st (storage_dev p w))" "\<not> unat (sec_cnt (dev_st (storage_dev p w))) < unat sector + unat num"
    using assms(1) by (simp_all add: request_ok_def dev_ready_def)
  then show "sdmmc_storage_readwrite E p sector num buf wr w = rw_loop E p wr sector num 5 True (sector + of_nat 0) (num - of_nat 0) (512 * 0) buf w"
    using assms(2) by (simp add: sdmmc_storage_readwrite_def Let_def bound_check)
  show "unat sector + unat num < 2 ^ 32" using assms(1) le_less_trans [OF _ unat_less_pow] by (auto simp: request_ok_def)
  show "0 < unat num" using assms(2) by (simp add: unat_gt_0)
qed

lemma readwrite_read:
  assumes r: "request_ok E K F p sector num w" and len: "length buf = 512 * unat num"
  shows "\<exists>err buf' w'. sdmmc_storage_readwrite E p sector num buf False w = Some (err, buf', w') \<and>
    card_kept K F (ptr_id p) (storage_dev p w') \<and> length buf' = length buf \<and>
    (\<not> err \<longrightarrow> dev_ready K F (ptr_id p) (storage_dev p w') \<and> buf' = concat (map F [unat sector..<unat sector + unat num]))"
proof (cases "num = 0")
  case True
  then show ?thesis using r len request_empty [of E K F p sector w buf False] by (auto simp: request_ok_def dev_ready_def)
next
  case False
  note q = request_loop(1) [OF r False, of buf False] request_loop(2,3) [OF r False]
  have host: "card_host (rw_host E) K" and a: "card_ccs K \<or> unat sector + unat num \<le> 2 ^ 23" using r by (simp_all add: request_ok_def)
  have ok: "driver_ok (rw_host E) K" using host by (simp add: card_host_def)
  define Q where "Q = (\<lambda>(b :: u8 list) w. length b = 512 * unat num \<and> card_kept K F (ptr_id p) (storage_dev p w))"
  have "\<exists>err buf' w'. rw_loop E p False sector num 5 True (sector + of_nat 0) (num - of_nat 0) (512 * 0) buf w = Some (err, buf', w') \<and>
    (if err then Q buf' w' else read_inv K F p sector num (unat num) buf' w')"
  proof (rule rw_loop_rule [where I = "read_inv K F p sector num"])
    fix n b w err part k d
    assume "read_inv K F p sector num n b w" "n < unat num"
      "sdmmc_storage_readwrite_ex (rw_host E) (sector + of_nat n) (MIN32 (num - of_nat n) SDMMC_AMAX_BLOCKNUM) (drop (512 * n) b) False (storage_dev p w) = (err, part, k, d)"
    then show "if err then read_inv K F p sector num n (take (512 * n) b @ part) (set_storage_dev p d w)
      else unat k = min (unat num - n) 0xF000 \<and> read_inv K F p sector num (n + unat k) (take (512 * n) b @ part) (set_storage_dev p d w)"
      by (rule read_step [OF host _ _ q(2) a])
  next
    fix n b w assume "read_inv K F p sector num n b w"
    then show "read_inv K F p sector num n b (rw_pause E p w)" by (rule read_inv_keeps [OF _ keeps_pause [OF ok]])
  next
    fix n b w first res w' assume i: "read_inv K F p sector num n b w" and f: "first \<or> rw_mode p w \<noteq> 0" and h: "sdmmc_storage_handle_io_error E p first w = (res, w')"
    have "card_kept K F (ptr_id p) (storage_dev p w)" using i by (simp add: read_inv_def dev_ready_def)
    note hok = handle_io_error_ok [OF host this f h]
    show "if res then Q b w' else read_inv K F p sector num 0 b w' \<and> rw_mode p w' \<noteq> 0 \<and> (\<not> first \<longrightarrow> unat (rw_mode p w') < unat (rw_mode p w))"
      using hok i by (auto simp: Q_def read_inv_def)
  qed (use r len q in \<open>simp_all add: read_inv_def request_ok_def\<close>)
  then show ?thesis unfolding q(1) using len by (fastforce simp: Q_def read_inv_def dev_ready_def split: if_splits)
qed

lemma readwrite_write:
  assumes r: "request_ok E K F p sector num w" and len: "length buf = 512 * unat num"
  shows "\<exists>err w' G. sdmmc_storage_readwrite E p sector num buf True w = Some (err, buf, w') \<and> card_kept K G (ptr_id p) (storage_dev p w') \<and>
    (\<forall>j. j < unat sector \<or> unat sector + unat num \<le> j \<longrightarrow> G j = F j) \<and>
    (\<not> err \<longrightarrow> dev_ready K G (ptr_id p) (storage_dev p w') \<and> G = put_blocks (unat sector) buf (unat num) F)"
proof (cases "num = 0")
  case True
  have "put_blocks (unat sector) buf 0 F = F" by (intro ext) (auto simp: put_blocks_def)
  then show ?thesis using r True request_empty [of E K F p sector w buf True] by (auto simp: request_ok_def dev_ready_def)
next
  case False
  note q = request_loop(1) [OF r False, of buf True] request_loop(2,3) [OF r False]
  have host: "card_host (rw_host E) K" and a: "card_ccs K \<or> unat sector + unat num \<le> 2 ^ 23" using r by (simp_all add: request_ok_def)
  have ok: "driver_ok (rw_host E) K" using host by (simp add: card_host_def)
  define Q where "Q = (\<lambda>b w. b = buf \<and> (\<exists>G. card_kept K G (ptr_id p) (storage_dev p w) \<and> (\<forall>j. j < unat sector \<or> unat sector + unat num \<le> j \<longrightarrow> G j = F j)))"
  have l: "\<exists>err buf' w'. rw_loop E p True sector num 5 True (sector + of_nat 0) (num - of_nat 0) (512 * 0) buf w = Some (err, buf', w') \<and>
    (if err then Q buf' w' else write_inv K F p sector num buf (unat num) buf' w')"
  proof (rule rw_loop_rule [where I = "write_inv K F p sector num buf"])
    fix n b w err part k d
    assume "write_inv K F p sector num buf n b w" "n < unat num"
      "sdmmc_storage_readwrite_ex (rw_host E) (sector + of_nat n) (MIN32 (num - of_nat n) SDMMC_AMAX_BLOCKNUM) (drop (512 * n) b) True (storage_dev p w) = (err, part, k, d)"
    then show "if err then write_inv K F p sector num buf n (take (512 * n) b @ part) (set_storage_dev p d w)
      else unat k = min (unat num - n) 0xF000 \<and> write_inv K F p sector num buf (n + unat k) (take (512 * n) b @ part) (set_storage_dev p d w)"
      by (rule write_step [OF host _ _ len q(2) a])
  next
    fix n b w assume "write_inv K F p sector num buf n b w"
    then show "write_inv K F p sector num buf n b (rw_pause E p w)" by (rule write_inv_keeps [OF _ keeps_pause [OF ok]])
  next
    fix n b w first res w' assume i: "write_inv K F p sector num buf n b w" and f: "first \<or> rw_mode p w \<noteq> 0" and h: "sdmmc_storage_handle_io_error E p first w = (res, w')"
    obtain G where G: "dev_ready K G (ptr_id p) (storage_dev p w)" "\<forall>j. j < unat sector \<or> unat sector + unat num \<le> j \<longrightarrow> G j = F j" and b: "b = buf"
      using i by (auto simp: write_inv_def)
    have "card_kept K G (ptr_id p) (storage_dev p w)" using G(1) by (simp add: dev_ready_def)
    note hok = handle_io_error_ok [OF host this f h]
    show "if res then Q b w' else write_inv K F p sector num buf 0 b w' \<and> rw_mode p w' \<noteq> 0 \<and> (\<not> first \<longrightarrow> unat (rw_mode p w') < unat (rw_mode p w))"
      using hok G b by (auto simp: Q_def write_inv_def)
  qed (use r q in \<open>auto simp: write_inv_def request_ok_def\<close>)
  have w: "\<exists>G. dev_ready K G (ptr_id p) (storage_dev p w') \<and> G = put_blocks (unat sector) buf (unat num) F"
    if wi: "write_inv K F p sector num buf (unat num) b w'" for b w'
  proof -
    obtain G where G: "dev_ready K G (ptr_id p) (storage_dev p w')" "\<forall>j. j < unat sector \<or> unat sector + unat num \<le> j \<longrightarrow> G j = F j"
      "\<forall>j. unat sector \<le> j \<and> j < unat sector + unat num \<longrightarrow> G j = take 512 (drop (512 * (j - unat sector)) buf)"
      using wi unfolding write_inv_def by blast
    have "G = put_blocks (unat sector) buf (unat num) F" using G(2,3) by (auto simp: put_blocks_def fun_eq_iff)
    then show ?thesis using G(1) by blast
  qed
  obtain err b w' where e: "rw_loop E p True sector num 5 True (sector + of_nat 0) (num - of_nat 0) (512 * 0) buf w = Some (err, b, w')"
    "if err then Q b w' else write_inv K F p sector num buf (unat num) b w'" using l by blast
  have b: "b = buf" using e(2) by (auto simp: Q_def write_inv_def split: if_splits)
  show ?thesis
  proof (cases err)
    case True
    then show ?thesis using e b unfolding q(1) by (auto simp: Q_def)
  next
    case nf: False
    define G where "G = put_blocks (unat sector) buf (unat num) F"
    have "dev_ready K G (ptr_id p) (storage_dev p w')" using w e(2) nf by (auto simp: G_def)
    moreover then have "card_kept K G (ptr_id p) (storage_dev p w')" by (simp add: dev_ready_def)
    moreover have "\<forall>j. j < unat sector \<or> unat sector + unat num \<le> j \<longrightarrow> G j = F j" by (simp add: G_def put_blocks_def)
    ultimately show ?thesis using e(1) nf b unfolding q(1) G_def by blast
  qed
qed

end
