(* ===== verification/Sdmmc_Disk.thy ===== *)
theory Sdmmc_Disk
  imports Sdmmc_Data
begin

text \<open>
  The storage as a disk: what \<open>sdmmc_storage_read\<close> and \<open>sdmmc_storage_write\<close> promise their callers, stated
  as a contract of a disk whose requests may fail, and what follows from the contract.
\<close>

subsection \<open>The contract\<close>

text \<open>
  \<open>ok F s\<close>: the disk holds the sectors \<open>F\<close>. A request returns; a read changes nothing, a write nothing
  outside its range; without an error the data are those of the range.
\<close>

locale faulty_disk =
  fixes ok :: "(nat \<Rightarrow> u8 list) \<Rightarrow> 's \<Rightarrow> bool"
    and reach :: "u32 \<Rightarrow> u32 \<Rightarrow> bool"
    and rd :: "u32 \<Rightarrow> u32 \<Rightarrow> u8 list \<Rightarrow> 's \<Rightarrow> (bool \<times> u8 list \<times> 's) option"
    and wr :: "u32 \<Rightarrow> u32 \<Rightarrow> u8 list \<Rightarrow> 's \<Rightarrow> (bool \<times> 's) option"
  assumes ok_block: "ok F s \<Longrightarrow> length (F j) = 512"
    and rd_law: "ok F s \<Longrightarrow> reach a n \<Longrightarrow> length b = 512 * unat n \<Longrightarrow>
      \<exists>err b' s'. rd a n b s = Some (err, b', s') \<and> ok F s' \<and> length b' = length b \<and>
        (\<not> err \<longrightarrow> b' = concat (map F [unat a..<unat a + unat n]))"
    and wr_law: "ok F s \<Longrightarrow> reach a n \<Longrightarrow> length b = 512 * unat n \<Longrightarrow>
      \<exists>err s' G. wr a n b s = Some (err, s') \<and> ok G s' \<and> (\<forall>j. j < unat a \<or> unat a + unat n \<le> j \<longrightarrow> G j = F j) \<and>
        (\<not> err \<longrightarrow> G = put_blocks (unat a) b (unat n) F)"
begin

lemma concat_put_blocks: "length b = 512 * k \<Longrightarrow> concat (map (put_blocks a b k F) [a..<a + k]) = b"
proof -
  assume b: "length b = 512 * k"
  have "concat (map (put_blocks a b k F) [a..<a + m]) = take (512 * m) b" if "m \<le> k" for m using that
  proof (induction m)
    case (Suc m)
    have "take (512 * m + 512) b = take (512 * m) b @ take 512 (drop (512 * m) b)" by (rule take_add)
    moreover have "put_blocks a b k F (a + m) = take 512 (drop (512 * m) b)" using Suc.prems by (simp add: put_blocks_def)
    ultimately show ?case using Suc by (simp add: add.commute)
  qed simp
  then show ?thesis using b by simp
qed

lemma write_read:
  assumes "ok F s" "reach a n" "length b = 512 * unat n" "length c = 512 * unat n"
    and "wr a n b s = Some (False, s1)" "rd a n c s1 = Some (False, d, s2)"
  shows "d = b"
proof -
  have "ok (put_blocks (unat a) b (unat n) F) s1" using wr_law [OF assms(1-3)] assms(5) by auto
  from rd_law [OF this assms(2,4)] assms(6) have "d = concat (map (put_blocks (unat a) b (unat n) F) [unat a..<unat a + unat n])" by auto
  then show ?thesis using concat_put_blocks [OF assms(3)] by simp
qed

lemma write_frame:
  assumes "ok F s" "reach a n" "length b = 512 * unat n" "reach a' n'" "length c = 512 * unat n'"
    and "unat a' + unat n' \<le> unat a \<or> unat a + unat n \<le> unat a'"
    and "wr a n b s = Some (err, s1)" "rd a' n' c s1 = Some (False, d, s2)"
  shows "d = concat (map F [unat a'..<unat a' + unat n'])"
proof -
  obtain G where G: "ok G s1" "\<forall>j. j < unat a \<or> unat a + unat n \<le> j \<longrightarrow> G j = F j" using wr_law [OF assms(1-3)] assms(7) by auto
  have "map G [unat a'..<unat a' + unat n'] = map F [unat a'..<unat a' + unat n']" using G(2) assms(6) by auto
  moreover have "d = concat (map G [unat a'..<unat a' + unat n'])" using rd_law [OF G(1) assms(4,5)] assms(8) by auto
  ultimately show ?thesis by argo
qed

end

subsection \<open>The storage fulfils it\<close>

text \<open>The card in its controller, the storage in agreement with it, and the bounce buffer of its length.\<close>

definition disk_ok :: "('h, 'f) rw_env \<Rightarrow> 'h card \<Rightarrow> storage_ptr \<Rightarrow> (nat \<Rightarrow> u8 list) \<Rightarrow> 'h sdworld \<Rightarrow> bool" where
  "disk_ok E K p F w \<longleftrightarrow> card_host (rw_host E) K \<and> card_kept K F (ptr_id p) (storage_dev p w) \<and> length (w_alt w) = 0x8000000"

text \<open>Cards that are addressed by bytes have four gigabytes at most.\<close>

definition card_reach :: "'h card \<Rightarrow> u32 \<Rightarrow> u32 \<Rightarrow> bool" where
  "card_reach K a n \<longleftrightarrow> card_ccs K \<or> unat a + unat n \<le> 2 ^ 23"

lemma w_alt_frame [simp]:
  "w_alt (set_storage_dev p d w) = w_alt w" "w_alt (rw_pause E p w) = w_alt w" "w_alt (snd (sdmmc_storage_handle_io_error E p first w)) = w_alt w"
  by (simp_all add: set_storage_dev_def rw_pause_def sdmmc_storage_handle_io_error_def Let_def split_def split: storage_ptr.split)

lemma rw_loop_alt:
  assumes "rw_loop E p wr sector num retries first so st bo buf w = Some r"
  shows "w_alt (snd (snd r)) = w_alt w"
proof (rule rw_loop.raw_induct [OF _ assms])
  fix loop E p wr sector num retries first so st bo buf and w :: "'a sdworld" and y
  assume ih: "\<And>E p wr sector num retries first so st bo buf w y. loop E p wr sector num retries first so st bo buf w = Some y \<Longrightarrow> w_alt (snd (snd y)) = w_alt w"
    and b: "(let (err, part, blkcnt, d) =
            sdmmc_storage_readwrite_ex (rw_host E) so (MIN32 st SDMMC_AMAX_BLOCKNUM) (drop bo buf) wr (storage_dev p w);
          buf1 = take bo buf @ part;
          w1 = set_storage_dev p d w
      in if \<not> err
         then (if st - blkcnt = 0 then Some (False, buf1, w1)
               else loop E p wr sector num 5 first (so + blkcnt) (st - blkcnt) (bo + unat (SDMMC_DAT_BLOCKSIZE * blkcnt)) buf1 w1)
         else let w2 = rw_pause E p w1
              in if retries > 1 then loop E p wr sector num (retries - 1) first so st bo buf1 w2
                 else let (res, w3) = sdmmc_storage_handle_io_error E p first w2
                      in if \<not> res then loop E p wr sector num 3 False sector num 0 buf1 w3
                         else Some (True, buf1, w3)) = Some y"
  obtain err part k d where x: "sdmmc_storage_readwrite_ex (rw_host E) so (MIN32 st SDMMC_AMAX_BLOCKNUM) (drop bo buf) wr (storage_dev p w) = (err, part, k, d)"
    by (metis prod_cases4)
  obtain res w3 where h: "sdmmc_storage_handle_io_error E p first (rw_pause E p (set_storage_dev p d w)) = (res, w3)" by force
  then have "w_alt w3 = w_alt w" using w_alt_frame(3) [of E p first "rw_pause E p (set_storage_dev p d w)"] by simp
  then show "w_alt (snd (snd y)) = w_alt w" using b unfolding x prod.case Let_def h by (auto split: if_splits dest: ih)
qed

lemma readwrite_alt:
  "sdmmc_storage_readwrite E p sector num buf wr w = Some (err, b, w') \<Longrightarrow> w_alt w' = w_alt w"
  by (auto simp: sdmmc_storage_readwrite_def Let_def split: if_splits dest: rw_loop_alt)

text \<open>A request that is refused leaves everything; one that is not refused has its sectors on the card.\<close>

lemma readwrite_refused:
  assumes "\<not> initialized (dev_st (storage_dev p w)) \<or> unat sector + unat num > unat (sec_cnt (dev_st (storage_dev p w)))"
  shows "sdmmc_storage_readwrite E p sector num buf wr w = Some (True, buf, w)"
  using assms readwrite_out_of_bounds [of p w sector num E buf wr] by (auto simp: sdmmc_storage_readwrite_def Let_def)

lemma request_cases:
  assumes "card_host (rw_host E) K" "card_kept K F (ptr_id p) (storage_dev p w)" "card_reach K sector num"
  obtains "\<And>buf wr. sdmmc_storage_readwrite E p sector num buf wr w = Some (True, buf, w)" | "request_ok E K F p sector num w"
proof (cases "\<not> initialized (dev_st (storage_dev p w)) \<or> unat sector + unat num > unat (sec_cnt (dev_st (storage_dev p w)))")
  case True
  then show ?thesis using that(1) readwrite_refused by blast
next
  case False
  then show ?thesis using that(2) assms by (auto simp: request_ok_def dev_ready_def card_reach_def)
qed

lemma disk_readwrite_read:
  assumes w: "card_host (rw_host E) K" "card_kept K F (ptr_id p) (storage_dev p w)" "card_reach K sector num" and len: "length buf = 512 * unat num"
  shows "\<exists>err buf' w'. sdmmc_storage_readwrite E p sector num buf False w = Some (err, buf', w') \<and>
    card_kept K F (ptr_id p) (storage_dev p w') \<and> w_alt w' = w_alt w \<and> length buf' = length buf \<and>
    (\<not> err \<longrightarrow> buf' = concat (map F [unat sector..<unat sector + unat num]))"
proof (rule request_cases [OF w])
  assume "request_ok E K F p sector num w"
  then show ?thesis using readwrite_read [OF _ len] readwrite_alt by metis
qed (use w in auto)

lemma disk_readwrite_write:
  assumes w: "card_host (rw_host E) K" "card_kept K F (ptr_id p) (storage_dev p w)" "card_reach K sector num" and len: "length buf = 512 * unat num"
  shows "\<exists>err w' G. sdmmc_storage_readwrite E p sector num buf True w = Some (err, buf, w') \<and>
    card_kept K G (ptr_id p) (storage_dev p w') \<and> w_alt w' = w_alt w \<and> (\<forall>j. j < unat sector \<or> unat sector + unat num \<le> j \<longrightarrow> G j = F j) \<and>
    (\<not> err \<longrightarrow> G = put_blocks (unat sector) buf (unat num) F)"
proof (rule request_cases [OF w])
  assume r: "request_ok E K F p sector num w"
  obtain err w' G where x: "sdmmc_storage_readwrite E p sector num buf True w = Some (err, buf, w')" and y: "card_kept K G (ptr_id p) (storage_dev p w')"
    "\<forall>j. j < unat sector \<or> unat sector + unat num \<le> j \<longrightarrow> G j = F j" "\<not> err \<longrightarrow> G = put_blocks (unat sector) buf (unat num) F"
    using readwrite_write [OF r len] by blast
  then show ?thesis using readwrite_alt [OF x] by blast
qed (use w in auto)

text \<open>The length of a request that goes through the bounce buffer.\<close>

lemma bounce_length:
  assumes "\<not> num > SDMMC_ALT_DMA_BUF_SZ div SDMMC_DAT_BLOCKSIZE"
  shows "unat (SDMMC_DAT_BLOCKSIZE * num) = 512 * unat num" "512 * unat num \<le> 0x8000000"
proof -
  have "SDMMC_ALT_DMA_BUF_SZ div SDMMC_DAT_BLOCKSIZE = 0x40000" by (simp add: SDMMC_ALT_DMA_BUF_SZ_def SDMMC_DAT_BLOCKSIZE_def)
  then have "unat num \<le> 0x40000" using assms by (simp add: not_less word_le_nat_alt)
  then show "unat (SDMMC_DAT_BLOCKSIZE * num) = 512 * unat num" "512 * unat num \<le> 0x8000000"
    by (simp_all add: SDMMC_DAT_BLOCKSIZE_def unat_word_ariths)
qed

lemma storage_dev_alt [simp]: "storage_dev p (w\<lparr>w_alt := a\<rparr>) = storage_dev p w"
  by (simp add: storage_dev_def split: storage_ptr.split)

lemma disk_read:
  assumes w: "disk_ok E K p F w" "card_reach K sector num" and len: "length buf = 512 * unat num"
  shows "\<exists>err buf' w'. sdmmc_storage_read E p sector num dma buf w = Some (err, buf', w') \<and> disk_ok E K p F w' \<and> length buf' = length buf \<and>
    (\<not> err \<longrightarrow> buf' = concat (map F [unat sector..<unat sector + unat num]))"
proof -
  have h: "card_host (rw_host E) K" "card_kept K F (ptr_id p) (storage_dev p w)" and alt: "length (w_alt w) = 0x8000000" using w(1) by (simp_all add: disk_ok_def)
  consider "dma" | "\<not> dma" "num > SDMMC_ALT_DMA_BUF_SZ div SDMMC_DAT_BLOCKSIZE" | "\<not> dma" "\<not> num > SDMMC_ALT_DMA_BUF_SZ div SDMMC_DAT_BLOCKSIZE" by blast
  then show ?thesis
  proof cases
    case 1
    then show ?thesis using disk_readwrite_read [OF h w(2) len] h alt by (auto simp: sdmmc_storage_read_def disk_ok_def)
  next
    case 2
    then have "sdmmc_storage_read E p sector num dma buf w = Some (True, buf, w)" by (simp add: sdmmc_storage_read_def)
    then show ?thesis using w(1) by blast
  next
    case 3
    note bl = bounce_length [OF 3(2)]
    have tl: "length (take (512 * unat num) (w_alt w)) = 512 * unat num" using bl(2) alt by simp
    obtain err tmp w1 where r: "sdmmc_storage_readwrite E p sector num (take (512 * unat num) (w_alt w)) False w = Some (err, tmp, w1)"
      "card_kept K F (ptr_id p) (storage_dev p w1)" "length tmp = 512 * unat num" "\<not> err \<longrightarrow> tmp = concat (map F [unat sector..<unat sector + unat num])"
      using disk_readwrite_read [OF h w(2) tl] tl by auto
    define w2 where "w2 = w1\<lparr>w_alt := tmp @ drop (512 * unat num) (w_alt w)\<rparr>"
    have "sdmmc_storage_read E p sector num dma buf w = Some (err, if err then buf else buf_fill buf tmp, w2)"
      using 3 r(1,3) by (simp add: sdmmc_storage_read_def bl(1) Let_def w2_def)
    moreover have "disk_ok E K p F w2" using h(1) r(2,3) alt bl(2) by (simp add: disk_ok_def w2_def)
    moreover have "buf_fill buf tmp = tmp" using r(3) len by (simp add: buf_fill_def)
    ultimately show ?thesis using r(4) len by auto
  qed
qed

lemma disk_write:
  assumes w: "disk_ok E K p F w" "card_reach K sector num" and len: "length buf = 512 * unat num"
  shows "\<exists>err w' G. sdmmc_storage_write E p sector num dma buf w = Some (err, w') \<and> disk_ok E K p G w' \<and>
    (\<forall>j. j < unat sector \<or> unat sector + unat num \<le> j \<longrightarrow> G j = F j) \<and> (\<not> err \<longrightarrow> G = put_blocks (unat sector) buf (unat num) F)"
proof -
  have h: "card_host (rw_host E) K" "card_kept K F (ptr_id p) (storage_dev p w)" and alt: "length (w_alt w) = 0x8000000" using w(1) by (simp_all add: disk_ok_def)
  consider "dma" | "\<not> dma" "num > SDMMC_ALT_DMA_BUF_SZ div SDMMC_DAT_BLOCKSIZE" | "\<not> dma" "\<not> num > SDMMC_ALT_DMA_BUF_SZ div SDMMC_DAT_BLOCKSIZE" by blast
  then show ?thesis
  proof cases
    case 1
    obtain err w1 G where r: "sdmmc_storage_readwrite E p sector num buf True w = Some (err, buf, w1)" "card_kept K G (ptr_id p) (storage_dev p w1)"
      "w_alt w1 = w_alt w" "\<forall>j. j < unat sector \<or> unat sector + unat num \<le> j \<longrightarrow> G j = F j" "\<not> err \<longrightarrow> G = put_blocks (unat sector) buf (unat num) F"
      using disk_readwrite_write [OF h w(2) len] by blast
    have "sdmmc_storage_write E p sector num dma buf w = Some (err, w1)" using 1 r(1) by (simp add: sdmmc_storage_write_def)
    moreover have "disk_ok E K p G w1" using h(1) r(2,3) alt by (simp add: disk_ok_def)
    ultimately show ?thesis using r(4,5) by blast
  next
    case 2
    then have "sdmmc_storage_write E p sector num dma buf w = Some (True, w)" by (simp add: sdmmc_storage_write_def)
    then show ?thesis using w(1) by blast
  next
    case 3
    note bl = bounce_length [OF 3(2)]
    define w0 where "w0 = w\<lparr>w_alt := buf @ drop (512 * unat num) (w_alt w)\<rparr>"
    have k0: "card_kept K F (ptr_id p) (storage_dev p w0)" using h(2) by (simp add: w0_def)
    obtain err w1 G where r: "sdmmc_storage_readwrite E p sector num buf True w0 = Some (err, buf, w1)" "card_kept K G (ptr_id p) (storage_dev p w1)"
      "w_alt w1 = w_alt w0" "\<forall>j. j < unat sector \<or> unat sector + unat num \<le> j \<longrightarrow> G j = F j" "\<not> err \<longrightarrow> G = put_blocks (unat sector) buf (unat num) F"
      using disk_readwrite_write [OF h(1) k0 w(2) len] by blast
    define w2 where "w2 = w1\<lparr>w_alt := buf @ drop (512 * unat num) (w_alt w1)\<rparr>"
    have "sdmmc_storage_write E p sector num dma buf w = Some (err, w2)"
      using 3 r(1) len by (simp add: sdmmc_storage_write_def bl(1) Let_def w2_def w0_def)
    moreover have "disk_ok E K p G w2" using h(1) r(2,3) alt bl(2) len by (simp add: disk_ok_def w2_def w0_def)
    ultimately show ?thesis using r(4,5) by blast
  qed
qed

interpretation disk: faulty_disk "disk_ok E K p" "card_reach K" "\<lambda>a n. sdmmc_storage_read E p a n dma" "\<lambda>a n. sdmmc_storage_write E p a n dma" for E K p dma
proof
  show "disk_ok E K p F s \<Longrightarrow> length (F j) = 512" for F s j by (auto simp: disk_ok_def card_host_def card_kept_def)
qed (rule disk_read disk_write; assumption)+

subsection \<open>Requests\<close>

text \<open>
  C4. A read returns, through retries and initialisations of the card; the card keeps its contents and the
  storage its state, and without an error the buffer holds the sectors asked for, also when the data goes
  through the bounce buffer.
\<close>

theorem sdmmc_read_delivers:
  assumes "disk_ok E K p F w" "card_reach K sector num" "length buf = 512 * unat num"
  shows "\<exists>err buf' w'. sdmmc_storage_read E p sector num dma_ok buf w = Some (err, buf', w') \<and> disk_ok E K p F w' \<and> length buf' = length buf \<and>
    (\<not> err \<longrightarrow> buf' = concat (map F [unat sector..<unat sector + unat num]))"
  using assms by (rule disk.rd_law)

text \<open>
  C5. A write returns; without an error the card holds the data in exactly the sectors asked for, and with
  an error no other sector has changed, although the request may have been tried many times.
\<close>

theorem sdmmc_write_exact:
  assumes "disk_ok E K p F w" "card_reach K sector num" "length buf = 512 * unat num"
  shows "\<exists>err w' G. sdmmc_storage_write E p sector num dma_ok buf w = Some (err, w') \<and> disk_ok E K p G w' \<and>
    (\<forall>j. j < unat sector \<or> unat sector + unat num \<le> j \<longrightarrow> G j = F j) \<and> (\<not> err \<longrightarrow> G = put_blocks (unat sector) buf (unat num) F)"
  using assms by (rule disk.wr_law)

text \<open>
  What was written is read back: a write and a read of the same sectors, both without an error, give
  the data of the write, directly as through the bounce buffer.
\<close>

theorem sdmmc_write_read:
  assumes "disk_ok E K p F w" "card_reach K sector num" "length buf = 512 * unat num" "length buf' = 512 * unat num"
    and "sdmmc_storage_write E p sector num dma_ok buf w = Some (False, w1)" "sdmmc_storage_read E p sector num dma_ok buf' w1 = Some (False, data, w2)"
  shows "data = buf"
  using assms by (rule disk.write_read)

text \<open>
  A request to a storage that is not initialised, or that reaches past the end of the card, is refused
  and no command is sent: nothing but the bounce buffer changes.
\<close>

theorem sdmmc_request_refused:
  assumes "\<not> initialized (dev_st (storage_dev p w)) \<or> unat sector + unat num > unat (sec_cnt (dev_st (storage_dev p w)))"
  shows "sdmmc_storage_read E p sector num dma_ok buf w = Some (True, buf, w) \<and>
    (\<exists>a. sdmmc_storage_write E p sector num dma_ok buf w = Some (True, w\<lparr>w_alt := a\<rparr>))"
proof -
  have r: "sdmmc_storage_readwrite E p sector num b wr (w\<lparr>w_alt := a\<rparr>) = Some (True, b, w\<lparr>w_alt := a\<rparr>)" for b wr a
    using assms by (intro readwrite_refused) simp
  have same: "w\<lparr>w_alt := w_alt w\<rparr> = w" by simp
  have "sdmmc_storage_read E p sector num dma_ok buf w = Some (True, buf, w)"
    using r [of _ False "w_alt w", unfolded same] by (simp add: sdmmc_storage_read_def Let_def same)
  moreover have "\<exists>a. sdmmc_storage_write E p sector num dma_ok buf w = Some (True, w\<lparr>w_alt := a\<rparr>)"
    using r [of buf True "w_alt w", unfolded same] r [of "take (unat (SDMMC_DAT_BLOCKSIZE * num)) buf" True] same
    by (cases dma_ok) (auto simp: sdmmc_storage_write_def Let_def intro: exI [of _ "w_alt w"])
  ultimately show ?thesis by simp
qed

text \<open>
  C23. Initialising a card does not change what it holds, whether it succeeds or not; the storage is marked
  initialised exactly when it succeeds, and then it is addressed the way the card is: every request finds
  the storage in a consistent state.
\<close>

theorem init_keeps_card:
  assumes "card_host env K" "card_main K (mc_hw (dev_mc d))"
  shows "init_result K (card_sec K (mc_hw (dev_mc d))) SDMMC_1 (sdmmc_storage_init_sd env bus_width type d) \<and>
    init_result K (card_sec K (mc_hw (dev_mc d))) SDMMC_4 (sdmmc_storage_init_mmc env bus_width type d)"
  using init_sd_ok [OF assms] init_mmc_ok [OF assms] by blast

end
