(* ===== verification/Sdmmc_State.thy ===== *)
theory Sdmmc_State
  imports Sdmmc_Disk
begin

text \<open>
  The storage context through an initialisation, whatever the controller and the card answer: what is kept
  of it is proved once for any property of its fields that its updates keep, then taken for the lengths of
  its registers and for the partition of an eMMC.
\<close>

subsection \<open>Properties of the storage context\<close>

locale storage_inv =
  fixes Q :: "sdmmc_storage_t \<Rightarrow> bool"
  assumes zero: "Q zero_storage" "Q (zero_storage\<lparr>rca := 2\<rparr>)"
    and raw: "Q s \<Longrightarrow> length r = 4 \<Longrightarrow> Q (s\<lparr>raw_cid := r\<rparr>)" "Q s \<Longrightarrow> length r = 4 \<Longrightarrow> Q (s\<lparr>raw_csd := r\<rparr>)"
      "Q s \<Longrightarrow> length b = length (raw_ext_csd s) \<Longrightarrow> Q (s\<lparr>raw_ext_csd := b\<rparr>)"
    and mmc_parse: "Q s \<Longrightarrow> Q (mmc_storage_parse_cid s)" "Q s \<Longrightarrow> Q (mmc_storage_parse_csd s)" "Q s \<Longrightarrow> Q (mmc_storage_parse_ext_csd s)"
    and sd_parse: "Q s \<Longrightarrow> Q (sd_storage_parse_cid s)" "Q s \<Longrightarrow> Q (sd_storage_parse_csd s)"
      "Q s \<Longrightarrow> length b = 8 \<Longrightarrow> Q (sd_storage_parse_scr (s\<lparr>raw_scr := swap_words b 8\<rparr>))"
      "Q s \<Longrightarrow> length b = length (raw_ext_csd s) \<Longrightarrow> Q (sd_storage_parse_ssr (s\<lparr>raw_ssr := swap_words b 64\<rparr>))"
    and fields: "Q s \<Longrightarrow> Q (s\<lparr>initialized := x\<rparr>)" "Q s \<Longrightarrow> Q (s\<lparr>has_sector_access := x\<rparr>)" "Q s \<Longrightarrow> Q (s\<lparr>is_low_voltage := x\<rparr>)"
      "Q s \<Longrightarrow> Q (s\<lparr>has_pcie := x\<rparr>)" "Q s \<Longrightarrow> Q (s\<lparr>rca := v\<rparr>)" "Q s \<Longrightarrow> Q (s\<lparr>max_power := v\<rparr>)" "Q s \<Longrightarrow> Q (s\<lparr>csd := (csd s)\<lparr>busspeed := u\<rparr>\<rparr>)"
begin

definition kept :: "'h dev_op \<Rightarrow> bool" where
  "kept f \<longleftrightarrow> (\<forall>d. Q (dev_st d) \<longrightarrow> Q (dev_st (snd (f d))))"

lemma keptI: "(\<And>d. Q (dev_st d) \<Longrightarrow> Q (dev_st (snd (f d)))) \<Longrightarrow> kept f"
  by (simp add: kept_def)

lemma keptD: "kept f \<Longrightarrow> Q (dev_st d) \<Longrightarrow> Q (dev_st (snd (f d)))"
  by (simp add: kept_def)

lemma kept_steps: "\<forall>f \<in> set fs. kept f \<Longrightarrow> Q (dev_st d) \<Longrightarrow> Q (dev_st (snd (run_steps fs d)))"
  by (induction fs arbitrary: d) (auto simp: run_steps.simps split_def Let_def dest: keptD)

end

text \<open>Calls of the driver and commands leave the context alone.\<close>

lemma dev_st_driver [simp]:
  "dev_st (snd (drv_op f d)) = dev_st d" "dev_st (snd (drv_do g d)) = dev_st d" "dev_st (delay env us d) = dev_st d" "dev_st (msleep env ms d) = dev_st d"
  "dev_st (init_wait env n d) = dev_st d" "dev_st (snd (exec_cmd env c d)) = dev_st d" "dev_st (snd (snd (snd (exec_req env c r d)))) = dev_st d"
  by (simp_all add: drv_op_def drv_do_def delay_def msleep_def init_wait_def exec_cmd_def exec_req_def split_def Let_def)

lemma dev_st_commands [simp]:
  "dev_st (snd (snd (sdmmc_storage_execute_cmd_ex_masked env resp c arg busy st msk d))) = dev_st d"
  "dev_st (snd (sdmmc_storage_execute_cmd_ex_state env c arg busy st d)) = dev_st d" "dev_st (snd (sdmmc_storage_go_idle_state env d)) = dev_st d"
  "dev_st (snd (sdmmc_storage_select_card env d)) = dev_st d" "dev_st (snd (sdmmc_storage_set_blocklen env n d)) = dev_st d"
  "dev_st (snd (snd (sdmmc_storage_get_status env resp msk d))) = dev_st d" "dev_st (snd (sdmmc_storage_check_status env d)) = dev_st d"
  "dev_st (snd (mmc_storage_switch env arg d)) = dev_st d" "dev_st (snd (mmc_storage_set_relative_addr env d)) = dev_st d"
  "dev_st (snd (snd (mmc_storage_get_op_cond_inner env rocr pwr d))) = dev_st d"
  by (auto simp: sdmmc_storage_execute_cmd_ex_masked_def sdmmc_storage_execute_cmd_ex_state_def sdmmc_storage_go_idle_state_def sdmmc_storage_select_card_def
      sdmmc_storage_set_blocklen_def sdmmc_storage_get_status_def sdmmc_storage_check_status_def mmc_storage_switch_def mmc_storage_set_relative_addr_def
      mmc_storage_get_op_cond_inner_def split_def Let_def split: option.split)

lemma exec_req_length [simp]: "length (fst (snd (exec_req env c r d))) = length (req_buf r)"
  by (simp add: exec_req_def split_def Let_def)

lemma app_cmd_frame [simp]:
  "dev_st (snd (snd (sd_storage_execute_app_cmd env st msk c r d))) = dev_st d"
  "length (fst (snd (sd_storage_execute_app_cmd env st msk c (Some q) d))) = length (req_buf q)"
  by (simp_all add: sd_storage_execute_app_cmd_def split_def Let_def split: option.split)

lemma sd_command_frame [simp]:
  "dev_st (snd (sd_storage_execute_app_cmd_tran env c arg d)) = dev_st d" "dev_st (snd (snd (sd_storage_send_op_cond env rocr ocr v d))) = dev_st d"
  "dev_st (snd (snd (sd_storage_switch_get_all env buf d))) = dev_st d" "dev_st (snd (snd (sd_storage_switch env buf mode grp arg d))) = dev_st d"
  "dev_st (snd (sd_storage_set_power_limit env limit buf d)) = dev_st d" "dev_st (snd (snd (sd_storage_get_fmodes env buf d))) = dev_st d"
  by (simp_all add: sd_storage_execute_app_cmd_tran_def run_steps.simps sd_storage_send_op_cond_def sd_storage_switch_get_all_def sd_storage_switch_def
      sd_storage_set_power_limit_def sd_storage_get_fmodes_def split_def Let_def split: option.split)

lemma sd_command_length [simp]:
  "length (fst (snd (sd_storage_switch_get_all env buf d))) = length buf" "length (fst (snd (sd_storage_switch env buf mode grp arg d))) = length buf"
  "length (fst (sd_storage_set_power_limit env limit buf d)) = length buf" "length (fst (snd (sd_storage_get_fmodes env buf d))) = length buf"
  "length (fst (snd (sd_storage_set_card_bus_speed env hs buf d))) = length buf"
  by (simp_all add: sd_storage_switch_get_all_def sd_storage_switch_def sd_storage_set_power_limit_def sd_storage_get_fmodes_def
      sd_storage_set_card_bus_speed_def single_req_def split_def Let_def)

named_theorems kept_intros "operations that keep a property of the storage context"

context storage_inv
begin

lemma kept_commands [kept_intros]:
  "kept (drv_op f)" "kept (drv_do g)" "kept (effect (init_wait env n))" "kept (sdmmc_storage_go_idle_state env)"
  "kept (sdmmc_storage_execute_cmd_ex_state env c arg busy st)" "kept (sdmmc_storage_select_card env)" "kept (sdmmc_storage_set_blocklen env n')"
  "kept (sdmmc_storage_check_status env)" "kept (mmc_storage_switch env arg)" "kept (mmc_storage_set_relative_addr env)"
  "kept (sd_storage_execute_app_cmd_tran env c arg)"
  by (simp_all add: kept_def effect_def)

lemma kept_effect: "(\<And>s. Q s \<Longrightarrow> Q (g s)) \<Longrightarrow> kept (effect (set_st g))"
  by (simp add: kept_def effect_def set_st_def)

lemma Q_busspeed: "Q (dev_st d) \<Longrightarrow> Q (dev_st (set_busspeed v d))"
  by (simp add: set_busspeed_def set_st_def fields)

lemma Q_ext_csd: "Q (dev_st d) \<Longrightarrow> length b = length (raw_ext_csd (dev_st d)) \<Longrightarrow> Q (dev_st (set_ext_csd b d))"
  by (simp add: set_ext_csd_def set_st_def raw)

lemma kept_busspeed [kept_intros]: "kept (effect (set_busspeed v))"
  by (simp add: kept_def effect_def Q_busspeed)

lemma kept_get_cid [kept_intros]: "kept (sdmmc_storage_get_cid env)"
  by (intro keptI) (auto simp: sdmmc_storage_get_cid_def sdmmc_get_cached_rsp_def rsp_type_defs set_st_def split_def Let_def intro!: raw split: option.split)

lemma kept_get_csd [kept_intros]: "kept (sdmmc_storage_get_csd env)"
  by (intro keptI) (auto simp: sdmmc_storage_get_csd_def sdmmc_get_cached_rsp_def rsp_type_defs set_st_def split_def Let_def intro!: raw split: option.split)

lemma kept_timed_poll:
  assumes "\<And>r d. Q (dev_st d) \<Longrightarrow> Q (dev_st (snd (snd (step r d))))"
  shows "Q (dev_st d) \<Longrightarrow> Q (dev_st (snd (timed_poll n env step timeout us r d)))"
  by (induction n arbitrary: r d) (auto simp: split_def Let_def assms)

subsection \<open>The two initialisations\<close>

lemma kept_op_cond [kept_intros]: "kept (mmc_storage_get_op_cond env pwr)"
proof (intro keptI)
  fix d :: "'a dev" assume "Q (dev_st d)"
  moreover have "Q (dev_st (snd (snd (mmc_op_cond_step env pwr r d))))" if "Q (dev_st d)" for r and d :: "'a dev"
    using that by (auto simp: mmc_op_cond_step_def set_st_def split_def Let_def fields)
  ultimately show "Q (dev_st (snd (mmc_storage_get_op_cond env pwr d)))"
    unfolding mmc_storage_get_op_cond_def by (rule kept_timed_poll [rotated])
qed

lemma kept_buswidth [kept_intros]: "kept (mmc_storage_switch_buswidth env bw)"
  by (intro keptI) (auto simp: mmc_storage_switch_buswidth_def Let_def intro!: kept_steps kept_intros)

lemma kept_HS [kept_intros]: "kept (mmc_storage_enable_HS env b)"
  by (intro keptI) (auto simp: mmc_storage_enable_HS_def intro!: kept_steps kept_intros)

lemma kept_HS200 [kept_intros]: "kept (mmc_storage_enable_HS200 env)"
  by (intro keptI) (auto simp: mmc_storage_enable_HS200_def intro!: kept_steps kept_intros)

lemma kept_HS400 [kept_intros]: "kept (mmc_storage_enable_HS400 env)"
  unfolding mmc_storage_enable_HS400_def by (intro keptI kept_steps) (auto intro!: kept_intros)

lemma kept_highspeed: "Q (dev_st d) \<Longrightarrow> Q (dev_st (snd (mmc_storage_enable_highspeed env ct t d)))"
  by (auto simp: mmc_storage_enable_highspeed_def Let_def intro: keptD kept_intros)

lemma kept_get_ext_csd [kept_intros]: "kept (mmc_storage_get_ext_csd env)"
  by (intro keptI) (auto simp: mmc_storage_get_ext_csd_def single_req_def set_st_def split_def Let_def intro!: raw mmc_parse)

lemma kept_mmc_features [kept_intros]: "kept (mmc_features env bw t)"
  by (intro keptI) (auto simp: mmc_features_def kept_highspeed intro!: kept_steps kept_intros kept_effect mmc_parse keptI [of "\<lambda>d. mmc_storage_enable_highspeed env (f d) t d" for f])

text \<open>The context is cleared before the first step that may fail.\<close>

lemma init_mmc: "Q (dev_st (snd (sdmmc_storage_init_mmc env bw t d)))"
  unfolding sdmmc_storage_init_mmc_def run_steps.simps(2) [of "effect f" for f] effect_def [of "set_st (\<lambda>s. zero_storage\<lparr>rca := 2\<rparr>)"] prod.case Let_def if_False
  by (rule kept_steps) (auto simp: set_st_def zero intro!: kept_intros kept_effect mmc_parse fields)

lemma kept_send_if_cond: "Q (dev_st d) \<Longrightarrow> Q (dev_st (snd (snd (sd_storage_send_if_cond env v d))))"
  by (simp add: sd_storage_send_if_cond_def set_st_def split_def Let_def fields)

lemma kept_low_voltage: "Q (dev_st d) \<Longrightarrow> Q (dev_st (snd (sd_low_voltage env d)))"
  unfolding sd_low_voltage_def by (rule kept_steps) (auto intro!: kept_intros kept_effect fields)

lemma kept_voltage_and_ocr [kept_intros]: "kept (sd_voltage_and_ocr env lv)"
proof (intro keptI)
  fix d :: "'a dev" assume q: "Q (dev_st d)"
  have "Q (dev_st (snd (snd (sd_op_cond_step env ocr v1 lv r d))))" if "Q (dev_st d)" for r ocr v1 and d :: "'a dev"
    using that by (auto simp: sd_op_cond_step_def set_st_def split_def Let_def fields intro!: kept_low_voltage)
  then have "Q (dev_st (snd (sd_storage_get_op_cond env v1 lv d)))" if "Q (dev_st d)" for v1 and d :: "'a dev"
    using that unfolding sd_storage_get_op_cond_def Let_def by (intro kept_timed_poll)
  then show "Q (dev_st (snd (sd_voltage_and_ocr env lv d)))"
    using kept_send_if_cond [OF q, of env False] by (simp add: sd_voltage_and_ocr_def split_def Let_def)
qed

lemma kept_get_rca [kept_intros]: "kept (sd_storage_get_rca env)"
proof (intro keptI)
  fix d :: "'a dev" assume "Q (dev_st d)"
  moreover have "Q (dev_st (snd (snd (sd_rca_step env r d))))" if "Q (dev_st d)" for r and d :: "'a dev"
    using that by (auto simp: sd_rca_step_def set_st_def split_def Let_def fields split: option.split)
  ultimately show "Q (dev_st (snd (sd_storage_get_rca env d)))" unfolding sd_storage_get_rca_def by (rule kept_timed_poll [rotated])
qed

lemma kept_get_scr [kept_intros]: "kept (sd_storage_get_scr env)"
  by (intro keptI) (auto simp: sd_storage_get_scr_def single_req_def set_st_def split_def Let_def intro!: sd_parse)

lemma kept_get_ssr: "Q (dev_st d) \<Longrightarrow> Q (dev_st (snd (sd_storage_get_ssr env d)))"
  by (auto simp: sd_storage_get_ssr_def single_req_def set_st_def split_def Let_def intro!: sd_parse raw)

lemma kept_card_bus_speed: "Q (dev_st d) \<Longrightarrow> Q (dev_st (snd (snd (sd_storage_set_card_bus_speed env hs buf d))))"
  by (auto simp: sd_storage_set_card_bus_speed_def set_st_def split_def Let_def fields)

lemma bus_speed_ext_csd [simp]: "raw_ext_csd (dev_st (snd (snd (sd_storage_set_card_bus_speed env hs buf d)))) = raw_ext_csd (dev_st d)"
  by (simp add: sd_storage_set_card_bus_speed_def set_st_def split_def Let_def)

lemma set_dev_ext_csd [simp]: "raw_ext_csd (dev_st (set_ext_csd b d)) = b" "raw_ext_csd (dev_st (set_busspeed v d)) = raw_ext_csd (dev_st d)"
  by (simp_all add: set_ext_csd_def set_busspeed_def set_st_def)

lemma kept_hs25 [kept_intros]: "kept (sd_storage_set_hs25_bus_speed env)"
proof (intro keptI)
  fix d :: "'a dev" assume q: "Q (dev_st d)"
  obtain fm buf d1 where f: "sd_storage_get_fmodes env (raw_ext_csd (dev_st d)) d = (fm, buf, d1)" by (metis prod_cases3)
  have d1: "dev_st d1 = dev_st d" "length buf = length (raw_ext_csd (dev_st d))"
    using sd_command_frame(6) [of env "raw_ext_csd (dev_st d)" d] sd_command_length(4) [of env "raw_ext_csd (dev_st d)" d] f by simp_all
  then have "Q (dev_st (set_ext_csd buf d1))" using q by (simp add: Q_ext_csd)
  moreover then have "Q (dev_st (set_ext_csd (fst (snd (sd_storage_set_card_bus_speed env HIGH_SPEED_BUS_SPEED buf (set_ext_csd buf d1))))
      (snd (snd (sd_storage_set_card_bus_speed env HIGH_SPEED_BUS_SPEED buf (set_ext_csd buf d1))))))"
    by (intro Q_ext_csd [OF kept_card_bus_speed]) simp_all
  ultimately show "Q (dev_st (snd (sd_storage_set_hs25_bus_speed env d)))"
    by (auto simp: sd_storage_set_hs25_bus_speed_def f split_def Let_def intro!: kept_steps kept_intros split: option.split)
qed

lemma kept_uhs [kept_intros]: "kept (sd_storage_set_uhs_bus_speed env t)"
proof (intro keptI)
  fix d :: "'a dev" assume q: "Q (dev_st d)"
  obtain fm buf d1 where f: "sd_storage_get_fmodes env (raw_ext_csd (dev_st d)) d = (fm, buf, d1)" by (metis prod_cases3)
  have d1: "dev_st d1 = dev_st d" "length buf = length (raw_ext_csd (dev_st d))"
    using sd_command_frame(6) [of env "raw_ext_csd (dev_st d)" d] sd_command_length(4) [of env "raw_ext_csd (dev_st d)" d] f by simp_all
  then have b: "Q (dev_st (set_busspeed v (set_ext_csd buf d1)))" for v using q by (simp add: Q_ext_csd Q_busspeed)
  have "Q (dev_st (set_ext_csd (fst (snd (sd_storage_set_card_bus_speed env hs b3 d3))) (snd (snd (sd_storage_set_card_bus_speed env hs b3 d3)))))"
    if "length b3 = length buf" "dev_st d3 = dev_st (set_busspeed v (set_ext_csd buf d1))" for hs b3 v and d3 :: "'a dev"
    using that b [of v] by (intro Q_ext_csd [OF kept_card_bus_speed]) simp_all
  then show "Q (dev_st (snd (sd_storage_set_uhs_bus_speed env t d)))"
    using b q d1 by (auto simp: sd_storage_set_uhs_bus_speed_def f split_def Let_def Q_ext_csd intro!: kept_steps kept_intros split: option.split)
qed

lemma kept_bus_setup [kept_intros]: "kept (sd_bus_setup env bw t)"
  by (intro keptI) (auto simp: sd_bus_setup_def Let_def intro!: kept_steps kept_intros)

lemma init_sd: "Q (dev_st (snd (sdmmc_storage_init_sd env bw t d)))"
proof -
  have "kept (\<lambda>d. if is_low_voltage (dev_st d) then (False, d) else drv_op (sdmmc_setup_clock env SDHCI_TIMING_SD_DS12) d)"
    "kept (\<lambda>d. (False, snd (sd_storage_get_ssr env d)))" by (auto simp: kept_def kept_get_ssr)
  then show ?thesis
    unfolding sdmmc_storage_init_sd_def run_steps.simps(2) [of "effect f" for f] effect_def [of "set_st (\<lambda>s. zero_storage)"]
      effect_def [of "sdmmc_storage_init_wait_sd env"] prod.case Let_def if_False
    by (intro kept_steps) (auto simp: set_st_def zero intro!: kept_intros kept_effect sd_parse fields)
qed

end

subsection \<open>Registers of their length\<close>



lemmas parse_defs = mmc_storage_parse_cid_def mmc_storage_parse_csd_def mmc_storage_parse_ext_csd_def mmc_parse_cid_version_def
  sd_storage_parse_cid_def sd_storage_parse_csd_def sd_storage_parse_scr_def sd_storage_parse_ssr_def


interpretation main_area: storage_inv "\<lambda>s. partition_no s = 0"
  by unfold_locales (auto simp: zero_storage_def parse_defs Let_def)

subsection \<open>The partition of an eMMC\<close>

lemma emmc_retry_area:
  assumes "emmc_init_retry (emmc_env_of E) pc s = (False, s')"
  shows "partition_no (dev_st (emmc_dev s')) = 0"
proof -
  have "partition_no (dev_st (emmc_dev s2)) = 0" if "emmc_try (emmc_env_of E) b t s1 = (False, s2)" for b t s1 s2
    using that main_area.init_mmc [of "rw_host E" b t "emmc_dev s1"] by (auto simp: emmc_try_def emmc_env_of_def split: prod.splits)
  then show ?thesis using assms unfolding emmc_init_retry_def Let_def by (auto split: if_splits)
qed

lemma emmc_loop_area:
  assumes "emmc_init_loop (emmc_env_of E) res s = (False, s')" "\<not> res \<longrightarrow> partition_no (dev_st (emmc_dev s)) = 0"
  shows "partition_no (dev_st (emmc_dev s')) = 0"
  using assms
proof (induction "emmc_env_of E" res s rule: emmc_init_loop.induct)
  case (1 res s)
  define s1 where "s1 = s\<lparr>emmc_errors := (emmc_errors s)[0 := emmc_errors s ! 0 + 1]\<rparr>"
  show ?case
  proof (cases res)
    case True
    then have m: "emmc_mode s1 \<noteq> EMMC_INIT_FAIL" and l: "emmc_init_loop (emmc_env_of E) (fst (emmc_init_retry (emmc_env_of E) True s1))
        (snd (emmc_init_retry (emmc_env_of E) True s1)) = (False, s')"
      using "1.prems"(1) by (auto simp: emmc_init_loop.simps [of _ True s] s1_def [symmetric] Let_def split: if_splits)
    show ?thesis using "1.hyps" [OF _ s1_def m l] True emmc_retry_area [of E True s1] by (metis prod.collapse)
  next
    case False
    then show ?thesis using "1.prems" by (simp add: emmc_init_loop.simps)
  qed
qed

text \<open>
  The recovery from a failed transfer of an eMMC initialises the chip anew and so leaves its user area
  selected, whatever partition the failing request was for: nothing selects the partition again before the
  request is repeated.
\<close>

theorem io_error_selects_user_area:
  assumes "mc_id (dev_mc (storage_dev Emmc_storage w)) = SDMMC_4" "sdmmc_storage_handle_io_error E Emmc_storage first_reinit w = (False, w')"
  shows "partition_no (dev_st (storage_dev Emmc_storage w')) = 0"
proof -
  define s where "s = emmc_error_count_increment EMMC_ERROR_RW_FAIL (w_emmc w)"
  obtain r1 s1 where r: "(if first_reinit then emmc_initialize (emmc_env_of E) True s else emmc_init_retry (emmc_env_of E) True s) = (r1, s1)" by force
  have e: "\<not> r1" "w' = w\<lparr>w_emmc := s1\<rparr>"
    using assms r by (auto simp: sdmmc_storage_handle_io_error_def s_def [symmetric] Let_def split_def SDMMC_1_def SDMMC_4_def split: if_splits)
  have "partition_no (dev_st (emmc_dev s1)) = 0"
  proof (cases first_reinit)
    case True
    define s0 where "s0 = (if emmc_mode s = EMMC_INIT_FAIL then s\<lparr>emmc_mode := EMMC_MMC_HS400\<rparr> else s)"
    obtain r2 s2 where i: "emmc_init_retry (emmc_env_of E) False (emmc_end (emmc_env_of E) s0) = (r2, s2)" by force
    have "emmc_init_loop (emmc_env_of E) r2 s2 = (False, s1)" using r e True i by (simp add: emmc_initialize_def s0_def Let_def)
    moreover have "\<not> r2 \<longrightarrow> partition_no (dev_st (emmc_dev s2)) = 0" using i emmc_retry_area [of E False "emmc_end (emmc_env_of E) s0" s2] by auto
    ultimately show ?thesis by (rule emmc_loop_area)
  next
    case False
    then show ?thesis using r e emmc_retry_area [of E True s s1] by simp
  qed
  then show ?thesis using e(2) by (simp add: storage_dev_def)
qed


end
