(* ===== verification/Sdmmc_Regs.thy ===== *)
theory Sdmmc_Regs
  imports Sdmmc_Rw
begin

text \<open>
  Card registers and polling of \<open>bdk/storage/sdmmc.c\<close>: the field a call of \<open>unstuff_bits\<close> reads, the
  capacities computed from the registers, and that polling ends by its time limit.
\<close>

subsection \<open>Register fields\<close>

text \<open>Bit \<open>k\<close> of a register of four words, the first word the highest.\<close>

definition reg_bit :: "u32 list \<Rightarrow> nat \<Rightarrow> bool" where
  "reg_bit resp k \<longleftrightarrow> bit (resp ! (3 - k div 32)) (k mod 32)"

lemma bit_low_ones: "bit (2 ^ n - 1 :: u32) i \<longleftrightarrow> i < n \<and> i < 32"
  by (auto simp: bit_mask_iff simp flip: mask_eq_exp_minus_1)

text \<open>
  A field of a register: bit \<open>i\<close> of the result is bit \<open>start + i\<close> of the 128 bit register for every bit
  of the field, and the others are zero, also where the field spans two words.
\<close>

theorem unstuff_bits_field:
  assumes "start mod 128 + width \<le> 128" "0 < width" "width \<le> 32"
  shows "bit (unstuff_bits resp start width) i \<longleftrightarrow> i < width \<and> reg_bit resp (start mod 128 + i)"
proof -
  define s q sh where "s = start mod 128" and "q = s div 32" and "sh = s mod 32"
  have s: "s = 32 * q + sh" "sh < 32" by (simp_all add: q_def sh_def)
  define w where "w = resp ! (3 - q)"
  define w' where "w' = resp ! (3 - q - 1)"
  have m: "bit ((if width < 32 then push_bit width 1 else 0) - 1 :: u32) i \<longleftrightarrow> i < width"
    using assms(3) by (auto simp: bit_low_ones bit_minus_1_iff)
  have u: "unstuff_bits resp start width = (if width + sh > 32 then drop_bit sh w OR push_bit ((32 - sh) mod 32) w' else drop_bit sh w)
      AND ((if width < 32 then push_bit width 1 else 0) - 1)"
    by (simp add: unstuff_bits_def Let_def s_def q_def sh_def w_def w'_def)
  show ?thesis
  proof (cases "i < width")
    case True
    show ?thesis
    proof (cases "sh + i < 32")
      case lo: True
      then have "(s + i) div 32 = q" "(s + i) mod 32 = sh + i" using s(1) by (simp_all add: add.assoc)
      then have "reg_bit resp (s + i) \<longleftrightarrow> bit w (sh + i)" by (simp add: reg_bit_def w_def)
      moreover have "i < (32 - sh) mod 32" if "width + sh > 32" using that lo s(2) assms(3) by (cases "sh = 0") auto
      ultimately show ?thesis using True m unfolding u s_def [symmetric] by (auto simp: bit_simps)
    next
      case hi: False
      have e: "s + i = 32 * (q + 1) + (sh + i - 32)" using s(1) hi by simp
      have lt: "sh + i - 32 < 32" using s(2) True assms(3) by simp
      have "(s + i) div 32 = q + 1" "(s + i) mod 32 = sh + i - 32" unfolding e using lt by (simp_all add: add.assoc)
      then have "reg_bit resp (s + i) \<longleftrightarrow> bit w' (sh + i - 32)" by (simp add: reg_bit_def w'_def)
      moreover have "\<not> bit w (sh + i)" using hi bit_imp_le_length [of w "sh + i"] by auto
      moreover have "width + sh > 32" "(32 - sh) mod 32 = 32 - sh" "i - (32 - sh) = sh + i - 32" "32 - sh \<le> i" "i < 32"
        using hi True s(2) assms(3) by (auto simp: mod_if)
      ultimately show ?thesis using True m unfolding u s_def [symmetric] by (simp add: bit_simps add.commute)
    qed
  next
    case False
    then show ?thesis using m unfolding u by (auto simp: bit_simps)
  qed
qed

subsection \<open>Capacities\<close>

lemma unat_unstuff_less: "width < 32 \<Longrightarrow> unat (unstuff_bits resp start width) < 2 ^ width"
proof -
  assume w: "width < 32"
  have "unstuff_bits resp start width = take_bit width (unstuff_bits resp start width)"
    using w by (auto simp: unstuff_bits_def Let_def bit_eq_iff bit_simps bit_low_ones)
  then have "unat (unstuff_bits resp start width) = take_bit width (unat (unstuff_bits resp start width))" by (metis unsigned_take_bit_eq)
  then show ?thesis by (metis take_bit_nat_less_exp)
qed

lemma unat_push_bit_small:
  assumes "unat x * 2 ^ n < 2 ^ 32"
  shows "unat (push_bit n x :: u32) = unat x * 2 ^ n"
proof -
  have "unat (push_bit n x :: u32) = take_bit 32 (push_bit n (unat x))" by (simp add: unsigned_push_bit_eq)
  then show ?thesis using assms by (simp add: push_bit_eq_mult take_bit_nat_eq_self)
qed

lemma sd_parse_csd_simps:
  "csd_structure (csd (sd_storage_parse_csd s)) = ucast (unstuff_bits (raw_csd s) 126 2)"
  "csd_structure (csd (sd_storage_parse_csd s)) = 0 \<Longrightarrow> read_blkbits (csd (sd_storage_parse_csd s)) = unstuff_bits (raw_csd s) 80 4"
  "csd_structure (csd (sd_storage_parse_csd s)) = 0 \<Longrightarrow> sec_cnt (sd_storage_parse_csd s) =
     push_bit (unat (unstuff_bits (raw_csd s) 80 4 - 9)) (push_bit (unat (unstuff_bits (raw_csd s) 47 3 + 2)) (1 + unstuff_bits (raw_csd s) 62 12))"
  "csd_structure (csd (sd_storage_parse_csd s)) = 1 \<Longrightarrow> sec_cnt (sd_storage_parse_csd s) = push_bit 10 (1 + unstuff_bits (raw_csd s) 48 22)"
  by (auto simp add: sd_storage_parse_csd_def Let_def split: if_splits)

text \<open>
  The size of an SD card, from its CSD register. Of the first structure it is \<open>C_SIZE + 1\<close> units of
  \<open>2 ^ (C_SIZE_MULT + 2)\<close> blocks of \<open>2 ^ READ_BL_LEN\<close> bytes, in sectors of 512, and no more than byte addresses reach. Of the second it is
  \<open>C_SIZE + 1\<close> times 512 kilobytes, except that a register of all ones gives none.
\<close>

theorem sd_csd_capacity:
  fixes s :: sdmmc_storage_t
  defines "t \<equiv> sd_storage_parse_csd s"
  shows "(csd_structure (csd t) = 0 \<and> unat (read_blkbits (csd t)) \<in> {9..11} \<longrightarrow>
      unat (sec_cnt t) * 512 = (unat (unstuff_bits (raw_csd s) 62 12) + 1) * 2 ^ (unat (unstuff_bits (raw_csd s) 47 3) + 2) * 2 ^ unat (read_blkbits (csd t)) \<and>
      unat (sec_cnt t) \<le> 2 ^ 23) \<and>
    (csd_structure (csd t) = 1 \<longrightarrow>
      unat (sec_cnt t) = (if unstuff_bits (raw_csd s) 48 22 = 0x3FFFFF then 0 else (unat (unstuff_bits (raw_csd s) 48 22) + 1) * 1024))"
proof (intro conjI impI; (elim conjE)?)
  define c m bl where "c = unstuff_bits (raw_csd s) 62 12" and "m = unstuff_bits (raw_csd s) 47 3" and "bl = unstuff_bits (raw_csd s) 80 4"
  assume st: "csd_structure (csd t) = 0" and r: "unat (read_blkbits (csd t)) \<in> {9..11}"
  have bl: "read_blkbits (csd t) = bl" "unat bl \<in> {9..11}" using st r sd_parse_csd_simps(2) by (simp_all add: t_def bl_def)
  have l: "unat c < 4096" "unat m < 8" using unat_unstuff_less [of 12 "raw_csd s" 62] unat_unstuff_less [of 3 "raw_csd s" 47] by (simp_all add: c_def m_def)
  have "9 \<le> bl" using bl(2) by (simp add: word_le_nat_alt)
  then have u3: "unat (bl - 9) = unat bl - 9" by (simp add: unat_minus_no_wrap)
  have u1: "unat (1 + c) = unat c + 1" using l(1) unat_plus_no_wrap [of 1 c] by simp
  have u2: "unat (m + 2) = unat m + 2" using l(2) unat_plus_no_wrap [of m 2] by simp
  note u = u1 u2 u3
  have pm: "2 ^ (unat m + 2) \<le> (512 :: nat)" using l(2) power_increasing [of "unat m + 2" 9 "2 :: nat"] by simp
  have x: "(unat c + 1) * 2 ^ (unat m + 2) \<le> 4096 * 512" using mult_le_mono [OF _ pm, of "unat c + 1" 4096] l(1) by simp
  have pb: "2 ^ (unat bl - 9) \<le> (4 :: nat)" using bl(2) power_increasing [of "unat bl - 9" 2 "2 :: nat"] by auto
  have y: "(unat c + 1) * 2 ^ (unat m + 2) * 2 ^ (unat bl - 9) \<le> 2 ^ 23" using mult_le_mono [OF x pb] by simp
  have i: "unat (push_bit (unat m + 2) (1 + c)) = (unat c + 1) * 2 ^ (unat m + 2)" using x by (subst unat_push_bit_small) (simp_all only: u, simp)
  have n: "sec_cnt t = push_bit (unat bl - 9) (push_bit (unat m + 2) (1 + c))"
    using sd_parse_csd_simps(3) [of s] st by (simp only: t_def c_def [symmetric] m_def [symmetric] bl_def [symmetric] u simp_thms)
  have e: "unat (sec_cnt t) = (unat c + 1) * 2 ^ (unat m + 2) * 2 ^ (unat bl - 9)"
    unfolding n by (subst unat_push_bit_small) (use y in \<open>simp_all only: i, simp\<close>)
  have "2 ^ (unat bl - 9) * 512 = (2 ^ unat bl :: nat)" using bl(2) power_add [of "2 :: nat" "unat bl - 9" 9] by simp
  then show "unat (sec_cnt t) * 512 = (unat c + 1) * 2 ^ (unat m + 2) * 2 ^ unat (read_blkbits (csd t))" unfolding e bl(1) by (simp only: mult.assoc)
  show "unat (sec_cnt t) \<le> 2 ^ 23" unfolding e by (rule y)
next
  define c where "c = unstuff_bits (raw_csd s) 48 22"
  assume "csd_structure (csd t) = 1"
  then have n: "sec_cnt t = push_bit 10 (1 + c)" by (simp add: t_def sd_parse_csd_simps(4) c_def)
  have l: "unat c < 2 ^ 22" using unat_unstuff_less [of 22 "raw_csd s" 48] by (simp add: c_def)
  have u: "unat (1 + c) = unat c + 1" using l unat_plus_no_wrap [of 1 c] by simp
  show "unat (sec_cnt t) = (if c = 0x3FFFFF then 0 else (unat c + 1) * 1024)"
  proof (cases "c = 0x3FFFFF")
    case True
    then show ?thesis by (simp add: n push_bit_eq_mult)
  next
    case False
    then have "unat c \<noteq> 0x3FFFFF" by (simp add: word_unat_eq_iff)
    then show ?thesis using l False unat_push_bit_small [of "1 + c" 10] by (simp add: n u)
  qed
qed

subsection \<open>Polling\<close>

text \<open>
  The clock: \<open>T\<close> is the time in milliseconds, which the timer shows modulo \<open>2 ^ 32\<close>. It does not go back, a
  delay takes at least one millisecond, and a try or a delay takes less than twelve days.
\<close>

definition clock_runs :: "'h host_env \<Rightarrow> ('h dev \<Rightarrow> nat) \<Rightarrow> ('r \<Rightarrow> 'h dev \<Rightarrow> bool \<times> 'r \<times> 'h dev) \<Rightarrow> u32 \<Rightarrow> bool" where
  "clock_runs env T step us \<longleftrightarrow> (\<forall>d. tmr_ms env d = word_of_nat (T d)) \<and>
     (\<forall>r d. T d \<le> T (snd (snd (step r d))) \<and> T (snd (snd (step r d))) < T d + 2 ^ 30) \<and>
     (\<forall>d. T d < T (delay env us d) \<and> T (delay env us d) < T d + 2 ^ 30)"

lemma timer_past:
  assumes "\<forall>d. tmr_ms env d = word_of_nat (T d)" "T0 < 2 ^ 30" "T d < T0 + 1501 + 2 ^ 31"
  shows "tmr_ms env d > word_of_nat T0 + 1500 \<longleftrightarrow> T d > T0 + 1500"
proof -
  have "word_of_nat T0 + 1500 = (word_of_nat (T0 + 1500) :: u32)" by simp
  moreover have "unat (word_of_nat (T0 + 1500) :: u32) = T0 + 1500" "unat (word_of_nat (T d) :: u32) = T d"
    using assms(2,3) by (intro unat_of_nat_u32; simp)+
  ultimately show ?thesis using assms(1) by (simp only: word_less_nat_alt)
qed

lemma poll_enough:
  assumes c: "clock_runs env T step us" and T0: "T0 < 2 ^ 30"
  shows "T0 \<le> T d \<Longrightarrow> T d < T0 + 1501 + 2 ^ 30 \<Longrightarrow> T0 + 1502 - T d \<le> n \<Longrightarrow> T0 + 1502 - T d \<le> m \<Longrightarrow> 0 < n \<Longrightarrow> 0 < m \<Longrightarrow>
    timed_poll n env step (word_of_nat T0 + 1500) us r d = timed_poll m env step (word_of_nat T0 + 1500) us r d"
proof (induction n arbitrary: m r d)
  case (Suc n)
  obtain k where m: "m = Suc k" using Suc.prems by (cases m) auto
  obtain f r1 d1 where x: "step r d = (f, r1, d1)" by (metis prod_cases3)
  have t1: "T d \<le> T d1" "T d1 < T d + 2 ^ 30" using c x unfolding clock_runs_def by (metis snd_conv)+
  define d2 where "d2 = delay env us d1"
  have t2: "T d1 < T d2" "T d2 < T d1 + 2 ^ 30" using c unfolding clock_runs_def d2_def by blast+
  have past: "tmr_ms env d1 > word_of_nat T0 + 1500 \<longleftrightarrow> T d1 > T0 + 1500"
    by (rule timer_past) (use c T0 t1 Suc.prems in \<open>auto simp: clock_runs_def\<close>)
  have "timed_poll n env step (word_of_nat T0 + 1500) us r1 d2 = timed_poll k env step (word_of_nat T0 + 1500) us r1 d2" if "T d1 \<le> T0 + 1500"
    by (rule Suc.IH) (use that t1 t2 Suc.prems m in auto)
  then show ?case using past by (auto simp: m x Let_def d2_def)
qed simp

text \<open>
  The loops that wait for a card end within their limit of 1500 milliseconds: more tries than the bound
  of the model make no difference to the result, for a clock that runs.
\<close>

theorem timed_poll_limit:
  assumes "clock_runs env T step us" "T d < 2 ^ 30" "n \<ge> POLL_LIMIT"
  shows "timed_poll n env step (tmr_ms env d + 1500) us r d = timed_poll POLL_LIMIT env step (tmr_ms env d + 1500) us r d"
proof -
  have "tmr_ms env d = word_of_nat (T d)" using assms(1) by (simp add: clock_runs_def)
  then show ?thesis using poll_enough [OF assms(1,2), of d n POLL_LIMIT r] assms(3) by (simp add: POLL_LIMIT_def)
qed

end
