(* ===== verification/Sdmmc_Demo.thy ===== *)
theory Sdmmc_Demo
  imports Sdmmc_State Sdmmc_Regs
begin

text \<open>
  What requests to \<open>bdk/storage/sdmmc.c\<close> do, over the contract of the disk, and a card and controller
  that show the conditions of the theorems can hold.
\<close>

subsection \<open>A controller with a card\<close>

text \<open>The card answers every command; its registers are those of a card of 32 gigabytes.\<close>

record demo_hw =
  dh_sec :: "nat \<Rightarrow> u8 list"
  dh_ms :: nat

definition demo_csd :: "u32 list" where "demo_csd = [0x400E0032, 0x5B590000, 0xEDC87F80, 0x0A404000]"

definition demo_rsp :: "sdmmc_cmd_t \<Rightarrow> u32 list" where
  "demo_rsp c =
     (if rsp_type c = 3 then [0xC0FF8000, 0, 0, 0]
      else if rsp_type c = 2 then (if cmd_no c = 9 then demo_csd else [0x03534453, 0x4C333247, 0x80000000, 0])
      else if rsp_type c = 4 then [0x12340000, 0, 0, 0]
      else if rsp_type c = 5 then [0x1AA, 0, 0, 0]
      else [0x900, 0, 0, 0])"

definition demo_card_sec :: "demo_hw \<Rightarrow> nat \<Rightarrow> u8 list" where
  "demo_card_sec h i = take 512 (dh_sec h i @ replicate 512 0)"

definition demo_exec :: "sdmmc_cmd_t \<Rightarrow> sdmmc_req_t option \<Rightarrow> demo_hw sdmmc_t \<Rightarrow> bool \<times> u8 list \<times> u32 \<times> demo_hw sdmmc_t" where
  "demo_exec c req m =
     (let m1 = m\<lparr>expected_rsp_type := rsp_type c, mc_rsp := demo_rsp c, error_sts := 0\<rparr>; a = unat (cmd_arg c)
      in case req of
           None \<Rightarrow> (False, [], 0, m1)
         | Some r \<Rightarrow>
             if cmd_no c = 18 then (False, concat (map (demo_card_sec (mc_hw m)) [a..<a + unat (num_sectors r)]), num_sectors r, m1)
             else if cmd_no c = 25
             then (False, [], num_sectors r, m1\<lparr>mc_hw := (mc_hw m)\<lparr>dh_sec := put_blocks a (req_buf r) (unat (num_sectors r)) (dh_sec (mc_hw m))\<rparr>\<rparr>)
             else (False, [], 1, m1))"

definition demo_host :: "demo_hw host_env" where
  "demo_host =
     \<lparr>sdmmc_execute_cmd = demo_exec, sdmmc_stop_transmission = (\<lambda>m. m), sdmmc_init = (\<lambda>i p b t m. (False, m\<lparr>mc_id := i, card_clock := 400\<rparr>)),
      sdmmc_end = (\<lambda>m. m), sdmmc_setup_clock = (\<lambda>t m. (False, m)), sdmmc_tuning_execute = (\<lambda>t c m. (False, m)),
      sdmmc_enable_low_voltage = (\<lambda>m. (False, m)), sdmmc_set_bus_width = (\<lambda>b m. m), sdmmc_get_bus_width = (\<lambda>m. SDMMC_BUS_WIDTH_4),
      sdmmc_get_io_power = (\<lambda>m. SDMMC_POWER_3_3), sdmmc_save_tap_value = (\<lambda>m. m), sdmmc_setup_drv_type = (\<lambda>t m. m),
      sdmmc_card_clock_powersave = (\<lambda>e m. m), get_tmr_ms = (\<lambda>h. word_of_nat (dh_ms h)),
      usleep = (\<lambda>us h. h\<lparr>dh_ms := dh_ms h + unat us div 1000\<rparr>), sd_power_cycle_time_start = (\<lambda>h. 0)\<rparr>"

definition demo_card :: "demo_hw card" where
  "demo_card = \<lparr>card_sec = demo_card_sec, card_ccs = True, card_main = (\<lambda>h. True)\<rparr>"

lemma demo_exec_main: "demo_card_sec (mc_hw (snd (snd (snd (demo_exec c r m))))) = demo_card_sec (mc_hw m)" "mc_id (snd (snd (snd (demo_exec c r m)))) = mc_id m"
  if "cmd_no c \<noteq> 25"
  using that by (auto simp: demo_exec_def Let_def split: option.split)

lemma demo_card_sec_time [simp]: "demo_card_sec (h\<lparr>dh_ms := t\<rparr>) = demo_card_sec h"
  by (simp add: demo_card_sec_def fun_eq_iff)

lemma demo_driver: "driver_ok demo_host demo_card"
proof -
  have "cmd_no c \<noteq> 25" if "plain_cmd c" for c using that by (auto simp: plain_cmd_def)
  then show ?thesis by (simp add: driver_ok_def demo_host_def demo_card_def mc_keeps_def demo_exec_main)
qed

lemma demo_card_host: "card_host demo_host demo_card"
proof -
  have put: "demo_card_sec (h\<lparr>dh_sec := put_blocks a b k (dh_sec h)\<rparr>) = put_blocks a b k (demo_card_sec h)" if "512 * k \<le> length b" for h a b k
  proof (rule ext)
    fix i
    have "512 \<le> length (drop (512 * (i - a)) b)" if "a \<le> i" "i < a + k" using that \<open>512 * k \<le> length b\<close> by simp
    then show "demo_card_sec (h\<lparr>dh_sec := put_blocks a b k (dh_sec h)\<rparr>) i = put_blocks a b k (demo_card_sec h) i"
      by (auto simp: demo_card_sec_def put_blocks_def)
  qed
  have "reads_ok demo_host demo_card" by (auto simp: reads_ok_def demo_host_def demo_card_def demo_exec_def Let_def card_addr_def)
  moreover have "writes_ok demo_host demo_card"
    by (auto simp: writes_ok_def demo_host_def demo_card_def demo_exec_def Let_def card_addr_def transfer_req_def put put_blocks_def split: option.splits)
  moreover have "ocr_ok demo_host demo_card" by (auto simp: ocr_ok_def demo_host_def demo_card_def demo_exec_def demo_rsp_def Let_def)
  moreover have "length (demo_card_sec h i) = 512" for h i by (simp add: demo_card_sec_def)
  ultimately show ?thesis using demo_driver by (simp add: card_host_def demo_card_def)
qed

text \<open>An initialised storage with this card behind each of the front ends, and a clock that is not at zero.\<close>

definition demo_dev :: "u32 \<Rightarrow> u32 \<Rightarrow> demo_hw dev" where
  "demo_dev i part =
     \<lparr>dev_st = zero_storage\<lparr>initialized := True, has_sector_access := True, sec_cnt := 62333952, partition_no := part\<rparr>,
      dev_mc = \<lparr>mc_id = i, card_clock = 400, expected_rsp_type = 0, mc_rsp = [0, 0, 0, 0], error_sts = 0,
                mc_hw = \<lparr>dh_sec = (\<lambda>i. replicate 512 (word_of_nat i)), dh_ms = 1000\<rparr>\<rparr>\<rparr>"

definition demo_world :: "demo_hw sdworld" where
  "demo_world =
     \<lparr>w_sd = \<lparr>sd_mounted = False, sd_init_done = True, insertion_event = False, sd_errors = [0, 0, 0], sd_mode = 4, sd_messages = [], sd_dev = demo_dev SDMMC_1 0\<rparr>,
      w_emmc = \<lparr>emmc_mode = 4, emmc_errors = [0, 0, 0], emmc_dev = demo_dev SDMMC_4 1\<rparr>, w_gc = demo_dev SDMMC_2 0, w_alt = replicate 0x8000000 0\<rparr>"

definition demo_rw :: "(demo_hw, nat) rw_env" where
  "demo_rw =
     \<lparr>rw_host = demo_host,
      rw_sd = \<lparr>uhs_ddr200 = False, sd_storage_init = (\<lambda>b t d. (False, d)), sd_storage_end = id, sdmmc_get_sd_inserted = (\<lambda>_. True), f_mount = (\<lambda>d. (0, d)),
        f_unmount = id, fs_part_type = (\<lambda>_. False), f_open_read = (\<lambda>_ d. (1, 0, d)), f_open_create = (\<lambda>_ d. (1, 0, d)), f_size = (\<lambda>_. 0),
        f_read = (\<lambda>_ _ d. (1, [], d)), f_write = (\<lambda>_ _ d. (1, d)), f_close = (\<lambda>_. id)\<rparr>\<rparr>"

lemma demo_disk_ok: "disk_ok demo_rw demo_card Sd_storage (\<lambda>i. replicate 512 (word_of_nat i)) demo_world" "card_reach demo_card a n"
  using demo_card_host by (simp_all add: disk_ok_def card_reach_def demo_rw_def demo_world_def card_kept_def storage_dev_def ptr_id_def demo_dev_def demo_card_def
      demo_card_sec_def fun_eq_iff)

subsection \<open>Witnesses\<close>

theorem sdmmc_read_delivers_witness:
  "\<exists>err buf w. sdmmc_storage_read demo_rw Sd_storage 5 3 False (replicate 1536 0xFF) demo_world = Some (err, buf, w) \<and>
    (\<not> err \<longrightarrow> buf = replicate 512 5 @ replicate 512 6 @ replicate 512 7)"
proof -
  have "[5..<8] = [5, 6, 7 :: nat]" by (simp add: upt_rec)
  then show ?thesis using sdmmc_read_delivers [where sector = 5 and num = 3 and buf = "replicate 1536 0xFF" and dma_ok = False, OF demo_disk_ok] by auto
qed

theorem sdmmc_write_exact_witness:
  "\<exists>err w G. sdmmc_storage_write demo_rw Sd_storage 5 1 True (replicate 512 0xFF) demo_world = Some (err, w) \<and>
    disk_ok demo_rw demo_card Sd_storage G w \<and> G 4 = replicate 512 4 \<and> G 6 = replicate 512 6"
proof -
  obtain err w G where "sdmmc_storage_write demo_rw Sd_storage 5 1 True (replicate 512 0xFF) demo_world = Some (err, w)" "disk_ok demo_rw demo_card Sd_storage G w"
    "\<forall>j. j < unat (5 :: u32) \<or> unat (5 :: u32) + unat (1 :: u32) \<le> j \<longrightarrow> G j = replicate 512 (word_of_nat j)"
    using sdmmc_write_exact [where sector = 5 and num = 1 and buf = "replicate 512 0xFF" and dma_ok = True, OF demo_disk_ok] by auto
  moreover from this(3) have "G 4 = replicate 512 4" "G 6 = replicate 512 6" by simp_all
  ultimately show ?thesis by blast
qed

theorem sdmmc_request_refused_witness:
  "sdmmc_storage_read demo_rw Sd_storage 62333950 3 False (replicate 1536 0xFF) demo_world = Some (True, replicate 1536 0xFF, demo_world)"
  using sdmmc_request_refused [of Sd_storage demo_world 62333950 3 demo_rw False "replicate 1536 0xFF"]
  by (simp add: demo_world_def storage_dev_def demo_dev_def)

theorem init_keeps_card_witness:
  "init_result demo_card (\<lambda>i. replicate 512 (word_of_nat i)) SDMMC_1 (sdmmc_storage_init_sd demo_host SDMMC_BUS_WIDTH_4 SDHCI_TIMING_UHS_SDR104 (demo_dev SDMMC_1 0))"
proof -
  have "card_sec demo_card (mc_hw (dev_mc (demo_dev SDMMC_1 0))) = (\<lambda>i. replicate 512 (word_of_nat i))"
    by (simp add: demo_card_def demo_dev_def demo_card_sec_def fun_eq_iff)
  then show ?thesis using init_keeps_card [OF demo_card_host, of "demo_dev SDMMC_1 0"] by (simp add: demo_card_def)
qed

theorem unstuff_bits_field_witness: "bit (unstuff_bits demo_csd 48 22) 15 \<and> \<not> bit (unstuff_bits demo_csd 48 22) 21"
  using unstuff_bits_field [of 48 22 demo_csd 15] unstuff_bits_field [of 48 22 demo_csd 21]
  by (simp add: reg_bit_def demo_csd_def bit_numeral_rec)

theorem sd_csd_capacity_witness: "unat (sec_cnt (sd_storage_parse_csd (zero_storage\<lparr>raw_csd := demo_csd\<rparr>))) = 62333952"
proof -
  have u: "unstuff_bits demo_csd 126 2 = 1" "unstuff_bits demo_csd 48 22 = 60872" by (simp_all add: unstuff_bits_def demo_csd_def)
  then show ?thesis using sd_csd_capacity [of "zero_storage\<lparr>raw_csd := demo_csd\<rparr>"] by (simp add: sd_parse_csd_simps(1))
qed

theorem timed_poll_limit_witness:
  "timed_poll 2000 demo_host (\<lambda>(n :: nat) d. (n = 7, Suc n, d)) (tmr_ms demo_host (demo_dev SDMMC_1 0) + 1500) 1000 0 (demo_dev SDMMC_1 0) =
   timed_poll POLL_LIMIT demo_host (\<lambda>n d. (n = 7, Suc n, d)) (tmr_ms demo_host (demo_dev SDMMC_1 0) + 1500) 1000 0 (demo_dev SDMMC_1 0)"
  by (rule timed_poll_limit [where T = "\<lambda>d. dh_ms (mc_hw (dev_mc d))"])
    (simp_all add: clock_runs_def demo_host_def tmr_ms_def delay_def demo_dev_def POLL_LIMIT_def)

text \<open>The card of the example answers every step of an initialisation.\<close>

definition never_fails :: "'h dev_op \<Rightarrow> bool" where
  "never_fails f \<longleftrightarrow> (\<forall>d. \<not> fst (f d))"

lemma never_fails_steps: "\<forall>f \<in> set fs. never_fails f \<Longrightarrow> \<not> fst (run_steps fs d)"
  by (induction fs arbitrary: d) (auto simp: run_steps.simps split_def Let_def never_fails_def)

lemma demo_host_simps [simp]:
  "sdmmc_execute_cmd demo_host = demo_exec" "sdmmc_init demo_host i p b t m = (False, m\<lparr>mc_id := i, card_clock := 400\<rparr>)" "sdmmc_setup_clock demo_host t m = (False, m)"
  "sdmmc_tuning_execute demo_host t c m = (False, m)" "sdmmc_get_io_power demo_host m = SDMMC_POWER_3_3"
  by (simp_all add: demo_host_def)

lemma demo_exec_cmd: "exec_cmd demo_host c d = (False, d\<lparr>dev_mc := (dev_mc d)\<lparr>expected_rsp_type := rsp_type c, mc_rsp := demo_rsp c, error_sts := 0\<rparr>\<rparr>)"
  by (simp add: exec_cmd_def demo_exec_def)

lemma demo_status_ok: "\<not> sdmmc_storage_check_card_status 0x900" "R1_CURRENT_STATE 0x900 = R1_STATE_TRAN"
  by (simp_all add: sdmmc_storage_check_card_status_def R1_CURRENT_STATE_def R1_STATE_TRAN_def R1_OUT_OF_RANGE_def R1_ADDRESS_ERROR_def R1_BLOCK_LEN_ERROR_def
      R1_ERASE_SEQ_ERROR_def R1_ERASE_PARAM_def R1_WP_VIOLATION_def R1_LOCK_UNLOCK_FAILED_def R1_COM_CRC_ERROR_def R1_ILLEGAL_COMMAND_def R1_CARD_ECC_FAILED_def
      R1_CC_ERROR_def R1_ERROR_def R1_CID_CSD_OVERWRITE_def R1_WP_ERASE_SKIP_def R1_ERASE_RESET_def R1_SWITCH_ERROR_def)

lemma demo_masked: "st \<in> {R1_SKIP_STATE_CHECK, R1_STATE_TRAN} \<Longrightarrow> \<not> fst (sdmmc_storage_execute_cmd_ex_masked demo_host resp c arg busy st 0 d)"
  by (auto simp: sdmmc_storage_execute_cmd_ex_masked_def demo_exec_cmd rsp_word_def sdmmc_get_cached_rsp_def sdmmc_init_cmd_def demo_rsp_def SDMMC_RSP_TYPE_1_def demo_status_ok)

lemma demo_commands:
  "never_fails (mmc_storage_switch demo_host arg)" "never_fails (sdmmc_storage_check_status demo_host)" "never_fails (sdmmc_storage_select_card demo_host)"
  "never_fails (sdmmc_storage_set_blocklen demo_host n)" "never_fails (mmc_storage_set_relative_addr demo_host)" "never_fails (sdmmc_storage_go_idle_state demo_host)"
  "never_fails (sdmmc_storage_get_cid demo_host)" "never_fails (sdmmc_storage_get_csd demo_host)"
  "never_fails (effect g)" "never_fails (drv_do h)" "(\<And>m. \<not> fst (f m)) \<Longrightarrow> never_fails (drv_op f)"
  unfolding never_fails_def
  by (simp_all add: demo_masked mmc_storage_switch_def sdmmc_storage_select_card_def sdmmc_storage_set_blocklen_def mmc_storage_set_relative_addr_def sdmmc_storage_go_idle_state_def
      sdmmc_storage_check_status_def sdmmc_storage_get_status_def sdmmc_storage_execute_cmd_ex_state_def sdmmc_storage_get_cid_def sdmmc_storage_get_csd_def
      demo_exec_cmd effect_def drv_do_def drv_op_def split_def Let_def)

lemma demo_op_cond: "never_fails (mmc_storage_get_op_cond demo_host SDMMC_POWER_1_8)"
proof -
  have "\<exists>d1. mmc_op_cond_step demo_host SDMMC_POWER_1_8 r d = (True, False, d1)" for r d
    by (simp add: mmc_op_cond_step_def mmc_storage_get_op_cond_inner_def demo_exec_cmd sdmmc_get_cached_rsp_def sdmmc_init_cmd_def demo_rsp_def rsp_type_defs MMC_OCR_BUSY_def)
  note step = this
  have p: "\<not> fst (timed_poll (Suc n) demo_host (mmc_op_cond_step demo_host SDMMC_POWER_1_8) t us True d)" for n t us d
    using step [of True d] by auto
  have "POLL_LIMIT = Suc 1501" by (simp add: POLL_LIMIT_def)
  then show ?thesis unfolding never_fails_def mmc_storage_get_op_cond_def using p by metis
qed

lemma demo_mmc_speed:
  "never_fails (mmc_storage_switch_buswidth demo_host bw)" "never_fails (mmc_storage_enable_HS demo_host b)"
  unfolding never_fails_def mmc_storage_switch_buswidth_def mmc_storage_enable_HS_def Let_def
  by (auto intro!: never_fails_steps demo_commands)

lemma demo_features: "never_fails (mmc_features demo_host bw t)"
proof -
  have "never_fails (mmc_storage_get_ext_csd demo_host)"
    by (simp add: never_fails_def mmc_storage_get_ext_csd_def exec_req_def demo_exec_def Let_def split_def sdmmc_init_cmd_def demo_rsp_def set_st_def rsp_type_defs MMC_SEND_EXT_CSD_def
        sdmmc_storage_check_cached_card_status_def rsp_word_def sdmmc_get_cached_rsp_def demo_status_ok)
  moreover have "never_fails (\<lambda>d. mmc_storage_enable_highspeed demo_host (ucast (card_type (ext_csd (dev_st d)))) t d)"
    using demo_mmc_speed(2) by (auto simp: never_fails_def mmc_storage_enable_highspeed_def Let_def SDMMC_POWER_3_3_def SDMMC_POWER_1_8_def)
  ultimately show ?thesis unfolding never_fails_def [of "mmc_features demo_host bw t"] mmc_features_def
    by (auto intro!: never_fails_steps demo_commands demo_mmc_speed)
qed

lemma demo_init_mmc: "\<not> fst (sdmmc_storage_init_mmc demo_host bw t d)"
  unfolding sdmmc_storage_init_mmc_def by (rule never_fails_steps) (auto intro!: demo_commands demo_op_cond demo_features)

theorem io_error_selects_user_area_witness:
  "\<exists>w. sdmmc_storage_handle_io_error demo_rw Emmc_storage False demo_world = (False, w) \<and>
    partition_no (dev_st (storage_dev Emmc_storage demo_world)) = 1 \<and> partition_no (dev_st (storage_dev Emmc_storage w)) = 0"
proof -
  have id: "mc_id (dev_mc (storage_dev Emmc_storage demo_world)) = SDMMC_4" "partition_no (dev_st (storage_dev Emmc_storage demo_world)) = 1"
    by (simp_all add: demo_world_def storage_dev_def demo_dev_def)
  have "\<not> fst (emmc_init_retry (emmc_env_of demo_rw) True s)" if "emmc_mode s = 4" for s
    using that demo_init_mmc by (simp add: emmc_init_retry_def emmc_end_def emmc_try_def emmc_env_of_def demo_rw_def emmc_mode_defs Let_def split_def)
  then have "\<not> fst (sdmmc_storage_handle_io_error demo_rw Emmc_storage False demo_world)"
    using id(1) by (simp add: sdmmc_storage_handle_io_error_def Let_def split_def SDMMC_1_def SDMMC_4_def emmc_error_count_increment_def demo_world_def)
  then obtain w where "sdmmc_storage_handle_io_error demo_rw Emmc_storage False demo_world = (False, w)" by (metis prod.collapse)
  then show ?thesis using io_error_selects_user_area [OF id(1)] id(2) by blast
qed

text \<open>The example card takes a block and gives it back.\<close>

lemma demo_transfer:
  assumes "initialized (dev_st (storage_dev p w))" "has_sector_access (dev_st (storage_dev p w))" "unat sector < unat (sec_cnt (dev_st (storage_dev p w)))" "length buf = 512"
  shows "\<exists>b w'. sdmmc_storage_readwrite demo_rw p sector 1 buf wr w = Some (False, b, w') \<and> dev_st (storage_dev p w') = dev_st (storage_dev p w)"
proof -
  have "\<not> (ucast sector + ucast (1 :: u32) :: u64) > ucast (sec_cnt (dev_st (storage_dev p w)))" unfolding bound_check using assms(3) by simp
  moreover have "\<exists>b d. sdmmc_storage_readwrite_ex demo_host sector 1 buf wr (storage_dev p w) = (False, b, 1, d) \<and> dev_st d = dev_st (storage_dev p w)"
    using assms(2,4) by (auto simp: sdmmc_storage_readwrite_ex_def exec_req_def demo_exec_def sdmmc_init_cmd_def MMC_WRITE_MULTIPLE_BLOCK_def MMC_READ_MULTIPLE_BLOCK_def
        sdmmc_storage_check_cached_card_status_def rsp_word_def sdmmc_get_cached_rsp_def demo_rsp_def rsp_type_defs demo_status_ok Let_def)
  moreover have "rw_host demo_rw = demo_host" by (simp add: demo_rw_def)
  ultimately show ?thesis using assms(1) rw_loop.simps [of demo_rw p wr sector 1 5 True sector 1 0 buf w]
    by (auto simp: sdmmc_storage_readwrite_def MIN32_def SDMMC_AMAX_BLOCKNUM_def Let_def)
qed

theorem sdmmc_write_read_witness:
  "\<exists>w1 data w2. sdmmc_storage_write demo_rw Sd_storage 5 1 True (replicate 512 0xA5) demo_world = Some (False, w1) \<and>
    sdmmc_storage_read demo_rw Sd_storage 5 1 True (replicate 512 0) w1 = Some (False, data, w2) \<and> data = replicate 512 0xA5"
proof -
  have st: "initialized (dev_st (storage_dev Sd_storage demo_world))" "has_sector_access (dev_st (storage_dev Sd_storage demo_world))"
    "unat (5 :: u32) < unat (sec_cnt (dev_st (storage_dev Sd_storage demo_world)))" by (simp_all add: demo_world_def storage_dev_def demo_dev_def)
  obtain b w1 where w1: "sdmmc_storage_readwrite demo_rw Sd_storage 5 1 (replicate 512 0xA5) True demo_world = Some (False, b, w1)"
    "dev_st (storage_dev Sd_storage w1) = dev_st (storage_dev Sd_storage demo_world)" using demo_transfer [OF st, of "replicate 512 0xA5" True] by auto
  obtain data w2 where w2: "sdmmc_storage_readwrite demo_rw Sd_storage 5 1 (replicate 512 0) False w1 = Some (False, data, w2)"
    using demo_transfer [OF st [folded w1(2)], of "replicate 512 0" False] by auto
  have a: "sdmmc_storage_write demo_rw Sd_storage 5 1 True (replicate 512 0xA5) demo_world = Some (False, w1)"
    "sdmmc_storage_read demo_rw Sd_storage 5 1 True (replicate 512 0) w1 = Some (False, data, w2)"
    using w1(1) w2 by (simp_all add: sdmmc_storage_write_def sdmmc_storage_read_def)
  have "data = replicate 512 0xA5" by (rule sdmmc_write_read [OF demo_disk_ok _ _ a]) simp_all
  then show ?thesis using a by blast
qed

end
