(* ===== verification/Se_Modes.thy ===== *)
theory Se_Modes
  imports Se Bytes
begin

text \<open>
  The rest of the security engine driver, \<open>bdk/sec/se.c\<close>: the key and IV table, access control, the
  CBC, OFB and CTR modes, SHA-256 in one shot and in parts, the random generator and the AES-CMAC.
\<close>

subsection \<open>Registers\<close>

definition SE_HASH_RESULT_REG :: u32 where "SE_HASH_RESULT_REG = 0x030"
definition SE_SHA_CONFIG_REG :: u32 where "SE_SHA_CONFIG_REG = 0x200"
definition SE_SHA_MSG_LENGTH_0_REG :: u32 where "SE_SHA_MSG_LENGTH_0_REG = 0x204"
definition SE_SHA_MSG_LENGTH_1_REG :: u32 where "SE_SHA_MSG_LENGTH_1_REG = 0x208"
definition SE_SHA_MSG_LENGTH_2_REG :: u32 where "SE_SHA_MSG_LENGTH_2_REG = 0x20C"
definition SE_SHA_MSG_LENGTH_3_REG :: u32 where "SE_SHA_MSG_LENGTH_3_REG = 0x210"
definition SE_SHA_MSG_LEFT_0_REG :: u32 where "SE_SHA_MSG_LEFT_0_REG = 0x214"
definition SE_SHA_MSG_LEFT_1_REG :: u32 where "SE_SHA_MSG_LEFT_1_REG = 0x218"
definition SE_SHA_MSG_LEFT_2_REG :: u32 where "SE_SHA_MSG_LEFT_2_REG = 0x21C"
definition SE_SHA_MSG_LEFT_3_REG :: u32 where "SE_SHA_MSG_LEFT_3_REG = 0x220"
definition SE_CRYPTO_SECURITY_PERKEY_REG :: u32 where "SE_CRYPTO_SECURITY_PERKEY_REG = 0x280"
definition SE_CRYPTO_KEYTABLE_ACCESS_REG :: u32 where "SE_CRYPTO_KEYTABLE_ACCESS_REG = 0x284"
definition SE_CRYPTO_LINEAR_CTR_REG :: u32 where "SE_CRYPTO_LINEAR_CTR_REG = 0x308"
definition SE_CRYPTO_KEYTABLE_ADDR_REG :: u32 where "SE_CRYPTO_KEYTABLE_ADDR_REG = 0x31C"
definition SE_CRYPTO_KEYTABLE_DATA_REG :: u32 where "SE_CRYPTO_KEYTABLE_DATA_REG = 0x320"
definition SE_CRYPTO_KEYTABLE_DST_REG :: u32 where "SE_CRYPTO_KEYTABLE_DST_REG = 0x330"
definition SE_RNG_CONFIG_REG :: u32 where "SE_RNG_CONFIG_REG = 0x340"
definition SE_RNG_SRC_CONFIG_REG :: u32 where "SE_RNG_SRC_CONFIG_REG = 0x344"
definition SE_RNG_RESEED_INTERVAL_REG :: u32 where "SE_RNG_RESEED_INTERVAL_REG = 0x348"
definition SE_RSA_SECURITY_PERKEY_REG :: u32 where "SE_RSA_SECURITY_PERKEY_REG = 0x40C"
definition SE_RSA_KEYTABLE_ACCESS_REG :: u32 where "SE_RSA_KEYTABLE_ACCESS_REG = 0x410"
definition SE_SPARE_REG :: u32 where "SE_SPARE_REG = 0x80C"

definition DST_HASHREG :: u32 where "DST_HASHREG = 1"
definition DST_KEYTABLE :: u32 where "DST_KEYTABLE = 2"
definition ALG_RNG :: u32 where "ALG_RNG = 2"
definition ALG_SHA :: u32 where "ALG_SHA = 3"
definition MODE_SHA256 :: u32 where "MODE_SHA256 = 5"
definition SHA_CONTINUE :: u32 where "SHA_CONTINUE = 0"
definition SHA_INIT_HASH :: u32 where "SHA_INIT_HASH = 1"
definition SE_KEY_LOCK_FLAG :: u32 where "SE_KEY_LOCK_FLAG = 0x80"
definition SE_KEY_TBL_DIS_KEY_ACCESS_FLAG :: u32 where "SE_KEY_TBL_DIS_KEY_ACCESS_FLAG = 0x7F"
definition SE_RSA_KEY_TBL_DIS_KEYUSE_FLAG :: u32 where "SE_RSA_KEY_TBL_DIS_KEYUSE_FLAG = 4"
definition SE_RSA_KEY_TBL_DIS_KEY_READ_UPDATE_FLAG :: u32 where "SE_RSA_KEY_TBL_DIS_KEY_READ_UPDATE_FLAG = 3"
definition SE_RSA_KEY_TBL_DIS_KEY_READ_UPDATE_USE_FLAG :: u32 where "SE_RSA_KEY_TBL_DIS_KEY_READ_UPDATE_USE_FLAG = 7"
definition HASH_ENABLE :: u32 where "HASH_ENABLE = 1"
definition XOR_TOP :: u32 where "XOR_TOP = 2"
definition XOR_BOTTOM :: u32 where "XOR_BOTTOM = 3"
definition INPUT_RANDOM :: u32 where "INPUT_RANDOM = 1"
definition INPUT_AESOUT :: u32 where "INPUT_AESOUT = 2"
definition INPUT_LNR_CTR :: u32 where "INPUT_LNR_CTR = 3"
definition VCTRAM_AESOUT :: u32 where "VCTRAM_AESOUT = 2"
definition VCTRAM_PREVMEM :: u32 where "VCTRAM_PREVMEM = 3"
definition KEYS_0_3 :: u32 where "KEYS_0_3 = 0"
definition ORIGINAL_IV :: u32 where "ORIGINAL_IV = 2"
definition SE_INPUT_NONCE_LE :: u32 where "SE_INPUT_NONCE_LE = 1"
definition SRC_ENTROPY :: u32 where "SRC_ENTROPY = 1"
definition MODE_NORMAL :: u32 where "MODE_NORMAL = 0"
definition RO_ENTR_ENABLE :: u32 where "RO_ENTR_ENABLE = 1"
definition SE_CRYPTO_HASH :: "u32 \<Rightarrow> u32" where "SE_CRYPTO_HASH x = x"
definition SE_CRYPTO_INPUT_SEL :: "u32 \<Rightarrow> u32" where "SE_CRYPTO_INPUT_SEL x = push_bit 3 x"
definition SE_CRYPTO_VCTRAM_SEL :: "u32 \<Rightarrow> u32" where "SE_CRYPTO_VCTRAM_SEL x = push_bit 5 x"
definition SE_CRYPTO_CTR_CNTN :: "u32 \<Rightarrow> u32" where "SE_CRYPTO_CTR_CNTN x = push_bit 11 x"
definition SE_KEYTABLE_PKT :: "u32 \<Rightarrow> u32" where "SE_KEYTABLE_PKT x = x"
definition SE_KEYTABLE_QUAD :: "u32 \<Rightarrow> u32" where "SE_KEYTABLE_QUAD x = push_bit 2 x"
definition SE_KEYTABLE_SLOT :: "u32 \<Rightarrow> u32" where "SE_KEYTABLE_SLOT x = push_bit 4 x"
definition SE_KEYTABLE_DST_WORD_QUAD :: "u32 \<Rightarrow> u32" where "SE_KEYTABLE_DST_WORD_QUAD x = x"
definition SE_KEYTABLE_DST_KEY_INDEX :: "u32 \<Rightarrow> u32" where "SE_KEYTABLE_DST_KEY_INDEX x = push_bit 8 x"
definition SE_RNG_CONFIG_SRC :: "u32 \<Rightarrow> u32" where "SE_RNG_CONFIG_SRC x = push_bit 2 x"
definition SE_RNG_CONFIG_MODE :: "u32 \<Rightarrow> u32" where "SE_RNG_CONFIG_MODE x = x"
definition SE_RNG_SRC_CONFIG_ENTR_SRC :: "u32 \<Rightarrow> u32" where "SE_RNG_SRC_CONFIG_ENTR_SRC x = push_bit 1 x"

subsection \<open>Keys, initial vectors and counters\<close>

definition se_aes_counter_set :: "'e se_env \<Rightarrow> u8 list \<Rightarrow> 'e \<Rightarrow> 'e" where
  "se_aes_counter_set env ctr e =
     foldl (\<lambda>e i. se_write env (SE_CRYPTO_LINEAR_CTR_REG + 4 * of_nat i) (words_of_bytes ctr ! i) e) e [0..<4]"

definition se_rsa_acc_ctrl :: "'e se_env \<Rightarrow> u32 \<Rightarrow> u32 \<Rightarrow> 'e \<Rightarrow> 'e" where
  "se_rsa_acc_ctrl env rs flags e =
     (let e1 = (if flags AND SE_KEY_TBL_DIS_KEY_ACCESS_FLAG \<noteq> 0
                then se_write env (SE_RSA_KEYTABLE_ACCESS_REG + 4 * rs)
                       (((drop_bit 4 flags AND SE_RSA_KEY_TBL_DIS_KEYUSE_FLAG) OR (flags AND SE_RSA_KEY_TBL_DIS_KEY_READ_UPDATE_FLAG)) XOR
                          SE_RSA_KEY_TBL_DIS_KEY_READ_UPDATE_USE_FLAG) e
                else e)
      in if flags AND SE_KEY_LOCK_FLAG \<noteq> 0
         then se_write env SE_RSA_SECURITY_PERKEY_REG (se_read env SE_RSA_SECURITY_PERKEY_REG e1 AND NOT (push_bit (unat rs) 1)) e1
         else e1)"

definition se_key_acc_ctrl :: "'e se_env \<Rightarrow> u32 \<Rightarrow> u32 \<Rightarrow> 'e \<Rightarrow> 'e" where
  "se_key_acc_ctrl env ks flags e =
     (let e1 = (if flags AND SE_KEY_TBL_DIS_KEY_ACCESS_FLAG \<noteq> 0
                then se_write env (SE_CRYPTO_KEYTABLE_ACCESS_REG + 4 * ks) (NOT flags) e else e)
      in if flags AND SE_KEY_LOCK_FLAG \<noteq> 0
         then se_write env SE_CRYPTO_SECURITY_PERKEY_REG (se_read env SE_CRYPTO_SECURITY_PERKEY_REG e1 AND NOT (push_bit (unat ks) 1)) e1
         else e1)"

definition se_key_acc_ctrl_get :: "'e se_env \<Rightarrow> u32 \<Rightarrow> 'e \<Rightarrow> u32" where
  "se_key_acc_ctrl_get env ks e = se_read env (SE_CRYPTO_KEYTABLE_ACCESS_REG + 4 * ks) e"

text \<open>One word of the table: its address is written first, then the data register.\<close>

definition keytable_addr :: "u32 \<Rightarrow> u32 \<Rightarrow> nat \<Rightarrow> u32" where
  "keytable_addr ks quad i = SE_KEYTABLE_SLOT ks OR SE_KEYTABLE_QUAD quad OR SE_KEYTABLE_PKT (of_nat i)"

definition keytable_put :: "'e se_env \<Rightarrow> u32 \<Rightarrow> u32 \<Rightarrow> nat \<Rightarrow> u32 \<Rightarrow> 'e \<Rightarrow> 'e" where
  "keytable_put env ks quad i w e = se_write env SE_CRYPTO_KEYTABLE_DATA_REG w (se_write env SE_CRYPTO_KEYTABLE_ADDR_REG (keytable_addr ks quad i) e)"

definition keytable_fill :: "'e se_env \<Rightarrow> u32 \<Rightarrow> u32 \<Rightarrow> u32 list \<Rightarrow> 'e \<Rightarrow> 'e" where
  "keytable_fill env ks quad ws e = foldl (\<lambda>e i. keytable_put env ks quad i (ws ! i) e) e [0..<length ws]"

definition se_aes_key_set :: "'e se_env \<Rightarrow> u32 \<Rightarrow> u8 list \<Rightarrow> 'e \<Rightarrow> 'e" where
  "se_aes_key_set env ks key e = keytable_fill env ks KEYS_0_3 (words_of_bytes key) e"

definition se_aes_iv_set :: "'e se_env \<Rightarrow> u32 \<Rightarrow> u8 list \<Rightarrow> 'e \<Rightarrow> 'e" where
  "se_aes_iv_set env ks iv e = keytable_fill env ks ORIGINAL_IV (words_of_bytes iv) e"

definition se_aes_key_get :: "'e se_env \<Rightarrow> u32 \<Rightarrow> nat \<Rightarrow> 'e \<Rightarrow> u8 list \<times> 'e" where
  "se_aes_key_get env ks sz e =
     (let (ws, e1) = foldl (\<lambda>(ws, e) i. let e1 = se_write env SE_CRYPTO_KEYTABLE_ADDR_REG (keytable_addr ks KEYS_0_3 i) e
                                        in (ws @ [se_read env SE_CRYPTO_KEYTABLE_DATA_REG e1], e1)) ([], e) [0..<sz div 4]
      in (bytes_of_words ws, e1))"

definition se_aes_key_clear :: "'e se_env \<Rightarrow> u32 \<Rightarrow> 'e \<Rightarrow> 'e" where
  "se_aes_key_clear env ks e = keytable_fill env ks KEYS_0_3 (replicate 8 0) e"

definition se_aes_iv_clear :: "'e se_env \<Rightarrow> u32 \<Rightarrow> 'e \<Rightarrow> 'e" where
  "se_aes_iv_clear env ks e = keytable_fill env ks ORIGINAL_IV (replicate 8 0) e"

definition se_aes_unwrap_key :: "'e se_env \<Rightarrow> u32 \<Rightarrow> u32 \<Rightarrow> u8 list \<Rightarrow> 'e \<Rightarrow> bool \<times> 'e" where
  "se_aes_unwrap_key env ks_dst ks_src seed e =
     (let e1 = se_write env SE_CRYPTO_KEYTABLE_DST_REG (SE_KEYTABLE_DST_KEY_INDEX ks_dst OR SE_KEYTABLE_DST_WORD_QUAD KEYS_0_3) e;
          (res, _, e2) = se_execute_oneshot env
             (SE_CONFIG_DEC_MODE MODE_KEY128 OR SE_CONFIG_DEC_ALG ALG_AES_DEC OR SE_CONFIG_DST DST_KEYTABLE)
             (SE_CRYPTO_KEY_INDEX ks_src OR SE_CRYPTO_CORE_SEL CORE_DECRYPT) 0 [] (take 16 seed) e1
      in (res, e2))"

subsection \<open>Modes of AES\<close>

definition cbc_config :: "bool \<Rightarrow> u32" where
  "cbc_config enc = (if enc then SE_CONFIG_ENC_MODE MODE_KEY128 OR SE_CONFIG_ENC_ALG ALG_AES_ENC OR SE_CONFIG_DST DST_MEMORY
                     else SE_CONFIG_DEC_MODE MODE_KEY128 OR SE_CONFIG_DEC_ALG ALG_AES_DEC OR SE_CONFIG_DST DST_MEMORY)"

definition cbc_crypto_config :: "u32 \<Rightarrow> bool \<Rightarrow> u32" where
  "cbc_crypto_config ks enc =
     (if enc then SE_CRYPTO_KEY_INDEX ks OR SE_CRYPTO_VCTRAM_SEL VCTRAM_AESOUT OR SE_CRYPTO_CORE_SEL CORE_ENCRYPT OR SE_CRYPTO_XOR_POS XOR_TOP
      else SE_CRYPTO_KEY_INDEX ks OR SE_CRYPTO_VCTRAM_SEL VCTRAM_PREVMEM OR SE_CRYPTO_CORE_SEL CORE_DECRYPT OR SE_CRYPTO_XOR_POS XOR_BOTTOM)"

definition se_aes_crypt_cbc :: "'e se_env \<Rightarrow> u32 \<Rightarrow> bool \<Rightarrow> u8 list \<Rightarrow> u8 list \<Rightarrow> 'e \<Rightarrow> bool \<times> u8 list \<times> 'e" where
  "se_aes_crypt_cbc env ks enc dst src e = se_execute_aes_oneshot env (cbc_config enc) (cbc_crypto_config ks enc) dst src e"

definition se_aes_crypt_ofb :: "'e se_env \<Rightarrow> u32 \<Rightarrow> u8 list \<Rightarrow> u8 list \<Rightarrow> 'e \<Rightarrow> bool \<times> u8 list \<times> 'e" where
  "se_aes_crypt_ofb env ks dst src e =
     se_execute_aes_oneshot env
       (SE_CONFIG_ENC_MODE MODE_KEY128 OR SE_CONFIG_ENC_ALG ALG_AES_ENC OR SE_CONFIG_DST DST_MEMORY)
       (SE_CRYPTO_KEY_INDEX ks OR SE_CRYPTO_INPUT_SEL INPUT_AESOUT OR SE_CRYPTO_CORE_SEL CORE_ENCRYPT OR SE_CRYPTO_XOR_POS XOR_BOTTOM)
       dst src (se_write env SE_SPARE_REG SE_INPUT_NONCE_LE e)"

definition ctr_config :: u32 where
  "ctr_config = (SE_CONFIG_ENC_MODE MODE_KEY128 OR SE_CONFIG_ENC_ALG ALG_AES_ENC OR SE_CONFIG_DST DST_MEMORY)"

definition ctr_crypto_config :: "u32 \<Rightarrow> u32" where
  "ctr_crypto_config ks =
     (SE_CRYPTO_KEY_INDEX ks OR SE_CRYPTO_CORE_SEL CORE_ENCRYPT OR SE_CRYPTO_XOR_POS XOR_BOTTOM OR SE_CRYPTO_INPUT_SEL INPUT_LNR_CTR OR SE_CRYPTO_CTR_CNTN 1)"

definition se_aes_crypt_ctr :: "'e se_env \<Rightarrow> u32 \<Rightarrow> u8 list \<Rightarrow> u8 list \<Rightarrow> u8 list \<Rightarrow> 'e \<Rightarrow> bool \<times> u8 list \<times> 'e" where
  "se_aes_crypt_ctr env ks dst src ctr e =
     se_execute_aes_oneshot env ctr_config (ctr_crypto_config ks) dst src
       (se_aes_counter_set env ctr (se_write env SE_SPARE_REG SE_INPUT_NONCE_LE e))"

subsection \<open>Hashes\<close>

text \<open>The hash registers in the byte order of the digest.\<close>

definition byte_swap_32 :: "u32 \<Rightarrow> u32" where
  "byte_swap_32 v = (drop_bit 24 v AND 0xFF) OR push_bit 8 (v AND 0xFF00) OR (drop_bit 8 v AND 0xFF00) OR push_bit 24 (v AND 0xFF)"

definition hash_words :: "'e se_env \<Rightarrow> nat \<Rightarrow> 'e \<Rightarrow> u32 list" where
  "hash_words env n e = map (\<lambda>i. se_read env (SE_HASH_RESULT_REG + 4 * of_nat i) e) [0..<n]"

definition se_sha_hash_256_get_hash :: "'e se_env \<Rightarrow> 'e \<Rightarrow> u8 list" where
  "se_sha_hash_256_get_hash env e = bytes_of_words (map byte_swap_32 (hash_words env 8 e))"

definition null_hash :: "u8 list" where
  "null_hash = [0xE3, 0xB0, 0xC4, 0x42, 0x98, 0xFC, 0x1C, 0x14, 0x9A, 0xFB, 0xF4, 0xC8, 0x99, 0x6F, 0xB9, 0x24,
                0x27, 0xAE, 0x41, 0xE4, 0x64, 0x9B, 0x93, 0x4C, 0xA4, 0x95, 0x99, 0x1B, 0x78, 0x52, 0xB8, 0x55]"

definition sha_config :: u32 where
  "sha_config = (SE_CONFIG_ENC_MODE MODE_SHA256 OR SE_CONFIG_ENC_ALG ALG_SHA OR SE_CONFIG_DST DST_HASHREG)"

definition sha_setup :: "'e se_env \<Rightarrow> u64 \<Rightarrow> u32 \<Rightarrow> 'e \<Rightarrow> 'e" where
  "sha_setup env total_size src_size e =
     (let msg_left = (if total_size < ucast src_size then src_size + 1 else src_size);
          e1 = se_write env SE_SHA_MSG_LENGTH_0_REG (ucast (push_bit 3 total_size)) e;
          e2 = se_write env SE_SHA_MSG_LENGTH_1_REG (ucast (drop_bit 29 total_size)) e1;
          e3 = se_write env SE_SHA_MSG_LENGTH_2_REG 0 e2;
          e4 = se_write env SE_SHA_MSG_LENGTH_3_REG 0 e3;
          e5 = se_write env SE_SHA_MSG_LEFT_0_REG (push_bit 3 msg_left) e4;
          e6 = se_write env SE_SHA_MSG_LEFT_1_REG (drop_bit 29 msg_left) e5;
          e7 = se_write env SE_SHA_MSG_LEFT_2_REG 0 e6;
          e8 = se_write env SE_SHA_MSG_LEFT_3_REG 0 e7
      in se_write env SE_SHA_CONFIG_REG (if total_size = ucast src_size \<or> total_size = 0 then SHA_INIT_HASH else SHA_CONTINUE) e8)"

text \<open>
  The result, the digest, and what waiting for the operation will return: a call that is not one shot
  returns as soon as the operation has started.
\<close>

definition se_sha_hash_256 ::
  "'e se_env \<Rightarrow> u8 list \<Rightarrow> u64 \<Rightarrow> u8 list \<Rightarrow> bool \<Rightarrow> 'e \<Rightarrow> bool \<times> u8 list \<times> bool \<times> 'e" where
  "se_sha_hash_256 env hash total_size src is_oneshot e =
     (if src = [] then (False, null_hash, False, e)
      else let e1 = sha_setup env total_size (of_nat (length src)) e
           in if length src > SE_LL_MAX_SIZE then (True, hash, False, e1)
              else let (err, e2) = se_sha_start env sha_config src e1
                   in if \<not> is_oneshot then (False, hash, err, e2)
                      else if err then (True, hash, err, e2) else (False, se_sha_hash_256_get_hash env e2, err, e2))"

definition se_sha_hash_256_async :: "'e se_env \<Rightarrow> u8 list \<Rightarrow> u8 list \<Rightarrow> 'e \<Rightarrow> bool \<times> u8 list \<times> bool \<times> 'e" where
  "se_sha_hash_256_async env hash src e = se_sha_hash_256 env hash (of_nat (length src)) src False e"

definition se_sha_hash_256_oneshot :: "'e se_env \<Rightarrow> u8 list \<Rightarrow> u8 list \<Rightarrow> 'e \<Rightarrow> bool \<times> u8 list \<times> bool \<times> 'e" where
  "se_sha_hash_256_oneshot env hash src e = se_sha_hash_256 env hash (of_nat (length src)) src True e"

definition se_sha_hash_256_partial_start :: "'e se_env \<Rightarrow> u8 list \<Rightarrow> u8 list \<Rightarrow> bool \<Rightarrow> 'e \<Rightarrow> bool \<times> u8 list \<times> bool \<times> 'e" where
  "se_sha_hash_256_partial_start env hash src is_oneshot e =
     (if length src mod 64 \<noteq> 0 then (True, hash, False, e) else se_sha_hash_256 env hash 0 src is_oneshot e)"

definition se_sha_hash_256_partial_update :: "'e se_env \<Rightarrow> u8 list \<Rightarrow> u8 list \<Rightarrow> bool \<Rightarrow> 'e \<Rightarrow> bool \<times> u8 list \<times> bool \<times> 'e" where
  "se_sha_hash_256_partial_update env hash src is_oneshot e =
     (if length src mod 64 \<noteq> 0 then (True, hash, False, e)
      else se_sha_hash_256 env hash (ucast (of_nat (length src) - 1 :: u32)) src is_oneshot e)"

definition se_sha_hash_256_partial_end :: "'e se_env \<Rightarrow> u8 list \<Rightarrow> u64 \<Rightarrow> u8 list \<Rightarrow> bool \<Rightarrow> 'e \<Rightarrow> bool \<times> u8 list \<times> bool \<times> 'e" where
  "se_sha_hash_256_partial_end env hash total_size src is_oneshot e = se_sha_hash_256 env hash total_size src is_oneshot e"

definition se_sha_hash_256_finalize :: "'e se_env \<Rightarrow> bool \<Rightarrow> 'e \<Rightarrow> bool \<times> u8 list" where
  "se_sha_hash_256_finalize env pending e = (pending, se_sha_hash_256_get_hash env e)"

subsection \<open>Random numbers\<close>

text \<open>An operation without a source: the last block register says how much it delivers.\<close>

definition se_rng_pseudo :: "'e se_env \<Rightarrow> u8 list \<Rightarrow> 'e \<Rightarrow> bool \<times> u8 list \<times> 'e" where
  "se_rng_pseudo env dst e0 =
     (let config = (SE_CONFIG_ENC_MODE MODE_KEY128 OR SE_CONFIG_ENC_ALG ALG_RNG OR SE_CONFIG_DST DST_MEMORY);
          crypto_config = (SE_CRYPTO_XOR_POS XOR_BYPASS OR SE_CRYPTO_INPUT_SEL INPUT_RANDOM);
          e1 = se_write env SE_RNG_CONFIG_REG (SE_RNG_CONFIG_SRC SRC_ENTROPY OR SE_RNG_CONFIG_MODE MODE_NORMAL) e0;
          e2 = se_write env SE_RNG_SRC_CONFIG_REG (se_read env SE_RNG_SRC_CONFIG_REG e1 OR SE_RNG_SRC_CONFIG_ENTR_SRC RO_ENTR_ENABLE) e1;
          e3 = se_write env SE_RNG_RESEED_INTERVAL_REG 4096 e2;
          size = length dst;
          size_aligned = size div 16 * 16;
          size_residue = size mod 16;
          (res, out, e4) = (if size_aligned = 0 then (False, [], e3)
                            else if size_aligned > SE_LL_MAX_SIZE then (True, take size_aligned dst, e3)
                            else se_start env config crypto_config (of_nat (size div 16) - 1) [] e3)
      in if \<not> res \<and> size_residue \<noteq> 0
         then let (res2, block, e5) = se_start env config crypto_config 0 [] e4
              in (res2, out @ take size_residue block, e5)
         else (res, out @ drop size_aligned dst, e4))"

subsection \<open>AES-CMAC\<close>

definition cmac_last_block :: "u8 list \<Rightarrow> u8 list" where
  "cmac_last_block src =
     (let size = length src; rest = size mod 16
      in if rest \<noteq> 0 then drop (size - rest) src @ [0x80] @ replicate (15 - rest) 0
         else if size \<ge> 16 then drop (size - 16) src else replicate 16 0)"

text \<open>\<open>None\<close> is the error result.\<close>

definition se_aes_hash_cmac :: "'e se_env \<Rightarrow> u32 \<Rightarrow> u8 list \<Rightarrow> 'e \<Rightarrow> (u8 list \<times> 'e) option" where
  "se_aes_hash_cmac env ks src e =
     (let size = length src;
          e1 = se_aes_iv_clear env ks e;
          (err1, subkey0, e2) = se_aes_crypt_cbc env ks True (replicate 16 0) (replicate 16 0) e1
      in if err1 then None
         else let k1 = se_ls_1bit subkey0;
                  subkey = (if size mod 16 \<noteq> 0 then se_ls_1bit k1 else k1);
                  config = cbc_config True OR SE_CONFIG_DST DST_HASHREG;
                  crypto_config0 = (if in_dram env then cbc_crypto_config ks True OR SE_CRYPTO_MEMIF MEMIF_MCCIF else cbc_crypto_config ks True);
                  crypto_config = crypto_config0 OR SE_CRYPTO_HASH HASH_ENABLE;
                  num_blocks = (size + 15) div 16;
                  (err2, _, e3) = (if num_blocks > 1 then se_execute_oneshot env config crypto_config (of_nat num_blocks - 2) [] src e2 else (False, [], e2));
                  crypto_config2 = (if num_blocks > 1 then crypto_config OR SE_CRYPTO_IV_SEL IV_UPDATED else crypto_config)
              in if err2 then None
                 else let (err3, _, e4) = se_execute_oneshot env config crypto_config2 0 [] (xor_block (cmac_last_block src) subkey) e3
                      in if err3 then None else Some (bytes_of_words (hash_words env 4 e4), e4))"

end
