(* ===== verification/Pkg2.thy ===== *)
theory Pkg2
  imports Se_Modes
begin

text \<open>
  Package2, \<open>bootloader/hos/pkg2.c\<close>, first part: the header, the process images (KIPs) of the INI1
  section, finding, listing and replacing them, decrypting a package and building one. A KIP is the
  value of the bytes its pointer and size give; the destination of a build and the package that is
  decrypted are memory relative to its start. The cryptography is the driver of the security engine.
\<close>

subsection \<open>Constants\<close>

definition PKG2_MAGIC :: u32 where "PKG2_MAGIC = 0x31324B50"
definition PKG2_SEC_KERNEL :: nat where "PKG2_SEC_KERNEL = 0"
definition PKG2_SEC_INI1 :: nat where "PKG2_SEC_INI1 = 1"
definition PKG2_SEC_UNUSED :: nat where "PKG2_SEC_UNUSED = 2"
definition INI1_MAGIC :: u32 where "INI1_MAGIC = 0x31494E49"
definition PKG2_NEWKERN_GET_INI1_HEURISTIC :: u32 where "PKG2_NEWKERN_GET_INI1_HEURISTIC = 0xD2800015"
definition ATM_MESOSPHERE :: u32 where "ATM_MESOSPHERE = 0x3053534D"
definition KIP1_NUM_SECTIONS :: nat where "KIP1_NUM_SECTIONS = 6"
definition HOS_MKEY_VER_700 :: u8 where "HOS_MKEY_VER_700 = 7"
definition HOS_MKEY_VER_810 :: u8 where "HOS_MKEY_VER_810 = 8"

definition mkey_vector_7xx :: "u8 list" where
  "mkey_vector_7xx = [0xEA, 0x60, 0xB3, 0xEA, 0xCE, 0x8F, 0x24, 0x46, 0x7D, 0x33, 0x9C, 0xD1, 0xBC, 0x24, 0x98, 0x29]"

definition package2_keyseed :: "u8 list" where
  "package2_keyseed = [0xFB, 0x8B, 0x6A, 0x9C, 0x79, 0x00, 0xC8, 0x49, 0xEF, 0xD2, 0x4D, 0x85, 0x4D, 0x30, 0xA0, 0xC7]"

subsection \<open>Data\<close>

record pkg2_hdr_t =
  hdr_ctr :: "u8 list"
  sec_ctr :: "u8 list list"
  hdr_magic :: u32
  hdr_base :: u32
  hdr_pad0 :: u32
  pkg2_ver :: u8
  bl_ver :: u8
  hdr_pad1 :: u16
  sec_size :: "u32 list"
  sec_off :: "u32 list"
  sec_sha256 :: "u8 list list"

record pkg2_kip1_sec_t =
  ks_offset :: u32
  size_decomp :: u32
  size_comp :: u32
  ks_attrib :: u32

record pkg2_kip1_t =
  kip_magic :: u32
  kip_name :: "u8 list"
  tid :: u64
  proc_cat :: u32
  main_thrd_prio :: u8
  def_cpu_core :: u8
  kip_res :: u8
  kip_flags :: u8
  sections :: "pkg2_kip1_sec_t list"
  caps :: "u32 list"
  kip_data :: "u8 list"

record pkg2_kip1_info_t =
  ki_kip1 :: pkg2_kip1_t
  ki_size :: u32

text \<open>The layout of the structures in memory, 256 bytes each before the data.\<close>

definition hdr_bytes :: "pkg2_hdr_t \<Rightarrow> u8 list" where
  "hdr_bytes h =
     hdr_ctr h @ concat (sec_ctr h) @ le_bytes 4 (hdr_magic h) @ le_bytes 4 (hdr_base h) @ le_bytes 4 (hdr_pad0 h) @
     [pkg2_ver h, bl_ver h] @ le_bytes 2 (hdr_pad1 h) @ concat (map (le_bytes 4) (sec_size h)) @ concat (map (le_bytes 4) (sec_off h)) @
     concat (sec_sha256 h)"

definition hdr_of :: "u8 list \<Rightarrow> pkg2_hdr_t" where
  "hdr_of b =
     \<lparr>hdr_ctr = take 16 b, sec_ctr = map (\<lambda>i. take 16 (drop (0x10 + 16 * i) b)) [0..<4], hdr_magic = get_le 4 b 0x50, hdr_base = get_le 4 b 0x54,
      hdr_pad0 = get_le 4 b 0x58, pkg2_ver = b ! 0x5C, bl_ver = b ! 0x5D, hdr_pad1 = get_le 2 b 0x5E,
      sec_size = map (\<lambda>i. get_le 4 (drop (0x60 + 4 * i) b) 0) [0..<4], sec_off = map (\<lambda>i. get_le 4 (drop (0x70 + 4 * i) b) 0) [0..<4],
      sec_sha256 = map (\<lambda>i. take 32 (drop (0x80 + 32 * i) b)) [0..<4]\<rparr>"

definition sec_bytes :: "pkg2_kip1_sec_t \<Rightarrow> u8 list" where
  "sec_bytes s = le_bytes 4 (ks_offset s) @ le_bytes 4 (size_decomp s) @ le_bytes 4 (size_comp s) @ le_bytes 4 (ks_attrib s)"

definition sec_of :: "u8 list \<Rightarrow> pkg2_kip1_sec_t" where
  "sec_of b = \<lparr>ks_offset = get_le 4 b 0, size_decomp = get_le 4 b 4, size_comp = get_le 4 b 8, ks_attrib = get_le 4 b 12\<rparr>"

definition kip_hdr_bytes :: "pkg2_kip1_t \<Rightarrow> u8 list" where
  "kip_hdr_bytes k =
     le_bytes 4 (kip_magic k) @ kip_name k @ le_bytes 8 (tid k) @ le_bytes 4 (proc_cat k) @
     [main_thrd_prio k, def_cpu_core k, kip_res k, kip_flags k] @ concat (map sec_bytes (sections k)) @ concat (map (le_bytes 4) (caps k))"

definition kip_bytes :: "pkg2_kip1_t \<Rightarrow> u8 list" where
  "kip_bytes k = kip_hdr_bytes k @ kip_data k"

definition kip_hdr_of :: "u8 list \<Rightarrow> pkg2_kip1_t" where
  "kip_hdr_of b =
     \<lparr>kip_magic = get_le 4 b 0, kip_name = take 12 (drop 4 b), tid = get_le 8 b 0x10, proc_cat = get_le 4 b 0x18,
      main_thrd_prio = b ! 0x1C, def_cpu_core = b ! 0x1D, kip_res = b ! 0x1E, kip_flags = b ! 0x1F,
      sections = map (\<lambda>i. sec_of (drop (0x20 + 16 * i) b)) [0..<6], caps = map (\<lambda>i. get_le 4 (drop (0x80 + 4 * i) b) 0) [0..<32], kip_data = []\<rparr>"

text \<open>The variables of the file.\<close>

record pkg2_vars =
  newkern_ini1_info :: u32
  newkern_ini1_start :: u32
  newkern_ini1_end :: u32
  newkern_ini1_rela :: u32
  pkg2_keyslot :: u8

definition mem_at :: "mem \<Rightarrow> nat \<Rightarrow> mem" where
  "mem_at m a = (\<lambda>i. m (a + i))"

subsection \<open>Listing the images\<close>

definition pkg2_calc_kip1_size :: "pkg2_kip1_t \<Rightarrow> u32" where
  "pkg2_calc_kip1_size k = foldl (\<lambda>n s. n + size_comp s) 0x100 (sections k)"

text \<open>The image at an address: its header, and the bytes its size covers.\<close>

definition kip_at :: "mem \<Rightarrow> nat \<Rightarrow> pkg2_kip1_t" where
  "kip_at m p =
     (let k = kip_hdr_of (mem_get m p 0x100) in k\<lparr>kip_data := mem_get m (p + 0x100) (unat (pkg2_calc_kip1_size k) - 0x100)\<rparr>)"

text \<open>The scan for the operation before the INI1 address: the offset of its match in 64 words.\<close>

definition newkern_scan :: "mem \<Rightarrow> u32 \<Rightarrow> nat option" where
  "newkern_scan kern crt_start = find (\<lambda>x. ld32 kern (unat crt_start + x) = PKG2_NEWKERN_GET_INI1_HEURISTIC) (map (\<lambda>i. 4 * i) [0..<64])"

definition newkern_crt_start :: "mem \<Rightarrow> u32" where
  "newkern_crt_start kern =
     (let first_op = ld32 kern 0 in if first_op AND 0xFE000000 = 0x14000000 then push_bit 2 (first_op AND 0x1FFFFFF) else 0)"

definition pkg2_get_newkern_info :: "mem \<Rightarrow> pkg2_vars \<Rightarrow> pkg2_vars" where
  "pkg2_get_newkern_info kern g =
     (let crt_start = newkern_crt_start kern;
          g0 = g\<lparr>newkern_ini1_info := 0, newkern_ini1_start := 0, newkern_ini1_rela := 0\<rparr>
      in case newkern_scan kern crt_start of
           None \<Rightarrow> g0
         | Some x \<Rightarrow>
             let info0 = crt_start + of_nat x + 12 + (if crt_start \<noteq> 0 then 4 else 0);
                 info = info0 + drop_bit 3 (ld32 kern (unat info0) AND 0xFFFF);
                 start = ld32 kern (unat info);
                 fin = ld32 kern (unat info + 8)
             in if crt_start \<noteq> 0
                then g0\<lparr>newkern_ini1_info := info, newkern_ini1_rela := info, newkern_ini1_start := start + info, newkern_ini1_end := fin + info + 8\<rparr>
                else g0\<lparr>newkern_ini1_info := info, newkern_ini1_start := start, newkern_ini1_end := fin\<rparr>)"

fun parse_kips_loop :: "nat \<Rightarrow> mem \<Rightarrow> nat \<Rightarrow> pkg2_kip1_info_t list" where
  "parse_kips_loop 0 m p = []"
| "parse_kips_loop (Suc n) m p =
     (let k = kip_at m p; sz = pkg2_calc_kip1_size k in \<lparr>ki_kip1 = k, ki_size = sz\<rparr> # parse_kips_loop n m (p + unat sz))"

text \<open>An error, the list, whether the package is of the new type, and the variables.\<close>

definition pkg2_parse_kips ::
  "pkg2_hdr_t \<Rightarrow> mem \<Rightarrow> bool \<Rightarrow> pkg2_vars \<Rightarrow> pkg2_kip1_info_t list \<Rightarrow> bool \<times> pkg2_kip1_info_t list \<times> bool \<times> pkg2_vars" where
  "pkg2_parse_kips hdr d new_pkg2 g info =
     (let newk = (sec_size hdr ! PKG2_SEC_INI1 = 0);
          g1 = (if newk then pkg2_get_newkern_info d g else g)
      in if newk \<and> newkern_ini1_start g1 = 0 then (True, info, new_pkg2, g1)
         else let p = (if newk then unat (newkern_ini1_start g1) else unat (sec_size hdr ! PKG2_SEC_KERNEL));
                  num_procs = ld32 d (p + 8)
              in (False, info @ parse_kips_loop (unat num_procs) d (p + 16), newk \<or> new_pkg2, g1))"

subsection \<open>Changing the list\<close>

definition pkg2_has_kip :: "pkg2_kip1_info_t list \<Rightarrow> u64 \<Rightarrow> bool" where
  "pkg2_has_kip info t \<longleftrightarrow> (\<exists>ki \<in> set info. tid (ki_kip1 ki) = t)"

fun pkg2_replace_kip :: "pkg2_kip1_info_t list \<Rightarrow> u64 \<Rightarrow> pkg2_kip1_t \<Rightarrow> pkg2_kip1_info_t list" where
  "pkg2_replace_kip [] t k = []"
| "pkg2_replace_kip (ki # info) t k =
     (if tid (ki_kip1 ki) = t then ki\<lparr>ki_kip1 := k, ki_size := pkg2_calc_kip1_size k\<rparr> # info else ki # pkg2_replace_kip info t k)"

definition pkg2_add_kip :: "pkg2_kip1_info_t list \<Rightarrow> pkg2_kip1_t \<Rightarrow> pkg2_kip1_info_t list" where
  "pkg2_add_kip info k = info @ [\<lparr>ki_kip1 = k, ki_size = pkg2_calc_kip1_size k\<rparr>]"

definition pkg2_merge_kip :: "pkg2_kip1_info_t list \<Rightarrow> pkg2_kip1_t \<Rightarrow> pkg2_kip1_info_t list" where
  "pkg2_merge_kip info k = (if pkg2_has_kip info (tid k) then pkg2_replace_kip info (tid k) k else pkg2_add_kip info k)"

subsection \<open>Decryption\<close>

fun decrypt_sections :: "'e se_env \<Rightarrow> u8 \<Rightarrow> (u32 \<times> u8 list) list \<Rightarrow> nat \<Rightarrow> mem \<Rightarrow> 'e \<Rightarrow> mem \<times> 'e" where
  "decrypt_sections env slot [] p m e = (m, e)"
| "decrypt_sections env slot ((sz, ctr) # secs) p m e =
     (if sz = 0 then decrypt_sections env slot secs p m e
      else let buf = mem_get m p (unat sz);
               (_, out, e1) = se_aes_crypt_ctr env (ucast slot) buf buf ctr e
           in decrypt_sections env slot secs (p + unat sz) (mem_put p out m) e1)"

text \<open>
  The header is the one after the signature of 256 bytes; no header is returned when its magic is
  wrong. The results of the engine's calls are not looked at.
\<close>

definition pkg2_decrypt ::
  "'e se_env \<Rightarrow> bool \<Rightarrow> u8 \<Rightarrow> bool \<Rightarrow> mem \<Rightarrow> 'e \<Rightarrow> pkg2_vars \<Rightarrow> pkg2_hdr_t option \<times> mem \<times> 'e \<times> pkg2_vars" where
  "pkg2_decrypt env t210b01 mkey is_exo m e g =
     (let old = (\<not> t210b01 \<and> mkey = HOS_MKEY_VER_700);
          slot = (if old then 9 else 8);
          e1 = (if old
                then let (_, tmp_mkey, ea) = se_aes_crypt_ecb env (if \<not> is_exo then 7 else 13) False (replicate 16 0) mkey_vector_7xx e
                     in snd (se_aes_unwrap_key env 9 9 package2_keyseed (se_aes_key_set env 9 tmp_mkey ea))
                else e);
          g1 = g\<lparr>pkg2_keyslot := slot\<rparr>;
          raw = mem_get m 0x100 0x100;
          (_, out, e2) = se_aes_crypt_ctr env (ucast slot) raw raw (take 16 raw) e1;
          m1 = mem_put 0x100 out m;
          hdr = hdr_of (mem_get m1 0x100 0x100)
      in if hdr_magic hdr \<noteq> PKG2_MAGIC then (None, m1, e2, g1)
         else let (m2, e3) = decrypt_sections env slot (zip (sec_size hdr) (sec_ctr hdr)) 0x200 m1 e2 in (Some hdr, m2, e3, g1))"

subsection \<open>Building\<close>

fun ini1_copy :: "pkg2_kip1_info_t list \<Rightarrow> nat \<Rightarrow> nat \<Rightarrow> mem \<Rightarrow> mem" where
  "ini1_copy [] ini1 pdst m = m"
| "ini1_copy (ki # kips) ini1 pdst m =
     (let m1 = mem_put pdst (take (unat (ki_size ki)) (kip_bytes (ki_kip1 ki))) m
      in ini1_copy kips ini1 (pdst + unat (ki_size ki)) (mem_put (ini1 + 8) (le_bytes 4 (ld32 m1 (ini1 + 8) + 1)) m1))"

definition ini1_total :: "pkg2_kip1_info_t list \<Rightarrow> u32" where
  "ini1_total kips = ALIGN (foldl (\<lambda>n ki. n + ki_size ki) 0x10 kips) 4"

definition pkg2_ini1_build ::
  "'e se_env \<Rightarrow> nat \<Rightarrow> nat option \<Rightarrow> pkg2_hdr_t \<Rightarrow> pkg2_kip1_info_t list \<Rightarrow> bool \<Rightarrow> pkg2_vars \<Rightarrow> mem \<Rightarrow> 'e \<Rightarrow> u32 \<times> pkg2_hdr_t \<times> mem \<times> 'e" where
  "pkg2_ini1_build env pdst0 psec hdr kips new_pkg2 g m e =
     (let ini1_size = ini1_total kips;
          use_old = (psec \<noteq> None \<and> ini1_size \<le> newkern_ini1_end g - newkern_ini1_start g);
          pdst = (if use_old then the psec + unat (newkern_ini1_start g) else pdst0);
          m1 = mem_put pdst (le_bytes 4 INI1_MAGIC @ le_bytes 4 ini1_size @ replicate 8 0) m;
          m2 = ini1_copy kips pdst (pdst + 16) m1;
          ret = (if \<not> use_old then ini1_size else 0)
      in if \<not> new_pkg2
         then let buf = mem_get m2 pdst (unat ini1_size);
                  (_, out, e1) = se_aes_crypt_ctr env 8 buf buf (sec_ctr hdr ! PKG2_SEC_INI1) e
              in (ret, hdr\<lparr>sec_size := (sec_size hdr)[PKG2_SEC_INI1 := ini1_size], sec_off := (sec_off hdr)[PKG2_SEC_INI1 := 0x14080000]\<rparr>,
                  mem_put pdst out m2, e1)
         else (ret, hdr\<lparr>sec_size := (sec_size hdr)[PKG2_SEC_INI1 := 0], sec_off := (sec_off hdr)[PKG2_SEC_INI1 := 0]\<rparr>, m2, e))"

text \<open>The hashes of three sections; a hash that fails leaves the field.\<close>

fun hash_sections :: "'e se_env \<Rightarrow> nat list \<Rightarrow> nat \<Rightarrow> mem \<Rightarrow> pkg2_hdr_t \<Rightarrow> 'e \<Rightarrow> pkg2_hdr_t \<times> 'e" where
  "hash_sections env [] p m hdr e = (hdr, e)"
| "hash_sections env (i # is) p m hdr e =
     (let n = unat (sec_size hdr ! i);
          (_, h, _, e1) = se_sha_hash_256_oneshot env (sec_sha256 hdr ! i) (mem_get m p n) e
      in hash_sections env is (p + n) m (hdr\<lparr>sec_sha256 := (sec_sha256 hdr)[i := h]\<rparr>) e1)"

definition zero_hdr :: pkg2_hdr_t where
  "zero_hdr =
     \<lparr>hdr_ctr = replicate 16 0, sec_ctr = replicate 4 (replicate 16 0), hdr_magic = 0, hdr_base = 0, hdr_pad0 = 0, pkg2_ver = 0, bl_ver = 0, hdr_pad1 = 0,
      sec_size = replicate 4 0, sec_off = replicate 4 0, sec_sha256 = replicate 4 (replicate 32 0)\<rparr>"

definition kernel_is_meso :: "mem \<Rightarrow> bool" where
  "kernel_is_meso krn \<longleftrightarrow> ld32 krn 4 AND 0xF0FFFFFF = ATM_MESOSPHERE"

text \<open>The kernel and, for a package of the new type, INI1 after it or in the place of the old one.\<close>

definition pkg2_build_kernel ::
  "'e se_env \<Rightarrow> mem \<Rightarrow> u32 \<Rightarrow> pkg2_hdr_t \<Rightarrow> pkg2_kip1_info_t list \<Rightarrow> bool \<Rightarrow> pkg2_vars \<Rightarrow> mem \<Rightarrow> 'e \<Rightarrow> u32 \<times> pkg2_hdr_t \<times> mem \<times> 'e" where
  "pkg2_build_kernel env krn kernel_size hdr kips new_pkg2 g m e =
     (let pdst = 0x200;
          is_meso = kernel_is_meso krn;
          m1 = mem_put pdst (mem_get krn 0 (unat kernel_size)) m
      in if \<not> new_pkg2 then (kernel_size, hdr\<lparr>sec_off := (sec_off hdr)[PKG2_SEC_KERNEL := 0x10000000]\<rparr>, m1, e)
         else let (ini1_size, hdr2, m2, e1) = pkg2_ini1_build env (pdst + unat kernel_size) (if is_meso then None else Some pdst) hdr kips True g m1 e;
                  hdr3 = hdr2\<lparr>sec_off := (sec_off hdr2)[PKG2_SEC_KERNEL := 0x60000]\<rparr>;
                  meso_meta_offset = ld32 m2 (pdst + 8);
                  m3 = (if is_meso \<and> ld32 krn 4 AND 0x0F000000 \<noteq> 0
                        then mem_put (pdst + unat meso_meta_offset) (le_bytes 4 (kernel_size - meso_meta_offset)) m2
                        else if ini1_size \<noteq> 0
                        then (if is_meso then mem_put (pdst + 8) (le_bytes 4 kernel_size) m2
                              else mem_put (pdst + unat (newkern_ini1_info g)) (le_bytes 4 (kernel_size - newkern_ini1_rela g)) m2)
                        else m2)
              in (kernel_size + ini1_size, hdr3, m3, e1))"

text \<open>The hashes and the header: it is encrypted with its own counter, which then goes over it in the clear.\<close>

definition pkg2_seal :: "'e se_env \<Rightarrow> u8 \<Rightarrow> u8 \<Rightarrow> bool \<Rightarrow> u32 \<Rightarrow> pkg2_hdr_t \<Rightarrow> mem \<Rightarrow> 'e \<Rightarrow> mem \<times> 'e" where
  "pkg2_seal env slot key_ver is_exo pkg_size hdr m e =
     (let (hdr4, e4) = (if \<not> is_exo then hash_sections env [0, 1, 2] 0x200 m hdr e else (hdr, e));
          ctr = le_bytes 4 pkg_size @ [key_ver] @ replicate 11 0;
          hbuf = hdr_bytes (hdr4\<lparr>hdr_ctr := ctr\<rparr>);
          (_, hout, e5) = se_aes_crypt_ctr env (ucast slot) hbuf hbuf ctr e4
      in (mem_put 0x100 ctr (mem_put 0x100 hout m), e5))"

text \<open>Whether the package is of the new type, the variables, the package and the engine.\<close>

definition pkg2_build_encrypt ::
  "'e se_env \<Rightarrow> mem \<Rightarrow> u32 \<Rightarrow> u8 \<Rightarrow> pkg2_kip1_info_t list \<Rightarrow> bool \<Rightarrow> bool \<Rightarrow> pkg2_vars \<Rightarrow> mem \<Rightarrow> 'e \<Rightarrow> bool \<times> pkg2_vars \<times> mem \<times> 'e" where
  "pkg2_build_encrypt env krn kernel_size0 mkey kips is_exo new_pkg2_0 g m e =
     (let new_pkg2 = (new_pkg2_0 \<or> kernel_is_meso krn);
          key_ver = (if pkg2_keyslot g = 9 then HOS_MKEY_VER_810 + 1 else if mkey \<noteq> 0 then mkey + 1 else 0);
          slot = (if pkg2_keyslot g = 9 then 8 else pkg2_keyslot g);
          m0 = mem_put 0 (replicate 0x100 0) m;
          hdr0 = zero_hdr\<lparr>hdr_magic := PKG2_MAGIC, pkg2_ver := 0xFF, hdr_base := if \<not> new_pkg2 then 0x10000000 else 0x60000\<rparr>;
          m1 = mem_put 0x100 (hdr_bytes hdr0) m0;
          (kernel_size, hdr1, m2, e1) = pkg2_build_kernel env krn kernel_size0 hdr0 kips new_pkg2 g m1 e;
          hdr2 = hdr1\<lparr>sec_size := (sec_size hdr1)[PKG2_SEC_KERNEL := kernel_size]\<rparr>;
          kbuf = mem_get m2 0x200 (unat kernel_size);
          (_, kout, e2) = se_aes_crypt_ctr env (ucast slot) kbuf kbuf (sec_ctr hdr2 ! PKG2_SEC_KERNEL) e1;
          m3 = mem_put 0x200 kout m2;
          (ini1_size, hdr3, m4, e3) =
            (if \<not> new_pkg2 then pkg2_ini1_build env (0x200 + unat kernel_size) None hdr2 kips False g m3 e2 else (0, hdr2, m3, e2));
          (m6, e5) = pkg2_seal env slot key_ver is_exo (0x200 + kernel_size + ini1_size) hdr3 m4 e3
      in (new_pkg2, g\<lparr>pkg2_keyslot := slot\<rparr>, m6, e5))"

end
