(* ===== verification/Blz.thy ===== *)
theory Blz
  imports Bytes
begin

text \<open>
  The decompressor \<open>bdk/libs/compr/blz.c\<close>. It works in place and backwards: compressed bytes are read and
  output bytes written from the end down. Shown: what is encoded as literals and references to later
  output comes back, as long as the output never runs into compressed bytes that are still to be read.
\<close>

unbundle bit_operations_syntax

subsection \<open>The decompressor\<close>

record blz_footer =
  cmp_and_hdr_size :: u32
  header_size :: u32
  addl_size :: u32

definition footer_of :: "u8 list \<Rightarrow> blz_footer" where
  "footer_of b = \<lparr>cmp_and_hdr_size = get_le 4 b 0, header_size = get_le 4 b 4, addl_size = get_le 4 b 8\<rparr>"

text \<open>The footer and its offset.\<close>

definition blz_get_footer :: "u8 list \<Rightarrow> u32 \<Rightarrow> (u32 \<times> blz_footer) option" where
  "blz_get_footer comp_data comp_data_size =
     (if comp_data_size < 12 then None else Some (comp_data_size - 12, footer_of (drop (unat (comp_data_size - 12)) comp_data)))"

text \<open>Accesses at 32 bit offsets from the start of the buffer; \<open>None\<close> outside of it.\<close>

definition blz_get :: "u8 list \<Rightarrow> u32 \<Rightarrow> u8 option" where
  "blz_get b i = (if unat i < length b then Some (b ! unat i) else None)"

definition blz_put :: "u8 list \<Rightarrow> u32 \<Rightarrow> u8 \<Rightarrow> u8 list option" where
  "blz_put b i x = (if unat i < length b then Some (b[unat i := x]) else None)"

fun blz_copy :: "nat \<Rightarrow> u32 \<Rightarrow> u32 \<Rightarrow> u8 list \<Rightarrow> u8 list option" where
  "blz_copy 0 d seg_ofs b = Some b"
| "blz_copy (Suc n) d seg_ofs b =
     (case blz_get b (d + seg_ofs) of None \<Rightarrow> None
      | Some x \<Rightarrow> (case blz_put b d x of None \<Rightarrow> None | Some b1 \<Rightarrow> blz_copy n (d + 1) seg_ofs b1))"

text \<open>
  One element: \<open>Inl\<close> is a return from the function, with its result, \<open>Inr\<close> the offsets \<open>cmp_ofs\<close> and \<open>out_ofs\<close> to
  go on with. The offset \<open>st\<close> is \<open>cmp_start\<close>.
\<close>

type_synonym blz_res = "(bool \<times> u8 list) + (u32 \<times> u32 \<times> u8 list)"

definition seg_word :: "u8 \<Rightarrow> u8 \<Rightarrow> u16" where
  "seg_word hi lo = ucast (push_bit 8 (ucast hi :: u32) OR ucast lo)"

definition blz_ref :: "u32 \<Rightarrow> u8 \<Rightarrow> u8 \<Rightarrow> u32 \<Rightarrow> u32 \<Rightarrow> u8 list \<Rightarrow> blz_res option" where
  "blz_ref st hi lo cmp_ofs out_ofs b =
     (let seg_val = seg_word hi lo;
          seg_size0 = (ucast (drop_bit 12 seg_val) AND 0xF) + 3 :: u32;
          seg_ofs = (ucast seg_val AND 0x0FFF) + 3 :: u32;
          seg_size = (if out_ofs < seg_size0 then out_ofs else seg_size0);
          out1 = out_ofs - seg_size
      in map_option (\<lambda>b1. Inr (cmp_ofs, out1, b1)) (blz_copy (unat seg_size) (st + out1) seg_ofs b))"

definition blz_element :: "u32 \<Rightarrow> u8 \<Rightarrow> u32 \<Rightarrow> u32 \<Rightarrow> u8 list \<Rightarrow> blz_res option" where
  "blz_element st control cmp_ofs out_ofs b =
     (if control AND 0x80 \<noteq> 0
      then if cmp_ofs < 2 then Some (Inl (False, b))
           else (case (blz_get b (st + (cmp_ofs - 2 + 1)), blz_get b (st + (cmp_ofs - 2))) of
                   (Some hi, Some lo) \<Rightarrow> blz_ref st hi lo (cmp_ofs - 2) out_ofs b
                 | _ \<Rightarrow> None)
      else if cmp_ofs < 1 then Some (Inl (False, b))
           else (case blz_get b (st + (cmp_ofs - 1)) of None \<Rightarrow> None
                 | Some x \<Rightarrow> map_option (\<lambda>b1. Inr (cmp_ofs - 1, out_ofs - 1, b1)) (blz_put b (st + (out_ofs - 1)) x)))"

fun blz_bits :: "u32 \<Rightarrow> nat \<Rightarrow> u8 \<Rightarrow> u32 \<Rightarrow> u32 \<Rightarrow> u8 list \<Rightarrow> blz_res option" where
  "blz_bits st 0 control cmp_ofs out_ofs b = Some (Inr (cmp_ofs, out_ofs, b))"
| "blz_bits st (Suc i) control cmp_ofs out_ofs b =
     (case blz_element st control cmp_ofs out_ofs b of
        None \<Rightarrow> None
      | Some (Inl r) \<Rightarrow> Some (Inl r)
      | Some (Inr (cmp1, out1, b1)) \<Rightarrow> if out1 = 0 then Some (Inl (True, b1)) else blz_bits st i (push_bit 1 control) cmp1 out1 b1)"

text \<open>Every element lowers the output offset, so the loop ends.\<close>

lemma blz_element_less:
  assumes "blz_element st control c out_ofs b = Some (Inr (c', out', b'))" "out_ofs \<noteq> 0"
  shows "out' < out_ofs"
proof -
  have "out_ofs - s < out_ofs" if "0 < s" "s \<le> out_ofs" for s :: u32
    using that by (simp add: word_less_nat_alt word_le_nat_alt unat_sub_if')
  moreover have "(0 :: u32) < (x AND 0xF) + 3" for x
  proof -
    have "x AND 0xF \<le> 0xF" by (rule word_and_le1)
    then have "unat (x AND 0xF) \<le> 15" by (simp add: word_le_nat_alt)
    then show ?thesis by (simp add: word_less_nat_alt unat_word_ariths)
  qed
  moreover have "1 \<le> out_ofs" using assms(2) by (simp add: word_le_nat_alt Suc_le_eq unat_gt_0)
  ultimately show ?thesis using assms
    by (auto simp: blz_element_def blz_ref_def Let_def word_gt_0 not_less split: if_splits option.splits)
qed

lemma blz_bits_less:
  "blz_bits st i control c out_ofs b = Some (Inr (c', out', b')) \<Longrightarrow> 0 < i \<Longrightarrow> out_ofs \<noteq> 0 \<Longrightarrow> out' < out_ofs"
proof (induction st i control c out_ofs b rule: blz_bits.induct)
  case (2 st i control c out_ofs b)
  then obtain c1 o1 b1 where e: "blz_element st control c out_ofs b = Some (Inr (c1, o1, b1))" "o1 \<noteq> 0" "blz_bits st i (push_bit 1 control) c1 o1 b1 = Some (Inr (c', out', b'))"
    by (auto split: option.splits sum.splits if_splits)
  then have "o1 < out_ofs" using blz_element_less 2(4) by blast
  moreover have "out' \<le> o1" using 2(1) [OF e(1) refl refl refl e(2)] e by (cases i) (auto intro: less_imp_le)
  ultimately show ?case by simp
qed simp

function blz_loop :: "u32 \<Rightarrow> u32 \<Rightarrow> u32 \<Rightarrow> u8 list \<Rightarrow> (bool \<times> u8 list) option" where
  "blz_loop st cmp_ofs out_ofs b =
     (if out_ofs = 0 then Some (True, b)
      else case blz_get b (st + (cmp_ofs - 1)) of
             None \<Rightarrow> None
           | Some control \<Rightarrow>
               (case blz_bits st 8 control (cmp_ofs - 1) out_ofs b of
                  None \<Rightarrow> None
                | Some (Inl r) \<Rightarrow> Some r
                | Some (Inr (c, out', b1)) \<Rightarrow> blz_loop st c out' b1))"
  by pat_completeness auto
termination
  by (relation "measure (\<lambda>(st, c, out_ofs, b). unat out_ofs)") (auto simp: word_less_nat_alt [symmetric] dest: blz_bits_less)

declare blz_loop.simps [simp del]

text \<open>The result is true when it is not 0.\<close>

definition blz_uncompress_inplace :: "u8 list \<Rightarrow> u32 \<Rightarrow> blz_footer \<Rightarrow> (bool \<times> u8 list) option" where
  "blz_uncompress_inplace b comp_size f =
     blz_loop (comp_size - cmp_and_hdr_size f) (cmp_and_hdr_size f - header_size f) (cmp_and_hdr_size f + addl_size f) b"

text \<open>
  The destination is \<open>dst_size\<close> bytes; with a smaller one the size of the fill wraps and it runs out of the
  destination.
\<close>

definition blz_uncompress_srcdest :: "u8 list \<Rightarrow> u32 \<Rightarrow> u8 list \<Rightarrow> u32 \<Rightarrow> (bool \<times> u8 list) option" where
  "blz_uncompress_srcdest comp_data comp_data_size dst_data dst_size =
     (case blz_get_footer comp_data comp_data_size of
        None \<Rightarrow> Some (False, dst_data)
      | Some (comp_bytes, footer) \<Rightarrow>
          if dst_size < comp_bytes then None
          else blz_uncompress_inplace (take (unat comp_bytes) comp_data @ replicate (unat (dst_size - comp_bytes)) 0) comp_data_size footer)"

subsection \<open>The encoding\<close>

text \<open>
  Elements in the order they are decoded. A reference copies \<open>n\<close> bytes of the output that is already there,
  \<open>k\<close> bytes further up; they must not overlap.
\<close>

datatype blz_elem = Lit u8 | Ref nat nat

fun elem_len :: "blz_elem \<Rightarrow> nat" where
  "elem_len (Lit x) = 1"
| "elem_len (Ref n k) = n"

fun elem_ok :: "blz_elem \<Rightarrow> nat \<Rightarrow> bool" where
  "elem_ok (Lit x) m \<longleftrightarrow> True"
| "elem_ok (Ref n k) m \<longleftrightarrow> 3 \<le> n \<and> n \<le> 18 \<and> n \<le> k \<and> k \<le> 4098 \<and> k \<le> m"

fun elem_bytes :: "blz_elem \<Rightarrow> u8 list" where
  "elem_bytes (Lit x) = [x]"
| "elem_bytes (Ref n k) = [of_nat (((n - 3) * 4096 + (k - 3)) div 256), of_nat (((n - 3) * 4096 + (k - 3)) mod 256)]"

text \<open>The output after an element, before it the output so far.\<close>

fun elem_out :: "blz_elem \<Rightarrow> u8 list \<Rightarrow> u8 list" where
  "elem_out (Lit x) S = x # S"
| "elem_out (Ref n k) S = take n (drop (k - n) S) @ S"

definition blz_expand :: "blz_elem list \<Rightarrow> u8 list \<Rightarrow> u8 list" where
  "blz_expand ts S = fold elem_out ts S"

text \<open>The control bits of the elements, the first at the top.\<close>

fun blz_ctl :: "nat \<Rightarrow> blz_elem list \<Rightarrow> u8" where
  "blz_ctl 0 ts = 0"
| "blz_ctl (Suc i) [] = 0"
| "blz_ctl (Suc i) (t # ts) = (case t of Lit _ \<Rightarrow> 0 | Ref _ _ \<Rightarrow> 0x80) OR drop_bit 1 (blz_ctl i ts)"

text \<open>The bytes in the order they are read, \<open>i\<close> elements left under the last control byte.\<close>

fun blz_enc :: "nat \<Rightarrow> blz_elem list \<Rightarrow> u8 list" where
  "blz_enc i [] = []"
| "blz_enc i (t # ts) = (if i = 0 then blz_ctl 8 (t # ts) # elem_bytes t @ blz_enc 7 ts else elem_bytes t @ blz_enc (i - 1) ts)"

definition out_len :: "blz_elem list \<Rightarrow> nat" where
  "out_len ts = sum_list (map elem_len ts)"

text \<open>References point to output, and after every element the bytes still to be read are before the output.\<close>

fun blz_ok :: "nat \<Rightarrow> blz_elem list \<Rightarrow> nat \<Rightarrow> bool" where
  "blz_ok i [] m \<longleftrightarrow> True"
| "blz_ok i (t # ts) m \<longleftrightarrow>
     (let j = (if i = 0 then 7 else i - 1) in elem_ok t m \<and> length (blz_enc j ts) \<le> out_len ts \<and> blz_ok j ts (m + elem_len t))"

subsection \<open>Decoding an element\<close>

lemma bit_top: "bit (0x80 :: u8) j \<longleftrightarrow> j = 7"
proof
  assume b: "bit (0x80 :: u8) j"
  then have "j < 8" using bit_imp_le_length [of "0x80 :: u8" j] by simp
  then have "j \<in> {0, 1, 2, 3, 4, 5, 6, 7}" by auto
  then show "j = 7" using b by auto
qed simp

lemma blz_ctl_low: "bit (blz_ctl i ts) j \<Longrightarrow> 8 \<le> i + j"
proof (induction i ts arbitrary: j rule: blz_ctl.induct)
  case (3 i t ts)
  have "j = 7 \<or> bit (blz_ctl i ts) (1 + j)" using 3(2) by (cases t) (auto simp only: blz_ctl.simps blz_elem.case bit_or_iff bit_drop_bit_eq bit_top or.left_neutral comp_def)
  then show ?case using 3(1) [of "1 + j"] by auto
qed simp_all

lemma blz_ctl_shift:
  assumes "i < 8"
  shows "push_bit 1 (blz_ctl (Suc i) (t # ts)) = blz_ctl i ts"
proof -
  have z: "\<not> bit (blz_ctl i ts) 0" using blz_ctl_low [of i ts 0] assms by auto
  have "push_bit 1 (drop_bit 1 (blz_ctl i ts)) = blz_ctl i ts"
  proof (rule bit_word_eqI)
    fix n
    assume n: "n < LENGTH(8)"
    show "bit (push_bit 1 (drop_bit 1 (blz_ctl i ts))) n \<longleftrightarrow> bit (blz_ctl i ts) n"
      unfolding bit_push_bit_iff bit_drop_bit_eq using z n by (cases n) auto
  qed
  moreover have "push_bit 1 (0x80 :: u8) = 0" by simp
  ultimately show ?thesis by (cases t) (simp_all only: blz_ctl.simps blz_elem.case push_bit_or or.left_neutral)
qed

lemma blz_ctl_top:
  assumes "i < 8"
  shows "blz_ctl (Suc i) (t # ts) AND 0x80 \<noteq> 0 \<longleftrightarrow> (\<exists>n k. t = Ref n k)"
proof -
  have "drop_bit 1 x AND 0x80 = 0" for x :: u8
  proof (rule bit_word_eqI)
    fix n
    show "bit (drop_bit 1 x AND 0x80) n \<longleftrightarrow> bit 0 n"
      unfolding bit_and_iff bit_drop_bit_eq bit_top using bit_imp_le_length [of x 8] by auto
  qed
  then show ?thesis by (cases t) (simp_all only: blz_ctl.simps blz_elem.case or.left_neutral bit.conj_disj_distrib2, simp_all)
qed

lemma blz_copy_ok:
  assumes "length old = n" "m + n \<le> length S" "unat d = length A" "unat k = n + m" "length (A @ old @ S @ post) < 2 ^ 32"
  shows "blz_copy n d k (A @ old @ S @ post) = Some (A @ take n (drop m S) @ S @ post)"
  using assms
proof (induction n arbitrary: old A d m)
  case (Suc n)
  obtain y old' where o: "old = y # old'" "length old' = n" using Suc.prems(1) by (cases old) auto
  have dk: "unat (d + k) = length A + Suc n + m" using Suc.prems o by (simp add: unat_word_ariths)
  have d1: "unat (d + 1) = Suc (length A)" using Suc.prems o by (simp add: unat_word_ariths)
  have "(A @ old @ S @ post) ! unat (d + k) = S ! m" using dk o Suc.prems(2) by (simp add: nth_append)
  then have g: "blz_get (A @ old @ S @ post) (d + k) = Some (S ! m)" using dk o Suc.prems by (simp add: blz_get_def)
  have p: "blz_put (A @ old @ S @ post) d x = Some ((A @ [x]) @ old' @ S @ post)" for x using Suc.prems(3) o by (simp add: blz_put_def)
  have "blz_copy n (d + 1) k ((A @ [S ! m]) @ old' @ S @ post) = Some ((A @ [S ! m]) @ take n (drop (Suc m) S) @ S @ post)"
    using Suc.prems o d1 by (intro Suc.IH) simp_all
  moreover have "take (Suc n) (drop m S) = S ! m # take n (drop (Suc m) S)" using Suc.prems(2) by (simp add: Cons_nth_drop_Suc [symmetric])
  ultimately show ?case using g p by simp
qed simp

lemma unat_seg_word: "unat (seg_word hi lo) = 256 * unat hi + unat lo"
proof -
  have "push_bit 8 (ucast hi :: u32) AND ucast lo = 0"
    by (rule bit_word_eqI) (auto simp: bit_and_iff bit_push_bit_iff bit_ucast_iff dest: bit_imp_le_length)
  then have "push_bit 8 (ucast hi :: u32) OR ucast lo = push_bit 8 (ucast hi) + ucast lo" by (simp add: disjunctive_add_eq_or)
  moreover have "unat hi < 256" "unat lo < 256" using unsigned_less [of hi] unsigned_less [of lo] by simp_all
  ultimately show ?thesis by (simp add: seg_word_def unsigned_ucast_eq take_bit_eq_mod push_bit_eq_mult unat_word_ariths)
qed

lemma and_mask_nat: "unat (x AND 0xF) = unat x mod 16" "unat (x AND 0x0FFF) = unat x mod 4096" for x :: u32
proof -
  have "x AND 0xF = take_bit 4 x" "x AND 0x0FFF = take_bit 12 x" by (simp_all add: take_bit_eq_mask mask_eq_exp_minus_1)
  then show "unat (x AND 0xF) = unat x mod 16" "unat (x AND 0x0FFF) = unat x mod 4096" by (simp_all add: take_bit_eq_mod unat_mod)
qed

lemma blz_ref_fields:
  assumes "elem_ok (Ref n k) m" "elem_bytes (Ref n k) = [hi, lo]"
  shows "unat ((ucast (drop_bit 12 (seg_word hi lo)) AND 0xF) + 3 :: u32) = n" "unat ((ucast (seg_word hi lo) AND 0x0FFF) + 3 :: u32) = k"
proof -
  define v where "v = (n - 3) * 4096 + (k - 3)"
  have q: "n - 3 \<le> 15" "k - 3 < 4096" using assms(1) by auto
  then have v: "v < 65536" "v div 4096 = n - 3" "v mod 4096 = k - 3" by (simp_all add: v_def)
  have "hi = of_nat (v div 256)" "lo = of_nat (v mod 256)" using assms(2) by (simp_all add: v_def)
  then have "unat hi = v div 256" "unat lo = v mod 256" using v(1) by (simp_all add: unat_of_nat)
  then have s: "unat (seg_word hi lo) = v" by (simp add: unat_seg_word)
  have "unat (ucast (drop_bit 12 (seg_word hi lo)) :: u32) = v div 4096"
    using s v(1) by (simp add: unsigned_ucast_eq take_bit_eq_mod unat_drop_bit_eq drop_bit_eq_div unat_div)
  then show "unat ((ucast (drop_bit 12 (seg_word hi lo)) AND 0xF) + 3 :: u32) = n"
    using v assms(1) by (simp add: unat_word_ariths and_mask_nat)
  have "unat (ucast (seg_word hi lo) :: u32) = v" using s v(1) by (simp add: unsigned_ucast_eq take_bit_eq_mod)
  then show "unat ((ucast (seg_word hi lo) AND 0x0FFF) + 3 :: u32) = k" using v assms(1) by (simp add: unat_word_ariths and_mask_nat)
qed

lemma blz_element_lit:
  assumes "unat st = length pre" "unat c = Suc (length R)" "unat out_ofs = Suc (length R) + length gap"
    and "control AND 0x80 = 0" "length (pre @ rev (x # R) @ gap @ S @ post) < 2 ^ 32"
  shows "blz_element st control c out_ofs (pre @ rev (x # R) @ gap @ S @ post) = Some (Inr (c - 1, out_ofs - 1, pre @ rev R @ butlast (x # gap) @ (x # S) @ post))"
proof -
  have c1: "unat (c - 1) = length R" and o1: "unat (out_ofs - 1) = length R + length gap" using assms(2,3) by (simp_all add: unat_sub_if')
  have s1: "unat (st + (c - 1)) = length pre + length R" using assms(1,5) c1 by (simp add: unat_word_ariths)
  have s2: "unat (st + (out_ofs - 1)) = length pre + length R + length gap" using assms(1,5) o1 by (simp add: unat_word_ariths)
  have "\<not> c < 1" using assms(2) by (simp add: word_less_nat_alt)
  moreover have "blz_get (pre @ rev (x # R) @ gap @ S @ post) (st + (c - 1)) = Some x" by (simp add: blz_get_def s1 nth_append)
  moreover have "(pre @ rev (x # R) @ gap @ S @ post)[length pre + length R + length gap := x] = pre @ rev R @ butlast (x # gap) @ (x # S) @ post"
  proof -
    have "pre @ rev (x # R) @ gap @ S @ post = (pre @ rev R @ butlast (x # gap)) @ last (x # gap) # S @ post"
      using arg_cong [OF append_butlast_last_id [of "x # gap"], of "\<lambda>g. pre @ rev R @ g @ S @ post"]
      by (simp del: append_butlast_last_id butlast.simps last.simps)
    moreover have "length (pre @ rev R @ butlast (x # gap)) = length pre + length R + length gap" by simp
    ultimately show ?thesis by (metis append.assoc append_Cons list_update_length)
  qed
  ultimately show ?thesis using assms(4) by (simp add: blz_element_def blz_put_def s2)
qed

lemma blz_element_ref:
  assumes "elem_ok (Ref n k) (length S)" "elem_bytes (Ref n k) = [hi, lo]"
    and "unat st = length pre" "unat c = Suc (Suc (length R))" "unat out_ofs = Suc (Suc (length R)) + length gap" "length R + n \<le> unat out_ofs"
    and "control AND 0x80 \<noteq> 0" "length (pre @ rev (hi # lo # R) @ gap @ S @ post) < 2 ^ 32"
  shows "\<exists>gap'. length R + length gap' + n = unat out_ofs \<and> blz_element st control c out_ofs (pre @ rev (hi # lo # R) @ gap @ S @ post) =
    Some (Inr (c - 2, out_ofs - of_nat n, pre @ rev R @ gap' @ elem_out (Ref n k) S @ post))"
proof -
  let ?b = "pre @ rev (hi # lo # R) @ gap @ S @ post"
  have c2: "unat (c - 2) = length R" "unat (c - 1) = Suc (length R)" using assms(4) by (simp_all add: unat_sub_if')
  have s1: "unat (st + (c - 2)) = length pre + length R" using assms(3,8) c2 by (simp add: unat_word_ariths)
  have s2: "unat (st + (c - 1)) = length pre + length R + 1" using assms(3,8) c2 by (simp add: unat_word_ariths)
  have ge: "\<not> c < 2" using assms(4) by (simp add: word_less_nat_alt)
  have g: "blz_get ?b (st + (c - 2 + 1)) = Some hi" "blz_get ?b (st + (c - 2)) = Some lo" by (simp_all add: blz_get_def s1 s2 nth_append)
  define gap' where "gap' = take (length gap + 2 - n) (lo # hi # gap)"
  define old where "old = drop (length gap + 2 - n) (lo # hi # gap)"
  have lens: "length gap' + n = length gap + 2" "length old = n" using assms(5,6) by (simp_all add: gap'_def old_def)
  have "gap' @ old = lo # hi # gap" by (simp add: gap'_def old_def)
  then have b: "?b = (pre @ rev R @ gap') @ old @ S @ post" by (metis append.assoc append_Cons append_Nil rev.simps(2))
  let ?s0 = "(ucast (drop_bit 12 (seg_word hi lo)) AND 0xF) + 3 :: u32" and ?ofs = "(ucast (seg_word hi lo) AND 0x0FFF) + 3 :: u32"
  note f = blz_ref_fields [OF assms(1,2)]
  have "?s0 = of_nat (unat ?s0)" by simp
  then have s0: "?s0 = of_nat n" unfolding f(1) .
  have "\<not> out_ofs < ?s0" using f(1) assms(6) by (simp add: word_less_nat_alt)
  moreover have n: "unat (of_nat n :: u32) = n" using f(1) s0 by simp
  have o1: "unat (out_ofs - of_nat n) = length R + length gap'" using n assms(5,6) lens by (simp add: unat_sub_if')
  have "unat (st + (out_ofs - of_nat n)) = length (pre @ rev R @ gap')" using o1 assms(3,8) lens by (simp add: unat_word_ariths)
  then have "blz_copy n (st + (out_ofs - of_nat n)) ?ofs ?b = Some ((pre @ rev R @ gap') @ take n (drop (k - n) S) @ S @ post)"
    unfolding b using assms(1,8) lens f(2) b by (intro blz_copy_ok) auto
  ultimately have "blz_ref st hi lo (c - 2) out_ofs ?b = Some (Inr (c - 2, out_ofs - of_nat n, pre @ rev R @ gap' @ elem_out (Ref n k) S @ post))"
    using s0 n by (simp add: blz_ref_def Let_def)
  then have "blz_element st control c out_ofs ?b = Some (Inr (c - 2, out_ofs - of_nat n, pre @ rev R @ gap' @ elem_out (Ref n k) S @ post))"
    using ge g assms(7) by (simp add: blz_element_def)
  then show ?thesis using lens assms(5) by (intro exI [of _ gap']) simp
qed

subsection \<open>Decoding\<close>

lemma blz_element_ok:
  assumes "i < 8" "elem_ok t (length S)" "unat st = length pre" "unat c = length (elem_bytes t @ R)" "unat out_ofs = length (elem_bytes t @ R) + length gap"
    and "length R + elem_len t \<le> unat out_ofs" "length (pre @ rev (elem_bytes t @ R) @ gap @ S @ post) < 2 ^ 32"
  obtains c' out' gap' where "blz_element st (blz_ctl (Suc i) (t # ts)) c out_ofs (pre @ rev (elem_bytes t @ R) @ gap @ S @ post) =
      Some (Inr (c', out', pre @ rev R @ gap' @ elem_out t S @ post))"
    "unat c' = length R" "unat out' = length R + length gap'" "unat out' + elem_len t = unat out_ofs"
proof (cases t)
  case (Lit x)
  have "blz_ctl (Suc i) (t # ts) AND 0x80 = 0" using blz_ctl_top [OF assms(1), of t ts] Lit by auto
  then show ?thesis
    using that [of "c - 1" "out_ofs - 1" "butlast (x # gap)"] blz_element_lit [of st pre c R out_ofs gap "blz_ctl (Suc i) (t # ts)" x S post] assms Lit
    by (simp add: unat_sub_if')
next
  case (Ref n k)
  obtain hi lo where e: "elem_bytes t = [hi, lo]" using Ref by simp
  have "blz_ctl (Suc i) (t # ts) AND 0x80 \<noteq> 0" using blz_ctl_top [OF assms(1), of t ts] Ref by auto
  then obtain gap' where g: "length R + length gap' + n = unat out_ofs" "blz_element st (blz_ctl (Suc i) (t # ts)) c out_ofs (pre @ rev (hi # lo # R) @ gap @ S @ post) =
    Some (Inr (c - 2, out_ofs - of_nat n, pre @ rev R @ gap' @ elem_out (Ref n k) S @ post))"
    using blz_element_ref [of n k S hi lo st pre c R out_ofs gap "blz_ctl (Suc i) (t # ts)" post] assms Ref e by auto
  have "unat (of_nat n :: u32) = n" using assms(2) Ref by (simp add: unat_of_nat)
  then show ?thesis using that [of "c - 2" "out_ofs - of_nat n" gap'] g assms(4) Ref e by (simp add: unat_sub_if' del: elem_out.simps elem_bytes.simps)
qed

text \<open>The loop, entered in the middle of a group.\<close>

definition blz_run :: "u32 \<Rightarrow> nat \<Rightarrow> u8 \<Rightarrow> u32 \<Rightarrow> u32 \<Rightarrow> u8 list \<Rightarrow> (bool \<times> u8 list) option" where
  "blz_run st i control c out_ofs b =
     (case blz_bits st i control c out_ofs b of None \<Rightarrow> None | Some (Inl r) \<Rightarrow> Some r | Some (Inr (c1, out1, b1)) \<Rightarrow> blz_loop st c1 out1 b1)"

lemma blz_run_element:
  assumes "blz_element st control c out_ofs b = Some (Inr (c1, out1, b1))"
  shows "blz_run st (Suc i) control c out_ofs b = (if out1 = 0 then Some (True, b1) else blz_run st i (push_bit 1 control) c1 out1 b1)"
  using assms by (simp add: blz_run_def)

lemma out_len_Cons: "out_len (t # ts) = elem_len t + out_len ts"
  by (simp add: out_len_def)

lemma length_elem_out: "elem_ok t (length S) \<Longrightarrow> length (elem_out t S) = length S + elem_len t"
  by (cases t) auto

lemma elem_len_pos: "elem_ok t m \<Longrightarrow> 0 < elem_len t"
  by (cases t) auto

lemma blz_run_ok:
  assumes "ts \<noteq> []" "i \<le> 8" "blz_ok i ts (length S)" "unat st = length pre" "unat c = length (blz_enc i ts)"
    and "unat out_ofs = length (blz_enc i ts) + length gap" "unat out_ofs = out_len ts" "length (pre @ rev (blz_enc i ts) @ gap @ S @ post) < 2 ^ 32"
  shows "blz_run st i (blz_ctl i ts) c out_ofs (pre @ rev (blz_enc i ts) @ gap @ S @ post) = Some (True, pre @ blz_expand ts S @ post)"
  using assms
proof (induction ts arbitrary: i S c out_ofs gap)
  case (Cons t ts)
  have pos: "blz_run st (Suc i) (blz_ctl (Suc i) (t # ts)) c out_ofs (pre @ rev (elem_bytes t @ blz_enc i ts) @ gap @ S @ post) =
      Some (True, pre @ blz_expand (t # ts) S @ post)"
    if i: "i < 8" and ok: "elem_ok t (length S)" "length (blz_enc i ts) \<le> out_len ts" "blz_ok i ts (length S + elem_len t)"
      and c: "unat c = length (elem_bytes t @ blz_enc i ts)" "unat out_ofs = length (elem_bytes t @ blz_enc i ts) + length gap" "unat out_ofs = out_len (t # ts)"
      and len: "length (pre @ rev (elem_bytes t @ blz_enc i ts) @ gap @ S @ post) < 2 ^ 32" for i c gap
  proof -
    have "length (blz_enc i ts) + elem_len t \<le> unat out_ofs" using ok(2) c(3) by (simp add: out_len_Cons)
    then obtain c' out' gap' where e: "blz_element st (blz_ctl (Suc i) (t # ts)) c out_ofs (pre @ rev (elem_bytes t @ blz_enc i ts) @ gap @ S @ post) =
        Some (Inr (c', out', pre @ rev (blz_enc i ts) @ gap' @ elem_out t S @ post))"
      "unat c' = length (blz_enc i ts)" "unat out' = length (blz_enc i ts) + length gap'" "unat out' + elem_len t = unat out_ofs"
      using blz_element_ok [OF i ok(1) Cons.prems(4) c(1,2) _ len] by metis
    have o': "unat out' = out_len ts" using e(4) c(3) by (simp add: out_len_Cons)
    show ?thesis
    proof (cases "ts = []")
      case True
      then have "out' = 0" "gap' = []" using o' e(3) by (simp_all add: out_len_def unat_eq_zero)
      then show ?thesis using blz_run_element [OF e(1)] True by (simp add: blz_expand_def)
    next
      case False
      have l: "length (pre @ rev (blz_enc i ts) @ gap' @ elem_out t S @ post) < 2 ^ 32" using len e(3,4) c(2) length_elem_out [OF ok(1)] by simp
      have "out_len ts > 0" using False ok(3) elem_len_pos by (cases ts) (auto simp: out_len_Cons Let_def)
      then have "out' \<noteq> 0" using o' by auto
      moreover have "blz_run st i (blz_ctl i ts) c' out' (pre @ rev (blz_enc i ts) @ gap' @ elem_out t S @ post) = Some (True, pre @ blz_expand ts (elem_out t S) @ post)"
        using False i ok(3) Cons.prems(4) e(2,3) o' l length_elem_out [OF ok(1)] by (intro Cons.IH) simp_all
      ultimately show ?thesis using blz_run_element [OF e(1), of i] blz_ctl_shift [OF i, of t ts] by (simp add: blz_expand_def)
    qed
  qed
  show ?case
  proof (cases i)
    case (Suc j)
    then show ?thesis using pos [of j c gap] Cons.prems by (simp add: Let_def)
  next
    case 0
    let ?R = "elem_bytes t @ blz_enc 7 ts"
    let ?b = "pre @ rev (blz_enc i (t # ts)) @ gap @ S @ post"
    have b: "?b = pre @ rev ?R @ (blz_ctl 8 (t # ts) # gap) @ S @ post" using 0 by simp
    have eight: "Suc 7 = 8" by simp
    have c1: "unat (c - 1) = length ?R" using Cons.prems(5) 0 by (simp add: unat_sub_if')
    have "unat (st + (c - 1)) = length pre + length ?R" using c1 Cons.prems(4,8) 0 by (simp add: unat_word_ariths)
    then have "blz_get ?b (st + (c - 1)) = Some (blz_ctl 8 (t # ts))" unfolding b by (simp add: blz_get_def nth_append)
    moreover have "unat out_ofs \<noteq> 0" using Cons.prems(6) 0 by simp
    then have "out_ofs \<noteq> 0" by auto
    ultimately have "blz_loop st c out_ofs ?b = blz_run st 8 (blz_ctl 8 (t # ts)) (c - 1) out_ofs ?b"
      by (subst blz_loop.simps) (simp add: blz_run_def)
    also have "\<dots> = Some (True, pre @ blz_expand (t # ts) S @ post)"
      unfolding b
    proof (rule pos [where i = 7, unfolded eight])
      show "length (pre @ rev ?R @ (blz_ctl 8 (t # ts) # gap) @ S @ post) < 2 ^ 32" using Cons.prems(8) 0 by simp
      show "unat out_ofs = length ?R + length (blz_ctl 8 (t # ts) # gap)" using Cons.prems(6) 0 by simp
    qed (use c1 Cons.prems(3,7) 0 in \<open>simp_all add: Let_def\<close>)
    finally show ?thesis using 0 by (simp add: blz_run_def)
  qed
qed simp

subsection \<open>Files\<close>

text \<open>Bytes that are not compressed, the encoded elements, padding and the footer.\<close>

definition blz_footer_bytes :: "blz_footer \<Rightarrow> u8 list" where
  "blz_footer_bytes f = le_bytes 4 (cmp_and_hdr_size f) @ le_bytes 4 (header_size f) @ le_bytes 4 (addl_size f)"

definition blz_file :: "u8 list \<Rightarrow> blz_elem list \<Rightarrow> u8 list \<Rightarrow> u8 list" where
  "blz_file pre ts pad =
     (let hdr = length pad + 12; cmp = length (blz_enc 0 ts) + hdr
      in pre @ rev (blz_enc 0 ts) @ pad @
         blz_footer_bytes \<lparr>cmp_and_hdr_size = of_nat cmp, header_size = of_nat hdr, addl_size = of_nat (out_len ts) - of_nat cmp\<rparr>)"

definition blz_fits :: "u8 list \<Rightarrow> blz_elem list \<Rightarrow> u8 list \<Rightarrow> bool" where
  "blz_fits pre ts pad \<longleftrightarrow> blz_ok 0 ts 0 \<and> length (blz_enc 0 ts) + length pad \<le> out_len ts \<and> length pre + out_len ts + 12 < 2 ^ 32"

lemma footer_of_bytes: "footer_of (blz_footer_bytes f) = f"
proof -
  have "get_le 4 (blz_footer_bytes f) 0 = cmp_and_hdr_size f" unfolding blz_footer_bytes_def by (rule get_le_head) simp
  moreover have "get_le 4 (blz_footer_bytes f) 4 = header_size f" unfolding blz_footer_bytes_def by (rule get_le_le_bytes) simp_all
  moreover have "get_le 4 (blz_footer_bytes f) 8 = addl_size f"
    using get_le_le_bytes [of 4 "le_bytes 4 (cmp_and_hdr_size f) @ le_bytes 4 (header_size f)" 8 "addl_size f" "[]"] by (simp add: blz_footer_bytes_def)
  ultimately show ?thesis by (simp add: footer_of_def)
qed

lemma blz_decompress:
  assumes fits: "blz_fits pre ts pad"
  shows "blz_uncompress_srcdest (blz_file pre ts pad) (of_nat (length (blz_file pre ts pad))) dst (of_nat (length pre + out_len ts)) = Some (True, pre @ blz_expand ts [])"
proof -
  let ?enc = "blz_enc 0 ts" and ?n = "length (blz_file pre ts pad)" and ?d = "length pre + out_len ts"
  define hdr where "hdr = length pad + 12"
  define f where "f = \<lparr>cmp_and_hdr_size = of_nat (length ?enc + hdr), header_size = of_nat hdr, addl_size = of_nat (out_len ts) - of_nat (length ?enc + hdr)\<rparr>"
  have fl: "blz_file pre ts pad = (pre @ rev ?enc @ pad) @ blz_footer_bytes f" by (simp add: blz_file_def Let_def f_def hdr_def)
  have n: "?n = length pre + length ?enc + hdr" by (simp add: fl hdr_def blz_footer_bytes_def)
  have lt: "?n < 2 ^ 32" "?d < 2 ^ 32" and fit: "length ?enc + length pad \<le> out_len ts" "blz_ok 0 ts 0" using fits n by (auto simp: blz_fits_def hdr_def)
  have u: "unat (of_nat ?n :: u32) = ?n" "unat (of_nat ?d :: u32) = ?d" using lt by (simp_all add: unat_of_nat del: of_nat_add)
  have "(of_nat ?n - 12 :: u32) = of_nat (length pre + length ?enc + length pad)" by (simp add: n hdr_def)
  then have n12: "unat (of_nat ?n - 12 :: u32) = length pre + length ?enc + length pad" using lt(1) n by (simp add: unat_of_nat hdr_def del: of_nat_add)
  have "drop (unat (of_nat ?n - 12 :: u32)) (blz_file pre ts pad) = blz_footer_bytes f" unfolding n12 unfolding fl by simp
  moreover have "\<not> (of_nat ?n :: u32) < 12" using u(1) n by (simp add: word_less_nat_alt hdr_def del: of_nat_add)
  ultimately have foot: "blz_get_footer (blz_file pre ts pad) (of_nat ?n) = Some (of_nat ?n - 12, f)" by (simp add: blz_get_footer_def footer_of_bytes)
  have room: "\<not> (of_nat ?d :: u32) < of_nat ?n - 12" using fit(1) u(2) n12 by (simp add: word_less_nat_alt del: of_nat_add)
  define zs where "zs = replicate (unat (of_nat ?d - (of_nat ?n - 12) :: u32)) (0 :: u8)"
  have zs: "length zs = out_len ts - length ?enc - length pad" using room u(2) n12 by (simp add: zs_def unat_sub_if' word_less_nat_alt del: of_nat_add)
  have buf: "take (unat (of_nat ?n - 12 :: u32)) (blz_file pre ts pad) @ zs = pre @ rev ?enc @ (pad @ zs) @ [] @ []" unfolding n12 unfolding fl by simp
  have st: "of_nat ?n - cmp_and_hdr_size f = of_nat (length pre)" "cmp_and_hdr_size f - header_size f = of_nat (length ?enc)" "cmp_and_hdr_size f + addl_size f = of_nat (out_len ts)"
    by (simp_all add: f_def n)
  have w: "unat (of_nat (length pre) :: u32) = length pre" "unat (of_nat (length ?enc) :: u32) = length ?enc" "unat (of_nat (out_len ts) :: u32) = out_len ts"
    using lt n by (simp_all add: unat_of_nat)
  have "blz_loop (of_nat (length pre)) (of_nat (length ?enc)) (of_nat (out_len ts)) (pre @ rev ?enc @ (pad @ zs) @ [] @ []) = Some (True, pre @ blz_expand ts [])"
  proof (cases "ts = []")
    case True
    then show ?thesis using zs fit(1) by (simp add: blz_loop.simps out_len_def blz_expand_def)
  next
    case False
    have "blz_run (of_nat (length pre)) 0 (blz_ctl 0 ts) (of_nat (length ?enc)) (of_nat (out_len ts)) (pre @ rev ?enc @ (pad @ zs) @ [] @ []) = Some (True, pre @ blz_expand ts [] @ [])"
      using False fit w zs lt by (intro blz_run_ok) auto
    then show ?thesis by (simp add: blz_run_def)
  qed
  then show ?thesis using foot room buf st by (simp add: blz_uncompress_srcdest_def blz_uncompress_inplace_def zs_def del: of_nat_add)
qed

text \<open>
  C8. Decompression inverts the encoding: of a file with a part that is not compressed and any sequence of
  literals and references, the decompressor makes that part and what the sequence stands for.
\<close>

theorem blz_roundtrip:
  assumes "blz_fits pre ts pad"
  shows "blz_uncompress_srcdest (blz_file pre ts pad) (of_nat (length (blz_file pre ts pad))) dst (of_nat (length pre + out_len ts)) = Some (True, pre @ blz_expand ts [])"
  using assms by (rule blz_decompress)

definition demo_elems :: "blz_elem list" where
  "demo_elems = [Lit 3, Lit 2, Lit 1, Ref 3 3, Ref 6 6, Ref 12 12]"

theorem blz_roundtrip_witness:
  "blz_uncompress_srcdest (blz_file [7, 8] demo_elems [0xFF]) (of_nat (length (blz_file [7, 8] demo_elems [0xFF]))) [] 26 =
     Some (True, [7, 8] @ concat (replicate 8 [1, 2, 3]))"
proof -
  have "blz_fits [7, 8] demo_elems [0xFF]" by (simp add: blz_fits_def demo_elems_def out_len_def Let_def)
  moreover have "out_len demo_elems = 24" "blz_expand demo_elems [] = concat (replicate 8 [1, 2, 3])"
    by (simp_all add: demo_elems_def out_len_def blz_expand_def numeral_eq_Suc)
  ultimately show ?thesis using blz_roundtrip [of "[7, 8]" demo_elems "[0xFF]" "[]"] by simp
qed

end
