(* ===== verification/Kippatch.thy ===== *)
theory Kippatch
  imports Ini Util Bytes
begin

text \<open>
  The patch file, \<open>bootloader/hos/pkg2_ini_kippatch.c\<close>: sections name a process image and the start of its
  hash, lines below them a patch with its section, offset, length, old and new bytes. Lines are read as in \<open>Ini\<close>.
\<close>

subsection \<open>Data\<close>

record ini_patchset_t =
  pt_name :: string
  pt_offset :: u32
  pt_length :: u32
  pt_src :: "u8 list"
  pt_dst :: "u8 list"

record ini_kip_sec_t =
  ksec_name :: string
  ksec_hash :: "u8 list"
  ksec_pts :: "ini_patchset_t list"

subsection \<open>Fields of a line\<close>

definition hex_nibble :: "char \<Rightarrow> u8" where
  "hex_nibble ch =
     (let c = of_char ch :: nat
      in if 48 \<le> c \<and> c \<le> 57 then of_nat (c - 48)
         else if 65 \<le> c \<and> c \<le> 70 then of_nat (c - 65 + 10)
         else if 97 \<le> c \<and> c \<le> 102 then of_nat (c - 97 + 10)
         else 0)"

fun nibble_pairs :: "char list \<Rightarrow> u8 list" where
  "nibble_pairs (a # b # cs) = ((push_bit 4 (hex_nibble a) AND 0xF0) OR (hex_nibble b AND 0x0F)) # nibble_pairs cs"
| "nibble_pairs cs = []"

text \<open>
  The bytes of the digits at the start of a string that goes on to the end of its buffer; one character
  more is looked at, and \<open>None\<close> is a read past the buffer. The number of bytes has eight bits.
\<close>

definition htoa :: "string \<Rightarrow> u8 \<Rightarrow> u8 list option" where
  "htoa ptr byte_len =
     (let s = dropWhile (\<lambda>c. c = CHR '' '' \<or> c = CHR 0x09) ptr; n = 2 * unat byte_len
      in if length s \<le> n then None else Some (nibble_pairs (take n s)))"

text \<open>The position in the string at an offset and the buffer with the string cut there.\<close>

definition find_patch_section_name :: "string \<Rightarrow> nat \<Rightarrow> u32 \<Rightarrow> char \<Rightarrow> (nat \<times> string) option" where
  "find_patch_section_name lbuf off lblen schar =
     (let i = length (takeWhile (\<lambda>c. c \<noteq> schar \<and> c \<noteq> LF) (take (unat lblen) (drop off lbuf)))
      in if off + i < length lbuf then Some (i, lbuf[off + i := NUL]) else None)"

text \<open>The name at an offset of the line; the section before is appended. \<open>None\<close> is an access past the line buffer.\<close>

definition ini_create_kip_section ::
  "ini_kip_sec_t list \<Rightarrow> ini_kip_sec_t option \<Rightarrow> nat \<Rightarrow> string \<Rightarrow> (ini_kip_sec_t list \<times> ini_kip_sec_t \<times> string) option" where
  "ini_create_kip_section dst ksec off lbuf =
     (case cstr lbuf off of
        None \<Rightarrow> None
      | Some name \<Rightarrow>
          (case find_patch_section_name lbuf off (of_nat (length name)) (CHR '':'') of
             None \<Rightarrow> None
           | Some (i, b) \<Rightarrow>
               (case (cstr b off, htoa (drop (off + i + 1) b) 8) of
                  (Some n, Some hash) \<Rightarrow>
                    Some ((case ksec of None \<Rightarrow> dst | Some k \<Rightarrow> dst @ [k]), \<lparr>ksec_name = the (strcpy_ns True (Some n)), ksec_hash = hash, ksec_pts = []\<rparr>, b)
                | _ \<Rightarrow> None)))"

text \<open>
  The numbers and the bytes of a patch. The buffer of the bytes has twice the length; what is not written to it is \<open>junk\<close>, and
  \<open>None\<close> is also a length of which the double wraps.
\<close>

definition data_fill :: "(nat \<Rightarrow> u8) \<Rightarrow> nat \<Rightarrow> u8 list \<Rightarrow> u8 list" where
  "data_fill junk n bs = take n bs @ map junk [length bs..<n]"

definition ini_patch_data :: "(nat \<Rightarrow> u8) \<Rightarrow> u32 \<Rightarrow> nat \<Rightarrow> u32 \<Rightarrow> ini_patchset_t \<Rightarrow> string \<Rightarrow> (ini_patchset_t \<times> string) option" where
  "ini_patch_data junk kps pos lblen pt b0 =
     (case find_patch_section_name b0 pos (lblen - of_nat pos) (CHR '':'') of None \<Rightarrow> None | Some (i1, b1) \<Rightarrow>
      case cstr b1 pos of None \<Rightarrow> None | Some s1 \<Rightarrow>
      let offset = kps OR fst (strtol s1 16); pos2 = pos + i1 + 1 in
      case find_patch_section_name b1 pos2 (lblen - of_nat pos2) (CHR '':'') of None \<Rightarrow> None | Some (i2, b2) \<Rightarrow>
      case cstr b2 pos2 of None \<Rightarrow> None | Some s2 \<Rightarrow>
      let len = fst (strtol s2 16); pos3 = pos2 + i2 + 1 in
      if unat len \<ge> 2 ^ 31 then None else
      case find_patch_section_name b2 pos3 (lblen - of_nat pos3) (CHR '','') of None \<Rightarrow> None | Some (i3, b3) \<Rightarrow>
      let pos4 = pos3 + i3 + 1 in
      case (htoa (drop pos3 b3) (ucast len), htoa (drop pos4 b3) (ucast len)) of
        (Some src, Some dst) \<Rightarrow>
          Some (pt\<lparr>pt_offset := offset, pt_length := len, pt_src := data_fill junk (unat len) src, pt_dst := data_fill junk (unat len) dst\<rparr>, b3)
      | _ \<Rightarrow> None)"

definition ini_patch_key :: "(nat \<Rightarrow> u8) \<Rightarrow> u32 \<Rightarrow> string \<Rightarrow> (ini_patchset_t \<times> string) option" where
  "ini_patch_key junk lblen lbuf =
     (case find_patch_section_name lbuf 0 lblen (CHR ''='') of None \<Rightarrow> None | Some (pos, b) \<Rightarrow>
      case cstr b 1 of None \<Rightarrow> None | Some n \<Rightarrow>
      let pt = \<lparr>pt_name = the (strcpy_ns True (Some n)), pt_offset = 0, pt_length = 0, pt_src = [], pt_dst = []\<rparr>
      in if pos + 1 \<ge> length b then None
         else let kip_sidx = of_char (b ! (pos + 1)) - 48 :: u8
              in if kip_sidx < 6 then ini_patch_data junk (push_bit 29 (ucast kip_sidx)) (pos + 3) lblen pt b else Some (pt, b))"

subsection \<open>The file\<close>

type_synonym kippatch_state = "ini_kip_sec_t list \<times> ini_kip_sec_t option \<times> string"

definition ini_patch_line :: "(nat \<Rightarrow> u8) \<Rightarrow> string \<Rightarrow> kippatch_state \<Rightarrow> kippatch_state option" where
  "ini_patch_line junk s st =
     (case st of (dst, ksec, lbuf0) \<Rightarrow>
        let lbuf1 = put_line s lbuf0;
            lblen = length (takeWhile (\<lambda>c. c \<noteq> NUL) s);
            lbuf = (if lblen \<noteq> 0 \<and> lbuf1 ! (lblen - 1) = LF then lbuf1[lblen - 1 := NUL] else lbuf1)
        in if lblen > 2 \<and> lbuf ! 0 = CHR ''['' then
             (case find_patch_section_name lbuf 0 (of_nat lblen) (CHR '']'') of None \<Rightarrow> None
              | Some (i, b) \<Rightarrow> map_option (\<lambda>(d, k, b1). (d, Some k, b1)) (ini_create_kip_section dst ksec 1 b))
           else case ksec of
                  None \<Rightarrow> Some (dst, ksec, lbuf)
                | Some k \<Rightarrow>
                    if lbuf ! 0 = CHR ''.''
                    then map_option (\<lambda>(pt, b). (dst, Some (k\<lparr>ksec_pts := ksec_pts k @ [pt]\<rparr>), b)) (ini_patch_key junk (of_nat lblen) lbuf)
                    else Some (dst, ksec, lbuf))"

function ini_patch_lines :: "(nat \<Rightarrow> u8) \<Rightarrow> string \<Rightarrow> kippatch_state \<Rightarrow> kippatch_state option" where
  "ini_patch_lines junk content st =
     (let (s, rest) = f_gets 511 content
      in case ini_patch_line junk s st of None \<Rightarrow> None | Some st1 \<Rightarrow> if rest = [] then Some st1 else ini_patch_lines junk rest st1)"
  by pat_completeness auto
termination
proof (relation "measure (\<lambda>(junk, content, st). length content)", goal_cases)
  case (2 junk content st x s rest st1)
  have "content \<noteq> []" using 2 by auto
  then show ?case using 2 f_gets_consumes [of content 511] by (cases "f_gets 511 content") simp
qed simp

declare ini_patch_lines.simps [simp del]

text \<open>The content of the file, if it can be opened; \<open>junk0\<close> is what the line buffer holds at first.\<close>

definition ini_patch_parse :: "(nat \<Rightarrow> u8) \<Rightarrow> string \<Rightarrow> string option \<Rightarrow> ini_kip_sec_t list \<Rightarrow> (bool \<times> ini_kip_sec_t list) option" where
  "ini_patch_parse junk junk0 fp dst =
     (case fp of
        None \<Rightarrow> Some (True, dst)
      | Some content \<Rightarrow>
          (case ini_patch_lines junk content (dst, None, junk0) of
             None \<Rightarrow> None
           | Some (dst1, ksec, lbuf) \<Rightarrow> Some (False, case ksec of None \<Rightarrow> dst1 | Some k \<Rightarrow> dst1 @ [k])))"

end
