(* ===== verification/Pkg2_Patch.thy ===== *)
theory Pkg2_Patch
  imports Pkg2 Blz Kippatch Sd
begin

text \<open>
  Package2, second part: decompressing process images, applying patches to them, injecting the code of the
  emulated eMMC into the file system process, and joining the patches of the file with the built in ones.
\<close>

subsection \<open>Data\<close>

text \<open>
  An array of patches ends before the first without source bytes; \<open>None\<close> are patches that are not needed, a
  patch without length is an empty one.
\<close>

datatype patch_src = No_Check | Src "u8 list"

record kip1_patch_t =
  kp_offset :: u32
  kp_length :: u32
  kp_src :: patch_src
  kp_dst :: "u8 list"

record kip1_patchset_t =
  ps_name :: string
  ps_patches :: "kip1_patch_t list option"

record kip1_id_t =
  id_name :: string
  id_hash :: "u8 list"
  id_patchset :: "kip1_patchset_t list"

definition GET_KIP_PATCH_SECTION :: "u32 \<Rightarrow> u32" where
  "GET_KIP_PATCH_SECTION x = drop_bit 29 x AND 7"

definition GET_KIP_PATCH_OFFSET :: "u32 \<Rightarrow> u32" where
  "GET_KIP_PATCH_OFFSET x = x AND NOT (push_bit 29 7)"

text \<open>The name of an image, up to the first zero byte.\<close>

definition kip_str :: "pkg2_kip1_t \<Rightarrow> string" where
  "kip_str k = map (\<lambda>b. char_of (unat b)) (takeWhile (\<lambda>b. b \<noteq> 0) (drop 4 (kip_bytes k)))"

text \<open>Kernels by the start of their hash, over the table of those that are known.\<close>

record 'p pkg2_kernel_id_t =
  kernel_hash :: "u8 list"
  kernel_patchset :: 'p

definition pkg2_identify :: "'p pkg2_kernel_id_t list \<Rightarrow> u8 list \<Rightarrow> 'p pkg2_kernel_id_t option" where
  "pkg2_identify kernel_ids hash = find (\<lambda>k. take 8 hash = kernel_hash k) kernel_ids"

subsection \<open>Decompression\<close>

text \<open>
  The sections one after the other: an error, the sections with their new sizes, the new data. \<open>None\<close> is a read past
  the image, or the decompressor leaving its buffer.
\<close>

definition decomp_needed :: "u32 \<Rightarrow> u8 \<Rightarrow> nat \<Rightarrow> bool" where
  "decomp_needed sects flags i \<longleftrightarrow> i < 3 \<and> bit sects i \<and> bit flags i"

fun decomp_sections :: "u32 \<Rightarrow> u8 \<Rightarrow> nat \<Rightarrow> pkg2_kip1_sec_t list \<Rightarrow> u8 list \<Rightarrow> (bool \<times> pkg2_kip1_sec_t list \<times> u8 list) option" where
  "decomp_sections sects flags i [] src = Some (False, [], [])"
| "decomp_sections sects flags i (s # ss) src =
     (let n = unat (size_comp s)
      in if length src < n then None
         else if \<not> decomp_needed sects flags i
         then map_option (\<lambda>(err, ss', d). (err, s # ss', take n src @ d)) (decomp_sections sects flags (Suc i) ss (drop n src))
         else case blz_uncompress_srcdest (take n src) (size_comp s) [] (size_decomp s) of
                None \<Rightarrow> None
              | Some (False, _) \<Rightarrow> Some (True, [], [])
              | Some (True, out) \<Rightarrow>
                  map_option (\<lambda>(err, ss', d). (err, s\<lparr>size_comp := size_decomp s\<rparr> # ss', out @ d)) (decomp_sections sects flags (Suc i) ss (drop n src)))"

definition new_kip_size :: "u32 \<Rightarrow> pkg2_kip1_t \<Rightarrow> nat" where
  "new_kip_size sects k =
     0x100 + sum_list (map (\<lambda>(i, s). unat (if decomp_needed sects (kip_flags k) i then size_decomp s else size_comp s)) (zip [0..<length (sections k)] (sections k)))"

text \<open>The image is left alone when no such section is compressed, or with an error; \<open>None\<close> is also a size that wraps.\<close>

definition decompress_kip :: "pkg2_kip1_info_t \<Rightarrow> u32 \<Rightarrow> (bool \<times> pkg2_kip1_info_t) option" where
  "decompress_kip ki sectsToDecomp =
     (let k = ki_kip1 ki; compClearMask = NOT sectsToDecomp
      in if ucast (kip_flags k) AND compClearMask = ucast (kip_flags k) then Some (False, ki)
         else if new_kip_size sectsToDecomp k \<ge> 2 ^ 32 then None
         else case decomp_sections sectsToDecomp (kip_flags k) 0 (sections k) (kip_data k) of
                None \<Rightarrow> None
              | Some (True, _) \<Rightarrow> Some (True, ki)
              | Some (False, ss, d) \<Rightarrow>
                  Some (False, \<lparr>ki_kip1 = k\<lparr>sections := ss, kip_flags := ucast (ucast (kip_flags k) AND compClearMask), kip_data := d\<rparr>,
                                ki_size = of_nat (0x100 + length d)\<rparr>))"

subsection \<open>The emulated eMMC\<close>

fun pmc_cap :: "u32 list \<Rightarrow> u32 list" where
  "pmc_cap [] = []"
| "pmc_cap (c # cs) = (if c = 0xFFFFFFFF then 0x07000E7F # cs else c # pmc_cap cs)"

text \<open>
  The sections of the image with the code in front of the first; only the data of three sections are
  copied, what is behind them is what the new memory holds.
\<close>

definition kipm_sections :: "u32 \<Rightarrow> pkg2_kip1_sec_t list \<Rightarrow> pkg2_kip1_sec_t list" where
  "kipm_sections inject_size ss =
     map (\<lambda>(i, s). if i = 0 then s\<lparr>size_decomp := size_decomp s + inject_size, size_comp := size_comp s + inject_size\<rparr>
                   else if i < KIP1_NUM_SECTIONS - 2 then s\<lparr>ks_offset := ks_offset s + inject_size\<rparr> else s) (zip [0..<length ss] ss)"

definition kipm_data :: "(nat \<Rightarrow> u8) \<Rightarrow> u8 list \<Rightarrow> pkg2_kip1_info_t \<Rightarrow> u8 list" where
  "kipm_data junk code ki =
     (let n = sum_list (map (\<lambda>s. unat (size_comp s)) (take 3 (sections (ki_kip1 ki))))
      in code @ take n (kip_data (ki_kip1 ki)) @ map junk [n..<unat (ki_size ki) - 0x100])"

definition kipm_fits :: "pkg2_kip1_info_t \<Rightarrow> bool" where
  "kipm_fits ki \<longleftrightarrow> 0x100 + sum_list (map (\<lambda>s. unat (size_comp s)) (take 3 (sections (ki_kip1 ki)))) \<le> unat (ki_size ki)"

text \<open>\<open>None\<close> is a file shorter than the capabilities, or data that do not fit into the new image.\<close>

definition kipm_inject ::
  "('w, 'f) sd_env \<Rightarrow> (nat \<Rightarrow> u8) \<Rightarrow> string \<Rightarrow> string \<Rightarrow> int \<Rightarrow> pkg2_kip1_info_t \<Rightarrow> 'w sd_state \<Rightarrow> (bool \<times> pkg2_kip1_info_t \<times> 'w sd_state) option" where
  "kipm_inject env junk kipm_path target_name fs_ver ki sd =
     (if kip_str (ki_kip1 ki) \<noteq> target_name then Some (True, ki, sd)
      else let (r, sd1) = sd_file_read env kipm_path sd
           in case r of
                None \<Rightarrow> Some (True, ki, sd1)
              | Some (data, sz) \<Rightarrow>
                  if sz < 0x80 \<or> length data < unat sz \<or> unat (ki_size ki) + unat sz - 0x80 \<ge> 2 ^ 32 \<or> \<not> kipm_fits ki then None
                  else let inject_size = sz - 0x80;
                           k = ki_kip1 ki;
                           c = map (\<lambda>i. get_le 4 data (4 * i)) [0..<32]
                       in Some (False, \<lparr>ki_kip1 = k\<lparr>caps := if fs_ver = 0 then pmc_cap c else c, sections := kipm_sections inject_size (sections k),
                                                 kip_data := kipm_data junk (take (unat inject_size) (drop 0x80 data)) ki\<rparr>,
                                        ki_size = ki_size ki + inject_size\<rparr>, sd1))"

subsection \<open>Applying patches\<close>

text \<open>An error, and the data of the image; \<open>None\<close> is a patch past the image, or bytes that are not there.\<close>

definition apply_patch :: "nat \<Rightarrow> kip1_patch_t \<Rightarrow> u8 list \<Rightarrow> (bool \<times> u8 list) option" where
  "apply_patch sect p data =
     (if kp_length p = 0 then Some (True, data)
      else let a = sect + unat (GET_KIP_PATCH_OFFSET (kp_offset p)); n = unat (kp_length p); old = take n (drop a data); new = take n (kp_dst p)
           in if a + n > length data \<or> length (kp_dst p) < n \<or> (case kp_src p of No_Check \<Rightarrow> False | Src s \<Rightarrow> length s < n) then None
              else if (case kp_src p of No_Check \<Rightarrow> False | Src s \<Rightarrow> old \<noteq> take n s \<and> old \<noteq> new) then Some (True, data)
              else Some (False, take a data @ new @ drop (a + n) data))"

fun apply_section :: "nat \<Rightarrow> nat \<Rightarrow> kip1_patch_t list \<Rightarrow> u8 list \<Rightarrow> (bool \<times> u8 list) option" where
  "apply_section idx sect [] data = Some (False, data)"
| "apply_section idx sect (p # ps) data =
     (if unat (GET_KIP_PATCH_SECTION (kp_offset p)) \<noteq> idx then apply_section idx sect ps data
      else case apply_patch sect p data of
             None \<Rightarrow> None
           | Some (True, d) \<Rightarrow> Some (True, d)
           | Some (False, d) \<Rightarrow> apply_section idx sect ps d)"

fun apply_sections :: "u32 \<Rightarrow> nat \<Rightarrow> nat \<Rightarrow> pkg2_kip1_sec_t list \<Rightarrow> kip1_patch_t list \<Rightarrow> u8 list \<Rightarrow> (bool \<times> u8 list) option" where
  "apply_sections sects idx sect [] ps data = Some (False, data)"
| "apply_sections sects idx sect (s # ss) ps data =
     (case (if bit sects idx then apply_section idx sect ps data else Some (False, data)) of
        None \<Rightarrow> None
      | Some (True, d) \<Rightarrow> Some (True, d)
      | Some (False, d) \<Rightarrow> apply_sections sects (Suc idx) (sect + unat (size_comp s)) ss ps d)"

text \<open>One set of patches for every request of its name; the requests that have been met are bits.\<close>

fun apply_requests :: "u32 \<Rightarrow> kip1_patchset_t \<Rightarrow> nat \<Rightarrow> string list \<Rightarrow> pkg2_kip1_t \<times> u32 \<Rightarrow> (bool \<times> pkg2_kip1_t \<times> u32) option" where
  "apply_requests sects ps i [] (k, applied) = Some (False, k, applied)"
| "apply_requests sects ps i (n # ns) (k, applied) =
     (if ps_name ps \<noteq> n then apply_requests sects ps (Suc i) ns (k, applied)
      else case ps_patches ps of
             None \<Rightarrow> apply_requests sects ps (Suc i) ns (k, applied OR push_bit i 1)
           | Some pl \<Rightarrow>
               (case apply_sections sects 0 0 (sections k) pl (kip_data k) of
                  None \<Rightarrow> None
                | Some (True, d) \<Rightarrow> Some (True, k\<lparr>kip_data := d\<rparr>, applied)
                | Some (False, d) \<Rightarrow> apply_requests sects ps (Suc i) ns (k\<lparr>kip_data := d\<rparr>, applied OR push_bit i 1)))"

text \<open>The name of the set that failed, if one did.\<close>

fun apply_sets :: "u32 \<Rightarrow> string list \<Rightarrow> kip1_patchset_t list \<Rightarrow> pkg2_kip1_t \<times> u32 \<Rightarrow> (string option \<times> pkg2_kip1_t \<times> u32) option" where
  "apply_sets sects names [] (k, applied) = Some (None, k, applied)"
| "apply_sets sects names (ps # pss) (k, applied) =
     (case apply_requests sects ps 0 names (k, applied) of
        None \<Rightarrow> None
      | Some (True, r) \<Rightarrow> Some (Some (ps_name ps), r)
      | Some (False, r) \<Rightarrow> apply_sets sects names pss r)"

text \<open>The sections with patches up to the first empty one of each requested set.\<close>

definition sections_affected :: "string list \<Rightarrow> kip1_patchset_t list \<Rightarrow> u32" where
  "sections_affected names pss =
     foldl (\<lambda>m ps. case ps_patches ps of
                     None \<Rightarrow> m
                   | Some pl \<Rightarrow> if ps_name ps \<in> set names
                                then foldl (\<lambda>m p. m OR push_bit (unat (GET_KIP_PATCH_SECTION (kp_offset p))) 1) m (takeWhile (\<lambda>p. kp_length p \<noteq> 0) pl)
                                else m) 0 pss"

subsection \<open>The patches of the file\<close>

text \<open>
  What the functions use: the engine, the SD card, the content of a file, and what allocated memory holds
  before it is written.
\<close>

record ('e, 'w, 'f) patch_env =
  patch_se :: "'e se_env"
  patch_sd :: "('w, 'f) sd_env"
  patch_file :: "string \<Rightarrow> string option"
  patch_junk :: "nat \<Rightarrow> u8"
  patch_lbuf :: string

text \<open>Patches of one name in a row become a set.\<close>

definition ext_patch :: "ini_patchset_t \<Rightarrow> kip1_patch_t" where
  "ext_patch pt =
     (if pt_length pt \<noteq> 0 then \<lparr>kp_offset = pt_offset pt, kp_length = pt_length pt, kp_src = Src (pt_src pt), kp_dst = pt_dst pt\<rparr>
      else \<lparr>kp_offset = 0, kp_length = 0, kp_src = Src [], kp_dst = []\<rparr>)"

fun ext_sets :: "ini_patchset_t list \<Rightarrow> kip1_patchset_t list" where
  "ext_sets [] = []"
| "ext_sets (pt # pts) =
     (case ext_sets pts of
        [] \<Rightarrow> [\<lparr>ps_name = pt_name pt, ps_patches = Some [ext_patch pt]\<rparr>]
      | ps # pss \<Rightarrow>
          if ps_name ps = pt_name pt then ps\<lparr>ps_patches := map_option (\<lambda>pl. ext_patch pt # pl) (ps_patches ps)\<rparr> # pss
          else \<lparr>ps_name = pt_name pt, ps_patches = Some [ext_patch pt]\<rparr> # ps # pss)"

text \<open>
  A section of the file joined to the identities; \<open>None\<close> is more than 256 identities, 15 sets of an identity or 31
  patches of a set, which do not fit into the arrays with their end marks.
\<close>

definition ext_join :: "ini_kip_sec_t \<Rightarrow> kip1_id_t list \<Rightarrow> kip1_id_t list option" where
  "ext_join sec ids =
     (let n = length (takeWhile (\<lambda>k. \<not> (id_name k = ksec_name sec \<and> id_hash k = ksec_hash sec)) ids);
          ids1 = (if n < length ids then ids else ids @ [\<lparr>id_name = ksec_name sec, id_hash = ksec_hash sec, id_patchset = []\<rparr>]);
          new = ext_sets (ksec_pts sec);
          old = id_patchset (ids1 ! n)
      in if length ids1 > 256 \<or> length old + max 1 (length new) > 15 \<or> (\<exists>ps \<in> set new. length (the (ps_patches ps)) > 31) then None
         else Some (ids1[n := (ids1 ! n)\<lparr>id_patchset := old @ new\<rparr>]))"

fun ext_join_all :: "ini_kip_sec_t list \<Rightarrow> kip1_id_t list \<Rightarrow> kip1_id_t list option" where
  "ext_join_all [] ids = Some ids"
| "ext_join_all (sec # secs) ids = (case ext_join sec ids of None \<Rightarrow> None | Some ids1 \<Rightarrow> ext_join_all secs ids1)"

text \<open>Once only; the identities, and whether the file has been looked at.\<close>

definition parse_external_kip_patches :: "('e, 'w, 'f) patch_env \<Rightarrow> kip1_id_t list \<times> bool \<Rightarrow> (kip1_id_t list \<times> bool) option" where
  "parse_external_kip_patches env st =
     (case st of (ids, ext_patches_parsed) \<Rightarrow>
        if ext_patches_parsed then Some st
        else case ini_patch_parse (patch_junk env) (patch_lbuf env) (patch_file env ''bootloader/patches.ini'') [] of
               None \<Rightarrow> None
             | Some (True, _) \<Rightarrow> Some (ids, True)
             | Some (False, secs) \<Rightarrow> map_option (\<lambda>ids1. (ids1, True)) (ext_join_all secs ids))"

subsection \<open>Patching the images\<close>

record ('e, 'w) patch_state =
  pt_ki :: pkg2_kip1_info_t
  pt_hash :: "u8 list"
  pt_applied :: u32
  emummc_patch_selected :: bool
  emummc_patch_apply :: bool
  pt_fs_ver :: int
  pt_engine :: 'e
  pt_sd :: "'w sd_state"

text \<open>The hash of the image, unless its first word says that it is there.\<close>

definition patch_hash :: "('e, 'w, 'f) patch_env \<Rightarrow> ('e, 'w) patch_state \<Rightarrow> ('e, 'w) patch_state" where
  "patch_hash env s =
     (if get_le 4 (pt_hash s) 0 \<noteq> (0 :: u32) then s
      else let (err, h, _, e1) = se_sha_hash_256_oneshot (patch_se env) (pt_hash s) (take (unat (ki_size (pt_ki s))) (kip_bytes (ki_kip1 (pt_ki s)))) (pt_engine s)
           in s\<lparr>pt_hash := if err then replicate 32 0 else h, pt_engine := e1\<rparr>)"

definition fs_ver_of :: "nat \<Rightarrow> int" where
  "fs_ver_of kip_id_idx = int kip_id_idx - (if kip_id_idx \<noteq> 0 then 1 else 0) - (if kip_id_idx > 17 then 2 else 0)"

text \<open>The code of the emulated eMMC; a name is the failure that is reported.\<close>

definition patch_emummc :: "('e, 'w, 'f) patch_env \<Rightarrow> nat \<Rightarrow> ('e, 'w) patch_state \<Rightarrow> (string option \<times> ('e, 'w) patch_state) option" where
  "patch_emummc env idx s =
     (if \<not> emummc_patch_apply s then Some (None, s)
      else let s1 = s\<lparr>pt_fs_ver := fs_ver_of idx\<rparr>
           in case kipm_inject (patch_sd env) (patch_junk env) ''bootloader/sys/emummc.kipm'' ''FS'' (pt_fs_ver s1) (pt_ki s1) (pt_sd s1) of
                None \<Rightarrow> None
              | Some (err, ki, sd) \<Rightarrow>
                  let s2 = s1\<lparr>pt_ki := ki, pt_sd := sd\<rparr>
                  in Some (if err then (Some ''emummc'', s2) else (None, s2\<lparr>emummc_patch_selected := False, emummc_patch_apply := False\<rparr>)))"

text \<open>One identity.\<close>

definition patch_id ::
  "('e, 'w, 'f) patch_env \<Rightarrow> string list \<Rightarrow> nat \<Rightarrow> kip1_id_t \<Rightarrow> ('e, 'w) patch_state \<Rightarrow> (string option \<times> ('e, 'w) patch_state) option" where
  "patch_id env names idx kid s =
     (if kip_str (ki_kip1 (pt_ki s)) \<noteq> id_name kid then Some (None, s)
      else if \<not> (\<exists>ps \<in> set (id_patchset kid). ps_name ps \<in> set names) \<and> \<not> emummc_patch_apply s then Some (None, s)
      else let s1 = patch_hash env s
           in if take 8 (pt_hash s1) \<noteq> id_hash kid then Some (None, s1)
              else let sects = sections_affected names (id_patchset kid) OR (if emummc_patch_apply s1 then 1 else 0)
                   in case decompress_kip (pt_ki s1) sects of
                        None \<Rightarrow> None
                      | Some (True, ki) \<Rightarrow> Some (Some (kip_str (ki_kip1 ki)), s1\<lparr>pt_ki := ki\<rparr>)
                      | Some (False, ki) \<Rightarrow>
                          (case apply_sets sects names (id_patchset kid) (ki_kip1 ki, pt_applied s1) of
                             None \<Rightarrow> None
                           | Some (Some name, k, applied) \<Rightarrow> Some (Some name, s1\<lparr>pt_ki := ki\<lparr>ki_kip1 := k\<rparr>, pt_applied := applied\<rparr>)
                           | Some (None, k, applied) \<Rightarrow> patch_emummc env idx (s1\<lparr>pt_ki := ki\<lparr>ki_kip1 := k\<rparr>, pt_applied := applied\<rparr>)))"

fun patch_ids ::
  "('e, 'w, 'f) patch_env \<Rightarrow> string list \<Rightarrow> nat \<Rightarrow> kip1_id_t list \<Rightarrow> ('e, 'w) patch_state \<Rightarrow> (string option \<times> ('e, 'w) patch_state) option" where
  "patch_ids env names idx [] s = Some (None, s)"
| "patch_ids env names idx (kid # kids) s =
     (case patch_id env names idx kid s of
        None \<Rightarrow> None
      | Some (Some name, s1) \<Rightarrow> Some (Some name, s1)
      | Some (None, s1) \<Rightarrow> patch_ids env names (Suc idx) kids s1)"

text \<open>All images of the list: the images with their patches, and the state of the last one.\<close>

fun patch_list ::
  "('e, 'w, 'f) patch_env \<Rightarrow> string list \<Rightarrow> kip1_id_t list \<Rightarrow> pkg2_kip1_info_t list \<Rightarrow> ('e, 'w) patch_state \<Rightarrow>
   (string option \<times> pkg2_kip1_info_t list \<times> ('e, 'w) patch_state) option" where
  "patch_list env names ids [] s = Some (None, [], s)"
| "patch_list env names ids (ki # kis) s =
     (case patch_ids env names 0 ids
             (s\<lparr>pt_ki := ki, pt_hash := replicate 32 0, emummc_patch_apply := emummc_patch_selected s \<and> kip_str (ki_kip1 ki) = ''FS''\<rparr>) of
        None \<Rightarrow> None
      | Some (Some name, s1) \<Rightarrow> Some (Some name, pt_ki s1 # kis, s1)
      | Some (None, s1) \<Rightarrow> map_option (\<lambda>(r, kis', s2). (r, pt_ki s1 # kis', s2)) (patch_list env names ids kis s1))"

subsection \<open>Requests\<close>

definition to_lower :: "char \<Rightarrow> char" where
  "to_lower c = (let n = of_char c :: nat in if 65 \<le> n \<and> n \<le> 90 then char_of (n + 0x20) else c)"

fun split_comma :: "string \<Rightarrow> string list" where
  "split_comma [] = [[]]"
| "split_comma (c # cs) =
     (if c = CHR '','' then [] # split_comma cs
      else case split_comma cs of [] \<Rightarrow> [[c]] | w # ws \<Rightarrow> (c # w) # ws)"

definition is_blank :: "char \<Rightarrow> bool" where
  "is_blank c \<longleftrightarrow> c = CHR '' '' \<or> c = CHR 0x09 \<or> c = CR \<or> c = LF"

definition trim_request :: "string \<Rightarrow> string" where
  "trim_request w = rev (dropWhile is_blank (rev (dropWhile is_blank w)))"

definition patch_requests :: "string \<Rightarrow> string list" where
  "patch_requests s = map trim_request (split_comma (map to_lower s))"

text \<open>Everything but the patch of the emulated eMMC and the built in one makes the file be looked at.\<close>

fun parse_for :: "('e, 'w, 'f) patch_env \<Rightarrow> string list \<Rightarrow> kip1_id_t list \<times> bool \<Rightarrow> (kip1_id_t list \<times> bool) option" where
  "parse_for env [] st = Some st"
| "parse_for env (n # ns) st =
     (if n = ''emummc'' \<or> n = ''nogc'' then parse_for env ns st
      else case parse_external_kip_patches env st of None \<Rightarrow> None | Some st1 \<Rightarrow> parse_for env ns st1)"

definition emummc_bits :: "string list \<Rightarrow> u32" where
  "emummc_bits names = foldl (\<lambda>m (i, n). if n = ''emummc'' then m OR push_bit i 1 else m) 0 (zip [0..<length names] names)"

text \<open>The first request that has not been met.\<close>

definition unmet :: "string list \<Rightarrow> u32 \<Rightarrow> string option" where
  "unmet names applied = map_option snd (find (\<lambda>(i, n). \<not> bit applied i) (zip [0..<length names] names))"

record ('e, 'w) patch_glob =
  kip_id_sets :: "kip1_id_t list"
  ext_parsed :: bool
  g_fs_ver :: int
  g_engine :: 'e
  g_sd :: "'w sd_state"

definition pkg2_get_ids :: "('e, 'w) patch_glob \<Rightarrow> kip1_id_t list \<times> u32" where
  "pkg2_get_ids g = (kip_id_sets g, of_nat (length (kip_id_sets g)))"

text \<open>
  The result is the name of a patch or an image that failed, or nothing. The variables of the last image do
  not matter; \<open>None\<close> is an access outside the arrays.
\<close>

definition pkg2_patch_kips ::
  "('e, 'w, 'f) patch_env \<Rightarrow> pkg2_kip1_info_t list \<Rightarrow> string option \<Rightarrow> ('e, 'w) patch_glob \<Rightarrow>
   (string option \<times> pkg2_kip1_info_t list \<times> ('e, 'w) patch_glob) option" where
  "pkg2_patch_kips env info patch_names g =
     (case patch_names of
        None \<Rightarrow> Some (None, info, g)
      | Some [] \<Rightarrow> Some (None, info, g)
      | Some str \<Rightarrow>
          let names = patch_requests str
          in if length names \<ge> 32 then Some (Some ''too_many_patches'', info, g)
             else case parse_for env names (kip_id_sets g, ext_parsed g) of
                    None \<Rightarrow> None
                  | Some (ids, parsed) \<Rightarrow>
                      let g1 = g\<lparr>kip_id_sets := ids, ext_parsed := parsed\<rparr>;
                          s0 = \<lparr>pt_ki = \<lparr>ki_kip1 = kip_hdr_of (replicate 256 0), ki_size = 0\<rparr>, pt_hash = [], pt_applied = emummc_bits names,
                                emummc_patch_selected = (''emummc'' \<in> set names), emummc_patch_apply = False,
                                pt_fs_ver = g_fs_ver g1, pt_engine = g_engine g1, pt_sd = g_sd g1\<rparr>
                      in (case patch_list env names ids info s0 of
                            None \<Rightarrow> None
                          | Some (r, info1, s1) \<Rightarrow>
                              let g2 = g1\<lparr>g_fs_ver := pt_fs_ver s1, g_engine := pt_engine s1, g_sd := pt_sd s1\<rparr>
                              in Some (case r of
                                         Some name \<Rightarrow> (Some name, info1, g2)
                                       | None \<Rightarrow>
                                           (case unmet names (pt_applied s1) of
                                              Some n \<Rightarrow> (Some n, info1, g2)
                                            | None \<Rightarrow> (if emummc_patch_selected s1 then Some ''emummc'' else None, info1, g2)))))"

end
