(* ===== verification/Pkg2_Apply.thy ===== *)
theory Pkg2_Apply
  imports Pkg2_Patch
begin

text \<open>
  What patching does to an image: decompression replaces the compressed sections, patches change exactly
  their bytes, and a run without a failure has met every request.
\<close>

subsection \<open>Decompression\<close>

text \<open>A section, its bytes, and the bytes it has afterwards.\<close>

definition sec_plain :: "u32 \<Rightarrow> u8 \<Rightarrow> nat \<Rightarrow> pkg2_kip1_sec_t \<Rightarrow> u8 list \<Rightarrow> u8 list \<Rightarrow> bool" where
  "sec_plain sects flags i s c d \<longleftrightarrow> unat (size_comp s) = length c \<and>
     (if decomp_needed sects flags i
      then \<exists>pre ts pad. c = blz_file pre ts pad \<and> blz_fits pre ts pad \<and> unat (size_decomp s) = length pre + out_len ts \<and> d = pre @ blz_expand ts []
      else d = c)"

fun secs_plain :: "u32 \<Rightarrow> u8 \<Rightarrow> nat \<Rightarrow> pkg2_kip1_sec_t list \<Rightarrow> u8 list list \<Rightarrow> u8 list list \<Rightarrow> bool" where
  "secs_plain sects flags i [] [] [] \<longleftrightarrow> True"
| "secs_plain sects flags i (s # ss) (c # cs) (d # ds) \<longleftrightarrow> sec_plain sects flags i s c d \<and> secs_plain sects flags (Suc i) ss cs ds"
| "secs_plain sects flags i _ _ _ \<longleftrightarrow> False"

lemma length_expand: "blz_ok i ts (length S) \<Longrightarrow> length (blz_expand ts S) = length S + out_len ts"
proof (induction ts arbitrary: i S)
  case (Cons t ts)
  let ?j = "if i = 0 then 7 else i - 1"
  have t: "elem_ok t (length S)" "blz_ok ?j ts (length (elem_out t S))" using Cons.prems length_elem_out [of t S] by (simp_all add: Let_def)
  then show ?case using Cons.IH [OF t(2)] length_elem_out [OF t(1)] by (simp add: blz_expand_def out_len_Cons)
qed (simp add: blz_expand_def out_len_def)

lemma sec_plain_blz:
  assumes "sec_plain sects flags i s c d" "decomp_needed sects flags i"
  shows "blz_uncompress_srcdest c (size_comp s) [] (size_decomp s) = Some (True, d)" "length d = unat (size_decomp s)"
proof -
  obtain pre ts pad where x: "c = blz_file pre ts pad" "blz_fits pre ts pad" "unat (size_decomp s) = length pre + out_len ts" "d = pre @ blz_expand ts []"
    "unat (size_comp s) = length c" using assms by (auto simp: sec_plain_def)
  have "size_comp s = of_nat (length c)" "size_decomp s = of_nat (length pre + out_len ts)" using x(3,5) by (metis of_nat_unat ucast_id)+
  then show "blz_uncompress_srcdest c (size_comp s) [] (size_decomp s) = Some (True, d)" using blz_decompress [OF x(2)] x(1,4) by simp
  show "length d = unat (size_decomp s)" using x(2-4) length_expand [of 0 ts "[]"] by (simp add: blz_fits_def)
qed

lemma decomp_sections_plain:
  "secs_plain sects flags i ss cs ds \<Longrightarrow>
   \<exists>ss'. decomp_sections sects flags i ss (concat cs @ rest) = Some (False, ss', concat ds) \<and> map (\<lambda>s. unat (size_comp s)) ss' = map length ds"
proof (induction sects flags i ss cs ds rule: secs_plain.induct)
  case (2 sects flags i s ss c cs d ds)
  then obtain ss' where ih: "decomp_sections sects flags (Suc i) ss (concat cs @ rest) = Some (False, ss', concat ds)"
    "map (\<lambda>s. unat (size_comp s)) ss' = map length ds" by auto
  have p: "sec_plain sects flags i s c d" using 2 by simp
  then have n: "unat (size_comp s) = length c" by (simp add: sec_plain_def)
  show ?case
  proof (cases "decomp_needed sects flags i")
    case True
    then show ?thesis using sec_plain_blz [OF p True] n ih by simp
  next
    case False
    then show ?thesis using p n ih by (simp add: sec_plain_def)
  qed
qed simp_all

text \<open>Without a section to decompress nothing is needed, and the image stays.\<close>

lemma flags_kept_bits:
  fixes flags :: u8
  assumes "ucast flags AND NOT sects = (ucast flags :: u32)" "i < 8"
  shows "\<not> (bit sects i \<and> bit flags i)"
proof
  assume b: "bit sects i \<and> bit flags i"
  have "bit (ucast flags AND NOT sects :: u32) i = bit (ucast flags :: u32) i" using assms(1) by simp
  then show False using b assms(2) by (simp add: bit_and_iff bit_not_iff bit_ucast_iff)
qed

lemma secs_plain_same:
  "secs_plain sects flags i ss cs ds \<Longrightarrow> (\<And>j. \<not> decomp_needed sects flags j) \<Longrightarrow> ds = cs \<and> map (\<lambda>s. unat (size_comp s)) ss = map length cs"
  by (induction sects flags i ss cs ds rule: secs_plain.induct) (simp_all add: sec_plain_def)

lemma calc_kip1_size_sum: "pkg2_calc_kip1_size k = of_nat (0x100 + sum_list (map (\<lambda>s. unat (size_comp s)) (sections k)))"
proof -
  have "foldl (\<lambda>n s. n + size_comp s) a ss = a + of_nat (sum_list (map (\<lambda>s. unat (size_comp s)) ss))" for a and ss :: "pkg2_kip1_sec_t list"
    by (induction ss arbitrary: a) simp_all
  then show ?thesis by (simp add: pkg2_calc_kip1_size_def)
qed

text \<open>
  C14. Decompressing an image whose compressed sections are encoded files makes the image with these sections in
  the clear and the others as they were; the sizes in the header and of the image are the new ones, and the
  flags of the sections are cleared.
\<close>

theorem decompress_kip_sections:
  fixes ki :: pkg2_kip1_info_t
  defines "k \<equiv> ki_kip1 ki"
  assumes "secs_plain sects (kip_flags k) 0 (sections k) cs ds" "kip_data k = concat cs" "ki_size ki = pkg2_calc_kip1_size k" "new_kip_size sects k < 2 ^ 32"
  shows "\<exists>ki'. decompress_kip ki sects = Some (False, ki') \<and> kip_data (ki_kip1 ki') = concat ds \<and> map (\<lambda>s. unat (size_comp s)) (sections (ki_kip1 ki')) = map length ds \<and>
    ki_size ki' = pkg2_calc_kip1_size (ki_kip1 ki') \<and> kip_flags (ki_kip1 ki') = kip_flags k AND NOT (ucast sects) \<and>
    kip_name (ki_kip1 ki') = kip_name k \<and> tid (ki_kip1 ki') = tid k \<and> caps (ki_kip1 ki') = caps k"
proof -
  have fl: "ucast (ucast (kip_flags k) AND NOT sects) = kip_flags k AND NOT (ucast sects)"
    by (rule bit_word_eqI) (simp add: bit_simps)
  show ?thesis
  proof (cases "ucast (kip_flags k) AND NOT sects = (ucast (kip_flags k) :: u32)")
    case True
    have "\<not> decomp_needed sects (kip_flags k) j" for j using flags_kept_bits [OF True, of j] by (auto simp: decomp_needed_def)
    then have "ds = cs" "map (\<lambda>s. unat (size_comp s)) (sections k) = map length cs" using secs_plain_same [OF assms(2)] by simp_all
    moreover have "ucast (ucast (kip_flags k) :: u32) = kip_flags k" by (rule bit_word_eqI) (simp add: bit_simps)
    then have "kip_flags k = kip_flags k AND NOT (ucast sects)" using fl True by metis
    moreover have "decompress_kip ki sects = Some (False, ki)" using True by (simp add: decompress_kip_def k_def Let_def)
    ultimately show ?thesis using assms(3,4) by (simp add: k_def)
  next
    case False
    obtain ss' where x: "decomp_sections sects (kip_flags k) 0 (sections k) (kip_data k) = Some (False, ss', concat ds)" "map (\<lambda>s. unat (size_comp s)) ss' = map length ds"
      using decomp_sections_plain [OF assms(2), of "[]"] assms(3) by auto
    define ki' where "ki' = \<lparr>ki_kip1 = k\<lparr>sections := ss', kip_flags := ucast (ucast (kip_flags k) AND NOT sects), kip_data := concat ds\<rparr>, ki_size = of_nat (0x100 + length (concat ds))\<rparr>"
    have "decompress_kip ki sects = Some (False, ki')"
      using False x(1) assms(5) by (simp add: decompress_kip_def k_def [symmetric] Let_def ki'_def not_le)
    moreover have "ki_size ki' = pkg2_calc_kip1_size (ki_kip1 ki')" using x(2) by (simp add: calc_kip1_size_sum ki'_def length_concat)
    ultimately show ?thesis using x(2) fl by (intro exI [of _ ki']) (simp add: ki'_def)
  qed
qed

subsection \<open>Patches\<close>

text \<open>The patches that are applied, in their order, each with the start of its section.\<close>

definition patch_seq :: "u32 \<Rightarrow> nat \<Rightarrow> nat \<Rightarrow> pkg2_kip1_sec_t list \<Rightarrow> kip1_patch_t list \<Rightarrow> (nat \<times> kip1_patch_t) list" where
  "patch_seq sects idx sect ss ps =
     concat (map (\<lambda>j. if bit sects (idx + j)
                      then map (\<lambda>p. (sect + sum_list (map (\<lambda>s. unat (size_comp s)) (take j ss)), p)) (filter (\<lambda>p. unat (GET_KIP_PATCH_SECTION (kp_offset p)) = idx + j) ps)
                      else []) [0..<length ss])"

fun apply_all :: "(nat \<times> kip1_patch_t) list \<Rightarrow> u8 list \<Rightarrow> (bool \<times> u8 list) option" where
  "apply_all [] d = Some (False, d)"
| "apply_all ((a, p) # qs) d =
     (case apply_patch a p d of None \<Rightarrow> None | Some (True, d1) \<Rightarrow> Some (True, d1) | Some (False, d1) \<Rightarrow> apply_all qs d1)"

lemma apply_all_append:
  "apply_all (xs @ ys) d = (case apply_all xs d of None \<Rightarrow> None | Some (True, d1) \<Rightarrow> Some (True, d1) | Some (False, d1) \<Rightarrow> apply_all ys d1)"
  by (induction xs d rule: apply_all.induct) (auto split: option.splits bool.splits)

lemma apply_section_all: "apply_section idx sect ps d = apply_all (map (\<lambda>p. (sect, p)) (filter (\<lambda>p. unat (GET_KIP_PATCH_SECTION (kp_offset p)) = idx) ps)) d"
  by (induction idx sect ps d rule: apply_section.induct) (auto split: option.splits bool.splits)

lemma patch_seq_Cons:
  "patch_seq sects idx sect (s # ss) ps =
     (if bit sects idx then map (\<lambda>p. (sect, p)) (filter (\<lambda>p. unat (GET_KIP_PATCH_SECTION (kp_offset p)) = idx) ps) else []) @
     patch_seq sects (Suc idx) (sect + unat (size_comp s)) ss ps"
  unfolding patch_seq_def length_Cons upt_conv_Cons [OF zero_less_Suc] map_Suc_upt [symmetric] list.map concat.simps map_map
  by (simp add: comp_def add.assoc cong: if_cong)

lemma apply_sections_all: "apply_sections sects idx sect ss ps d = apply_all (patch_seq sects idx sect ss ps) d"
proof (induction sects idx sect ss ps d rule: apply_sections.induct)
  case (1 sects idx sect ps d)
  then show ?case by (simp add: patch_seq_def)
next
  case (2 sects idx sect s ss ps d)
  then show ?case unfolding patch_seq_Cons apply_all_append by (auto simp: apply_section_all split: option.splits bool.splits)
qed

text \<open>Where a patch is, and its new bytes.\<close>

definition patch_pos :: "nat \<times> kip1_patch_t \<Rightarrow> nat" where
  "patch_pos q = fst q + unat (GET_KIP_PATCH_OFFSET (kp_offset (snd q)))"

definition patch_len :: "nat \<times> kip1_patch_t \<Rightarrow> nat" where
  "patch_len q = unat (kp_length (snd q))"

definition patch_range :: "nat \<times> kip1_patch_t \<Rightarrow> nat set" where
  "patch_range q = {patch_pos q..<patch_pos q + patch_len q}"

definition patch_new :: "nat \<times> kip1_patch_t \<Rightarrow> u8 list" where
  "patch_new q = take (patch_len q) (kp_dst (snd q))"

text \<open>The bytes are there already, or will be, when the patch is applied without an error.\<close>

definition patch_there :: "nat \<times> kip1_patch_t \<Rightarrow> u8 list \<Rightarrow> bool" where
  "patch_there q d \<longleftrightarrow> take (patch_len q) (drop (patch_pos q) d) = patch_new q"

lemma apply_patch_ok:
  assumes "apply_patch a p d = Some (False, d1)"
  shows "length d1 = length d" "\<And>i. i \<notin> patch_range (a, p) \<Longrightarrow> d1 ! i = d ! i" "patch_there (a, p) d1"
    "\<And>d2. length d2 = length d \<Longrightarrow> patch_there (a, p) d2 \<Longrightarrow> apply_patch a p d2 = Some (False, d2)"
proof -
  let ?a = "patch_pos (a, p)" and ?n = "patch_len (a, p)" and ?new = "patch_new (a, p)"
  have x: "kp_length p \<noteq> 0" "?a + ?n \<le> length d" "?n \<le> length (kp_dst p)" "case kp_src p of No_Check \<Rightarrow> True | Src s \<Rightarrow> ?n \<le> length s"
    "d1 = take ?a d @ ?new @ drop (?a + ?n) d"
    using assms by (auto simp: apply_patch_def Let_def patch_pos_def patch_len_def patch_new_def not_less split: if_splits patch_src.splits)
  have ln: "length ?new = ?n" using x(3) by (simp add: patch_new_def)
  show "length d1 = length d" using x(2,5) ln by simp
  show "d1 ! i = d ! i" if "i \<notin> patch_range (a, p)" for i using that x(2,5) ln by (auto simp: patch_range_def nth_append)
  show "patch_there (a, p) d1" using x(2,5) ln by (simp add: patch_there_def)
  show "apply_patch a p d2 = Some (False, d2)" if l: "length d2 = length d" and t: "patch_there (a, p) d2" for d2
  proof -
    have "d2 = take ?a d2 @ take ?n (drop ?a d2) @ drop (?a + ?n) d2" by (metis append_take_drop_id drop_drop add.commute)
    then have "take ?a d2 @ ?new @ drop (?a + ?n) d2 = d2" using t by (simp add: patch_there_def)
    then show ?thesis using x l t
      by (auto simp: apply_patch_def Let_def patch_there_def patch_pos_def patch_len_def patch_new_def split: patch_src.splits)
  qed
qed

lemma patch_there_keep:
  assumes "patch_there q d" "length d1 = length d" "\<And>i. i \<in> patch_range q \<Longrightarrow> d1 ! i = d ! i"
  shows "patch_there q d1"
proof -
  have "take (patch_len q) (drop (patch_pos q) d1) = take (patch_len q) (drop (patch_pos q) d)"
    using assms(2,3) by (intro nth_equalityI) (auto simp: patch_range_def)
  then show ?thesis using assms(1) by (simp add: patch_there_def)
qed

fun ranges_disjoint :: "(nat \<times> kip1_patch_t) list \<Rightarrow> bool" where
  "ranges_disjoint [] \<longleftrightarrow> True"
| "ranges_disjoint (q # qs) \<longleftrightarrow> (\<forall>r \<in> set qs. patch_range q \<inter> patch_range r = {}) \<and> ranges_disjoint qs"

lemma apply_all_ok:
  "apply_all qs d = Some (False, d') \<Longrightarrow> length d' = length d \<and> (\<forall>i. i \<notin> (\<Union>q \<in> set qs. patch_range q) \<longrightarrow> d' ! i = d ! i) \<and>
    (ranges_disjoint qs \<longrightarrow> (\<forall>q \<in> set qs. patch_there q d') \<and> (\<forall>d2. length d2 = length d \<longrightarrow> (\<forall>q \<in> set qs. patch_there q d2) \<longrightarrow> apply_all qs d2 = Some (False, d2)))"
proof (induction qs d rule: apply_all.induct)
  case (2 a p qs d)
  from 2(2) obtain d1 where x: "apply_patch a p d = Some (False, d1)" "apply_all qs d1 = Some (False, d')" by (auto split: option.splits bool.splits)
  note h = apply_patch_ok [OF x(1)]
  note I = 2(1) [OF x(1) refl refl x(2)]
  note ih = I [THEN conjunct1] I [THEN conjunct2, THEN conjunct1] I [THEN conjunct2, THEN conjunct2]
  have t: "patch_there (a, p) d'" if dj: "ranges_disjoint ((a, p) # qs)"
  proof (rule patch_there_keep [OF h(3) ih(1)])
    fix i
    assume i: "i \<in> patch_range (a, p)"
    have "i \<notin> patch_range q" if "q \<in> set qs" for q using dj that i by fastforce
    then have "i \<notin> (\<Union>q \<in> set qs. patch_range q)" by blast
    then show "d' ! i = d1 ! i" using ih(2) by blast
  qed
  have again: "apply_all ((a, p) # qs) d2 = Some (False, d2)" if "ranges_disjoint ((a, p) # qs)" "length d2 = length d" "\<forall>q \<in> set ((a, p) # qs). patch_there q d2" for d2
  proof -
    have "apply_patch a p d2 = Some (False, d2)" using that by (intro h(4)) simp_all
    moreover have "apply_all qs d2 = Some (False, d2)" using ih(3) that h(1) by simp
    ultimately show ?thesis by simp
  qed
  have len: "length d' = length d" using ih(1) h(1) by simp
  have out: "d' ! i = d ! i" if "i \<notin> (\<Union>q \<in> set ((a, p) # qs). patch_range q)" for i
  proof -
    have "i \<notin> patch_range (a, p)" "i \<notin> (\<Union>q \<in> set qs. patch_range q)" using that by auto
    then show ?thesis using ih(2) h(2) by metis
  qed
  have there: "\<forall>q \<in> set ((a, p) # qs). patch_there q d'" if "ranges_disjoint ((a, p) # qs)" using t that ih(3) by simp
  show ?case using len out there again by blast
qed simp

text \<open>
  C12. Patches that apply without a failure leave the image as long as it was and change nothing outside their
  ranges; when these are disjoint, each range holds its new bytes, and applying the patches again succeeds and
  changes nothing.
\<close>

theorem kip_patches_exact:
  assumes "apply_sections sects 0 0 ss ps data = Some (False, data')"
  defines "qs \<equiv> patch_seq sects 0 0 ss ps"
  shows "length data' = length data \<and> (\<forall>i. i \<notin> (\<Union>q \<in> set qs. patch_range q) \<longrightarrow> data' ! i = data ! i) \<and>
    (ranges_disjoint qs \<longrightarrow> (\<forall>q \<in> set qs. patch_there q data') \<and> apply_sections sects 0 0 ss ps data' = Some (False, data'))"
proof -
  have "apply_all qs data = Some (False, data')" using assms(1) by (simp add: apply_sections_all qs_def)
  from apply_all_ok [OF this] show ?thesis by (simp add: apply_sections_all qs_def)
qed

subsection \<open>Requests\<close>









lemma patch_hash_sel [simp]:
  "pt_ki (patch_hash env s) = pt_ki s" "pt_applied (patch_hash env s) = pt_applied s"
  "emummc_patch_selected (patch_hash env s) = emummc_patch_selected s" "emummc_patch_apply (patch_hash env s) = emummc_patch_apply s"
  by (simp_all add: patch_hash_def Let_def split_def)










end
