(* ===== verification/Se_Doc.thy ===== *)
theory Se_Doc
  imports Se_Modes
begin

text \<open>
  What the driver's AES modes compute. The engine is characterised by its documentation, over a view of
  its state: the words of the key table, the linear counter and the hash registers. Under it the
  counter mode is the exclusive or with the key stream of the counter, for every length, the key table
  holds what was written, and the CMAC is the one of SP 800-38B.
\<close>

subsection \<open>The documented engine\<close>

record se_view =
  kt :: "u32 \<Rightarrow> u32"
  kt_addr :: u32
  kt_dst :: u32
  vctr :: "u32 list"

definition table_quad :: "se_view \<Rightarrow> u32 \<Rightarrow> u32 \<Rightarrow> u8 list" where
  "table_quad v ks q = bytes_of_words (map (\<lambda>i. kt v (keytable_addr ks q i)) [0..<4])"

abbreviation key128 :: "se_view \<Rightarrow> u32 \<Rightarrow> u8 list" where
  "key128 v ks \<equiv> table_quad v ks KEYS_0_3"

text \<open>Writes of the registers that select and fill the tables.\<close>

definition se_regs_doc :: "'e se_env \<Rightarrow> ('e \<Rightarrow> se_view) \<Rightarrow> bool" where
  "se_regs_doc env V \<longleftrightarrow>
     (\<forall>x e. V (se_write env SE_CRYPTO_KEYTABLE_ADDR_REG x e) = (V e)\<lparr>kt_addr := x\<rparr>) \<and>
     (\<forall>x e. V (se_write env SE_CRYPTO_KEYTABLE_DATA_REG x e) = (V e)\<lparr>kt := (kt (V e))(kt_addr (V e) := x)\<rparr>) \<and>
     (\<forall>x e. V (se_write env SE_CRYPTO_KEYTABLE_DST_REG x e) = (V e)\<lparr>kt_dst := x\<rparr>) \<and>
     (\<forall>x e. V (se_write env SE_SPARE_REG x e) = V e) \<and>
     (\<forall>i < 4. \<forall>x e. V (se_write env (SE_CRYPTO_LINEAR_CTR_REG + 4 * of_nat i) x e) = (V e)\<lparr>vctr := (vctr (V e))[i := x]\<rparr>) \<and>
     (\<forall>e. length (vctr (V e)) = 4)"

text \<open>Counter mode: block \<open>i\<close> of the key stream is the cipher of the counter after \<open>i\<close> increments.\<close>

definition ctr_block :: "(u8 list \<Rightarrow> bool \<Rightarrow> u8 list \<Rightarrow> u8 list) \<Rightarrow> (u32 list \<Rightarrow> u32 list) \<Rightarrow> u8 list \<Rightarrow> u32 list \<Rightarrow> nat \<Rightarrow> u8 list" where
  "ctr_block F inc key c i = F key True (bytes_of_words ((inc ^^ i) c))"

definition ctr_stream :: "(u8 list \<Rightarrow> bool \<Rightarrow> u8 list \<Rightarrow> u8 list) \<Rightarrow> (u32 list \<Rightarrow> u32 list) \<Rightarrow> u8 list \<Rightarrow> u32 list \<Rightarrow> nat \<Rightarrow> u8 list" where
  "ctr_stream F inc key c n = concat (map (ctr_block F inc key c) [0..<n])"

definition with_flags :: "u32 \<Rightarrow> bool \<Rightarrow> bool \<Rightarrow> u32" where
  "with_flags cc mccif updated = (let c = (if mccif then cc OR SE_CRYPTO_MEMIF MEMIF_MCCIF else cc) in if updated then c OR SE_CRYPTO_IV_SEL IV_UPDATED else c)"

lemma with_flags_intro:
  "(if m then cc OR SE_CRYPTO_MEMIF MEMIF_MCCIF else cc) = with_flags cc m False"
  "with_flags cc m False OR SE_CRYPTO_IV_SEL IV_UPDATED = with_flags cc m True"
  by (simp_all add: with_flags_def Let_def)

definition se_ctr_doc :: "'e se_env \<Rightarrow> ('e \<Rightarrow> se_view) \<Rightarrow> (u8 list \<Rightarrow> bool \<Rightarrow> u8 list \<Rightarrow> u8 list) \<Rightarrow> (u32 list \<Rightarrow> u32 list) \<Rightarrow> bool" where
  "se_ctr_doc env V F inc \<longleftrightarrow>
     (\<forall>c. length c = 4 \<longrightarrow> length (inc c) = 4) \<and>
     (\<forall>key enc b. length b = 16 \<longrightarrow> length (F key enc b) = 16) \<and>
     (\<forall>ks mccif updated src e. ks < 16 \<and> src \<noteq> [] \<and> length src mod 16 = 0 \<and> length src \<le> SE_LL_MAX_SIZE \<longrightarrow>
        (\<exists>e'. se_start env ctr_config (with_flags (ctr_crypto_config ks) mccif updated) (of_nat (length src div 16) - 1) src e =
             (False, xor_block src (ctr_stream F inc (key128 (V e) ks) (vctr (V e)) (length src div 16)), e') \<and>
           V e' = (V e)\<lparr>vctr := (inc ^^ (length src div 16)) (vctr (V e))\<rparr>))"

subsection \<open>Counter mode\<close>

lemma counter_set_view:
  assumes "se_regs_doc env V" "length ctr = 16"
  shows "V (se_aes_counter_set env ctr e) = (V e)\<lparr>vctr := words_of_bytes ctr\<rparr>"
proof -
  have w: "V (se_write env (SE_CRYPTO_LINEAR_CTR_REG + 4 * of_nat i) x e) = (V e)\<lparr>vctr := (vctr (V e))[i := x]\<rparr>" if "i < 4" for i x e
    using assms(1) that by (simp add: se_regs_doc_def)
  have l: "length (vctr (V e)) = 4" using assms(1) by (simp add: se_regs_doc_def)
  have lw: "length (words_of_bytes ctr) = 4" using assms(2) by simp
  have "V (foldl (\<lambda>e i. se_write env (SE_CRYPTO_LINEAR_CTR_REG + 4 * of_nat i) (ws ! i) e) e [0..<n]) =
      (V e)\<lparr>vctr := take n ws @ drop n (vctr (V e))\<rparr>" if "n \<le> 4" "length ws = 4" for n ws
    using that
  proof (induction n)
    case (Suc n)
    have "drop n (vctr (V e)) = vctr (V e) ! n # drop (Suc n) (vctr (V e))" using Suc.prems l by (simp add: Cons_nth_drop_Suc)
    then have "(take n ws @ drop n (vctr (V e)))[n := ws ! n] = take (Suc n) ws @ drop (Suc n) (vctr (V e))"
      using Suc.prems by (simp add: list_update_append take_Suc_conv_app_nth)
    then show ?case using Suc w by simp
  qed simp
  from this [of 4 "words_of_bytes ctr"] show ?thesis using l lw by (simp add: se_aes_counter_set_def)
qed

lemma length_inc_pow:
  fixes inc :: "u32 list \<Rightarrow> u32 list"
  assumes "\<forall>c. length c = 4 \<longrightarrow> length (inc c) = 4" "length c = 4"
  shows "length ((inc ^^ i) c) = 4"
  using assms by (induction i) auto

lemma ctr_block_pow: "ctr_block F inc key ((inc ^^ k) c) i = ctr_block F inc key c (k + i)"
  by (simp add: ctr_block_def add.commute [of k] funpow_add)

lemma ctr_stream_Suc: "ctr_stream F inc key c (Suc n) = ctr_stream F inc key c n @ ctr_block F inc key c n"
  by (simp add: ctr_stream_def)

lemma ctr_block_0: "ctr_stream F inc key c (Suc 0) = ctr_block F inc key c 0"
  by (simp add: ctr_stream_def)

lemma xor_block_append: "length a = length c \<Longrightarrow> xor_block (a @ b) (c @ d) = xor_block a c @ xor_block b d"
  by (simp add: xor_block_def)

lemma take_xor_block: "take n (xor_block a b) = xor_block (take n a) b"
  by (auto simp: xor_block_def intro!: nth_equalityI)

lemma xor_block_take_right: "length a \<le> n \<Longrightarrow> xor_block a (take n b) = xor_block a b"
  by (auto simp: xor_block_def intro!: nth_equalityI)

text \<open>
  The output of any length: the key stream continues through the aligned part into the padded block.
\<close>

lemma se_ctr_start:
  assumes "se_ctr_doc env V F inc" "src \<noteq> []" "length src mod 16 = 0" "length src \<le> SE_LL_MAX_SIZE" "ks < 16"
  shows "\<exists>e'. se_execute_oneshot env ctr_config (with_flags (ctr_crypto_config ks) mccif updated) (of_nat (length src div 16) - 1) dst src e =
      (False, xor_block src (ctr_stream F inc (key128 (V e) ks) (vctr (V e)) (length src div 16)), e') \<and>
    V e' = (V e)\<lparr>vctr := (inc ^^ (length src div 16)) (vctr (V e))\<rparr>"
  using assms by (auto simp: se_ctr_doc_def se_execute_oneshot_def)

lemma length_ctr_stream:
  assumes "se_ctr_doc env V F inc" "length c = 4"
  shows "length (ctr_stream F inc key c n) = 16 * n"
proof (induction n)
  case (Suc n)
  have "length ((inc ^^ n) c) = 4" using assms by (intro length_inc_pow) (auto simp: se_ctr_doc_def)
  then have "length (ctr_block F inc key c n) = 16" using assms by (simp add: se_ctr_doc_def ctr_block_def)
  then show ?case using Suc by (simp add: ctr_stream_Suc)
qed (simp add: ctr_stream_def)

lemma table_quad_kt: "kt v = kt w \<Longrightarrow> table_quad v ks q = table_quad w ks q"
  by (simp add: table_quad_def)

lemma ceil_16: "m mod 16 \<noteq> 0 \<Longrightarrow> (m + 15) div 16 = Suc (m div 16)" for m :: nat
proof -
  assume "m mod 16 \<noteq> 0"
  moreover define q r where "q = m div 16" and "r = m mod 16"
  ultimately have "1 \<le> r" "r < 16" "m = q * 16 + r" by simp_all
  then have "(m + 15) div 16 = Suc q" by (intro div_nat_eqI) simp_all
  then show ?thesis by (simp add: q_def)
qed

lemma se_aes_crypt_ctr_stream:
  assumes "se_regs_doc env V" "se_ctr_doc env V F inc" "length ctr = 16" "length src \<le> SE_LL_MAX_SIZE" "length dst = length src" "ks < 16"
  shows "\<exists>e'. se_aes_crypt_ctr env ks dst src ctr e =
      (False, xor_block src (ctr_stream F inc (key128 (V e) ks) (words_of_bytes ctr) ((length src + 15) div 16)), e') \<and> kt (V e') = kt (V e)"
proof -
  define c where "c = words_of_bytes ctr"
  define e0 where "e0 = se_aes_counter_set env ctr (se_write env SE_SPARE_REG SE_INPUT_NONCE_LE e)"
  define key where "key = key128 (V e) ks"
  have "V (se_write env SE_SPARE_REG SE_INPUT_NONCE_LE e) = V e" using assms(1) by (simp add: se_regs_doc_def)
  then have v0: "V e0 = (V e)\<lparr>vctr := c\<rparr>" using counter_set_view [OF assms(1,3)] by (simp add: e0_def c_def)
  have lc: "length c = 4" using assms(3) by (simp add: c_def)
  have k0: "key128 (V e0) ks = key" by (simp add: v0 key_def table_quad_def)
  define a where "a = take (length src div 16 * 16) src"
  define r where "r = drop (length src div 16 * 16) src"
  define k where "k = length src div 16"
  have ar: "src = a @ r" "length a = 16 * k" "length r = length src mod 16" "length r < 16" "length a \<le> SE_LL_MAX_SIZE"
    using assms(4) by (simp_all add: a_def r_def k_def minus_div_mult_eq_mod)
  have "\<exists>e1. (if length src div 16 * 16 \<noteq> 0
      then se_execute_oneshot env ctr_config (with_flags (ctr_crypto_config ks) (in_dram env) False) (of_nat (length src div 16) - 1) (take (length src div 16 * 16) dst) a e0
      else (False, [], e0)) = (False, xor_block a (ctr_stream F inc key c k), e1) \<and> V e1 = (V e)\<lparr>vctr := (inc ^^ k) c\<rparr>"
  proof (cases "k = 0")
    case True
    then show ?thesis using ar(2) v0 by (simp add: k_def xor_block_def)
  next
    case False
    then have na: "a \<noteq> []" "length a div 16 = k" "length a mod 16 = 0" using ar(2) by auto
    have "\<exists>e'. se_execute_oneshot env ctr_config (with_flags (ctr_crypto_config ks) (in_dram env) False) (of_nat k - 1) (take (length src div 16 * 16) dst) a e0 =
      (False, xor_block a (ctr_stream F inc key c k), e') \<and> V e' = (V e)\<lparr>vctr := (inc ^^ k) c\<rparr>"
      using se_ctr_start [OF assms(2) na(1,3) ar(5) assms(6), of "in_dram env" False "take (length src div 16 * 16) dst" e0] unfolding na(2) k0 by (simp add: v0)
    then show ?thesis using False by (auto simp: k_def)
  qed
  then obtain e1 where e1: "(if length src div 16 * 16 \<noteq> 0
      then se_execute_oneshot env ctr_config (with_flags (ctr_crypto_config ks) (in_dram env) False) (of_nat (length src div 16) - 1) (take (length src div 16 * 16) dst) a e0
      else (False, [], e0)) = (False, xor_block a (ctr_stream F inc key c k), e1)" "V e1 = (V e)\<lparr>vctr := (inc ^^ k) c\<rparr>" by blast
  have eq: "se_aes_crypt_ctr env ks dst src ctr e =
    (if length src mod 16 \<noteq> 0
     then let (res2, out2, e2) = se_execute_oneshot env ctr_config (with_flags (ctr_crypto_config ks) (in_dram env) True) 0
             (r @ replicate (16 - length src mod 16) 0) (r @ replicate (16 - length src mod 16) 0) e1
          in (res2, xor_block a (ctr_stream F inc key c k) @ take (length src mod 16) out2, e2)
     else (False, xor_block a (ctr_stream F inc key c k) @ drop (length src div 16 * 16) (take (length src) dst), e1))"
    unfolding se_aes_crypt_ctr_def se_execute_aes_oneshot_def Let_def SE_AES_BLOCK_SIZE_def e0_def [symmetric] with_flags_intro
      a_def [symmetric] r_def [symmetric] e1(1) by simp
  show ?thesis
  proof (cases "r = []")
    case True
    then have "length src mod 16 = 0" "(length src + 15) div 16 = k" "drop (length src div 16 * 16) (take (length src) dst) = []"
      using ar(3) assms(5) by (auto simp: k_def)
    then show ?thesis using eq e1(2) True ar(1) by (simp add: c_def key_def)
  next
    case False
    define b where "b = r @ replicate (16 - length src mod 16) 0"
    have n0: "length src mod 16 \<noteq> 0" using False unfolding ar(3) [symmetric] by simp
    then have "(length src + 15) div 16 = Suc k" unfolding k_def by (rule ceil_16)
    moreover have "length b = 16" using ar(3,4) by (simp add: b_def)
    ultimately have n: "length src mod 16 \<noteq> 0" "(length src + 15) div 16 = Suc k" "length b = 16" using n0 by blast+
    have kk: "key128 (V e1) ks = key" "vctr (V e1) = (inc ^^ k) c" "length b div 16 = 1" "b \<noteq> []" "length b \<le> SE_LL_MAX_SIZE"
      using n(3) e1(2) by (auto simp: key_def SE_LL_MAX_SIZE_def table_quad_def)
    have b16: "length b mod 16 = 0" using n(3) by simp
    obtain e2 where st: "se_execute_oneshot env ctr_config (with_flags (ctr_crypto_config ks) (in_dram env) True) (of_nat 1 - 1) b b e1 =
        (False, xor_block b (ctr_stream F inc key ((inc ^^ k) c) 1), e2)" "V e2 = (V e1)\<lparr>vctr := (inc ^^ 1) ((inc ^^ k) c)\<rparr>"
      using se_ctr_start [OF assms(2) kk(4) b16 kk(5) assms(6), of "in_dram env" True b e1] unfolding kk(1-3) by (elim exE conjE)
    have e2: "se_execute_oneshot env ctr_config (with_flags (ctr_crypto_config ks) (in_dram env) True) 0 b b e1 =
      (False, xor_block b (ctr_stream F inc key ((inc ^^ k) c) 1), e2)" "kt (V e2) = kt (V e)"
      using st(1) by (simp, simp add: st(2) e1(2))
    have "ctr_stream F inc key ((inc ^^ k) c) 1 = ctr_block F inc key c k" by (simp add: ctr_block_0 ctr_block_pow)
    then have "take (length src mod 16) (xor_block b (ctr_stream F inc key ((inc ^^ k) c) 1)) = xor_block r (ctr_block F inc key c k)"
      using ar(3) by (simp add: take_xor_block b_def)
    moreover have "xor_block src (ctr_stream F inc key c (Suc k)) = xor_block a (ctr_stream F inc key c k) @ xor_block r (ctr_block F inc key c k)"
      unfolding ar(1) ctr_stream_Suc using length_ctr_stream [OF assms(2) lc] ar(2) by (simp add: xor_block_append)
    ultimately show ?thesis using eq e2 n by (simp add: b_def [symmetric] c_def key_def)
  qed
qed

subsection \<open>The key table\<close>

lemma keytable_nibble:
  assumes "i < 8" "q = KEYS_0_3 \<or> q = ORIGINAL_IV"
  shows "take_bit 4 (keytable_addr ks q i) = push_bit 2 q OR of_nat i"
proof -
  have "take_bit 4 (push_bit 4 ks) = 0" by (rule bit_word_eqI) (simp add: bit_simps)
  moreover have "i \<in> {0, 1, 2, 3, 4, 5, 6, 7}" using assms(1) by auto
  ultimately show ?thesis using assms(2)
    by (auto simp: keytable_addr_def SE_KEYTABLE_SLOT_def SE_KEYTABLE_QUAD_def SE_KEYTABLE_PKT_def KEYS_0_3_def ORIGINAL_IV_def)
qed

lemma keytable_addr_inj:
  assumes "i < 8" "j < 8" "q = KEYS_0_3 \<or> q = ORIGINAL_IV" "q' = KEYS_0_3 \<or> q' = ORIGINAL_IV"
  shows "keytable_addr ks q i = keytable_addr ks q' j \<longleftrightarrow> q = q' \<and> i = j"
proof
  assume "keytable_addr ks q i = keytable_addr ks q' j"
  then have "push_bit 2 q OR of_nat i = push_bit 2 q' OR (of_nat j :: u32)" using keytable_nibble assms by metis
  moreover have "i \<in> {0, 1, 2, 3, 4, 5, 6, 7}" "j \<in> {0, 1, 2, 3, 4, 5, 6, 7}" using assms(1,2) by auto
  ultimately show "q = q' \<and> i = j" using assms(3,4) by (auto simp: KEYS_0_3_def ORIGINAL_IV_def)
qed simp

definition UPDATED_IV :: u32 where "UPDATED_IV = 3"

lemma updated_iv_addr: "i < 4 \<Longrightarrow> keytable_addr ks UPDATED_IV i = keytable_addr ks ORIGINAL_IV (4 + i)"
proof -
  assume "i < 4"
  then have "i \<in> {0, 1, 2, 3}" by auto
  then have "push_bit 2 UPDATED_IV OR of_nat i = push_bit 2 ORIGINAL_IV OR (of_nat (4 + i) :: u32)" by (auto simp: UPDATED_IV_def ORIGINAL_IV_def)
  then show ?thesis by (simp add: keytable_addr_def SE_KEYTABLE_QUAD_def SE_KEYTABLE_PKT_def)
qed

lemma keytable_put_view:
  "se_regs_doc env V \<Longrightarrow> kt (V (keytable_put env ks q i w e)) = (kt (V e))(keytable_addr ks q i := w)"
  by (simp add: se_regs_doc_def keytable_put_def)

lemma keytable_fill_view:
  assumes "se_regs_doc env V" "length ws \<le> 8" "q = KEYS_0_3 \<or> q = ORIGINAL_IV"
  shows "i < length ws \<Longrightarrow> kt (V (keytable_fill env ks q ws e)) (keytable_addr ks q i) = ws ! i"
    "(\<And>i. i < length ws \<Longrightarrow> a \<noteq> keytable_addr ks q i) \<Longrightarrow> kt (V (keytable_fill env ks q ws e)) a = kt (V e) a"
proof -
  define f where "f n = foldl (\<lambda>e i. keytable_put env ks q i (ws ! i) e) e [0..<n]" for n
  have S: "kt (V (f (Suc n))) = (kt (V (f n)))(keytable_addr ks q n := ws ! n)" for n
    using keytable_put_view [OF assms(1)] by (simp add: f_def)
  have ff: "keytable_fill env ks q ws e = f (length ws)" by (simp add: keytable_fill_def f_def)
  have "\<forall>i < n. kt (V (f n)) (keytable_addr ks q i) = ws ! i" if "n \<le> 8" for n
    using that
  proof (induction n)
    case (Suc n)
    show ?case using Suc keytable_addr_inj [of _ n q q] assms(3) by (auto simp: S less_Suc_eq)
  qed simp
  then show "i < length ws \<Longrightarrow> kt (V (keytable_fill env ks q ws e)) (keytable_addr ks q i) = ws ! i" using assms(2) by (simp add: ff)
  have "kt (V (f n)) a = kt (V e) a" if "\<And>i. i < n \<Longrightarrow> a \<noteq> keytable_addr ks q i" for n
    using that by (induction n) (simp_all add: S, simp add: f_def)
  then show "(\<And>i. i < length ws \<Longrightarrow> a \<noteq> keytable_addr ks q i) \<Longrightarrow> kt (V (keytable_fill env ks q ws e)) a = kt (V e) a" by (simp add: ff)
qed

lemma bytes_words_inverse: "length bs = 16 \<Longrightarrow> bytes_of_words (words_of_bytes bs) = bs"
proof (erule length_16E)
  have b: "(ucast (ucast a OR push_bit 8 (ucast b) OR push_bit 16 (ucast c) OR push_bit 24 (ucast d) :: u32) :: u8) = a"
    "(ucast (drop_bit 8 (ucast a OR push_bit 8 (ucast b) OR push_bit 16 (ucast c) OR push_bit 24 (ucast d) :: u32)) :: u8) = b"
    "(ucast (drop_bit 16 (ucast a OR push_bit 8 (ucast b) OR push_bit 16 (ucast c) OR push_bit 24 (ucast d) :: u32)) :: u8) = c"
    "(ucast (drop_bit 24 (ucast a OR push_bit 8 (ucast b) OR push_bit 16 (ucast c) OR push_bit 24 (ucast d) :: u32)) :: u8) = d" for a b c d :: u8
    by (rule bit_word_eqI, auto simp: bit_simps dest: bit_imp_le_length)+
  show ?thesis if "bs = [b0, b1, b2, b3, b4, b5, b6, b7, b8, b9, b10, b11, b12, b13, b14, b15]"
    for b0 b1 b2 b3 b4 b5 b6 b7 b8 b9 b10 b11 b12 b13 b14 b15
    unfolding that by (simp add: bytes_of_words_def words_of_bytes_def upt_rec b del: drop_bit_or)
qed

lemma table_quad_fill:
  assumes "se_regs_doc env V" "length ws \<le> 8" "q = KEYS_0_3 \<or> q = ORIGINAL_IV" "4 \<le> length ws"
  shows "table_quad (V (keytable_fill env ks q ws e)) ks q = bytes_of_words (take 4 ws)"
proof -
  have "map (\<lambda>i. kt (V (keytable_fill env ks q ws e)) (keytable_addr ks q i)) [0..<4] = map (\<lambda>i. ws ! i) [0..<4]"
    using keytable_fill_view(1) [OF assms(1-3)] assms(4) by (intro map_cong) simp_all
  also have "\<dots> = take 4 ws" using assms(4) by (auto intro: nth_equalityI)
  finally show ?thesis by (simp add: table_quad_def)
qed

lemma se_aes_key_set_view:
  "se_regs_doc env V \<Longrightarrow> length key = 16 \<Longrightarrow> key128 (V (se_aes_key_set env ks key e)) ks = key"
  using table_quad_fill [of env V "words_of_bytes key" KEYS_0_3 ks e] by (simp add: se_aes_key_set_def bytes_words_inverse)

text \<open>Clearing the IV of a slot clears the original and the updated one, and keeps the key.\<close>

lemma se_aes_iv_clear_view:
  assumes "se_regs_doc env V"
  shows "key128 (V (se_aes_iv_clear env ks e)) ks = key128 (V e) ks"
    "table_quad (V (se_aes_iv_clear env ks e)) ks ORIGINAL_IV = replicate 16 0"
    "table_quad (V (se_aes_iv_clear env ks e)) ks UPDATED_IV = replicate 16 0"
proof -
  note f = keytable_fill_view [OF assms, of "replicate 8 0" ORIGINAL_IV, simplified]
  have z: "bytes_of_words (replicate 4 0) = replicate 16 0" by (simp add: bytes_of_words_def numeral_eq_Suc)
  have "kt (V (keytable_fill env ks ORIGINAL_IV (replicate 8 0) e)) (keytable_addr ks KEYS_0_3 i) = kt (V e) (keytable_addr ks KEYS_0_3 i)" if "i < 4" for i
    using keytable_addr_inj [of i _ KEYS_0_3 ORIGINAL_IV ks] that by (intro f(2)) (simp add: KEYS_0_3_def ORIGINAL_IV_def)
  then show "key128 (V (se_aes_iv_clear env ks e)) ks = key128 (V e) ks"
    unfolding table_quad_def se_aes_iv_clear_def by (intro arg_cong [where f = bytes_of_words] map_cong) simp_all
  show "table_quad (V (se_aes_iv_clear env ks e)) ks ORIGINAL_IV = replicate 16 0"
    using table_quad_fill [OF assms, of "replicate 8 0" ORIGINAL_IV ks e] z by (simp add: se_aes_iv_clear_def)
  have "map (\<lambda>i. kt (V (keytable_fill env ks ORIGINAL_IV (replicate 8 0) e)) (keytable_addr ks UPDATED_IV i)) [0..<4] = map (\<lambda>i. 0) [0..<4 :: nat]"
    using f(1) by (intro map_cong) (simp_all add: updated_iv_addr)
  then show "table_quad (V (se_aes_iv_clear env ks e)) ks UPDATED_IV = replicate 16 0"
    using z by (simp add: table_quad_def se_aes_iv_clear_def map_replicate_const)
qed

subsection \<open>CBC and the hash registers\<close>

definition cbc_mac :: "(u8 list \<Rightarrow> bool \<Rightarrow> u8 list \<Rightarrow> u8 list) \<Rightarrow> u8 list \<Rightarrow> u8 list \<Rightarrow> u8 list list \<Rightarrow> u8 list" where
  "cbc_mac F key iv bs = foldl (\<lambda>c b. F key True (xor_block b c)) iv bs"

fun cbc_chain :: "(u8 list \<Rightarrow> bool \<Rightarrow> u8 list \<Rightarrow> u8 list) \<Rightarrow> u8 list \<Rightarrow> u8 list \<Rightarrow> u8 list list \<Rightarrow> u8 list" where
  "cbc_chain F key iv [] = []"
| "cbc_chain F key iv (b # bs) = (let c = F key True (xor_block b iv) in c @ cbc_chain F key c bs)"

definition hash_crypto_config :: "u32 \<Rightarrow> bool \<Rightarrow> bool \<Rightarrow> u32" where
  "hash_crypto_config ks mccif updated =
     (let c = with_flags (cbc_crypto_config ks True) mccif False OR SE_CRYPTO_HASH HASH_ENABLE in if updated then c OR SE_CRYPTO_IV_SEL IV_UPDATED else c)"

text \<open>An operation in CBC mode leaves the last cipher block as the updated IV of its slot, and nothing else in the table.\<close>

definition updates_iv :: "('e \<Rightarrow> se_view) \<Rightarrow> u32 \<Rightarrow> u8 list \<Rightarrow> 'e \<Rightarrow> 'e \<Rightarrow> bool" where
  "updates_iv V ks b e e' \<longleftrightarrow> table_quad (V e') ks UPDATED_IV = b \<and> key128 (V e') ks = key128 (V e) ks \<and>
     table_quad (V e') ks ORIGINAL_IV = table_quad (V e) ks ORIGINAL_IV"

definition se_cbc_doc :: "'e se_env \<Rightarrow> ('e \<Rightarrow> se_view) \<Rightarrow> (u8 list \<Rightarrow> bool \<Rightarrow> u8 list \<Rightarrow> u8 list) \<Rightarrow> bool" where
  "se_cbc_doc env V F \<longleftrightarrow>
     (\<forall>key enc b. length b = 16 \<longrightarrow> length (F key enc b) = 16) \<and>
     (\<forall>ks mccif src e. ks < 16 \<and> src \<noteq> [] \<and> length src mod 16 = 0 \<and> length src \<le> SE_LL_MAX_SIZE \<longrightarrow>
        (\<exists>e'. se_start env (cbc_config True) (with_flags (cbc_crypto_config ks True) mccif False) (of_nat (length src div 16) - 1) src e =
             (False, cbc_chain F (key128 (V e) ks) (table_quad (V e) ks ORIGINAL_IV) (blocks16 src), e') \<and>
           updates_iv V ks (cbc_mac F (key128 (V e) ks) (table_quad (V e) ks ORIGINAL_IV) (blocks16 src)) e e')) \<and>
     (\<forall>ks mccif updated n src e. ks < 16 \<and> 0 < n \<and> 16 * n \<le> length src \<and> length src \<le> SE_LL_MAX_SIZE \<longrightarrow>
        (\<exists>out e'. se_start env (cbc_config True OR SE_CONFIG_DST DST_HASHREG) (hash_crypto_config ks mccif updated) (of_nat n - 1) src e = (False, out, e') \<and>
           (let mac = cbc_mac F (key128 (V e) ks) (table_quad (V e) ks (if updated then UPDATED_IV else ORIGINAL_IV)) (blocks16 (take (16 * n) src))
            in bytes_of_words (hash_words env 4 e') = mac \<and> updates_iv V ks mac e e')))"

subsection \<open>CMAC\<close>

text \<open>The standard: subkeys by doubling in the field, a last block that is whole or padded, CBC-MAC.\<close>

definition cmac_dbl :: "u8 list \<Rightarrow> u8 list" where
  "cmac_dbl b = rev (le_bytes 16 (gf128_double (be128 b)))"

definition cmac :: "(u8 list \<Rightarrow> bool \<Rightarrow> u8 list \<Rightarrow> u8 list) \<Rightarrow> u8 list \<Rightarrow> u8 list \<Rightarrow> u8 list" where
  "cmac F key msg =
     (let k1 = cmac_dbl (F key True (replicate 16 0)); k2 = cmac_dbl k1;
          n = max 1 ((length msg + 15) div 16);
          rest = drop (16 * (n - 1)) msg;
          mn = (if length rest = 16 then xor_block rest k1 else xor_block (rest @ 0x80 # replicate (15 - length rest) 0) k2)
      in cbc_mac F key (replicate 16 0) (blocks16 (take (16 * (n - 1)) msg) @ [mn]))"

lemma le_bytes_le128: "length bs = 16 \<Longrightarrow> le_bytes 16 (le128 bs) = bs"
proof (rule nth_equalityI)
  fix i assume "length bs = 16" "i < length (le_bytes 16 (le128 bs))"
  moreover from this have "ucast (drop_bit (8 * i) (le128 bs)) = bs ! i"
    by (intro bit_word_eqI) (auto simp: bit_simps bit_le128)
  ultimately show "le_bytes 16 (le128 bs) ! i = bs ! i" by (simp add: le_bytes_def)
qed simp

lemma se_ls_1bit_cmac_dbl: "length b = 16 \<Longrightarrow> se_ls_1bit b = cmac_dbl b"
  using se_ls_1bit_gf128 [of b] le_bytes_le128 [of "rev (se_ls_1bit b)"] by (simp add: cmac_dbl_def be128_def)

lemma cmac_last_block_split:
  assumes "src \<noteq> []" "n = (length src + 15) div 16"
  shows "cmac_last_block src = (let rest = drop (16 * (n - 1)) src in if length rest = 16 then rest else rest @ 0x80 # replicate (15 - length rest) 0)"
    "length (drop (16 * (n - 1)) src) = 16 \<longleftrightarrow> length src mod 16 = 0" "length (cmac_last_block src) = 16" "16 * (n - 1) \<le> length src" "0 < n"
proof -
  show "0 < n" using assms by (cases src) auto
  define m where "m = length src"
  have m: "0 < m" using assms(1) by (simp add: m_def)
  have 1: "16 * (n - 1) = (if m mod 16 = 0 then m - 16 else m - m mod 16)" "16 * (n - 1) \<le> m"
  proof -
    have "n = Suc (m div 16)" if "m mod 16 \<noteq> 0" using ceil_16 [OF that] assms(2) by (simp add: m_def)
    moreover have "n = m div 16" if "m mod 16 = 0" using that assms(2) by (auto simp: m_def [symmetric] elim!: dvdE simp flip: dvd_eq_mod_eq_0)
    ultimately show "16 * (n - 1) = (if m mod 16 = 0 then m - 16 else m - m mod 16)"
      by (auto simp: minus_mod_eq_mult_div right_diff_distrib')
    then show "16 * (n - 1) \<le> m" by simp
  qed
  then show "16 * (n - 1) \<le> length src" by (simp add: m_def)
  have 2: "m mod 16 = 0 \<Longrightarrow> 16 \<le> m" using m by (auto simp flip: dvd_eq_mod_eq_0 intro: dvd_imp_le)
  have 3: "length (drop (16 * (n - 1)) src) = (if m mod 16 = 0 then 16 else m mod 16)"
    using 1(1) 2 by (simp add: m_def [symmetric])
  then show "length (drop (16 * (n - 1)) src) = 16 \<longleftrightarrow> length src mod 16 = 0" by (auto simp: m_def)
  show "cmac_last_block src = (let rest = drop (16 * (n - 1)) src in if length rest = 16 then rest else rest @ 0x80 # replicate (15 - length rest) 0)"
    unfolding cmac_last_block_def Let_def 3 1(1) m_def [symmetric] using 2 mod_less_divisor [of 16 m] by (auto simp: m_def)
  then show "length (cmac_last_block src) = 16" unfolding Let_def using 3 mod_less_divisor [of 16 m] by (auto simp del: mod_less_divisor)
qed

lemma blocks16_one: "length b = 16 \<Longrightarrow> blocks16 b = [b]"
  using blocks16_append [of b "[]"] by (simp add: blocks16.simps [of "[]"])

lemma se_cbc_docD:
  assumes "se_cbc_doc env V F"
  shows "length b = 16 \<Longrightarrow> length (F key enc b) = 16"
    "ks < 16 \<Longrightarrow> src \<noteq> [] \<Longrightarrow> length src mod 16 = 0 \<Longrightarrow> length src \<le> SE_LL_MAX_SIZE \<Longrightarrow>
      \<exists>e'. se_start env (cbc_config True) (with_flags (cbc_crypto_config ks True) mccif False) (of_nat (length src div 16) - 1) src e =
         (False, cbc_chain F (key128 (V e) ks) (table_quad (V e) ks ORIGINAL_IV) (blocks16 src), e') \<and>
       updates_iv V ks (cbc_mac F (key128 (V e) ks) (table_quad (V e) ks ORIGINAL_IV) (blocks16 src)) e e'"
    "ks < 16 \<Longrightarrow> 0 < n \<Longrightarrow> 16 * n \<le> length src \<Longrightarrow> length src \<le> SE_LL_MAX_SIZE \<Longrightarrow>
      \<exists>out e'. se_start env (cbc_config True OR SE_CONFIG_DST DST_HASHREG) (hash_crypto_config ks mccif updated) (of_nat n - 1) src e = (False, out, e') \<and>
         (let mac = cbc_mac F (key128 (V e) ks) (table_quad (V e) ks (if updated then UPDATED_IV else ORIGINAL_IV)) (blocks16 (take (16 * n) src))
          in bytes_of_words (hash_words env 4 e') = mac \<and> updates_iv V ks mac e e')"
  using assms unfolding se_cbc_doc_def by (elim conjE, simp)+

lemma se_cbc_zero:
  assumes "se_regs_doc env V" "se_cbc_doc env V F" "ks < 16"
  shows "\<exists>e2. se_aes_crypt_cbc env ks True (replicate 16 0) (replicate 16 0) (se_aes_iv_clear env ks e) =
      (False, F (key128 (V e) ks) True (replicate 16 0), e2) \<and>
    key128 (V e2) ks = key128 (V e) ks \<and> table_quad (V e2) ks ORIGINAL_IV = replicate 16 0"
proof -
  define e1 where "e1 = se_aes_iv_clear env ks e"
  define z where "z = replicate 16 (0 :: u8)"
  have z: "z \<noteq> []" "length z mod 16 = 0" "length z = 16" "blocks16 z = [z]" "xor_block z z = z" "length z \<le> SE_LL_MAX_SIZE"
    by (simp_all add: z_def blocks16_one xor_block_def SE_LL_MAX_SIZE_def zip_replicate)
  note v = se_aes_iv_clear_view [OF assms(1), of ks e, folded e1_def z_def]
  obtain e2 where e2: "se_start env (cbc_config True) (with_flags (cbc_crypto_config ks True) (in_dram env) False) (of_nat (length z div 16) - 1) z e1 =
      (False, cbc_chain F (key128 (V e1) ks) (table_quad (V e1) ks ORIGINAL_IV) (blocks16 z), e2)"
    "updates_iv V ks (cbc_mac F (key128 (V e1) ks) (table_quad (V e1) ks ORIGINAL_IV) (blocks16 z)) e1 e2"
    using se_cbc_docD(2) [OF assms(2,3) z(1,2,6)] by blast
  have "se_aes_crypt_cbc env ks True z z e1 = (False, F (key128 (V e) ks) True z, e2)"
    unfolding se_aes_crypt_cbc_def se_execute_aes_oneshot_def Let_def SE_AES_BLOCK_SIZE_def with_flags_intro se_execute_oneshot_def
    using e2(1) z v by simp
  then show ?thesis using e2(2) v unfolding updates_iv_def e1_def [symmetric] z_def [symmetric] by auto
qed

text \<open>One operation into the hash registers.\<close>

lemma se_hash_start:
  assumes "se_cbc_doc env V F" "ks < 16" "0 < n" "16 * n \<le> length src" "length src \<le> SE_LL_MAX_SIZE"
    "mac = cbc_mac F (key128 (V e) ks) (table_quad (V e) ks (if updated then UPDATED_IV else ORIGINAL_IV)) (blocks16 (take (16 * n) src))"
  shows "\<exists>out e'. se_execute_oneshot env (cbc_config True OR SE_CONFIG_DST DST_HASHREG) (hash_crypto_config ks mccif updated) (of_nat n - 1) [] src e = (False, out, e') \<and>
     bytes_of_words (hash_words env 4 e') = mac \<and> updates_iv V ks mac e e'"
proof -
  have "\<exists>out e'. se_start env (cbc_config True OR SE_CONFIG_DST DST_HASHREG) (hash_crypto_config ks mccif updated) (of_nat n - 1) src e = (False, out, e') \<and>
     bytes_of_words (hash_words env 4 e') = mac \<and> updates_iv V ks mac e e'"
    using se_cbc_docD(3) [OF assms(1-5)] unfolding Let_def assms(6) by blast
  then show ?thesis using assms(5) by (simp add: se_execute_oneshot_def)
qed

lemma cbc_mac_append: "cbc_mac F key iv (as @ bs) = cbc_mac F key (cbc_mac F key iv as) bs"
  by (simp add: cbc_mac_def)

lemma cbc_mac_one: "cbc_mac F key iv [b] = F key True (xor_block b iv)"
  by (simp add: cbc_mac_def)

lemma se_aes_hash_cmac_run:
  assumes "se_regs_doc env V" "se_cbc_doc env V F" "length src \<le> SE_LL_MAX_SIZE" "n = (length src + 15) div 16"
    "k1 = cmac_dbl (F (key128 (V e) ks) True (replicate 16 0))" "length (cmac_last_block src) = 16" "ks < 16"
  shows "\<exists>e'. se_aes_hash_cmac env ks src e =
    Some (cbc_mac F (key128 (V e) ks) (replicate 16 0)
      (blocks16 (take (16 * (n - 1)) src) @ [xor_block (cmac_last_block src) (if length src mod 16 \<noteq> 0 then cmac_dbl k1 else k1)]), e')"
proof -
  define key where "key = key128 (V e) ks"
  obtain e2 where e2: "se_aes_crypt_cbc env ks True (replicate 16 0) (replicate 16 0) (se_aes_iv_clear env ks e) = (False, F key True (replicate 16 0), e2)"
    "key128 (V e2) ks = key" "table_quad (V e2) ks ORIGINAL_IV = replicate 16 0"
    using se_cbc_zero [OF assms(1,2,7), of e] by (auto simp: key_def)
  have L: "length (F key True (replicate 16 0)) = 16" by (rule se_cbc_docD(1) [OF assms(2)]) simp
  have k1: "se_ls_1bit (F key True (replicate 16 0)) = k1" "length k1 = 16"
    using se_ls_1bit_cmac_dbl [OF L] se_ls_1bit_gf128(1) [OF L] assms(5) by (simp_all add: key_def)
  define sub where "sub = (if length src mod 16 \<noteq> 0 then cmac_dbl k1 else k1)"
  have sub: "(if length src mod 16 \<noteq> 0 then se_ls_1bit k1 else k1) = sub" "length sub = 16"
    using se_ls_1bit_cmac_dbl [OF k1(2)] se_ls_1bit_gf128(1) [OF k1(2)] k1(2) by (simp_all add: sub_def)
  define lb where "lb = xor_block (cmac_last_block src) sub"
  have lb: "length lb = 16" using sub(2) assms(6) by (simp add: lb_def)
  define mac1 where "mac1 = cbc_mac F key (replicate 16 0) (blocks16 (take (16 * (n - 1)) src))"
  have "\<exists>out e3. (if n > 1 then se_execute_oneshot env (cbc_config True OR SE_CONFIG_DST DST_HASHREG) (hash_crypto_config ks (in_dram env) False) (of_nat n - 2) [] src e2 else (False, [], e2)) =
      (False, out, e3) \<and> key128 (V e3) ks = key \<and> table_quad (V e3) ks (if n > 1 then UPDATED_IV else ORIGINAL_IV) = mac1"
  proof (cases "n > 1")
    case True
    have "16 * (n - 1) \<le> length src" using assms(4) by simp
    moreover have "of_nat (n - 1) - 1 = (of_nat n - 2 :: u32)" using True by (simp add: of_nat_diff)
    ultimately show ?thesis
      using se_hash_start [OF assms(2,7), of "n - 1" src mac1 e2 False "in_dram env"] True assms(3) e2(2,3)
      by (auto simp: mac1_def updates_iv_def)
  next
    case False
    then show ?thesis using e2(2,3) by (simp add: mac1_def cbc_mac_def blocks16.simps [of "[]"])
  qed
  then obtain out e3 where e3: "(if n > 1 then se_execute_oneshot env (cbc_config True OR SE_CONFIG_DST DST_HASHREG) (hash_crypto_config ks (in_dram env) False) (of_nat n - 2) [] src e2 else (False, [], e2)) = (False, out, e3)"
    "key128 (V e3) ks = key" "table_quad (V e3) ks (if n > 1 then UPDATED_IV else ORIGINAL_IV) = mac1" by blast
  have "16 * 1 \<le> length lb" "length lb \<le> SE_LL_MAX_SIZE" using lb by (simp_all add: SE_LL_MAX_SIZE_def)
  then obtain out4 e4 where e4: "se_execute_oneshot env (cbc_config True OR SE_CONFIG_DST DST_HASHREG) (hash_crypto_config ks (in_dram env) (n > 1)) 0 [] lb e3 = (False, out4, e4)"
    "bytes_of_words (hash_words env 4 e4) = cbc_mac F key mac1 [lb]"
    using se_hash_start [OF assms(2,7) zero_less_one _ _ refl, where src = lb and e = e3 and updated = "n > 1" and mccif = "in_dram env"] e3(2,3) lb by (auto simp: blocks16_one)
  have hcc: "with_flags (cbc_crypto_config ks True) (in_dram env) False OR SE_CRYPTO_HASH HASH_ENABLE = hash_crypto_config ks (in_dram env) False"
    "(if n > 1 then hash_crypto_config ks (in_dram env) False OR SE_CRYPTO_IV_SEL IV_UPDATED else hash_crypto_config ks (in_dram env) False) = hash_crypto_config ks (in_dram env) (n > 1)"
    by (simp_all add: hash_crypto_config_def Let_def)
  have "se_aes_hash_cmac env ks src e = Some (cbc_mac F key mac1 [lb], e4)"
    unfolding se_aes_hash_cmac_def Let_def e2(1) prod.case with_flags_intro k1(1) assms(4) [symmetric] hcc e3(1) sub(1) lb_def [symmetric]
    using e4 by simp
  then show ?thesis by (simp add: cbc_mac_append mac1_def key_def lb_def sub_def)
qed

text \<open>
  C16. For every message that is not empty and fits one transfer, the driver computes the CMAC of
  SP 800-38B (RFC 4493) under the key of the slot: the subkeys are the doublings of the encrypted zero
  block, the last block is taken whole or padded with a one bit, and the two engine operations chain
  over the updated IV. For the empty message it does not pad: the result is the cipher of the first
  subkey, where the standard asks for the padded block under the second.
\<close>

theorem se_cmac_standard:
  assumes "se_regs_doc env V" "se_cbc_doc env V F" "ks < 16" "length src \<le> SE_LL_MAX_SIZE"
  shows "\<exists>e'. se_aes_hash_cmac env ks src e =
    Some (if src = [] then F (key128 (V e) ks) True (cmac_dbl (F (key128 (V e) ks) True (replicate 16 0))) else cmac F (key128 (V e) ks) src, e')"
proof (cases "src = []")
  case True
  have L: "length (F (key128 (V e) ks) True (replicate 16 0)) = 16" by (rule se_cbc_docD(1) [OF assms(2)]) simp
  have "length (cmac_dbl b) = 16" for b by (simp add: cmac_dbl_def)
  then have "xor_block (xor_block (replicate 16 0) (cmac_dbl b)) (replicate 16 0) = cmac_dbl b" for b
    by (intro nth_equalityI) (simp_all add: xor_block_def)
  then show ?thesis using se_aes_hash_cmac_run [OF assms(1,2,4) refl refl _ assms(3), of e] True
    by (auto simp: cmac_last_block_def cbc_mac_def blocks16.simps [of "[]"])
next
  case False
  define n where "n = (length src + 15) div 16"
  note l = cmac_last_block_split [OF False n_def]
  have "max 1 n = n" using l(5) by simp
  then show ?thesis using se_aes_hash_cmac_run [OF assms(1,2,4) n_def refl l(3) assms(3), of e] False l(2)
    unfolding cmac_def Let_def n_def [symmetric] l(1) by (auto split: if_splits)
qed

end
