(* ===== verification/Se_Ref.thy ===== *)
theory Se_Ref
  imports Se_Doc
begin

text \<open>
  An engine that behaves as documented, over any block cipher: it shows that the laws of the
  documentation can hold together, and evaluates.
\<close>

subsection \<open>The engine\<close>

type_synonym ref_state = "se_view \<times> u8 list"

definition ref_view :: "ref_state \<Rightarrow> se_view" where
  "ref_view e = (fst e)\<lparr>vctr := take 4 (vctr (fst e) @ replicate 4 0)\<rparr>"

definition ref_write :: "u32 \<Rightarrow> u32 \<Rightarrow> ref_state \<Rightarrow> ref_state" where
  "ref_write r x e =
     (let v = ref_view e
      in (if r = SE_CRYPTO_KEYTABLE_ADDR_REG then v\<lparr>kt_addr := x\<rparr>
          else if r = SE_CRYPTO_KEYTABLE_DATA_REG then v\<lparr>kt := (kt v)(kt_addr v := x)\<rparr>
          else if r = SE_CRYPTO_KEYTABLE_DST_REG then v\<lparr>kt_dst := x\<rparr>
          else if r \<in> {0x308, 0x30C, 0x310, 0x314} then v\<lparr>vctr := (vctr v)[unat (r - 0x308) div 4 := x]\<rparr>
          else v, snd e))"

definition put_quad :: "u32 \<Rightarrow> u32 \<Rightarrow> u8 list \<Rightarrow> (u32 \<Rightarrow> u32) \<Rightarrow> u32 \<Rightarrow> u32" where
  "put_quad ks q b t = foldl (\<lambda>t i. t(keytable_addr ks q i := words_of_bytes b ! i)) t [0..<4]"

definition ref_start ::
  "(u8 list \<Rightarrow> bool \<Rightarrow> u8 list \<Rightarrow> u8 list) \<Rightarrow> (u32 list \<Rightarrow> u32 list) \<Rightarrow> u32 \<Rightarrow> u32 \<Rightarrow> u32 \<Rightarrow> u8 list \<Rightarrow> ref_state \<Rightarrow> bool \<times> u8 list \<times> ref_state" where
  "ref_start F inc cfg cc lb src e =
     (let v = ref_view e; ks = drop_bit 24 cc AND 0xF; key = key128 v ks; n = unat (lb + 1)
      in if cc AND 1 = 1
         then let mac = cbc_mac F key (table_quad v ks (if cc AND 0x80 = 0 then ORIGINAL_IV else UPDATED_IV)) (blocks16 (take (16 * n) src))
              in (False, [], (v\<lparr>kt := put_quad ks UPDATED_IV mac (kt v)\<rparr>, mac))
         else if cc AND 0x18 = 0x18
         then (False, xor_block src (ctr_stream F inc key (vctr v) n), (v\<lparr>vctr := (inc ^^ n) (vctr v)\<rparr>, snd e))
         else (False, cbc_chain F key (table_quad v ks ORIGINAL_IV) (blocks16 src),
               (v\<lparr>kt := put_quad ks UPDATED_IV (cbc_mac F key (table_quad v ks ORIGINAL_IV) (blocks16 src)) (kt v)\<rparr>, snd e)))"

definition ref_env :: "(u8 list \<Rightarrow> bool \<Rightarrow> u8 list \<Rightarrow> u8 list) \<Rightarrow> (u32 list \<Rightarrow> u32 list) \<Rightarrow> ref_state se_env" where
  "ref_env F inc =
     \<lparr>se_start = ref_start F inc, in_dram = True, se_write = ref_write,
      se_read = (\<lambda>r e. if SE_HASH_RESULT_REG \<le> r \<and> r < SE_HASH_RESULT_REG + 16 then words_of_bytes (snd e) ! (unat (r - SE_HASH_RESULT_REG) div 4) else 0),
      se_sha_start = (\<lambda>cfg src e. (False, e))\<rparr>"

subsection \<open>It is as documented\<close>

lemma length_vctr_ref [simp]: "length (vctr (ref_view e)) = 4"
  by (simp add: ref_view_def)

lemma ref_view_idem [simp]: "length (vctr v) = 4 \<Longrightarrow> ref_view (v, h) = v"
  by (simp add: ref_view_def)

lemma ref_regs: "se_regs_doc (ref_env F inc) ref_view"
proof -
  have "ref_view (ref_write (SE_CRYPTO_LINEAR_CTR_REG + 4 * of_nat i) x e) = (ref_view e)\<lparr>vctr := (vctr (ref_view e))[i := x]\<rparr>" if "i < 4" for i x e
  proof -
    have "i \<in> {0, 1, 2, 3}" using that by auto
    then show ?thesis by (auto simp: ref_write_def Let_def SE_CRYPTO_LINEAR_CTR_REG_def SE_CRYPTO_KEYTABLE_ADDR_REG_def
        SE_CRYPTO_KEYTABLE_DATA_REG_def SE_CRYPTO_KEYTABLE_DST_REG_def)
  qed
  moreover have "ref_view (ref_write SE_CRYPTO_KEYTABLE_ADDR_REG x e) = (ref_view e)\<lparr>kt_addr := x\<rparr>"
    "ref_view (ref_write SE_CRYPTO_KEYTABLE_DATA_REG x e) = (ref_view e)\<lparr>kt := (kt (ref_view e))(kt_addr (ref_view e) := x)\<rparr>"
    "ref_view (ref_write SE_CRYPTO_KEYTABLE_DST_REG x e) = (ref_view e)\<lparr>kt_dst := x\<rparr>"
    "ref_view (ref_write SE_SPARE_REG x e) = ref_view e" for x e
    by (simp_all add: ref_write_def Let_def SE_CRYPTO_KEYTABLE_ADDR_REG_def SE_CRYPTO_KEYTABLE_DATA_REG_def SE_CRYPTO_KEYTABLE_DST_REG_def SE_SPARE_REG_def)
  ultimately show ?thesis by (simp add: se_regs_doc_def ref_env_def)
qed

lemma slot_cases:
  assumes "ks < 16"
  shows "ks \<in> {0, 1, 2, 3, 4, 5, 6, 7, 8, 9, 10, 11, 12, 13, 14, 15 :: u32}"
proof -
  have "unat ks < 16" using assms by (simp add: word_less_nat_alt)
  then have "unat ks \<in> set [0..<16]" by simp
  then have "unat ks \<in> {0, 1, 2, 3, 4, 5, 6, 7, 8, 9, 10, 11, 12, 13, 14, 15}" by (simp add: upt_rec numeral_eq_Suc)
  then have "of_nat (unat ks) \<in> {0, 1, 2, 3, 4, 5, 6, 7, 8, 9, 10, 11, 12, 13, 14, 15 :: u32}" by (elim insertE) simp_all
  then show ?thesis by simp
qed

lemmas crypto_config_values = with_flags_def Let_def SE_CRYPTO_MEMIF_def MEMIF_MCCIF_def SE_CRYPTO_IV_SEL_def IV_UPDATED_def SE_CRYPTO_KEY_INDEX_def
  SE_CRYPTO_CORE_SEL_def CORE_ENCRYPT_def SE_CRYPTO_XOR_POS_def XOR_BOTTOM_def XOR_TOP_def SE_CRYPTO_INPUT_SEL_def INPUT_LNR_CTR_def SE_CRYPTO_CTR_CNTN_def
  SE_CRYPTO_VCTRAM_SEL_def VCTRAM_AESOUT_def SE_CRYPTO_HASH_def HASH_ENABLE_def

lemma ctr_fields:
  assumes "ks < 16"
  shows "drop_bit 24 (with_flags (ctr_crypto_config ks) m u) AND 0xF = ks" "with_flags (ctr_crypto_config ks) m u AND 1 = 0"
    "with_flags (ctr_crypto_config ks) m u AND 0x18 = 0x18"
  using slot_cases [OF assms] by (cases m; cases u; auto simp: ctr_crypto_config_def crypto_config_values)+

lemma cbc_fields:
  assumes "ks < 16"
  shows "drop_bit 24 (with_flags (cbc_crypto_config ks True) m False) AND 0xF = ks" "with_flags (cbc_crypto_config ks True) m False AND 1 = 0"
    "with_flags (cbc_crypto_config ks True) m False AND 0x18 = 0"
  using slot_cases [OF assms] by (cases m; auto simp: cbc_crypto_config_def crypto_config_values)+

lemma hash_fields:
  assumes "ks < 16"
  shows "drop_bit 24 (hash_crypto_config ks m u) AND 0xF = ks" "hash_crypto_config ks m u AND 1 = 1"
    "hash_crypto_config ks m u AND 0x80 = 0 \<longleftrightarrow> \<not> u"
  using slot_cases [OF assms] by (cases m; cases u; auto simp: hash_crypto_config_def cbc_crypto_config_def crypto_config_values)+

lemma ref_ctr:
  assumes "\<forall>key enc b. length b = 16 \<longrightarrow> length (F key enc b) = 16" "\<forall>c. length c = 4 \<longrightarrow> length (inc c) = 4"
  shows "se_ctr_doc (ref_env F inc) ref_view F inc"
proof -
  have "\<exists>e'. ref_start F inc ctr_config (with_flags (ctr_crypto_config ks) m u) (of_nat (length src div 16) - 1) src e =
      (False, xor_block src (ctr_stream F inc (key128 (ref_view e) ks) (vctr (ref_view e)) (length src div 16)), e') \<and>
    ref_view e' = (ref_view e)\<lparr>vctr := (inc ^^ (length src div 16)) (vctr (ref_view e))\<rparr>"
    if "ks < 16" "length src \<le> SE_LL_MAX_SIZE" for ks m u src e
  proof -
    have "unat (of_nat (length src div 16) - 1 + 1 :: u32) = length src div 16"
      using that(2) by (simp add: unsigned_of_nat take_bit_nat_eq_self SE_LL_MAX_SIZE_def)
    then show ?thesis using length_inc_pow [OF assms(2)] by (simp add: ref_start_def Let_def ctr_fields [OF that(1)])
  qed
  then show ?thesis using assms by (simp add: se_ctr_doc_def ref_env_def)
qed

lemma upt_4: "[0..<4] = [0, 1, 2, 3 :: nat]"
  by (simp add: upt_rec numeral_eq_Suc)

lemma put_quad_same: "length b = 16 \<Longrightarrow> table_quad (v\<lparr>kt := put_quad ks UPDATED_IV b (kt v)\<rparr>) ks UPDATED_IV = b"
proof -
  assume b: "length b = 16"
  have "put_quad ks UPDATED_IV b t (keytable_addr ks UPDATED_IV i) = words_of_bytes b ! i" if "i \<in> {0, 1, 2, 3}" for t i
    using that by (auto simp: put_quad_def upt_4 updated_iv_addr keytable_addr_inj)
  then have "map (\<lambda>i. put_quad ks UPDATED_IV b (kt v) (keytable_addr ks UPDATED_IV i)) [0..<4] = map ((!) (words_of_bytes b)) [0..<4]"
    by (simp add: upt_4)
  also have "\<dots> = words_of_bytes b" using map_nth [of "words_of_bytes b"] b by simp
  finally have "map (\<lambda>i. put_quad ks UPDATED_IV b (kt v) (keytable_addr ks UPDATED_IV i)) [0..<4] = words_of_bytes b" .
  then show ?thesis using b by (simp add: table_quad_def bytes_words_inverse)
qed

lemma put_quad_other: "i < 4 \<Longrightarrow> q = KEYS_0_3 \<or> q = ORIGINAL_IV \<Longrightarrow> put_quad ks UPDATED_IV b t (keytable_addr ks q i) = t (keytable_addr ks q i)"
  by (elim disjE) (simp_all add: put_quad_def upt_4 updated_iv_addr keytable_addr_inj KEYS_0_3_def ORIGINAL_IV_def)

lemma put_quad_updates:
  assumes "length b = 16" "ref_view e' = (ref_view e)\<lparr>kt := put_quad ks UPDATED_IV b (kt (ref_view e))\<rparr>"
  shows "updates_iv ref_view ks b e e'"
proof -
  have "table_quad (v\<lparr>kt := put_quad ks UPDATED_IV b (kt v)\<rparr>) ks q = table_quad v ks q" if "q = KEYS_0_3 \<or> q = ORIGINAL_IV" for v q
    unfolding table_quad_def using put_quad_other [OF _ that] by (intro arg_cong [where f = bytes_of_words] map_cong) simp_all
  then show ?thesis using put_quad_same [OF assms(1)] by (simp add: updates_iv_def assms(2))
qed

lemma length_cbc_mac:
  assumes "\<forall>key enc b. length b = 16 \<longrightarrow> length (F key enc b) = 16" "length iv = 16" "list_all (\<lambda>b. length b = 16) bs"
  shows "length (cbc_mac F key iv bs) = 16"
  using assms(2,3) by (induction bs arbitrary: iv) (simp_all add: cbc_mac_def assms(1))

lemma length_table_quad [simp]: "length (table_quad v ks q) = 16"
  by (simp add: table_quad_def)

lemma ref_cbc:
  assumes F: "\<forall>key enc b. length b = 16 \<longrightarrow> length (F key enc b) = 16"
  shows "se_cbc_doc (ref_env F inc) ref_view F"
proof -
  have l: "length (cbc_mac F key (table_quad v ks q) (blocks16 bs)) = 16" for key v ks q bs
    using length_cbc_mac [OF F] blocks16_all by simp
  have "\<exists>e'. ref_start F inc (cbc_config True) (with_flags (cbc_crypto_config ks True) m False) (of_nat (length src div 16) - 1) src e =
      (False, cbc_chain F (key128 (ref_view e) ks) (table_quad (ref_view e) ks ORIGINAL_IV) (blocks16 src), e') \<and>
    updates_iv ref_view ks (cbc_mac F (key128 (ref_view e) ks) (table_quad (ref_view e) ks ORIGINAL_IV) (blocks16 src)) e e'"
    if "ks < 16" for ks m src e
    using put_quad_updates [OF l] by (simp add: ref_start_def Let_def cbc_fields [OF that])
  moreover have "\<exists>out e'. ref_start F inc (cbc_config True OR SE_CONFIG_DST DST_HASHREG) (hash_crypto_config ks m u) (of_nat n - 1) src e = (False, out, e') \<and>
      (let mac = cbc_mac F (key128 (ref_view e) ks) (table_quad (ref_view e) ks (if u then UPDATED_IV else ORIGINAL_IV)) (blocks16 (take (16 * n) src))
       in bytes_of_words (hash_words (ref_env F inc) 4 e') = mac \<and> updates_iv ref_view ks mac e e')"
    if "ks < 16" "16 * n \<le> length src" "length src \<le> SE_LL_MAX_SIZE" for ks m u n src e
  proof -
    define mac where "mac = cbc_mac F (key128 (ref_view e) ks) (table_quad (ref_view e) ks (if u then UPDATED_IV else ORIGINAL_IV)) (blocks16 (take (16 * n) src))"
    have n: "unat (of_nat n - 1 + 1 :: u32) = n" using that by (simp add: unat_of_nat_u32 SE_LL_MAX_SIZE_def)
    have "hash_words (ref_env F inc) 4 (v, mac) = map ((!) (words_of_bytes mac)) [0..<4]" for v
      by (simp add: hash_words_def ref_env_def SE_HASH_RESULT_REG_def upt_4)
    moreover have lm: "length mac = 16" unfolding mac_def by (rule l)
    ultimately have hw: "hash_words (ref_env F inc) 4 (v, mac) = words_of_bytes mac" for v
      using map_nth [of "words_of_bytes mac"] by simp
    have "ref_start F inc (cbc_config True OR SE_CONFIG_DST DST_HASHREG) (hash_crypto_config ks m u) (of_nat n - 1) src e =
      (False, [], ((ref_view e)\<lparr>kt := put_quad ks UPDATED_IV mac (kt (ref_view e))\<rparr>, mac))"
      using n by (cases u) (simp_all add: ref_start_def Let_def hash_fields [OF that(1)] mac_def)
    then show ?thesis
      unfolding mac_def [symmetric] Let_def using put_quad_updates [OF lm] hw bytes_words_inverse [OF lm] by simp
  qed
  ultimately show ?thesis using F by (simp add: se_cbc_doc_def ref_env_def)
qed

subsection \<open>A message authenticated\<close>

definition demo_cipher :: "u8 list \<Rightarrow> bool \<Rightarrow> u8 list \<Rightarrow> u8 list" where
  "demo_cipher key enc b = xor_block (rev b) key @ drop (length key) b"

definition demo_inc :: "u32 list \<Rightarrow> u32 list" where
  "demo_inc c = (if c = [] then [] else c[length c - 1 := last c + 1])"

definition demo_state :: ref_state where
  "demo_state = (\<lparr>kt = (\<lambda>a. a * 0x01020305), kt_addr = 0, kt_dst = 0, vctr = []\<rparr>, [])"

lemma demo_laws:
  "se_regs_doc (ref_env demo_cipher demo_inc) ref_view" "se_cbc_doc (ref_env demo_cipher demo_inc) ref_view demo_cipher"
  "se_ctr_doc (ref_env demo_cipher demo_inc) ref_view demo_cipher demo_inc"
proof -
  have "\<forall>key enc b. length b = 16 \<longrightarrow> length (demo_cipher key enc b) = 16" by (auto simp: demo_cipher_def)
  moreover have "\<forall>c. length c = 4 \<longrightarrow> length (demo_inc c) = 4" by (simp add: demo_inc_def)
  ultimately show "se_cbc_doc (ref_env demo_cipher demo_inc) ref_view demo_cipher" "se_ctr_doc (ref_env demo_cipher demo_inc) ref_view demo_cipher demo_inc"
    using ref_cbc ref_ctr by blast+
qed (rule ref_regs)

theorem se_cmac_standard_witness:
  "se_regs_doc (ref_env demo_cipher demo_inc) ref_view \<and> se_cbc_doc (ref_env demo_cipher demo_inc) ref_view demo_cipher \<and>
   (\<exists>e'. se_aes_hash_cmac (ref_env demo_cipher demo_inc) 3 (replicate 40 7) demo_state =
      Some (cmac demo_cipher (key128 (ref_view demo_state) 3) (replicate 40 7), e'))"
  using se_cmac_standard [OF demo_laws(1,2), of 3 "replicate 40 7" demo_state] demo_laws by (simp add: SE_LL_MAX_SIZE_def)

end
