(* ===== verification/Pkg2_Round.thy ===== *)
theory Pkg2_Round
  imports Pkg2 Se_Ref
begin

text \<open>
  A package that was built is read back: its header and sections decrypt, and the list of images is the
  one it was built from, for packages of the old and of the new type.
\<close>

subsection \<open>Structures in bytes\<close>

text \<open>A run of elements of one width, decoded element by element.\<close>

lemma decode_array:
  assumes "\<And>x. x \<in> set xs \<Longrightarrow> length (enc x) = w" "\<And>x zs. x \<in> set xs \<Longrightarrow> dec (enc x @ zs) = x"
  shows "map (\<lambda>i. dec (drop (w * i) (concat (map enc xs) @ ys))) [0..<length xs] = xs"
  using assms
proof (induction xs)
  case (Cons x xs)
  have "map (\<lambda>i. dec (drop (w * i) (concat (map enc (x # xs)) @ ys))) [0..<length (x # xs)] =
    dec (enc x @ concat (map enc xs) @ ys) # map (\<lambda>i. dec (drop (w * i) (concat (map enc xs) @ ys))) [0..<length xs]"
    using Cons.prems(1) by (simp add: upt_conv_Cons map_Suc_upt [symmetric] del: upt_Suc)
  then show ?case using Cons by simp
qed simp

lemma length_concat_width: "\<forall>x \<in> set xs. length x = w \<Longrightarrow> length (concat xs) = w * length xs"
  by (induction xs) auto

lemma length_words [simp]: "length (concat (map (le_bytes n) ws)) = n * length ws"
  by (induction ws) auto

lemma length_sec_bytes [simp]: "length (sec_bytes s) = 16"
  by (simp add: sec_bytes_def)

lemma sec_of_bytes: "sec_of (sec_bytes s @ ys) = s"
  by (simp add: sec_of_def sec_bytes_def get_le_head get_le_skip)

definition hdr_wf :: "pkg2_hdr_t \<Rightarrow> bool" where
  "hdr_wf h \<longleftrightarrow> length (hdr_ctr h) = 16 \<and> length (sec_ctr h) = 4 \<and> (\<forall>c \<in> set (sec_ctr h). length c = 16) \<and> length (sec_size h) = 4 \<and>
     length (sec_off h) = 4 \<and> length (sec_sha256 h) = 4 \<and> (\<forall>c \<in> set (sec_sha256 h). length c = 32)"

definition kip_wf :: "pkg2_kip1_t \<Rightarrow> bool" where
  "kip_wf k \<longleftrightarrow> length (kip_name k) = 12 \<and> length (sections k) = 6 \<and> length (caps k) = 32 \<and>
     0x100 + (\<Sum>s\<leftarrow>sections k. unat (size_comp s)) = 0x100 + length (kip_data k) \<and> 0x100 + length (kip_data k) < 2 ^ 32"

lemma length_hdr_bytes: "hdr_wf h \<Longrightarrow> length (hdr_bytes h) = 0x100"
  using length_concat_width [of "sec_ctr h" 16] length_concat_width [of "sec_sha256 h" 32] by (simp add: hdr_wf_def hdr_bytes_def)

lemma length_secs [simp]: "length (concat (map sec_bytes ss)) = 16 * length ss"
  by (induction ss) auto

lemma length_kip_hdr: "length (kip_name k) = 12 \<Longrightarrow> length (sections k) = 6 \<Longrightarrow> length (caps k) = 32 \<Longrightarrow> length (kip_hdr_bytes k) = 0x100"
  by (simp add: kip_hdr_bytes_def)

lemma kip_hdr_of_bytes:
  assumes "length (kip_name k) = 12" "length (sections k) = 6" "length (caps k) = 32"
  shows "kip_hdr_of (kip_hdr_bytes k @ ys) = k\<lparr>kip_data := []\<rparr>"
proof -
  define pre where "pre = le_bytes 4 (kip_magic k) @ kip_name k @ le_bytes 8 (tid k) @ le_bytes 4 (proc_cat k) @ [main_thrd_prio k, def_cpu_core k, kip_res k, kip_flags k]"
  define ss where "ss = concat (map sec_bytes (sections k))"
  define cs where "cs = concat (map (le_bytes 4) (caps k))"
  have l: "length pre = 32" "length ss = 96" "length cs = 128" using assms by (simp_all add: pre_def ss_def cs_def)
  have b: "kip_hdr_bytes k @ ys = pre @ ss @ cs @ ys" by (simp add: kip_hdr_bytes_def pre_def ss_def cs_def)
  have s: "map (\<lambda>i. sec_of (drop (0x20 + 16 * i) (pre @ ss @ cs @ ys))) [0..<6] = sections k"
    using decode_array [of "sections k" sec_bytes 16 sec_of "cs @ ys"] assms(2) sec_of_bytes l(1) by (simp add: ss_def)
  have c: "map (\<lambda>i. get_le 4 (drop (0x80 + 4 * i) (pre @ ss @ cs @ ys)) 0) [0..<32] = caps k"
    using decode_array [of "caps k" "le_bytes 4" 4 "\<lambda>b. get_le 4 b 0" ys] assms(3) get_le_head [of 4, where ?'a = 32] l(1,2) by (simp add: cs_def)
  have f: "get_le 4 (pre @ zs) 0 = kip_magic k" "take 12 (drop 4 (pre @ zs)) = kip_name k" "get_le 8 (pre @ zs) 16 = tid k" "get_le 4 (pre @ zs) 24 = proc_cat k"
    "(pre @ zs) ! 28 = main_thrd_prio k" "(pre @ zs) ! 29 = def_cpu_core k" "(pre @ zs) ! 30 = kip_res k" "(pre @ zs) ! 31 = kip_flags k" for zs
    using assms(1) by (simp_all add: pre_def get_le_head get_le_skip nth_append)
  show ?thesis unfolding b kip_hdr_of_def s c f by simp
qed

text \<open>Of a header only the counter depends on the first 16 bytes.\<close>

lemma hdr_of_bytes:
  assumes "hdr_wf h" "length c = 16"
  shows "hdr_of (c @ drop 16 (hdr_bytes h)) = h\<lparr>hdr_ctr := c\<rparr>"
proof -
  define mid where "mid = le_bytes 4 (hdr_magic h) @ le_bytes 4 (hdr_base h) @ le_bytes 4 (hdr_pad0 h) @ [pkg2_ver h, bl_ver h] @ le_bytes 2 (hdr_pad1 h)"
  define cs where "cs = concat (sec_ctr h)"
  define ws where "ws = concat (map (le_bytes 4) (sec_size h))"
  define os where "os = concat (map (le_bytes 4) (sec_off h))"
  define hs where "hs = concat (sec_sha256 h)"
  have wf: "length (hdr_ctr h) = 16" "length (sec_ctr h) = 4" "\<forall>c \<in> set (sec_ctr h). length c = 16" "length (sec_size h) = 4" "length (sec_off h) = 4"
    "length (sec_sha256 h) = 4" "\<forall>c \<in> set (sec_sha256 h). length c = 32" using assms(1) by (simp_all add: hdr_wf_def)
  have l: "length cs = 64" "length mid = 16" "length ws = 16" "length os = 16" "length hs = 128"
    using wf length_concat_width [OF wf(3)] length_concat_width [OF wf(7)] by (simp_all add: cs_def mid_def ws_def os_def hs_def)
  have b: "c @ drop 16 (hdr_bytes h) = c @ cs @ mid @ ws @ os @ hs" using wf(1) by (simp add: hdr_bytes_def cs_def mid_def ws_def os_def hs_def)
  have 1: "map (\<lambda>i. take 16 (drop (0x10 + 16 * i) (c @ cs @ zs))) [0..<4] = sec_ctr h" for zs
    using decode_array [of "sec_ctr h" "\<lambda>x. x" 16 "take 16" zs] wf assms(2) by (simp add: cs_def)
  have 2: "map (\<lambda>i. get_le 4 (drop (0x60 + 4 * i) (c @ cs @ mid @ ws @ zs)) 0) [0..<4] = sec_size h" for zs
    using decode_array [of "sec_size h" "le_bytes 4" 4 "\<lambda>b. get_le 4 b 0" zs] wf get_le_head [of 4, where ?'a = 32] l assms(2) by (simp add: ws_def)
  have 3: "map (\<lambda>i. get_le 4 (drop (0x70 + 4 * i) (c @ cs @ mid @ ws @ os @ zs)) 0) [0..<4] = sec_off h" for zs
    using decode_array [of "sec_off h" "le_bytes 4" 4 "\<lambda>b. get_le 4 b 0" zs] wf get_le_head [of 4, where ?'a = 32] l assms(2) by (simp add: os_def)
  have 4: "map (\<lambda>i. take 32 (drop (0x80 + 32 * i) (c @ cs @ mid @ ws @ os @ hs))) [0..<4] = sec_sha256 h"
    using decode_array [of "sec_sha256 h" "\<lambda>x. x" 32 "take 32" "[]"] wf l assms(2) by (simp add: hs_def)
  have f: "get_le 4 (c @ cs @ mid @ zs) 0x50 = hdr_magic h" "get_le 4 (c @ cs @ mid @ zs) 0x54 = hdr_base h" "get_le 4 (c @ cs @ mid @ zs) 0x58 = hdr_pad0 h"
    "(c @ cs @ mid @ zs) ! 0x5C = pkg2_ver h" "(c @ cs @ mid @ zs) ! 0x5D = bl_ver h" "get_le 2 (c @ cs @ mid @ zs) 0x5E = hdr_pad1 h" for zs
    using l(1) assms(2) get_le_le_bytes [of 2 "[pkg2_ver h, bl_ver h]" 2 "hdr_pad1 h" zs] by (simp_all add: mid_def get_le_head get_le_skip nth_append)
  have t: "take 16 (c @ zs) = c" for zs using assms(2) by simp
  show ?thesis unfolding b hdr_of_def 1 2 3 4 f t by simp
qed

subsection \<open>Images\<close>

lemma calc_size_fold: "unat n + (\<Sum>s\<leftarrow>ss. unat (size_comp s)) < 2 ^ 32 \<Longrightarrow> unat (foldl (\<lambda>n s. n + size_comp s) n ss) = unat n + (\<Sum>s\<leftarrow>ss. unat (size_comp s))"
proof (induction ss arbitrary: n)
  case (Cons s ss)
  then have "unat (n + size_comp s) = unat n + unat (size_comp s)" by (intro unat_plus_no_wrap) simp
  then show ?case using Cons by simp
qed simp

lemma kip_wf_size:
  assumes "kip_wf k"
  shows "unat (pkg2_calc_kip1_size k) = 0x100 + length (kip_data k)" "length (kip_bytes k) = 0x100 + length (kip_data k)"
  using assms calc_size_fold [of "0x100" "sections k"] length_kip_hdr [of k] by (simp_all add: kip_wf_def pkg2_calc_kip1_size_def kip_bytes_def)

lemma calc_size_data [simp]: "pkg2_calc_kip1_size (k\<lparr>kip_data := x\<rparr>) = pkg2_calc_kip1_size k"
  by (simp add: pkg2_calc_kip1_size_def)

lemma kip_at_bytes:
  assumes "kip_wf k" "mem_get m p (length (kip_bytes k)) = kip_bytes k"
  shows "kip_at m p = k"
proof -
  have "length (kip_hdr_bytes k) = 0x100" using assms(1) length_kip_hdr by (simp add: kip_wf_def)
  moreover have "mem_get m p 0x100 @ mem_get m (p + 0x100) (length (kip_data k)) = kip_hdr_bytes k @ kip_data k"
    using assms(2) kip_wf_size(2) [OF assms(1)] mem_get_add [of m p "0x100" "length (kip_data k)"] by (simp add: kip_bytes_def)
  ultimately have h: "mem_get m p 0x100 = kip_hdr_bytes k" "mem_get m (p + 0x100) (length (kip_data k)) = kip_data k" by simp_all
  have "kip_hdr_of (mem_get m p 0x100) = k\<lparr>kip_data := []\<rparr>" using h(1) kip_hdr_of_bytes [of k "[]"] assms(1) by (simp add: kip_wf_def)
  then show ?thesis using h(2) kip_wf_size(1) [OF assms(1)] by (simp add: kip_at_def Let_def)
qed

definition ki_wf :: "pkg2_kip1_info_t \<Rightarrow> bool" where
  "ki_wf ki \<longleftrightarrow> kip_wf (ki_kip1 ki) \<and> ki_size ki = pkg2_calc_kip1_size (ki_kip1 ki)"

definition images :: "pkg2_kip1_info_t list \<Rightarrow> u8 list" where
  "images kips = concat (map (\<lambda>ki. kip_bytes (ki_kip1 ki)) kips)"

lemma ki_wf_size: "ki_wf ki \<Longrightarrow> unat (ki_size ki) = length (kip_bytes (ki_kip1 ki))" "ki_wf ki \<Longrightarrow> 0x100 \<le> length (kip_bytes (ki_kip1 ki))"
  using kip_wf_size [of "ki_kip1 ki"] by (simp_all add: ki_wf_def)

lemma parse_kips_images:
  "\<forall>ki \<in> set kips. ki_wf ki \<Longrightarrow> mem_get m p (length (images kips)) = images kips \<Longrightarrow> parse_kips_loop (length kips) m p = kips"
proof (induction kips arbitrary: p)
  case (Cons ki kips)
  define b where "b = kip_bytes (ki_kip1 ki)"
  have wf: "ki_wf ki" using Cons.prems by simp
  have "mem_get m p (length b) @ mem_get m (p + length b) (length (images kips)) = b @ images kips"
    using Cons.prems(2) mem_get_add [of m p "length b" "length (images kips)"] by (simp add: images_def b_def)
  then have g: "mem_get m p (length b) = b" "mem_get m (p + length b) (length (images kips)) = images kips" by simp_all
  have k: "kip_at m p = ki_kip1 ki" using kip_at_bytes [of "ki_kip1 ki"] wf g(1) by (simp add: ki_wf_def b_def)
  have s: "pkg2_calc_kip1_size (ki_kip1 ki) = ki_size ki" "unat (ki_size ki) = length b" using wf ki_wf_size(1) by (simp_all add: ki_wf_def b_def)
  show ?case using Cons.IH [OF _ g(2)] Cons.prems(1) k s by (simp add: Let_def)
qed simp

text \<open>The copy of the images, with the count behind the magic and the size.\<close>

lemma ini1_copy_images:
  assumes "\<forall>ki \<in> set kips. ki_wf ki" "ini1 + 12 \<le> pdst"
  shows "ini1_copy kips ini1 pdst (mem_put (ini1 + 8) (le_bytes 4 (c :: u32)) m) =
    mem_put pdst (images kips) (mem_put (ini1 + 8) (le_bytes 4 (c + of_nat (length kips))) m)"
  using assms
proof (induction kips arbitrary: pdst m c)
  case Nil
  then show ?case by (simp add: images_def)
next
  case (Cons ki kips)
  define b where "b = kip_bytes (ki_kip1 ki)"
  have sz: "unat (ki_size ki) = length b" using Cons.prems(1) ki_wf_size(1) by (simp add: b_def)
  have "ld32 (mem_put pdst b (mem_put (ini1 + 8) (le_bytes 4 c) m)) (ini1 + 8) = c"
    using Cons.prems(2) by (subst ld32_put_other) (simp_all add: ld32_put_same)
  then have "ini1_copy (ki # kips) ini1 pdst (mem_put (ini1 + 8) (le_bytes 4 c) m) =
    ini1_copy kips ini1 (pdst + length b) (mem_put (ini1 + 8) (le_bytes 4 (c + 1)) (mem_put pdst b (mem_put (ini1 + 8) (le_bytes 4 c) m)))"
    by (simp add: Let_def sz b_def [symmetric])
  also have "mem_put (ini1 + 8) (le_bytes 4 (c + 1)) (mem_put pdst b (mem_put (ini1 + 8) (le_bytes 4 c) m)) =
    mem_put (ini1 + 8) (le_bytes 4 (c + 1)) (mem_put pdst b m)"
    using Cons.prems(2) mem_put_swap [of pdst b "ini1 + 8" "le_bytes 4 c" m] by (simp add: mem_put_twice)
  also have "ini1_copy kips ini1 (pdst + length b) \<dots> =
    mem_put (pdst + length b) (images kips) (mem_put (ini1 + 8) (le_bytes 4 (c + 1 + of_nat (length kips))) (mem_put pdst b m))"
    using Cons.prems by (intro Cons.IH) simp_all
  also have "\<dots> = mem_put pdst (images (ki # kips)) (mem_put (ini1 + 8) (le_bytes 4 (c + of_nat (length (ki # kips)))) m)"
    using Cons.prems(2) mem_put_swap [of "ini1 + 8" "le_bytes 4 (c + 1 + of_nat (length kips))" pdst b m]
    by (simp add: images_def b_def [symmetric] mem_put_append add.assoc)
  finally show ?case .
qed

subsection \<open>Merging images\<close>

definition kip_lookup :: "pkg2_kip1_info_t list \<Rightarrow> u64 \<Rightarrow> pkg2_kip1_info_t option" where
  "kip_lookup info t = find (\<lambda>ki. tid (ki_kip1 ki) = t) info"

definition kip_tids :: "pkg2_kip1_info_t list \<Rightarrow> u64 list" where
  "kip_tids info = map (\<lambda>ki. tid (ki_kip1 ki)) info"

lemma has_kip_Cons [simp]: "pkg2_has_kip (ki # info) t \<longleftrightarrow> tid (ki_kip1 ki) = t \<or> pkg2_has_kip info t" "\<not> pkg2_has_kip [] t"
  by (simp_all add: pkg2_has_kip_def)

lemma kip_lookup_Cons [simp]: "kip_lookup (ki # info) t = (if tid (ki_kip1 ki) = t then Some ki else kip_lookup info t)" "kip_lookup [] t = None"
  by (simp_all add: kip_lookup_def)

lemma replace_kip_lookup:
  "tid k = t \<Longrightarrow> pkg2_has_kip info t \<Longrightarrow>
   kip_lookup (pkg2_replace_kip info t k) u = (if u = t then Some \<lparr>ki_kip1 = k, ki_size = pkg2_calc_kip1_size k\<rparr> else kip_lookup info u)"
  by (induction info t k rule: pkg2_replace_kip.induct) auto

lemma replace_kip_tids: "tid k = t \<Longrightarrow> kip_tids (pkg2_replace_kip info t k) = kip_tids info"
  by (induction info t k rule: pkg2_replace_kip.induct) (auto simp: kip_tids_def)

lemma add_kip_lookup:
  "\<not> pkg2_has_kip info (tid k) \<Longrightarrow>
   kip_lookup (pkg2_add_kip info k) u = (if u = tid k then Some \<lparr>ki_kip1 = k, ki_size = pkg2_calc_kip1_size k\<rparr> else kip_lookup info u)"
  by (induction info) (auto simp: pkg2_add_kip_def)

lemma replace_kip_wf: "kip_wf k \<Longrightarrow> \<forall>ki \<in> set info. ki_wf ki \<Longrightarrow> \<forall>ki \<in> set (pkg2_replace_kip info t k). ki_wf ki"
  by (induction info t k rule: pkg2_replace_kip.induct) (auto simp: ki_wf_def)

text \<open>
  Merging an image makes it the one found under its title and changes no other lookup; the order of
  the titles is kept, with a new one at the end, no title is added that is there already, and the
  recorded sizes stay those of the images.
\<close>

theorem pkg2_merge_kip_map:
  assumes "kip_wf k" "\<forall>ki \<in> set info. ki_wf ki"
  shows "kip_lookup (pkg2_merge_kip info k) u = (if u = tid k then Some \<lparr>ki_kip1 = k, ki_size = pkg2_calc_kip1_size k\<rparr> else kip_lookup info u) \<and>
    kip_tids (pkg2_merge_kip info k) = (if tid k \<in> set (kip_tids info) then kip_tids info else kip_tids info @ [tid k]) \<and>
    (\<forall>ki \<in> set (pkg2_merge_kip info k). ki_wf ki)"
proof -
  have h: "pkg2_has_kip info (tid k) \<longleftrightarrow> tid k \<in> set (kip_tids info)" by (force simp: pkg2_has_kip_def kip_tids_def)
  show ?thesis
  proof (cases "pkg2_has_kip info (tid k)")
    case True
    then show ?thesis using h replace_kip_lookup [OF refl True] replace_kip_tids [OF refl, of info k] replace_kip_wf [OF assms] by (simp add: pkg2_merge_kip_def)
  next
    case False
    then show ?thesis using h add_kip_lookup [OF False] assms
      by (auto simp: pkg2_merge_kip_def) (auto simp: pkg2_add_kip_def kip_tids_def ki_wf_def)
  qed
qed

subsection \<open>Counter mode in place\<close>

definition ctr_xor :: "(u8 list \<Rightarrow> bool \<Rightarrow> u8 list \<Rightarrow> u8 list) \<Rightarrow> (u32 list \<Rightarrow> u32 list) \<Rightarrow> u8 list \<Rightarrow> u8 list \<Rightarrow> u8 list \<Rightarrow> u8 list" where
  "ctr_xor F inc key ctr bs = xor_block bs (ctr_stream F inc key (words_of_bytes ctr) ((length bs + 15) div 16))"

lemma length_ctr_xor:
  assumes "se_ctr_doc env V F inc" "length ctr = 16"
  shows "length (ctr_xor F inc key ctr bs) = length bs"
  using length_ctr_stream [OF assms(1), of "words_of_bytes ctr" key "(length bs + 15) div 16"] assms(2) by (simp add: ctr_xor_def)

lemma xor_block_self: "length a \<le> length s \<Longrightarrow> xor_block (xor_block a s) s = a"
  by (auto simp: xor_block_def xor.assoc intro!: nth_equalityI)

lemma ctr_xor_twice:
  assumes "se_ctr_doc env V F inc" "length ctr = 16"
  shows "ctr_xor F inc key ctr (ctr_xor F inc key ctr bs) = bs"
  using length_ctr_stream [OF assms(1), of "words_of_bytes ctr" key "(length bs + 15) div 16"] length_ctr_xor [OF assms, of key bs] assms(2)
  by (simp add: ctr_xor_def xor_block_self)

text \<open>Bytes in front of a position do not matter behind it.\<close>

lemma ctr_xor_patched:
  assumes "se_ctr_doc env V F inc" "length ctr = 16" "length c = n" "n \<le> length bs"
  shows "\<exists>c'. length c' = n \<and> ctr_xor F inc key ctr (c @ drop n (ctr_xor F inc key ctr bs)) = c' @ drop n bs"
proof -
  define s where "s = ctr_stream F inc key (words_of_bytes ctr) ((length bs + 15) div 16)"
  have ls: "length bs \<le> length s" using length_ctr_stream [OF assms(1), of "words_of_bytes ctr" key "(length bs + 15) div 16"] assms(2) by (simp add: s_def)
  have l: "length (c @ drop n (ctr_xor F inc key ctr bs)) = length bs" using length_ctr_xor [OF assms(1,2)] assms(3,4) by simp
  have "ctr_xor F inc key ctr (c @ drop n (ctr_xor F inc key ctr bs)) = xor_block (c @ drop n (xor_block bs s)) s"
    unfolding ctr_xor_def [of _ _ _ _ "c @ _"] l by (simp add: s_def ctr_xor_def)
  also have "\<dots> = xor_block c (take n s) @ drop n bs"
    using ls assms(3,4) by (intro nth_equalityI) (auto simp: xor_block_def nth_append xor.assoc)
  finally show ?thesis using assms(3,4) ls by (intro exI [of _ "xor_block c (take n s)"]) simp
qed

lemma crypt_ctr_in_place:
  assumes "se_regs_doc env V" "se_ctr_doc env V F inc" "length ctr = 16" "length buf \<le> SE_LL_MAX_SIZE" "ks < 16" "key = key128 (V e) ks"
  shows "\<exists>e'. se_aes_crypt_ctr env ks buf buf ctr e = (False, ctr_xor F inc key ctr buf, e') \<and> kt (V e') = kt (V e)"
  using se_aes_crypt_ctr_stream [OF assms(1-4) refl assms(5), of e] unfolding ctr_xor_def assms(6) .

text \<open>The sections of a package of two sections, decrypted.\<close>

lemma mem_get_0: "mem_get m a 0 = []"
  by (simp add: mem_get_def)

lemma decrypt_two_sections:
  assumes "se_regs_doc env V" "se_ctr_doc env V F inc" "length c0 = 16" "length c1 = 16" "unat k \<le> SE_LL_MAX_SIZE" "unat s \<le> SE_LL_MAX_SIZE" "key = key128 (V e) 8"
  shows "\<exists>e'. decrypt_sections env 8 [(k, c0), (s, c1), (0, c2), (0, c3)] p m e =
    (mem_put (p + unat k) (ctr_xor F inc key c1 (mem_get m (p + unat k) (unat s))) (mem_put p (ctr_xor F inc key c0 (mem_get m p (unat k))) m), e') \<and>
    kt (V e') = kt (V e)"
proof -
  have l8: "8 < (16 :: u32)" by simp
  have z: "ctr_xor F inc key c [] = []" for c by (simp add: ctr_xor_def xor_block_def)
  have l: "length (ctr_xor F inc key c0 (mem_get m p (unat k))) = unat k" using length_ctr_xor [OF assms(2,3)] by simp
  obtain e1 where e1: "se_aes_crypt_ctr env 8 (mem_get m p (unat k)) (mem_get m p (unat k)) c0 e = (False, ctr_xor F inc key c0 (mem_get m p (unat k)), e1)" "kt (V e1) = kt (V e)"
    using crypt_ctr_in_place [OF assms(1-3) _ l8 assms(7), of "mem_get m p (unat k)"] assms(5) unfolding length_mem_get by blast
  have step: "\<exists>e'. decrypt_sections env 8 [(s, c1), (0, c2), (0, c3)] q m1 e0 = (mem_put q (ctr_xor F inc key c1 (mem_get m1 q (unat s))) m1, e') \<and> kt (V e') = kt (V e)"
    if kt0: "kt (V e0) = kt (V e)" for q m1 e0
  proof -
    have key: "key = key128 (V e0) 8" using table_quad_kt [OF kt0] assms(7) by simp
    obtain e' where e': "se_aes_crypt_ctr env 8 (mem_get m1 q (unat s)) (mem_get m1 q (unat s)) c1 e0 = (False, ctr_xor F inc key c1 (mem_get m1 q (unat s)), e')"
      "kt (V e') = kt (V e)"
      using crypt_ctr_in_place [OF assms(1,2,4) _ l8 key, of "mem_get m1 q (unat s)"] assms(6) unfolding kt0 length_mem_get by blast
    show ?thesis
    proof (cases "s = 0")
      case True
      then show ?thesis by (simp add: z mem_get_0 kt0)
    next
      case False
      then have "decrypt_sections env 8 [(s, c1), (0, c2), (0, c3)] q m1 e0 = (mem_put q (ctr_xor F inc key c1 (mem_get m1 q (unat s))) m1, e')"
        using e'(1) by (simp add: Let_def)
      then show ?thesis using e'(2) by blast
    qed
  qed
  have o: "mem_get (mem_put p (ctr_xor F inc key c0 (mem_get m p (unat k))) m) (p + unat k) (unat s) = mem_get m (p + unat k) (unat s)"
    using l by (intro mem_get_put_other) simp
  show ?thesis
  proof (cases "k = 0")
    case True
    then show ?thesis using step [of e p m] z by (simp add: mem_get_0)
  next
    case False
    then have "decrypt_sections env 8 ((k, c0) # rest) p m e = decrypt_sections env 8 rest (p + unat k) (mem_put p (ctr_xor F inc key c0 (mem_get m p (unat k))) m) e1" for rest
      using e1(1) by (simp add: Let_def)
    then show ?thesis using step [OF e1(2), of "p + unat k" "mem_put p (ctr_xor F inc key c0 (mem_get m p (unat k))) m"] unfolding o by simp
  qed
qed

subsection \<open>The size of INI1\<close>

lemma and_not_3: "y AND NOT 3 = push_bit 2 (drop_bit 2 y)" for y :: u32
proof (rule bit_eqI)
  fix k assume "possible_bit TYPE(u32) k"
  have m: "(3 :: u32) = mask 2" by (simp add: mask_numeral)
  have "2 \<le> k \<Longrightarrow> Suc (Suc (k - 2)) = k" by simp
  then show "bit (y AND NOT 3) k = bit (push_bit 2 (drop_bit 2 y)) k"
    unfolding m by (cases "k < 2") (auto simp: bit_simps dest: bit_imp_le_length)
qed

lemma unat_ALIGN_4:
  assumes "unat x \<le> 2 ^ 32 - 4"
  shows "unat (ALIGN x 4) = (unat x + 3) div 4 * 4"
proof -
  have s: "unat (x + 3) = unat x + 3" using assms by (subst unat_plus_no_wrap) simp_all
  have "x + 4 - 1 = x + 3" "(4 :: u32) - 1 = 3" by simp_all
  then have "ALIGN x 4 = push_bit 2 (drop_bit 2 (x + 3))" unfolding ALIGN_def by (simp only: and_not_3)
  also have "unat \<dots> = unat (drop_bit 2 (x + 3)) * 4 mod 2 ^ 32" by (simp add: push_bit_eq_mult unat_word_ariths)
  also have "unat (drop_bit 2 (x + 3)) = (unat x + 3) div 4" using s by (simp add: drop_bit_eq_div unat_div)
  also have "(unat x + 3) div 4 * 4 mod 2 ^ 32 = (unat x + 3) div 4 * 4" using assms by simp
  finally show ?thesis .
qed

lemma length_images_Cons: "length (images (ki # kips)) = length (kip_bytes (ki_kip1 ki)) + length (images kips)"
  by (simp add: images_def)

lemma ini1_fold:
  "\<forall>ki \<in> set kips. ki_wf ki \<Longrightarrow> unat n + length (images kips) < 2 ^ 32 \<Longrightarrow> unat (foldl (\<lambda>n ki. n + ki_size ki) n kips) = unat n + length (images kips)"
proof (induction kips arbitrary: n)
  case (Cons ki kips)
  have "unat (n + ki_size ki) = unat n + length (kip_bytes (ki_kip1 ki))"
    using Cons.prems ki_wf_size(1) [of ki] unfolding length_images_Cons by (subst unat_plus_no_wrap) simp_all
  then show ?case using Cons unfolding length_images_Cons by simp
qed (simp add: images_def)

lemma ini1_total_bounds:
  assumes "\<forall>ki \<in> set kips. ki_wf ki" "0x10 + length (images kips) \<le> SE_LL_MAX_SIZE"
  shows "0x10 + length (images kips) \<le> unat (ini1_total kips)" "unat (ini1_total kips) \<le> SE_LL_MAX_SIZE"
proof -
  define n where "n = length (images kips)"
  have n: "16 + n \<le> 0xFFFF80" using assms(2) by (simp add: n_def SE_LL_MAX_SIZE_def)
  have f: "unat (foldl (\<lambda>n ki. n + ki_size ki) 0x10 kips) = 16 + n"
    using ini1_fold [OF assms(1), of "0x10"] n by (simp add: n_def)
  have "unat (ini1_total kips) = (16 + n + 3) div 4 * 4"
    unfolding ini1_total_def using unat_ALIGN_4 [of "foldl (\<lambda>n ki. n + ki_size ki) 0x10 kips"] n unfolding f by simp
  then show "0x10 + length (images kips) \<le> unat (ini1_total kips)" "unat (ini1_total kips) \<le> SE_LL_MAX_SIZE"
    using n by (simp_all add: n_def [symmetric] SE_LL_MAX_SIZE_def)
qed

text \<open>What the build leaves at the place of INI1: magic, size, count, padding and the images.\<close>

definition ini1_image :: "pkg2_kip1_info_t list \<Rightarrow> u8 list" where
  "ini1_image kips = le_bytes 4 INI1_MAGIC @ le_bytes 4 (ini1_total kips) @ le_bytes 4 (of_nat (length kips) :: u32) @ replicate 4 0 @ images kips"

lemma length_ini1_image: "length (ini1_image kips) = 0x10 + length (images kips)"
  by (simp add: ini1_image_def)

lemma zero_word: "replicate 4 0 = le_bytes 4 (0 :: u32)"
  by (simp add: le_bytes_def numeral_eq_Suc)

lemma ini1_written:
  assumes "\<forall>ki \<in> set kips. ki_wf ki"
  shows "ini1_copy kips p (p + 16) (mem_put p (le_bytes 4 INI1_MAGIC @ le_bytes 4 (ini1_total kips) @ replicate 8 0) m) = mem_put p (ini1_image kips) m"
proof -
  have r: "replicate 8 (0 :: u8) = le_bytes 4 (0 :: u32) @ replicate 4 0" by (simp add: zero_word [symmetric] replicate_add [symmetric])
  define a where "a = le_bytes 4 INI1_MAGIC @ le_bytes 4 (ini1_total kips)"
  define m1 where "m1 = mem_put (p + 12) (replicate 4 0) (mem_put p a m)"
  have la: "length a = 8" by (simp add: a_def)
  have "mem_put p (a @ le_bytes 4 c @ replicate 4 0) m = mem_put (p + 8) (le_bytes 4 (c :: u32)) m1" for c
    unfolding m1_def mem_put_append la by (simp add: add.assoc mem_put_swap)
  then have "ini1_copy kips p (p + 16) (mem_put p (le_bytes 4 INI1_MAGIC @ le_bytes 4 (ini1_total kips) @ replicate 8 0) m) =
    mem_put (p + 16) (images kips) (mem_put p (a @ le_bytes 4 (of_nat (length kips) :: u32) @ replicate 4 0) m)"
    using ini1_copy_images [OF assms, of p "p + 16" 0 m1] unfolding r by (simp add: a_def)
  also have "\<dots> = mem_put p (ini1_image kips) m"
    unfolding ini1_image_def a_def using mem_put_append [of p "le_bytes 4 INI1_MAGIC @ le_bytes 4 (ini1_total kips) @ le_bytes 4 (of_nat (length kips) :: u32) @ replicate 4 0" "images kips" m]
    by simp
  finally show ?thesis .
qed

text \<open>Reading the list where the images are.\<close>

lemma parse_ini1:
  assumes "\<forall>ki \<in> set kips. ki_wf ki" "mem_get m p (length (ini1_image kips)) = ini1_image kips" "length kips < 2 ^ 32"
  shows "parse_kips_loop (unat (ld32 m (p + 8))) m (p + 16) = kips"
proof -
  define h where "h = le_bytes 4 INI1_MAGIC @ le_bytes 4 (ini1_total kips)"
  define c where "c = (of_nat (length kips) :: u32)"
  have i: "ini1_image kips = h @ le_bytes 4 c @ replicate 4 0 @ images kips" "length h = 8" by (simp_all add: ini1_image_def h_def c_def)
  have "mem_get m p (8 + (4 + (4 + length (images kips)))) = h @ le_bytes 4 c @ replicate 4 0 @ images kips"
    using assms(2) unfolding i by (simp add: i(2) add.assoc)
  then have "mem_get m p 8 @ mem_get m (p + 8) 4 @ mem_get m (p + 8 + 4) 4 @ mem_get m (p + 8 + 4 + 4) (length (images kips)) = h @ le_bytes 4 c @ replicate 4 0 @ images kips"
    unfolding mem_get_add .
  then have "mem_get m (p + 8) 4 = le_bytes 4 c" "mem_get m (p + 16) (length (images kips)) = images kips"
    using i(2) by (simp_all add: add.assoc)
  moreover from this have "ld32 m (p + 8) = c" using get_le_head [of 4 c "[]"] by (simp add: ld32_def)
  ultimately show ?thesis using parse_kips_images [OF assms(1)] assms(3) by (simp add: c_def unat_of_nat_u32)
qed

end
