(* ===== verification/Pkg2_Build.thy ===== *)
theory Pkg2_Build
  imports Pkg2_Round
begin

text \<open>
  Packages built and read back: what \<open>pkg2_build_encrypt\<close> writes, \<open>pkg2_decrypt\<close> opens and
  \<open>pkg2_parse_kips\<close> lists, for packages with INI1 in its own section and for those with INI1 in
  the kernel.
\<close>

subsection \<open>Hashing\<close>

text \<open>Hashing leaves the key table alone.\<close>

definition sha_regs :: "u32 list" where
  "sha_regs = [SE_SHA_MSG_LENGTH_0_REG, SE_SHA_MSG_LENGTH_1_REG, SE_SHA_MSG_LENGTH_2_REG, SE_SHA_MSG_LENGTH_3_REG,
     SE_SHA_MSG_LEFT_0_REG, SE_SHA_MSG_LEFT_1_REG, SE_SHA_MSG_LEFT_2_REG, SE_SHA_MSG_LEFT_3_REG, SE_SHA_CONFIG_REG]"

definition se_sha_keeps :: "'e se_env \<Rightarrow> ('e \<Rightarrow> se_view) \<Rightarrow> bool" where
  "se_sha_keeps env V \<longleftrightarrow>
     (\<forall>r \<in> set sha_regs. \<forall>x e. kt (V (se_write env r x e)) = kt (V e)) \<and>
     (\<forall>cfg src e. kt (V (snd (se_sha_start env cfg src e))) = kt (V e))"

lemma sha_setup_keeps: "se_sha_keeps env V \<Longrightarrow> kt (V (sha_setup env t n e)) = kt (V e)"
  by (simp add: sha_setup_def Let_def se_sha_keeps_def sha_regs_def)

lemma sha_oneshot_keeps:
  assumes "se_sha_keeps env V" "length h = 32" "se_sha_hash_256_oneshot env h src e = (r, h', pend, e')"
  shows "length h' = 32 \<and> kt (V e') = kt (V e)"
  using assms sha_setup_keeps [OF assms(1)]
  by (auto simp: se_sha_hash_256_oneshot_def se_sha_hash_256_def se_sha_keeps_def Let_def null_hash_def se_sha_hash_256_get_hash_def
      hash_words_def split_def split: if_splits)

lemma hash_sections_keeps:
  assumes "se_sha_keeps env V" "\<forall>c \<in> set (sec_sha256 hdr). length c = 32" "set is \<subseteq> {..<length (sec_sha256 hdr)}"
  shows "\<exists>shas e'. hash_sections env is p m hdr e = (hdr\<lparr>sec_sha256 := shas\<rparr>, e') \<and> length shas = length (sec_sha256 hdr) \<and>
    (\<forall>c \<in> set shas. length c = 32) \<and> kt (V e') = kt (V e)"
  using assms(2,3)
proof (induction "is" arbitrary: p hdr e)
  case Nil
  then show ?case by (auto intro!: exI [of _ "sec_sha256 hdr"])
next
  case (Cons i "is")
  obtain r h pend e1 where h: "se_sha_hash_256_oneshot env (sec_sha256 hdr ! i) (mem_get m p (unat (sec_size hdr ! i))) e = (r, h, pend, e1)"
    by (metis prod_cases4)
  have l: "length h = 32 \<and> kt (V e1) = kt (V e)" using sha_oneshot_keeps [OF assms(1) _ h] Cons.prems by simp
  define hdr1 where "hdr1 = hdr\<lparr>sec_sha256 := (sec_sha256 hdr)[i := h]\<rparr>"
  have "\<forall>c \<in> set (sec_sha256 hdr1). length c = 32" using Cons.prems(1) l set_update_subset_insert [of "sec_sha256 hdr" i h] by (auto simp: hdr1_def)
  moreover have "set is \<subseteq> {..<length (sec_sha256 hdr1)}" using Cons.prems(2) by (simp add: hdr1_def)
  ultimately obtain shas e' where "hash_sections env is (p + unat (sec_size hdr ! i)) m hdr1 e1 = (hdr1\<lparr>sec_sha256 := shas\<rparr>, e')"
    "length shas = length (sec_sha256 hdr1)" "\<forall>c \<in> set shas. length c = 32" "kt (V e') = kt (V e1)"
    using Cons.IH by blast
  then show ?case using h l by (auto simp: Let_def hdr1_def)
qed

lemma maybe_hashed:
  assumes "se_sha_keeps env V" "hdr_wf hdr"
  shows "\<exists>shas e'. (if \<not> is_exo then hash_sections env [0, 1, 2] p m hdr e else (hdr, e)) = (hdr\<lparr>sec_sha256 := shas\<rparr>, e') \<and>
    length shas = 4 \<and> (\<forall>c \<in> set shas. length c = 32) \<and> kt (V e') = kt (V e)"
proof -
  have w: "length (sec_sha256 hdr) = 4" "\<forall>c \<in> set (sec_sha256 hdr). length c = 32" using assms(2) by (simp_all add: hdr_wf_def)
  have "set [0, 1, 2] \<subseteq> {..<length (sec_sha256 hdr)}" using w(1) by simp
  from hash_sections_keeps [OF assms(1) w(2) this, of p m e] show ?thesis unfolding w(1)
    by (cases is_exo) (use w in \<open>auto intro!: exI [of _ "sec_sha256 hdr"]\<close>)
qed

subsection \<open>Opening\<close>

lemma mem_put_head: "length c \<le> length h \<Longrightarrow> mem_put a c (mem_put a h m) = mem_put a (c @ drop (length c) h) m"
  by (auto simp: mem_put_def fun_eq_iff nth_append)

lemma mem_put_outside: "i < a \<or> a + length bs \<le> i \<Longrightarrow> mem_put a bs m i = m i"
  by (auto simp: mem_put_def)

abbreviation zero_ctr :: "u8 list" where
  "zero_ctr \<equiv> replicate 16 0"

lemma decrypt_built:
  assumes laws: "se_regs_doc env V" "se_ctr_doc env V F inc" and key: "key = key128 (V e) 8"
    and hdr: "hdr_wf hdr" "hdr_magic hdr = PKG2_MAGIC" "sec_size hdr = [k, s, 0, 0]" "sec_ctr hdr = replicate 4 zero_ctr"
    and c: "length c = 16" "c = hdr_ctr hdr" and ver: "t210b01 \<or> mkey \<noteq> HOS_MKEY_VER_700"
    and m: "m = mem_put 0x100 (c @ drop 16 (ctr_xor F inc key c (hdr_bytes hdr))) m4"
    and K: "length K = unat k" "unat k \<le> SE_LL_MAX_SIZE" "mem_get m4 0x200 (unat k) = ctr_xor F inc key zero_ctr K"
    and S: "length S = unat s" "unat s \<le> SE_LL_MAX_SIZE" "mem_get m4 (0x200 + unat k) (unat s) = ctr_xor F inc key zero_ctr S"
  shows "\<exists>hdr' m' e'. pkg2_decrypt env t210b01 mkey is_exo m e g = (Some hdr', m', e', g\<lparr>pkg2_keyslot := 8\<rparr>) \<and> sec_size hdr' = [k, s, 0, 0] \<and>
    mem_get m' 0x200 (unat k) = K \<and> mem_get m' (0x200 + unat k) (unat s) = S \<and> kt (V e') = kt (V e)"
proof -
  define raw where "raw = c @ drop 16 (ctr_xor F inc key c (hdr_bytes hdr))"
  have lh: "length (hdr_bytes hdr) = 0x100" by (rule length_hdr_bytes [OF hdr(1)])
  have lx: "length (ctr_xor F inc key c (hdr_bytes hdr)) = 0x100" using length_ctr_xor [OF laws(2) c(1)] lh by simp
  have lr: "length raw = 0x100" using lx c(1) by (simp add: raw_def)
  have r: "mem_get m 0x100 0x100 = raw" unfolding m raw_def [symmetric] using lr by simp
  have l8: "8 < (16 :: u32)" by simp
  have "length raw \<le> SE_LL_MAX_SIZE" using lr by (simp add: SE_LL_MAX_SIZE_def)
  then obtain e1 where e1: "se_aes_crypt_ctr env 8 raw raw c e = (False, ctr_xor F inc key c raw, e1)" "kt (V e1) = kt (V e)"
    using crypt_ctr_in_place [OF laws c(1) _ l8 key, of raw] by blast
  obtain c' where c': "length c' = 16" "ctr_xor F inc key c raw = c' @ drop 16 (hdr_bytes hdr)"
    using ctr_xor_patched [OF laws(2) c(1) c(1), of "hdr_bytes hdr" key] lh unfolding raw_def by auto
  define m1 where "m1 = mem_put 0x100 (c' @ drop 16 (hdr_bytes hdr)) m"
  have "mem_get m1 0x100 0x100 = c' @ drop 16 (hdr_bytes hdr)" using c'(1) lh by (simp add: m1_def)
  then have h: "hdr_of (mem_get m1 0x100 0x100) = hdr\<lparr>hdr_ctr := c'\<rparr>" using hdr_of_bytes [OF hdr(1) c'(1)] by simp
  have key1: "key = key128 (V e1) 8" using table_quad_kt [OF e1(2)] key by simp
  have o: "mem_get m1 a n = mem_get m4 a n" if "0x200 \<le> a" for a n
    using that lr c'(1) lh unfolding m1_def m raw_def [symmetric] by (subst mem_get_put_other; simp)+
  have z: "zip [k, s, 0, 0] (replicate 4 zero_ctr) = [(k, zero_ctr), (s, zero_ctr), (0, zero_ctr), (0, zero_ctr)]"
    by (simp add: numeral_eq_Suc)
  have lz: "length zero_ctr = 16" by simp
  define m2 where "m2 = mem_put (0x200 + unat k) (ctr_xor F inc key zero_ctr (mem_get m1 (0x200 + unat k) (unat s)))
      (mem_put 0x200 (ctr_xor F inc key zero_ctr (mem_get m1 0x200 (unat k))) m1)"
  obtain e2 where e2: "decrypt_sections env 8 [(k, zero_ctr), (s, zero_ctr), (0, zero_ctr), (0, zero_ctr)] 0x200 m1 e1 = (m2, e2)" "kt (V e2) = kt (V e1)"
    using decrypt_two_sections [OF laws lz lz K(2) S(2) key1, of zero_ctr zero_ctr "0x200" m1] unfolding m2_def by blast
  have KS: "ctr_xor F inc key zero_ctr (mem_get m1 0x200 (unat k)) = K" "ctr_xor F inc key zero_ctr (mem_get m1 (0x200 + unat k) (unat s)) = S"
    using ctr_xor_twice [OF laws(2) lz] K(3) S(3) by (simp_all add: o)
  have "mem_get m2 0x200 (unat k) = K" "mem_get m2 (0x200 + unat k) (unat s) = S"
    unfolding m2_def KS using K(1) S(1) by (simp_all add: mem_get_put_other)
  moreover have "pkg2_decrypt env t210b01 mkey is_exo m e g = (Some (hdr\<lparr>hdr_ctr := c'\<rparr>), m2, e2, g\<lparr>pkg2_keyslot := 8\<rparr>)"
  proof -
    have old: "(\<not> t210b01 \<and> mkey = HOS_MKEY_VER_700) = False" using ver by simp
    have t: "take 16 raw = c" using c(1) by (simp add: raw_def)
    show ?thesis unfolding pkg2_decrypt_def Let_def old if_False r t using e1(1) c'(2) h hdr(2-4) e2(1) z by (simp add: m1_def)
  qed
  ultimately show ?thesis using hdr(3) e1(2) e2(2) by auto
qed

subsection \<open>Sealing\<close>

lemma pkg2_seal_ok:
  assumes laws: "se_regs_doc env V" "se_ctr_doc env V F inc" "se_sha_keeps env V" and key: "key = key128 (V e) 8" and wf: "hdr_wf hdr3"
  shows "\<exists>shas c e'. pkg2_seal env 8 kv is_exo n hdr3 m e =
      (mem_put 0x100 (c @ drop 16 (ctr_xor F inc key c (hdr_bytes (hdr3\<lparr>sec_sha256 := shas, hdr_ctr := c\<rparr>)))) m, e') \<and>
    hdr_wf (hdr3\<lparr>sec_sha256 := shas, hdr_ctr := c\<rparr>) \<and> length c = 16 \<and> kt (V e') = kt (V e)"
proof -
  obtain shas e4 where h: "(if \<not> is_exo then hash_sections env [0, 1, 2] 0x200 m hdr3 e else (hdr3, e)) = (hdr3\<lparr>sec_sha256 := shas\<rparr>, e4)"
    "length shas = 4" "\<forall>c \<in> set shas. length c = 32" "kt (V e4) = kt (V e)"
    using maybe_hashed [OF laws(3) wf] by blast
  define c where "c = le_bytes 4 n @ [kv] @ replicate 11 0"
  define hdr where "hdr = hdr3\<lparr>sec_sha256 := shas, hdr_ctr := c\<rparr>"
  have lc: "length c = 16" by (simp add: c_def)
  have wfh: "hdr_wf hdr" using wf h(2,3) lc by (simp add: hdr_def hdr_wf_def)
  have lh: "length (hdr_bytes hdr) = 0x100" by (rule length_hdr_bytes [OF wfh])
  have lh2: "length (hdr_bytes hdr) \<le> SE_LL_MAX_SIZE" and l8: "8 < (16 :: u32)" using lh by (simp_all add: SE_LL_MAX_SIZE_def)
  have key4: "key = key128 (V e4) 8" using table_quad_kt [OF h(4)] key by simp
  obtain e5 where e5: "se_aes_crypt_ctr env 8 (hdr_bytes hdr) (hdr_bytes hdr) c e4 = (False, ctr_xor F inc key c (hdr_bytes hdr), e5)" "kt (V e5) = kt (V e4)"
    using crypt_ctr_in_place [OF laws(1,2) lc lh2 l8 key4] by blast
  have lx: "length (ctr_xor F inc key c (hdr_bytes hdr)) = 0x100" using length_ctr_xor [OF laws(2) lc] lh by simp
  have u8: "(ucast (8 :: u8) :: u32) = 8" by simp
  have h4: "hdr3\<lparr>sec_sha256 := shas, hdr_ctr := c\<rparr> = hdr" by (simp add: hdr_def)
  have "pkg2_seal env 8 kv is_exo n hdr3 m e = (mem_put 0x100 c (mem_put 0x100 (ctr_xor F inc key c (hdr_bytes hdr)) m), e5)"
    unfolding pkg2_seal_def by (simp only: Let_def h(1) prod.case c_def [symmetric] h4 u8 e5(1))
  also have "mem_put 0x100 c (mem_put 0x100 (ctr_xor F inc key c (hdr_bytes hdr)) m) = mem_put 0x100 (c @ drop 16 (ctr_xor F inc key c (hdr_bytes hdr))) m"
    using lc lx by (simp add: mem_put_head)
  finally show ?thesis using wfh lc e5(2) h(4) unfolding hdr_def by auto
qed

subsection \<open>INI1 in its own section\<close>

lemma mem_get_at: "mem_get (mem_at m a) p n = mem_get m (a + p) n"
proof -
  have "map (\<lambda>i. m (a + i)) [p..<p + n] = map m [a + p..<a + p + n]"
    by (intro nth_equalityI) (simp_all add: add.assoc)
  then show ?thesis by (simp add: mem_get_def mem_at_def)
qed

lemma length_kips_images: "\<forall>ki \<in> set kips. ki_wf ki \<Longrightarrow> 0x100 * length kips \<le> length (images kips)"
proof (induction kips)
  case (Cons ki kips)
  then show ?case using ki_wf_size(2) [of ki] unfolding length_images_Cons by simp
qed (simp add: images_def)

lemma list4: "replicate 4 x = [x, x, x, x]"
  by (simp add: numeral_eq_Suc)

text \<open>The section as it is encrypted, and the image at its start.\<close>

lemma pkg2_ini1_build_old:
  assumes laws: "se_regs_doc env V" "se_ctr_doc env V F inc" and key: "key = key128 (V e) 8" and kips: "\<forall>ki \<in> set kips. ki_wf ki"
    and fits: "0x10 + length (images kips) \<le> SE_LL_MAX_SIZE" and ctr: "sec_ctr hdr ! 1 = zero_ctr"
  shows "\<exists>S e'. pkg2_ini1_build env p None hdr kips False g m e =
      (ini1_total kips, hdr\<lparr>sec_size := (sec_size hdr)[1 := ini1_total kips], sec_off := (sec_off hdr)[1 := 0x14080000]\<rparr>,
       mem_put p (ctr_xor F inc key zero_ctr S) (mem_put p (ini1_image kips) m), e') \<and>
    length S = unat (ini1_total kips) \<and> take (length (ini1_image kips)) S = ini1_image kips \<and> kt (V e') = kt (V e)"
proof -
  define m2 where "m2 = mem_put p (ini1_image kips) m"
  define S where "S = mem_get m2 p (unat (ini1_total kips))"
  have b: "length (ini1_image kips) \<le> unat (ini1_total kips)" "unat (ini1_total kips) \<le> SE_LL_MAX_SIZE"
    using ini1_total_bounds [OF kips fits] by (simp_all add: length_ini1_image)
  have "take (length (ini1_image kips)) S = mem_get m2 p (length (ini1_image kips))" unfolding S_def using b(1) by (rule take_mem_get)
  then have t: "take (length (ini1_image kips)) S = ini1_image kips" by (simp add: m2_def)
  have l8: "8 < (16 :: u32)" and lz: "length zero_ctr = 16" and lS: "length S \<le> SE_LL_MAX_SIZE" using b(2) by (simp_all add: S_def)
  obtain e1 where e1: "se_aes_crypt_ctr env 8 S S zero_ctr e = (False, ctr_xor F inc key zero_ctr S, e1)" "kt (V e1) = kt (V e)"
    using crypt_ctr_in_place [OF laws lz lS l8 key] by blast
  have "pkg2_ini1_build env p None hdr kips False g m e =
      (ini1_total kips, hdr\<lparr>sec_size := (sec_size hdr)[1 := ini1_total kips], sec_off := (sec_off hdr)[1 := 0x14080000]\<rparr>, mem_put p (ctr_xor F inc key zero_ctr S) m2, e1)"
    unfolding pkg2_ini1_build_def Let_def using ini1_written [OF kips] e1(1) ctr by (simp add: PKG2_SEC_INI1_def m2_def S_def)
  then show ?thesis using t e1(2) by (auto simp: m2_def S_def)
qed

lemma hdr_zero_wf: "hdr_wf zero_hdr"
  by (simp add: hdr_wf_def zero_hdr_def)

lemma pkg2_build_old:
  assumes laws: "se_regs_doc env V" "se_ctr_doc env V F inc" "se_sha_keeps env V" and key: "key = key128 (V e) 8"
    and kips: "\<forall>ki \<in> set kips. ki_wf ki" "0x10 + length (images kips) \<le> SE_LL_MAX_SIZE"
    and krn: "\<not> kernel_is_meso krn" "unat ksz \<le> SE_LL_MAX_SIZE" and slot: "pkg2_keyslot g = 8 \<or> pkg2_keyslot g = 9"
  shows "\<exists>hdr c m4 S e'. pkg2_build_encrypt env krn ksz mkey kips is_exo False g m e =
      (False, g\<lparr>pkg2_keyslot := 8\<rparr>, mem_put 0x100 (c @ drop 16 (ctr_xor F inc key c (hdr_bytes hdr))) m4, e') \<and>
    hdr_wf hdr \<and> hdr_magic hdr = PKG2_MAGIC \<and> sec_size hdr = [ksz, ini1_total kips, 0, 0] \<and> sec_ctr hdr = replicate 4 zero_ctr \<and> length c = 16 \<and> c = hdr_ctr hdr \<and>
    mem_get m4 0x200 (unat ksz) = ctr_xor F inc key zero_ctr (mem_get krn 0 (unat ksz)) \<and>
    mem_get m4 (0x200 + unat ksz) (unat (ini1_total kips)) = ctr_xor F inc key zero_ctr S \<and> length S = unat (ini1_total kips) \<and>
    take (length (ini1_image kips)) S = ini1_image kips \<and> kt (V e') = kt (V e)"
proof -
  define K where "K = mem_get krn 0 (unat ksz)"
  define k where "k = unat ksz"
  define z :: pkg2_hdr_t where "z = zero_hdr\<lparr>hdr_magic := PKG2_MAGIC, pkg2_ver := 0xFF, hdr_base := 0x10000000\<rparr>"
  define m1 where "m1 = mem_put 0x200 K (mem_put 0x100 (hdr_bytes z) (mem_put 0 (replicate 0x100 0) m))"
  define hdr2 where "hdr2 = z\<lparr>sec_off := [0x10000000, 0, 0, 0], sec_size := [ksz, 0, 0, 0]\<rparr>"
  have l8: "8 < (16 :: u32)" and lz: "length zero_ctr = 16" and lK: "length K \<le> SE_LL_MAX_SIZE" "length K = k" using krn(2) by (simp_all add: K_def k_def)
  have bk: "pkg2_build_kernel env krn ksz z kips False g (mem_put 0x100 (hdr_bytes z) (mem_put 0 (replicate 0x100 0) m)) e =
      (ksz, z\<lparr>sec_off := [0x10000000, 0, 0, 0]\<rparr>, m1, e)"
    by (simp add: pkg2_build_kernel_def Let_def m1_def K_def z_def zero_hdr_def list4 PKG2_SEC_KERNEL_def)
  have gK: "mem_get m1 0x200 (unat ksz) = K" using lK(2) by (simp add: m1_def k_def)
  obtain e2 where e2: "se_aes_crypt_ctr env 8 K K zero_ctr e = (False, ctr_xor F inc key zero_ctr K, e2)" "kt (V e2) = kt (V e)"
    using crypt_ctr_in_place [OF laws(1,2) lz lK(1) l8 key] by blast
  have lXK: "length (ctr_xor F inc key zero_ctr K) = k" using length_ctr_xor [OF laws(2) lz] lK(2) by simp
  define m3 where "m3 = mem_put 0x200 (ctr_xor F inc key zero_ctr K) m1"
  have key2: "key = key128 (V e2) 8" using table_quad_kt [OF e2(2)] key by simp
  have c2: "sec_ctr hdr2 ! 1 = zero_ctr" "sec_ctr hdr2 ! 0 = zero_ctr" by (simp_all add: hdr2_def z_def zero_hdr_def list4)
  define hdr3 where "hdr3 = hdr2\<lparr>sec_size := [ksz, ini1_total kips, 0, 0], sec_off := [0x10000000, 0x14080000, 0, 0]\<rparr>"
  obtain S e3 where i: "pkg2_ini1_build env (0x200 + unat ksz) None hdr2 kips False g m3 e2 =
      (ini1_total kips, hdr3, mem_put (0x200 + k) (ctr_xor F inc key zero_ctr S) (mem_put (0x200 + k) (ini1_image kips) m3), e3)"
    "length S = unat (ini1_total kips)" "take (length (ini1_image kips)) S = ini1_image kips" "kt (V e3) = kt (V e2)"
    using pkg2_ini1_build_old [OF laws(1,2) key2 kips c2(1), of "0x200 + k" g m3] unfolding hdr3_def hdr2_def k_def by auto
  define m4 where "m4 = mem_put (0x200 + k) (ctr_xor F inc key zero_ctr S) (mem_put (0x200 + k) (ini1_image kips) m3)"
  have wf3: "hdr_wf hdr3" using hdr_zero_wf by (simp add: hdr3_def hdr2_def z_def hdr_wf_def zero_hdr_def)
  define kv where "kv = (if pkg2_keyslot g = 9 then HOS_MKEY_VER_810 + 1 else if mkey \<noteq> 0 then mkey + 1 else 0)"
  have key3: "key = key128 (V e3) 8" using table_quad_kt [of "V e3" "V e"] i(4) e2(2) key by simp
  obtain shas c e5 where h: "pkg2_seal env 8 kv is_exo (0x200 + ksz + ini1_total kips) hdr3 m4 e3 =
      (mem_put 0x100 (c @ drop 16 (ctr_xor F inc key c (hdr_bytes (hdr3\<lparr>sec_sha256 := shas, hdr_ctr := c\<rparr>)))) m4, e5)"
    "hdr_wf (hdr3\<lparr>sec_sha256 := shas, hdr_ctr := c\<rparr>)" "length c = 16" "kt (V e5) = kt (V e3)"
    using pkg2_seal_ok [OF laws key3 wf3] by blast
  define hdr where "hdr = hdr3\<lparr>sec_sha256 := shas, hdr_ctr := c\<rparr>"
  have s8: "(if pkg2_keyslot g = 9 then 8 else pkg2_keyslot g) = 8" using slot by auto
  have nk: "(False \<or> kernel_is_meso krn) = False" and u8: "(ucast (8 :: u8) :: u32) = 8" using krn(1) by simp_all
  have h2: "z\<lparr>sec_off := [0x10000000, 0, 0, 0], sec_size := (sec_size (z\<lparr>sec_off := [0x10000000, 0, 0, 0]\<rparr>))[0 := ksz]\<rparr> = hdr2"
    by (simp add: hdr2_def z_def zero_hdr_def list4)
  have "pkg2_build_encrypt env krn ksz mkey kips is_exo False g m e =
      (False, g\<lparr>pkg2_keyslot := 8\<rparr>, mem_put 0x100 (c @ drop 16 (ctr_xor F inc key c (hdr_bytes hdr))) m4, e5)"
    unfolding pkg2_build_encrypt_def
    by (simp only: Let_def s8 kv_def [symmetric] nk not_False_eq_True if_True z_def [symmetric] bk prod.case PKG2_SEC_KERNEL_def gK h2 c2 u8 e2(1)
        m3_def [symmetric] i(1) m4_def [symmetric] h(1) hdr_def [symmetric])
  moreover have "mem_get m4 0x200 (unat ksz) = ctr_xor F inc key zero_ctr K"
    using lXK by (simp add: m4_def m3_def k_def mem_get_put_other)
  moreover have "mem_get m4 (0x200 + unat ksz) (unat (ini1_total kips)) = ctr_xor F inc key zero_ctr S"
    using length_ctr_xor [OF laws(2) lz, of key S] i(2) by (simp add: m4_def k_def)
  moreover have "hdr_magic hdr = PKG2_MAGIC" "sec_size hdr = [ksz, ini1_total kips, 0, 0]" "sec_ctr hdr = replicate 4 zero_ctr" "c = hdr_ctr hdr"
    by (simp_all add: hdr_def hdr3_def hdr2_def z_def zero_hdr_def)
  ultimately show ?thesis using h(2-4) i(2-4) e2(2) unfolding K_def hdr_def [symmetric] by auto
qed

lemma ini1_prefix:
  assumes "mem_get m p n = S" "take (length (ini1_image kips)) S = ini1_image kips" "length (ini1_image kips) \<le> n"
  shows "mem_get m p (length (ini1_image kips)) = ini1_image kips"
  using take_mem_get [OF assms(3), of m p] assms(1,2) by simp

lemma kips_count:
  assumes "\<forall>ki \<in> set kips. ki_wf ki" "0x10 + length (images kips) \<le> SE_LL_MAX_SIZE"
  shows "length kips < 2 ^ 32"
  using length_kips_images [OF assms(1)] assms(2) by (simp add: SE_LL_MAX_SIZE_def)

text \<open>
  C3. A package with INI1 in its own section that is built and then opened gives back what it was
  built from: the header decrypts although its counter is stored in the clear over the encrypted one,
  the kernel section is the kernel, and the list that is parsed from the INI1 section is the list of
  process images, in order and with their sizes. This holds for every kernel and list that fit the
  engine's transfers, with or without section hashes, and also when the package was opened with the
  key of version 7 before (the build goes back to the default slot).
\<close>

theorem pkg2_build_decrypt_parse:
  assumes "se_regs_doc env V" "se_ctr_doc env V F inc" "se_sha_keeps env V"
    and "\<forall>ki \<in> set kips. ki_wf ki" "0x10 + length (images kips) \<le> SE_LL_MAX_SIZE"
    and "\<not> kernel_is_meso krn" "unat ksz \<le> SE_LL_MAX_SIZE" "pkg2_keyslot g = 8 \<or> pkg2_keyslot g = 9" "t210b01 \<or> mkey' \<noteq> HOS_MKEY_VER_700"
    and "pkg2_build_encrypt env krn ksz mkey kips is_exo False g m e = (new2, g1, m1, e1)"
  shows "\<exists>hdr m2 e2. pkg2_decrypt env t210b01 mkey' is_exo' m1 e1 g1 = (Some hdr, m2, e2, g1) \<and> \<not> new2 \<and>
    mem_get m2 0x200 (unat ksz) = mem_get krn 0 (unat ksz) \<and> pkg2_parse_kips hdr (mem_at m2 0x200) False g1 [] = (False, kips, False, g1)"
proof -
  obtain hdr c m4 S e' where b: "pkg2_build_encrypt env krn ksz mkey kips is_exo False g m e =
      (False, g\<lparr>pkg2_keyslot := 8\<rparr>, mem_put 0x100 (c @ drop 16 (ctr_xor F inc (key128 (V e) 8) c (hdr_bytes hdr))) m4, e')"
    and h: "hdr_wf hdr" "hdr_magic hdr = PKG2_MAGIC" "sec_size hdr = [ksz, ini1_total kips, 0, 0]" "sec_ctr hdr = replicate 4 zero_ctr" "length c = 16" "c = hdr_ctr hdr"
    and K: "mem_get m4 0x200 (unat ksz) = ctr_xor F inc (key128 (V e) 8) zero_ctr (mem_get krn 0 (unat ksz))"
    and S: "mem_get m4 (0x200 + unat ksz) (unat (ini1_total kips)) = ctr_xor F inc (key128 (V e) 8) zero_ctr S" "length S = unat (ini1_total kips)"
      "take (length (ini1_image kips)) S = ini1_image kips"
    and e': "kt (V e') = kt (V e)"
    using pkg2_build_old [OF assms(1-3) refl assms(4-8), where e = e and mkey = mkey and is_exo = is_exo and m = m] by (elim exE conjE) rule
  note t = ini1_total_bounds [OF assms(4,5)]
  have r: "new2 = False" "g1 = g\<lparr>pkg2_keyslot := 8\<rparr>" "m1 = mem_put 0x100 (c @ drop 16 (ctr_xor F inc (key128 (V e) 8) c (hdr_bytes hdr))) m4" "e1 = e'"
    using b assms(10) by simp_all
  have key: "key128 (V e) 8 = key128 (V e1) 8" using table_quad_kt [OF e'] r(4) by simp
  have lk: "length (mem_get krn 0 (unat ksz)) = unat ksz" by simp
  obtain hdr' m2 e2 where d: "pkg2_decrypt env t210b01 mkey' is_exo' m1 e1 g1 = (Some hdr', m2, e2, g1\<lparr>pkg2_keyslot := 8\<rparr>)"
    and hdr': "sec_size hdr' = [ksz, ini1_total kips, 0, 0]"
    and m2: "mem_get m2 0x200 (unat ksz) = mem_get krn 0 (unat ksz)" "mem_get m2 (0x200 + unat ksz) (unat (ini1_total kips)) = S"
    using decrypt_built [OF assms(1,2) key h(1-4) h(5,6) assms(9) r(3) lk assms(7) K S(2) t(2) S(1), of is_exo' g1] by (elim exE conjE) rule
  have img: "mem_get (mem_at m2 0x200) (unat ksz) (length (ini1_image kips)) = ini1_image kips"
    unfolding mem_get_at using ini1_prefix [OF m2(2) S(3)] t(1) by (simp add: length_ini1_image)
  have nz: "ini1_total kips \<noteq> 0" using t(1) by auto
  have "pkg2_parse_kips hdr' (mem_at m2 0x200) False g1 [] = (False, kips, False, g1)"
    unfolding pkg2_parse_kips_def Let_def hdr' PKG2_SEC_INI1_def PKG2_SEC_KERNEL_def
    using nz parse_ini1 [OF assms(4) img kips_count [OF assms(4,5)]] by simp
  then show ?thesis using d m2(1) r(1,2) by auto
qed

end
