(* ===== verification/Pkg2_Newkern.thy ===== *)
theory Pkg2_Newkern
  imports Pkg2_Build
begin

text \<open>
  Packages with INI1 embedded in the kernel: the place is found by scanning the kernel's start code,
  and the build puts the new list there or behind the kernel and patches the reference to it.
\<close>

subsection \<open>Finding INI1\<close>

text \<open>
  The variables describe this kernel: INI1 was found, the reference to it is behind the code that
  the scan reads, and INI1 is behind the reference and ends inside the kernel.
\<close>

definition newkern_layout :: "mem \<Rightarrow> u32 \<Rightarrow> pkg2_vars \<Rightarrow> bool" where
  "newkern_layout krn ksz g \<longleftrightarrow> g = pkg2_get_newkern_info krn g \<and> newkern_ini1_start g \<noteq> 0 \<and>
     unat (newkern_crt_start krn) + 0x110 \<le> unat (newkern_ini1_info g) \<and> unat (newkern_ini1_info g) + 12 \<le> unat (newkern_ini1_start g) \<and>
     unat (newkern_ini1_start g) \<le> unat (newkern_ini1_end g) \<and> unat (newkern_ini1_end g) \<le> unat ksz"

lemma mem_get_agree: "(\<And>i. a \<le> i \<Longrightarrow> i < a + n \<Longrightarrow> m i = m' i) \<Longrightarrow> mem_get m a n = mem_get m' a n"
  by (simp add: mem_get_def)

lemma ld32_agree: "(\<And>i. a \<le> i \<Longrightarrow> i < a + 4 \<Longrightarrow> m i = m' i) \<Longrightarrow> ld32 m a = ld32 m' a"
  using mem_get_agree [of a 4 m m'] by (simp add: ld32_def)

lemma newkern_info_patched:
  assumes "newkern_layout krn ksz g" and d: "\<And>i. i < unat (newkern_ini1_info g) \<Longrightarrow> d i = krn i"
    "\<And>i. unat (newkern_ini1_info g) + 4 \<le> i \<Longrightarrow> i < unat (newkern_ini1_info g) + 12 \<Longrightarrow> d i = krn i"
  shows "pkg2_get_newkern_info d g' = g'\<lparr>newkern_ini1_info := newkern_ini1_info g, newkern_ini1_rela := newkern_ini1_rela g,
    newkern_ini1_start := ld32 d (unat (newkern_ini1_info g)) + newkern_ini1_rela g, newkern_ini1_end := newkern_ini1_end g\<rparr>"
proof -
  define crt where "crt = newkern_crt_start krn"
  define info where "info = newkern_ini1_info g"
  have l: "g = pkg2_get_newkern_info krn g" "newkern_ini1_start g \<noteq> 0" "unat crt + 0x110 \<le> unat info"
    using assms(1) by (simp_all add: newkern_layout_def crt_def info_def)
  have w: "ld32 d a = ld32 krn a" if "a + 4 \<le> unat info" for a using that d(1) by (intro ld32_agree) (simp add: info_def)
  have crt_d: "newkern_crt_start d = crt" using w [of 0] l(3) by (simp add: newkern_crt_start_def crt_def)
  have "(ld32 d (unat crt + x) = PKG2_NEWKERN_GET_INI1_HEURISTIC) = (ld32 krn (unat crt + x) = PKG2_NEWKERN_GET_INI1_HEURISTIC)"
    if "x \<in> set (map (\<lambda>i. 4 * i) [0..<64])" for x
    using w [of "unat crt + x"] l(3) that by auto
  then have scan_d: "newkern_scan d crt = newkern_scan krn crt" unfolding newkern_scan_def by (intro find_cong) simp_all
  obtain x where x: "newkern_scan krn crt = Some x"
  proof (cases "newkern_scan krn crt")
    case None
    then have "newkern_ini1_start (pkg2_get_newkern_info krn g) = 0" by (simp add: pkg2_get_newkern_info_def Let_def crt_def)
    then show ?thesis using l(1,2) by simp
  qed
  then have x64: "x \<le> 252" by (auto simp: newkern_scan_def find_Some_iff)
  define info0 where "info0 = crt + of_nat x + 12 + (if crt \<noteq> 0 then 4 else 0)"
  have "unat info < 2 ^ 32" by simp
  then have "unat crt + 0x110 < 2 ^ 32" using l(3) by linarith
  then have "unat (crt + of_nat x + 12) = unat crt + x + 12"
    using x64 by (simp add: unat_plus_no_wrap unat_of_nat_u32)
  moreover define y where "y = crt + of_nat x + 12"
  ultimately have y: "unat y = unat crt + x + 12" by simp
  then have "unat (y + 4) = unat y + 4" using x64 \<open>unat crt + 0x110 < 2 ^ 32\<close> by (intro unat_plus_no_wrap [THEN trans]) simp_all
  then have "unat info0 + 4 \<le> unat crt + 0x110" unfolding info0_def y_def [symmetric] using x64 y by simp
  then have info0: "ld32 d (unat info0) = ld32 krn (unat info0)" using w l(3) by simp
  define i where "i = info0 + drop_bit 3 (ld32 krn (unat info0) AND 0xFFFF)"
  have r: "newkern_ini1_info (pkg2_get_newkern_info krn g) = i" "newkern_ini1_rela (pkg2_get_newkern_info krn g) = (if crt \<noteq> 0 then i else 0)"
    "newkern_ini1_end (pkg2_get_newkern_info krn g) = (if crt \<noteq> 0 then ld32 krn (unat i + 8) + i + 8 else ld32 krn (unat i + 8))"
    by (simp_all add: pkg2_get_newkern_info_def Let_def crt_def [symmetric] x info0_def [symmetric] i_def)
  then have r: "info = i" "newkern_ini1_rela g = (if crt \<noteq> 0 then i else 0)"
    "newkern_ini1_end g = (if crt \<noteq> 0 then ld32 krn (unat i + 8) + i + 8 else ld32 krn (unat i + 8))"
    using l(1) by (simp_all add: info_def)
  have e8: "ld32 d (unat i + 8) = ld32 krn (unat i + 8)" using d(2) r(1) by (intro ld32_agree) (simp add: info_def)
  show ?thesis
    unfolding pkg2_get_newkern_info_def Let_def crt_d scan_d x option.case info0_def [symmetric] info0 i_def [symmetric] e8
    using r by (simp add: info_def)
qed

lemma newkern_start_eq:
  assumes "newkern_layout krn ksz g"
  shows "newkern_ini1_start g = ld32 krn (unat (newkern_ini1_info g)) + newkern_ini1_rela g"
proof -
  have "newkern_ini1_start (pkg2_get_newkern_info krn g) = ld32 krn (unat (newkern_ini1_info g)) + newkern_ini1_rela g"
    by (subst newkern_info_patched [OF assms]) simp_all
  then show ?thesis using assms by (simp add: newkern_layout_def)
qed

subsection \<open>The kernel with the new list\<close>

text \<open>
  A kernel \<open>d\<close> that carries the list: the code in front of the reference and the words behind it
  are the kernel's, INI1 is where the reference points, and every byte outside the reference and the
  old INI1 is kept.
\<close>

definition carries :: "mem \<Rightarrow> mem \<Rightarrow> u32 \<Rightarrow> pkg2_vars \<Rightarrow> pkg2_kip1_info_t list \<Rightarrow> u32 \<Rightarrow> bool" where
  "carries d krn ksz g kips ksz' \<longleftrightarrow>
     (let info = unat (newkern_ini1_info g); p = ld32 d info + newkern_ini1_rela g
      in p \<noteq> 0 \<and> unat p + length (ini1_image kips) \<le> unat ksz' \<and> unat ksz \<le> unat ksz' \<and>
         mem_get d (unat p) (length (ini1_image kips)) = ini1_image kips \<and>
         (\<forall>i < unat ksz. \<not> (info \<le> i \<and> i < info + 4) \<and> \<not> (unat (newkern_ini1_start g) \<le> i \<and> i < unat (newkern_ini1_end g)) \<longrightarrow> d i = krn i))"

lemma carries_cong:
  assumes "carries d krn ksz g kips ksz'" "newkern_layout krn ksz g" "\<And>i. i < unat ksz' \<Longrightarrow> d' i = d i"
  shows "carries d' krn ksz g kips ksz'"
proof -
  define info where "info = unat (newkern_ini1_info g)"
  define p where "p = unat (ld32 d info + newkern_ini1_rela g)"
  have i: "info + 4 \<le> unat ksz" using assms(2) by (simp add: newkern_layout_def info_def)
  have k: "unat ksz \<le> unat ksz'" "p + length (ini1_image kips) \<le> unat ksz'"
    using assms(1) by (simp_all add: carries_def Let_def p_def info_def)
  have "ld32 d' info = ld32 d info" using assms(3) i k(1) by (intro ld32_agree) simp
  moreover have "mem_get d' p (length (ini1_image kips)) = mem_get d p (length (ini1_image kips))"
    using assms(3) k(2) by (intro mem_get_agree) simp
  moreover have "d' i = d i" if "i < unat ksz" for i using assms(3) k(1) that by simp
  ultimately show ?thesis using assms(1) unfolding carries_def Let_def info_def [symmetric] p_def by simp
qed

lemma mem_get_at_200: "mem_get (mem_at m 0x200) p n = mem_get m (0x200 + p) n"
  by (rule mem_get_at)

lemma build_in_place:
  assumes "newkern_layout krn ksz g" "length (ini1_image kips) \<le> unat (newkern_ini1_end g) - unat (newkern_ini1_start g)"
    "m' = mem_put (0x200 + unat (newkern_ini1_start g)) (ini1_image kips) (mem_put 0x200 (mem_get krn 0 (unat ksz)) m)"
  shows "carries (mem_at m' 0x200) krn ksz g kips ksz"
proof -
  define st where "st = unat (newkern_ini1_start g)"
  define fin where "fin = unat (newkern_ini1_end g)"
  define info where "info = unat (newkern_ini1_info g)"
  have l: "newkern_ini1_start g \<noteq> 0" "info + 12 \<le> st" "st \<le> fin" "fin \<le> unat ksz" "length (ini1_image kips) \<le> fin - st"
    using assms(1,2) by (simp_all add: newkern_layout_def st_def fin_def info_def)
  have v: "mem_at m' 0x200 i = (if st \<le> i \<and> i < st + length (ini1_image kips) then ini1_image kips ! (i - st) else krn i)" if "i < unat ksz" for i
    using that by (auto simp: assms(3) mem_at_def mem_put_def mem_get_def st_def)
  have "ld32 (mem_at m' 0x200) info = ld32 krn info" using v l by (intro ld32_agree) simp
  then have p: "ld32 (mem_at m' 0x200) info + newkern_ini1_rela g = newkern_ini1_start g"
    using newkern_start_eq [OF assms(1)] by (simp add: info_def)
  have "mem_get (mem_at m' 0x200) st (length (ini1_image kips)) = ini1_image kips"
    unfolding mem_get_at_200 assms(3) st_def by simp
  then show ?thesis unfolding carries_def Let_def info_def [symmetric] p using l v by (auto simp: st_def fin_def)
qed

lemma build_appended:
  assumes "newkern_layout krn ksz g" "length (ini1_image kips) \<le> unat n" "unat ksz + unat n < 2 ^ 32"
    "m' = mem_put (0x200 + unat (newkern_ini1_info g)) (le_bytes 4 (ksz - newkern_ini1_rela g))
       (mem_put (0x200 + unat ksz) (ini1_image kips) (mem_put 0x200 (mem_get krn 0 (unat ksz)) m))"
  shows "carries (mem_at m' 0x200) krn ksz g kips (ksz + n)"
proof -
  define info where "info = unat (newkern_ini1_info g)"
  have l: "newkern_ini1_start g \<noteq> 0" "info + 12 \<le> unat ksz"
    using assms(1) by (simp_all add: newkern_layout_def info_def)
  have n: "unat (ksz + n) = unat ksz + unat n" using assms(3) by (simp add: unat_plus_no_wrap)
  have v: "mem_at m' 0x200 i = krn i" if "i < unat ksz" "\<not> (info \<le> i \<and> i < info + 4)" for i
    using that by (auto simp: assms(4) mem_at_def mem_put_def mem_get_def info_def)
  have "ld32 (mem_at m' 0x200) info = ksz - newkern_ini1_rela g"
    unfolding ld32_def mem_get_at_200 assms(4) info_def using get_le_head [of 4 "ksz - newkern_ini1_rela g" "[]"] by simp
  then have p: "ld32 (mem_at m' 0x200) info + newkern_ini1_rela g = ksz" by simp
  have "mem_get (mem_at m' 0x200) (unat ksz) (length (ini1_image kips)) = ini1_image kips"
    unfolding mem_get_at_200 assms(4) using l(2) by (subst mem_get_put_other) (simp_all add: info_def)
  moreover have "ksz \<noteq> 0" using l(2) by auto
  ultimately show ?thesis unfolding carries_def Let_def info_def [symmetric] p n using v assms(2) by simp
qed

text \<open>The list is found in every kernel that carries it.\<close>

lemma parse_carried:
  assumes "newkern_layout krn ksz g" "carries d krn ksz g kips ksz'" "\<forall>ki \<in> set kips. ki_wf ki" "length kips < 2 ^ 32" "sec_size hdr ! 1 = 0"
  shows "\<exists>g2. pkg2_parse_kips hdr d False g' [] = (False, kips, True, g2)"
proof -
  define info where "info = unat (newkern_ini1_info g)"
  define p where "p = ld32 d info + newkern_ini1_rela g"
  have c: "p \<noteq> 0" "mem_get d (unat p) (length (ini1_image kips)) = ini1_image kips"
    and keep: "\<And>i. i < unat ksz \<Longrightarrow> \<not> (info \<le> i \<and> i < info + 4) \<Longrightarrow> \<not> (unat (newkern_ini1_start g) \<le> i \<and> i < unat (newkern_ini1_end g)) \<Longrightarrow> d i = krn i"
    using assms(2) by (simp_all add: carries_def Let_def info_def p_def)
  have l: "info + 12 \<le> unat (newkern_ini1_start g)" "unat (newkern_ini1_start g) \<le> unat ksz"
    using assms(1) by (simp_all add: newkern_layout_def info_def)
  have "pkg2_get_newkern_info d g' = g'\<lparr>newkern_ini1_info := newkern_ini1_info g, newkern_ini1_rela := newkern_ini1_rela g,
      newkern_ini1_start := ld32 d (unat (newkern_ini1_info g)) + newkern_ini1_rela g, newkern_ini1_end := newkern_ini1_end g\<rparr>"
    using keep l by (intro newkern_info_patched [OF assms(1)]) (simp_all add: info_def)
  then have "newkern_ini1_start (pkg2_get_newkern_info d g') = p" by (simp add: p_def info_def)
  then show ?thesis
    unfolding pkg2_parse_kips_def Let_def PKG2_SEC_INI1_def using assms(5) c parse_ini1 [OF assms(3) c(2) assms(4)] by simp
qed

lemma pkg2_ini1_build_embedded:
  assumes "\<forall>ki \<in> set kips. ki_wf ki"
  shows "pkg2_ini1_build env p0 (Some ps) hdr kips True g m e =
    (if ini1_total kips \<le> newkern_ini1_end g - newkern_ini1_start g then 0 else ini1_total kips,
     hdr\<lparr>sec_size := (sec_size hdr)[1 := 0], sec_off := (sec_off hdr)[1 := 0]\<rparr>,
     mem_put (if ini1_total kips \<le> newkern_ini1_end g - newkern_ini1_start g then ps + unat (newkern_ini1_start g) else p0) (ini1_image kips) m, e)"
  unfolding pkg2_ini1_build_def Let_def ini1_written [OF assms] PKG2_SEC_INI1_def by simp

lemma pkg2_build_kernel_new:
  assumes lay: "newkern_layout krn ksz g" and kips: "\<forall>ki \<in> set kips. ki_wf ki" "0x10 + length (images kips) \<le> SE_LL_MAX_SIZE"
    and fits: "unat ksz + unat (ini1_total kips) \<le> SE_LL_MAX_SIZE" and meso: "\<not> kernel_is_meso krn"
  shows "\<exists>ksz' m'. pkg2_build_kernel env krn ksz hdr kips True g m e =
      (ksz', hdr\<lparr>sec_size := (sec_size hdr)[1 := 0], sec_off := (sec_off hdr)[1 := 0, 0 := 0x60000]\<rparr>, m', e) \<and>
    carries (mem_at m' 0x200) krn ksz g kips ksz' \<and> unat ksz' \<le> SE_LL_MAX_SIZE"
proof -
  define n where "n = ini1_total kips"
  have img: "length (ini1_image kips) \<le> unat n" using ini1_total_bounds(1) [OF kips] by (simp add: length_ini1_image n_def)
  have nz: "n \<noteq> 0" using img by (auto simp: length_ini1_image)
  have se: "newkern_ini1_start g \<le> newkern_ini1_end g" using lay by (simp add: newkern_layout_def word_le_nat_alt)
  have dif: "unat (newkern_ini1_end g - newkern_ini1_start g) = unat (newkern_ini1_end g) - unat (newkern_ini1_start g)"
    using se by (simp add: unat_minus_no_wrap)
  define m1 where "m1 = mem_put 0x200 (mem_get krn 0 (unat ksz)) m"
  define hdr2 where "hdr2 = hdr\<lparr>sec_size := (sec_size hdr)[1 := 0], sec_off := (sec_off hdr)[1 := 0]\<rparr>"
  show ?thesis
  proof (cases "n \<le> newkern_ini1_end g - newkern_ini1_start g")
    case True
    define m' where "m' = mem_put (0x200 + unat (newkern_ini1_start g)) (ini1_image kips) m1"
    have "pkg2_ini1_build env (0x200 + unat ksz) (Some 0x200) hdr kips True g m1 e = (0, hdr2, m', e)"
      using True by (simp add: pkg2_ini1_build_embedded [OF kips(1)] n_def hdr2_def m'_def)
    then have "pkg2_build_kernel env krn ksz hdr kips True g m e = (ksz, hdr2\<lparr>sec_off := (sec_off hdr2)[0 := 0x60000]\<rparr>, m', e)"
      using meso by (simp add: pkg2_build_kernel_def Let_def m1_def [symmetric] PKG2_SEC_KERNEL_def)
    moreover have "carries (mem_at m' 0x200) krn ksz g kips ksz"
      using True img dif by (intro build_in_place [OF lay, where m = m]) (simp_all add: m'_def m1_def word_le_nat_alt)
    ultimately show ?thesis using fits by (auto simp: hdr2_def)
  next
    case False
    define m' where "m' = mem_put (0x200 + unat (newkern_ini1_info g)) (le_bytes 4 (ksz - newkern_ini1_rela g)) (mem_put (0x200 + unat ksz) (ini1_image kips) m1)"
    have "pkg2_ini1_build env (0x200 + unat ksz) (Some 0x200) hdr kips True g m1 e = (n, hdr2, mem_put (0x200 + unat ksz) (ini1_image kips) m1, e)"
      using False by (simp add: pkg2_ini1_build_embedded [OF kips(1)] n_def hdr2_def)
    then have "pkg2_build_kernel env krn ksz hdr kips True g m e = (ksz + n, hdr2\<lparr>sec_off := (sec_off hdr2)[0 := 0x60000]\<rparr>, m', e)"
      using meso nz by (simp add: pkg2_build_kernel_def Let_def m1_def [symmetric] PKG2_SEC_KERNEL_def m'_def)
    moreover have "unat ksz + unat n < 2 ^ 32" using fits by (simp add: SE_LL_MAX_SIZE_def n_def)
    moreover from this have "carries (mem_at m' 0x200) krn ksz g kips (ksz + n)"
      using img by (intro build_appended [OF lay, where m = m]) (simp_all add: m'_def m1_def)
    ultimately show ?thesis using fits by (auto simp: hdr2_def n_def unat_plus_no_wrap)
  qed
qed

text \<open>
  C10. A package with INI1 in the kernel that is built and then opened gives back the list it was built
  from, whether the new INI1 goes into the place of the old one or behind the kernel: the scan of the
  opened kernel finds the reference again, and the patched reference leads to the new list, for kernels
  that refer to INI1 by its offset and for those that refer to it relative to the reference. Every byte
  of the kernel outside the reference and the old INI1 is unchanged.
\<close>

theorem pkg2_newkern_build_parse:
  assumes "se_regs_doc env V" "se_ctr_doc env V F inc" "se_sha_keeps env V"
    and "\<forall>ki \<in> set kips. ki_wf ki" "0x10 + length (images kips) \<le> SE_LL_MAX_SIZE" "unat ksz + unat (ini1_total kips) \<le> SE_LL_MAX_SIZE"
    and "newkern_layout krn ksz g" "\<not> kernel_is_meso krn" "pkg2_keyslot g = 8 \<or> pkg2_keyslot g = 9" "t210b01 \<or> mkey' \<noteq> HOS_MKEY_VER_700"
    and "pkg2_build_encrypt env krn ksz mkey kips is_exo True g m e = (new2, g1, m1, e1)"
  shows "\<exists>hdr m2 e2 g2. pkg2_decrypt env t210b01 mkey' is_exo' m1 e1 g1 = (Some hdr, m2, e2, g1) \<and> new2 \<and>
    pkg2_parse_kips hdr (mem_at m2 0x200) False g1 [] = (False, kips, True, g2) \<and>
    (\<forall>i < unat ksz. \<not> (unat (newkern_ini1_info g) \<le> i \<and> i < unat (newkern_ini1_info g) + 4) \<and>
       \<not> (unat (newkern_ini1_start g) \<le> i \<and> i < unat (newkern_ini1_end g)) \<longrightarrow> m2 (0x200 + i) = krn i)"
proof -
  define key where "key = key128 (V e) 8"
  define z :: pkg2_hdr_t where "z = zero_hdr\<lparr>hdr_magic := PKG2_MAGIC, pkg2_ver := 0xFF, hdr_base := 0x60000\<rparr>"
  define mz where "mz = mem_put 0x100 (hdr_bytes z) (mem_put 0 (replicate 0x100 0) m)"
  have l8: "8 < (16 :: u32)" and lz: "length zero_ctr = 16" by simp_all
  obtain k' mk where bk: "pkg2_build_kernel env krn ksz z kips True g mz e = (k', z\<lparr>sec_size := (sec_size z)[1 := 0], sec_off := (sec_off z)[1 := 0, 0 := 0x60000]\<rparr>, mk, e)"
    and ca: "carries (mem_at mk 0x200) krn ksz g kips k'" and k': "unat k' \<le> SE_LL_MAX_SIZE"
    using pkg2_build_kernel_new [OF assms(7,4-6,8), where env = env and hdr = z and m = mz and e = e] by (elim exE conjE) rule
  define K where "K = mem_get mk 0x200 (unat k')"
  have lK: "length K = unat k'" "length K \<le> SE_LL_MAX_SIZE" using k' by (simp_all add: K_def)
  obtain e2 where e2: "se_aes_crypt_ctr env 8 K K zero_ctr e = (False, ctr_xor F inc key zero_ctr K, e2)" "kt (V e2) = kt (V e)"
    using crypt_ctr_in_place [OF assms(1,2) lz lK(2) l8 key_def] by blast
  define m3 where "m3 = mem_put 0x200 (ctr_xor F inc key zero_ctr K) mk"
  define hdr2 where "hdr2 = z\<lparr>sec_size := [k', 0, 0, 0], sec_off := [0x60000, 0, 0, 0]\<rparr>"
  have wf2: "hdr_wf hdr2" using hdr_zero_wf by (simp add: hdr2_def z_def hdr_wf_def zero_hdr_def)
  define kv where "kv = (if pkg2_keyslot g = 9 then HOS_MKEY_VER_810 + 1 else if mkey \<noteq> 0 then mkey + 1 else 0)"
  have key2: "key = key128 (V e2) 8" using table_quad_kt [OF e2(2)] by (simp add: key_def)
  obtain shas c e5 where h: "pkg2_seal env 8 kv is_exo (0x200 + k' + 0) hdr2 m3 e2 =
      (mem_put 0x100 (c @ drop 16 (ctr_xor F inc key c (hdr_bytes (hdr2\<lparr>sec_sha256 := shas, hdr_ctr := c\<rparr>)))) m3, e5)"
    "hdr_wf (hdr2\<lparr>sec_sha256 := shas, hdr_ctr := c\<rparr>)" "length c = 16" "kt (V e5) = kt (V e2)"
    using pkg2_seal_ok [OF assms(1-3) key2 wf2] by blast
  define hdr where "hdr = hdr2\<lparr>sec_sha256 := shas, hdr_ctr := c\<rparr>"
  have s8: "(if pkg2_keyslot g = 9 then 8 else pkg2_keyslot g) = 8" using assms(9) by auto
  have nk: "(True \<or> kernel_is_meso krn) = True" "(\<not> True) = False" and u8: "(ucast (8 :: u8) :: u32) = 8" by simp_all
  have h2: "z\<lparr>sec_size := (sec_size z)[1 := 0], sec_off := (sec_off z)[1 := 0, 0 := 0x60000],
      sec_size := (sec_size (z\<lparr>sec_size := (sec_size z)[1 := 0], sec_off := (sec_off z)[1 := 0, 0 := 0x60000]\<rparr>))[0 := k']\<rparr> = hdr2"
    by (simp add: hdr2_def z_def zero_hdr_def list4)
  have c2: "sec_ctr hdr2 ! 0 = zero_ctr" by (simp add: hdr2_def z_def zero_hdr_def list4)
  have b: "pkg2_build_encrypt env krn ksz mkey kips is_exo True g m e =
      (True, g\<lparr>pkg2_keyslot := 8\<rparr>, mem_put 0x100 (c @ drop 16 (ctr_xor F inc key c (hdr_bytes hdr))) m3, e5)"
    unfolding pkg2_build_encrypt_def
    by (simp only: Let_def s8 kv_def [symmetric] nk if_False z_def [symmetric] mz_def [symmetric] bk prod.case PKG2_SEC_KERNEL_def
        K_def [symmetric] h2 c2 u8 e2(1) m3_def [symmetric] h(1) hdr_def [symmetric])
  have r: "new2 = True" "g1 = g\<lparr>pkg2_keyslot := 8\<rparr>" "m1 = mem_put 0x100 (c @ drop 16 (ctr_xor F inc key c (hdr_bytes hdr))) m3" "e1 = e5"
    using b assms(11) by simp_all
  have key1: "key = key128 (V e1) 8" using table_quad_kt [of "V e1" "V e2"] h(4) key2 r(4) by simp
  have hh: "hdr_wf hdr" "hdr_magic hdr = PKG2_MAGIC" "sec_size hdr = [k', 0, 0, 0]" "sec_ctr hdr = replicate 4 zero_ctr" "c = hdr_ctr hdr"
    using h(2) by (simp_all add: hdr_def hdr2_def z_def zero_hdr_def)
  have mK: "mem_get m3 0x200 (unat k') = ctr_xor F inc key zero_ctr K" using length_ctr_xor [OF assms(2) lz, of key K] lK(1) by (simp add: m3_def)
  have S: "length [] = unat (0 :: u32)" "unat (0 :: u32) \<le> SE_LL_MAX_SIZE" "mem_get m3 (0x200 + unat k') (unat (0 :: u32)) = ctr_xor F inc key zero_ctr []"
    by (simp_all add: mem_get_0 ctr_xor_def xor_block_def)
  obtain hdr' m2 e' where d: "pkg2_decrypt env t210b01 mkey' is_exo' m1 e1 g1 = (Some hdr', m2, e', g1\<lparr>pkg2_keyslot := 8\<rparr>)"
    and hdr': "sec_size hdr' = [k', 0, 0, 0]" and m2: "mem_get m2 0x200 (unat k') = K"
    using decrypt_built [OF assms(1,2) key1 hh(1-4) h(3) hh(5) assms(10) r(3) lK(1) k' mK S, of is_exo' g1] by (elim exE conjE) rule
  have "m2 (0x200 + i) = mk (0x200 + i)" if "i < unat k'" for i
    using m2 that nth_map [of i "[0x200..<0x200 + unat k']" m2] nth_map [of i "[0x200..<0x200 + unat k']" mk] by (simp add: K_def mem_get_def)
  then have ca2: "carries (mem_at m2 0x200) krn ksz g kips k'" by (intro carries_cong [OF ca assms(7)]) (simp add: mem_at_def)
  obtain g2 where "pkg2_parse_kips hdr' (mem_at m2 0x200) False g1 [] = (False, kips, True, g2)"
    using parse_carried [OF assms(7) ca2 assms(4) kips_count [OF assms(4,5)], of hdr' g1] hdr' by auto
  then show ?thesis using d r(1,2) ca2 by (auto simp: carries_def Let_def mem_at_def)
qed

end
