(* ===== verification/Pkg2_Demo.thy ===== *)
theory Pkg2_Demo
  imports Pkg2_Newkern
begin

text \<open>
  The package theorems at concrete packages, on the engine that behaves as documented: one process
  image, a kernel without and one with a reference to an embedded INI1.
\<close>

lemma ref_sha: "se_sha_keeps (ref_env F inc) ref_view"
proof -
  have "ref_view (ref_write r x e) = ref_view e" if "r \<in> set sha_regs" for r x e
    using that by (auto simp: sha_regs_def ref_write_def Let_def SE_SHA_MSG_LENGTH_0_REG_def SE_SHA_MSG_LENGTH_1_REG_def SE_SHA_MSG_LENGTH_2_REG_def
        SE_SHA_MSG_LENGTH_3_REG_def SE_SHA_MSG_LEFT_0_REG_def SE_SHA_MSG_LEFT_1_REG_def SE_SHA_MSG_LEFT_2_REG_def SE_SHA_MSG_LEFT_3_REG_def
        SE_SHA_CONFIG_REG_def SE_CRYPTO_KEYTABLE_ADDR_REG_def SE_CRYPTO_KEYTABLE_DATA_REG_def SE_CRYPTO_KEYTABLE_DST_REG_def)
  then show ?thesis by (simp add: se_sha_keeps_def ref_env_def)
qed

definition demo_sec :: "u32 \<Rightarrow> pkg2_kip1_sec_t" where
  "demo_sec n = \<lparr>ks_offset = 0, size_decomp = n, size_comp = n, ks_attrib = 0\<rparr>"

definition demo_kip :: pkg2_kip1_t where
  "demo_kip = \<lparr>kip_magic = 0x3150494B, kip_name = replicate 12 0x41, tid = 0x0100000000000000, proc_cat = 1, main_thrd_prio = 49, def_cpu_core = 3,
     kip_res = 0, kip_flags = 7, sections = [demo_sec 3, demo_sec 1, demo_sec 0, demo_sec 0, demo_sec 0, demo_sec 0], caps = replicate 32 0,
     kip_data = [1, 2, 3, 4]\<rparr>"

definition demo_ki :: pkg2_kip1_info_t where
  "demo_ki = \<lparr>ki_kip1 = demo_kip, ki_size = 0x104\<rparr>"

lemma demo_ki_wf: "ki_wf demo_ki"
  by (simp add: ki_wf_def kip_wf_def demo_ki_def demo_kip_def demo_sec_def pkg2_calc_kip1_size_def)

theorem pkg2_merge_kip_map_witness:
  "kip_lookup (pkg2_merge_kip [demo_ki] (demo_kip\<lparr>kip_flags := 1\<rparr>)) 0x0100000000000000 = Some \<lparr>ki_kip1 = demo_kip\<lparr>kip_flags := 1\<rparr>, ki_size = 0x104\<rparr>"
proof -
  define k where "k = demo_kip\<lparr>kip_flags := 1\<rparr>"
  have w: "kip_wf k" "\<forall>ki \<in> set [demo_ki]. ki_wf ki" by (simp_all add: k_def demo_ki_wf) (simp add: kip_wf_def demo_kip_def demo_sec_def)
  have t: "pkg2_calc_kip1_size k = 0x104" "tid k = 0x0100000000000000" by (simp_all add: k_def pkg2_calc_kip1_size_def demo_kip_def demo_sec_def)
  show ?thesis unfolding k_def [symmetric] using pkg2_merge_kip_map [OF w, of "tid k"] unfolding t by (simp only: if_True simp_thms)
qed

lemma demo_images: "length (images [demo_ki]) = 0x104"
  using ki_wf_size(1) [OF demo_ki_wf] by (simp add: images_def demo_ki_def)

definition demo_vars :: pkg2_vars where
  "demo_vars = \<lparr>newkern_ini1_info = 0, newkern_ini1_start = 0, newkern_ini1_end = 0, newkern_ini1_rela = 0, pkg2_keyslot = 8\<rparr>"

lemma ld32_zero: "ld32 (\<lambda>_. 0) a = 0"
proof -
  have "mem_get (\<lambda>_. 0) a 4 = le_bytes 4 (0 :: u32)" by (simp add: mem_get_def map_replicate_const zero_word [symmetric])
  then show ?thesis using get_le_head [of 4 "0 :: u32" "[]"] by (simp add: ld32_def)
qed

lemma demo_kernel_plain: "\<not> kernel_is_meso (\<lambda>_. 0)"
  by (simp add: kernel_is_meso_def ld32_zero ATM_MESOSPHERE_def)

theorem pkg2_build_decrypt_parse_witness:
  "\<exists>new2 g1 m1 e1 hdr m2 e2.
     pkg2_build_encrypt (ref_env demo_cipher demo_inc) (\<lambda>_. 0) 0x1234 5 [demo_ki] False False demo_vars (\<lambda>_. 0xFF) demo_state = (new2, g1, m1, e1) \<and>
     pkg2_decrypt (ref_env demo_cipher demo_inc) False 5 False m1 e1 g1 = (Some hdr, m2, e2, g1) \<and>
     mem_get m2 0x200 0x1234 = mem_get (\<lambda>_. 0) 0 0x1234 \<and> pkg2_parse_kips hdr (mem_at m2 0x200) False g1 [] = (False, [demo_ki], False, g1)"
proof -
  obtain new2 g1 m1 e1 where b: "pkg2_build_encrypt (ref_env demo_cipher demo_inc) (\<lambda>_. 0) 0x1234 5 [demo_ki] False False demo_vars (\<lambda>_. 0xFF) demo_state = (new2, g1, m1, e1)"
    by (metis prod_cases4)
  have "\<exists>hdr m2 e2. pkg2_decrypt (ref_env demo_cipher demo_inc) False 5 False m1 e1 g1 = (Some hdr, m2, e2, g1) \<and> \<not> new2 \<and>
     mem_get m2 0x200 (unat (0x1234 :: u32)) = mem_get (\<lambda>_. 0) 0 (unat (0x1234 :: u32)) \<and> pkg2_parse_kips hdr (mem_at m2 0x200) False g1 [] = (False, [demo_ki], False, g1)"
    by (rule pkg2_build_decrypt_parse [OF demo_laws(1,3) ref_sha _ _ demo_kernel_plain _ _ _ b])
      (simp_all add: demo_ki_wf demo_images SE_LL_MAX_SIZE_def demo_vars_def HOS_MKEY_VER_700_def)
  then show ?thesis using b by auto
qed

text \<open>A kernel whose code at 0x10 loads the INI1 address from 0x120: INI1 from 0x140 to 0x400.\<close>

definition demo_krn :: mem where
  "demo_krn = mem_put 0x10 (le_bytes 4 PKG2_NEWKERN_GET_INI1_HEURISTIC) (mem_put 0x1C (le_bytes 4 (0x820 :: u32))
     (mem_put 0x120 (le_bytes 4 (0x140 :: u32)) (mem_put 0x128 (le_bytes 4 (0x400 :: u32)) (\<lambda>_. 0))))"

definition demo_newkern_vars :: pkg2_vars where
  "demo_newkern_vars = demo_vars\<lparr>newkern_ini1_info := 0x120, newkern_ini1_start := 0x140, newkern_ini1_end := 0x400\<rparr>"

lemma demo_krn_words:
  "ld32 demo_krn 0 = 0" "ld32 demo_krn 4 = 0" "ld32 demo_krn 8 = 0" "ld32 demo_krn 0xC = 0" "ld32 demo_krn 0x10 = PKG2_NEWKERN_GET_INI1_HEURISTIC"
  "ld32 demo_krn 0x1C = 0x820" "ld32 demo_krn 0x120 = 0x140" "ld32 demo_krn 0x128 = 0x400"
  by (simp_all add: demo_krn_def ld32_put_other ld32_put_same ld32_zero)

lemma demo_layout: "newkern_layout demo_krn 0x400 demo_newkern_vars"
proof -
  have crt: "newkern_crt_start demo_krn = 0" by (simp add: newkern_crt_start_def demo_krn_words)
  have "map (\<lambda>i. 4 * i) [0..<64] = [0, 4, 8, 0xC, 0x10] @ map (\<lambda>i. 4 * i) [5..<64 :: nat]" by (simp add: upt_rec)
  then have scan: "newkern_scan demo_krn 0 = Some 0x10"
    using demo_krn_words unfolding newkern_scan_def by (simp add: PKG2_NEWKERN_GET_INI1_HEURISTIC_def)
  have i: "(0 :: u32) + of_nat 0x10 + 12 + (if (0 :: u32) \<noteq> 0 then 4 else 0) = 0x1C" by simp
  have "drop_bit 3 (ld32 demo_krn (unat (0x1C :: u32)) AND 0xFFFF) = 0x104" by (simp add: demo_krn_words)
  then have "pkg2_get_newkern_info demo_krn demo_newkern_vars = demo_newkern_vars"
    unfolding pkg2_get_newkern_info_def Let_def crt scan option.case i by (simp add: demo_krn_words demo_newkern_vars_def demo_vars_def)
  then show ?thesis by (simp add: newkern_layout_def crt) (simp add: demo_newkern_vars_def)
qed

lemma demo_total: "ini1_total [demo_ki] = 0x114"
  by (simp add: ini1_total_def demo_ki_def ALIGN_def)

theorem pkg2_newkern_build_parse_witness:
  "\<exists>new2 g1 m1 e1 hdr m2 e2 g2.
     pkg2_build_encrypt (ref_env demo_cipher demo_inc) demo_krn 0x400 5 [demo_ki] True True demo_newkern_vars (\<lambda>_. 0xFF) demo_state = (new2, g1, m1, e1) \<and>
     pkg2_decrypt (ref_env demo_cipher demo_inc) True 7 True m1 e1 g1 = (Some hdr, m2, e2, g1) \<and>
     pkg2_parse_kips hdr (mem_at m2 0x200) False g1 [] = (False, [demo_ki], True, g2)"
proof -
  obtain new2 g1 m1 e1 where b: "pkg2_build_encrypt (ref_env demo_cipher demo_inc) demo_krn 0x400 5 [demo_ki] True True demo_newkern_vars (\<lambda>_. 0xFF) demo_state = (new2, g1, m1, e1)"
    by (metis prod_cases4)
  have m: "\<not> kernel_is_meso demo_krn" by (simp add: kernel_is_meso_def demo_krn_words ATM_MESOSPHERE_def)
  have "\<forall>ki \<in> set [demo_ki]. ki_wf ki" "0x10 + length (images [demo_ki]) \<le> SE_LL_MAX_SIZE"
    "unat (0x400 :: u32) + unat (ini1_total [demo_ki]) \<le> SE_LL_MAX_SIZE" "pkg2_keyslot demo_newkern_vars = 8 \<or> pkg2_keyslot demo_newkern_vars = 9"
    by (simp_all add: demo_ki_wf demo_images demo_total SE_LL_MAX_SIZE_def demo_newkern_vars_def demo_vars_def)
  then show ?thesis
    using b pkg2_newkern_build_parse [OF demo_laws(1,3) ref_sha _ _ _ demo_layout m _ _ b, of True 7 True] by auto
qed

end
