(* ===== verification/Pkg2_Patch_Demo.thy ===== *)
theory Pkg2_Patch_Demo
  imports Pkg2_Apply Pkg2_Demo
begin

text \<open>The theorems on patching at a concrete image.\<close>

subsection \<open>Decompression\<close>

definition demo_code :: "u8 list" where
  "demo_code = blz_file [] demo_elems [0xFF]"

definition demo_ckip :: pkg2_kip1_t where
  "demo_ckip = demo_kip\<lparr>kip_name := [0x46, 0x53] @ replicate 10 0, kip_flags := 1,
     sections := [\<lparr>ks_offset = 0, size_decomp = 24, size_comp = 23, ks_attrib = 0\<rparr>, demo_sec 2, demo_sec 0, demo_sec 0, demo_sec 0, demo_sec 0],
     kip_data := demo_code @ [8, 9]\<rparr>"

definition demo_cki :: pkg2_kip1_info_t where
  "demo_cki = \<lparr>ki_kip1 = demo_ckip, ki_size = 0x119\<rparr>"

lemma length_demo_code: "length demo_code = 23"
  by (simp add: demo_code_def blz_file_def Let_def demo_elems_def blz_footer_bytes_def)

lemma demo_elems_out: "blz_fits [] demo_elems [0xFF]" "out_len demo_elems = 24" "blz_expand demo_elems [] = concat (replicate 8 [1, 2, 3])"
proof -
  show "blz_fits [] demo_elems [0xFF]" "out_len demo_elems = 24" by (simp_all add: demo_elems_def blz_fits_def out_len_def Let_def)
  show "blz_expand demo_elems [] = concat (replicate 8 [1, 2, 3])" by (simp add: demo_elems_def blz_expand_def numeral_eq_Suc)
qed

theorem decompress_kip_sections_witness:
  "\<exists>ki'. decompress_kip demo_cki 1 = Some (False, ki') \<and> kip_data (ki_kip1 ki') = concat (replicate 8 [1, 2, 3]) @ [8, 9] \<and> kip_flags (ki_kip1 ki') = 0"
proof -
  let ?d = "concat (replicate 8 [1, 2, 3]) :: u8 list"
  have "sec_plain 1 1 0 \<lparr>ks_offset = 0, size_decomp = 24, size_comp = 23, ks_attrib = 0\<rparr> demo_code ?d"
  proof -
    have "demo_code = blz_file [] demo_elems [0xFF] \<and> blz_fits [] demo_elems [0xFF] \<and> unat (24 :: u32) = length ([] :: u8 list) + out_len demo_elems \<and> ?d = [] @ blz_expand demo_elems []"
      by (simp add: demo_elems_out demo_code_def)
    then have "\<exists>pre ts pad. demo_code = blz_file pre ts pad \<and> blz_fits pre ts pad \<and> unat (24 :: u32) = length pre + out_len ts \<and> ?d = pre @ blz_expand ts []" by blast
    then show ?thesis by (simp add: sec_plain_def decomp_needed_def length_demo_code)
  qed
  then have "secs_plain 1 (kip_flags (ki_kip1 demo_cki)) 0 (sections (ki_kip1 demo_cki)) [demo_code, [8, 9], [], [], [], []] [?d, [8, 9], [], [], [], []]"
    by (simp add: demo_cki_def demo_ckip_def sec_plain_def decomp_needed_def demo_sec_def)
  moreover have "kip_data (ki_kip1 demo_cki) = concat [demo_code, [8, 9], [], [], [], []]" by (simp add: demo_cki_def demo_ckip_def)
  moreover have "ki_size demo_cki = pkg2_calc_kip1_size (ki_kip1 demo_cki)" by (simp add: demo_cki_def demo_ckip_def pkg2_calc_kip1_size_def demo_sec_def)
  moreover have "new_kip_size 1 (ki_kip1 demo_cki) < 2 ^ 32" by (simp add: new_kip_size_def demo_cki_def demo_ckip_def demo_sec_def decomp_needed_def upt_rec)
  ultimately obtain ki' where "decompress_kip demo_cki 1 = Some (False, ki')" "kip_data (ki_kip1 ki') = concat [?d, [8, 9], [], [], [], []]"
    "kip_flags (ki_kip1 ki') = kip_flags (ki_kip1 demo_cki) AND NOT (ucast (1 :: u32))"
    using decompress_kip_sections [where ki = demo_cki and sects = 1] by blast
  moreover have "(1 :: u8) AND NOT 1 = 0" by simp
  ultimately show ?thesis by (intro exI [of _ ki']) (simp add: demo_cki_def demo_ckip_def)
qed

subsection \<open>Patches\<close>

definition demo_patch :: kip1_patch_t where
  "demo_patch = \<lparr>kp_offset = 0x20000002, kp_length = 2, kp_src = Src [6, 7], kp_dst = [0xAA, 0xBB]\<rparr>"

lemma demo_patch_place: "GET_KIP_PATCH_SECTION (kp_offset demo_patch) = 1" "GET_KIP_PATCH_OFFSET (kp_offset demo_patch) = 2"
  by (simp_all add: demo_patch_def GET_KIP_PATCH_SECTION_def GET_KIP_PATCH_OFFSET_def)

theorem kip_patches_exact_witness:
  "apply_sections 2 0 0 [demo_sec 3, demo_sec 5] [demo_patch] [1, 2, 3, 4, 5, 6, 7, 8] = Some (False, [1, 2, 3, 4, 5, 0xAA, 0xBB, 8]) \<and>
   apply_sections 2 0 0 [demo_sec 3, demo_sec 5] [demo_patch] [1, 2, 3, 4, 5, 0xAA, 0xBB, 8] = Some (False, [1, 2, 3, 4, 5, 0xAA, 0xBB, 8])"
proof -
  have "bit (2 :: u32) 1" "\<not> bit (2 :: u32) 0" by simp_all
  then have a: "apply_sections 2 0 0 [demo_sec 3, demo_sec 5] [demo_patch] [1, 2, 3, 4, 5, 6, 7, 8] = Some (False, [1, 2, 3, 4, 5, 0xAA, 0xBB, 8])"
    using demo_patch_place by (simp add: apply_patch_def Let_def demo_sec_def) (simp add: demo_patch_def)
  have "ranges_disjoint (patch_seq 2 0 0 [demo_sec 3, demo_sec 5] [demo_patch])"
    using demo_patch_place by (simp add: patch_seq_def)
  then show ?thesis using kip_patches_exact [OF a] a by simp
qed

subsection \<open>Requests\<close>











end
