(* ===== verification/Emummc.thy ===== *)
theory Emummc
  imports Sdmmc_Disk Ini Util Bytes
begin

text \<open>
  The emulated eMMC, \<open>bootloader/storage/emummc.c\<close>: its configuration, and the redirection of requests
  to the real eMMC, to a range of sectors of the SD card or to files on it. The storages are those of
  the storage layer, the configuration file is parsed by \<open>ini_parse\<close>; the file system is a parameter.
\<close>

subsection \<open>State\<close>

record emummc_cfg_t =
  emu_enabled :: int
  emu_sector :: u64
  emu_id :: u32
  emu_path :: "string option"
  nintendo_path :: string
  emummc_file_based_path :: string
  file_based_part_size :: u32
  active_part :: u32
  fs_ver :: int

record ('h, 'z) emu_world =
  emu_cfg :: emummc_cfg_t
  emu_sdw :: "'h sdworld"
  emu_fs :: 'z

text \<open>
  The file system: errors are booleans; opening says whether it is for writing, a read returns the
  bytes it put into the buffer.
\<close>

record ('h, 'g, 'd, 'f, 'z) emu_env =
  emu_rw :: "('h, 'g) rw_env"
  emu_ini :: "'d ini_env"
  emummc_force_disable :: bool
  fs_open :: "string \<Rightarrow> bool \<Rightarrow> 'z \<Rightarrow> bool \<times> 'f \<times> 'z"
  fs_lseek :: "'f \<Rightarrow> u64 \<Rightarrow> 'z \<Rightarrow> 'f \<times> 'z"
  fs_read :: "'f \<Rightarrow> u32 \<Rightarrow> 'z \<Rightarrow> bool \<times> u8 list \<times> 'f \<times> 'z"
  fs_write :: "'f \<Rightarrow> u8 list \<Rightarrow> 'z \<Rightarrow> bool \<times> 'f \<times> 'z"
  fs_close :: "'f \<Rightarrow> 'z \<Rightarrow> 'z"
  fs_stat :: "string \<Rightarrow> 'z \<Rightarrow> bool \<times> u64 \<times> 'z"
  fs_chmod :: "string \<Rightarrow> 'z \<Rightarrow> 'z"

subsection \<open>Configuration\<close>

definition emu_key :: "emummc_cfg_t \<Rightarrow> ini_kv_t \<Rightarrow> emummc_cfg_t" where
  "emu_key c kv =
     (if kv_key kv = ''enabled'' then c\<lparr>emu_enabled := atoi (kv_val kv)\<rparr>
      else if kv_key kv = ''sector'' then c\<lparr>emu_sector := scast (fst (strtol (kv_val kv) 16))\<rparr>
      else if kv_key kv = ''id'' then c\<lparr>emu_id := fst (strtol (kv_val kv) 16)\<rparr>
      else if kv_key kv = ''path'' then c\<lparr>emu_path := Some (kv_val kv)\<rparr>
      else if kv_key kv = ''nintendo_path'' then c\<lparr>nintendo_path := kv_val kv\<rparr>
      else c)"

text \<open>\<open>None\<close> where the parser's result is unspecified.\<close>

definition emummc_load_cfg :: "('h, 'g, 'd, 'f, 'z) emu_env \<Rightarrow> emummc_cfg_t \<Rightarrow> emummc_cfg_t option" where
  "emummc_load_cfg env c0 =
     (let c = c0\<lparr>emu_enabled := 0, emu_path := None, emu_sector := 0, emu_id := 0, file_based_part_size := 0, active_part := 0, fs_ver := 0,
                 nintendo_path := '''', emummc_file_based_path := ''''\<rparr>
      in case ini_parse (emu_ini env) [] ''emuMMC/emummc.ini'' False of
           None \<Rightarrow> None
         | Some (err, secs) \<Rightarrow>
             Some (if err then c
                   else case find (\<lambda>s. sec_type s = INI_CHOICE \<and> sec_name s = Some ''emummc'') secs of
                          None \<Rightarrow> c
                        | Some s \<Rightarrow> foldl emu_key c (sec_kvs s)))"

text \<open>Bytes read over the start of a variable.\<close>

definition over_u64 :: "u8 list \<Rightarrow> u64 \<Rightarrow> u64" where
  "over_u64 bs v = get_le 8 (bs @ drop (length bs) (le_bytes 8 v)) 0"

definition id_from_path :: "string \<Rightarrow> u32" where
  "id_from_path path = (if length path \<ge> 4 then get_le 4 (map of_char (drop (length path - 4) path)) 0 else 0)"

text \<open>Whether an emulated eMMC is at the path; the file of the first kind is not closed.\<close>

definition emummc_set_path :: "('h, 'g, 'd, 'f, 'z) emu_env \<Rightarrow> string \<Rightarrow> ('h, 'z) emu_world \<Rightarrow> bool \<times> ('h, 'z) emu_world" where
  "emummc_set_path env path w =
     (let c1 = (emu_cfg w)\<lparr>emummc_file_based_path := path @ ''/raw_based''\<rparr>;
          (err, fp, z1) = fs_open env (emummc_file_based_path c1) False (emu_fs w);
          (found, c2, z2) =
            (if \<not> err
             then let (rerr, bs, _, zr) = fs_read env fp 4 z1;
                      cr = c1\<lparr>emu_sector := over_u64 (take 4 bs) (emu_sector c1)\<rparr>
                  in (\<not> rerr \<and> emu_sector cr \<noteq> 0, cr, zr)
             else let ca = c1\<lparr>emummc_file_based_path := path @ ''/file_based''\<rparr>;
                      (serr, _, zs) = fs_stat env (emummc_file_based_path ca) z1
                  in if \<not> serr then (True, ca\<lparr>emu_sector := 0, emu_path := Some path\<rparr>, zs) else (False, ca, zs));
          c3 = (if found then c2\<lparr>emu_enabled := 1, emu_id := id_from_path path, nintendo_path := path @ ''/Nintendo''\<rparr> else c2)
      in (found, w\<lparr>emu_cfg := c3, emu_fs := z2\<rparr>))"

definition emummc_raw_get_part_off :: "u32 \<Rightarrow> u32" where
  "emummc_raw_get_part_off part_idx = (if part_idx = 0 then 2 else if part_idx = 1 then 0 else if part_idx = 2 then 1 else 2)"

subsection \<open>Start and end\<close>

definition emu_off :: "('h, 'g, 'd, 'f, 'z) emu_env \<Rightarrow> emummc_cfg_t \<Rightarrow> bool" where
  "emu_off env c \<longleftrightarrow> emu_enabled c = 0 \<or> emummc_force_disable env"

text \<open>The result is 0, 1 or 2; \<open>None\<close> when the path was never set.\<close>

definition emummc_storage_init_mmc :: "('h, 'g, 'd, 'f, 'z) emu_env \<Rightarrow> ('h, 'z) emu_world \<Rightarrow> (nat \<times> ('h, 'z) emu_world) option" where
  "emummc_storage_init_mmc env w =
     (let E = emu_rw env;
          w1 = w\<lparr>emu_cfg := (emu_cfg w)\<lparr>active_part := 0\<rparr>\<rparr>;
          (err, s) = emmc_initialize (emmc_env_of E) False (w_emmc (emu_sdw w1));
          w2 = w1\<lparr>emu_sdw := (emu_sdw w1)\<lparr>w_emmc := s\<rparr>\<rparr>
      in if err then Some (2, w2)
         else if emu_off env (emu_cfg w2) then Some (0, w2)
         else let (merr, ss) = sd_mount (sd_env_of E) (w_sd (emu_sdw w2));
                  w3 = w2\<lparr>emu_sdw := (emu_sdw w2)\<lparr>w_sd := ss\<rparr>\<rparr>
              in if merr then Some (1, w3)
                 else if emu_sector (emu_cfg w3) \<noteq> 0 then Some (0, w3)
                 else case emu_path (emu_cfg w3) of
                        None \<Rightarrow> None
                      | Some path \<Rightarrow>
                          let p1 = path @ ''/eMMC'';
                              (e1, _, z1) = fs_stat env p1 (emu_fs w3);
                              w4 = w3\<lparr>emu_cfg := (emu_cfg w3)\<lparr>emummc_file_based_path := p1\<rparr>, emu_fs := z1\<rparr>
                          in if e1 then Some (1, w4)
                             else let z2 = fs_chmod env p1 z1;
                                      p2 = p1 @ ''/00'';
                                      (e2, fsize, z3) = fs_stat env p2 z2;
                                      w5 = w4\<lparr>emu_cfg := (emu_cfg w4)\<lparr>emummc_file_based_path := p2\<rparr>, emu_fs := z3\<rparr>
                                  in if e2 then Some (1, w5)
                                     else Some (0, w5\<lparr>emu_cfg := (emu_cfg w5)\<lparr>file_based_part_size := ucast (drop_bit 9 fsize)\<rparr>\<rparr>))"

definition emummc_storage_end :: "('h, 'g, 'd, 'f, 'z) emu_env \<Rightarrow> ('h, 'z) emu_world \<Rightarrow> ('h, 'z) emu_world" where
  "emummc_storage_end env w =
     (let E = emu_rw env; s = emu_sdw w
      in if emu_off env (emu_cfg w) then w\<lparr>emu_sdw := s\<lparr>w_emmc := emmc_end (emmc_env_of E) (w_emmc s)\<rparr>\<rparr>
         else w\<lparr>emu_sdw := s\<lparr>w_sd := sd_end (sd_env_of E) (w_sd s)\<rparr>\<rparr>)"

subsection \<open>Requests\<close>

fun itoa10_nat :: "nat \<Rightarrow> string" where
  "itoa10_nat n = (if n < 10 then [char_of (48 + n)] else itoa10_nat (n div 10) @ [char_of (48 + n mod 10)])"

declare itoa10_nat.simps [simp del]

definition itoa10 :: "u32 \<Rightarrow> string" where
  "itoa10 v = (if sint v < 0 then CHR ''-'' # itoa10_nat (nat (- sint v)) else itoa10_nat (nat (sint v)))"

text \<open>The name of the part file: the last two characters of the path are written over.\<close>

definition set_file_part :: "u32 \<Rightarrow> string \<Rightarrow> string" where
  "set_file_part file_part p =
     (if file_part \<ge> 10 then take (length p - 2) p @ itoa10 file_part
      else take (length p - 1) (p[length p - 2 := CHR ''0'']) @ itoa10 file_part)"

text \<open>
  The sector inside the file and the configuration with its name; \<open>None\<close> for the division by zero and for
  a write before the start of the path.
\<close>

definition locate_file :: "u32 \<Rightarrow> emummc_cfg_t \<Rightarrow> (u32 \<times> emummc_cfg_t) option" where
  "locate_file sector c =
     (if active_part c \<noteq> 0 then Some (sector, c)
      else if file_based_part_size c = 0 \<or> length (emummc_file_based_path c) < 2 then None
      else Some (sector mod file_based_part_size c,
                 c\<lparr>emummc_file_based_path := set_file_part (sector div file_based_part_size c) (emummc_file_based_path c)\<rparr>))"

definition raw_sector :: "emummc_cfg_t \<Rightarrow> u32 \<Rightarrow> u32" where
  "raw_sector c sector = ucast (ucast sector + emu_sector c :: u64) + emummc_raw_get_part_off (active_part c) * 0x2000"

definition emummc_storage_read ::
  "('h, 'g, 'd, 'f, 'z) emu_env \<Rightarrow> bool \<Rightarrow> u32 \<Rightarrow> u32 \<Rightarrow> u8 list \<Rightarrow> ('h, 'z) emu_world \<Rightarrow> (bool \<times> u8 list \<times> ('h, 'z) emu_world) option" where
  "emummc_storage_read env dma sector num buf w =
     (let c = emu_cfg w
      in if emu_off env c
         then map_option (\<lambda>(e, b, s). (e, b, w\<lparr>emu_sdw := s\<rparr>)) (sdmmc_storage_read (emu_rw env) Emmc_storage sector num dma buf (emu_sdw w))
         else if emu_sector c \<noteq> 0
         then map_option (\<lambda>(e, b, s). (e, b, w\<lparr>emu_sdw := s\<rparr>)) (sdmmc_storage_read (emu_rw env) Sd_storage (raw_sector c sector) num dma buf (emu_sdw w))
         else case locate_file sector c of
                None \<Rightarrow> None
              | Some (sct, c1) \<Rightarrow>
                  let (err, fp, z1) = fs_open env (emummc_file_based_path c1) False (emu_fs w)
                  in if err then Some (True, buf, w\<lparr>emu_cfg := c1, emu_fs := z1\<rparr>)
                     else let (fp2, z2) = fs_lseek env fp (push_bit 9 (ucast sct)) z1;
                              (rerr, bs, fp3, z3) = fs_read env fp2 (ucast (push_bit 9 (ucast num :: u64))) z2
                          in Some (rerr, buf_fill buf bs, w\<lparr>emu_cfg := c1, emu_fs := fs_close env fp3 z3\<rparr>))"

definition emummc_storage_write ::
  "('h, 'g, 'd, 'f, 'z) emu_env \<Rightarrow> bool \<Rightarrow> u32 \<Rightarrow> u32 \<Rightarrow> u8 list \<Rightarrow> ('h, 'z) emu_world \<Rightarrow> (bool \<times> ('h, 'z) emu_world) option" where
  "emummc_storage_write env dma sector num buf w =
     (let c = emu_cfg w
      in if emu_off env c
         then map_option (\<lambda>(e, s). (e, w\<lparr>emu_sdw := s\<rparr>)) (sdmmc_storage_write (emu_rw env) Emmc_storage sector num dma buf (emu_sdw w))
         else if emu_sector c \<noteq> 0
         then map_option (\<lambda>(e, s). (e, w\<lparr>emu_sdw := s\<rparr>)) (sdmmc_storage_write (emu_rw env) Sd_storage (raw_sector c sector) num dma buf (emu_sdw w))
         else case locate_file sector c of
                None \<Rightarrow> None
              | Some (sct, c1) \<Rightarrow>
                  let (err, fp, z1) = fs_open env (emummc_file_based_path c1) True (emu_fs w)
                  in if err then Some (True, w\<lparr>emu_cfg := c1, emu_fs := z1\<rparr>)
                     else let (fp2, z2) = fs_lseek env fp (push_bit 9 (ucast sct)) z1;
                              (werr, fp3, z3) = fs_write env fp2 (take (unat (ucast (push_bit 9 (ucast num :: u64)) :: u32)) buf) z2
                          in Some (werr, w\<lparr>emu_cfg := c1, emu_fs := fs_close env fp3 z3\<rparr>))"

text \<open>The result is always 0; \<open>None\<close> when the path was never set.\<close>

definition emummc_storage_set_mmc_partition :: "('h, 'g, 'd, 'f, 'z) emu_env \<Rightarrow> u32 \<Rightarrow> ('h, 'z) emu_world \<Rightarrow> ('h, 'z) emu_world option" where
  "emummc_storage_set_mmc_partition env part_idx w =
     (let (_, s) = emmc_set_partition (emmc_env_of (emu_rw env)) part_idx (w_emmc (emu_sdw w));
          c = (emu_cfg w)\<lparr>active_part := part_idx\<rparr>;
          w1 = w\<lparr>emu_cfg := c, emu_sdw := (emu_sdw w)\<lparr>w_emmc := s\<rparr>\<rparr>
      in if emu_off env c \<or> emu_sector c \<noteq> 0 then Some w1
         else case emu_path c of
                None \<Rightarrow> None
              | Some path \<Rightarrow>
                  let p = path @ ''/eMMC'';
                      q = (if part_idx = 0 then p @ ''/00'' else if part_idx = 1 then p @ ''/BOOT0'' else if part_idx = 2 then p @ ''/BOOT1'' else p)
                  in Some (w1\<lparr>emu_cfg := c\<lparr>emummc_file_based_path := q\<rparr>\<rparr>))"

end
