(* ===== verification/Emummc_Disk.thy ===== *)
theory Emummc_Disk
  imports Emummc
begin

text \<open>
  The emulated eMMC as a disk: whatever stands behind it, \<open>emummc_storage_read\<close> and
  \<open>emummc_storage_write\<close> keep the contract of the storages of \<open>Sdmmc_Disk\<close>, and change nothing of the SD card
  outside the emulated eMMC.
\<close>

subsection \<open>Blocks in a file\<close>

lemma length_blocks: "(\<And>j. length (F j) = 512) \<Longrightarrow> length (concat (map F xs)) = 512 * length xs"
  by (induction xs) simp_all

lemma blocks_part:
  assumes "\<And>j. length (F j) = 512" "a + n \<le> L"
  shows "take (512 * n) (drop (512 * a) (concat (map F [b..<b + L]))) = concat (map F [b + a..<b + a + n])"
proof -
  have "[b..<b + L] = [b..<b + a] @ [b + a..<b + a + n] @ [b + a + n..<b + L]"
    using assms(2) by (metis add.assoc le_add1 nat_add_left_cancel_le upt_add_eq_append le_add_diff_inverse)
  then show ?thesis using assms(1) by (simp add: length_blocks)
qed

text \<open>A file of blocks of which only a range of blocks has changed.\<close>

lemma blocks_changed:
  assumes F: "\<And>j. length (F j) = 512" and aL: "a + n \<le> L" and len: "length bs = 512 * L"
    and keep: "take (512 * a) bs = take (512 * a) (concat (map F [b..<b + L]))"
      "drop (512 * (a + n)) bs = drop (512 * (a + n)) (concat (map F [b..<b + L]))"
  shows "concat (map (put_blocks (b + a) (take (512 * n) (drop (512 * a) bs)) n F) [b..<b + L]) = bs"
proof -
  let ?d = "take (512 * n) (drop (512 * a) bs)" and ?G = "put_blocks (b + a) (take (512 * n) (drop (512 * a) bs)) n F"
  have split: "[b..<b + L] = [b..<b + a] @ [b + a..<b + a + n] @ [b + a + n..<b + L]"
    using aL by (metis add.assoc le_add1 nat_add_left_cancel_le upt_add_eq_append le_add_diff_inverse)
  have "map ?G [b..<b + a] = map F [b..<b + a]" "map ?G [b + a + n..<b + L] = map F [b + a + n..<b + L]" by (auto simp: put_blocks_def)
  moreover have "concat (map ?G [b + a..<b + a + n]) = ?d" using aL len by (intro disk.concat_put_blocks) simp
  moreover have "concat (map F [b..<b + a]) = take (512 * a) bs" "concat (map F [b + a + n..<b + L]) = drop (512 * (a + n)) bs"
    using keep F unfolding split by (simp_all add: length_blocks)
  ultimately have "concat (map ?G [b..<b + L]) = take (512 * a) bs @ ?d @ drop (512 * (a + n)) bs" by (simp only: split map_append concat_append)
  also have "?d @ drop (512 * (a + n)) bs = drop (512 * a) bs"
    using append_take_drop_id [of "512 * n" "drop (512 * a) bs"] by (simp add: distrib_left add.commute)
  also have "take (512 * a) bs @ drop (512 * a) bs = bs" by simp
  finally show ?thesis .
qed

subsection \<open>The file system\<close>

text \<open>
  What is relied on of the file system: \<open>view\<close> is the content of its files, \<open>fpath\<close> and \<open>fpos\<close> the file and the
  position of a handle. Opening a file for writing neither creates nor empties it; a handle on which a
  seek has failed has no position, and every transfer on it fails; a transfer inside the file changes
  nothing but its range. Closing keeps the content.
\<close>

definition fs_laws :: "('h, 'g, 'd, 'f, 'z) emu_env \<Rightarrow> ('z \<Rightarrow> string \<rightharpoonup> u8 list) \<Rightarrow> ('f \<Rightarrow> string) \<Rightarrow> ('f \<Rightarrow> nat option) \<Rightarrow> bool" where
  "fs_laws env view fpath fpos \<longleftrightarrow>
     (\<forall>p wr z err f z'. fs_open env p wr z = (err, f, z') \<longrightarrow> view z' = view z \<and> (\<not> err \<longrightarrow> fpath f = p)) \<and>
     (\<forall>f x z f' z' bs. fs_lseek env f x z = (f', z') \<longrightarrow> view z' = view z \<and> fpath f' = fpath f \<and>
        (view z (fpath f) = Some bs \<longrightarrow> unat x \<le> length bs \<longrightarrow> fpos f' = Some (unat x) \<or> fpos f' = None)) \<and>
     (\<forall>f n z err bs f' z'. fs_read env f n z = (err, bs, f', z') \<longrightarrow> view z' = view z \<and> length bs \<le> unat n \<and>
        (\<not> err \<longrightarrow> (\<exists>pos c. fpos f = Some pos \<and> view z (fpath f) = Some c \<and> bs = take (unat n) (drop pos c)))) \<and>
     (\<forall>f d z err f' z' c. fs_write env f d z = (err, f', z') \<longrightarrow> view z (fpath f) = Some c \<longrightarrow>
        (case fpos f of None \<Rightarrow> err \<and> view z' = view z
         | Some pos \<Rightarrow> pos + length d \<le> length c \<longrightarrow>
             (\<exists>c'. view z' = (view z)(fpath f \<mapsto> c') \<and> length c' = length c \<and> take pos c' = take pos c \<and>
                drop (pos + length d) c' = drop (pos + length d) c \<and> (\<not> err \<longrightarrow> take (length d) (drop pos c') = d)))) \<and>
     (\<forall>f z. view (fs_close env f z) = view z)"

lemma fs_lawsD:
  assumes "fs_laws env view fpath fpos"
  shows fs_openD: "fs_open env p wr z = (err, f, z') \<Longrightarrow> view z' = view z \<and> (\<not> err \<longrightarrow> fpath f = p)"
    and fs_lseekD: "fs_lseek env f x z = (f', z') \<Longrightarrow> view z' = view z \<and> fpath f' = fpath f \<and>
        (view z (fpath f) = Some bs \<longrightarrow> unat x \<le> length bs \<longrightarrow> fpos f' = Some (unat x) \<or> fpos f' = None)"
    and fs_readD: "fs_read env f n z = (err, bs, f', z') \<Longrightarrow> view z' = view z \<and> length bs \<le> unat n \<and>
        (\<not> err \<longrightarrow> (\<exists>pos c. fpos f = Some pos \<and> view z (fpath f) = Some c \<and> bs = take (unat n) (drop pos c)))"
    and fs_writeD: "fs_write env f d z = (err, f', z') \<Longrightarrow> view z (fpath f) = Some c \<Longrightarrow>
        (case fpos f of None \<Rightarrow> err \<and> view z' = view z
         | Some pos \<Rightarrow> pos + length d \<le> length c \<longrightarrow>
             (\<exists>c'. view z' = (view z)(fpath f \<mapsto> c') \<and> length c' = length c \<and> take pos c' = take pos c \<and>
                drop (pos + length d) c' = drop (pos + length d) c \<and> (\<not> err \<longrightarrow> take (length d) (drop pos c') = d)))"
    and fs_closeD: "view (fs_close env f z) = view z"
  using assms unfolding fs_laws_def by simp_all

text \<open>A request of a file at a position inside it.\<close>

lemma file_read:
  assumes laws: "fs_laws env view fpath fpos" and op: "fs_open env p False z = (False, f, z1)"
    and c: "view z p = Some c" "unat x \<le> length c"
    and sk: "fs_lseek env f x z1 = (f2, z2)" and rd: "fs_read env f2 n z2 = (err, bs, f3, z3)"
  shows "view (fs_close env f3 z3) = view z \<and> length bs \<le> unat n \<and> (\<not> err \<longrightarrow> bs = take (unat n) (drop (unat x) c))"
  using fs_openD [OF laws op] fs_lseekD [OF laws sk, of c] fs_readD [OF laws rd] fs_closeD [OF laws] c by auto

lemma file_write:
  assumes laws: "fs_laws env view fpath fpos" and op: "fs_open env p True z = (False, f, z1)"
    and c: "view z p = Some c" "unat x + length d \<le> length c"
    and sk: "fs_lseek env f x z1 = (f2, z2)" and wr: "fs_write env f2 d z2 = (err, f3, z3)"
  shows "\<exists>c'. view (fs_close env f3 z3) = (view z)(p \<mapsto> c') \<and> length c' = length c \<and> take (unat x) c' = take (unat x) c \<and>
    drop (unat x + length d) c' = drop (unat x + length d) c \<and> (\<not> err \<longrightarrow> take (length d) (drop (unat x) c') = d)"
proof -
  have 1: "view z2 = view z" "fpath f2 = p" "fpos f2 = Some (unat x) \<or> fpos f2 = None"
    using fs_openD [OF laws op] fs_lseekD [OF laws sk, of c] c by auto
  have 2: "view z2 (fpath f2) = Some c" using 1 c by simp
  show ?thesis
  proof (cases "fpos f2")
    case None
    then have "err" "view z3 = (view z)(p \<mapsto> c)" using fs_writeD [OF laws wr 2] 1 c by auto
    then show ?thesis using fs_closeD [OF laws] by auto
  next
    case (Some pos)
    then show ?thesis using fs_writeD [OF laws wr 2] 1 c fs_closeD [OF laws] by auto
  qed
qed

subsection \<open>The names of the part files\<close>

definition two_digits :: "nat \<Rightarrow> string" where
  "two_digits k = [char_of (48 + k div 10), char_of (48 + k mod 10)]"

definition part_name :: "string \<Rightarrow> nat \<Rightarrow> string" where
  "part_name p k = take (length p - 2) p @ two_digits k"

lemma digit_inj:
  assumes "d < 10" "e < 10"
  shows "(char_of (48 + d) :: char) = char_of (48 + e) \<longleftrightarrow> d = (e :: nat)"
proof
  assume c: "(char_of (48 + d) :: char) = char_of (48 + e)"
  have "take_bit 8 (48 + d) = 48 + d" "take_bit 8 (48 + e) = 48 + e" using assms by (simp_all add: take_bit_nat_eq_self_iff)
  then show "d = e" using arg_cong [OF c, of "of_char :: char \<Rightarrow> nat"] by (simp add: take_bit_eq_mod)
qed simp

lemma part_name_inj: "j < 100 \<Longrightarrow> k < 100 \<Longrightarrow> part_name p j = part_name p k \<longleftrightarrow> j = k"
  by (auto simp: part_name_def two_digits_def digit_inj) (metis div_mult_mod_eq)

lemma part_name_name [simp]: "2 \<le> length p \<Longrightarrow> part_name (part_name p k) j = part_name p j"
  by (simp add: part_name_def two_digits_def)

lemma length_part_name [simp]: "2 \<le> length p \<Longrightarrow> length (part_name p k) = length p"
  by (simp add: part_name_def two_digits_def)

lemma set_file_part_name:
  assumes "unat k < 100" "2 \<le> length p"
  shows "set_file_part k p = part_name p (unat k)"
proof -
  have "int (unat k) < 100" using assms(1) by linarith
  then have "uint k < 2 ^ 31" by simp
  moreover have "- (2 ^ 31) \<le> uint k" by (rule order_trans [OF _ uint_ge_0]) simp
  ultimately have s: "sint k = int (unat k)" by (simp add: sint_uint signed_take_bit_int_eq_self)
  have t: "take (length p - 1) (p[length p - 2 := x]) = take (length p - 2) p @ [x]" for x
  proof -
    obtain m where m: "length p = Suc (Suc m)" using assms(2) by (metis add_2_eq_Suc le_Suc_ex)
    then have "take (Suc m) (p[m := x]) = take m (p[m := x]) @ [p[m := x] ! m]" by (intro take_Suc_conv_app_nth) simp
    then show ?thesis using m by simp
  qed
  have "itoa10_nat (unat k) = (if unat k < 10 then [char_of (48 + unat k)] else two_digits (unat k))"
    using assms(1) by (auto simp: itoa10_nat.simps [of "unat k"] itoa10_nat.simps [of "unat k div 10"] two_digits_def)
  moreover have "CHR ''0'' = char_of (48 :: nat)" by code_simp
  ultimately show ?thesis using t s by (simp add: set_file_part_def itoa10_def part_name_def two_digits_def word_le_nat_alt)
qed

subsection \<open>The emulated eMMC\<close>

text \<open>
  The emulated eMMC has \<open>N\<close> files of \<open>L\<close> sectors, or \<open>N * L\<close> sectors of the SD card from \<open>raw_first\<close> on. Only
  the digits of the part file change in its configuration.
\<close>

definition emu_same :: "emummc_cfg_t \<Rightarrow> emummc_cfg_t \<Rightarrow> bool" where
  "emu_same c0 c \<longleftrightarrow> c = c0\<lparr>emummc_file_based_path := emummc_file_based_path c\<rparr>"

definition emu_name :: "emummc_cfg_t \<Rightarrow> nat \<Rightarrow> string" where
  "emu_name c k = (if active_part c = 0 then part_name (emummc_file_based_path c) k else emummc_file_based_path c)"

definition raw_first :: "emummc_cfg_t \<Rightarrow> nat" where
  "raw_first c = unat (emu_sector c) + unat (emummc_raw_get_part_off (active_part c)) * 0x2000"

text \<open>The range of sectors, and the rest of the card.\<close>

definition raw_ok :: "('h, 'g, 'd, 'f, 'z) emu_env \<Rightarrow> 'h card \<Rightarrow> emummc_cfg_t \<Rightarrow> nat \<Rightarrow> (nat \<Rightarrow> u8 list) \<Rightarrow> (nat \<Rightarrow> u8 list) \<Rightarrow> ('h, 'z) emu_world \<Rightarrow> bool" where
  "raw_ok env K c0 lim S0 F w \<longleftrightarrow> (\<exists>S. disk_ok (emu_rw env) K Sd_storage S (emu_sdw w) \<and> (\<forall>j. S (raw_first c0 + j) = F j) \<and>
     (\<forall>j. j < raw_first c0 \<or> raw_first c0 + lim \<le> j \<longrightarrow> S j = S0 j))"

text \<open>The files, and every other file.\<close>

definition files_ok :: "('z \<Rightarrow> string \<rightharpoonup> u8 list) \<Rightarrow> emummc_cfg_t \<Rightarrow> nat \<Rightarrow> nat \<Rightarrow> (string \<rightharpoonup> u8 list) \<Rightarrow> (nat \<Rightarrow> u8 list) \<Rightarrow> ('h, 'z) emu_world \<Rightarrow> bool" where
  "files_ok view c0 L N V0 F w \<longleftrightarrow> 0 < L \<and> N \<le> 100 \<and> emu_name (emu_cfg w) = emu_name c0 \<and>
     (if active_part c0 = 0 then L = unat (file_based_part_size c0) \<and> 2 \<le> length (emummc_file_based_path (emu_cfg w)) else N = 1) \<and>
     (\<forall>k<N. view (emu_fs w) (emu_name c0 k) = Some (concat (map F [k * L..<k * L + L]))) \<and>
     (\<forall>q. q \<notin> emu_name c0 ` {..<N} \<longrightarrow> view (emu_fs w) q = V0 q)"

definition emu_ok ::
  "('h, 'g, 'd, 'f, 'z) emu_env \<Rightarrow> 'h card \<Rightarrow> ('z \<Rightarrow> string \<rightharpoonup> u8 list) \<Rightarrow> emummc_cfg_t \<Rightarrow> nat \<Rightarrow> nat \<Rightarrow> (nat \<Rightarrow> u8 list) \<Rightarrow> (string \<rightharpoonup> u8 list) \<Rightarrow>
   (nat \<Rightarrow> u8 list) \<Rightarrow> ('h, 'z) emu_world \<Rightarrow> bool" where
  "emu_ok env K view c0 L N S0 V0 F w \<longleftrightarrow> (\<forall>j. length (F j) = 512) \<and> emu_same c0 (emu_cfg w) \<and>
     (if emu_off env c0 then disk_ok (emu_rw env) K Emmc_storage F (emu_sdw w)
      else if emu_sector c0 \<noteq> 0 then raw_ok env K c0 (N * L) S0 F w
      else files_ok view c0 L N V0 F w \<and> (\<exists>fpath fpos. fs_laws env view fpath fpos))"

text \<open>The requests it can serve: without a wrap on the SD card, and inside one file.\<close>

definition emu_reach :: "('h, 'g, 'd, 'f, 'z) emu_env \<Rightarrow> 'h card \<Rightarrow> emummc_cfg_t \<Rightarrow> nat \<Rightarrow> nat \<Rightarrow> u32 \<Rightarrow> u32 \<Rightarrow> bool" where
  "emu_reach env K c0 L N a n \<longleftrightarrow>
     (if emu_off env c0 then card_reach K a n
      else if emu_sector c0 \<noteq> 0
      then raw_first c0 + unat a < 2 ^ 32 \<and> unat a + unat n \<le> N * L \<and> (card_ccs K \<or> raw_first c0 + unat a + unat n \<le> 2 ^ 23)
      else unat a div L < N \<and> unat a mod L + unat n \<le> L \<and> unat n < 2 ^ 23)"

lemma emu_same_sel:
  assumes "emu_same c0 c"
  shows "emu_off env c = emu_off env c0" "emu_sector c = emu_sector c0" "active_part c = active_part c0" "file_based_part_size c = file_based_part_size c0"
    "raw_sector c = raw_sector c0"
  by (subst assms [unfolded emu_same_def], simp add: emu_off_def raw_sector_def fun_eq_iff)+

lemma emu_same_path [intro]: "emu_same c0 c \<Longrightarrow> emu_same c0 (c\<lparr>emummc_file_based_path := p\<rparr>)"
  unfolding emu_same_def by (metis emummc_cfg_t.surjective emummc_cfg_t.update_convs(6))

lemma raw_sector_first:
  assumes "raw_first c + unat a < 2 ^ 32"
  shows "unat (raw_sector c a) = raw_first c + unat a"
proof -
  have "unat (emu_sector c) + unat a < 2 ^ 32" using assms by (simp add: raw_first_def)
  then have "unat (ucast (ucast a + emu_sector c :: u64) :: u32) = unat (emu_sector c) + unat a"
    by (simp add: unsigned_ucast_eq take_bit_eq_mod unat_word_ariths)
  then show ?thesis using assms by (auto simp: raw_sector_def raw_first_def emummc_raw_get_part_off_def unat_word_ariths)
qed

subsection \<open>Files\<close>

lemma locate_ok:
  assumes c: "emu_same c0 c" "emu_name c = emu_name c0"
    and L: "0 < L" "if active_part c0 = 0 then L = unat (file_based_part_size c0) \<and> 2 \<le> length (emummc_file_based_path c) else N = 1" "N \<le> 100"
    and a: "unat a div L < N"
  obtains sct c1 where "locate_file a c = Some (sct, c1)" "unat sct = unat a mod L" "emummc_file_based_path c1 = emu_name c0 (unat a div L)"
    "emu_same c0 c1" "emu_name c1 = emu_name c0" "active_part c0 = 0 \<longrightarrow> 2 \<le> length (emummc_file_based_path c1)"
proof (cases "active_part c0 = 0")
  case True
  define c1 where "c1 = c\<lparr>emummc_file_based_path := set_file_part (a div file_based_part_size c) (emummc_file_based_path c)\<rparr>"
  have act: "active_part c = 0" "file_based_part_size c = file_based_part_size c0" using True emu_same_sel [OF c(1)] by simp_all
  have P: "L = unat (file_based_part_size c0)" "2 \<le> length (emummc_file_based_path c)" using L(2) True by simp_all
  have "unat (a div file_based_part_size c0) = unat a div L" using P by (simp add: unat_div)
  then have p: "emummc_file_based_path c1 = part_name (emummc_file_based_path c) (unat a div L)"
    using a L(3) P act by (simp add: c1_def set_file_part_name)
  have n0: "emu_name c0 k = part_name (emummc_file_based_path c) k" for k using fun_cong [OF c(2), of k] act by (simp add: emu_name_def)
  show ?thesis
  proof (rule that)
    show "locate_file a c = Some (a mod file_based_part_size c0, c1)" using act P L(1) by (auto simp: locate_file_def c1_def)
    show "unat (a mod file_based_part_size c0) = unat a mod L" using P by (simp add: unat_mod)
    show "emummc_file_based_path c1 = emu_name c0 (unat a div L)" using p n0 by simp
    show "emu_same c0 c1" unfolding c1_def using c(1) by blast
    show "emu_name c1 = emu_name c0" using p n0 P(2) act by (simp add: emu_name_def fun_eq_iff c1_def)
    show "active_part c0 = 0 \<longrightarrow> 2 \<le> length (emummc_file_based_path c1)" using p P(2) by simp
  qed
next
  case False
  then have "unat a div L = 0" using a L(2) by simp
  moreover have "emummc_file_based_path c = emummc_file_based_path c0"
    using fun_cong [OF c(2), of 0] False emu_same_sel(3) [OF c(1)] by (simp add: emu_name_def)
  ultimately show ?thesis using that [of a c] False c emu_same_sel [OF c(1)] L(1)
    by (simp add: locate_file_def emu_name_def div_eq_0_iff)
qed

lemma sector_bytes: "unat (push_bit 9 (ucast (s :: u32) :: u64)) = 512 * unat s"
proof -
  have "512 * unat s < 18446744073709551616" using unat_less_pow [of s] by linarith
  then show ?thesis by (simp add: push_bit_eq_mult unat_word_ariths unsigned_ucast_eq take_bit_eq_mod)
qed

lemma count_bytes: "unat n < 2 ^ 23 \<Longrightarrow> unat (ucast (push_bit 9 (ucast (n :: u32) :: u64)) :: u32) = 512 * unat n"
  by (simp add: unsigned_ucast_eq sector_bytes take_bit_eq_mod)

text \<open>A read gets what the file of its first sector has.\<close>

lemma file_part_read:
  assumes ok: "files_ok view c0 L N V0 F w" and F: "\<And>j. length (F j) = 512" and laws: "fs_laws env view fpath fpos"
    and mode: "emu_same c0 (emu_cfg w)" "\<not> emu_off env c0" "emu_sector c0 = 0"
    and r: "unat a div L < N" "unat n < 2 ^ 23" and len: "length b = 512 * unat n"
  shows "\<exists>err b' w'. emummc_storage_read env dma a n b w = Some (err, b', w') \<and> files_ok view c0 L N V0 F w' \<and> emu_same c0 (emu_cfg w') \<and>
    length b' = length b \<and> (\<not> err \<longrightarrow> b' = buf_fill b (concat (map F [unat a..<min (unat a + unat n) (unat a div L * L + L)])))"
proof -
  let ?k = "unat a div L" and ?i = "unat a mod L"
  let ?c = "concat (map F [?k * L..<?k * L + L])"
  have f: "0 < L" "N \<le> 100" "emu_name (emu_cfg w) = emu_name c0"
    "if active_part c0 = 0 then L = unat (file_based_part_size c0) \<and> 2 \<le> length (emummc_file_based_path (emu_cfg w)) else N = 1"
    "view (emu_fs w) (emu_name c0 ?k) = Some ?c" using ok r(1) by (simp_all add: files_ok_def)
  obtain sct c1 where l: "locate_file a (emu_cfg w) = Some (sct, c1)" "unat sct = ?i" "emummc_file_based_path c1 = emu_name c0 ?k" "emu_same c0 c1"
    "emu_name c1 = emu_name c0" "active_part c0 = 0 \<longrightarrow> 2 \<le> length (emummc_file_based_path c1)"
    by (rule locate_ok [OF mode(1) f(3,1,4,2) r(1)])
  have keep: "files_ok view c0 L N V0 F (w\<lparr>emu_cfg := c1, emu_fs := z\<rparr>)" if "view z = view (emu_fs w)" for z
    using ok l(5,6) that by (auto simp: files_ok_def)
  obtain err fp z1 where op: "fs_open env (emu_name c0 ?k) False (emu_fs w) = (err, fp, z1)" by (rule prod_cases3)
  obtain fp2 z2 where sk: "fs_lseek env fp (push_bit 9 (ucast sct)) z1 = (fp2, z2)" by force
  obtain rerr bs fp3 z3 where rd: "fs_read env fp2 (ucast (push_bit 9 (ucast n :: u64))) z2 = (rerr, bs, fp3, z3)" by (rule prod_cases4)
  have step: "emummc_storage_read env dma a n b w =
    (if err then Some (True, b, w\<lparr>emu_cfg := c1, emu_fs := z1\<rparr>) else Some (rerr, buf_fill b bs, w\<lparr>emu_cfg := c1, emu_fs := fs_close env fp3 z3\<rparr>))"
    using mode l(1,3) op sk rd emu_same_sel(1) [OF mode(1), of env] emu_same_sel(2) [OF mode(1)] by (simp add: emummc_storage_read_def Let_def)
  show ?thesis
  proof (cases err)
    case True
    then show ?thesis using step keep [of z1] fs_openD [OF laws op] l(4) by auto
  next
    case False
    have lc: "length ?c = 512 * L" using F by (simp add: length_blocks)
    have il: "?i < L" using f(1) by simp
    then have "unat (push_bit 9 (ucast sct :: u64)) \<le> length ?c" using lc l(2) by (simp add: sector_bytes)
    from file_read [OF laws op [unfolded False [THEN eq_False [THEN iffD2]]] f(5) this sk rd]
    have x: "view (fs_close env fp3 z3) = view (emu_fs w)" "length bs \<le> 512 * unat n" "\<not> rerr \<longrightarrow> bs = take (512 * unat n) (drop (512 * ?i) ?c)"
      using l(2) r(2) by (simp_all add: sector_bytes count_bytes)
    have "take (512 * unat n) (drop (512 * ?i) ?c) = take (512 * min (unat n) (L - ?i)) (drop (512 * ?i) ?c)"
      using lc by (cases "unat n \<le> L - ?i") (simp_all add: min_def not_le)
    also have "\<dots> = concat (map F [?k * L + ?i..<?k * L + ?i + min (unat n) (L - ?i)])" using il by (intro blocks_part F) simp
    also have "?k * L + ?i = unat a" by simp
    also have "unat a + min (unat n) (L - ?i) = min (unat a + unat n) (?k * L + L)" using il div_mult_mod_eq [of "unat a" L] by linarith
    finally have "\<not> rerr \<longrightarrow> buf_fill b bs = buf_fill b (concat (map F [unat a..<min (unat a + unat n) (?k * L + L)]))" using x(3) by simp
    moreover have "length (buf_fill b bs) = length b" using x(2) len by (simp add: buf_fill_def)
    ultimately show ?thesis using step False keep [OF x(1)] l(4) by auto
  qed
qed

lemma files_read:
  assumes ok: "files_ok view c0 L N V0 F w" and F: "\<And>j. length (F j) = 512" and laws: "fs_laws env view fpath fpos"
    and mode: "emu_same c0 (emu_cfg w)" "\<not> emu_off env c0" "emu_sector c0 = 0"
    and r: "unat a div L < N" "unat a mod L + unat n \<le> L" "unat n < 2 ^ 23" and len: "length b = 512 * unat n"
  shows "\<exists>err b' w'. emummc_storage_read env dma a n b w = Some (err, b', w') \<and> files_ok view c0 L N V0 F w' \<and> emu_same c0 (emu_cfg w') \<and>
    length b' = length b \<and> (\<not> err \<longrightarrow> b' = concat (map F [unat a..<unat a + unat n]))"
proof -
  have "min (unat a + unat n) (unat a div L * L + L) = unat a + unat n" using r(2) div_mult_mod_eq [of "unat a" L] by linarith
  moreover have "buf_fill b (concat (map F [unat a..<unat a + unat n])) = concat (map F [unat a..<unat a + unat n])"
    using len F by (simp add: buf_fill_def length_blocks)
  ultimately show ?thesis using file_part_read [OF ok F laws mode r(1,3) len] by simp
qed

text \<open>One file has changed, in one range.\<close>

lemma files_put:
  assumes ok: "files_ok view c0 L N V0 F w" and r: "unat a div L < N" "unat a mod L + unat n \<le> L"
    and c1: "emu_name c1 = emu_name c0" "active_part c0 = 0 \<longrightarrow> 2 \<le> length (emummc_file_based_path c1)"
    and z: "view z = (view (emu_fs w))(emu_name c0 (unat a div L) \<mapsto> c')" "concat (map G [unat a div L * L..<unat a div L * L + L]) = c'"
    and out: "\<forall>j. j < unat a \<or> unat a + unat n \<le> j \<longrightarrow> G j = F j"
  shows "files_ok view c0 L N V0 G (w\<lparr>emu_cfg := c1, emu_fs := z\<rparr>)"
proof -
  let ?k = "unat a div L"
  have range: "?k * L \<le> unat a" "unat a + unat n \<le> ?k * L + L" using r(2) div_mult_mod_eq [of "unat a" L] by linarith+
  have "view z (emu_name c0 k) = Some (concat (map G [k * L..<k * L + L]))" if k: "k < N" for k
  proof (cases "k = ?k")
    case False
    have "N \<le> 100" "active_part c0 \<noteq> 0 \<longrightarrow> N = 1" using ok by (auto simp: files_ok_def split: if_splits)
    then have ne: "emu_name c0 k \<noteq> emu_name c0 ?k" using False k r(1) part_name_inj [of k ?k "emummc_file_based_path c0"] by (auto simp: emu_name_def)
    have "k * L + L \<le> ?k * L \<or> ?k * L + L \<le> k * L" using False mult_le_mono1 [of "Suc k" ?k L] mult_le_mono1 [of "Suc ?k" k L] by (simp add: add.commute) linarith
    then have "x < unat a \<or> unat a + unat n \<le> x" if "k * L \<le> x" "x < k * L + L" for x using range that by linarith
    then have "G x = F x" if "k * L \<le> x" "x < k * L + L" for x using out that by blast
    then have same: "map G [k * L..<k * L + L] = map F [k * L..<k * L + L]" by auto
    show ?thesis unfolding same using ne z(1) ok k by (auto simp: files_ok_def)
  qed (use z in simp)
  moreover have "view z q = V0 q" if "q \<notin> emu_name c0 ` {..<N}" for q using that z(1) r(1) ok by (auto simp: files_ok_def)
  ultimately show ?thesis using ok c1 by (auto simp: files_ok_def split: if_splits)
qed

lemma files_write:
  assumes ok: "files_ok view c0 L N V0 F w" and F: "\<And>j. length (F j) = 512" and laws: "fs_laws env view fpath fpos"
    and mode: "emu_same c0 (emu_cfg w)" "\<not> emu_off env c0" "emu_sector c0 = 0"
    and r: "unat a div L < N" "unat a mod L + unat n \<le> L" "unat n < 2 ^ 23" and len: "length b = 512 * unat n"
  shows "\<exists>err w' G. emummc_storage_write env dma a n b w = Some (err, w') \<and> files_ok view c0 L N V0 G w' \<and> emu_same c0 (emu_cfg w') \<and>
    (\<forall>j. length (G j) = 512) \<and> (\<forall>j. j < unat a \<or> unat a + unat n \<le> j \<longrightarrow> G j = F j) \<and> (\<not> err \<longrightarrow> G = put_blocks (unat a) b (unat n) F)"
proof -
  let ?k = "unat a div L" and ?i = "unat a mod L"
  let ?c = "concat (map F [?k * L..<?k * L + L])"
  have f: "0 < L" "N \<le> 100" "emu_name (emu_cfg w) = emu_name c0"
    "if active_part c0 = 0 then L = unat (file_based_part_size c0) \<and> 2 \<le> length (emummc_file_based_path (emu_cfg w)) else N = 1"
    "view (emu_fs w) (emu_name c0 ?k) = Some ?c" using ok r(1) by (simp_all add: files_ok_def)
  obtain sct c1 where l: "locate_file a (emu_cfg w) = Some (sct, c1)" "unat sct = ?i" "emummc_file_based_path c1 = emu_name c0 ?k" "emu_same c0 c1"
    "emu_name c1 = emu_name c0" "active_part c0 = 0 \<longrightarrow> 2 \<le> length (emummc_file_based_path c1)"
    by (rule locate_ok [OF mode(1) f(3,1,4,2) r(1)])
  obtain err fp z1 where op: "fs_open env (emu_name c0 ?k) True (emu_fs w) = (err, fp, z1)" by (rule prod_cases3)
  obtain fp2 z2 where sk: "fs_lseek env fp (push_bit 9 (ucast sct)) z1 = (fp2, z2)" by force
  obtain werr fp3 z3 where wr: "fs_write env fp2 b z2 = (werr, fp3, z3)" by (rule prod_cases3)
  have step: "emummc_storage_write env dma a n b w =
    (if err then Some (True, w\<lparr>emu_cfg := c1, emu_fs := z1\<rparr>) else Some (werr, w\<lparr>emu_cfg := c1, emu_fs := fs_close env fp3 z3\<rparr>))"
    using mode l(1,3) op sk wr emu_same_sel(1) [OF mode(1), of env] emu_same_sel(2) [OF mode(1)] len r(3) count_bytes [of n]
    by (simp add: emummc_storage_write_def Let_def)
  show ?thesis
  proof (cases err)
    case True
    have "files_ok view c0 L N V0 F (w\<lparr>emu_cfg := c1, emu_fs := z1\<rparr>)" using ok l(5,6) fs_openD [OF laws op] by (auto simp: files_ok_def)
    then show ?thesis using step True l(4) F by auto
  next
    case False
    have lc: "length ?c = 512 * L" using F by (simp add: length_blocks)
    have "unat (push_bit 9 (ucast sct :: u64)) + length b \<le> length ?c" using lc l(2) r(2) len by (simp add: sector_bytes)
    from file_write [OF laws op [unfolded False [THEN eq_False [THEN iffD2]]] f(5) this sk wr]
    obtain c' where c': "view (fs_close env fp3 z3) = (view (emu_fs w))(emu_name c0 ?k \<mapsto> c')" "length c' = 512 * L" "take (512 * ?i) c' = take (512 * ?i) ?c"
      "drop (512 * (?i + unat n)) c' = drop (512 * (?i + unat n)) ?c" "\<not> werr \<longrightarrow> take (512 * unat n) (drop (512 * ?i) c') = b"
      using lc len l(2) by (auto simp: sector_bytes)
    define G where "G = put_blocks (unat a) (take (512 * unat n) (drop (512 * ?i) c')) (unat n) F"
    have Gk: "concat (map G [?k * L..<?k * L + L]) = c'" using blocks_changed [OF F r(2) c'(2-4)] by (simp add: G_def)
    have out: "\<forall>j. j < unat a \<or> unat a + unat n \<le> j \<longrightarrow> G j = F j" by (simp add: G_def put_blocks_def)
    have lenG: "length (G j) = 512" for j using F c'(2) r(2) by (auto simp: G_def put_blocks_def)
    have files: "files_ok view c0 L N V0 G (w\<lparr>emu_cfg := c1, emu_fs := fs_close env fp3 z3\<rparr>)"
      using files_put [OF ok r(1,2) l(5,6) c'(1) Gk out] .
    then show ?thesis using step False l(4) out lenG c'(5) G_def by auto
  qed
qed

subsection \<open>Sectors of the SD card\<close>

lemma raw_read:
  assumes ok: "raw_ok env K c0 lim S0 F w" and mode: "emu_same c0 (emu_cfg w)" "\<not> emu_off env c0" "emu_sector c0 \<noteq> 0"
    and r: "raw_first c0 + unat a < 2 ^ 32" "card_ccs K \<or> raw_first c0 + unat a + unat n \<le> 2 ^ 23" and len: "length b = 512 * unat n"
  shows "\<exists>err b' w'. emummc_storage_read env dma a n b w = Some (err, b', w') \<and> raw_ok env K c0 lim S0 F w' \<and> emu_cfg w' = emu_cfg w \<and>
    length b' = length b \<and> (\<not> err \<longrightarrow> b' = concat (map F [unat a..<unat a + unat n]))"
proof -
  obtain S where S: "disk_ok (emu_rw env) K Sd_storage S (emu_sdw w)" "\<forall>j. S (raw_first c0 + j) = F j"
    "\<forall>j. j < raw_first c0 \<or> raw_first c0 + lim \<le> j \<longrightarrow> S j = S0 j" using ok unfolding raw_ok_def by blast
  note sec = raw_sector_first [OF r(1)]
  have "card_reach K (raw_sector c0 a) n" using r(2) sec by (simp add: card_reach_def)
  from disk_read [OF S(1) this len] obtain err b' s where x: "sdmmc_storage_read (emu_rw env) Sd_storage (raw_sector c0 a) n dma b (emu_sdw w) = Some (err, b', s)"
    "disk_ok (emu_rw env) K Sd_storage S s" "length b' = length b" "\<not> err \<longrightarrow> b' = concat (map S [unat (raw_sector c0 a)..<unat (raw_sector c0 a) + unat n])" by blast
  have "[raw_first c0 + unat a..<raw_first c0 + unat a + unat n] = map (\<lambda>j. raw_first c0 + j) [unat a..<unat a + unat n]"
    by (rule nth_equalityI) simp_all
  then have "map S [unat (raw_sector c0 a)..<unat (raw_sector c0 a) + unat n] = map F [unat a..<unat a + unat n]" unfolding sec using S(2) by simp
  moreover have "emummc_storage_read env dma a n b w = Some (err, b', w\<lparr>emu_sdw := s\<rparr>)"
    using mode x(1) emu_same_sel(1) [OF mode(1), of env] emu_same_sel(2,5) [OF mode(1)] by (simp add: emummc_storage_read_def Let_def)
  moreover have "raw_ok env K c0 lim S0 F (w\<lparr>emu_sdw := s\<rparr>)" unfolding raw_ok_def using x(2) S(2,3) by auto
  ultimately show ?thesis using x(3,4) by auto
qed

lemma raw_write:
  assumes ok: "raw_ok env K c0 lim S0 F w" and mode: "emu_same c0 (emu_cfg w)" "\<not> emu_off env c0" "emu_sector c0 \<noteq> 0"
    and r: "raw_first c0 + unat a < 2 ^ 32" "card_ccs K \<or> raw_first c0 + unat a + unat n \<le> 2 ^ 23" "unat a + unat n \<le> lim" and len: "length b = 512 * unat n"
  shows "\<exists>err w' G. emummc_storage_write env dma a n b w = Some (err, w') \<and> raw_ok env K c0 lim S0 G w' \<and> emu_cfg w' = emu_cfg w \<and>
    (\<forall>j. length (G j) = 512) \<and> (\<forall>j. j < unat a \<or> unat a + unat n \<le> j \<longrightarrow> G j = F j) \<and> (\<not> err \<longrightarrow> G = put_blocks (unat a) b (unat n) F)"
proof -
  obtain S where S: "disk_ok (emu_rw env) K Sd_storage S (emu_sdw w)" "\<forall>j. S (raw_first c0 + j) = F j"
    "\<forall>j. j < raw_first c0 \<or> raw_first c0 + lim \<le> j \<longrightarrow> S j = S0 j" using ok unfolding raw_ok_def by blast
  note sec = raw_sector_first [OF r(1)]
  have "card_reach K (raw_sector c0 a) n" using r(2) sec by (simp add: card_reach_def)
  from disk_write [OF S(1) this len] obtain err s T where x: "sdmmc_storage_write (emu_rw env) Sd_storage (raw_sector c0 a) n dma b (emu_sdw w) = Some (err, s)"
    "disk_ok (emu_rw env) K Sd_storage T s" "\<forall>j. j < unat (raw_sector c0 a) \<or> unat (raw_sector c0 a) + unat n \<le> j \<longrightarrow> T j = S j"
    "\<not> err \<longrightarrow> T = put_blocks (unat (raw_sector c0 a)) b (unat n) S" by blast
  define G where "G = (\<lambda>j. T (raw_first c0 + j))"
  have "emummc_storage_write env dma a n b w = Some (err, w\<lparr>emu_sdw := s\<rparr>)"
    using mode x(1) emu_same_sel(1) [OF mode(1), of env] emu_same_sel(2,5) [OF mode(1)] by (simp add: emummc_storage_write_def Let_def)
  moreover have "T j = S0 j" if "j < raw_first c0 \<or> raw_first c0 + lim \<le> j" for j using that x(3) S(3) r(3) sec by auto
  then have "raw_ok env K c0 lim S0 G (w\<lparr>emu_sdw := s\<rparr>)" unfolding raw_ok_def using x(2) by (auto simp: G_def)
  moreover have "length (G j) = 512" for j using disk.ok_block [OF x(2)] by (simp add: G_def)
  moreover have "\<forall>j. j < unat a \<or> unat a + unat n \<le> j \<longrightarrow> G j = F j" using x(3) S(2) sec by (simp add: G_def)
  moreover have "G = put_blocks (unat a) b (unat n) F" if "\<not> err" using that x(4) S(2) sec by (auto simp: G_def put_blocks_def fun_eq_iff)
  ultimately show ?thesis by auto
qed

subsection \<open>The contract\<close>

lemma emu_read:
  assumes ok: "emu_ok env K view c0 L N S0 V0 F w" and r: "emu_reach env K c0 L N a n" and len: "length b = 512 * unat n"
  shows "\<exists>err b' w'. emummc_storage_read env dma a n b w = Some (err, b', w') \<and> emu_ok env K view c0 L N S0 V0 F w' \<and>
    length b' = length b \<and> (\<not> err \<longrightarrow> b' = concat (map F [unat a..<unat a + unat n]))"
proof -
  have F: "\<And>j. length (F j) = 512" and same: "emu_same c0 (emu_cfg w)" using ok by (simp_all add: emu_ok_def)
  consider "emu_off env c0" | "\<not> emu_off env c0" "emu_sector c0 \<noteq> 0" | "\<not> emu_off env c0" "emu_sector c0 = 0" by blast
  then show ?thesis
  proof cases
    case 1
    have "disk_ok (emu_rw env) K Emmc_storage F (emu_sdw w)" "card_reach K a n" using ok r 1 by (simp_all add: emu_ok_def emu_reach_def)
    from disk_read [OF this len] obtain err b' s where "sdmmc_storage_read (emu_rw env) Emmc_storage a n dma b (emu_sdw w) = Some (err, b', s)"
      "disk_ok (emu_rw env) K Emmc_storage F s" "length b' = length b" "\<not> err \<longrightarrow> b' = concat (map F [unat a..<unat a + unat n])" by blast
    then show ?thesis using 1 emu_same_sel(1) [OF same, of env] same F by (auto simp: emummc_storage_read_def emu_ok_def)
  next
    case 2
    have x: "raw_ok env K c0 (N * L) S0 F w" "raw_first c0 + unat a < 2 ^ 32" "card_ccs K \<or> raw_first c0 + unat a + unat n \<le> 2 ^ 23"
      using ok r 2 by (simp_all add: emu_ok_def emu_reach_def)
    obtain err b' w' where "emummc_storage_read env dma a n b w = Some (err, b', w')" "raw_ok env K c0 (N * L) S0 F w'" "emu_cfg w' = emu_cfg w"
      "length b' = length b" "\<not> err \<longrightarrow> b' = concat (map F [unat a..<unat a + unat n])" using raw_read [OF x(1) same 2 x(2,3) len] by blast
    then show ?thesis using 2 F same by (auto simp: emu_ok_def)
  next
    case 3
    then obtain fpath fpos where l: "fs_laws env view fpath fpos" "files_ok view c0 L N V0 F w" using ok by (auto simp: emu_ok_def)
    have x: "unat a div L < N" "unat a mod L + unat n \<le> L" "unat n < 2 ^ 23" using r 3 by (simp_all add: emu_reach_def)
    obtain err b' w' where "emummc_storage_read env dma a n b w = Some (err, b', w')" "files_ok view c0 L N V0 F w'" "emu_same c0 (emu_cfg w')"
      "length b' = length b" "\<not> err \<longrightarrow> b' = concat (map F [unat a..<unat a + unat n])" using files_read [OF l(2) F l(1) same 3 x len] by blast
    then show ?thesis using 3 F l(1) by (auto simp: emu_ok_def)
  qed
qed

lemma emu_write:
  assumes ok: "emu_ok env K view c0 L N S0 V0 F w" and r: "emu_reach env K c0 L N a n" and len: "length b = 512 * unat n"
  shows "\<exists>err w' G. emummc_storage_write env dma a n b w = Some (err, w') \<and> emu_ok env K view c0 L N S0 V0 G w' \<and>
    (\<forall>j. j < unat a \<or> unat a + unat n \<le> j \<longrightarrow> G j = F j) \<and> (\<not> err \<longrightarrow> G = put_blocks (unat a) b (unat n) F)"
proof -
  have F: "\<And>j. length (F j) = 512" and same: "emu_same c0 (emu_cfg w)" using ok by (simp_all add: emu_ok_def)
  consider "emu_off env c0" | "\<not> emu_off env c0" "emu_sector c0 \<noteq> 0" | "\<not> emu_off env c0" "emu_sector c0 = 0" by blast
  then show ?thesis
  proof cases
    case 1
    have "disk_ok (emu_rw env) K Emmc_storage F (emu_sdw w)" "card_reach K a n" using ok r 1 by (simp_all add: emu_ok_def emu_reach_def)
    from disk_write [OF this len] obtain err s G where x: "sdmmc_storage_write (emu_rw env) Emmc_storage a n dma b (emu_sdw w) = Some (err, s)"
      "disk_ok (emu_rw env) K Emmc_storage G s" "\<forall>j. j < unat a \<or> unat a + unat n \<le> j \<longrightarrow> G j = F j" "\<not> err \<longrightarrow> G = put_blocks (unat a) b (unat n) F" by blast
    have "emummc_storage_write env dma a n b w = Some (err, w\<lparr>emu_sdw := s\<rparr>)"
      using 1 emu_same_sel(1) [OF same, of env] x(1) by (simp add: emummc_storage_write_def)
    moreover have "emu_ok env K view c0 L N S0 V0 G (w\<lparr>emu_sdw := s\<rparr>)" using 1 same x(2) disk.ok_block [OF x(2)] by (simp add: emu_ok_def)
    ultimately show ?thesis using x(3,4) by blast
  next
    case 2
    have x: "raw_ok env K c0 (N * L) S0 F w" "raw_first c0 + unat a < 2 ^ 32" "card_ccs K \<or> raw_first c0 + unat a + unat n \<le> 2 ^ 23" "unat a + unat n \<le> N * L"
      using ok r 2 by (simp_all add: emu_ok_def emu_reach_def)
    obtain err w' G where y: "emummc_storage_write env dma a n b w = Some (err, w')" "raw_ok env K c0 (N * L) S0 G w'" "emu_cfg w' = emu_cfg w" "\<forall>j. length (G j) = 512"
      "\<forall>j. j < unat a \<or> unat a + unat n \<le> j \<longrightarrow> G j = F j" "\<not> err \<longrightarrow> G = put_blocks (unat a) b (unat n) F" using raw_write [OF x(1) same 2 x(2-4) len] by blast
    then have "emu_ok env K view c0 L N S0 V0 G w'" using 2 same by (simp add: emu_ok_def)
    then show ?thesis using y(1,5,6) by blast
  next
    case 3
    then obtain fpath fpos where l: "fs_laws env view fpath fpos" "files_ok view c0 L N V0 F w" using ok by (auto simp: emu_ok_def)
    have x: "unat a div L < N" "unat a mod L + unat n \<le> L" "unat n < 2 ^ 23" using r 3 by (simp_all add: emu_reach_def)
    obtain err w' G where y: "emummc_storage_write env dma a n b w = Some (err, w')" "files_ok view c0 L N V0 G w'" "emu_same c0 (emu_cfg w')" "\<forall>j. length (G j) = 512"
      "\<forall>j. j < unat a \<or> unat a + unat n \<le> j \<longrightarrow> G j = F j" "\<not> err \<longrightarrow> G = put_blocks (unat a) b (unat n) F" using files_write [OF l(2) F l(1) same 3 x len] by blast
    then have "emu_ok env K view c0 L N S0 V0 G w'" using 3 l(1) by (auto simp: emu_ok_def)
    then show ?thesis using y(1,5,6) by blast
  qed
qed

interpretation emu: faulty_disk "emu_ok env K view c0 L N S0 V0" "emu_reach env K c0 L N" "emummc_storage_read env dma" "emummc_storage_write env dma"
  for env K view c0 L N S0 V0 dma
proof
  show "emu_ok env K view c0 L N S0 V0 F s \<Longrightarrow> length (F j) = 512" for F s j by (simp add: emu_ok_def)
qed (rule emu_read emu_write; assumption)+

text \<open>
  C6. The emulated eMMC is a disk, whether the requests go to the eMMC, to sectors of the SD card or to
  files: a read that it can serve returns, changes nothing, and without an error delivers the sectors.
\<close>

theorem emummc_read_delivers:
  assumes "emu_ok env K view c0 L N S0 V0 F w" "emu_reach env K c0 L N a n" "length b = 512 * unat n"
  shows "\<exists>err b' w'. emummc_storage_read env dma a n b w = Some (err, b', w') \<and> emu_ok env K view c0 L N S0 V0 F w' \<and> length b' = length b \<and>
    (\<not> err \<longrightarrow> b' = concat (map F [unat a..<unat a + unat n]))"
  using assms by (rule emu.rd_law)

text \<open>
  C7. A write to the emulated eMMC returns; without an error exactly the sectors asked for hold the data,
  with an error no other sector has changed; and the sectors and files of the SD card that are not of
  the emulated eMMC stay as they are.
\<close>

theorem emummc_write_exact:
  assumes "emu_ok env K view c0 L N S0 V0 F w" "emu_reach env K c0 L N a n" "length b = 512 * unat n"
  shows "\<exists>err w' G. emummc_storage_write env dma a n b w = Some (err, w') \<and> emu_ok env K view c0 L N S0 V0 G w' \<and>
    (\<forall>j. j < unat a \<or> unat a + unat n \<le> j \<longrightarrow> G j = F j) \<and> (\<not> err \<longrightarrow> G = put_blocks (unat a) b (unat n) F)"
  using assms by (rule emu.wr_law)


end
