(* ===== verification/Emummc_Demo.thy ===== *)
theory Emummc_Demo
  imports Emummc_Disk Sdmmc_Demo
begin

text \<open>
  A file system and a card on which the conditions of the theorems on the emulated eMMC hold.
\<close>

subsection \<open>A file system\<close>

text \<open>A handle is a path and a position, which a seek behind the end takes away.\<close>

type_synonym demo_fstate = "string \<rightharpoonup> u8 list"
type_synonym demo_handle = "string \<times> nat option"

fun demo_seek :: "demo_handle \<Rightarrow> u64 \<Rightarrow> demo_fstate \<Rightarrow> demo_handle \<times> demo_fstate" where
  "demo_seek (p, _) x z = ((p, case z p of None \<Rightarrow> None | Some c \<Rightarrow> if unat x \<le> length c then Some (unat x) else None), z)"

fun demo_read :: "demo_handle \<Rightarrow> u32 \<Rightarrow> demo_fstate \<Rightarrow> bool \<times> u8 list \<times> demo_handle \<times> demo_fstate" where
  "demo_read (p, pos) n z = (case (pos, z p) of (Some i, Some c) \<Rightarrow> (False, take (unat n) (drop i c), (p, Some (i + unat n)), z) | _ \<Rightarrow> (True, [], (p, pos), z))"

fun demo_write :: "demo_handle \<Rightarrow> u8 list \<Rightarrow> demo_fstate \<Rightarrow> bool \<times> demo_handle \<times> demo_fstate" where
  "demo_write (p, pos) d z =
     (case (pos, z p) of (Some i, Some c) \<Rightarrow> (False, (p, Some (i + length d)), z(p \<mapsto> take i c @ d @ drop (i + length d) c)) | _ \<Rightarrow> (True, (p, pos), z))"

definition demo_emu :: "(demo_hw, nat, unit, demo_handle, demo_fstate) emu_env" where
  "demo_emu =
     \<lparr>emu_rw = demo_rw, emu_ini = demo_ini, emummc_force_disable = False, fs_open = (\<lambda>p wr z. (z p = None, (p, Some 0), z)), fs_lseek = demo_seek,
      fs_read = demo_read, fs_write = demo_write, fs_close = (\<lambda>f z. z), fs_stat = (\<lambda>p z. (z p = None, case z p of None \<Rightarrow> 0 | Some c \<Rightarrow> word_of_nat (length c), z)),
      fs_chmod = (\<lambda>p z. z)\<rparr>"

lemma demo_fs_laws: "fs_laws demo_emu (\<lambda>z. z) fst snd"
  by (auto simp: fs_laws_def demo_emu_def split: option.splits)

subsection \<open>Files\<close>

text \<open>Twelve files of two sectors.\<close>

definition demo_fcfg :: emummc_cfg_t where
  "demo_fcfg = \<lparr>emu_enabled = 1, emu_sector = 0, emu_id = 0, emu_path = Some ''emu'', nintendo_path = [], emummc_file_based_path = ''emu/eMMC/00'',
     file_based_part_size = 2, active_part = 0, fs_ver = 0\<rparr>"

definition demo_sector :: "nat \<Rightarrow> u8 list" where
  "demo_sector j = replicate 512 (word_of_nat j)"

definition demo_names :: "string list" where
  "demo_names = map (emu_name demo_fcfg) [0..<12]"

definition demo_parts :: demo_fstate where
  "demo_parts = map_of (zip demo_names (map (\<lambda>k. demo_sector (2 * k) @ demo_sector (2 * k + 1)) [0..<12]))"

definition demo_fworld :: "(demo_hw, demo_fstate) emu_world" where
  "demo_fworld = \<lparr>emu_cfg = demo_fcfg, emu_sdw = demo_world, emu_fs = demo_parts\<rparr>"

lemma demo_names_distinct: "distinct demo_names"
  by (auto simp: demo_names_def distinct_map inj_on_def emu_name_def demo_fcfg_def part_name_inj)

lemma demo_files_at: "k < 12 \<Longrightarrow> demo_parts (emu_name demo_fcfg k) = Some (demo_sector (2 * k) @ demo_sector (2 * k + 1))"
  unfolding demo_parts_def using map_of_zip_nth [OF _ demo_names_distinct, of "map (\<lambda>k. demo_sector (2 * k) @ demo_sector (2 * k + 1)) [0..<12]" k]
  by (simp add: demo_names_def)

lemma demo_files_ok: "emu_ok demo_emu demo_card (\<lambda>z. z) demo_fcfg 2 12 demo_sector demo_parts demo_sector demo_fworld"
proof -
  have "[k * 2..<k * 2 + 2] = [2 * k, 2 * k + 1]" for k :: nat by (simp add: upt_rec mult.commute)
  moreover have "2 \<le> length (emummc_file_based_path demo_fcfg)" "active_part demo_fcfg = 0" "unat (file_based_part_size demo_fcfg) = 2" by (simp_all add: demo_fcfg_def)
  ultimately have "files_ok (\<lambda>z. z) demo_fcfg 2 12 demo_parts demo_sector demo_fworld" using demo_files_at by (simp add: files_ok_def demo_fworld_def mult.commute)
  moreover have "\<not> emu_off demo_emu demo_fcfg" "emu_sector demo_fcfg = 0" "emu_same demo_fcfg demo_fcfg"
    by (simp_all add: emu_off_def demo_emu_def demo_fcfg_def emu_same_def)
  ultimately show ?thesis using demo_fs_laws by (auto simp: emu_ok_def demo_sector_def demo_fworld_def)
qed

theorem emummc_read_delivers_witness:
  "\<exists>err b w. emummc_storage_read demo_emu False 22 2 (replicate 1024 0xFF) demo_fworld = Some (err, b, w) \<and>
    (\<not> err \<longrightarrow> b = replicate 512 22 @ replicate 512 23)"
proof -
  have "emu_reach demo_emu demo_card demo_fcfg 2 12 22 2" by (simp add: emu_reach_def emu_off_def demo_emu_def demo_fcfg_def)
  moreover have "[22..<24] = [22, 23 :: nat]" by (simp add: upt_rec)
  ultimately show ?thesis
    using emummc_read_delivers [OF demo_files_ok, where a = 22 and n = 2 and b = "replicate 1024 0xFF" and dma = False] by (auto simp: demo_sector_def)
qed


subsection \<open>Sectors\<close>

text \<open>The sectors of the SD card from 100 on, the boot partitions first.\<close>

definition demo_rcfg :: emummc_cfg_t where
  "demo_rcfg = demo_fcfg\<lparr>emu_sector := 100\<rparr>"

definition demo_rworld :: "(demo_hw, demo_fstate) emu_world" where
  "demo_rworld = demo_fworld\<lparr>emu_cfg := demo_rcfg\<rparr>"

lemma demo_rcfg_mode: "\<not> emu_off demo_emu demo_rcfg" "emu_sector demo_rcfg = 100" "raw_first demo_rcfg = 16484"
  by (simp_all add: emu_off_def demo_emu_def demo_rcfg_def demo_fcfg_def raw_first_def emummc_raw_get_part_off_def)

lemma demo_raw_ok: "emu_ok demo_emu demo_card (\<lambda>z. z) demo_rcfg 5000 1 demo_sector demo_parts (\<lambda>j. demo_sector (16484 + j)) demo_rworld"
proof -
  have "disk_ok demo_rw demo_card Sd_storage demo_sector demo_world" using demo_disk_ok(1) by (simp add: demo_sector_def [abs_def])
  then have "raw_ok demo_emu demo_card demo_rcfg 5000 demo_sector (\<lambda>j. demo_sector (16484 + j)) demo_rworld"
    unfolding raw_ok_def demo_rcfg_mode by (auto simp: demo_emu_def demo_rworld_def demo_fworld_def)
  then show ?thesis using demo_rcfg_mode by (simp add: emu_ok_def demo_sector_def demo_rworld_def emu_same_def)
qed

theorem emummc_write_exact_witness:
  "\<exists>err w G. emummc_storage_write demo_emu True 5 1 (replicate 512 0xFF) demo_rworld = Some (err, w) \<and>
    emu_ok demo_emu demo_card (\<lambda>z. z) demo_rcfg 5000 1 demo_sector demo_parts G w \<and> G 4 = replicate 512 104"
proof -
  have "emu_reach demo_emu demo_card demo_rcfg 5000 1 5 1" using demo_rcfg_mode by (simp add: emu_reach_def demo_card_def)
  from emummc_write_exact [OF demo_raw_ok this, where b = "replicate 512 0xFF" and dma = True]
  obtain err w G where x: "emummc_storage_write demo_emu True 5 1 (replicate 512 0xFF) demo_rworld = Some (err, w)"
    "emu_ok demo_emu demo_card (\<lambda>z. z) demo_rcfg 5000 1 demo_sector demo_parts G w"
    "\<forall>j. j < unat (5 :: u32) \<or> unat (5 :: u32) + unat (1 :: u32) \<le> j \<longrightarrow> G j = demo_sector (16484 + j)" by auto
  moreover have "G 4 = replicate 512 104" using x(3) by (simp add: demo_sector_def)
  ultimately show ?thesis by blast
qed

end
