(* ===== verification/Kippatch_Print.thy ===== *)
theory Kippatch_Print
  imports Kippatch Sprintf
begin

text \<open>Parsing a patch file inverts printing it.\<close>

subsection \<open>Digits\<close>

lemma unat_u8: "unat (b :: u8) < 256"
  using unsigned_less [of b, where ?'a = nat] by simp

definition hex_num :: "u32 \<Rightarrow> string" where
  "hex_num v = putn_digits v 16 []"

definition hex_byte :: "u8 \<Rightarrow> string" where
  "hex_byte b = [digits16 ! (unat b div 16), digits16 ! (unat b mod 16)]"

definition hex_bytes :: "u8 list \<Rightarrow> string" where
  "hex_bytes bs = concat (map hex_byte bs)"

lemma hex_num_strtol: "fst (strtol (hex_num v) 16) = v"
proof -
  have "s_printf ''%X'' [AInt v] = Some (hex_num v)" unfolding s_printf_single by (simp add: s_putn_nofill hex_num_def)
  then show ?thesis using printf_X_strtol [of v] by auto
qed

text \<open>Digits are none of the characters the parser looks for.\<close>

definition plain_digits :: "string \<Rightarrow> bool" where
  "plain_digits s \<longleftrightarrow> plain_text s \<and> set s \<inter> {CHR '':'', CHR '','', CHR ''='', CHR '']'', CHR '' '', CHR 0x09} = {}"

lemma valid_digit_plain: "\<forall>d \<in> set s. valid_digit 16 d \<Longrightarrow> plain_digits s"
proof -
  have "\<forall>c \<in> {NUL, LF, CR, CHR '':'', CHR '','', CHR ''='', CHR '']'', CHR '' '', CHR 0x09}. \<not> valid_digit 16 c" by code_simp
  then show "\<forall>d \<in> set s. valid_digit 16 d \<Longrightarrow> plain_digits s" by (auto simp: plain_digits_def plain_text_def)
qed

lemma hex_num_plain: "plain_digits (hex_num v)"
  using putn_digits_0(2) [of 16 v] by (intro valid_digit_plain) (simp add: hex_num_def)

lemma digit_valid: "d < 16 \<Longrightarrow> valid_digit 16 (digits16 ! d)"
  using strtol_digit_digits16 by (simp add: valid_digit_def)

lemma hex_bytes_plain: "plain_digits (hex_bytes bs)"
proof (rule valid_digit_plain)
  have "unat b div 16 < 16" for b :: u8 using unat_u8 [of b] by simp
  then show "\<forall>d \<in> set (hex_bytes bs). valid_digit 16 d" by (auto simp: hex_bytes_def hex_byte_def digit_valid)
qed

lemma length_hex_bytes: "length (hex_bytes bs) = 2 * length bs"
  by (induction bs) (simp_all add: hex_bytes_def hex_byte_def)

lemma hex_nibble_digit: "d < 16 \<Longrightarrow> hex_nibble (digits16 ! d) = of_nat d"
proof -
  have "\<forall>d \<in> set [0..<16]. hex_nibble (digits16 ! d) = of_nat d" by code_simp
  then show "d < 16 \<Longrightarrow> hex_nibble (digits16 ! d) = of_nat d" by simp
qed

lemma nibbles_byte:
  "(push_bit 4 (hex_nibble (digits16 ! (unat b div 16))) AND 0xF0) OR (hex_nibble (digits16 ! (unat b mod 16)) AND 0x0F) = (b :: u8)"
proof -
  have "of_nat (unat b div 16) = drop_bit 4 b" using unat_u8 [of b] by (simp add: word_unat_eq_iff unat_of_nat unat_div drop_bit_eq_div)
  moreover have "of_nat (unat b mod 16) = take_bit 4 b" by (simp add: word_unat_eq_iff unat_of_nat unat_mod take_bit_eq_mod)
  moreover have "hex_nibble (digits16 ! (unat b div 16)) = of_nat (unat b div 16)" using unat_u8 [of b] by (intro hex_nibble_digit) simp
  moreover have "hex_nibble (digits16 ! (unat b mod 16)) = of_nat (unat b mod 16)" by (intro hex_nibble_digit) simp
  moreover have m: "(0xF0 :: u8) = NOT (mask 4)" "(0x0F :: u8) = mask 4" by (simp_all add: mask_eq_exp_minus_1)
  moreover have "(push_bit 4 (drop_bit 4 b) AND NOT (mask 4)) OR (take_bit 4 b AND mask 4) = b"
    by (rule bit_word_eqI) (auto simp only: bit_or_iff bit_and_iff bit_not_iff bit_push_bit_iff bit_drop_bit_eq bit_take_bit_iff bit_mask_iff possible_bit_word comp_def
        le_add_diff_inverse not_le)
  ultimately show ?thesis by metis
qed

lemma nibble_pairs_hex: "nibble_pairs (hex_bytes bs) = bs"
  by (induction bs) (simp_all add: hex_bytes_def hex_byte_def nibbles_byte)

lemma htoa_hex:
  assumes "length bs = unat n" "x \<noteq> CHR '' ''" "x \<noteq> CHR 0x09"
  shows "htoa (hex_bytes bs @ x # rest) n = Some bs"
proof -
  have "dropWhile (\<lambda>c. c = CHR '' '' \<or> c = CHR 0x09) (hex_bytes bs @ x # rest) = hex_bytes bs @ x # rest"
    using hex_bytes_plain [of bs] assms(2,3) by (cases "hex_bytes bs") (auto simp: plain_digits_def)
  then show ?thesis using assms(1) length_hex_bytes [of bs] nibble_pairs_hex [of bs] by (simp add: htoa_def Let_def)
qed

subsection \<open>Lines\<close>

lemma find_at:
  assumes "length pre = off" "s \<notin> set w" "LF \<notin> set w" "length w \<le> unat n"
  shows "find_patch_section_name (pre @ w @ s # post) off n s = Some (length w, pre @ w @ NUL # post)"
proof -
  have "length (takeWhile (\<lambda>c. c \<noteq> s \<and> c \<noteq> LF) (take (unat n) (w @ s # post))) = length w"
  proof (cases "length w = unat n")
    case True
    have "takeWhile (\<lambda>c. c \<noteq> s \<and> c \<noteq> LF) w = w" using assms(2,3) by (auto simp: takeWhile_eq_all_conv)
    then have "length (takeWhile (\<lambda>c. c \<noteq> s \<and> c \<noteq> LF) w) = length w" by (rule arg_cong)
    then show ?thesis using True by simp
  next
    case False
    then obtain m where "unat n = length w + Suc m" using assms(4) by (metis add_Suc_right le_neq_implies_less less_iff_Suc_add)
    then have "take (unat n) (w @ s # post) = w @ s # take m post" by simp
    moreover have "takeWhile (\<lambda>c. c \<noteq> s \<and> c \<noteq> LF) (w @ s # take m post) = w" by (rule takeWhile_stop) (use assms(2,3) in auto)
    ultimately show ?thesis by simp
  qed
  then show ?thesis using assms(1) by (simp add: find_patch_section_name_def Let_def list_update_append)
qed

text \<open>The fields of a patch in the line buffer, from an offset on.\<close>

lemma ini_patch_data_ok:
  assumes "length pre = pos" "plain_digits A" "plain_digits B" "fst (strtol A 16) = off" "fst (strtol B 16) = len" "unat len < 256"
    and "length src = unat len" "length dst = unat len"
    and "n = of_nat (length (pre @ A @ CHR '':'' # B @ CHR '':'' # hex_bytes src @ CHR '','' # hex_bytes dst) + 1)"
    and "length (pre @ A @ CHR '':'' # B @ CHR '':'' # hex_bytes src @ CHR '','' # hex_bytes dst) < 511"
  shows "ini_patch_data junk kps pos n pt (pre @ A @ CHR '':'' # B @ CHR '':'' # hex_bytes src @ CHR '','' # hex_bytes dst @ NUL # post) =
    Some (pt\<lparr>pt_offset := kps OR off, pt_length := len, pt_src := src, pt_dst := dst\<rparr>, pre @ A @ NUL # B @ NUL # hex_bytes src @ NUL # hex_bytes dst @ NUL # post)"
proof -
  let ?D = "hex_bytes dst @ NUL # post"
  let ?b1 = "pre @ A @ NUL # B @ CHR '':'' # hex_bytes src @ CHR '','' # ?D"
  let ?b2 = "pre @ A @ NUL # B @ NUL # hex_bytes src @ CHR '','' # ?D"
  let ?b3 = "pre @ A @ NUL # B @ NUL # hex_bytes src @ NUL # ?D"
  define p2 where "p2 = pos + length A + 1"
  define p3 where "p3 = p2 + length B + 1"
  define p4 where "p4 = p3 + length (hex_bytes src) + 1"
  have plain: "plain_digits (hex_bytes src)" by (rule hex_bytes_plain)
  have sub: "unat (n - of_nat q) = length (pre @ A @ CHR '':'' # B @ CHR '':'' # hex_bytes src @ CHR '','' # hex_bytes dst) + 1 - q"
    if "q \<le> length (pre @ A @ CHR '':'' # B @ CHR '':'' # hex_bytes src @ CHR '','' # hex_bytes dst) + 1" for q
  proof -
    have "n - of_nat q = of_nat (length (pre @ A @ CHR '':'' # B @ CHR '':'' # hex_bytes src @ CHR '','' # hex_bytes dst) + 1 - q)" using assms(9) that by (simp add: of_nat_diff)
    then show ?thesis using assms(10) by (simp add: unat_of_nat)
  qed
  have f1: "find_patch_section_name (pre @ A @ CHR '':'' # B @ CHR '':'' # hex_bytes src @ CHR '','' # ?D) pos (n - of_nat pos) (CHR '':'') = Some (length A, ?b1)"
    using assms(1,2) sub [of pos] by (intro find_at) (auto simp: plain_digits_def plain_text_def)
  have f2: "find_patch_section_name ?b1 p2 (n - of_nat p2) (CHR '':'') = Some (length B, ?b2)"
    using find_at [of "pre @ A @ [NUL]" p2 "CHR '':''" B "n - of_nat p2" "hex_bytes src @ CHR '','' # ?D"] assms(1,3) sub [of p2]
    by (auto simp: plain_digits_def plain_text_def p2_def)
  have f3: "find_patch_section_name ?b2 p3 (n - of_nat p3) (CHR '','') = Some (length (hex_bytes src), ?b3)"
    using find_at [of "pre @ A @ NUL # B @ [NUL]" p3 "CHR '',''" "hex_bytes src" "n - of_nat p3" ?D] assms(1) plain sub [of p3]
    by (auto simp: plain_digits_def plain_text_def p2_def p3_def)
  have c1: "cstr ?b1 pos = Some A" using cstr_at [of A pre] assms(1,2) by (auto simp: plain_digits_def plain_text_def)
  have c2: "cstr ?b2 p2 = Some B" using cstr_at [of B "pre @ A @ [NUL]"] assms(1,3) by (auto simp: plain_digits_def plain_text_def p2_def)
  have l: "unat (ucast len :: u8) = unat len" using assms(6) by (simp add: unsigned_ucast_eq take_bit_eq_mod)
  have "drop p3 ?b3 = hex_bytes src @ NUL # ?D" "drop p4 ?b3 = hex_bytes dst @ NUL # post" using assms(1) by (simp_all add: p2_def p3_def p4_def numeral_3_eq_3)
  then have h: "htoa (drop p3 ?b3) (ucast len) = Some src" "htoa (drop p4 ?b3) (ucast len) = Some dst"
    using l assms(7,8) by (simp_all add: htoa_hex NUL_def)
  have big: "\<not> 2 ^ 31 \<le> unat len" using assms(6) by simp
  have "data_fill junk (unat len) src = src" "data_fill junk (unat len) dst = dst" using assms(7,8) by (simp_all add: data_fill_def)
  then show ?thesis unfolding ini_patch_data_def f1 option.case prod.case c1 Let_def assms(4) p2_def [symmetric] f2 c2 assms(5) p3_def [symmetric] f3 p4_def [symmetric] h
    using big by simp
qed

text \<open>Patches and sections a file can say, and how it says them.\<close>

definition patch_ok :: "ini_patchset_t \<Rightarrow> bool" where
  "patch_ok pt \<longleftrightarrow> plain_text (pt_name pt) \<and> trimmed (pt_name pt) \<and> CHR ''='' \<notin> set (pt_name pt) \<and> drop_bit 29 (pt_offset pt) < 6 \<and>
     unat (pt_length pt) < 256 \<and> length (pt_src pt) = unat (pt_length pt) \<and> length (pt_dst pt) = unat (pt_length pt)"

definition print_patch :: "ini_patchset_t \<Rightarrow> string" where
  "print_patch pt =
     CHR ''.'' # pt_name pt @ CHR ''='' # digits16 ! unat (drop_bit 29 (pt_offset pt)) # CHR '':'' # hex_num (take_bit 29 (pt_offset pt)) @ CHR '':'' #
     hex_num (pt_length pt) @ CHR '':'' # hex_bytes (pt_src pt) @ CHR '','' # hex_bytes (pt_dst pt)"

definition print_ksec_head :: "ini_kip_sec_t \<Rightarrow> string" where
  "print_ksec_head k = CHR ''['' # ksec_name k @ CHR '':'' # hex_bytes (ksec_hash k) @ '']''"

definition ksec_ok :: "ini_kip_sec_t \<Rightarrow> bool" where
  "ksec_ok k \<longleftrightarrow> plain_text (ksec_name k) \<and> trimmed (ksec_name k) \<and> CHR '':'' \<notin> set (ksec_name k) \<and> CHR '']'' \<notin> set (ksec_name k) \<and> length (ksec_hash k) = 8 \<and>
     length (print_ksec_head k) < 511 \<and> list_all (\<lambda>pt. patch_ok pt \<and> length (print_patch pt) < 511) (ksec_pts k)"

definition print_ksec :: "ini_kip_sec_t \<Rightarrow> string list" where
  "print_ksec k = print_ksec_head k # map print_patch (ksec_pts k)"

definition print_kip_file :: "ini_kip_sec_t list \<Rightarrow> string" where
  "print_kip_file secs = concat (map (\<lambda>l. l @ [LF]) (concat (map print_ksec secs)))"

lemma section_digit: "d < 6 \<Longrightarrow> (of_char (digits16 ! d) - 48 :: u8) = of_nat d"
proof -
  have "\<forall>d \<in> set [0..<6]. (of_char (digits16 ! d) - 48 :: u8) = of_nat d" by code_simp
  then show "d < 6 \<Longrightarrow> (of_char (digits16 ! d) - 48 :: u8) = of_nat d" by simp
qed

lemma small_digit: "d < 6 \<Longrightarrow> (of_nat d :: u8) < 6"
  by (simp add: word_less_nat_alt unat_of_nat)

lemma offset_join: "push_bit 29 (drop_bit 29 v) OR take_bit 29 v = (v :: u32)"
  by (rule bit_word_eqI) (auto simp only: bit_or_iff bit_push_bit_iff bit_drop_bit_eq bit_take_bit_iff possible_bit_word comp_def le_add_diff_inverse not_le)

lemma ini_patch_key_ok:
  assumes ok: "patch_ok pt" and len: "length (print_patch pt) < 511" "length lbuf = 512"
  shows "\<exists>b. ini_patch_key junk (of_nat (length (print_patch pt) + 1)) (fetched (print_patch pt) lbuf) = Some (pt, b) \<and> length b = 512"
proof -
  let ?s = "unat (drop_bit 29 (pt_offset pt))" and ?t = "print_patch pt" and ?n = "of_nat (length (print_patch pt) + 1) :: u32"
  let ?A = "hex_num (take_bit 29 (pt_offset pt))" and ?B = "hex_num (pt_length pt)"
  let ?post = "NUL # drop (length ?t + 2) lbuf"
  define tl where "tl = ?A @ CHR '':'' # ?B @ CHR '':'' # hex_bytes (pt_src pt) @ CHR '','' # hex_bytes (pt_dst pt) @ NUL # ?post"
  define pre where "pre = CHR ''.'' # pt_name pt @ NUL # digits16 ! ?s # [CHR '':'']"
  have nm: "plain_text (pt_name pt)" "CHR ''='' \<notin> set (pt_name pt)" using ok by (simp_all add: patch_ok_def)
  have s6: "?s < 6" using ok by (simp add: patch_ok_def word_less_nat_alt)
  have t: "fetched ?t lbuf = [] @ (CHR ''.'' # pt_name pt) @ CHR ''='' # digits16 ! ?s # CHR '':'' # tl" by (simp add: fetched_def print_patch_def tl_def)
  have un: "unat ?n = length ?t + 1" using len(1) by (simp add: unat_word_ariths unat_of_nat)
  have f: "find_patch_section_name (fetched ?t lbuf) 0 ?n (CHR ''='') = Some (length (pt_name pt) + 1, pre @ tl)"
    unfolding t pre_def using find_at [of "[]" 0 "CHR ''=''" "CHR ''.'' # pt_name pt" ?n "digits16 ! ?s # CHR '':'' # tl"] nm un
    by (auto simp: plain_text_def print_patch_def LF_def)
  have c: "cstr (pre @ tl) 1 = Some (pt_name pt)" using cstr_at [of "pt_name pt" "[CHR ''.'']"] nm by (simp add: pre_def plain_text_def)
  have i: "(pre @ tl) ! (length (pt_name pt) + 1 + 1) = digits16 ! ?s" "\<not> length (pre @ tl) \<le> length (pt_name pt) + 1 + 1" by (simp_all add: pre_def nth_append)
  have sd: "(of_char (digits16 ! ?s) - 48 :: u8) = of_nat ?s" using section_digit [OF s6] .
  have lt: "(of_nat ?s :: u8) < 6" by (rule small_digit [OF s6])
  have k: "push_bit 29 (ucast (of_nat ?s :: u8)) OR take_bit 29 (pt_offset pt) = pt_offset pt"
  proof -
    have "ucast (of_nat ?s :: u8) = drop_bit 29 (pt_offset pt)" using s6 by (simp add: word_unat_eq_iff unsigned_ucast_eq take_bit_eq_mod unat_of_nat unat_mod)
    then show ?thesis using offset_join by metis
  qed
  let ?pt0 = "\<lparr>pt_name = pt_name pt, pt_offset = 0, pt_length = 0, pt_src = [], pt_dst = []\<rparr>"
  let ?b = "pre @ ?A @ NUL # ?B @ NUL # hex_bytes (pt_src pt) @ NUL # hex_bytes (pt_dst pt) @ NUL # ?post"
  have "ini_patch_data junk (push_bit 29 (ucast (of_nat ?s :: u8))) (length (pt_name pt) + 1 + 3) ?n ?pt0 (pre @ tl) =
    Some (?pt0\<lparr>pt_offset := push_bit 29 (ucast (of_nat ?s :: u8)) OR take_bit 29 (pt_offset pt), pt_length := pt_length pt, pt_src := pt_src pt, pt_dst := pt_dst pt\<rparr>, ?b)"
    unfolding tl_def
  proof (rule ini_patch_data_ok)
    show "length pre = length (pt_name pt) + 1 + 3" by (simp add: pre_def)
  qed (use ok len hex_num_plain hex_num_strtol in \<open>simp_all add: patch_ok_def print_patch_def pre_def\<close>)
  then have "ini_patch_key junk ?n (fetched ?t lbuf) = Some (pt, ?b)"
    unfolding ini_patch_key_def f option.case prod.case c Let_def i(1) sd k using i(2) lt strcpy_ns_trimmed [of "pt_name pt"] ok by (simp add: patch_ok_def)
  moreover have "length ?b = 512" using len by (simp add: pre_def print_patch_def)
  ultimately show ?thesis by blast
qed

lemma print_patch_plain: "patch_ok pt \<Longrightarrow> plain_text (print_patch pt)"
proof -
  assume ok: "patch_ok pt"
  have s6: "unat (drop_bit 29 (pt_offset pt)) < 16" using ok by (simp add: patch_ok_def word_less_nat_alt)
  have "plain_digits [digits16 ! unat (drop_bit 29 (pt_offset pt))]"
    using digit_valid [OF s6] by (intro valid_digit_plain) simp
  then show ?thesis using ok hex_num_plain hex_bytes_plain
    by (auto simp: print_patch_def patch_ok_def plain_text_def plain_digits_def NUL_def LF_def CR_def)
qed

lemma print_ksec_head_plain: "ksec_ok k \<Longrightarrow> plain_text (print_ksec_head k)"
  using hex_bytes_plain by (auto simp: print_ksec_head_def ksec_ok_def plain_text_def plain_digits_def NUL_def LF_def CR_def)

lemma kip_line_patch:
  assumes "patch_ok pt" "length (print_patch pt) < 511" "length lbuf = 512"
  shows "\<exists>b. ini_patch_line junk (print_patch pt @ [LF]) (dst, Some k, lbuf) = Some (dst, Some (k\<lparr>ksec_pts := ksec_pts k @ [pt]\<rparr>), b) \<and> length b = 512"
proof -
  have h: "fetched (print_patch pt) lbuf ! 0 = CHR ''.''" by (simp add: fetched_def print_patch_def)
  obtain b where "ini_patch_key junk (of_nat (length (print_patch pt) + 1)) (fetched (print_patch pt) lbuf) = Some (pt, b)" "length b = 512"
    using ini_patch_key_ok [OF assms] by blast
  then show ?thesis unfolding ini_patch_line_def prod.case Let_def line_buffer [OF print_patch_plain [OF assms(1)]] using h by simp
qed

definition close_ksec :: "ini_kip_sec_t list \<Rightarrow> ini_kip_sec_t option \<Rightarrow> ini_kip_sec_t list" where
  "close_ksec dst k = (case k of None \<Rightarrow> dst | Some k \<Rightarrow> dst @ [k])"

lemma kip_line_head:
  assumes ok: "ksec_ok k" and len: "length lbuf = 512"
  shows "\<exists>b. ini_patch_line junk (print_ksec_head k @ [LF]) (dst, ksec, lbuf) = Some (close_ksec dst ksec, Some (k\<lparr>ksec_pts := []\<rparr>), b) \<and> length b = 512"
proof -
  let ?t = "print_ksec_head k" and ?n = "of_nat (length (print_ksec_head k) + 1) :: u32" and ?H = "hex_bytes (ksec_hash k)"
  define post where "post = NUL # NUL # drop (length ?t + 2) lbuf"
  have nm: "plain_text (ksec_name k)" "trimmed (ksec_name k)" "CHR '':'' \<notin> set (ksec_name k)" "CHR '']'' \<notin> set (ksec_name k)" "length (ksec_hash k) = 8"
    and l: "length ?t < 511" using ok by (simp_all add: ksec_ok_def)
  have H: "plain_digits ?H" by (rule hex_bytes_plain)
  have un: "unat ?n = length ?t + 1" using l by (simp add: unat_word_ariths unat_of_nat)
  have t: "fetched ?t lbuf = [] @ (CHR ''['' # ksec_name k @ CHR '':'' # ?H) @ CHR '']'' # post" by (simp add: fetched_def print_ksec_head_def post_def)
  define b1 where "b1 = CHR ''['' # ksec_name k @ CHR '':'' # ?H @ NUL # post"
  define b2 where "b2 = CHR ''['' # ksec_name k @ NUL # ?H @ NUL # post"
  have f1: "find_patch_section_name (fetched ?t lbuf) 0 ?n (CHR '']'') = Some (length (ksec_name k) + 2 + length ?H, b1)"
    unfolding t using find_at [of "[]" 0 "CHR '']''" "CHR ''['' # ksec_name k @ CHR '':'' # ?H" ?n post] nm H un
    by (auto simp: plain_text_def plain_digits_def print_ksec_head_def LF_def b1_def)
  have c1: "cstr b1 1 = Some (ksec_name k @ CHR '':'' # ?H)"
    using cstr_at [of "ksec_name k @ CHR '':'' # ?H" "[CHR ''['']" post] nm H by (auto simp: b1_def plain_text_def plain_digits_def NUL_def)
  have u2: "unat (of_nat (length (ksec_name k @ CHR '':'' # ?H)) :: u32) = length (ksec_name k @ CHR '':'' # ?H)"
    using l by (simp add: print_ksec_head_def unat_word_ariths unat_of_nat)
  have f2: "find_patch_section_name b1 1 (of_nat (length (ksec_name k @ CHR '':'' # ?H))) (CHR '':'') = Some (length (ksec_name k), b2)"
    using find_at [of "[CHR ''['']" 1 "CHR '':''" "ksec_name k" "of_nat (length (ksec_name k @ CHR '':'' # ?H))" "?H @ NUL # post", unfolded u2] nm
    by (simp add: b1_def b2_def plain_text_def)
  have c2: "cstr b2 1 = Some (ksec_name k)" using cstr_at [of "ksec_name k" "[CHR ''['']"] nm by (simp add: b2_def plain_text_def)
  have "drop (1 + length (ksec_name k) + 1) b2 = ?H @ NUL # post" by (simp add: b2_def)
  then have h: "htoa (drop (1 + length (ksec_name k) + 1) b2) 8 = Some (ksec_hash k)" using htoa_hex [of "ksec_hash k" 8 NUL post] nm(5) by (simp add: NUL_def)
  have "ini_create_kip_section dst ksec 1 b1 = Some (close_ksec dst ksec, k\<lparr>ksec_pts := []\<rparr>, b2)"
    unfolding ini_create_kip_section_def c1 option.case f2 prod.case c2 h using strcpy_ns_trimmed [OF nm(2)] by (simp add: close_ksec_def)
  moreover have "fetched ?t lbuf ! 0 = CHR ''[''" "2 < length ?t + 1" by (simp_all add: fetched_def print_ksec_head_def)
  ultimately have "ini_patch_line junk (?t @ [LF]) (dst, ksec, lbuf) = Some (close_ksec dst ksec, Some (k\<lparr>ksec_pts := []\<rparr>), b2)"
    unfolding ini_patch_line_def prod.case Let_def line_buffer [OF print_ksec_head_plain [OF ok]] f1 option.case by simp
  moreover have "length b2 = 512" using len l by (simp add: b2_def post_def print_ksec_head_def)
  ultimately show ?thesis by blast
qed

subsection \<open>Files\<close>

fun run_kip_lines :: "(nat \<Rightarrow> u8) \<Rightarrow> string list \<Rightarrow> kippatch_state \<Rightarrow> kippatch_state option" where
  "run_kip_lines junk [] st = Some st"
| "run_kip_lines junk (l # ls) st = (case ini_patch_line junk (l @ [LF]) st of None \<Rightarrow> None | Some st1 \<Rightarrow> run_kip_lines junk ls st1)"

lemma run_kip_lines_append:
  "run_kip_lines junk (as @ bs) st = (case run_kip_lines junk as st of None \<Rightarrow> None | Some st1 \<Rightarrow> run_kip_lines junk bs st1)"
  by (induction as arbitrary: st) (auto split: option.split)

lemma ini_patch_lines_run:
  assumes "ls \<noteq> []" "\<forall>l \<in> set ls. plain_text l \<and> length l < 511"
  shows "ini_patch_lines junk (concat (map (\<lambda>l. l @ [LF]) ls)) st = run_kip_lines junk ls st"
  using assms
proof (induction ls arbitrary: st)
  case (Cons l ls)
  have g: "f_gets 511 (concat (map (\<lambda>l. l @ [LF]) (l # ls))) = (l @ [LF], concat (map (\<lambda>l. l @ [LF]) ls))"
    using f_gets_line [of l 511 "concat (map (\<lambda>l. l @ [LF]) ls)"] Cons.prems by simp
  have "concat (map (\<lambda>l. l @ [LF]) ls) = [] \<longleftrightarrow> ls = []" by (cases ls) simp_all
  then have "ini_patch_lines junk (concat (map (\<lambda>l. l @ [LF]) (l # ls))) st =
      (case ini_patch_line junk (l @ [LF]) st of None \<Rightarrow> None
       | Some st1 \<Rightarrow> if ls = [] then Some st1 else ini_patch_lines junk (concat (map (\<lambda>l. l @ [LF]) ls)) st1)"
    by (subst ini_patch_lines.simps) (simp only: g prod.case Let_def)
  then show ?case using Cons by (auto split: option.split)
qed simp

lemma run_patches:
  assumes "list_all (\<lambda>pt. patch_ok pt \<and> length (print_patch pt) < 511) pts" "length lbuf = 512"
  shows "\<exists>b. run_kip_lines junk (map print_patch pts) (dst, Some k, lbuf) = Some (dst, Some (k\<lparr>ksec_pts := ksec_pts k @ pts\<rparr>), b) \<and> length b = 512"
  using assms
proof (induction pts arbitrary: k lbuf)
  case (Cons pt pts)
  obtain b where b: "ini_patch_line junk (print_patch pt @ [LF]) (dst, Some k, lbuf) = Some (dst, Some (k\<lparr>ksec_pts := ksec_pts k @ [pt]\<rparr>), b)" "length b = 512"
    using kip_line_patch [of pt lbuf junk dst k] Cons.prems by auto
  then show ?case using Cons.IH [of b "k\<lparr>ksec_pts := ksec_pts k @ [pt]\<rparr>"] Cons.prems by simp
qed simp

lemma run_ksec:
  assumes "ksec_ok k" "length lbuf = 512"
  shows "\<exists>b. run_kip_lines junk (print_ksec k) (dst, ksec, lbuf) = Some (close_ksec dst ksec, Some k, b) \<and> length b = 512"
proof -
  obtain b where b: "ini_patch_line junk (print_ksec_head k @ [LF]) (dst, ksec, lbuf) = Some (close_ksec dst ksec, Some (k\<lparr>ksec_pts := []\<rparr>), b)" "length b = 512"
    using kip_line_head [OF assms] by blast
  have "list_all (\<lambda>pt. patch_ok pt \<and> length (print_patch pt) < 511) (ksec_pts k)" using assms(1) by (simp add: ksec_ok_def)
  from run_patches [OF this b(2), of junk "close_ksec dst ksec" "k\<lparr>ksec_pts := []\<rparr>"] show ?thesis using b(1) by (simp add: print_ksec_def)
qed

lemma run_ksecs:
  assumes "list_all ksec_ok secs" "length lbuf = 512"
  shows "\<exists>d k b. run_kip_lines junk (concat (map print_ksec secs)) (dst, ksec, lbuf) = Some (d, k, b) \<and> close_ksec d k = close_ksec dst ksec @ secs"
  using assms
proof (induction secs arbitrary: dst ksec lbuf)
  case (Cons k secs)
  obtain b where b: "run_kip_lines junk (print_ksec k) (dst, ksec, lbuf) = Some (close_ksec dst ksec, Some k, b)" "length b = 512"
    using run_ksec [of k lbuf junk dst ksec] Cons.prems by auto
  then show ?case using Cons.IH [of b "close_ksec dst ksec" "Some k"] Cons.prems by (auto simp: run_kip_lines_append close_ksec_def)
qed simp

text \<open>
  C21. A patch file that is printed from sections with their patches is parsed to these sections: names, hashes,
  places, lengths, old and new bytes.
\<close>

theorem ini_patch_parse_print:
  assumes "list_all ksec_ok secs" "secs \<noteq> []" "length lbuf = 512"
  shows "ini_patch_parse junk lbuf (Some (print_kip_file secs)) dst = Some (False, dst @ secs)"
proof -
  have "concat (map print_ksec secs) \<noteq> []" using assms(2) by (cases secs) (simp_all add: print_ksec_def)
  moreover have "\<forall>l \<in> set (concat (map print_ksec secs)). plain_text l \<and> length l < 511"
    using assms(1) print_patch_plain print_ksec_head_plain by (fastforce simp: list_all_iff print_ksec_def ksec_ok_def)
  ultimately have "ini_patch_lines junk (print_kip_file secs) (dst, None, lbuf) = run_kip_lines junk (concat (map print_ksec secs)) (dst, None, lbuf)"
    unfolding print_kip_file_def by (rule ini_patch_lines_run)
  moreover obtain d k b where "run_kip_lines junk (concat (map print_ksec secs)) (dst, None, lbuf) = Some (d, k, b)" "close_ksec d k = dst @ secs"
    using run_ksecs [OF assms(1,3), of junk dst None] by (auto simp: close_ksec_def)
  ultimately show ?thesis by (simp add: ini_patch_parse_def close_ksec_def)
qed

definition demo_kip_secs :: "ini_kip_sec_t list" where
  "demo_kip_secs = [\<lparr>ksec_name = ''FS'', ksec_hash = [0xDE, 0x9F, 0xDD, 0xA4, 8, 0x5D, 0xD5, 0xFE],
     ksec_pts = [\<lparr>pt_name = ''nosig'', pt_offset = 0x20001234, pt_length = 2, pt_src = [0xE0, 3], pt_dst = [0x1F, 0x20]\<rparr>]\<rparr>]"

theorem ini_patch_parse_print_witness:
  "ini_patch_parse (\<lambda>_. 0) (replicate 512 NUL) (Some (print_kip_file demo_kip_secs)) [] = Some (False, demo_kip_secs)"
proof -
  have "list_all ksec_ok demo_kip_secs" by code_simp
  then show ?thesis using ini_patch_parse_print [of demo_kip_secs "replicate 512 NUL" "\<lambda>_. 0" "[]"] by (simp add: demo_kip_secs_def)
qed

end
