(* ===== verification/Spec2Isabelle.thy ===== *)
theory Spec2Isabelle
  imports Ums_Demo Heap_Alloc Rtc_Date Links Sd Bis_Flush Ini Sdmmc_Demo Pkg2_Patch_Demo Emummc_Demo Kippatch_Print
begin

text \<open>
  Verification of hekate, a bootloader and toolbox for the Nintendo Switch.

  \<^bold>\<open>The program.\<close> hekate is built from the development kit \<open>bdk/\<close> (drivers, storage, USB, memory,
  utilities), the bootloader \<open>bootloader/\<close>, the GUI \<open>nyx/\<close> and loadable modules. This development
  models the parts of the kit that carry logic of their own, above the register level: the USB mass
  storage gadget that offers an SD card or an eMMC partition to a host, the heap, the storage layer of
  SD cards and eMMC with its two front ends, the encrypted partitions of the eMMC with their cluster cache and the AES
  modes they use, the driver of the security engine, the real time clock, directory listings and configuration
  files, linked lists, number parsing, checksums and formatted output; and of the bootloader the
  firmware package with kernel and initial processes (package2) that it opens, changes and builds, and
  the emulated eMMC.

  \<^bold>\<open>Conventions.\<close> Machine integers are words at their width, so every sum and shift wraps as the code
  does. State is a record per component, an operation returns its result and the new state. Results
  that are 0 or an error code in C are kept as integers where the code looks at the value and are
  booleans (true is the error) where it does not. Code outside the modelled files (USB controllers,
  the SD host driver, FatFs, the AES engine, the clock chip) is a record of functions passed as
  \<open>env\<close>, on a state type that stays a variable; what a theorem needs of it is a hypothesis, and a
  witness instantiates it.

  \<^bold>\<open>Theories.\<close>

  \<^item> \<open>Prelude\<close>: integer types, shared macros of \<open>bdk/utils/types.h\<close>, lemmas on words and lists. \<open>Bytes\<close>:
    little endian fields, memory read and written by ranges.

  \<^item> \<open>Util\<close> (\<open>bdk/utils/util.c\<close>) and \<open>Sprintf\<close> (\<open>bdk/utils/sprintf.c\<close>): bit counts, \<open>sqrt64\<close>, \<open>strtol\<close> and
    \<open>atoi\<close>, the table driven CRC-32, comparison functions; \<open>s_printf\<close>. Shown: CRC-32 equals the bitwise
    definition, \<open>atoi\<close> equals a reference parser, printing and parsing are inverse, \<open>sqrt64\<close> terminates.

  \<^item> \<open>Links\<close> (\<open>bdk/utils/list.h\<close>): links in a store from addresses to records. The locale
    \<open>linked_sequence\<close> is the contract of a list, interpreted forwards and backwards; any script of
    operations has the effect of the same operations on a sequence.

  \<^item> \<open>Dirlist\<close> (\<open>bdk/utils/dirlist.c\<close>) and \<open>Ini\<close> (\<open>bdk/utils/ini.c\<close>): the locale \<open>comparison\<close> shows that the
    exchange sort orders by any comparison function, interpreted for both the code uses. Parsing a
    configuration inverts printing it. Shown as flaws: the emptied name in a full listing, the stale value
    of a line without an equals sign.

  \<^item> \<open>Heap\<close>, \<open>Heap_Alloc\<close> (\<open>bdk/mem/heap.c\<close>): headers linked through memory in both builds. \<open>heap_rel\<close>
    relates them to a list of blocks, \<open>malloc\<close> and \<open>free\<close> refine first fit with splitting and merging;
    the locale \<open>allocator\<close> gives freshness, disjointness and release.

  \<^item> \<open>Rtc\<close>, \<open>Rtc_Date\<close> (\<open>bdk/rtc/max77620-rtc.c\<close>): clock registers, calendar conversions in 32 bit
    arithmetic compared with the Gregorian calendar, the reboot reason in the alarm registers.

  \<^item> \<open>Ums_Base\<close>, \<open>Ums_Xfer\<close>, \<open>Ums_Scsi\<close>, \<open>Ums_Main\<close> (\<open>bdk/usb/usb_gadget_ums.c\<close>): data, bulk transfers, the
    SCSI handlers, dispatch, wrappers, exceptions and main loop. \<open>Ums_Write\<close> settles when a WRITE returns,
    \<open>Ums_Contract\<close> states the contract of a handler (locale \<open>scsi_handler\<close>, interpreted for each of them) and
    what follows for every command, \<open>Ums_Read\<close> the data a READ delivers, \<open>Ums_Loop\<close> the wrappers, the
    reachable states and the end of the loop, \<open>Ums_Demo\<close> runs on a concrete disk.

  \<^item> \<open>Emmc\<close> (\<open>bdk/storage/emmc.c\<close>) and \<open>Sd\<close> (\<open>bdk/storage/sd.c\<close>): both initialise by trying bus modes from
    the fastest down. The locale \<open>mode_fallback\<close> has that argument once and is interpreted for both.
    Also the partition table, mounting and whole file access.

  \<^item> \<open>Sdmmc_Base\<close>, \<open>Sdmmc_Mmc\<close>, \<open>Sdmmc_Sd\<close>, \<open>Sdmmc_Rw\<close> (\<open>bdk/storage/sdmmc.c\<close>): commands and status checks,
    initialisation of an eMMC, of an SD card and of a game card with their registers and speeds, requests
    with retries and recovery through the front ends. The controller driver is a parameter; \<open>card_host\<close> in
    \<open>Sdmmc_Safe\<close> is its contract with a card, under which initialisation leaves the card alone.
    \<open>Sdmmc_Data\<close> shows that the request loop returns and moves the right sectors, \<open>Sdmmc_Disk\<close> that the
    storage fulfils the locale \<open>faulty_disk\<close>, \<open>Sdmmc_State\<close> what an initialisation keeps of the storage
    context (locale \<open>storage_inv\<close>, interpreted for the lengths of the registers and for the partition),
    \<open>Sdmmc_Regs\<close> register fields, capacities and the end of polling; \<open>Sdmmc_Demo\<close> has a card and the
    witnesses. Shown as a flaw: recovery selects the user area of an eMMC.

  \<^item> \<open>Se\<close>, \<open>Se_Modes\<close> (\<open>bdk/sec/se.c\<close>): one shot operations, ECB, both XTS variants, doubling of the tweak
    in the field of 2 to the 128 elements; the key table, CBC, OFB and CTR, SHA-256 in one shot and in
    parts, random numbers, CMAC. \<open>Se_Doc\<close> states the engine's documentation over a view of its state (key
    table, counter) and shows the counter mode as the exclusive or with a key stream for every length, and
    the CMAC equal to the standard's; \<open>Se_Ref\<close> is an engine that fulfils the documentation, over any cipher.

  \<^item> \<open>Pkg2\<close> (\<open>bootloader/hos/pkg2.c\<close>, \<open>pkg2.h\<close>): the package header, process images (KIPs) and their
    list, opening a package and building one with the engine of \<open>Se_Modes\<close>. \<open>Pkg2_Round\<close> has the layout of
    headers and images in bytes and the list in memory, \<open>Pkg2_Build\<close> the round trip of packages with INI1 in
    its own section, \<open>Pkg2_Newkern\<close> that of packages with INI1 inside the kernel, found by scanning the
    kernel's start code; \<open>Pkg2_Demo\<close> has concrete packages.

  \<^item> \<open>Blz\<close> (\<open>bdk/libs/compr/blz.c\<close>): the decompressor of image sections, in place and backwards, and that it
    inverts an encoding by literals and references. \<open>Kippatch\<close> (\<open>bootloader/hos/pkg2_ini_kippatch.c\<close>): the
    patch file, \<open>Kippatch_Print\<close> that parsing inverts printing it. \<open>Pkg2_Patch\<close> (\<open>bootloader/hos/pkg2.c\<close>):
    decompression and patching of images, joining of the patches of the file, injection of the emulated eMMC.
    \<open>Pkg2_Apply\<close> shows that decompression replaces the compressed sections, that patches change exactly their
    bytes and can be applied again, and that no request is dropped; \<open>Pkg2_Patch_Demo\<close> has an image.

  \<^item> \<open>Emummc\<close> (\<open>bootloader/storage/emummc.c\<close>): the emulated eMMC, whose requests go to the eMMC, to sectors of the
    SD card or to part files. \<open>Emummc_Disk\<close> shows that each of them fulfils the locale \<open>faulty_disk\<close>, over
    laws of the file system (\<open>fs_laws\<close>), and leaves the rest of the SD card alone; \<open>Emummc_Demo\<close> has an instance.

  \<^item> \<open>Bis\<close> (\<open>bdk/storage/nx_emmc_bis.c\<close>): sector access, cluster cache, flush. \<open>Bis_Sector\<close> gives each sector
    in the clear and the invariant of the saved tweak, \<open>Bis_View\<close> the partition seen through the cache,
    \<open>Bis_Flush\<close> the flush and the locale \<open>sector_device\<close>, the contract of a block device, with its
    interpretation on the partition.

  \<^bold>\<open>Loops and bounds.\<close> Loops with a variant are total functions: the fall back over modes (the mode falls),
  transfers by chunks (the count falls), READ and the scan of the heap. The WRITE loop of the gadget and its
  main loop may run forever; they are partial functions with \<open>None\<close> for not returning, and returning is
  proved as such, as it is for the request loop of the storage, whose recoveries lower the mode. Polling of a card
  is bounded by 1502 tries, enough for its 1500 milliseconds by \<open>timed_poll_limit\<close>. \<open>sqrt64\<close> carries fuel that is proved sufficient below \<open>2 ^ 32\<close>. List walks are bounded by a
  number of steps that covers every ring of 32 bit addresses. The flush loop runs over \<open>top_idx\<close> entries, which
  it does not change. The cluster cache has room for 16384 clusters; the refinement is stated while there is
  room, because a flush in the middle of a transfer is subject to the loss shown by
  \<open>nx_emmc_bis_flush_two_loses\<close>.

  \<^bold>\<open>Not modelled.\<close> The SD host driver (\<open>sdmmc_driver.c\<close>), USB controllers, display, touch, clocks, DRAM
  training and the power controller are register sequences with delays; FatFs, LVGL, LZ4, LZMA and the
  ELF loader are third party code; the menus and the GUI are drawing and input. Of \<open>sdmmc.c\<close> the register dumps
  and the DDR200 build are left out, of the security engine the context save of the keys and the wait for the
  engine, which is part of its parameter;
  of package2 the table of built in patches and of kernels is a value the operations take.
\<close>

end
